(* ===== verification/OB_Prelude.thy ===== *)
theory OB_Prelude
  imports Main "HOL-Library.AList"
begin

text \<open>
  Shared vocabulary of the development: identifiers, instants of the database clock, results of
  fallible operations, and tables. A table is the model of one SQL relation with a primary key:
  an association list from keys to rows. \<open>update_where\<close> is the conditional
  \<^verbatim>\<open>UPDATE ... WHERE pk = k AND cond\<close> whose \<^verbatim>\<open>rowcount\<close> the Python code tests; the
  locale \<open>keyed_store\<close> is the contract the components use (what a read returns after a write, how
  a write changes a count), \<open>fencing\<close> is the contract of a generation-numbered owner, which both the
  Agent driver and the effect ledger implement; \<open>invariant_system\<close> and its extensions \<open>bounded_system\<close>
  and \<open>evolving_rows\<close> are those of transition systems; \<open>codec\<close> is that of a writer and its reader.
\<close>

section \<open>Identifiers, time, results\<close>

type_synonym ident = string

text \<open>Instants and durations are whole microseconds of the database clock, the resolution of
  Python's \<^verbatim>\<open>datetime\<close> and of PostgreSQL's \<^verbatim>\<open>clock_timestamp()\<close>.\<close>

type_synonym time = int

definition seconds :: "int \<Rightarrow> time" where
  "seconds n = n * 1000000"

lemma seconds_less_iff [simp]: "seconds m < seconds n \<longleftrightarrow> m < n"
  by (simp add: seconds_def)

lemma seconds_pos_iff [simp]: "0 < seconds n \<longleftrightarrow> 0 < n"
  by (simp add: seconds_def)

text \<open>\<open>Inl\<close> is a raised exception, \<open>Inr\<close> a returned value.\<close>

definition rbind :: "'e + 'a \<Rightarrow> ('a \<Rightarrow> 'e + 'b) \<Rightarrow> 'e + 'b" where
  "rbind r f = (case r of Inl e \<Rightarrow> Inl e | Inr x \<Rightarrow> f x)"

lemma rbind_simps [simp]: "rbind (Inl e) f = Inl e" "rbind (Inr x) f = f x"
  by (simp_all add: rbind_def)

lemma rbind_Inr_iff: "rbind r f = Inr y \<longleftrightarrow> (\<exists>x. r = Inr x \<and> f x = Inr y)"
  by (cases r) auto

definition guard_that :: "bool \<Rightarrow> 'e \<Rightarrow> 'e + unit" where
  "guard_that b e = (if b then Inr () else Inl e)"

lemma guard_that_Inr_iff [simp]: "guard_that b e = Inr u \<longleftrightarrow> b"
  by (simp add: guard_that_def)

text \<open>SQL's three-valued comparison with a nullable column: NULL satisfies no comparison.\<close>

definition after_now :: "time option \<Rightarrow> time \<Rightarrow> bool" where
  "after_now t now = (case t of None \<Rightarrow> False | Some e \<Rightarrow> now < e)"

definition not_after :: "time option \<Rightarrow> time \<Rightarrow> bool" where
  "not_after t now = (case t of None \<Rightarrow> False | Some e \<Rightarrow> e \<le> now)"

lemma after_now_simps [simp]:
  "after_now None now = False" "after_now (Some e) now = (now < e)"
  by (simp_all add: after_now_def)

lemma not_after_simps [simp]:
  "not_after None now = False" "not_after (Some e) now = (e \<le> now)"
  by (simp_all add: not_after_def)

lemma after_now_anti: "after_now t now' \<Longrightarrow> now \<le> now' \<Longrightarrow> after_now t now"
  by (cases t) auto

section \<open>Tables\<close>

type_synonym ('k, 'r) table = "('k \<times> 'r) list"

definition tget :: "('k, 'r) table \<Rightarrow> 'k \<Rightarrow> 'r option" where
  "tget t k = map_of t k"

definition tput :: "'k \<Rightarrow> 'r \<Rightarrow> ('k, 'r) table \<Rightarrow> ('k, 'r) table" where
  "tput k r t = AList.update k r t"

definition tdel :: "'k \<Rightarrow> ('k, 'r) table \<Rightarrow> ('k, 'r) table" where
  "tdel k t = AList.delete k t"

definition twf :: "('k, 'r) table \<Rightarrow> bool" where
  "twf t = distinct (map fst t)"

definition tcount :: "('k \<Rightarrow> 'r \<Rightarrow> bool) \<Rightarrow> ('k, 'r) table \<Rightarrow> nat" where
  "tcount P t = length (filter (\<lambda>(k, r). P k r) t)"

definition old_hit :: "('k \<Rightarrow> 'r \<Rightarrow> bool) \<Rightarrow> 'k \<Rightarrow> 'r option \<Rightarrow> nat" where
  "old_hit P k r = (case r of None \<Rightarrow> 0 | Some r0 \<Rightarrow> if P k r0 then 1 else 0)"

lemma old_hit_simps [simp]:
  "old_hit P k None = 0" "old_hit P k (Some r) = (if P k r then 1 else 0)"
  by (simp_all add: old_hit_def)

lemma tget_Nil [simp]: "tget [] k = None"
  by (simp add: tget_def)

lemma tget_tput: "tget (tput k r t) k' = (if k' = k then Some r else tget t k')"
  by (simp add: tget_def tput_def update_conv')

lemma tget_tdel: "tget (tdel k t) k' = (if k' = k then None else tget t k')"
  by (simp add: tget_def tdel_def delete_conv')

lemma twf_tdel: "twf t \<Longrightarrow> twf (tdel k t)"
  by (simp add: twf_def tdel_def distinct_delete)

lemma twf_Nil [simp]: "twf []"
  by (simp add: twf_def)

lemma twf_tput: "twf t \<Longrightarrow> twf (tput k r t)"
  by (simp add: twf_def tput_def distinct_update)

lemma tput_tput [simp]: "tput k r (tput k r' t) = tput k r t"
  by (induction t) (auto simp: tput_def)

lemma tget_in: "tget t k = Some r \<Longrightarrow> (k, r) \<in> set t"
  by (simp add: tget_def map_of_SomeD)

lemma tget_iff_in: "twf t \<Longrightarrow> tget t k = Some r \<longleftrightarrow> (k, r) \<in> set t"
  by (simp add: tget_def twf_def)

lemma tcount_tput:
  "twf t \<Longrightarrow> tcount P (tput k r t) + old_hit P k (tget t k) = tcount P t + (if P k r then 1 else 0)"
proof (induction t)
  case Nil
  then show ?case by (simp add: tcount_def tput_def tget_def)
next
  case (Cons x t)
  obtain k0 r0 where x: "x = (k0, r0)" by (cases x)
  show ?case
  proof (cases "k0 = k")
    case True
    with x show ?thesis by (simp add: tcount_def tput_def tget_def)
  next
    case False
    with x Cons show ?thesis
      by (auto simp: tcount_def tput_def tget_def twf_def split: if_splits)
  qed
qed

lemma tcount_mono:
  "(\<And>k r. (k, r) \<in> set t \<Longrightarrow> P k r \<Longrightarrow> Q k r) \<Longrightarrow> tcount P t \<le> tcount Q t"
  by (induction t) (auto simp: tcount_def)

text \<open>The contract of a keyed store.\<close>

locale keyed_store =
  fixes get :: "'t \<Rightarrow> 'k \<Rightarrow> 'r option"
    and put :: "'k \<Rightarrow> 'r \<Rightarrow> 't \<Rightarrow> 't"
    and wf :: "'t \<Rightarrow> bool"
    and count :: "('k \<Rightarrow> 'r \<Rightarrow> bool) \<Rightarrow> 't \<Rightarrow> nat"
  assumes get_put: "get (put k r t) k' = (if k' = k then Some r else get t k')"
    and wf_put: "wf t \<Longrightarrow> wf (put k r t)"
    and count_put: "wf t \<Longrightarrow> count P (put k r t) + old_hit P k (get t k) = count P t + (if P k r then 1 else 0)"
begin

lemma count_put_same:
  "wf t \<Longrightarrow> get t k = Some r0 \<Longrightarrow> P k r = P k r0 \<Longrightarrow> count P (put k r t) = count P t"
  using count_put [of t P k r] by auto

lemma count_put_off:
  "wf t \<Longrightarrow> \<not> P k r \<Longrightarrow> count P (put k r t) \<le> count P t"
  using count_put [of t P k r] by simp

lemma count_put_on:
  "wf t \<Longrightarrow> count P (put k r t) \<le> Suc (count P t)"
  using count_put [of t P k r] by (simp split: if_splits)

lemma count_put_new:
  "wf t \<Longrightarrow> P k r \<Longrightarrow> old_hit P k (get t k) = 0 \<Longrightarrow> count P (put k r t) = Suc (count P t)"
  using count_put [of t P k r] by simp

lemma count_put_still:
  "wf t \<Longrightarrow> (P k r \<Longrightarrow> \<exists>r0. get t k = Some r0 \<and> P k r0) \<Longrightarrow> count P (put k r t) \<le> count P t"
  using count_put [of t P k r] by (cases "P k r") auto

end

interpretation tbl: keyed_store tget tput twf tcount
  by unfold_locales (simp_all add: tget_tput twf_tput tcount_tput)

text \<open>A conditional \<^verbatim>\<open>UPDATE\<close> of one row by primary key, with whether it matched.\<close>

definition update_where ::
  "'k \<Rightarrow> ('r \<Rightarrow> bool) \<Rightarrow> ('r \<Rightarrow> 'r) \<Rightarrow> ('k, 'r) table \<Rightarrow> ('k, 'r) table \<times> bool" where
  "update_where k P f t = (case tget t k of
       None \<Rightarrow> (t, False)
     | Some r \<Rightarrow> if P r then (tput k (f r) t, True) else (t, False))"

lemma update_where_match:
  "snd (update_where k P f t) \<longleftrightarrow> (\<exists>r. tget t k = Some r \<and> P r)"
  by (simp add: update_where_def split: option.splits)

lemma update_where_miss:
  "\<not> snd (update_where k P f t) \<Longrightarrow> fst (update_where k P f t) = t"
  by (simp add: update_where_def split: option.splits if_splits)

lemma twf_update_where: "twf t \<Longrightarrow> twf (fst (update_where k P f t))"
  by (simp add: update_where_def twf_tput split: option.splits)

lemma tget_update_where:
  "tget (fst (update_where k P f t)) k' =
     (if k' = k then map_option (\<lambda>r. if P r then f r else r) (tget t k) else tget t k')"
  by (auto simp: update_where_def tget_tput split: option.splits)

lemmas table_simps = tget_tput tget_tdel tget_update_where update_where_match

section \<open>Generation fencing\<close>

text \<open>
  The contract of a generation-numbered owner: a token names the generation it was issued for,
  a token that is accepted carries the current generation, and no step lowers the generation.
  Everything the components need about stale workers follows.
\<close>

locale fencing =
  fixes gen :: "'s \<Rightarrow> int"
    and holds :: "'tok \<Rightarrow> 's \<Rightarrow> bool"
    and tok_gen :: "'tok \<Rightarrow> int"
    and step :: "'s \<Rightarrow> 's \<Rightarrow> bool"
  assumes holds_gen: "holds k s \<Longrightarrow> tok_gen k = gen s"
    and gen_mono: "step s s' \<Longrightarrow> gen s \<le> gen s'"
begin

lemma gen_mono_steps: "step\<^sup>*\<^sup>* s s' \<Longrightarrow> gen s \<le> gen s'"
proof (induction rule: rtranclp_induct)
  case base
  show ?case by simp
next
  case (step t u)
  then show ?case using gen_mono by fastforce
qed

lemma stale_forever:
  assumes "tok_gen k < gen s" and "step\<^sup>*\<^sup>* s s'"
  shows "\<not> holds k s'"
  using assms gen_mono_steps [of s s'] holds_gen [of k s'] by auto

lemma holders_agree: "holds k s \<Longrightarrow> holds k' s \<Longrightarrow> tok_gen k = tok_gen k'"
  by (simp add: holds_gen)

end

section \<open>Transition systems\<close>

text \<open>A step relation with an invariant.\<close>

locale invariant_system =
  fixes step :: "'s \<Rightarrow> 's \<Rightarrow> bool"
    and inv :: "'s \<Rightarrow> bool"
  assumes inv_step: "inv s \<Longrightarrow> step s s' \<Longrightarrow> inv s'"
begin

lemma inv_steps: "step\<^sup>*\<^sup>* s s' \<Longrightarrow> inv s \<Longrightarrow> inv s'"
  by (induction rule: rtranclp_induct) (auto intro: inv_step)

lemma guarded_steps:
  assumes "step\<^sup>*\<^sup>* s s'" and "inv s"
  shows "(\<lambda>a b. inv a \<and> step a b)\<^sup>*\<^sup>* s s'"
  using assms(1)
proof (induction rule: rtranclp_induct)
  case (step t u)
  with inv_steps [OF step(1) assms(2)] show ?case by (auto intro: rtranclp.rtrancl_into_rtrancl)
qed simp

end

text \<open>With a natural-number measure that every step lowers, all runs are finite, with an explicit bound.\<close>

locale bounded_system = invariant_system step inv
  for step :: "'s \<Rightarrow> 's \<Rightarrow> bool" and inv :: "'s \<Rightarrow> bool" +
  fixes fuel :: "'s \<Rightarrow> nat"
  assumes fuel_step: "inv s \<Longrightarrow> step s s' \<Longrightarrow> fuel s' < fuel s"
begin

lemma run_bound:
  assumes "(step ^^ k) s s'" and "inv s"
  shows "k + fuel s' \<le> fuel s"
  using assms
proof (induction k arbitrary: s')
  case (Suc k)
  then obtain t where t: "(step ^^ k) s t" "step t s'" by auto
  then have "step\<^sup>*\<^sup>* s t" by (simp add: relpowp_imp_rtranclp)
  with Suc.prems(2) have "inv t" by (rule inv_steps [rotated])
  with t Suc.IH [OF t(1) Suc.prems(2)] fuel_step [of t s'] show ?case by simp
qed simp

end

text \<open>
  With rows that no step deletes and that change only along a transitive relation, a row is found
  again, evolved, after any number of steps.
\<close>

locale evolving_rows = invariant_system step inv
  for step :: "'s \<Rightarrow> 's \<Rightarrow> bool" and inv :: "'s \<Rightarrow> bool" +
  fixes row :: "'s \<Rightarrow> 'k \<Rightarrow> 'r option"
    and ev :: "'r \<Rightarrow> 'r \<Rightarrow> bool"
  assumes ev_refl: "ev r r"
    and ev_trans: "ev a b \<Longrightarrow> ev b c \<Longrightarrow> ev a c"
    and row_step: "inv s \<Longrightarrow> step s s' \<Longrightarrow> row s k = Some r \<Longrightarrow> \<exists>r'. row s' k = Some r' \<and> ev r r'"
begin

lemma row_steps:
  assumes "step\<^sup>*\<^sup>* s s'" and "inv s" and "row s k = Some r"
  shows "\<exists>r'. row s' k = Some r' \<and> ev r r'"
  using assms(1)
proof (induction rule: rtranclp_induct)
  case base
  show ?case using assms(3) ev_refl by blast
next
  case (step t u)
  then show ?case using row_step inv_steps [OF step(1) assms(2)] ev_trans by blast
qed

end

section \<open>Codecs\<close>

text \<open>A writer and its reader: what the reader accepts is well typed, and what was written reads back.\<close>

locale codec =
  fixes enc :: "'a \<Rightarrow> 'raw"
    and dec :: "'raw \<Rightarrow> 'e + 'a"
    and typed :: "'a \<Rightarrow> bool"
    and stable :: "'a \<Rightarrow> bool"
  assumes dec_typed: "dec raw = Inr x \<Longrightarrow> typed x"
    and dec_enc: "typed x \<Longrightarrow> stable x \<Longrightarrow> dec (enc x) = Inr x"
begin

lemma reread: "dec raw = Inr x \<Longrightarrow> stable x \<Longrightarrow> dec (enc x) = Inr x"
  by (simp add: dec_enc dec_typed)

lemma enc_inj: "typed x \<Longrightarrow> stable x \<Longrightarrow> typed y \<Longrightarrow> stable y \<Longrightarrow> enc x = enc y \<Longrightarrow> x = y"
  by (metis dec_enc sum.inject(2))

end

end
