(* ===== verification/Abort_Signals.thy ===== *)
theory Abort_Signals
  imports OB_Prelude
begin

text \<open>
  \<^verbatim>\<open>src/backend/session/status.py\<close>: the process-local abort signals of running sessions. An
  \<^verbatim>\<open>asyncio.Event\<close> is a heap cell (\<open>is_set\<close> maps its address to whether it is set), because the
  same event object is reachable from the session slot, from the run registry and from the lease
  that owns the run. The invariant \<open>signals_wf\<close> says that no two registered runs share an event;
  from it follows that stopping one run never stops another.
\<close>

type_synonym event = nat

record signals =
  is_set :: "event \<Rightarrow> bool"
  next_event :: event
  abort_signals :: "(ident, event) table"
  pending_aborts :: "(ident, time) table"
  run_signals :: "(ident, event) table"

definition no_signals :: signals where
  "no_signals = \<lparr>is_set = (\<lambda>_. False), next_event = 0, abort_signals = [], pending_aborts = [],
     run_signals = []\<rparr>"

definition PENDING_ABORT_TTL :: time where
  "PENDING_ABORT_TTL = seconds 30"

text \<open>\<^verbatim>\<open>asyncio.Event()\<close>, \<^verbatim>\<open>Event.set()\<close> and \<^verbatim>\<open>Event.clear()\<close>.\<close>

definition new_event :: "signals \<Rightarrow> signals \<times> event" where
  "new_event st = (let e = next_event st
     in (st\<lparr>next_event := Suc e, is_set := (is_set st)(e := False)\<rparr>, e))"

definition set_event :: "event \<Rightarrow> signals \<Rightarrow> signals" where
  "set_event e st = st\<lparr>is_set := (is_set st)(e := True)\<rparr>"

definition clear_event :: "event \<Rightarrow> signals \<Rightarrow> signals" where
  "clear_event e st = st\<lparr>is_set := (is_set st)(e := False)\<rparr>"

definition get_abort_signal :: "signals \<Rightarrow> ident \<Rightarrow> signals \<times> event" where
  "get_abort_signal st sid = (case tget (abort_signals st) sid of
       Some e \<Rightarrow> (st, e)
     | None \<Rightarrow> (let (st', e) = new_event st
               in (st'\<lparr>abort_signals := tput sid e (abort_signals st')\<rparr>, e)))"

definition register_run :: "signals \<Rightarrow> ident \<Rightarrow> ident option \<Rightarrow> time \<Rightarrow> signals \<times> event" where
  "register_run st sid run_id monotonic =
     (let (st1, e) = new_event st;
          requested = tget (pending_aborts st1) sid;
          st2 = st1\<lparr>pending_aborts := tdel sid (pending_aborts st1)\<rparr>;
          st3 = (case requested of
                   None \<Rightarrow> st2
                 | Some t \<Rightarrow> if monotonic - t \<le> PENDING_ABORT_TTL then set_event e st2 else st2);
          st4 = st3\<lparr>abort_signals := tput sid e (abort_signals st3)\<rparr>;
          st5 = (case run_id of
                   None \<Rightarrow> st4
                 | Some r \<Rightarrow> if r = [] then st4 else st4\<lparr>run_signals := tput r e (run_signals st4)\<rparr>)
      in (st5, e))"

definition abort_run :: "signals \<Rightarrow> ident \<Rightarrow> signals \<times> bool" where
  "abort_run st run_id = (case tget (run_signals st) run_id of
       None \<Rightarrow> (st, False)
     | Some e \<Rightarrow> (set_event e st, True))"

definition trigger_abort :: "signals \<Rightarrow> ident \<Rightarrow> time \<Rightarrow> signals" where
  "trigger_abort st sid monotonic =
     (let st1 = (if tget (abort_signals st) sid = None
                 then st\<lparr>pending_aborts := tput sid monotonic (pending_aborts st)\<rparr> else st);
          (st2, e) = get_abort_signal st1 sid
      in set_event e st2)"

definition discard_pending_abort :: "signals \<Rightarrow> ident \<Rightarrow> signals" where
  "discard_pending_abort st sid = st\<lparr>pending_aborts := tdel sid (pending_aborts st)\<rparr>"

definition clear_abort :: "signals \<Rightarrow> ident \<Rightarrow> event option \<Rightarrow> signals" where
  "clear_abort st sid signal =
     (let current = tget (abort_signals st) sid;
          ended = (case signal of Some e \<Rightarrow> Some e | None \<Rightarrow> current);
          st1 = st\<lparr>run_signals := filter (\<lambda>(r, e). Some e \<noteq> ended) (run_signals st)\<rparr>
      in case current of
           None \<Rightarrow> st1
         | Some c \<Rightarrow>
             if signal \<noteq> None \<and> signal \<noteq> Some c then st1
             else clear_event c (st1\<lparr>abort_signals := tdel sid (abort_signals st1)\<rparr>))"

definition abort_all :: "signals \<Rightarrow> signals \<times> nat" where
  "abort_all st = fold (\<lambda>(sid, e) (st, n). if is_set st e then (st, n) else (set_event e st, Suc n))
     (abort_signals st) (st, 0)"

definition active_session_ids :: "signals \<Rightarrow> ident list" where
  "active_session_ids st = map fst (abort_signals st)"

section \<open>No two runs share an event\<close>

definition signals_wf :: "signals \<Rightarrow> bool" where
  "signals_wf st \<longleftrightarrow>
     twf (abort_signals st) \<and> twf (run_signals st) \<and>
     (\<forall>sid e. tget (abort_signals st) sid = Some e \<longrightarrow> e < next_event st) \<and>
     (\<forall>r e. tget (run_signals st) r = Some e \<longrightarrow> e < next_event st) \<and>
     (\<forall>r r' e. tget (run_signals st) r = Some e \<longrightarrow> tget (run_signals st) r' = Some e \<longrightarrow> r = r')"

lemma set_event_fields [simp]:
  "next_event (set_event e st) = next_event st" "abort_signals (set_event e st) = abort_signals st"
  "run_signals (set_event e st) = run_signals st" "pending_aborts (set_event e st) = pending_aborts st"
  "is_set (set_event e st) = (is_set st)(e := True)"
  by (simp_all add: set_event_def)

lemma clear_event_fields [simp]:
  "next_event (clear_event e st) = next_event st" "abort_signals (clear_event e st) = abort_signals st"
  "run_signals (clear_event e st) = run_signals st" "pending_aborts (clear_event e st) = pending_aborts st"
  "is_set (clear_event e st) = (is_set st)(e := False)"
  by (simp_all add: clear_event_def)

lemma new_event_fields [simp]:
  "snd (new_event st) = next_event st" "next_event (fst (new_event st)) = Suc (next_event st)"
  "abort_signals (fst (new_event st)) = abort_signals st" "run_signals (fst (new_event st)) = run_signals st"
  "pending_aborts (fst (new_event st)) = pending_aborts st"
  "is_set (fst (new_event st)) = (is_set st)(next_event st := False)"
  by (simp_all add: new_event_def Let_def)

lemma tget_filter_Some:
  "twf t \<Longrightarrow> tget (filter (\<lambda>(k, v). P v) t) k = (case tget t k of None \<Rightarrow> None | Some v \<Rightarrow> if P v then Some v else None)"
  by (induction t) (auto simp: tget_def twf_def split: option.splits, force dest: map_of_SomeD)+

lemma twf_filter: "twf t \<Longrightarrow> twf (filter Q t)"
  by (simp add: twf_def distinct_map_filter)

lemma register_run_fields:
  "snd (register_run st sid r t) = next_event st"
  "next_event (fst (register_run st sid r t)) = Suc (next_event st)"
  "abort_signals (fst (register_run st sid r t)) = tput sid (next_event st) (abort_signals st)"
  "run_signals (fst (register_run st sid r t)) =
     (case r of None \<Rightarrow> run_signals st
      | Some x \<Rightarrow> if x = [] then run_signals st else tput x (next_event st) (run_signals st))"
  "pending_aborts (fst (register_run st sid r t)) = tdel sid (pending_aborts st)"
  "is_set (fst (register_run st sid r t)) = (is_set st)(next_event st :=
     (case tget (pending_aborts st) sid of None \<Rightarrow> False | Some t0 \<Rightarrow> t - t0 \<le> PENDING_ABORT_TTL))"
  by (simp_all add: register_run_def new_event_def Let_def split: option.split)

lemma get_abort_signal_fields:
  "run_signals (fst (get_abort_signal st sid)) = run_signals st"
  "pending_aborts (fst (get_abort_signal st sid)) = pending_aborts st"
  "tget (abort_signals (fst (get_abort_signal st sid))) sid = Some (snd (get_abort_signal st sid))"
  by (auto simp: get_abort_signal_def new_event_def tget_tput Let_def split: option.split)

lemma get_abort_signal_wf:
  assumes "signals_wf st"
  shows "signals_wf (fst (get_abort_signal st sid))"
  using assms
  by (auto simp: get_abort_signal_def new_event_def signals_wf_def tget_tput twf_tput Let_def less_Suc_eq
           split: option.split if_splits)

lemma set_event_wf [simp]: "signals_wf (set_event e st) = signals_wf st"
  by (simp add: signals_wf_def)

lemma pending_wf [simp]: "signals_wf (st\<lparr>pending_aborts := p\<rparr>) = signals_wf st"
  by (simp add: signals_wf_def)

lemma register_run_wf:
  assumes "signals_wf st"
  shows "signals_wf (fst (register_run st sid r t))"
  using assms
  by (auto simp: signals_wf_def register_run_fields tget_tput twf_tput less_Suc_eq
           split: option.split if_splits)

lemma abort_run_wf: "signals_wf st \<Longrightarrow> signals_wf (fst (abort_run st r))"
  by (simp add: abort_run_def split: option.split)

lemma trigger_abort_wf: "signals_wf st \<Longrightarrow> signals_wf (trigger_abort st sid t)"
  using get_abort_signal_wf [of "st\<lparr>pending_aborts := tput sid t (pending_aborts st)\<rparr>" sid]
    get_abort_signal_wf [of st sid]
  by (auto simp: trigger_abort_def Let_def split: prod.split if_splits)

lemma clear_abort_run_signals:
  "run_signals (clear_abort st sid signal) = filter (\<lambda>(r, e). Some e \<noteq>
     (case signal of Some e \<Rightarrow> Some e | None \<Rightarrow> tget (abort_signals st) sid)) (run_signals st)"
  by (simp add: clear_abort_def Let_def split: option.split)

lemma clear_abort_abort_signals:
  "abort_signals (clear_abort st sid signal) =
     (if tget (abort_signals st) sid = None \<or> signal \<noteq> None \<and> signal \<noteq> tget (abort_signals st) sid
      then abort_signals st else tdel sid (abort_signals st))"
  by (auto simp: clear_abort_def Let_def split: option.split)

lemma clear_abort_next [simp]: "next_event (clear_abort st sid signal) = next_event st"
  by (simp add: clear_abort_def Let_def split: option.split)

lemma clear_abort_wf:
  assumes "signals_wf st"
  shows "signals_wf (clear_abort st sid signal)"
  using assms
  by (auto simp: signals_wf_def clear_abort_run_signals clear_abort_abort_signals twf_filter twf_tdel
        tget_tdel tget_filter_Some split: option.splits if_splits)

lemma abort_all_fold:
  "signals_wf st \<Longrightarrow> signals_wf (fst (fold (\<lambda>(sid, e) (st, n). if is_set st e then (st, n) else (set_event e st, Suc n)) xs (st, n)))"
  by (induction xs arbitrary: st n) auto

lemma abort_all_sets:
  "(\<exists>sid. (sid, e) \<in> set xs) \<or> is_set st e \<Longrightarrow>
   is_set (fst (fold (\<lambda>(sid, e) (st, n). if is_set st e then (st, n) else (set_event e st, Suc n)) xs (st, n))) e"
proof (induction xs arbitrary: st n)
  case Nil
  then show ?case by simp
next
  case (Cons x xs)
  obtain sid e0 where x: "x = (sid, e0)" by (cases x)
  show ?case
  proof (cases "is_set st e0")
    case True
    with x Cons show ?thesis by auto
  next
    case False
    have "(\<exists>sid. (sid, e) \<in> set xs) \<or> is_set (set_event e0 st) e"
      using Cons.prems x by auto
    from Cons.IH [OF this] x False show ?thesis by simp
  qed
qed

text \<open>The operations of the module as one step relation, and the states it reaches.\<close>

inductive signals_step :: "signals \<Rightarrow> signals \<Rightarrow> bool" where
  "signals_step st (fst (get_abort_signal st sid))"
| "signals_step st (fst (register_run st sid r t))"
| "signals_step st (fst (abort_run st r))"
| "signals_step st (trigger_abort st sid t)"
| "signals_step st (discard_pending_abort st sid)"
| "signals_step st (clear_abort st sid signal)"
| "signals_step st (fst (abort_all st))"

lemma signals_step_wf: "signals_step st st' \<Longrightarrow> signals_wf st \<Longrightarrow> signals_wf st'"
  by (induction rule: signals_step.induct)
     (simp_all add: get_abort_signal_wf register_run_wf abort_run_wf trigger_abort_wf clear_abort_wf
        discard_pending_abort_def abort_all_def abort_all_fold)

lemma signals_reachable_wf: "signals_step\<^sup>*\<^sup>* no_signals st \<Longrightarrow> signals_wf st"
proof (induction rule: rtranclp_induct)
  case base
  show ?case by (simp add: signals_wf_def no_signals_def)
next
  case (step y z)
  then show ?case using signals_step_wf by blast
qed

text \<open>
  Stopping one run reaches that run only. In every state the module can reach, signalling the
  run \<open>r\<close> sets no event that another registered run owns, and clearing the slot of a finished run
  leaves the registration, the session slot and the event of a newer run of the same session as
  they were.
\<close>

lemma abort_reaches_only_its_run:
  assumes "signals_step\<^sup>*\<^sup>* no_signals st"
    and "tget (run_signals st) r' = Some e'" and "r \<noteq> r'"
  shows "is_set (fst (abort_run st r)) e' = is_set st e' \<and>
    (tget (run_signals st) r = Some e \<and> tget (abort_signals st) sid = Some e' \<longrightarrow>
       is_set (clear_abort st sid (Some e)) e' = is_set st e' \<and>
       tget (abort_signals (clear_abort st sid (Some e))) sid = Some e' \<and>
       tget (run_signals (clear_abort st sid (Some e))) r' = Some e')"
proof -
  from assms(1) have wf: "signals_wf st" by (rule signals_reachable_wf)
  have ne: "tget (run_signals st) r = Some d \<Longrightarrow> d \<noteq> e'" for d
    using wf assms(2,3) by (auto simp: signals_wf_def)
  have "is_set (fst (abort_run st r)) e' = is_set st e'"
    using ne by (auto simp: abort_run_def split: option.split)
  moreover have "is_set (clear_abort st sid (Some e)) e' = is_set st e' \<and>
       tget (abort_signals (clear_abort st sid (Some e))) sid = Some e' \<and>
       tget (run_signals (clear_abort st sid (Some e))) r' = Some e'"
    if "tget (run_signals st) r = Some e" "tget (abort_signals st) sid = Some e'"
  proof -
    from ne that have "e \<noteq> e'" by blast
    with that assms(2) wf show ?thesis
      by (auto simp: clear_abort_run_signals clear_abort_abort_signals tget_filter_Some signals_wf_def
            clear_abort_def Let_def)
  qed
  ultimately show ?thesis by blast
qed

lemma abort_reaches_only_its_run_witness:
  "let st = fst (register_run (fst (register_run no_signals ''s'' (Some ''r1'') 0)) ''s'' (Some ''r2'') 5)
   in signals_step\<^sup>*\<^sup>* no_signals st \<and> tget (run_signals st) ''r2'' = Some 1 \<and>
      \<not> is_set (fst (abort_run st ''r1'')) 1 \<and>
      tget (abort_signals (clear_abort st ''s'' (Some 0))) ''s'' = Some 1"
proof -
  let ?s1 = "fst (register_run no_signals ''s'' (Some ''r1'') 0)"
  let ?st = "fst (register_run ?s1 ''s'' (Some ''r2'') 5)"
  have r: "signals_step\<^sup>*\<^sup>* no_signals ?st"
    by (meson r_into_rtranclp rtranclp_trans signals_step.intros(2))
  have f: "tget (run_signals ?st) ''r2'' = Some 1" "tget (run_signals ?st) ''r1'' = Some 0"
    "tget (abort_signals ?st) ''s'' = Some 1" "\<not> is_set ?st 1"
    by (simp_all add: register_run_fields table_simps no_signals_def)
  show ?thesis
    using r f abort_reaches_only_its_run [OF r f(1), of "''r1''" 0 "''s''"] by (simp add: Let_def)
qed

text \<open>
  A stop that finds no run is delivered to the run that starts within the grace period, and
  to that run only: the registration of the next run of the session returns a set event exactly
  when the stop is at most thirty seconds old, and the run registered after it starts unset.
\<close>

lemma pending_abort_delivered_once:
  assumes "tget (abort_signals st) sid = None"
  shows "let (st1, e1) = register_run (trigger_abort st sid t0) sid r1 t1;
             (st2, e2) = register_run st1 sid r2 t2
         in (is_set st1 e1 \<longleftrightarrow> t1 - t0 \<le> seconds 30) \<and> \<not> is_set st2 e2 \<and> e1 \<noteq> e2"
proof -
  let ?st0 = "trigger_abort st sid t0"
  let ?st1 = "fst (register_run ?st0 sid r1 t1)"
  have p0: "tget (pending_aborts ?st0) sid = Some t0"
    using assms by (simp add: trigger_abort_def get_abort_signal_fields table_simps case_prod_unfold Let_def)
  have "is_set ?st1 (next_event ?st0) \<longleftrightarrow> t1 - t0 \<le> seconds 30"
    by (simp add: register_run_fields p0 PENDING_ABORT_TTL_def)
  moreover have "\<not> is_set (fst (register_run ?st1 sid r2 t2)) (next_event ?st1)"
    by (simp add: register_run_fields(5,6) tget_tdel)
  ultimately show ?thesis
    by (simp add: case_prod_unfold register_run_fields(1,2))
qed

lemma pending_abort_delivered_once_witness:
  "tget (abort_signals no_signals) ''s'' = None \<and>
   (let st1 = fst (register_run (trigger_abort no_signals ''s'' 0) ''s'' None (seconds 30));
        e1 = snd (register_run (trigger_abort no_signals ''s'' 0) ''s'' None (seconds 30))
    in is_set st1 e1)"
proof -
  have h: "tget (abort_signals no_signals) ''s'' = None" by (simp add: no_signals_def)
  show ?thesis
    using h pending_abort_delivered_once [OF h, of 0 None "seconds 30" None 0]
    by (simp add: case_prod_unfold Let_def)
qed

end
