(* ===== verification/Driver_Lease.thy ===== *)
theory Driver_Lease
  imports Abort_Signals "HOL-Library.List_Lexorder" "HOL-Library.Char_ord"
begin

text \<open>
  \<^verbatim>\<open>src/backend/agent/driver.py\<close> over the rows of \<^verbatim>\<open>src/backend/db/models/agent_driver.py\<close>: the
  durable single-flight ownership of a conversation. Each operation is one database transaction,
  taken at one instant \<open>now\<close> of the database clock, with the exception it raises as \<open>Inl\<close> (the
  transaction is then rolled back). The local half of a worker (its abort signals and its registry
  of activities) is threaded explicitly. The assistant's tables, which some operations consult or
  advance in the same transaction, are the abstract component \<open>assistant\<close> of the database, and
  the functions of \<^verbatim>\<open>src/backend/assistant\<close> that are called are the fields of \<open>assistant_ops\<close>.
\<close>

section \<open>Rows\<close>

datatype phase = Idle | Reserved | Running | Finalizing

record session_row =
  s_user_id :: ident
  s_is_deleted :: bool
  s_status :: string
  s_kind :: string
  s_project_id :: "ident option"
  s_workspace_id :: ident
  s_updated_at :: time

record driver_row =
  d_user_id :: ident
  d_generation :: int
  d_run_id :: "ident option"
  d_owner_id :: "ident option"
  d_phase :: phase
  d_trigger_message_id :: "ident option"
  d_lease_expires_at :: "time option"
  d_abort_requested_at :: "time option"
  d_started_at :: "time option"
  d_updated_at :: time

record 'a db =
  sessions :: "(ident, session_row) table"
  drivers :: "(ident, driver_row) table"
  assistant :: 'a

record recovered_driver =
  rec_session_id :: ident
  rec_user_id :: ident
  rec_run_id :: "ident option"
  rec_generation :: int
  rec_phase :: phase
  rec_trigger_message_id :: "ident option"

datatype driver_error =
    ValueError
  | LookupError ident
  | DriverBusyError "ident option" int
  | DriverQuotaExceededError ident int int
  | DriverRecoveryRequiredError recovered_driver
  | StaleRecoveryError
  | LeaseLostError
  | TaskSchedulingHeld
  | AssistantError string

text \<open>One generation held by one worker (\<^verbatim>\<open>RunLease\<close>), and the local registry entry.\<close>

record lease =
  l_session_id :: ident
  l_user_id :: ident
  l_run_id :: ident
  l_generation :: int
  l_owner_id :: ident
  l_abort :: event
  l_monitor :: bool
  l_closed :: bool
  l_lost :: bool
  l_transport_revoked :: bool
  l_lease_expires_at :: "time option"

record activity =
  act_run_id :: ident
  act_generation :: int
  act_abort :: event
  act_idle :: event

record worker =
  worker_id :: ident
  signals_of :: signals
  activities :: "(ident, activity) table"
  status_events :: "(ident \<times> ident \<times> string \<times> int) list"

text \<open>The calls into the assistant component that share the driver's transactions.\<close>

record 'a assistant_ops =
  held :: "'a \<Rightarrow> ident \<Rightarrow> session_row \<Rightarrow> ident option \<Rightarrow> bool"
  linked_task :: "'a \<Rightarrow> ident \<Rightarrow> bool"
  claim_resume :: "'a \<Rightarrow> ident \<Rightarrow> driver_row \<Rightarrow> ident \<Rightarrow> driver_error + (ident \<times> 'a)"
  append_turn_recovered :: "'a \<Rightarrow> ident \<Rightarrow> driver_row \<Rightarrow> recovered_driver \<Rightarrow> 'a"
  rebind_resume :: "'a \<Rightarrow> ident \<Rightarrow> driver_row \<Rightarrow> recovered_driver \<Rightarrow> 'a"
  expire_task_steers :: "'a \<Rightarrow> ident \<Rightarrow> session_row \<Rightarrow> ident \<Rightarrow> int \<Rightarrow> 'a"
  converge_session :: "'a \<Rightarrow> ident \<Rightarrow> session_row \<Rightarrow> 'a"
  stop_report :: "'a \<Rightarrow> ident \<Rightarrow> ident option \<Rightarrow> 'a \<times> bool"

text \<open>What a call reads from its surroundings: the database clock, the process clock, a fresh
  \<^verbatim>\<open>uuid4().hex\<close> and the configured quota.\<close>

record env =
  now :: time
  monotonic :: time
  fresh_id :: ident
  max_concurrent_agents :: int

definition LEASE_SECONDS :: int where "LEASE_SECONDS = 60"
definition HEARTBEAT_SECONDS :: int where "HEARTBEAT_SECONDS = 10"

definition lease_expiry :: "time \<Rightarrow> time" where
  "lease_expiry t = t + seconds LEASE_SECONDS"

section \<open>Predicates of the WHERE clauses\<close>

definition is_live :: "driver_row \<Rightarrow> time \<Rightarrow> bool" where
  "is_live r t \<longleftrightarrow> d_phase r \<noteq> Idle \<and> d_run_id r \<noteq> None \<and> d_run_id r \<noteq> Some [] \<and>
     after_now (d_lease_expires_at r) t"

definition counts_for :: "ident \<Rightarrow> time \<Rightarrow> ident \<Rightarrow> driver_row \<Rightarrow> bool" where
  "counts_for user t sid r \<longleftrightarrow> d_user_id r = user \<and> d_phase r \<noteq> Idle \<and> d_run_id r \<noteq> None \<and>
     after_now (d_lease_expires_at r) t"

definition fence_row :: "ident \<Rightarrow> ident \<Rightarrow> int \<Rightarrow> time \<Rightarrow> driver_row \<Rightarrow> bool" where
  "fence_row user run g t r \<longleftrightarrow> d_user_id r = user \<and> d_run_id r = Some run \<and> d_generation r = g \<and>
     d_phase r \<noteq> Idle \<and> after_now (d_lease_expires_at r) t"

definition owned_row :: "lease \<Rightarrow> time \<Rightarrow> driver_row \<Rightarrow> bool" where
  "owned_row l t r \<longleftrightarrow> fence_row (l_user_id l) (l_run_id l) (l_generation l) t r \<and>
     d_owner_id r = Some (l_owner_id l)"

definition owned_session :: "'a db \<Rightarrow> ident \<Rightarrow> ident \<Rightarrow> session_row option" where
  "owned_session db sid user = (case tget (sessions db) sid of
       None \<Rightarrow> None
     | Some s \<Rightarrow> if s_user_id s = user then Some s else None)"

definition open_session :: "'a db \<Rightarrow> ident \<Rightarrow> ident \<Rightarrow> session_row option" where
  "open_session db sid user = (case owned_session db sid user of
       None \<Rightarrow> None
     | Some s \<Rightarrow> if s_is_deleted s then None else Some s)"

definition set_status :: "ident \<Rightarrow> session_row \<Rightarrow> string \<Rightarrow> time \<Rightarrow> 'a db \<Rightarrow> 'a db" where
  "set_status sid s st t db = db\<lparr>sessions := tput sid (s\<lparr>s_status := st, s_updated_at := t\<rparr>) (sessions db)\<rparr>"

definition update_driver :: "ident \<Rightarrow> (driver_row \<Rightarrow> bool) \<Rightarrow> (driver_row \<Rightarrow> driver_row) \<Rightarrow> 'a db \<Rightarrow> 'a db \<times> bool" where
  "update_driver sid P f db = (let (t, m) = update_where sid P f (drivers db) in (db\<lparr>drivers := t\<rparr>, m))"

section \<open>Fences\<close>

definition assert_owned_driver_fence_locked ::
  "'a db \<Rightarrow> time \<Rightarrow> ident \<Rightarrow> ident \<Rightarrow> ident \<Rightarrow> int \<Rightarrow> driver_error + unit" where
  "assert_owned_driver_fence_locked db t sid user run g = (case tget (drivers db) sid of
       None \<Rightarrow> Inl LeaseLostError
     | Some r \<Rightarrow> guard_that (fence_row user run g t r) LeaseLostError)"

definition assert_run_fence_locked ::
  "'a db \<Rightarrow> time \<Rightarrow> ident \<Rightarrow> ident \<Rightarrow> ident \<Rightarrow> int \<Rightarrow> driver_error + unit" where
  "assert_run_fence_locked db t sid user run g = (case owned_session db sid user of
       None \<Rightarrow> Inl LeaseLostError
     | Some s \<Rightarrow> assert_owned_driver_fence_locked db t sid user run g)"

definition bind_trigger_message_locked ::
  "'a db \<Rightarrow> time \<Rightarrow> ident \<Rightarrow> ident \<Rightarrow> ident \<Rightarrow> int \<Rightarrow> ident \<Rightarrow> driver_error + 'a db" where
  "bind_trigger_message_locked db t sid user run g msg =
     (let (db', matched) = update_driver sid (fence_row user run g t)
            (\<lambda>r. r\<lparr>d_trigger_message_id := Some msg, d_updated_at := t\<rparr>) db
      in if matched then Inr db' else Inl LeaseLostError)"

definition current_run_fence :: "lease option \<Rightarrow> (ident \<times> ident \<times> int) option" where
  "current_run_fence cur = (case cur of
       None \<Rightarrow> None
     | Some l \<Rightarrow> if l_closed l then None else Some (l_session_id l, l_run_id l, l_generation l))"

definition current_run_transport_lease ::
  "lease option \<Rightarrow> driver_error + (ident \<times> ident \<times> int \<times> time) option" where
  "current_run_transport_lease cur = (case cur of
       None \<Rightarrow> Inr None
     | Some l \<Rightarrow>
         if l_closed l \<or> l_lost l \<or> l_transport_revoked l then Inl LeaseLostError
         else case l_lease_expires_at l of
                None \<Rightarrow> Inl LeaseLostError
              | Some e \<Rightarrow> Inr (Some (l_session_id l, l_run_id l, l_generation l, e)))"

section \<open>Operations of a lease\<close>

definition renew :: "'a db \<Rightarrow> time \<Rightarrow> lease \<Rightarrow> lease \<times> 'a db \<times> bool" where
  "renew db t l = (case owned_session db (l_session_id l) (l_user_id l) of
       None \<Rightarrow> (l, db, False)
     | Some s \<Rightarrow>
         (let (db', matched) = update_driver (l_session_id l) (owned_row l t)
                (\<lambda>r. r\<lparr>d_lease_expires_at := Some (lease_expiry t), d_updated_at := t\<rparr>) db
          in if matched then (l\<lparr>l_lease_expires_at := Some (lease_expiry t)\<rparr>, db', True)
             else (l, db, False)))"

definition lose :: "worker \<Rightarrow> lease \<Rightarrow> worker \<times> lease" where
  "lose w l = (w\<lparr>signals_of := set_event (l_abort l) (signals_of w)\<rparr>, l\<lparr>l_lost := True\<rparr>)"

definition abort_was_requested ::
  "'a assistant_ops \<Rightarrow> 'a db \<Rightarrow> time \<Rightarrow> lease \<Rightarrow> bool \<Rightarrow> lease \<times> bool" where
  "abort_was_requested ops db t l observe_hold = (case tget (drivers db) (l_session_id l) of
       None \<Rightarrow> (l\<lparr>l_lost := True\<rparr>, True)
     | Some r \<Rightarrow>
         if \<not> after_now (d_lease_expires_at r) t then (l\<lparr>l_lost := True\<rparr>, True)
         else if d_run_id r \<noteq> Some (l_run_id l) \<or> d_generation r \<noteq> l_generation l \<or>
                 d_owner_id r \<noteq> Some (l_owner_id l) \<or> d_phase r = Idle
         then (l\<lparr>l_lost := True\<rparr>, True)
         else if d_abort_requested_at r \<noteq> None then (l, True)
         else if \<not> observe_hold then (l, False)
         else (l, if l_session_id l = [] \<or> l_user_id l = [] then False
                  else case owned_session db (l_session_id l) (l_user_id l) of
                    None \<Rightarrow> False
                  | Some s \<Rightarrow> held ops (assistant db) (l_session_id l) s None))"

text \<open>
  \<open>ticket\<close> is the verdict of the Question runtime on the caller's ticket: on the joined row when
  the driver row was found, on its own otherwise; \<open>\<lambda>_. None\<close> when there is no ticket.
\<close>

definition assert_current ::
  "'a db \<Rightarrow> time \<Rightarrow> (bool \<Rightarrow> driver_error option) \<Rightarrow> worker \<Rightarrow> lease \<Rightarrow>
     worker \<times> lease \<times> 'a db \<times> (driver_error + unit)" where
  "assert_current db t ticket w l =
     (if l_lost l then (w, l, db, Inl LeaseLostError)
      else
        let lost = (\<lambda>l. let (w', l') = lose w l in (w', l', db, Inl LeaseLostError));
            renewed = (\<lambda>_. let (l', db', live) = renew db t l
                           in if live then (w, l', db', Inr ()) else lost l)
        in if l_monitor l
           then (case (case owned_session db (l_session_id l) (l_user_id l) of
                         None \<Rightarrow> None
                       | Some s \<Rightarrow> (case tget (drivers db) (l_session_id l) of
                                     None \<Rightarrow> None
                                   | Some r \<Rightarrow> if owned_row l t r then Some r else None)) of
                   Some r \<Rightarrow>
                     (case ticket True of
                        Some e \<Rightarrow> (w, l, db, Inl e)
                      | None \<Rightarrow>
                          if (case d_lease_expires_at r of None \<Rightarrow> False
                              | Some e \<Rightarrow> e - t > seconds (2 * HEARTBEAT_SECONDS))
                          then (w, l, db, Inr ())
                          else renewed ())
                 | None \<Rightarrow>
                     (case ticket False of
                        Some e \<Rightarrow> (w, l, db, Inl e)
                      | None \<Rightarrow> lost l))
           else renewed ())"

definition set_phase ::
  "'a db \<Rightarrow> time \<Rightarrow> worker \<Rightarrow> lease \<Rightarrow> phase \<Rightarrow> worker \<times> lease \<times> 'a db \<times> (driver_error + unit)" where
  "set_phase db t w l p =
     (if p \<notin> {Reserved, Running, Finalizing} then (w, l, db, Inl ValueError)
      else
        let (db', matched) = (case owned_session db (l_session_id l) (l_user_id l) of
               None \<Rightarrow> (db, False)
             | Some s \<Rightarrow> update_driver (l_session_id l) (owned_row l t)
                 (\<lambda>r. r\<lparr>d_phase := p, d_lease_expires_at := Some (lease_expiry t), d_updated_at := t\<rparr>) db)
        in if matched then (w, l, db', Inr ())
           else let (w', l') = lose w l in (w', l', db, Inl LeaseLostError))"

definition bind_trigger_message ::
  "'a db \<Rightarrow> time \<Rightarrow> worker \<Rightarrow> lease \<Rightarrow> ident \<Rightarrow> worker \<times> lease \<times> 'a db \<times> (driver_error + unit)" where
  "bind_trigger_message db t w l msg =
     (let (db', matched) = update_driver (l_session_id l) (owned_row l t)
            (\<lambda>r. r\<lparr>d_trigger_message_id := Some msg, d_updated_at := t\<rparr>) db
      in if matched then (w, l, db', Inr ())
         else let (w', l') = lose w l in (w', l', db, Inl LeaseLostError))"

definition retire_local_activity :: "worker \<Rightarrow> lease \<Rightarrow> worker" where
  "retire_local_activity w l =
     (let sg = clear_abort (signals_of w) (l_session_id l) (Some (l_abort l))
      in case tget (activities w) (l_session_id l) of
           None \<Rightarrow> w\<lparr>signals_of := sg\<rparr>
         | Some a \<Rightarrow>
             if act_run_id a = l_run_id l \<and> act_generation a = l_generation l
             then w\<lparr>signals_of := set_event (act_idle a) sg,
                    activities := tdel (l_session_id l) (activities w)\<rparr>
             else w\<lparr>signals_of := sg\<rparr>)"

definition release ::
  "'a assistant_ops \<Rightarrow> 'a db \<Rightarrow> time \<Rightarrow> worker \<Rightarrow> lease \<Rightarrow> string option \<Rightarrow> worker \<times> lease \<times> 'a db \<times> bool" where
  "release ops db t w l session_status =
     (if l_closed l then (w, l, db, False)
      else
        let l1 = l\<lparr>l_transport_revoked := True, l_monitor := False\<rparr>;
            session = owned_session db (l_session_id l) (l_user_id l);
            (db1, matched) = update_driver (l_session_id l) (owned_row l t)
               (\<lambda>r. r\<lparr>d_run_id := None, d_owner_id := None, d_phase := Idle,
                      d_trigger_message_id := None, d_lease_expires_at := None,
                      d_abort_requested_at := None, d_updated_at := t\<rparr>) db;
            db2 = (case session of
                     None \<Rightarrow> db1
                   | Some s \<Rightarrow>
                       if matched
                       then db1\<lparr>assistant := converge_session ops
                                (expire_task_steers ops (assistant db1) (l_session_id l) s (l_run_id l) (l_generation l))
                                (l_session_id l) s\<rparr>
                       else db1);
            db3 = (case session of
                     None \<Rightarrow> db2
                   | Some s \<Rightarrow> (case session_status of
                                 None \<Rightarrow> db2
                               | Some st \<Rightarrow> if matched then set_status (l_session_id l) s st t db2 else db2));
            l2 = l1\<lparr>l_closed := True\<rparr>
        in (retire_local_activity w l2, l2, db3, matched))"

definition preserve_for_recovery ::
  "'a db \<Rightarrow> time \<Rightarrow> worker \<Rightarrow> lease \<Rightarrow> string option \<Rightarrow> worker \<times> lease \<times> 'a db \<times> bool" where
  "preserve_for_recovery db t w l session_status =
     (if l_closed l then (w, l, db, False)
      else
        let l1 = l\<lparr>l_transport_revoked := True, l_monitor := False\<rparr>;
            session = owned_session db (l_session_id l) (l_user_id l);
            (db1, matched) = update_driver (l_session_id l)
               (\<lambda>r. d_user_id r = l_user_id l \<and> d_run_id r = Some (l_run_id l) \<and>
                     d_generation r = l_generation l \<and> d_owner_id r = Some (l_owner_id l) \<and>
                     d_phase r \<noteq> Idle)
               (\<lambda>r. r\<lparr>d_lease_expires_at := Some t, d_updated_at := t\<rparr>) db;
            db2 = (case session of
                     None \<Rightarrow> db1
                   | Some s \<Rightarrow> (case session_status of
                                 None \<Rightarrow> db1
                               | Some st \<Rightarrow> if matched then set_status (l_session_id l) s st t db1 else db1));
            l2 = l1\<lparr>l_closed := True\<rparr>
        in (retire_local_activity w l2, l2, db2, matched))"

section \<open>Reservation\<close>

definition activate_local_lease ::
  "worker \<Rightarrow> time \<Rightarrow> ident \<Rightarrow> ident \<Rightarrow> ident \<Rightarrow> int \<Rightarrow> time \<Rightarrow> worker \<times> lease" where
  "activate_local_lease w clock sid user run g expiry =
     (let sg0 = (case tget (activities w) sid of
                   None \<Rightarrow> signals_of w
                 | Some previous \<Rightarrow> set_event (act_abort previous) (signals_of w));
          (sg1, abort) = register_run sg0 sid (Some run) clock;
          (sg2, idle) = new_event sg1;
          a = \<lparr>act_run_id = run, act_generation = g, act_abort = abort, act_idle = idle\<rparr>
      in (w\<lparr>signals_of := sg2, activities := tput sid a (activities w)\<rparr>,
          \<lparr>l_session_id = sid, l_user_id = user, l_run_id = run, l_generation = g,
           l_owner_id = worker_id w, l_abort = abort, l_monitor = True, l_closed = False,
           l_lost = False, l_transport_revoked = False, l_lease_expires_at = Some expiry\<rparr>))"

definition publish_reserved_status :: "worker \<Rightarrow> ident \<Rightarrow> ident \<Rightarrow> int \<Rightarrow> worker" where
  "publish_reserved_status w sid user g =
     w\<lparr>status_events := status_events w @ [(user, sid, ''busy'', g)]\<rparr>"

definition enforce_agent_quota_locked :: "'a db \<Rightarrow> env \<Rightarrow> ident \<Rightarrow> driver_error + unit" where
  "enforce_agent_quota_locked db e user =
     (let used = int (tcount (counts_for user (now e)) (drivers db))
      in guard_that (used < max_concurrent_agents e)
           (DriverQuotaExceededError user used (max_concurrent_agents e)))"

definition recovery_record :: "ident \<Rightarrow> driver_row \<Rightarrow> recovered_driver" where
  "recovery_record sid r = \<lparr>rec_session_id = sid, rec_user_id = d_user_id r, rec_run_id = d_run_id r,
     rec_generation = d_generation r, rec_phase = d_phase r,
     rec_trigger_message_id = d_trigger_message_id r\<rparr>"

definition granted_row ::
  "worker \<Rightarrow> time \<Rightarrow> ident \<Rightarrow> int \<Rightarrow> ident \<Rightarrow> phase \<Rightarrow> ident option \<Rightarrow> driver_row" where
  "granted_row w t user g run p trigger =
     \<lparr>d_user_id = user, d_generation = g, d_run_id = Some run, d_owner_id = Some (worker_id w),
      d_phase = p, d_trigger_message_id = trigger, d_lease_expires_at = Some (lease_expiry t),
      d_abort_requested_at = None, d_started_at = Some t, d_updated_at = t\<rparr>"

definition issue_lease ::
  "worker \<Rightarrow> env \<Rightarrow> ident \<Rightarrow> ident \<Rightarrow> driver_row \<Rightarrow> worker \<times> lease" where
  "issue_lease w e sid user r = (let run = the (d_run_id r); w1 = publish_reserved_status w sid user (d_generation r)
     in activate_local_lease w1 (monotonic e) sid user run (d_generation r) (lease_expiry (now e)))"

definition next_generation :: "ident \<Rightarrow> time \<Rightarrow> driver_row option \<Rightarrow> driver_error + int" where
  "next_generation sid t state = (case state of
       None \<Rightarrow> Inr (0 + 1)
     | Some r \<Rightarrow>
         if is_live r t then Inl (DriverBusyError (d_run_id r) (d_generation r))
         else if d_phase r \<noteq> Idle then Inl (DriverRecoveryRequiredError (recovery_record sid r))
         else Inr (d_generation r + 1))"

definition claim_resume_command ::
  "'a assistant_ops \<Rightarrow> ident option \<Rightarrow> ident \<Rightarrow> driver_row \<Rightarrow> 'a db \<Rightarrow> driver_error + 'a db" where
  "claim_resume_command ops resume_command sid row db = (case resume_command of
       None \<Rightarrow> Inr db
     | Some cmd \<Rightarrow>
         rbind (claim_resume ops (assistant db) sid row cmd) (\<lambda>(msg, a).
           Inr (db\<lparr>drivers := tput sid (row\<lparr>d_trigger_message_id := Some msg\<rparr>) (drivers db),
                   assistant := a\<rparr>)))"

definition reserve_run ::
  "'a assistant_ops \<Rightarrow> 'a db \<Rightarrow> env \<Rightarrow> worker \<Rightarrow> ident \<Rightarrow> ident \<Rightarrow> ident option \<Rightarrow> ident option \<Rightarrow> phase \<Rightarrow>
     ident option \<Rightarrow> bool \<Rightarrow> driver_error + (worker \<times> lease \<times> 'a db)" where
  "reserve_run ops db e w sid user run_id trigger initial_phase resume_command require_unlinked =
     (if initial_phase \<notin> {Reserved, Running, Finalizing} then Inl ValueError
      else if resume_command \<noteq> None \<and> initial_phase \<noteq> Reserved then Inl ValueError
      else case open_session db sid user of
        None \<Rightarrow> Inl (LookupError sid)
      | Some s \<Rightarrow>
         if initial_phase \<noteq> Finalizing \<and> held ops (assistant db) sid s resume_command then Inl TaskSchedulingHeld
         else if require_unlinked \<and> linked_task ops (assistant db) sid then Inl (AssistantError ''ASSISTANT_LINK_CHANGED'')
         else rbind (next_generation sid (now e) (tget (drivers db) sid)) (\<lambda>g.
           rbind (enforce_agent_quota_locked db e user) (\<lambda>_.
             let run = (case run_id of None \<Rightarrow> fresh_id e | Some r \<Rightarrow> if r = [] then fresh_id e else r);
                 row = granted_row w (now e) user g run initial_phase trigger;
                 db1 = set_status sid s ''busy'' (now e) (db\<lparr>drivers := tput sid row (drivers db)\<rparr>)
             in rbind (claim_resume_command ops resume_command sid row db1) (\<lambda>db2.
                  let (w', l) = issue_lease w e sid user row in Inr (w', l, db2)))))"

definition reserve_recovered_run ::
  "'a assistant_ops \<Rightarrow> 'a db \<Rightarrow> env \<Rightarrow> worker \<Rightarrow> recovered_driver \<Rightarrow> phase \<Rightarrow>
     driver_error + (worker \<times> lease \<times> 'a db)" where
  "reserve_recovered_run ops db e w rec initial_phase =
     (if initial_phase \<notin> {Reserved, Finalizing} then Inl ValueError
      else case open_session db (rec_session_id rec) (rec_user_id rec) of
        None \<Rightarrow> Inl (LookupError (rec_session_id rec))
      | Some s \<Rightarrow>
         if initial_phase \<noteq> Finalizing \<and> held ops (assistant db) (rec_session_id rec) s None then Inl TaskSchedulingHeld
         else case tget (drivers db) (rec_session_id rec) of
           None \<Rightarrow> Inl StaleRecoveryError
         | Some r \<Rightarrow>
            if recovery_record (rec_session_id rec) r \<noteq> rec \<or> d_phase r = Idle \<or>
               \<not> not_after (d_lease_expires_at r) (now e)
            then Inl StaleRecoveryError
            else rbind (enforce_agent_quota_locked db e (rec_user_id rec)) (\<lambda>_.
              let row = granted_row w (now e) (d_user_id r) (rec_generation rec + 1) (fresh_id e) initial_phase
                          (rec_trigger_message_id rec);
                  db1 = set_status (rec_session_id rec) s ''busy'' (now e)
                          (db\<lparr>drivers := tput (rec_session_id rec) row (drivers db)\<rparr>);
                  db2 = (if initial_phase = Reserved
                         then db1\<lparr>assistant := rebind_resume ops
                                (append_turn_recovered ops (assistant db1) (rec_session_id rec) row rec)
                                (rec_session_id rec) row rec\<rparr>
                         else db1);
                  (w', l) = issue_lease w e (rec_session_id rec) (rec_user_id rec) row
              in Inr (w', l, db2)))"

definition reserve_aborted_run_settlement ::
  "'a db \<Rightarrow> env \<Rightarrow> worker \<Rightarrow> ident \<Rightarrow> ident \<Rightarrow> ident \<Rightarrow> int \<Rightarrow> driver_error + (worker \<times> lease \<times> 'a db)" where
  "reserve_aborted_run_settlement db e w sid user settled_run settled_generation =
     (if settled_run = [] then Inl ValueError
      else case open_session db sid user of
        None \<Rightarrow> Inl (LookupError sid)
      | Some s \<Rightarrow> (case tget (drivers db) sid of
          None \<Rightarrow> Inl StaleRecoveryError
        | Some r \<Rightarrow>
            if d_user_id r = user \<and> d_generation r = settled_generation \<and> d_phase r = Idle \<and>
               d_run_id r = None \<and> d_owner_id r = None \<and> d_trigger_message_id r = None \<and>
               d_lease_expires_at r = None
            then let row = granted_row w (now e) (d_user_id r) (settled_generation + 1) (fresh_id e) Finalizing None;
                     db1 = set_status sid s ''busy'' (now e) (db\<lparr>drivers := tput sid row (drivers db)\<rparr>);
                     (w', l) = issue_lease w e sid user row
                 in Inr (w', l, db1)
            else Inl StaleRecoveryError))"

section \<open>Stopping and recovering\<close>

definition request_abort ::
  "'a assistant_ops \<Rightarrow> 'a db \<Rightarrow> env \<Rightarrow> worker \<Rightarrow> ident \<Rightarrow> ident \<Rightarrow> ident option \<Rightarrow> int option \<Rightarrow> bool \<Rightarrow>
     worker \<times> 'a db \<times> (driver_error + bool)" where
  "request_abort ops db e w sid user expected_run expected_generation user_stop =
     (let exact = (expected_run \<noteq> None \<or> expected_generation \<noteq> None)
      in if exact \<and> (expected_run = None \<or> expected_generation = None) then (w, db, Inl ValueError)
      else
        let w1 = (if exact then w else w\<lparr>signals_of := trigger_abort (signals_of w) sid (monotonic e)\<rparr>);
            stopped = (if user_stop then open_session db sid user else None)
        in if user_stop \<and> stopped = None then (w1, db, Inr False)
        else
          let (db1, matched) = update_driver sid
                (\<lambda>r. d_user_id r = user \<and> d_phase r \<noteq> Idle \<and> after_now (d_lease_expires_at r) (now e) \<and>
                      (exact \<longrightarrow> d_run_id r = expected_run \<and> Some (d_generation r) = expected_generation))
                (\<lambda>r. r\<lparr>d_abort_requested_at := Some (now e), d_updated_at := now e\<rparr>) db;
              db2 = (case stopped of
                       None \<Rightarrow> db1
                     | Some s \<Rightarrow>
                         if matched \<and> s_kind s = ''assistant''
                         then let target = (case expected_run of
                                              Some r \<Rightarrow> if r = [] then (case tget (drivers db1) sid of None \<Rightarrow> None | Some d \<Rightarrow> d_run_id d) else Some r
                                            | None \<Rightarrow> (case tget (drivers db1) sid of None \<Rightarrow> None | Some d \<Rightarrow> d_run_id d));
                                  (a, done) = stop_report ops (assistant db1) sid target
                              in if done then (db1\<lparr>assistant := a,
                                     sessions := tput sid (s\<lparr>s_status := ''idle''\<rparr>) (sessions db1)\<rparr>)
                                 else db1\<lparr>assistant := a\<rparr>
                         else db1);
              w2 = (if exact \<and> matched
                    then (case tget (activities w1) sid of
                            None \<Rightarrow> w1
                          | Some a \<Rightarrow>
                              if Some (act_run_id a) = expected_run \<and> Some (act_generation a) = expected_generation
                              then w1\<lparr>signals_of := set_event (act_abort a) (signals_of w1)\<rparr> else w1)
                    else w1)
          in (w2, db2, Inr matched))"

definition expired_marker :: "time \<Rightarrow> driver_row \<Rightarrow> bool" where
  "expired_marker t r \<longleftrightarrow> d_phase r \<noteq> Idle \<and> not_after (d_lease_expires_at r) t"

definition recover_expired_driver_records :: "'a db \<Rightarrow> time \<Rightarrow> 'a db \<times> recovered_driver list" where
  "recover_expired_driver_records db t =
     (let states = sort_key fst (filter (\<lambda>(sid, r). expired_marker t r) (drivers db));
          ids = map fst states
      in (db\<lparr>drivers := map (\<lambda>(sid, r). (sid, if expired_marker t r then r\<lparr>d_updated_at := t\<rparr> else r)) (drivers db),
             sessions := map (\<lambda>(sid, s). (sid, if sid \<in> set ids then s\<lparr>s_status := ''error'', s_updated_at := t\<rparr> else s))
                             (sessions db)\<rparr>,
          map (\<lambda>(sid, r). recovery_record sid r) states))"

end
