(* ===== verification/Driver_Invariants.thy ===== *)
theory Driver_Invariants
  imports Driver_Lease
begin

text \<open>
  What the operations of \<^verbatim>\<open>agent/driver.py\<close> keep true. Two kinds of transition change the driver
  table: a \<^emph>\<open>grant\<close> (one of the three reservations) installs a row of the next generation over an
  absent, idle or expired one; every other operation is \<^emph>\<open>quiet\<close>: it touches only rows of active
  phases, keeps their generation and owner or clears them, and makes no expired lease live again.
  The cluster relation \<open>driver_step\<close> interleaves any number of workers, with leases the adversary
  may choose freely, and records every grant.
\<close>

section \<open>Quiet changes\<close>

definition row_evolves :: "time \<Rightarrow> driver_row \<Rightarrow> driver_row \<Rightarrow> bool" where
  "row_evolves t r r' \<longleftrightarrow> d_phase r \<noteq> Idle \<and> d_user_id r' = d_user_id r \<and> d_generation r' = d_generation r \<and>
     (d_run_id r' = d_run_id r \<and> d_owner_id r' = d_owner_id r \<and> d_phase r' \<noteq> Idle \<and>
        (d_lease_expires_at r' = None \<longrightarrow> d_lease_expires_at r = None) \<or>
      d_run_id r' = None \<and> d_owner_id r' = None \<and> d_phase r' = Idle \<and> d_trigger_message_id r' = None \<and>
        d_lease_expires_at r' = None \<and> d_abort_requested_at r' = None) \<and>
     (after_now (d_lease_expires_at r') t \<longrightarrow> after_now (d_lease_expires_at r) t)"

definition quiet :: "time \<Rightarrow> (ident, driver_row) table \<Rightarrow> (ident, driver_row) table \<Rightarrow> bool" where
  "quiet t d d' \<longleftrightarrow> twf d' \<and>
     (\<forall>k. tget d' k = tget d k \<or>
          (\<exists>r r'. tget d k = Some r \<and> tget d' k = Some r' \<and> row_evolves t r r')) \<and>
     (\<forall>u. tcount (counts_for u t) d' \<le> tcount (counts_for u t) d)"

lemma quiet_refl: "twf d \<Longrightarrow> quiet t d d"
  by (simp add: quiet_def)

lemma row_evolves_counts: "row_evolves t r r' \<Longrightarrow> counts_for u t k r' \<Longrightarrow> counts_for u t k r"
  by (auto simp: row_evolves_def counts_for_def)

lemma update_driver_drivers [simp]:
  "drivers (fst (update_driver sid P f db)) = fst (update_where sid P f (drivers db))"
  "snd (update_driver sid P f db) = snd (update_where sid P f (drivers db))"
  "sessions (fst (update_driver sid P f db)) = sessions db"
  "assistant (fst (update_driver sid P f db)) = assistant db"
  by (simp_all add: update_driver_def case_prod_unfold Let_def)

lemma set_status_drivers [simp]:
  "drivers (set_status sid s st t db) = drivers db" "assistant (set_status sid s st t db) = assistant db"
  by (simp_all add: set_status_def)

lemma quiet_update_where:
  assumes wf: "twf d" and ev: "\<And>r. tget d sid = Some r \<Longrightarrow> P r \<Longrightarrow> row_evolves t r (f r)"
  shows "quiet t d (fst (update_where sid P f d))"
proof (cases "snd (update_where sid P f d)")
  case False
  then show ?thesis using wf by (simp add: update_where_miss quiet_refl)
next
  case True
  then obtain r where r: "tget d sid = Some r" "P r" by (auto simp: update_where_match)
  have e: "fst (update_where sid P f d) = tput sid (f r) d"
    using r by (simp add: update_where_def)
  have "tcount (counts_for u t) (tput sid (f r) d) \<le> tcount (counts_for u t) d" for u
    using wf r ev by (intro tbl.count_put_still) (auto dest: row_evolves_counts)
  then show ?thesis
    using wf r ev by (auto simp: quiet_def e tget_tput twf_tput)
qed

lemma quiet_sweep:
  assumes "twf d"
  shows "quiet t d (map (\<lambda>(k, r). (k, if expired_marker t r then r\<lparr>d_updated_at := t\<rparr> else r)) d)"
proof -
  let ?f = "\<lambda>r. if expired_marker t r then r\<lparr>d_updated_at := t\<rparr> else r"
  have g: "tget (map (\<lambda>(k, r). (k, ?f r)) d) k = map_option ?f (tget d k)" for k
    by (simp add: tget_def map_of_map [of ?f, simplified case_prod_unfold] case_prod_unfold)
  have w: "twf (map (\<lambda>(k, r). (k, ?f r)) d)"
    using assms by (simp add: twf_def comp_def case_prod_unfold)
  have c: "tcount (counts_for u t) (map (\<lambda>(k, r). (k, ?f r)) d) = tcount (counts_for u t) d" for u
  proof -
    have "counts_for u t k (?f r) = counts_for u t k r" for k r
      by (simp add: counts_for_def)
    then show ?thesis by (simp add: tcount_def filter_map comp_def case_prod_unfold)
  qed
  have "map_option ?f (tget d k) = tget d k \<or>
      (\<exists>r r'. tget d k = Some r \<and> map_option ?f (tget d k) = Some r' \<and> row_evolves t r r')" for k
    by (cases "tget d k") (auto simp: row_evolves_def expired_marker_def)
  with g w c show ?thesis by (simp add: quiet_def)
qed

lemma owned_row_active: "owned_row l t r \<Longrightarrow> d_phase r \<noteq> Idle \<and> after_now (d_lease_expires_at r) t"
  by (simp add: owned_row_def fence_row_def)

lemma renew_drivers:
  "twf (drivers db) \<Longrightarrow> quiet t (drivers db) (drivers (fst (snd (renew db t l))))"
  by (auto simp: renew_def case_prod_unfold Let_def quiet_refl row_evolves_def dest: owned_row_active
      intro!: quiet_update_where split: option.split)

lemma assert_current_drivers:
  "twf (drivers db) \<Longrightarrow> quiet t (drivers db) (drivers (fst (snd (snd (assert_current db t ticket w l)))))"
  using renew_drivers [of db t l]
  by (auto simp: assert_current_def case_prod_unfold Let_def quiet_refl split: option.split)

lemma set_phase_drivers:
  "twf (drivers db) \<Longrightarrow> quiet t (drivers db) (drivers (fst (snd (snd (set_phase db t w l p)))))"
  by (auto simp: set_phase_def case_prod_unfold Let_def quiet_refl row_evolves_def dest: owned_row_active
      intro!: quiet_update_where split: option.split)

lemma bind_trigger_message_drivers:
  "twf (drivers db) \<Longrightarrow> quiet t (drivers db) (drivers (fst (snd (snd (bind_trigger_message db t w l m)))))"
  by (auto simp: bind_trigger_message_def case_prod_unfold Let_def quiet_refl row_evolves_def
      dest: owned_row_active intro!: quiet_update_where)

lemma bind_trigger_message_locked_drivers:
  "twf (drivers db) \<Longrightarrow> bind_trigger_message_locked db t sid user run g m = Inr db' \<Longrightarrow>
   quiet t (drivers db) (drivers db')"
  by (auto simp: bind_trigger_message_locked_def case_prod_unfold Let_def row_evolves_def fence_row_def
      intro!: quiet_update_where split: if_splits)

lemma release_drivers:
  "twf (drivers db) \<Longrightarrow> quiet t (drivers db) (drivers (fst (snd (snd (release ops db t w l st)))))"
  by (auto simp: release_def case_prod_unfold Let_def quiet_refl row_evolves_def dest: owned_row_active
      intro!: quiet_update_where split: option.split)

lemma preserve_for_recovery_drivers:
  "twf (drivers db) \<Longrightarrow> quiet t (drivers db) (drivers (fst (snd (snd (preserve_for_recovery db t w l st)))))"
  by (auto simp: preserve_for_recovery_def case_prod_unfold Let_def quiet_refl row_evolves_def
      intro!: quiet_update_where split: option.split)

lemma request_abort_drivers:
  assumes "twf (drivers db)"
  shows "quiet (now e) (drivers db) (drivers (fst (snd (request_abort ops db e w sid user r g stop))))"
proof -
  let ?x = "r \<noteq> None \<or> g \<noteq> None"
  let ?P = "\<lambda>d. d_user_id d = user \<and> d_phase d \<noteq> Idle \<and> after_now (d_lease_expires_at d) (now e) \<and>
     (?x \<longrightarrow> d_run_id d = r \<and> Some (d_generation d) = g)"
  let ?f = "\<lambda>d. d\<lparr>d_abort_requested_at := Some (now e), d_updated_at := now e\<rparr>"
  have q: "quiet (now e) (drivers db) (fst (update_where sid ?P ?f (drivers db)))"
    using assms by (rule quiet_update_where) (simp add: row_evolves_def)
  have "drivers (fst (snd (request_abort ops db e w sid user r g stop))) \<in>
      {drivers db, fst (update_where sid ?P ?f (drivers db))}"
    by (simp add: request_abort_def case_prod_unfold Let_def split: option.split)
  with q quiet_refl [OF assms] show ?thesis by auto
qed

lemma sweep_drivers:
  "twf (drivers db) \<Longrightarrow> quiet t (drivers db) (drivers (fst (recover_expired_driver_records db t)))"
  by (simp add: recover_expired_driver_records_def Let_def quiet_sweep)

lemmas quiet_ops = renew_drivers assert_current_drivers set_phase_drivers bind_trigger_message_drivers
  release_drivers preserve_for_recovery_drivers request_abort_drivers sweep_drivers

section \<open>Grants\<close>

definition driver_gen :: "ident \<Rightarrow> (ident, driver_row) table \<Rightarrow> int" where
  "driver_gen sid d = (case tget d sid of None \<Rightarrow> 0 | Some r \<Rightarrow> d_generation r)"

definition grant_change :: "time \<Rightarrow> lease \<Rightarrow> (ident, driver_row) table \<Rightarrow> (ident, driver_row) table \<Rightarrow> bool" where
  "grant_change t l d d' \<longleftrightarrow>
     l_generation l = driver_gen (l_session_id l) d + 1 \<and>
     (\<forall>r. tget d (l_session_id l) = Some r \<longrightarrow> d_phase r = Idle \<or> \<not> after_now (d_lease_expires_at r) t) \<and>
     (\<exists>row. d' = tput (l_session_id l) row d \<and> fence_row (l_user_id l) (l_run_id l) (l_generation l) t row \<and>
        d_owner_id row = Some (l_owner_id l) \<and> d_lease_expires_at row = Some (lease_expiry t))"

lemma lease_expiry_later [simp]: "t < lease_expiry t"
  by (simp add: lease_expiry_def LEASE_SECONDS_def)

lemma issue_lease_fields:
  "l_session_id (snd (issue_lease w e sid user r)) = sid" "l_user_id (snd (issue_lease w e sid user r)) = user"
  "l_run_id (snd (issue_lease w e sid user r)) = the (d_run_id r)"
  "l_generation (snd (issue_lease w e sid user r)) = d_generation r"
  "l_owner_id (snd (issue_lease w e sid user r)) = worker_id w"
  by (simp_all add: issue_lease_def activate_local_lease_def publish_reserved_status_def case_prod_unfold Let_def)

lemma granted_row_fields [simp]:
  "d_user_id (granted_row w t u g run p trg) = u" "d_generation (granted_row w t u g run p trg) = g"
  "d_run_id (granted_row w t u g run p trg) = Some run" "d_phase (granted_row w t u g run p trg) = p"
  "d_owner_id (granted_row w t u g run p trg) = Some (worker_id w)"
  "d_trigger_message_id (granted_row w t u g run p trg) = trg"
  "d_lease_expires_at (granted_row w t u g run p trg) = Some (lease_expiry t)"
  by (simp_all add: granted_row_def)

lemma enforce_quota_Inr:
  "enforce_agent_quota_locked db e user = Inr x \<longleftrightarrow>
   int (tcount (counts_for user (now e)) (drivers db)) < max_concurrent_agents e"
  by (simp add: enforce_agent_quota_locked_def Let_def)

lemma next_generation_Inr:
  assumes "next_generation sid t (tget d sid) = Inr g"
  shows "g = driver_gen sid d + 1"
    and "tget d sid = Some r \<Longrightarrow> d_phase r = Idle"
  using assms by (auto simp: next_generation_def driver_gen_def split: option.splits if_splits)

lemma claim_resume_command_Inr:
  assumes "claim_resume_command ops cmd sid row db = Inr db'"
  shows "\<exists>trg. drivers db' = tput sid (row\<lparr>d_trigger_message_id := trg\<rparr>) (drivers db) \<or> db' = db"
  using assms by (auto simp: claim_resume_command_def rbind_Inr_iff split: option.splits)

lemma reserve_run_Inr:
  assumes "reserve_run ops db e w sid user run trg p cmd unl = Inr (w', l, db')"
  obtains g r s db1 where "next_generation sid (now e) (tget (drivers db) sid) = Inr g"
    and "int (tcount (counts_for user (now e)) (drivers db)) < max_concurrent_agents e"
    and "p \<noteq> Idle" and "open_session db sid user = Some s"
    and "claim_resume_command ops cmd sid (granted_row w (now e) user g r p trg) db1 = Inr db'"
    and "drivers db1 = tput sid (granted_row w (now e) user g r p trg) (drivers db)"
    and "l = snd (issue_lease w e sid user (granted_row w (now e) user g r p trg))"
    and "r \<in> {fresh_id e} \<union> set_option run" and "r = [] \<Longrightarrow> fresh_id e = []"
proof -
  let ?r = "case run of None \<Rightarrow> fresh_id e | Some r \<Rightarrow> if r = [] then fresh_id e else r"
  from assms obtain s where s: "open_session db sid user = Some s"
    by (auto simp: reserve_run_def split: if_splits option.splits)
  have p: "p \<noteq> Idle" using assms by (auto simp: reserve_run_def split: if_splits)
  from assms s obtain g where g: "next_generation sid (now e) (tget (drivers db) sid) = Inr g"
    by (cases "next_generation sid (now e) (tget (drivers db) sid)") (auto simp: reserve_run_def split: if_splits)
  let ?row = "granted_row w (now e) user g ?r p trg"
  let ?db1 = "set_status sid s ''busy'' (now e) (db\<lparr>drivers := tput sid ?row (drivers db)\<rparr>)"
  from assms s g have q: "int (tcount (counts_for user (now e)) (drivers db)) < max_concurrent_agents e"
    and c: "claim_resume_command ops cmd sid ?row ?db1 = Inr db'"
    and l: "l = snd (issue_lease w e sid user ?row)"
    by (auto simp: reserve_run_def rbind_Inr_iff enforce_quota_Inr Let_def case_prod_unfold split: if_splits)
  show ?thesis
    by (rule that [OF g q p s c _ l]) (auto split: option.splits if_splits)
qed

lemma reserve_run_grant:
  assumes "reserve_run ops db e w sid user run trg p cmd unl = Inr (w', l, db')"
  shows "grant_change (now e) l (drivers db) (drivers db')"
    and "int (tcount (counts_for (l_user_id l) (now e)) (drivers db)) < max_concurrent_agents e"
proof -
  from assms obtain g r s db1 where f:
    "next_generation sid (now e) (tget (drivers db) sid) = Inr g" "p \<noteq> Idle"
    "int (tcount (counts_for user (now e)) (drivers db)) < max_concurrent_agents e"
    "claim_resume_command ops cmd sid (granted_row w (now e) user g r p trg) db1 = Inr db'"
    "drivers db1 = tput sid (granted_row w (now e) user g r p trg) (drivers db)"
    "l = snd (issue_lease w e sid user (granted_row w (now e) user g r p trg))"
    by (rule reserve_run_Inr) blast
  from claim_resume_command_Inr [OF f(4)] obtain row where
    "drivers db' = tput sid row (drivers db)" "fence_row user r g (now e) row"
    "d_owner_id row = Some (worker_id w)" "d_lease_expires_at row = Some (lease_expiry (now e))"
    using f(2) by (fastforce simp: f(5) fence_row_def)
  then show "grant_change (now e) l (drivers db) (drivers db')"
    using next_generation_Inr [OF f(1)] by (auto simp: grant_change_def f(6) issue_lease_fields)
  show "int (tcount (counts_for (l_user_id l) (now e)) (drivers db)) < max_concurrent_agents e"
    using f(3) by (simp add: f(6) issue_lease_fields)
qed

lemma recovery_record_eq_iff:
  "recovery_record (rec_session_id rec) r = rec \<longleftrightarrow>
     d_user_id r = rec_user_id rec \<and> d_run_id r = rec_run_id rec \<and> d_generation r = rec_generation rec \<and>
     d_phase r = rec_phase rec \<and> d_trigger_message_id r = rec_trigger_message_id rec"
  by (cases rec) (auto simp: recovery_record_def)

lemma reserve_recovered_run_grant:
  assumes "reserve_recovered_run ops db e w rec p = Inr (w', l, db')"
  shows "grant_change (now e) l (drivers db) (drivers db')"
    and "int (tcount (counts_for (l_user_id l) (now e)) (drivers db)) < max_concurrent_agents e"
  using assms
  by (auto simp: reserve_recovered_run_def rbind_Inr_iff enforce_quota_Inr Let_def case_prod_unfold
      grant_change_def driver_gen_def fence_row_def issue_lease_fields recovery_record_eq_iff not_after_def
      split: if_splits option.splits)

lemma reserve_aborted_run_settlement_grant:
  assumes "reserve_aborted_run_settlement db e w sid user run g = Inr (w', l, db')"
  shows "grant_change (now e) l (drivers db) (drivers db')"
  using assms
  by (auto simp: reserve_aborted_run_settlement_def Let_def case_prod_unfold grant_change_def driver_gen_def
      fence_row_def issue_lease_fields split: if_splits option.splits)

lemma grant_change_gen:
  "grant_change t l d d' \<Longrightarrow>
   driver_gen k d' = (if k = l_session_id l then driver_gen k d + 1 else driver_gen k d)"
  by (auto simp: grant_change_def driver_gen_def tget_tput fence_row_def)

lemma grant_change_count:
  assumes "grant_change t l d d'" and "twf d"
  shows "tcount (counts_for u t) d' = tcount (counts_for u t) d + (if u = l_user_id l then 1 else 0)"
proof -
  from assms(1) obtain row where d': "d' = tput (l_session_id l) row d"
    and row: "fence_row (l_user_id l) (l_run_id l) (l_generation l) t row"
    by (auto simp: grant_change_def)
  have "old_hit (counts_for u t) (l_session_id l) (tget d (l_session_id l)) = 0"
    using assms(1) by (auto simp: grant_change_def counts_for_def old_hit_def split: option.split)
  with tcount_tput [OF assms(2), of "counts_for u t" "l_session_id l" row] row
  show ?thesis by (auto simp: d' counts_for_def fence_row_def)
qed

lemma quiet_gen: "quiet t d d' \<Longrightarrow> driver_gen k d' = driver_gen k d"
  unfolding quiet_def driver_gen_def row_evolves_def by (metis option.simps(5))

section \<open>Clusters of workers\<close>

text \<open>The state of a cluster: the database clock, the database and, newest first, every lease a
  reservation has returned.\<close>

record 'a cluster =
  clock :: time
  core :: "'a db"
  granted :: "lease list"

datatype step_kind = Tick | Admission | Settlement | Quiet

inductive driver_step :: "'a assistant_ops \<Rightarrow> int \<Rightarrow> step_kind \<Rightarrow> 'a cluster \<Rightarrow> 'a cluster \<Rightarrow> bool"
  for ops :: "'a assistant_ops" and lim :: int where
  tick: "clock s \<le> t \<Longrightarrow> driver_step ops lim Tick s (s\<lparr>clock := t\<rparr>)"
| reserved: "now e = clock s \<Longrightarrow> max_concurrent_agents e = lim \<Longrightarrow>
    reserve_run ops (core s) e w sid user run trg p cmd unl = Inr (w', l, d) \<Longrightarrow>
    driver_step ops lim Admission s (s\<lparr>core := d, granted := l # granted s\<rparr>)"
| recovered: "now e = clock s \<Longrightarrow> max_concurrent_agents e = lim \<Longrightarrow>
    reserve_recovered_run ops (core s) e w rec p = Inr (w', l, d) \<Longrightarrow>
    driver_step ops lim Admission s (s\<lparr>core := d, granted := l # granted s\<rparr>)"
| settled: "now e = clock s \<Longrightarrow>
    reserve_aborted_run_settlement (core s) e w sid user run g = Inr (w', l, d) \<Longrightarrow>
    driver_step ops lim Settlement s (s\<lparr>core := d, granted := l # granted s\<rparr>)"
| renewed: "driver_step ops lim Quiet s (s\<lparr>core := fst (snd (renew (core s) (clock s) l))\<rparr>)"
| checked: "driver_step ops lim Quiet s (s\<lparr>core := fst (snd (snd (assert_current (core s) (clock s) ticket w l)))\<rparr>)"
| phased: "driver_step ops lim Quiet s (s\<lparr>core := fst (snd (snd (set_phase (core s) (clock s) w l p)))\<rparr>)"
| bound: "driver_step ops lim Quiet s (s\<lparr>core := fst (snd (snd (bind_trigger_message (core s) (clock s) w l m)))\<rparr>)"
| bound_locked: "bind_trigger_message_locked (core s) (clock s) sid user run g m = Inr d \<Longrightarrow>
    driver_step ops lim Quiet s (s\<lparr>core := d\<rparr>)"
| released: "driver_step ops lim Quiet s (s\<lparr>core := fst (snd (snd (release ops (core s) (clock s) w l st)))\<rparr>)"
| preserved: "driver_step ops lim Quiet s (s\<lparr>core := fst (snd (snd (preserve_for_recovery (core s) (clock s) w l st)))\<rparr>)"
| aborted: "now e = clock s \<Longrightarrow>
    driver_step ops lim Quiet s (s\<lparr>core := fst (snd (request_abort ops (core s) e w sid user run g stop))\<rparr>)"
| swept: "driver_step ops lim Quiet s (s\<lparr>core := fst (recover_expired_driver_records (core s) (clock s))\<rparr>)"

definition any_step :: "'a assistant_ops \<Rightarrow> int \<Rightarrow> 'a cluster \<Rightarrow> 'a cluster \<Rightarrow> bool" where
  "any_step ops lim s s' \<longleftrightarrow> (\<exists>k. driver_step ops lim k s s')"

text \<open>Every step is a tick, a grant or a quiet change of the driver table.\<close>

lemma driver_step_shape:
  assumes "driver_step ops lim k s s'" and "twf (drivers (core s))"
  obtains (Tick) "k = Tick" "core s' = core s" "granted s' = granted s" "clock s \<le> clock s'"
  | (Grant) l where "k = Admission \<or> k = Settlement" "clock s' = clock s" "granted s' = l # granted s"
      "grant_change (clock s) l (drivers (core s)) (drivers (core s'))"
      "k = Admission \<Longrightarrow> int (tcount (counts_for (l_user_id l) (clock s)) (drivers (core s))) < lim"
  | (Quiet) "k = Quiet" "clock s' = clock s" "granted s' = granted s"
      "quiet (clock s) (drivers (core s)) (drivers (core s'))"
  using assms
proof (induction rule: driver_step.induct)
  case (reserved e s w sid user run trg p cmd unl w' l d)
  with reserve_run_grant [OF reserved(3)] show ?case by simp
next
  case (recovered e s w rec p w' l d)
  with reserve_recovered_run_grant [OF recovered(3)] show ?case by simp
next
  case (settled e s w sid user run g w' l d)
  with reserve_aborted_run_settlement_grant [OF settled(2)] show ?case by simp
next
  case (bound_locked s sid user run g m d)
  with bind_trigger_message_locked_drivers [OF _ bound_locked(1)] show ?case by simp
next
  case (aborted e s w sid user run g stop)
  have "quiet (clock s) (drivers (core s)) (drivers (fst (snd (request_abort ops (core s) e w sid user run g stop))))"
    using request_abort_drivers [OF aborted(5), of e ops w sid user run g stop] aborted(1) by simp
  then show ?case using aborted(4) by simp
qed (simp_all add: quiet_ops)

definition row_wf :: "driver_row \<Rightarrow> bool" where
  "row_wf r \<longleftrightarrow> (if d_phase r = Idle
     then d_run_id r = None \<and> d_owner_id r = None \<and> d_lease_expires_at r = None
     else d_run_id r \<noteq> None \<and> d_owner_id r \<noteq> None \<and> d_lease_expires_at r \<noteq> None)"

text \<open>The leases granted for one session, newest first.\<close>

definition grants_of :: "ident \<Rightarrow> lease list \<Rightarrow> lease list" where
  "grants_of sid ls = filter (\<lambda>l. l_session_id l = sid) ls"

definition row_of_lease :: "lease \<Rightarrow> driver_row \<Rightarrow> bool" where
  "row_of_lease l r \<longleftrightarrow> d_user_id r = l_user_id l \<and> d_run_id r = Some (l_run_id l) \<and>
     d_generation r = l_generation l \<and> d_owner_id r = Some (l_owner_id l)"

definition cluster_inv :: "'a cluster \<Rightarrow> bool" where
  "cluster_inv s \<longleftrightarrow> twf (drivers (core s)) \<and>
     (\<forall>k r. tget (drivers (core s)) k = Some r \<longrightarrow> row_wf r) \<and>
     (\<forall>k. sorted_wrt (\<lambda>a b. l_generation b < l_generation a) (grants_of k (granted s))) \<and>
     (\<forall>k l. l \<in> set (grants_of k (granted s)) \<longrightarrow> l_generation l \<le> driver_gen k (drivers (core s))) \<and>
     (\<forall>k r. tget (drivers (core s)) k = Some r \<longrightarrow> d_phase r \<noteq> Idle \<longrightarrow>
        (\<exists>l ls. grants_of k (granted s) = l # ls \<and> row_of_lease l r))"

definition start_cluster :: "'a cluster \<Rightarrow> bool" where
  "start_cluster s \<longleftrightarrow> drivers (core s) = [] \<and> granted s = []"

lemma start_cluster_inv: "start_cluster s \<Longrightarrow> cluster_inv s"
  by (simp add: start_cluster_def cluster_inv_def grants_of_def)

lemma cluster_inv_quiet:
  assumes inv: "cluster_inv s" and q: "quiet (clock s) (drivers (core s)) (drivers (core s'))"
    and g: "granted s' = granted s"
  shows "cluster_inv s'"
proof -
  have ev: "tget (drivers (core s')) k = Some r' \<Longrightarrow>
      tget (drivers (core s)) k = Some r' \<or>
      (\<exists>r. tget (drivers (core s)) k = Some r \<and> row_evolves (clock s) r r')" for k r'
    using q unfolding quiet_def by (metis option.inject)
  have "row_wf r'" if "tget (drivers (core s')) k = Some r'" for k r'
  proof -
    from inv have *: "row_wf r" if "tget (drivers (core s)) k = Some r" for r
      using that by (auto simp: cluster_inv_def)
    from ev [OF that] show ?thesis
      by (fastforce dest: * simp: row_evolves_def row_wf_def)
  qed
  moreover have "\<exists>l ls. grants_of k (granted s) = l # ls \<and> row_of_lease l r'"
    if "tget (drivers (core s')) k = Some r'" "d_phase r' \<noteq> Idle" for k r'
  proof -
    from inv have *: "\<exists>l ls. grants_of k (granted s) = l # ls \<and> row_of_lease l r"
      if "tget (drivers (core s)) k = Some r" "d_phase r \<noteq> Idle" for r
      using that by (auto simp: cluster_inv_def)
    from ev [OF that(1)] that(2) show ?thesis
      by (fastforce dest: * simp: row_evolves_def row_of_lease_def)
  qed
  moreover have "twf (drivers (core s'))" using q by (simp add: quiet_def)
  ultimately show ?thesis
    using inv by (auto simp: cluster_inv_def g quiet_gen [OF q])
qed

lemma cluster_inv_grant:
  assumes inv: "cluster_inv s" and c: "grant_change (clock s) l (drivers (core s)) (drivers (core s'))"
    and g: "granted s' = l # granted s"
  shows "cluster_inv s'"
proof -
  from c obtain row where d': "drivers (core s') = tput (l_session_id l) row (drivers (core s))"
    and f: "fence_row (l_user_id l) (l_run_id l) (l_generation l) (clock s) row"
      "d_owner_id row = Some (l_owner_id l)" "d_lease_expires_at row = Some (lease_expiry (clock s))"
    by (auto simp: grant_change_def)
  have gen: "driver_gen k (drivers (core s')) =
      (if k = l_session_id l then driver_gen k (drivers (core s)) + 1 else driver_gen k (drivers (core s)))" for k
    by (rule grant_change_gen [OF c])
  have lg: "l_generation l = driver_gen (l_session_id l) (drivers (core s)) + 1"
    using c by (simp add: grant_change_def)
  have go: "grants_of k (granted s') = (if k = l_session_id l then [l] else []) @ grants_of k (granted s)" for k
    by (auto simp: g grants_of_def)
  have le: "m \<in> set (grants_of k (granted s)) \<Longrightarrow> l_generation m \<le> driver_gen k (drivers (core s))" for k m
    using inv by (simp add: cluster_inv_def)
  show ?thesis
    unfolding cluster_inv_def
  proof (intro conjI allI impI)
    show "twf (drivers (core s'))" using inv by (simp add: d' twf_tput cluster_inv_def)
  next
    fix k r assume "tget (drivers (core s')) k = Some r"
    then show "row_wf r"
      using inv f by (auto simp: d' tget_tput cluster_inv_def row_wf_def fence_row_def split: if_splits)
  next
    fix k show "sorted_wrt (\<lambda>a b. l_generation b < l_generation a) (grants_of k (granted s'))"
      using inv le [of _ k] by (fastforce simp: go lg cluster_inv_def)
  next
    fix k m assume "m \<in> set (grants_of k (granted s'))"
    then show "l_generation m \<le> driver_gen k (drivers (core s'))"
      using le [of m k] by (auto simp: go gen lg split: if_splits)
  next
    fix k r assume "tget (drivers (core s')) k = Some r" "d_phase r \<noteq> Idle"
    then show "\<exists>l ls. grants_of k (granted s') = l # ls \<and> row_of_lease l r"
      using inv f by (auto simp: d' tget_tput go cluster_inv_def row_of_lease_def fence_row_def split: if_splits)
  qed
qed

lemma driver_step_inv:
  assumes "driver_step ops lim k s s'" and "cluster_inv s"
  shows "cluster_inv s'"
proof -
  from assms(2) have "twf (drivers (core s))" by (simp add: cluster_inv_def)
  from assms(1) this show ?thesis
  proof (cases rule: driver_step_shape)
    case Tick
    with assms(2) show ?thesis by (simp add: cluster_inv_def)
  next
    case (Grant l)
    with assms(2) show ?thesis by (blast intro: cluster_inv_grant)
  next
    case Quiet
    with assms(2) show ?thesis by (blast intro: cluster_inv_quiet)
  qed
qed

lemma cluster_reachable_inv:
  assumes "(any_step ops lim)\<^sup>*\<^sup>* s s'" and "cluster_inv s"
  shows "cluster_inv s'"
  using assms
proof (induction rule: rtranclp_induct)
  case base
  then show ?case by simp
next
  case (step y z)
  then show ?case by (auto simp: any_step_def intro: driver_step_inv)
qed

end
