(* ===== verification/Driver_Theorems.thy ===== *)
theory Driver_Theorems
  imports Driver_Invariants
begin

text \<open>
  The guarantees of \<^verbatim>\<open>agent/driver.py\<close>: single flight, powerlessness of stale leases (through the
  fencing contract), the concurrency quota, and the life of a recovery marker.
\<close>

section \<open>The driver implements generation fencing\<close>

definition lease_holds :: "ident \<Rightarrow> lease \<Rightarrow> 'a cluster \<Rightarrow> bool" where
  "lease_holds sid l s \<longleftrightarrow> (\<exists>r. tget (drivers (core s)) sid = Some r \<and> row_of_lease l r)"

definition inv_step :: "'a assistant_ops \<Rightarrow> int \<Rightarrow> 'a cluster \<Rightarrow> 'a cluster \<Rightarrow> bool" where
  "inv_step ops lim s s' \<longleftrightarrow> cluster_inv s \<and> any_step ops lim s s'"

lemma cluster_inv_steps:
  assumes "(any_step ops lim)\<^sup>*\<^sup>* s s'" and "cluster_inv s"
  shows "(inv_step ops lim)\<^sup>*\<^sup>* s s'"
  using assms
proof (induction rule: rtranclp_induct)
  case base
  then show ?case by simp
next
  case (step y z)
  then have "inv_step ops lim y z" by (simp add: inv_step_def cluster_reachable_inv)
  with step show ?case by (meson rtranclp.rtrancl_into_rtrancl)
qed

lemma inv_step_gen: "inv_step ops lim s s' \<Longrightarrow> driver_gen k (drivers (core s)) \<le> driver_gen k (drivers (core s'))"
  unfolding inv_step_def any_step_def
  by (elim conjE exE, erule driver_step_shape)
     (auto simp: cluster_inv_def quiet_gen grant_change_gen)

interpretation drv: fencing "\<lambda>s. driver_gen sid (drivers (core s))" "lease_holds sid" l_generation "inv_step ops lim"
  for sid ops lim
  by unfold_locales (auto simp: lease_holds_def row_of_lease_def driver_gen_def intro: inv_step_gen [unfolded driver_gen_def])

lemma owned_row_holds: "tget (drivers (core s)) sid = Some r \<Longrightarrow> owned_row l t r \<Longrightarrow> lease_holds sid l s"
  by (auto simp: lease_holds_def row_of_lease_def owned_row_def fence_row_def)

lemma fence_Inr:
  "assert_run_fence_locked db t sid user run g = Inr u \<longleftrightarrow>
   (\<exists>s r. owned_session db sid user = Some s \<and> tget (drivers db) sid = Some r \<and> fence_row user run g t r)"
  by (auto simp: assert_run_fence_locked_def assert_owned_driver_fence_locked_def split: option.splits)

text \<open>The driver row a fence accepts belongs to the newest grant of its session.\<close>

lemma fence_newest:
  assumes "cluster_inv s" and "l \<in> set (granted s)"
    and "assert_run_fence_locked (core s) t (l_session_id l) (l_user_id l) (l_run_id l) (l_generation l) = Inr ()"
  shows "\<exists>ls. grants_of (l_session_id l) (granted s) = l # ls"
proof -
  from assms(3) obtain r where r: "tget (drivers (core s)) (l_session_id l) = Some r"
      "fence_row (l_user_id l) (l_run_id l) (l_generation l) t r"
    by (auto simp: fence_Inr)
  then obtain m ls where m: "grants_of (l_session_id l) (granted s) = m # ls" "row_of_lease m r"
    using assms(1) unfolding cluster_inv_def fence_row_def by metis
  have "l \<in> set (m # ls)" using assms(2) m(1) [symmetric] by (simp add: grants_of_def)
  moreover have "sorted_wrt (\<lambda>a b. l_generation b < l_generation a) (m # ls)"
    using assms(1) m(1) unfolding cluster_inv_def by metis
  moreover have "l_generation l = l_generation m"
    using m(2) r(2) by (simp add: row_of_lease_def fence_row_def)
  ultimately have "l = m" by auto
  with m(1) show ?thesis by blast
qed

section \<open>Single flight\<close>

text \<open>
  C1. Single flight. Whatever the workers of the cluster do, in every reachable state at most one
  of all the leases ever granted for a session passes the run fence, and it is the newest: every
  other lease granted for that session has a strictly smaller generation (so no generation is
  granted twice) and is refused.
\<close>

theorem single_flight:
  assumes "start_cluster s0" and "(any_step ops lim)\<^sup>*\<^sup>* s0 s"
    and "l \<in> set (granted s)"
    and "assert_run_fence_locked (core s) (clock s) (l_session_id l) (l_user_id l) (l_run_id l) (l_generation l) = Inr ()"
    and "i < length (granted s)" and "granted s ! i \<noteq> l" and "l_session_id (granted s ! i) = l_session_id l"
  shows "l_generation (granted s ! i) < l_generation l \<and>
    assert_run_fence_locked (core s) (clock s) (l_session_id l) (l_user_id (granted s ! i)) (l_run_id (granted s ! i))
      (l_generation (granted s ! i)) = Inl LeaseLostError"
proof -
  have inv: "cluster_inv s"
    using assms(1,2) by (blast intro: cluster_reachable_inv start_cluster_inv)
  let ?m = "granted s ! i"
  from fence_newest [OF inv assms(3,4)] obtain ls where g: "grants_of (l_session_id l) (granted s) = l # ls" ..
  have "?m \<in> set (l # ls)" using assms(5,7) g [symmetric] by (simp add: grants_of_def)
  moreover have "sorted_wrt (\<lambda>a b. l_generation b < l_generation a) (l # ls)"
    using inv g unfolding cluster_inv_def by metis
  ultimately have lt: "l_generation ?m < l_generation l" using assms(6) by auto
  have "assert_run_fence_locked (core s) (clock s) (l_session_id l) (l_user_id ?m) (l_run_id ?m) (l_generation ?m) \<noteq> Inr ()"
    using assms(4) lt by (auto simp: fence_Inr fence_row_def)
  with lt show ?thesis
    by (auto simp: assert_run_fence_locked_def assert_owned_driver_fence_locked_def guard_that_def split: option.splits if_splits)
qed

section \<open>Stale leases\<close>

definition powerless :: "'a assistant_ops \<Rightarrow> 'a db \<Rightarrow> lease \<Rightarrow> bool" where
  "powerless ops d l \<longleftrightarrow> (\<forall>t w p m st.
     renew d t l = (l, d, False) \<and>
     snd (snd (set_phase d t w l p)) \<in> {(d, Inl LeaseLostError), (d, Inl ValueError)} \<and>
     snd (snd (bind_trigger_message d t w l m)) = (d, Inl LeaseLostError) \<and>
     snd (snd (release ops d t w l st)) = (d, False) \<and>
     snd (snd (preserve_for_recovery d t w l st)) = (d, False) \<and>
     fst (snd (snd (assert_current d t (\<lambda>_. None) w l))) = d \<and>
     snd (snd (snd (assert_current d t (\<lambda>_. None) w l))) = Inl LeaseLostError \<and>
     assert_run_fence_locked d t (l_session_id l) (l_user_id l) (l_run_id l) (l_generation l) = Inl LeaseLostError)"

lemma update_driver_miss:
  "(\<And>r. tget (drivers d) sid = Some r \<Longrightarrow> \<not> P r) \<Longrightarrow> update_driver sid P f d = (d, False)"
  by (auto simp: update_driver_def update_where_def split: option.split)

lemma not_held_powerless:
  assumes "\<And>r. tget (drivers d) (l_session_id l) = Some r \<Longrightarrow> d_generation r \<noteq> l_generation l"
  shows "powerless ops d l"
proof -
  have o: "update_driver (l_session_id l) (owned_row l t) f d = (d, False)" for t f
    using assms by (intro update_driver_miss) (auto simp: owned_row_def fence_row_def)
  have p: "update_driver (l_session_id l) (\<lambda>r. d_user_id r = l_user_id l \<and> d_run_id r = Some (l_run_id l) \<and>
       d_generation r = l_generation l \<and> d_owner_id r = Some (l_owner_id l) \<and> d_phase r \<noteq> Idle) f d = (d, False)" for f
    using assms by (intro update_driver_miss) auto
  have rn: "renew d t l = (l, d, False)" for t
    by (simp add: renew_def o split: option.split)
  have nr: "tget (drivers d) (l_session_id l) = Some r \<Longrightarrow> \<not> owned_row l t r" for r t
    using assms by (auto simp: owned_row_def fence_row_def)
  have f: "assert_run_fence_locked d t (l_session_id l) (l_user_id l) (l_run_id l) (l_generation l) = Inl LeaseLostError" for t
    using assms by (auto simp: assert_run_fence_locked_def assert_owned_driver_fence_locked_def guard_that_def
        fence_row_def split: option.split)
  have a: "fst (snd (snd (assert_current d t (\<lambda>_. None) w l))) = d \<and>
      snd (snd (snd (assert_current d t (\<lambda>_. None) w l))) = Inl LeaseLostError" for t w
    by (auto simp: assert_current_def Let_def rn lose_def nr split: option.split)
  show ?thesis
    unfolding powerless_def
    by (simp add: rn o p f a set_phase_def bind_trigger_message_def release_def preserve_for_recovery_def lose_def
        Let_def split: option.split)
qed

text \<open>
  C6. A stale worker is harmless for ever. Once a newer generation of its session has been granted,
  then after any further steps of the cluster every operation of the old lease fails and leaves
  the database exactly as it was: it cannot renew, change phase, bind a message, release, leave a
  recovery marker, pass the external-dispatch check, or pass the transcript fence.
\<close>

theorem stale_lease_powerless:
  assumes "start_cluster s0" and "(any_step ops lim)\<^sup>*\<^sup>* s0 s"
    and "l_generation l < driver_gen (l_session_id l) (drivers (core s))"
    and "(any_step ops lim)\<^sup>*\<^sup>* s s'"
  shows "powerless ops (core s') l"
proof (rule not_held_powerless)
  fix r assume r: "tget (drivers (core s')) (l_session_id l) = Some r"
  have inv: "cluster_inv s"
    using assms(1,2) by (blast intro: cluster_reachable_inv start_cluster_inv)
  have "driver_gen (l_session_id l) (drivers (core s)) \<le> driver_gen (l_session_id l) (drivers (core s'))"
    using drv.gen_mono_steps [OF cluster_inv_steps [OF assms(4) inv]] by simp
  with assms(3) r show "d_generation r \<noteq> l_generation l" by (simp add: driver_gen_def)
qed

section \<open>Quota\<close>

definition live_count :: "ident \<Rightarrow> 'a cluster \<Rightarrow> nat" where
  "live_count u s = tcount (counts_for u (clock s)) (drivers (core s))"

lemma live_count_tick:
  "clock s \<le> clock s' \<Longrightarrow> core s' = core s \<Longrightarrow> live_count u s' \<le> live_count u s"
  unfolding live_count_def by (auto intro!: tcount_mono simp: counts_for_def elim: after_now_anti)

lemma live_count_step:
  assumes "driver_step ops lim k s s'" and "twf (drivers (core s))"
  shows "int (live_count u s') \<le> max (int (live_count u s)) lim \<or> k = Settlement"
  using assms
proof (cases rule: driver_step_shape)
  case Tick
  then show ?thesis using live_count_tick [of s s' u] by simp
next
  case (Grant l)
  then show ?thesis
    using grant_change_count [OF Grant(4) assms(2), of u] by (auto simp: live_count_def)
next
  case Quiet
  then show ?thesis by (simp add: live_count_def quiet_def le_max_iff_disj)
qed

text \<open>
  The quota is hard. As long as the cluster only ticks, admits runs (ordinary reservations and
  recoveries of expired markers) and lets leases renew, change phase, stop, end and be swept, no
  user ever has more live generations than \<^verbatim>\<open>max_concurrent_agents\<close>: admission counts under the
  quota lock, and renewal never brings an expired generation back to life.
\<close>

lemma quota_respected:
  assumes "start_cluster s0" and "0 \<le> lim"
    and "(\<lambda>a b. \<exists>k. k \<noteq> Settlement \<and> driver_step ops lim k a b)\<^sup>*\<^sup>* s0 s"
  shows "int (live_count u s) \<le> lim"
proof -
  from assms(3) have "cluster_inv s \<and> int (live_count u s) \<le> lim"
  proof (induction rule: rtranclp_induct)
    case base
    from assms(1,2) show ?case
      by (simp add: start_cluster_inv live_count_def start_cluster_def tcount_def)
  next
    case (step y z)
    then obtain k where k: "driver_step ops lim k y z" "k \<noteq> Settlement" by blast
    from step.IH have wf: "twf (drivers (core y))" by (simp add: cluster_inv_def)
    from live_count_step [OF k(1) wf, of u] k step.IH show ?case
      by (auto intro: driver_step_inv)
  qed
  then show ?thesis ..
qed

section \<open>Recovery markers\<close>

lemma tget_map_values: "tget (map (\<lambda>(k, r). (k, f k r)) d) k = map_option (f k) (tget d k)"
  by (induction d) (auto simp: tget_def)

lemma sweep_tget:
  "tget (drivers (fst (recover_expired_driver_records db t))) k =
     map_option (\<lambda>r. if expired_marker t r then r\<lparr>d_updated_at := t\<rparr> else r) (tget (drivers db) k)"
  by (simp add: recover_expired_driver_records_def Let_def tget_map_values)

lemma sweep_sessions:
  "open_session db sid user = Some s \<Longrightarrow>
   \<exists>s'. open_session (fst (recover_expired_driver_records db t)) sid user = Some s'"
  by (auto simp: recover_expired_driver_records_def Let_def open_session_def owned_session_def tget_map_values
      split: option.splits if_splits)

lemma sweep_record:
  "tget (drivers db) sid = Some r \<Longrightarrow> expired_marker t r \<Longrightarrow>
   recovery_record sid r \<in> set (snd (recover_expired_driver_records db t))"
  by (force simp: recover_expired_driver_records_def Let_def dest: tget_in)

lemma reserve_recovered_run_succeeds:
  assumes "tget (drivers db) sid = Some r" and "expired_marker (now e) r"
    and "open_session db sid (d_user_id r) = Some s" and "\<And>x. \<not> held ops (assistant db) sid x None"
    and "int (tcount (counts_for (d_user_id r) (now e)) (drivers db)) < max_concurrent_agents e"
    and "p \<in> {Reserved, Finalizing}"
  shows "\<exists>w' l db' row. reserve_recovered_run ops db e w (recovery_record sid r) p = Inr (w', l, db') \<and>
     l_generation l = d_generation r + 1 \<and> tget (drivers db') sid = Some row \<and>
     d_generation row = d_generation r + 1 \<and> d_trigger_message_id row = d_trigger_message_id r \<and> d_phase row = p"
proof -
  let ?row = "granted_row w (now e) (d_user_id r) (d_generation r + 1) (fresh_id e) p (d_trigger_message_id r)"
  have q: "enforce_agent_quota_locked db e (d_user_id r) = Inr ()"
    using assms(5) by (simp add: enforce_quota_Inr)
  have "\<exists>db'. reserve_recovered_run ops db e w (recovery_record sid r) p =
      Inr (fst (issue_lease w e sid (d_user_id r) ?row), snd (issue_lease w e sid (d_user_id r) ?row), db') \<and>
      drivers db' = tput sid ?row (drivers db)"
    using assms q
    by (auto simp: reserve_recovered_run_def recovery_record_def expired_marker_def case_prod_unfold Let_def)
  then show ?thesis by (auto simp: issue_lease_fields tget_tput)
qed

text \<open>
  A crashed run is never erased, and is taken over exactly once. While the marker of an expired
  run stands, an ordinary reservation is refused with the exact identity of that run; the sweep
  reports this identity and leaves it in place; the recovery of that identity then succeeds (given
  quota and no task hold) with the next generation and the same trigger message; and a second
  recovery from the same report is refused, however late it comes.
\<close>

lemma recovery_marker_lifecycle:
  assumes r: "tget (drivers db) sid = Some r" "expired_marker (now e) r"
    and s: "open_session db sid (d_user_id r) = Some s"
    and free: "\<And>x. \<not> held ops (assistant db) sid x None" and unl: "\<not> linked_task ops (assistant db) sid"
    and quota: "int (tcount (counts_for (d_user_id r) (now e)) (drivers db)) < max_concurrent_agents e"
    and wf: "twf (drivers db)" and p: "p \<in> {Reserved, Finalizing}"
  defines "swept \<equiv> recover_expired_driver_records db (now e)"
  shows "reserve_run ops db e w sid (d_user_id r) run trg p None unlinked =
       Inl (DriverRecoveryRequiredError (recovery_record sid r)) \<and>
     recovery_record sid r \<in> set (snd swept) \<and>
     (\<exists>w' l db' row. reserve_recovered_run ops (fst swept) e w (recovery_record sid r) p = Inr (w', l, db') \<and>
        l_generation l = d_generation r + 1 \<and>
        tget (drivers db') sid = Some row \<and> d_trigger_message_id row = d_trigger_message_id r \<and>
        (\<forall>e2 w2 p2 x. reserve_recovered_run ops db' e2 w2 (recovery_record sid r) p2 \<noteq> Inr x))"
proof -
  have nl: "\<not> is_live r (now e)" "d_phase r \<noteq> Idle"
    using r(2) by (auto simp: is_live_def expired_marker_def not_after_def after_now_def split: option.splits)
  have 1: "reserve_run ops db e w sid (d_user_id r) run trg p None unlinked =
      Inl (DriverRecoveryRequiredError (recovery_record sid r))"
    using p s free unl by (auto simp: reserve_run_def next_generation_def r(1) nl)
  have sw: "tget (drivers (fst swept)) sid = Some (r\<lparr>d_updated_at := now e\<rparr>)"
    by (simp add: swept_def sweep_tget r)
  have same: "recovery_record sid (r\<lparr>d_updated_at := now e\<rparr>) = recovery_record sid r"
    by (simp add: recovery_record_def)
  obtain s' where s': "open_session (fst swept) sid (d_user_id r) = Some s'"
    using sweep_sessions [OF s] by (auto simp: swept_def)
  have a: "assistant (fst swept) = assistant db"
    by (simp add: swept_def recover_expired_driver_records_def Let_def)
  have "tcount (counts_for (d_user_id r) (now e)) (drivers (fst swept)) \<le> tcount (counts_for (d_user_id r) (now e)) (drivers db)"
    using sweep_drivers [OF wf, of "now e"] by (simp add: quiet_def swept_def)
  with quota have q': "int (tcount (counts_for (d_user_id r) (now e)) (drivers (fst swept))) < max_concurrent_agents e"
    by simp
  have x': "expired_marker (now e) (r\<lparr>d_updated_at := now e\<rparr>)" using r(2) by (simp add: expired_marker_def)
  from reserve_recovered_run_succeeds [OF sw x', of s' ops p w, unfolded same] s' q' p free
  obtain w' l db' row where 2: "reserve_recovered_run ops (fst swept) e w (recovery_record sid r) p = Inr (w', l, db')"
      "l_generation l = d_generation r + 1" "tget (drivers db') sid = Some row"
      "d_generation row = d_generation r + 1" "d_trigger_message_id row = d_trigger_message_id r"
    by (auto simp: a)
  have "reserve_recovered_run ops db' e2 w2 (recovery_record sid r) p2 \<noteq> Inr x" for e2 w2 p2 x
  proof
    assume h: "reserve_recovered_run ops db' e2 w2 (recovery_record sid r) p2 = Inr x"
    obtain w3 l3 d3 where x: "x = (w3, l3, d3)" by (cases x)
    have "l_session_id l3 = sid" "l_generation l3 = d_generation r + 1"
      using h 2(3) unfolding x
      by (auto simp: reserve_recovered_run_def rbind_Inr_iff Let_def case_prod_unfold issue_lease_fields
          recovery_record_def split: if_splits option.splits)
    with reserve_recovered_run_grant(1) [OF h [unfolded x]] 2(3,4) show False
      by (simp add: grant_change_def driver_gen_def)
  qed
  with 1 2 sweep_record [OF r] show ?thesis unfolding swept_def by blast
qed

end
