(* ===== verification/Driver_Examples.thy ===== *)
theory Driver_Examples
  imports Driver_Theorems
begin

text \<open>
  A concrete run of the driver, used by the witnesses: a session is reserved, its worker dies, the
  lease expires, and another worker takes the marker over. The assistant component is the trivial
  one: no task holds, links or resumes anything.
\<close>

definition no_assistant :: "unit assistant_ops" where
  "no_assistant = \<lparr>held = (\<lambda>_ _ _ _. False), linked_task = (\<lambda>_ _. False),
     claim_resume = (\<lambda>_ _ _ _. Inl (AssistantError ''ASSISTANT_RESUME_CLAIMED'')),
     append_turn_recovered = (\<lambda>a _ _ _. a), rebind_resume = (\<lambda>a _ _ _. a),
     expire_task_steers = (\<lambda>a _ _ _ _. a), converge_session = (\<lambda>a _ _. a), stop_report = (\<lambda>a _ _. (a, False))\<rparr>"

definition ex_worker :: "ident \<Rightarrow> worker" where
  "ex_worker i = \<lparr>worker_id = i, signals_of = no_signals, activities = [], status_events = []\<rparr>"

definition ex_env :: "time \<Rightarrow> ident \<Rightarrow> int \<Rightarrow> env" where
  "ex_env t r lim = \<lparr>now = t, monotonic = t, fresh_id = r, max_concurrent_agents = lim\<rparr>"

definition ex_db :: "unit db" where
  "ex_db = \<lparr>sessions = [(''s'', \<lparr>s_user_id = ''u'', s_is_deleted = False, s_status = ''idle'', s_kind = ''normal'',
     s_project_id = Some ''p'', s_workspace_id = ''ws'', s_updated_at = 0\<rparr>)], drivers = [], assistant = ()\<rparr>"

definition ex_run1 :: "worker \<times> lease \<times> unit db" where
  "ex_run1 = projr (reserve_run no_assistant ex_db (ex_env 0 ''r1'' 3) (ex_worker ''w1'') ''s'' ''u'' None
     (Some ''m1'') Reserved None False)"

definition ex_s0 :: "unit cluster" where "ex_s0 = \<lparr>clock = 0, core = ex_db, granted = []\<rparr>"
definition ex_s1 :: "unit cluster" where
  "ex_s1 = ex_s0\<lparr>core := snd (snd ex_run1), granted := fst (snd ex_run1) # granted ex_s0\<rparr>"
definition ex_s2 :: "unit cluster" where "ex_s2 = ex_s1\<lparr>clock := seconds 61\<rparr>"

definition ex_marker :: recovered_driver where
  "ex_marker = \<lparr>rec_session_id = ''s'', rec_user_id = ''u'', rec_run_id = Some ''r1'', rec_generation = 1,
     rec_phase = Reserved, rec_trigger_message_id = Some ''m1''\<rparr>"

definition ex_run2 :: "worker \<times> lease \<times> unit db" where
  "ex_run2 = projr (reserve_recovered_run no_assistant (core ex_s2) (ex_env (seconds 61) ''r2'' 3) (ex_worker ''w2'')
     ex_marker Reserved)"

definition ex_s3 :: "unit cluster" where
  "ex_s3 = ex_s2\<lparr>core := snd (snd ex_run2), granted := fst (snd ex_run2) # granted ex_s2\<rparr>"

lemmas ex_defs = no_assistant_def ex_worker_def ex_env_def ex_db_def ex_s0_def ex_marker_def
  open_session_def owned_session_def next_generation_def enforce_agent_quota_locked_def guard_that_def
  claim_resume_command_def granted_row_def set_status_def issue_lease_def publish_reserved_status_def
  activate_local_lease_def case_prod_unfold Let_def counts_for_def tcount_def recovery_record_def

lemma ex_step1_eq:
  "reserve_run no_assistant (core ex_s0) (ex_env 0 ''r1'' 3) (ex_worker ''w1'') ''s'' ''u'' None (Some ''m1'') Reserved None False
   = Inr (fst ex_run1, fst (snd ex_run1), snd (snd ex_run1))"
  by (simp add: ex_run1_def reserve_run_def ex_defs table_simps tget_def)

lemma ex_run1_values:
  "l_session_id (fst (snd ex_run1)) = ''s''" "l_user_id (fst (snd ex_run1)) = ''u''"
  "l_run_id (fst (snd ex_run1)) = ''r1''" "l_generation (fst (snd ex_run1)) = 1" "l_owner_id (fst (snd ex_run1)) = ''w1''"
  "drivers (snd (snd ex_run1)) = [(''s'', granted_row (ex_worker ''w1'') 0 ''u'' 1 ''r1'' Reserved (Some ''m1''))]"
  "open_session (snd (snd ex_run1)) ''s'' ''u'' = Some \<lparr>s_user_id = ''u'', s_is_deleted = False, s_status = ''busy'',
     s_kind = ''normal'', s_project_id = Some ''p'', s_workspace_id = ''ws'', s_updated_at = 0\<rparr>"
  by (simp_all add: ex_run1_def reserve_run_def ex_defs table_simps tget_def tput_def)

lemma ex_step2_eq:
  "reserve_recovered_run no_assistant (core ex_s2) (ex_env (seconds 61) ''r2'' 3) (ex_worker ''w2'') ex_marker Reserved
   = Inr (fst ex_run2, fst (snd ex_run2), snd (snd ex_run2))"
  by (simp add: ex_run2_def reserve_recovered_run_def ex_s2_def ex_s1_def ex_run1_values ex_marker_def
      recovery_record_def tget_def enforce_agent_quota_locked_def tcount_def counts_for_def ex_env_def guard_that_def
      lease_expiry_def LEASE_SECONDS_def seconds_def no_assistant_def Let_def case_prod_unfold)

lemma ex_run2_values:
  "l_session_id (fst (snd ex_run2)) = ''s''" "l_user_id (fst (snd ex_run2)) = ''u''"
  "l_run_id (fst (snd ex_run2)) = ''r2''" "l_generation (fst (snd ex_run2)) = 2" "l_owner_id (fst (snd ex_run2)) = ''w2''"
  "drivers (snd (snd ex_run2)) = [(''s'', granted_row (ex_worker ''w2'') (seconds 61) ''u'' 2 ''r2'' Reserved (Some ''m1''))]"
  "owned_session (snd (snd ex_run2)) ''s'' ''u'' \<noteq> None"
  using ex_run1_values(7)
  by (simp_all add: ex_run2_def reserve_recovered_run_def ex_s2_def ex_s1_def ex_run1_values ex_marker_def
      recovery_record_def tget_def enforce_agent_quota_locked_def tcount_def counts_for_def ex_env_def guard_that_def
      lease_expiry_def LEASE_SECONDS_def seconds_def no_assistant_def Let_def case_prod_unfold
      issue_lease_fields ex_worker_def tput_def set_status_def owned_session_def update_conv')

lemma ex_reach1: "driver_step no_assistant 3 Admission ex_s0 ex_s1"
  unfolding ex_s1_def
  by (rule driver_step.reserved [OF _ _ ex_step1_eq]) (simp_all add: ex_env_def ex_s0_def)

lemma ex_reach2: "driver_step no_assistant 3 Tick ex_s1 ex_s2"
  unfolding ex_s2_def by (rule driver_step.tick) (simp add: ex_s1_def ex_s0_def seconds_def)

lemma ex_reach3: "driver_step no_assistant 3 Admission ex_s2 ex_s3"
  unfolding ex_s3_def
  by (rule driver_step.recovered [OF _ _ ex_step2_eq]) (simp_all add: ex_env_def ex_s2_def)

lemma ex_start: "start_cluster ex_s0"
  by (simp add: start_cluster_def ex_s0_def ex_db_def)

lemma ex_reachable:
  "(any_step no_assistant 3)\<^sup>*\<^sup>* ex_s0 ex_s3"
  "(\<lambda>a b. \<exists>k. k \<noteq> Settlement \<and> driver_step no_assistant 3 k a b)\<^sup>*\<^sup>* ex_s0 ex_s3"
proof -
  have "any_step no_assistant 3 ex_s0 ex_s1" "any_step no_assistant 3 ex_s1 ex_s2" "any_step no_assistant 3 ex_s2 ex_s3"
    using ex_reach1 ex_reach2 ex_reach3 by (auto simp: any_step_def)
  then show "(any_step no_assistant 3)\<^sup>*\<^sup>* ex_s0 ex_s3"
    by (intro converse_rtranclp_into_rtranclp [OF _ converse_rtranclp_into_rtranclp [OF _ r_into_rtranclp]])
  let ?R = "\<lambda>a b. \<exists>k. k \<noteq> Settlement \<and> driver_step no_assistant 3 k a b"
  have "?R ex_s0 ex_s1" "?R ex_s1 ex_s2" "?R ex_s2 ex_s3"
    using ex_reach1 ex_reach2 ex_reach3 by blast+
  then show "?R\<^sup>*\<^sup>* ex_s0 ex_s3"
    by (intro converse_rtranclp_into_rtranclp [OF _ converse_rtranclp_into_rtranclp [OF _ r_into_rtranclp]])
qed

section \<open>Witnesses\<close>

theorem single_flight_witness:
  "length (granted ex_s3) = 2 \<and> granted ex_s3 ! 1 = fst (snd ex_run1) \<and>
   assert_run_fence_locked (core ex_s3) (clock ex_s3) ''s'' ''u'' ''r2'' 2 = Inr () \<and>
   assert_run_fence_locked (core ex_s3) (clock ex_s3) ''s'' ''u'' ''r1'' 1 = Inl LeaseLostError"
proof -
  let ?l = "fst (snd ex_run2)"
  have g: "granted ex_s3 = [?l, fst (snd ex_run1)]"
    by (simp add: ex_s3_def ex_s2_def ex_s1_def ex_s0_def)
  have f: "assert_run_fence_locked (core ex_s3) (clock ex_s3) (l_session_id ?l) (l_user_id ?l) (l_run_id ?l)
      (l_generation ?l) = Inr ()"
    using ex_run2_values(7)
    by (auto simp: fence_Inr ex_s3_def ex_s2_def ex_run2_values(1-6) tget_def fence_row_def)
  have "l_generation (fst (snd ex_run1)) \<noteq> l_generation ?l" by (simp add: ex_run1_values ex_run2_values)
  then have "fst (snd ex_run1) \<noteq> ?l" by metis
  with single_flight [OF ex_start ex_reachable(1) _ f, of 1] g f show ?thesis
    by (simp add: ex_run1_values ex_run2_values)
qed

theorem stale_lease_powerless_witness:
  "l_generation (fst (snd ex_run1)) < driver_gen ''s'' (drivers (core ex_s3)) \<and>
   powerless no_assistant (core ex_s3) (fst (snd ex_run1))"
proof -
  have lt: "l_generation (fst (snd ex_run1)) < driver_gen (l_session_id (fst (snd ex_run1))) (drivers (core ex_s3))"
    by (simp add: ex_run1_values ex_s3_def ex_run2_values driver_gen_def tget_def)
  then show ?thesis
    using stale_lease_powerless [OF ex_start ex_reachable(1) lt] by (simp add: ex_run1_values)
qed

lemma quota_respected_witness:
  "live_count ''u'' ex_s3 = 1 \<and> int (live_count ''u'' ex_s3) \<le> 3"
proof -
  have "live_count ''u'' ex_s3 = 1"
    by (simp add: live_count_def ex_s3_def ex_run2_values tcount_def counts_for_def ex_s2_def)
  then show ?thesis using quota_respected [OF ex_start _ ex_reachable(2), of "''u''"] by simp
qed

lemma recovery_marker_lifecycle_witness:
  "\<exists>w' l db'. reserve_recovered_run no_assistant (fst (recover_expired_driver_records (core ex_s2) (seconds 61)))
      (ex_env (seconds 61) ''r2'' 3) (ex_worker ''w2'') ex_marker Reserved = Inr (w', l, db') \<and> l_generation l = 2"
proof -
  let ?r = "granted_row (ex_worker ''w1'') 0 ''u'' 1 ''r1'' Reserved (Some ''m1'')"
  let ?e = "ex_env (seconds 61) ''r2'' 3"
  have d: "drivers (core ex_s2) = [(''s'', ?r)]" by (simp add: ex_s2_def ex_s1_def ex_run1_values)
  have r: "tget (drivers (core ex_s2)) ''s'' = Some ?r" by (simp add: d tget_def)
  have x: "expired_marker (now ?e) ?r"
    by (simp add: expired_marker_def ex_env_def lease_expiry_def LEASE_SECONDS_def seconds_def)
  have m: "recovery_record ''s'' ?r = ex_marker" by (simp add: recovery_record_def ex_marker_def)
  have s: "\<exists>s. open_session (core ex_s2) ''s'' (d_user_id ?r) = Some s"
    by (simp add: ex_s2_def ex_s1_def ex_run1_values)
  have q: "int (tcount (counts_for (d_user_id ?r) (now ?e)) (drivers (core ex_s2))) < max_concurrent_agents ?e"
    by (simp add: d tcount_def counts_for_def ex_env_def lease_expiry_def LEASE_SECONDS_def seconds_def)
  have f: "\<not> held no_assistant (assistant (core ex_s2)) ''s'' y None" "\<not> linked_task no_assistant (assistant (core ex_s2)) ''s''" for y
    by (simp_all add: no_assistant_def)
  have w: "twf (drivers (core ex_s2))" by (simp add: d twf_def)
  from s obtain s where "open_session (core ex_s2) ''s'' (d_user_id ?r) = Some s" ..
  from recovery_marker_lifecycle [OF r x this f q w, of Reserved "ex_worker ''w2''" None None False]
  show ?thesis by (fastforce simp: m ex_env_def)
qed

end
