(* ===== verification/Evidence.thy ===== *)
theory Evidence
  imports OB_Prelude "HOL-Library.List_Lexorder" "HOL-Library.Char_ord"
begin

text \<open>
  The public-safe audit surface of \<^verbatim>\<open>src/backend/agent/effect_ledger.py\<close>: identity and handle
  validation, and the field-aware redaction of evidence (\<^verbatim>\<open>sanitize_public_evidence\<close>). A Python
  value is a \<open>pyval\<close>, what may be written to the ledger a \<open>json\<close> value. A Python string is a list
  of characters of the ASCII repertoire, on which \<^verbatim>\<open>casefold\<close> is lower-casing and UTF-8 is one
  byte per character; a \<open>PSeq\<close> is a list or a tuple (Python sets are not modelled). SHA-256 and the URL splitter of the Python library are the fields of
  \<open>stdlib\<close>; every result below holds whatever they compute.
\<close>

record stdlib =
  sha256_hex :: "string \<Rightarrow> string"
  urlsplit :: "string \<Rightarrow> (string \<times> string) option"

datatype pyfloat = NaN | Infinity bool | Finite string

datatype pyval =
    PNone
  | PBool bool
  | PInt int
  | PFloat pyfloat
  | PDateTime string
  | PBytes string
  | PStr string
  | PModel pyval
  | PDataclass "(string \<times> pyval) list"
  | PDict "(string \<times> pyval) list"
  | PSeq "pyval list"
  | POther string

datatype json =
    JNull
  | JBool bool
  | JInt int
  | JFloat string
  | JStr string
  | JList "json list"
  | JDict "(string \<times> json) list"

datatype value_error = InvalidValue string

section \<open>Constants\<close>

definition MAX_SAFE_JSON_BYTES :: nat where "MAX_SAFE_JSON_BYTES = 16 * 1024"
definition MAX_SAFE_STRING_CHARS :: nat where "MAX_SAFE_STRING_CHARS = 2000"
definition MAX_SAFE_ITEMS :: nat where "MAX_SAFE_ITEMS = 64"
definition MAX_SAFE_DEPTH :: nat where "MAX_SAFE_DEPTH = 6"

definition SENSITIVE_FIELD_PARTS :: "string list" where
  "SENSITIVE_FIELD_PARTS = [''authorization'', ''api_key'', ''apikey'', ''password'', ''passwd'', ''secret'',
     ''credential'', ''access_token'', ''refresh_token'', ''provider_token'', ''bytedtoken'', ''cookie'',
     ''signed_url'', ''put_url'', ''get_url'']"

definition URL_FIELD_NAMES :: "string list" where
  "URL_FIELD_NAMES = [''url'', ''uri'', ''endpoint'', ''base_url'', ''location'']"

definition UNTRUSTED_PROVIDER_TEXT_FIELDS :: "string list" where
  "UNTRUSTED_PROVIDER_TEXT_FIELDS = [''body'', ''raw'', ''response'', ''response_body'', ''stack'', ''traceback'']"

section \<open>Strings\<close>

definition lower_char :: "char \<Rightarrow> char" where
  "lower_char c = (if CHR ''A'' \<le> c \<and> c \<le> CHR ''Z'' then char_of (of_char c + 32 :: nat) else c)"

definition casefold :: "string \<Rightarrow> string" where
  "casefold s = map lower_char s"

definition is_space :: "char \<Rightarrow> bool" where
  "is_space c \<longleftrightarrow> (let n = (of_char c :: nat) in 9 \<le> n \<and> n \<le> 13 \<or> 28 \<le> n \<and> n \<le> 32)"

definition strip :: "string \<Rightarrow> string" where
  "strip s = rev (dropWhile is_space (rev (dropWhile is_space s)))"

fun starts_with :: "string \<Rightarrow> string \<Rightarrow> bool" where
  "starts_with [] s = True"
| "starts_with (p # ps) [] = False"
| "starts_with (p # ps) (c # cs) = (p = c \<and> starts_with ps cs)"

fun contains :: "string \<Rightarrow> string \<Rightarrow> bool" where
  "contains p [] = (p = [])"
| "contains p (c # cs) = (starts_with p (c # cs) \<or> contains p cs)"

definition underscored :: "string \<Rightarrow> string" where
  "underscored s = map (\<lambda>c. if c = CHR ''-'' then CHR ''_'' else c) (casefold s)"

definition bounded_identity :: "string \<Rightarrow> nat \<Rightarrow> value_error + string" where
  "bounded_identity value maximum =
     (let normalized = strip value
      in if normalized = [] \<or> length normalized > maximum then Inl (InvalidValue ''length'')
         else if list_ex (\<lambda>c. (of_char c :: nat) < 32) normalized then Inl (InvalidValue ''control character'')
         else Inr normalized)"

definition looks_like_authorization :: "string \<Rightarrow> bool" where
  "looks_like_authorization s \<longleftrightarrow> contains ''://'' s \<or> contains ''?'' s \<or> list_ex is_space s \<or>
     starts_with ''bearer'' (casefold s) \<or> starts_with ''basic'' (casefold s) \<or> starts_with ''sk-'' (casefold s)"

definition validate_idempotency_key :: "string \<Rightarrow> value_error + string" where
  "validate_idempotency_key value = rbind (bounded_identity value 160) (\<lambda>key.
     if looks_like_authorization key then Inl (InvalidValue ''authorization material'') else Inr key)"

definition validate_provider_handle :: "string option \<Rightarrow> value_error + string option" where
  "validate_provider_handle handle = (case handle of
       None \<Rightarrow> Inr None
     | Some h \<Rightarrow>
         (let value = strip h
          in if value = [] then Inr None
             else if length value > 256 then Inl (InvalidValue ''provider handle length'')
             else if looks_like_authorization value then Inl (InvalidValue ''authorization material'')
             else Inr (Some value)))"

definition is_sensitive_field :: "string \<Rightarrow> bool" where
  "is_sensitive_field key = list_ex (\<lambda>fragment. contains fragment (underscored key)) SENSITIVE_FIELD_PARTS"

definition safe_url :: "stdlib \<Rightarrow> string \<Rightarrow> string" where
  "safe_url lib value = (case urlsplit lib value of
       None \<Rightarrow> ''[redacted-url]''
     | Some (scheme, netloc) \<Rightarrow>
         if scheme = [] \<or> netloc = [] then take MAX_SAFE_STRING_CHARS value
         else take MAX_SAFE_STRING_CHARS (scheme @ ''://'' @ netloc))"

section \<open>Redaction\<close>

fun type_name :: "pyval \<Rightarrow> string" where
  "type_name PNone = ''NoneType''"
| "type_name (PBool b) = ''bool''"
| "type_name (PInt n) = ''int''"
| "type_name (PFloat x) = ''float''"
| "type_name (PDateTime s) = ''datetime''"
| "type_name (PBytes b) = ''bytes''"
| "type_name (PStr s) = ''str''"
| "type_name (PModel v) = ''model''"
| "type_name (PDataclass kvs) = ''dataclass''"
| "type_name (PDict kvs) = ''dict''"
| "type_name (PSeq vs) = ''list''"
| "type_name (POther n) = n"

fun float_json :: "pyfloat \<Rightarrow> json" where
  "float_json (Finite s) = JFloat s"
| "float_json NaN = JStr ''nan''"
| "float_json (Infinity neg) = JStr (if neg then ''-inf'' else ''inf'')"

text \<open>
  \<^verbatim>\<open>_sanitize_value\<close>. Its \<^verbatim>\<open>depth\<close> argument counts up to \<^verbatim>\<open>MAX_SAFE_DEPTH\<close>; the model counts the
  levels that are left, so that the recursion is structural: \<open>left = MAX_SAFE_DEPTH - depth\<close>. The
  loop over \<^verbatim>\<open>value.items()\<close>, which stores into a fresh dict and stops after \<^verbatim>\<open>MAX_SAFE_ITEMS\<close> entries,
  is \<open>store_items\<close>; the list branch, which keeps the enclosing field name, is \<open>sanitize_list\<close>. Both
  take the recursive call as an argument.
\<close>

definition truncated_marker :: json where
  "truncated_marker = JDict [(''truncated'', JBool True), (''reason'', JStr ''max_depth'')]"

fun store_items :: "(string \<Rightarrow> pyval \<Rightarrow> json) \<Rightarrow> nat \<Rightarrow> (string \<times> pyval) list \<Rightarrow> (string, json) table \<Rightarrow> (string, json) table" where
  "store_items f index [] acc = acc"
| "store_items f index ((key, item) # rest) acc =
     (if MAX_SAFE_ITEMS \<le> index
      then tput ''_truncated_items'' (JInt (int (index + length ((key, item) # rest)) - int MAX_SAFE_ITEMS)) acc
      else (let name = take 128 key in store_items f (Suc index) rest (tput name (f name item) acc)))"

definition sanitize_list :: "(pyval \<Rightarrow> json) \<Rightarrow> pyval list \<Rightarrow> json list" where
  "sanitize_list f items = map f (take MAX_SAFE_ITEMS items) @
     (if length items > MAX_SAFE_ITEMS
      then [JDict [(''truncated_items'', JInt (int (length items) - int MAX_SAFE_ITEMS))]] else [])"

definition sanitize_scalar :: "stdlib \<Rightarrow> string \<Rightarrow> pyval \<Rightarrow> json" where
  "sanitize_scalar lib field v = (case v of
       PNone \<Rightarrow> JNull
     | PBool b \<Rightarrow> JBool b
     | PInt n \<Rightarrow> JInt n
     | PFloat x \<Rightarrow> float_json x
     | PDateTime s \<Rightarrow> JStr s
     | PBytes b \<Rightarrow> JDict [(''bytes_sha256'', JStr (sha256_hex lib b)), (''bytes_size'', JInt (int (length b)))]
     | PStr s \<Rightarrow> JStr (if underscored field \<in> set URL_FIELD_NAMES then safe_url lib s else take MAX_SAFE_STRING_CHARS s)
     | POther n \<Rightarrow> JDict [(''type'', JStr n)]
     | _ \<Rightarrow> JNull)"

text \<open>\<^verbatim>\<open>model_dump\<close> or \<^verbatim>\<open>asdict\<close> replaces the value, after which only dicts and sequences are recognised.\<close>

fun dumped :: "pyval \<Rightarrow> pyval" where
  "dumped (PModel v) = v"
| "dumped (PDataclass kvs) = PDict kvs"
| "dumped v = v"

definition is_scalar :: "pyval \<Rightarrow> bool" where
  "is_scalar v = (case v of PModel _ \<Rightarrow> False | PDataclass _ \<Rightarrow> False | PDict _ \<Rightarrow> False | PSeq _ \<Rightarrow> False | _ \<Rightarrow> True)"

fun sanitize_value :: "stdlib \<Rightarrow> string \<Rightarrow> nat \<Rightarrow> pyval \<Rightarrow> json" where
  "sanitize_value lib field left v =
     (if is_sensitive_field field then JStr ''[redacted]''
      else if underscored field \<in> set UNTRUSTED_PROVIDER_TEXT_FIELDS then JStr ''[omitted-provider-text]''
      else case left of
        0 \<Rightarrow> truncated_marker
      | Suc n \<Rightarrow>
          if is_scalar v then sanitize_scalar lib field v
          else case dumped v of
            PDict kvs \<Rightarrow> JDict (store_items (\<lambda>name item. sanitize_value lib name n item) 0 kvs [])
          | PSeq vs \<Rightarrow> JList (sanitize_list (\<lambda>item. sanitize_value lib field n item) vs)
          | other \<Rightarrow> JDict [(''type'', JStr (type_name other))])"

declare sanitize_value.simps [simp del]

section \<open>Encoding and the size bound\<close>

text \<open>\<^verbatim>\<open>json.dumps(ensure_ascii=False, sort_keys=True, separators=(",", ":"))\<close>.\<close>

definition hex_digit :: "nat \<Rightarrow> char" where
  "hex_digit n = ''0123456789abcdef'' ! n"

definition escape_char :: "char \<Rightarrow> string" where
  "escape_char c = (let n = (of_char c :: nat) in
     if n = 34 then [CHR 0x5C, CHR 0x22]
     else if n = 92 then [CHR 0x5C, CHR 0x5C]
     else if n = 10 then [CHR 0x5C, CHR ''n'']
     else if n = 13 then [CHR 0x5C, CHR ''r'']
     else if n = 9 then [CHR 0x5C, CHR ''t'']
     else if n = 8 then [CHR 0x5C, CHR ''b'']
     else if n = 12 then [CHR 0x5C, CHR ''f'']
     else if n < 32 then [CHR 0x5C, CHR ''u'', CHR ''0'', CHR ''0'', hex_digit (n div 16), hex_digit (n mod 16)]
     else [c])"

definition quoted :: "string \<Rightarrow> string" where
  "quoted s = [CHR 0x22] @ concat (map escape_char s) @ [CHR 0x22]"

fun nat_text :: "nat \<Rightarrow> string" where
  "nat_text n = (if n < 10 then [hex_digit n] else nat_text (n div 10) @ [hex_digit (n mod 10)])"

definition int_text :: "int \<Rightarrow> string" where
  "int_text i = (if i < 0 then ''-'' @ nat_text (nat (- i)) else nat_text (nat i))"

fun join :: "string \<Rightarrow> string list \<Rightarrow> string" where
  "join sep [] = []"
| "join sep [x] = x"
| "join sep (x # xs) = x @ sep @ join sep xs"

fun json_dumps :: "json \<Rightarrow> string" where
  "json_dumps JNull = ''null''"
| "json_dumps (JBool b) = (if b then ''true'' else ''false'')"
| "json_dumps (JInt i) = int_text i"
| "json_dumps (JFloat s) = s"
| "json_dumps (JStr s) = quoted s"
| "json_dumps (JList vs) = ''['' @ join '','' (map json_dumps vs) @ '']''"
| "json_dumps (JDict kvs) = CHR 0x7B # join '','' (map (\<lambda>(k, t). quoted k @ '':'' @ t)
     (sort_key fst (map (\<lambda>(k, v). (k, json_dumps v)) kvs))) @ [CHR 0x7D]"

definition as_dict :: "json \<Rightarrow> (string \<times> json) list" where
  "as_dict j = (case j of JDict kvs \<Rightarrow> kvs | other \<Rightarrow> [(''value'', other)])"

definition sanitize_public_evidence :: "stdlib \<Rightarrow> pyval \<Rightarrow> json" where
  "sanitize_public_evidence lib value =
     (let sanitized = as_dict (sanitize_value lib [] MAX_SAFE_DEPTH value);
          encoded = json_dumps (JDict sanitized)
      in if length encoded \<le> MAX_SAFE_JSON_BYTES then JDict sanitized
         else JDict [(''truncated'', JBool True), (''sha256'', JStr (sha256_hex lib encoded)),
                     (''bytes'', JInt (int (length encoded))),
                     (''keys'', JList (map JStr (take MAX_SAFE_ITEMS (sort (map (take 128 \<circ> fst) sanitized)))))])"

text \<open>\<^verbatim>\<open>_safe_error\<close>: an exception contributes its class name only.\<close>

datatype error_value = ErrException string | ErrText string | ErrValue pyval

text \<open>Python truth of a value that is neither an exception nor a string.\<close>

definition falsy :: "pyval \<Rightarrow> bool" where
  "falsy v = (case v of
       PNone \<Rightarrow> True
     | PBool b \<Rightarrow> \<not> b
     | PInt n \<Rightarrow> n = 0
     | PFloat x \<Rightarrow> (case x of Finite s \<Rightarrow> s = ''0.0'' \<or> s = ''-0.0'' | _ \<Rightarrow> False)
     | PBytes b \<Rightarrow> b = []
     | PStr s \<Rightarrow> s = []
     | PDict kvs \<Rightarrow> kvs = []
     | PSeq vs \<Rightarrow> vs = []
     | _ \<Rightarrow> False)"

definition safe_error :: "stdlib \<Rightarrow> error_value \<Rightarrow> json" where
  "safe_error lib e = (case e of
       ErrException n \<Rightarrow> JDict [(''error_type'', JStr n)]
     | ErrText s \<Rightarrow> sanitize_public_evidence lib (PDict [(''code'', PStr s)])
     | ErrValue v \<Rightarrow> sanitize_public_evidence lib
         (if falsy v then PDict [(''code'', PStr ''external_effect_error'')] else v))"

section \<open>What never leaves the process\<close>

text \<open>A value is redacted when, at every depth, a credential-bearing field holds the marker only.\<close>

fun redacted :: "json \<Rightarrow> bool" where
  "redacted (JList vs) = (\<forall>v \<in> set vs. redacted v)"
| "redacted (JDict kvs) = (\<forall>(k, v) \<in> set kvs. redacted v \<and> (is_sensitive_field k \<longrightarrow> v = JStr ''[redacted]''))"
| "redacted _ = True"

fun json_depth :: "json \<Rightarrow> nat" where
  "json_depth (JList vs) = Suc (fold max (map json_depth vs) 0)"
| "json_depth (JDict kvs) = Suc (fold max (map (json_depth \<circ> snd) kvs) 0)"
| "json_depth _ = 0"

text \<open>Nothing of a provider's raw text is kept under a field that carries it.\<close>

fun no_provider_text :: "json \<Rightarrow> bool" where
  "no_provider_text (JList vs) = (\<forall>v \<in> set vs. no_provider_text v)"
| "no_provider_text (JDict kvs) = (\<forall>(k, v) \<in> set kvs. no_provider_text v \<and>
     (underscored k \<in> set UNTRUSTED_PROVIDER_TEXT_FIELDS \<longrightarrow> v \<in> {JStr ''[redacted]'', JStr ''[omitted-provider-text]''}))"
| "no_provider_text _ = True"

lemma store_items_entries:
  assumes "(k, w) \<in> set (store_items f i kvs acc)"
  shows "(k, w) \<in> set acc \<or> (\<exists>item. w = f k item) \<or> (\<exists>n. k = ''_truncated_items'' \<and> w = JInt n)"
  using assms
proof (induction f i kvs acc rule: store_items.induct)
  case (1 f index acc)
  then show ?case by simp
next
  case (2 f index key item rest acc)
  have put: "(k, w) \<in> set (tput x v t) \<Longrightarrow> (k, w) = (x, v) \<or> (k, w) \<in> set t" for x v t
    by (induction t) (auto simp: tput_def split: if_splits)
  show ?case
  proof (cases "MAX_SAFE_ITEMS \<le> index")
    case True
    with "2.prems" put show ?thesis by fastforce
  next
    case False
    with "2.prems" "2.IH" [OF False refl] put show ?thesis by (fastforce simp: Let_def)
  qed
qed

lemma fold_max_le_iff: "fold max xs a \<le> (b :: nat) \<longleftrightarrow> a \<le> b \<and> (\<forall>x \<in> set xs. x \<le> b)"
  by (induction xs arbitrary: a) auto

lemma json_depth_dict_le: "json_depth (JDict kvs) \<le> Suc b \<longleftrightarrow> (\<forall>(k, v) \<in> set kvs. json_depth v \<le> b)"
  by (auto simp: fold_max_le_iff)

lemma json_depth_list_le: "json_depth (JList vs) \<le> Suc b \<longleftrightarrow> (\<forall>v \<in> set vs. json_depth v \<le> b)"
  by (auto simp: fold_max_le_iff)

lemmas sensitive_eval = is_sensitive_field_def SENSITIVE_FIELD_PARTS_def underscored_def casefold_def lower_char_def
  UNTRUSTED_PROVIDER_TEXT_FIELDS_def

lemma own_fields_plain:
  "\<not> is_sensitive_field ''_truncated_items''" "\<not> is_sensitive_field ''truncated_items''"
  "\<not> is_sensitive_field ''truncated''" "\<not> is_sensitive_field ''reason''" "\<not> is_sensitive_field ''type''"
  "\<not> is_sensitive_field ''bytes_sha256''" "\<not> is_sensitive_field ''bytes_size''" "\<not> is_sensitive_field ''value''"
  "\<not> is_sensitive_field ''sha256''" "\<not> is_sensitive_field ''bytes''" "\<not> is_sensitive_field ''keys''"
  by code_simp+

lemma own_fields_trusted:
  "underscored ''_truncated_items'' \<notin> set UNTRUSTED_PROVIDER_TEXT_FIELDS"
  "underscored ''truncated_items'' \<notin> set UNTRUSTED_PROVIDER_TEXT_FIELDS"
  "underscored ''truncated'' \<notin> set UNTRUSTED_PROVIDER_TEXT_FIELDS" "underscored ''reason'' \<notin> set UNTRUSTED_PROVIDER_TEXT_FIELDS"
  "underscored ''type'' \<notin> set UNTRUSTED_PROVIDER_TEXT_FIELDS" "underscored ''bytes_sha256'' \<notin> set UNTRUSTED_PROVIDER_TEXT_FIELDS"
  "underscored ''bytes_size'' \<notin> set UNTRUSTED_PROVIDER_TEXT_FIELDS" "underscored ''value'' \<notin> set UNTRUSTED_PROVIDER_TEXT_FIELDS"
  "underscored ''sha256'' \<notin> set UNTRUSTED_PROVIDER_TEXT_FIELDS" "underscored ''bytes'' \<notin> set UNTRUSTED_PROVIDER_TEXT_FIELDS"
  "underscored ''keys'' \<notin> set UNTRUSTED_PROVIDER_TEXT_FIELDS"
  by code_simp+

definition safe_json :: "nat \<Rightarrow> json \<Rightarrow> bool" where
  "safe_json d j \<longleftrightarrow> redacted j \<and> no_provider_text j \<and> json_depth j \<le> d"

lemma safe_jsonI_dict:
  assumes "\<And>k v. (k, v) \<in> set kvs \<Longrightarrow> safe_json d v \<and> (is_sensitive_field k \<longrightarrow> v = JStr ''[redacted]'') \<and>
     (underscored k \<in> set UNTRUSTED_PROVIDER_TEXT_FIELDS \<longrightarrow> v \<in> {JStr ''[redacted]'', JStr ''[omitted-provider-text]''})"
  shows "safe_json (Suc d) (JDict kvs)"
  unfolding safe_json_def json_depth_dict_le using assms by (fastforce simp: safe_json_def)

lemma safe_jsonI_list: "(\<And>v. v \<in> set vs \<Longrightarrow> safe_json d v) \<Longrightarrow> safe_json (Suc d) (JList vs)"
  unfolding safe_json_def json_depth_list_le by simp

lemma safe_json_leaf [simp]:
  "safe_json d (JStr s)" "safe_json d JNull" "safe_json d (JBool b)" "safe_json d (JInt i)" "safe_json d (JFloat f)"
  by (simp_all add: safe_json_def)

lemma safe_float_json [simp]: "safe_json d (float_json x)"
  by (cases x) simp_all

lemma safe_scalar: "is_scalar v \<Longrightarrow> safe_json (Suc d) (sanitize_scalar lib field v)"
  by (cases v)
     (auto simp: sanitize_scalar_def is_scalar_def own_fields_plain own_fields_trusted intro!: safe_jsonI_dict)

lemma sanitize_value_marks:
  "is_sensitive_field k \<Longrightarrow> sanitize_value lib k n v = JStr ''[redacted]''"
  "underscored k \<in> set UNTRUSTED_PROVIDER_TEXT_FIELDS \<Longrightarrow>
     sanitize_value lib k n v \<in> {JStr ''[redacted]'', JStr ''[omitted-provider-text]''}"
  by (simp_all add: sanitize_value.simps [of lib k n v])

lemma safe_sanitize_value: "safe_json (Suc left) (sanitize_value lib field left v)"
proof (induction left arbitrary: field v)
  case 0
  show ?case
    by (auto simp: sanitize_value.simps [of _ _ 0] truncated_marker_def own_fields_plain own_fields_trusted
        intro!: safe_jsonI_dict)
next
  case (Suc n)
  have dict: "safe_json (Suc (Suc n)) (JDict (store_items (\<lambda>name item. sanitize_value lib name n item) 0 kvs []))" for kvs
  proof (rule safe_jsonI_dict)
    fix k w assume "(k, w) \<in> set (store_items (\<lambda>name item. sanitize_value lib name n item) 0 kvs [])"
    then consider (item) item where "w = sanitize_value lib k n item"
      | (more) i where "k = ''_truncated_items''" "w = JInt i"
      by (auto dest!: store_items_entries)
    then show "safe_json (Suc n) w \<and> (is_sensitive_field k \<longrightarrow> w = JStr ''[redacted]'') \<and>
        (underscored k \<in> set UNTRUSTED_PROVIDER_TEXT_FIELDS \<longrightarrow> w \<in> {JStr ''[redacted]'', JStr ''[omitted-provider-text]''})"
    proof cases
      case item
      with Suc.IH [of k item] sanitize_value_marks [of k lib n item] show ?thesis by blast
    next
      case more
      then show ?thesis by (simp add: own_fields_plain own_fields_trusted)
    qed
  qed
  have lst: "safe_json (Suc (Suc n)) (JList (sanitize_list (\<lambda>item. sanitize_value lib field n item) vs))" for vs
  proof (rule safe_jsonI_list)
    fix w assume "w \<in> set (sanitize_list (\<lambda>item. sanitize_value lib field n item) vs)"
    then consider (item) item where "w = sanitize_value lib field n item"
      | (more) i where "w = JDict [(''truncated_items'', JInt i)]"
      by (auto simp: sanitize_list_def split: if_splits)
    then show "safe_json (Suc n) w"
    proof cases
      case item
      with Suc.IH show ?thesis by simp
    next
      case more
      then show ?thesis by (auto intro!: safe_jsonI_dict simp: own_fields_plain own_fields_trusted)
    qed
  qed
  have opaque: "safe_json (Suc (Suc n)) (JDict [(''type'', JStr x)])" for x
    by (auto intro!: safe_jsonI_dict simp: own_fields_plain own_fields_trusted)
  show ?case
    using dict lst opaque safe_scalar [of v "Suc n" lib field]
    by (auto simp: sanitize_value.simps [of lib field "Suc n" v] split: pyval.split)
qed

text \<open>A dictionary is kept, anything else becomes the entry \<^verbatim>\<open>value\<close> of one.\<close>

lemma safe_as_dict: "safe_json d j \<Longrightarrow> safe_json (Suc d) (JDict (as_dict j))"
proof (cases "\<exists>kvs. j = JDict kvs")
  case True
  moreover assume "safe_json d j"
  ultimately show ?thesis by (auto simp: as_dict_def safe_json_def)
next
  case False
  then have "as_dict j = [(''value'', j)]" by (cases j) (auto simp: as_dict_def)
  moreover assume "safe_json d j"
  ultimately show ?thesis by (auto simp: own_fields_plain own_fields_trusted intro!: safe_jsonI_dict)
qed

lemma safe_public_evidence: "safe_json (Suc (Suc MAX_SAFE_DEPTH)) (sanitize_public_evidence lib v)"
proof -
  have "safe_json (Suc (Suc n)) (JDict [(''truncated'', JBool True), (''sha256'', JStr a), (''bytes'', JInt b),
      (''keys'', JList (map JStr ks))])" for n a b ks
    by (auto simp: safe_json_def own_fields_plain own_fields_trusted fold_max_le_iff)
  then show ?thesis
    using safe_as_dict [OF safe_sanitize_value [of MAX_SAFE_DEPTH lib "[]" v]]
    by (simp add: sanitize_public_evidence_def Let_def)
qed

text \<open>
  C5. No credential and no raw provider text reaches the audit log. Whatever value is offered as
  evidence, and whatever the hash and URL functions return, the stored JSON holds under every field
  whose name marks a credential only the redaction marker, at every depth; under every field that
  carries raw provider text only a marker; and it is nested at most eight levels deep.
\<close>

theorem evidence_is_public_safe:
  "redacted (sanitize_public_evidence lib v) \<and> no_provider_text (sanitize_public_evidence lib v) \<and>
   json_depth (sanitize_public_evidence lib v) \<le> 8"
  using safe_public_evidence [of lib v] by (simp add: safe_json_def MAX_SAFE_DEPTH_def)

text \<open>
  Redaction never corrupts ordinary text: a string of at most two thousand characters whose
  field marks neither a credential, nor raw provider text, nor a URL, is stored unchanged, also
  when the text itself looks like a credential.
\<close>

lemma ordinary_text_is_exact:
  assumes "\<not> is_sensitive_field k" and "underscored k \<notin> set UNTRUSTED_PROVIDER_TEXT_FIELDS"
    and "underscored k \<notin> set URL_FIELD_NAMES" and "length k \<le> 128" and "length s \<le> 2000"
  shows "sanitize_value lib [] MAX_SAFE_DEPTH (PDict [(k, PStr s)]) = JDict [(k, JStr s)]"
proof -
  have e: "\<not> is_sensitive_field []" "underscored [] \<notin> set UNTRUSTED_PROVIDER_TEXT_FIELDS" by code_simp+
  obtain m where m: "MAX_SAFE_DEPTH = Suc (Suc m)" by (simp add: MAX_SAFE_DEPTH_def)
  have "sanitize_value lib k (Suc m) (PStr s) = JStr s"
    using assms by (simp add: sanitize_value.simps [of lib k "Suc m"] is_scalar_def sanitize_scalar_def
        MAX_SAFE_STRING_CHARS_def)
  then show ?thesis
    using assms e unfolding m
    by (simp add: sanitize_value.simps [of lib "[]" "Suc (Suc m)"] is_scalar_def MAX_SAFE_ITEMS_def tput_def)
qed

definition example_lib :: stdlib where
  "example_lib = \<lparr>sha256_hex = (\<lambda>s. ''digest''), urlsplit = (\<lambda>s. None)\<rparr>"

lemma ordinary_text_example:
  "sanitize_value example_lib [] MAX_SAFE_DEPTH (PDict [(''note'', PStr ''my api_key is sk-1'')]) =
   JDict [(''note'', JStr ''my api_key is sk-1'')]"
proof -
  have "\<not> is_sensitive_field ''note''" "underscored ''note'' \<notin> set UNTRUSTED_PROVIDER_TEXT_FIELDS"
    "underscored ''note'' \<notin> set URL_FIELD_NAMES" by code_simp+
  then show ?thesis by (rule ordinary_text_is_exact) simp_all
qed

end
