(* ===== verification/Effect_Rows.thy ===== *)
theory Effect_Rows
  imports Driver_Lease Evidence
begin

text \<open>
  The rows the effect ledger and resource control share: \<^verbatim>\<open>src/backend/db/models/external_effect.py\<close>
  and \<^verbatim>\<open>src/backend/db/models/resource_control.py\<close>, beside the session and driver tables of
  \<open>Driver_Lease\<close>. The evidence table is a list in insertion order (its random primary key is not
  modelled). Every write is one transaction on a \<open>store\<close>; a raised exception is \<open>Inl\<close> and rolls
  the transaction back.
\<close>

datatype effect_state = Prepared | Submitting | Accepted | Succeeded | Failed | OutcomeUnknown | ManualReview

datatype claim_kind = Dispatch | Reconcile

datatype owner_kind = Automation | Human

record resource_fence =
  rf_resource_id :: ident
  rf_epoch :: int
  rf_owner_kind :: owner_kind
  rf_owner_id :: ident

text \<open>The four resource columns are NULL together (\<^verbatim>\<open>ck_external_effect_resource_fence\<close>): one option.\<close>

record effect_row =
  tenant_id :: ident
  project_id :: "ident option"
  session_id :: ident
  run_id :: ident
  run_generation :: int
  adapter :: string
  provider :: string
  operation :: string
  idempotency_key :: string
  request_hash_col :: string
  safe_context :: json
  resource :: "resource_fence option"
  state :: effect_state
  attempt_count :: int
  reconcile_count :: int
  claim_generation :: int
  claim_kind_col :: "claim_kind option"
  claim_token :: "string option"
  claim_owner :: "ident option"
  claim_expires_at :: "time option"
  provider_handle :: "string option"
  provider_receipt :: "json option"
  projection :: "json option"
  last_error :: "json option"
  reconcile_after :: "time option"
  prepared_at :: time
  submitting_at :: "time option"
  accepted_at :: "time option"
  completed_at :: "time option"
  created_at :: time
  updated_at :: time

record evidence_row =
  ev_effect_id :: ident
  ev_sequence :: int
  ev_claim_generation :: int
  ev_phase :: string
  ev_evidence :: json
  ev_created_at :: time

datatype resource_status = Active | Draining | Hold

record resource_row =
  r_type :: string
  r_provider :: string
  r_physical_id :: string
  r_workspace_id :: ident
  r_desktop_record_id :: "ident option"
  r_owner_kind :: owner_kind
  r_owner_id :: ident
  r_epoch :: int
  r_status :: resource_status
  r_open :: bool
  r_expires_at :: "time option"
  r_last_observation_ref :: "json option"
  r_remote_journal_id :: "string option"
  r_remote_status :: "json option"
  r_created_at :: time
  r_updated_at :: time

record desktop_row =
  dt_desktop_id :: ident
  dt_region_id :: string
  dt_workspace_id :: ident
  dt_is_deleted :: bool
  dt_pool_state :: "string option"

record 'a store =
  base :: "'a db"
  effects :: "(ident, effect_row) table"
  evidence_log :: "evidence_row list"
  resources :: "(ident, resource_row) table"
  desktops :: "(ident, desktop_row) table"

datatype ledger_error =
    InvalidArgument value_error
  | UnsupportedType string
  | EffectConflictError
  | EffectLeaseLostError
  | EffectNotDispatchableError
  | IntegrityError
  | AgentFence driver_error
  | ResourceError int string

definition TERMINAL_STATES :: "effect_state set" where
  "TERMINAL_STATES = {Succeeded, Failed, ManualReview}"

definition RECONCILE_STATES :: "effect_state set" where
  "RECONCILE_STATES = {Submitting, Accepted, OutcomeUnknown}"

lemma terminal_iff [simp]:
  "x \<in> TERMINAL_STATES \<longleftrightarrow> x = Succeeded \<or> x = Failed \<or> x = ManualReview"
  by (auto simp: TERMINAL_STATES_def)

lemma reconcile_iff: "x \<in> RECONCILE_STATES \<longleftrightarrow> x = Submitting \<or> x = Accepted \<or> x = OutcomeUnknown"
  by (auto simp: RECONCILE_STATES_def)

text \<open>Errors of the called components become errors of the caller.\<close>

definition agent_fence :: "driver_error + 'b \<Rightarrow> ledger_error + 'b" where
  "agent_fence r = map_sum AgentFence id r"

definition valid_arg :: "value_error + 'b \<Rightarrow> ledger_error + 'b" where
  "valid_arg r = map_sum InvalidArgument id r"

lemma agent_fence_Inr [simp]: "agent_fence r = Inr x \<longleftrightarrow> r = Inr x"
  by (cases r) (auto simp: agent_fence_def)

lemma valid_arg_Inr [simp]: "valid_arg r = Inr x \<longleftrightarrow> r = Inr x"
  by (cases r) (auto simp: valid_arg_def)

text \<open>Python access to JSON dicts: \<^verbatim>\<open>d.get(key)\<close>, with \<^verbatim>\<open>None\<close> for an absent key.\<close>

definition jget :: "string \<Rightarrow> json \<Rightarrow> json" where
  "jget k j = (case j of JDict kvs \<Rightarrow> (case map_of kvs k of None \<Rightarrow> JNull | Some v \<Rightarrow> v) | _ \<Rightarrow> JNull)"

definition has_key :: "string \<Rightarrow> json \<Rightarrow> bool" where
  "has_key k j = (case j of JDict kvs \<Rightarrow> k \<in> fst ` set kvs | _ \<Rightarrow> False)"

definition or_empty :: "json option \<Rightarrow> json" where
  "or_empty j = (case j of None \<Rightarrow> JDict [] | Some v \<Rightarrow> v)"

definition opt_str :: "string option \<Rightarrow> json" where
  "opt_str s = (case s of None \<Rightarrow> JNull | Some x \<Rightarrow> JStr x)"

text \<open>A stored JSON value read back as a Python value.\<close>

fun of_json :: "json \<Rightarrow> pyval" where
  "of_json JNull = PNone"
| "of_json (JBool b) = PBool b"
| "of_json (JInt i) = PInt i"
| "of_json (JFloat s) = PFloat (Finite s)"
| "of_json (JStr s) = PStr s"
| "of_json (JList vs) = PSeq (map of_json vs)"
| "of_json (JDict kvs) = PDict (map (\<lambda>(k, v). (k, of_json v)) kvs)"

end
