(* ===== verification/Resource_Control.thy ===== *)
theory Resource_Control
  imports Effect_Rows
begin

text \<open>
  \<^verbatim>\<open>src/backend/assistant/resource_control.py\<close> and the effect guard of
  \<^verbatim>\<open>src/backend/assistant/resource_observations.py\<close>: admission of work on a physical desktop. What
  is read from the membership, user and event tables is the record \<open>resource_ops\<close>.
\<close>

record 'a resource_ops =
  active_membership :: "'a \<Rightarrow> ident \<Rightarrow> ident \<Rightarrow> bool"
  active_user :: "'a \<Rightarrow> ident \<Rightarrow> bool"
  load_observation :: "'a \<Rightarrow> json \<Rightarrow> ident \<Rightarrow> ident \<Rightarrow> resource_fence \<Rightarrow> string option \<Rightarrow> ledger_error option"

definition resource_fence_valid :: "resource_fence \<Rightarrow> bool" where
  "resource_fence_valid f \<longleftrightarrow> 1 \<le> length (rf_resource_id f) \<and> length (rf_resource_id f) \<le> 64 \<and>
     1 \<le> rf_epoch f \<and> 1 \<le> length (rf_owner_id f) \<and> length (rf_owner_id f) \<le> 64"

definition fence_for :: "ident \<Rightarrow> resource_row \<Rightarrow> resource_fence" where
  "fence_for rid r = \<lparr>rf_resource_id = rid, rf_epoch = r_epoch r, rf_owner_kind = r_owner_kind r,
     rf_owner_id = r_owner_id r\<rparr>"

definition unavailable :: ledger_error where
  "unavailable = ResourceError 423 ''RESOURCE_CONTROL_HELD''"

definition unsettled_pool_state :: "'a store \<Rightarrow> ident option \<Rightarrow> string option" where
  "unsettled_pool_state s desktop = (case desktop of
       None \<Rightarrow> None
     | Some did \<Rightarrow>
         if did = [] then None
         else case find (\<lambda>(k, d). dt_desktop_id d = did) (desktops s) of
                None \<Rightarrow> None
              | Some (k, d) \<Rightarrow> if dt_pool_state d \<in> {None, Some ''assigned''} then None else dt_pool_state d)"

definition closed_transition_target :: "ident \<Rightarrow> resource_row \<Rightarrow> ident \<Rightarrow> ledger_error + resource_fence" where
  "closed_transition_target rid r user =
     (if r_epoch r \<ge> 2 ^ 31 - 1 then Inl (ResourceError 409 ''RESOURCE_EPOCH_EXHAUSTED'')
      else if r_owner_kind r = Automation \<and> r_owner_id r = r_workspace_id r
      then Inr \<lparr>rf_resource_id = rid, rf_epoch = r_epoch r + 1, rf_owner_kind = Human, rf_owner_id = user\<rparr>
      else if r_owner_kind r = Human \<and> r_owner_id r = user
      then Inr \<lparr>rf_resource_id = rid, rf_epoch = r_epoch r + 1, rf_owner_kind = Automation, rf_owner_id = r_workspace_id r\<rparr>
      else Inl unavailable)"

definition actor :: "'a resource_ops \<Rightarrow> 'a \<Rightarrow> ident \<Rightarrow> ident \<Rightarrow> ledger_error + unit" where
  "actor rops a user workspace =
     (if \<not> active_membership rops a user workspace then Inl (ResourceError 403 ''ASSISTANT_WORKSPACE_FORBIDDEN'')
      else guard_that (active_user rops a user) unavailable)"

text \<open>The recorded state of the remote gate, when a journal is pinned.\<close>

definition remote_gate_open :: "ident \<Rightarrow> resource_row \<Rightarrow> bool" where
  "remote_gate_open rid r = (case r_remote_journal_id r of
       None \<Rightarrow> True
     | Some journal \<Rightarrow>
         (let observed = or_empty (r_remote_status r); control = jget ''control'' observed
          in jget ''protocol'' observed = JStr ''resource_admission_v2'' \<and>
             jget ''journal_id'' observed = JStr journal \<and>
             (control = JNull \<or>
              (case control of JDict _ \<Rightarrow> True | _ \<Rightarrow> False) \<and>
              jget ''admission'' control = JStr ''open'' \<and>
              jget ''resource_id'' control = JStr rid \<and> jget ''epoch'' control = JInt (r_epoch r) \<and>
              jget ''owner_kind'' control = JStr (case r_owner_kind r of Automation \<Rightarrow> ''automation'' | Human \<Rightarrow> ''human'') \<and>
              jget ''owner_id'' control = JStr (r_owner_id r))))"

definition assigned_desktop :: "'a store \<Rightarrow> resource_row \<Rightarrow> bool" where
  "assigned_desktop s r \<longleftrightarrow> r_provider r = ''wuying'' \<and> r_type r = ''desktop'' \<and>
     (case r_desktop_record_id r of
        None \<Rightarrow> False
      | Some k \<Rightarrow> (case tget (desktops s) k of
          None \<Rightarrow> False
        | Some d \<Rightarrow> \<not> dt_is_deleted d \<and> dt_workspace_id d = r_workspace_id r \<and>
            dt_region_id d @ '':'' @ dt_desktop_id d = r_physical_id r \<and> dt_pool_state d = Some ''assigned''))"

definition admission_open :: "ident \<Rightarrow> resource_row \<Rightarrow> resource_fence \<Rightarrow> time \<Rightarrow> bool" where
  "admission_open rid r fence t \<longleftrightarrow> fence_for rid r = fence \<and> r_owner_kind r = Automation \<and>
     r_owner_id r = r_workspace_id r \<and> r_status r = Active \<and> r_open r \<and> \<not> not_after (r_expires_at r) t"

definition validate_locked ::
  "'a resource_ops \<Rightarrow> 'a store \<Rightarrow> time \<Rightarrow> resource_fence \<Rightarrow> ident \<Rightarrow> ident \<Rightarrow> bool \<Rightarrow> ledger_error + resource_row" where
  "validate_locked rops s t fence user sid require_open =
     (case (tget (resources s) (rf_resource_id fence), tget (sessions (base s)) sid) of
        (Some r, Some ses) \<Rightarrow>
          if s_is_deleted ses \<or> s_user_id ses \<noteq> user \<or> r_workspace_id r \<noteq> s_workspace_id ses then Inl unavailable
          else rbind (actor rops (assistant (base s)) user (r_workspace_id r)) (\<lambda>_.
            if \<not> assigned_desktop s r then Inl unavailable
            else if require_open \<and> \<not> admission_open (rf_resource_id fence) r fence t then Inl unavailable
            else if require_open \<and> \<not> remote_gate_open (rf_resource_id fence) r then Inl unavailable
            else Inr r)
      | _ \<Rightarrow> Inl unavailable)"

definition put_resource :: "ident \<Rightarrow> resource_row \<Rightarrow> 'a store \<Rightarrow> 'a store" where
  "put_resource rid r s = s\<lparr>resources := tput rid r (resources s)\<rparr>"

definition enroll_desktop_locked ::
  "stdlib \<Rightarrow> 'a resource_ops \<Rightarrow> 'a store \<Rightarrow> time \<Rightarrow> ident \<Rightarrow> ident \<Rightarrow> ident \<Rightarrow>
     ledger_error + ('a store \<times> ident \<times> resource_row)" where
  "enroll_desktop_locked lib rops s t desktop workspace user =
     rbind (actor rops (assistant (base s)) user workspace) (\<lambda>_.
       case find (\<lambda>(k, d). dt_desktop_id d = desktop \<and> dt_workspace_id d = workspace \<and> \<not> dt_is_deleted d \<and>
                            dt_pool_state d = Some ''assigned'') (desktops s) of
         None \<Rightarrow> Inl unavailable
       | Some (k, d) \<Rightarrow>
           let physical = dt_region_id d @ '':'' @ dt_desktop_id d;
               rid = sha256_hex lib (''wuying:desktop:'' @ physical);
               (s', r) = (case tget (resources s) rid of
                   Some r \<Rightarrow> (s, r)
                 | None \<Rightarrow>
                     let r = \<lparr>r_type = ''desktop'', r_provider = ''wuying'', r_physical_id = physical,
                              r_workspace_id = workspace, r_desktop_record_id = Some k, r_owner_kind = Automation,
                              r_owner_id = workspace, r_epoch = 1, r_status = Active, r_open = True,
                              r_expires_at = None, r_last_observation_ref = None, r_remote_journal_id = None,
                              r_remote_status = None, r_created_at = t, r_updated_at = t\<rparr>
                     in (put_resource rid r s, r))
           in if r_workspace_id r \<noteq> workspace \<or> r_desktop_record_id r \<noteq> Some k then Inl unavailable
              else Inr (s', rid, r))"

definition enroll_desktop ::
  "stdlib \<Rightarrow> 'a resource_ops \<Rightarrow> 'a store \<Rightarrow> time \<Rightarrow> ident \<Rightarrow> ident \<Rightarrow> ident \<Rightarrow> ledger_error + ('a store \<times> resource_fence)" where
  "enroll_desktop lib rops s t desktop workspace user =
     rbind (enroll_desktop_locked lib rops s t desktop workspace user) (\<lambda>(s', rid, r). Inr (s', fence_for rid r))"

definition close_admission_locked ::
  "'a resource_ops \<Rightarrow> 'a store \<Rightarrow> time \<Rightarrow> resource_fence \<Rightarrow> ident \<Rightarrow> ledger_error + ('a store \<times> resource_row)" where
  "close_admission_locked rops s t fence user = (case tget (resources s) (rf_resource_id fence) of
       None \<Rightarrow> Inl unavailable
     | Some r \<Rightarrow> rbind (actor rops (assistant (base s)) user (r_workspace_id r)) (\<lambda>_.
         if fence_for (rf_resource_id fence) r \<noteq> fence then Inl unavailable
         else let r' = r\<lparr>r_open := False, r_status := Draining, r_updated_at := t\<rparr>
              in Inr (put_resource (rf_resource_id fence) r' s, r')))"

record drain_status =
  dr_resource_id :: ident
  dr_epoch :: int
  dr_open :: bool
  dr_drained :: bool
  dr_blocking :: "ident list"
  dr_remote_exclusivity_verified :: bool

definition holds_resource :: "ident \<Rightarrow> effect_row \<Rightarrow> bool" where
  "holds_resource rid e \<longleftrightarrow> map_option rf_resource_id (resource e) = Some rid \<and> submitting_at e \<noteq> None \<and>
     state e \<notin> TERMINAL_STATES"

definition drain_status_locked :: "'a store \<Rightarrow> ident \<Rightarrow> resource_row \<Rightarrow> drain_status" where
  "drain_status_locked s rid r =
     (let blocking = map fst (sort_key (\<lambda>(k, e). created_at e) (filter (\<lambda>(k, e). holds_resource rid e) (effects s)))
      in \<lparr>dr_resource_id = rid, dr_epoch = r_epoch r, dr_open = r_open r, dr_drained = (blocking = []),
          dr_blocking = blocking, dr_remote_exclusivity_verified = False\<rparr>)"

section \<open>The guard of an effect\<close>

definition READ_ONLY_OPERATIONS :: "(string \<times> string) list" where
  "READ_ONLY_OPERATIONS = [(''sandbox_runtime'', ''catalogue_read''), (''sandbox_runtime'', ''plan_transition'')]"

definition read_only :: "effect_row \<Rightarrow> bool" where
  "read_only e \<longleftrightarrow> (adapter e, operation e) \<in> set READ_ONLY_OPERATIONS"

definition observation_required :: ledger_error where
  "observation_required = ResourceError 423 ''RESOURCE_OBSERVATION_REQUIRED''"

definition same_frame :: "json \<Rightarrow> json \<Rightarrow> bool" where
  "same_frame pointer ref \<longleftrightarrow> (case ref of
       JDict kvs \<Rightarrow> set (map fst kvs) = {''event_id'', ''digest''} \<and>
         jget ''event_id'' pointer = jget ''event_id'' ref \<and> jget ''digest'' pointer = jget ''digest'' ref
     | _ \<Rightarrow> False)"

definition guard_effect_locked ::
  "'a resource_ops \<Rightarrow> 'a store \<Rightarrow> ident \<Rightarrow> effect_row \<Rightarrow> ident \<Rightarrow> resource_row \<Rightarrow> bool \<Rightarrow> ledger_error + 'a store" where
  "guard_effect_locked rops s eid e rid r consume =
     (let ref = jget ''resource_observation'' (safe_context e);
          pointer = or_empty (r_last_observation_ref r);
          failed = (if ref = JNull then None
                    else case load_observation rops (assistant (base s)) ref (tenant_id e) (session_id e)
                                (fence_for rid r) (r_remote_journal_id r) of
                           Some err \<Rightarrow> Some err
                         | None \<Rightarrow>
                             if consume then (if same_frame pointer ref then None else Some observation_required)
                             else if jget ''effect_id'' pointer = JStr eid then None else Some observation_required)
      in case failed of
           Some err \<Rightarrow> Inl err
         | None \<Rightarrow>
             if consume \<and> \<not> read_only e
             then Inr (put_resource rid (r\<lparr>r_last_observation_ref := Some (JDict [(''effect_id'', JStr eid)])\<rparr>) s)
             else Inr s)"

definition validate_effect_locked ::
  "'a resource_ops \<Rightarrow> 'a store \<Rightarrow> time \<Rightarrow> ident \<Rightarrow> effect_row \<Rightarrow> bool \<Rightarrow> ledger_error + 'a store" where
  "validate_effect_locked rops s t eid e consume = (case resource e of
       None \<Rightarrow> Inr s
     | Some fence \<Rightarrow>
         rbind (validate_locked rops s t fence (tenant_id e) (session_id e) True) (\<lambda>r.
           if has_key ''resource_journal_id'' (safe_context e) \<and>
              jget ''resource_journal_id'' (safe_context e) \<noteq> opt_str (r_remote_journal_id r)
           then Inl unavailable
           else guard_effect_locked rops s eid e (rf_resource_id fence) r consume))"

section \<open>Expiry and heartbeat\<close>

definition due_leases :: "'a store \<Rightarrow> time \<Rightarrow> nat \<Rightarrow> (ident \<times> resource_row) list" where
  "due_leases s t limit = take limit
     (sort_key (\<lambda>(k, r). case r_expires_at r of None \<Rightarrow> 0 | Some x \<Rightarrow> x) (sort_key fst
        (filter (\<lambda>(k, r). not_after (r_expires_at r) t \<and> r_status r \<noteq> Hold) (resources s))))"

definition expire_leases :: "'a store \<Rightarrow> time \<Rightarrow> nat \<Rightarrow> 'a store \<times> nat" where
  "expire_leases s t limit =
     (let rows = due_leases s t limit
      in (fold (\<lambda>(k, r). put_resource k (r\<lparr>r_status := Hold, r_open := False, r_updated_at := t\<rparr>)) rows s, length rows))"

definition heartbeat ::
  "'a resource_ops \<Rightarrow> 'a store \<Rightarrow> time \<Rightarrow> resource_fence \<Rightarrow> ident \<Rightarrow> int \<Rightarrow> ledger_error + ('a store \<times> resource_row)" where
  "heartbeat rops s t fence user ttl =
     (if \<not> (1 \<le> ttl \<and> ttl \<le> 120) then Inl (InvalidArgument (InvalidValue ''heartbeat duration''))
      else case tget (resources s) (rf_resource_id fence) of
        None \<Rightarrow> Inl unavailable
      | Some r \<Rightarrow> rbind (actor rops (assistant (base s)) user (r_workspace_id r)) (\<lambda>_.
          if fence_for (rf_resource_id fence) r \<noteq> fence \<or> r_owner_kind r \<noteq> Human \<or> r_owner_id r \<noteq> user
          then Inl unavailable
          else
            let put = (\<lambda>r'. Inr (put_resource (rf_resource_id fence) r' s, r'))
            in if \<not> after_now (r_expires_at r) t
               then put (r\<lparr>r_status := Hold, r_open := False, r_updated_at := t\<rparr>)
               else if r_status r \<noteq> Active \<or> \<not> r_open r then Inl unavailable
               else put (r\<lparr>r_expires_at := Some (t + seconds ttl), r_updated_at := t\<rparr>)))"

end
