(* ===== verification/Effect_Ledger.thy ===== *)
theory Effect_Ledger
  imports Resource_Control
begin

text \<open>
  \<^verbatim>\<open>src/backend/agent/effect_ledger.py\<close>: the fenced protocol of external provider effects,
  \<^verbatim>\<open>prepare -> claim(dispatch) -> submitting -> provider -> receipt -> projection\<close>, and its recovery.
  Every function is one transaction at one instant of the database clock, except
  \<open>recover_effect_once\<close>, which claims at one instant and settles at a later one. The reconcilers
  that adapters register are a table of functions, and the domain callback of \<open>settle_effect\<close> is an
  argument: both are code outside the ledger.
\<close>

section \<open>Constants and values\<close>

definition EFFECT_LEASE_SECONDS :: int where "EFFECT_LEASE_SECONDS = 90"
definition PREPARED_RECOVERY_GRACE_SECONDS :: int where "PREPARED_RECOVERY_GRACE_SECONDS = 120"
definition RECONCILE_RETRY_SECONDS :: int where "RECONCILE_RETRY_SECONDS = 30"
definition MAX_DISPATCH_ATTEMPTS :: int where "MAX_DISPATCH_ATTEMPTS = 1"
definition MAX_RECONCILE_ATTEMPTS :: int where "MAX_RECONCILE_ATTEMPTS = 8"
definition RECOVERY_BATCH_SIZE :: int where "RECOVERY_BATCH_SIZE = 32"
definition RECONCILE_TIMEOUT_SECONDS :: int where "RECONCILE_TIMEOUT_SECONDS = 30"

record effect_run_fence =
  f_session_id :: ident
  f_tenant_id :: ident
  f_run_id :: ident
  f_generation :: int

record effect_snapshot =
  sn_effect_id :: ident
  sn_tenant_id :: ident
  sn_project_id :: "ident option"
  sn_session_id :: ident
  sn_run_id :: ident
  sn_run_generation :: int
  sn_adapter :: string
  sn_provider :: string
  sn_operation :: string
  sn_idempotency_key :: string
  sn_request_hash :: string
  sn_safe_context :: json
  sn_state :: effect_state
  sn_attempt_count :: int
  sn_reconcile_count :: int
  sn_provider_handle :: "string option"
  sn_provider_receipt :: "json option"
  sn_projection :: "json option"
  sn_resource_fence :: "resource_fence option"

record effect_claim =
  c_effect_id :: ident
  c_tenant_id :: ident
  c_session_id :: ident
  c_run_id :: ident
  c_run_generation :: int
  c_kind :: claim_kind
  c_token :: string
  c_generation :: int
  c_owner_id :: ident
  c_lease_expires_at :: "time option"

text \<open>
  \<^verbatim>\<open>ReconcileDecision\<close>; a decision's \<^verbatim>\<open>evidence\<close>, \<^verbatim>\<open>receipt\<close> and \<^verbatim>\<open>projection\<close> are dicts or \<^verbatim>\<open>None\<close>.
\<close>

type_synonym pydict = "(string \<times> pyval) list"

datatype decision_state = DAccepted | DSucceeded | DFailed | DOutcomeUnknown | DManualReview

record reconcile_decision =
  de_state :: decision_state
  de_provider_handle :: "string option"
  de_receipt :: "pydict option"
  de_projection :: "pydict option"
  de_evidence :: "pydict option"
  de_retry_after_seconds :: int

datatype reconcile_reply = Raised string | Decided reconcile_decision

record reconciler =
  rc_id :: nat
  rc_without_handle :: bool
  rc_reconcile :: "effect_snapshot \<Rightarrow> reconcile_reply"

definition register_effect_reconciler ::
  "(string, reconciler) table \<Rightarrow> string \<Rightarrow> reconciler \<Rightarrow> ledger_error + (string, reconciler) table" where
  "register_effect_reconciler reg adapt rc = rbind (valid_arg (bounded_identity adapt 64)) (\<lambda>name.
     case tget reg name of
       Some existing \<Rightarrow> if rc_id existing \<noteq> rc_id rc then Inl (InvalidArgument (InvalidValue ''registered''))
                        else Inr (tput name rc reg)
     | None \<Rightarrow> Inr (tput name rc reg))"

definition unregister_effect_reconciler ::
  "(string, reconciler) table \<Rightarrow> string \<Rightarrow> reconciler \<Rightarrow> (string, reconciler) table" where
  "unregister_effect_reconciler reg adapt rc = (case tget reg adapt of
       Some existing \<Rightarrow> if rc_id existing = rc_id rc then tdel adapt reg else reg
     | None \<Rightarrow> reg)"

section \<open>Request identity\<close>

fun collect :: "('x \<Rightarrow> 'e + 'y) \<Rightarrow> 'x list \<Rightarrow> 'e + 'y list" where
  "collect f [] = Inr []"
| "collect f (x # xs) = rbind (f x) (\<lambda>y. rbind (collect f xs) (\<lambda>ys. Inr (y # ys)))"

text \<open>
  \<^verbatim>\<open>_canonical_request_value\<close>, with the levels left (33 at the root, so depth 0 to 32 is accepted)
  instead of the depth.
\<close>

fun canonical_request_value :: "stdlib \<Rightarrow> nat \<Rightarrow> pyval \<Rightarrow> ledger_error + pyval" where
  "canonical_request_value lib 0 v = Inl (InvalidArgument (InvalidValue ''nesting''))"
| "canonical_request_value lib (Suc n) v = (case v of
       PBytes b \<Rightarrow> Inr (PDict [(''$bytes_sha256'', PStr (sha256_hex lib b)), (''$bytes_size'', PInt (int (length b)))])
     | PDateTime s \<Rightarrow> Inr (PStr s)
     | PModel w \<Rightarrow> canonical_request_value lib n w
     | PDataclass kvs \<Rightarrow> canonical_request_value lib n (PDict kvs)
     | PDict kvs \<Rightarrow>
         rbind (collect (\<lambda>(k, x). rbind (canonical_request_value lib n x) (\<lambda>y. Inr (k, y))) (sort_key fst kvs))
           (\<lambda>ys. Inr (PDict ys))
     | PSeq vs \<Rightarrow> rbind (collect (canonical_request_value lib n) vs) (\<lambda>ys. Inr (PSeq ys))
     | POther name \<Rightarrow> Inl (UnsupportedType name)
     | scalar \<Rightarrow> Inr scalar)"

text \<open>\<^verbatim>\<open>json.dumps(allow_nan=False)\<close> raises \<^verbatim>\<open>ValueError\<close> on a float that is not finite.\<close>

fun all_finite :: "pyval \<Rightarrow> bool" where
  "all_finite (PFloat (Finite s)) = True"
| "all_finite (PFloat x) = False"
| "all_finite (PDict kvs) = (\<forall>p \<in> set kvs. all_finite (snd p))"
| "all_finite (PSeq vs) = (\<forall>v \<in> set vs. all_finite v)"
| "all_finite v = True"

fun to_json :: "pyval \<Rightarrow> json" where
  "to_json (PBool b) = JBool b"
| "to_json (PInt i) = JInt i"
| "to_json (PFloat x) = float_json x"
| "to_json (PStr s) = JStr s"
| "to_json (PDict kvs) = JDict (map (\<lambda>p. (fst p, to_json (snd p))) kvs)"
| "to_json (PSeq vs) = JList (map to_json vs)"
| "to_json v = JNull"

definition request_hash :: "stdlib \<Rightarrow> pyval \<Rightarrow> ledger_error + string" where
  "request_hash lib payload = rbind (canonical_request_value lib 33 payload) (\<lambda>canonical.
     if all_finite canonical then Inr (sha256_hex lib (json_dumps (to_json canonical)))
     else Inl (InvalidArgument (InvalidValue ''float'')))"

definition stable_effect_id :: "stdlib \<Rightarrow> ident \<Rightarrow> ident \<Rightarrow> string \<Rightarrow> string \<Rightarrow> string \<Rightarrow> ident" where
  "stable_effect_id lib tenant sid adapt op key = ''effect_'' @ take 40 (sha256_hex lib
     (join [CHR 0x1F] [''openbox-effect-v1'', tenant, sid, adapt, op, key]))"

definition stable_idempotency_key :: "stdlib \<Rightarrow> ident \<Rightarrow> string" where
  "stable_idempotency_key lib eid =
     ''openbox-effect-'' @ take 48 (sha256_hex lib (''openbox-provider-effect-v1:'' @ eid))"

definition snapshot :: "ident \<Rightarrow> effect_row \<Rightarrow> effect_snapshot" where
  "snapshot eid e = \<lparr>sn_effect_id = eid, sn_tenant_id = tenant_id e, sn_project_id = project_id e,
     sn_session_id = session_id e, sn_run_id = run_id e, sn_run_generation = run_generation e,
     sn_adapter = adapter e, sn_provider = provider e, sn_operation = operation e,
     sn_idempotency_key = idempotency_key e, sn_request_hash = request_hash_col e,
     sn_safe_context = safe_context e, sn_state = state e, sn_attempt_count = attempt_count e,
     sn_reconcile_count = reconcile_count e, sn_provider_handle = provider_handle e,
     sn_provider_receipt = provider_receipt e, sn_projection = projection e, sn_resource_fence = resource e\<rparr>"

section \<open>Transactions\<close>

definition append_evidence ::
  "stdlib \<Rightarrow> ident \<Rightarrow> effect_row \<Rightarrow> string \<Rightarrow> pydict \<Rightarrow> time \<Rightarrow> int option \<Rightarrow> 'a store \<Rightarrow> ledger_error + 'a store" where
  "append_evidence lib eid e ph ev t g s =
     rbind (valid_arg (bounded_identity ph 32)) (\<lambda>ph'.
       let seq = fold max (map ev_sequence (filter (\<lambda>r. ev_effect_id r = eid) (evidence_log s))) 0 + 1
       in Inr (s\<lparr>evidence_log := evidence_log s @
            [\<lparr>ev_effect_id = eid, ev_sequence = seq,
              ev_claim_generation = (case g of None \<Rightarrow> claim_generation e | Some n \<Rightarrow> n),
              ev_phase = ph', ev_evidence = sanitize_public_evidence lib (PDict ev), ev_created_at = t\<rparr>]\<rparr>))"

definition assert_agent_fence_locked :: "'a store \<Rightarrow> time \<Rightarrow> effect_run_fence \<Rightarrow> ledger_error + unit" where
  "assert_agent_fence_locked s t f = agent_fence
     (assert_run_fence_locked (base s) t (f_session_id f) (f_tenant_id f) (f_run_id f) (f_generation f))"

definition claim_fence :: "effect_claim \<Rightarrow> effect_run_fence" where
  "claim_fence c = \<lparr>f_session_id = c_session_id c, f_tenant_id = c_tenant_id c, f_run_id = c_run_id c,
     f_generation = c_run_generation c\<rparr>"

definition claim_matches :: "effect_claim \<Rightarrow> effect_row \<Rightarrow> bool" where
  "claim_matches c e \<longleftrightarrow> tenant_id e = c_tenant_id c \<and> session_id e = c_session_id c \<and>
     claim_kind_col e = Some (c_kind c) \<and> claim_token e = Some (c_token c) \<and>
     claim_generation e = c_generation c \<and> claim_owner e = Some (c_owner_id c) \<and> claim_expires_at e \<noteq> None"

definition put_effect :: "ident \<Rightarrow> effect_row \<Rightarrow> 'a store \<Rightarrow> 'a store" where
  "put_effect eid e s = s\<lparr>effects := tput eid e (effects s)\<rparr>"

text \<open>A conditional \<^verbatim>\<open>UPDATE\<close> of the effect row; the updated row when it matched.\<close>

definition update_effect ::
  "ident \<Rightarrow> (effect_row \<Rightarrow> bool) \<Rightarrow> (effect_row \<Rightarrow> effect_row) \<Rightarrow> 'a store \<Rightarrow> ('a store \<times> effect_row) option" where
  "update_effect eid P f s = (case tget (effects s) eid of
       None \<Rightarrow> None
     | Some e \<Rightarrow> if P e then Some (put_effect eid (f e) s, f e) else None)"

definition effect_expiry :: "time \<Rightarrow> time" where
  "effect_expiry t = t + seconds EFFECT_LEASE_SECONDS"

definition clear_claim :: "effect_row \<Rightarrow> effect_row" where
  "clear_claim e = e\<lparr>claim_kind_col := None, claim_token := None, claim_owner := None, claim_expires_at := None\<rparr>"

record prepare_args =
  pa_adapter :: string
  pa_provider :: string
  pa_operation :: string
  pa_logical_key :: string
  pa_request_payload :: pyval
  pa_request_digest :: "string option"
  pa_project_id :: "ident option"
  pa_idempotency_key :: "string option"
  pa_safe_context :: "pydict option"
  pa_resource_fence :: "resource_fence option"

definition is_sha256 :: "string \<Rightarrow> bool" where
  "is_sha256 s \<longleftrightarrow> length s = 64 \<and> list_all (\<lambda>c. c \<in> set ''0123456789abcdef'') s"

definition or_dict :: "pydict option \<Rightarrow> pydict" where
  "or_dict d = (case d of None \<Rightarrow> [] | Some kvs \<Rightarrow> kvs)"

definition nonempty :: "string option \<Rightarrow> string option" where
  "nonempty s = (case s of None \<Rightarrow> None | Some x \<Rightarrow> if x = [] then None else Some x)"

text \<open>The validated arguments of \<^verbatim>\<open>prepare_effect\<close>: everything it computes before its transaction.\<close>

record prepare_plan =
  pp_adapter :: string
  pp_provider :: string
  pp_operation :: string
  pp_digest :: string
  pp_effect_id :: ident
  pp_provider_key :: string
  pp_context :: json

definition plan_prepare :: "stdlib \<Rightarrow> effect_run_fence \<Rightarrow> prepare_args \<Rightarrow> ledger_error + prepare_plan" where
  "plan_prepare lib f a =
     rbind (valid_arg (bounded_identity (pa_adapter a) 64)) (\<lambda>adapt.
     rbind (valid_arg (bounded_identity (pa_provider a) 64)) (\<lambda>prov.
     rbind (valid_arg (bounded_identity (pa_operation a) 64)) (\<lambda>op.
     rbind (valid_arg (bounded_identity (pa_logical_key a) 512)) (\<lambda>key.
       if f_tenant_id f = [] \<or> f_session_id f = [] \<or> f_run_id f = []
       then Inl (InvalidArgument (InvalidValue ''run fence''))
       else if f_generation f \<le> 0 then Inl (InvalidArgument (InvalidValue ''run generation''))
       else if (pa_request_payload a = PNone) = (pa_request_digest a = None)
       then Inl (InvalidArgument (InvalidValue ''payload or digest''))
       else rbind (case nonempty (pa_request_digest a) of Some d \<Rightarrow> Inr d | None \<Rightarrow> request_hash lib (pa_request_payload a))
         (\<lambda>digest.
           if \<not> is_sha256 digest then Inl (InvalidArgument (InvalidValue ''digest''))
           else
             let eid = stable_effect_id lib (f_tenant_id f) (f_session_id f) adapt op key
             in rbind (valid_arg (validate_idempotency_key
                  (case nonempty (pa_idempotency_key a) of Some k \<Rightarrow> k | None \<Rightarrow> stable_idempotency_key lib eid))) (\<lambda>pkey.
                  Inr \<lparr>pp_adapter = adapt, pp_provider = prov, pp_operation = op, pp_digest = digest,
                       pp_effect_id = eid, pp_provider_key = pkey,
                       pp_context = sanitize_public_evidence lib (PDict (or_dict (pa_safe_context a)))\<rparr>))))))"

definition same_request :: "effect_run_fence \<Rightarrow> prepare_plan \<Rightarrow> resource_fence option \<Rightarrow> ident \<Rightarrow> effect_row \<Rightarrow> bool" where
  "same_request f p res project e \<longleftrightarrow> tenant_id e = f_tenant_id f \<and> session_id e = f_session_id f \<and>
     project_id e \<in> {None, Some project} \<and> adapter e = pp_adapter p \<and> provider e = pp_provider p \<and>
     operation e = pp_operation p \<and> idempotency_key e = pp_provider_key p \<and> request_hash_col e = pp_digest p \<and>
     resource e = res"

definition new_effect ::
  "effect_run_fence \<Rightarrow> prepare_plan \<Rightarrow> resource_fence option \<Rightarrow> ident \<Rightarrow> time \<Rightarrow> effect_row" where
  "new_effect f p res project t = \<lparr>tenant_id = f_tenant_id f,
     project_id = (if project = [] then None else Some project), session_id = f_session_id f,
     run_id = f_run_id f, run_generation = f_generation f, adapter = pp_adapter p, provider = pp_provider p,
     operation = pp_operation p, idempotency_key = pp_provider_key p, request_hash_col = pp_digest p,
     safe_context = pp_context p, resource = res, state = Prepared, attempt_count = 0, reconcile_count = 0,
     claim_generation = 0, claim_kind_col = None, claim_token = None, claim_owner = None, claim_expires_at = None,
     provider_handle = None, provider_receipt = None, projection = None, last_error = None, reconcile_after = None,
     prepared_at = t, submitting_at = None, accepted_at = None, completed_at = None, created_at = t, updated_at = t\<rparr>"

definition resource_admits ::
  "'a resource_ops \<Rightarrow> 'a store \<Rightarrow> time \<Rightarrow> effect_run_fence \<Rightarrow> resource_fence option \<Rightarrow> bool \<Rightarrow> ledger_error + unit" where
  "resource_admits rops s t f res require_open = (case res of
       None \<Rightarrow> Inr ()
     | Some fence \<Rightarrow> rbind (validate_locked rops s t fence (f_tenant_id f) (f_session_id f) require_open) (\<lambda>_. Inr ()))"

definition session_project :: "'a store \<Rightarrow> effect_run_fence \<Rightarrow> ident option" where
  "session_project s f = (case open_session (base s) (f_session_id f) (f_tenant_id f) of
       None \<Rightarrow> None
     | Some ses \<Rightarrow> s_project_id ses)"

definition key_taken :: "'a store \<Rightarrow> effect_row \<Rightarrow> bool" where
  "key_taken s e = list_ex (\<lambda>(k, r). tenant_id r = tenant_id e \<and> adapter r = adapter e \<and>
     idempotency_key r = idempotency_key e) (effects s)"

definition reprepare :: "effect_run_fence \<Rightarrow> json \<Rightarrow> ident \<Rightarrow> time \<Rightarrow> effect_row \<Rightarrow> effect_row" where
  "reprepare f ctx project t e = e\<lparr>run_id := f_run_id f, run_generation := f_generation f,
     project_id := (if project = [] then project_id e else Some project), safe_context := ctx, updated_at := t\<rparr>"

text \<open>The two outcomes of the lookup in \<^verbatim>\<open>prepare_effect\<close>: an existing row, or none.\<close>

definition prepare_existing ::
  "stdlib \<Rightarrow> 'a resource_ops \<Rightarrow> 'a store \<Rightarrow> time \<Rightarrow> effect_run_fence \<Rightarrow> prepare_args \<Rightarrow> prepare_plan \<Rightarrow> ident \<Rightarrow>
     effect_row \<Rightarrow> ledger_error + ('a store \<times> effect_snapshot \<times> bool)" where
  "prepare_existing lib rops s t f a p project e =
     (if \<not> same_request f p (pa_resource_fence a) project e then Inl EffectConflictError
      else rbind (if state e = Prepared then resource_admits rops s t f (pa_resource_fence a) True else Inr ()) (\<lambda>_.
        let e1 = (if project_id e = None then e\<lparr>project_id := Some project\<rparr> else e)
        in if state e1 = Prepared \<and> attempt_count e1 = 0 \<and> claim_token e1 = None \<and>
              (run_id e1 \<noteq> f_run_id f \<or> run_generation e1 \<noteq> f_generation f)
           then let e2 = reprepare f (pp_context p) project t e1
                in rbind (append_evidence lib (pp_effect_id p) e2 ''reprepared''
                       [(''reason'', PStr ''proven_before_dispatch'')] t None (put_effect (pp_effect_id p) e2 s))
                     (\<lambda>s'. Inr (s', snapshot (pp_effect_id p) e2, False))
           else Inr (put_effect (pp_effect_id p) e1 s, snapshot (pp_effect_id p) e1, False)))"

definition prepare_new ::
  "stdlib \<Rightarrow> 'a resource_ops \<Rightarrow> 'a store \<Rightarrow> time \<Rightarrow> effect_run_fence \<Rightarrow> prepare_args \<Rightarrow> prepare_plan \<Rightarrow> ident \<Rightarrow>
     ledger_error + ('a store \<times> effect_snapshot \<times> bool)" where
  "prepare_new lib rops s t f a p project =
     rbind (resource_admits rops s t f (pa_resource_fence a) True) (\<lambda>_.
       let e = new_effect f p (pa_resource_fence a) project t
       in if key_taken s e then Inl IntegrityError
          else rbind (append_evidence lib (pp_effect_id p) e ''prepared''
                 [(''adapter'', PStr (pp_adapter p)), (''provider'', PStr (pp_provider p)),
                  (''operation'', PStr (pp_operation p)), (''request_hash'', PStr (pp_digest p))]
                 t (Some 0) (put_effect (pp_effect_id p) e s))
               (\<lambda>s'. Inr (s', snapshot (pp_effect_id p) e, True)))"

definition prepare_effect ::
  "stdlib \<Rightarrow> 'a resource_ops \<Rightarrow> 'a store \<Rightarrow> time \<Rightarrow> effect_run_fence \<Rightarrow> prepare_args \<Rightarrow>
     ledger_error + ('a store \<times> effect_snapshot \<times> bool)" where
  "prepare_effect lib rops s t f a =
     rbind (plan_prepare lib f a) (\<lambda>p.
     rbind (assert_agent_fence_locked s t f) (\<lambda>_.
     rbind (resource_admits rops s t f (pa_resource_fence a) False) (\<lambda>_.
     case session_project s f of
       None \<Rightarrow> Inl EffectNotDispatchableError
     | Some project \<Rightarrow>
         if pa_project_id a \<notin> {None, Some project} then Inl EffectConflictError
         else case tget (effects s) (pp_effect_id p) of
           Some e \<Rightarrow> prepare_existing lib rops s t f a p project e
         | None \<Rightarrow> prepare_new lib rops s t f a p project)))"

definition get_effect :: "'a store \<Rightarrow> ident \<Rightarrow> ident option \<Rightarrow> effect_snapshot option" where
  "get_effect s eid tenant = (case tget (effects s) eid of
       None \<Rightarrow> None
     | Some e \<Rightarrow> if tenant \<in> {None, Some (tenant_id e)} then Some (snapshot eid e) else None)"

definition list_effect_evidence :: "'a store \<Rightarrow> ident \<Rightarrow> ident option \<Rightarrow> evidence_row list" where
  "list_effect_evidence s eid tenant = (case tget (effects s) eid of
       None \<Rightarrow> []
     | Some e \<Rightarrow>
         if tenant \<in> {None, Some (tenant_id e)}
         then sort_key ev_sequence (filter (\<lambda>r. ev_effect_id r = eid) (evidence_log s)) else [])"

definition take_claim :: "claim_kind \<Rightarrow> string \<Rightarrow> ident \<Rightarrow> time \<Rightarrow> effect_row \<Rightarrow> effect_row" where
  "take_claim kind token owner t e = e\<lparr>claim_generation := claim_generation e + 1, claim_kind_col := Some kind,
     claim_token := Some token, claim_owner := Some owner, claim_expires_at := Some (effect_expiry t), updated_at := t\<rparr>"

definition claim_free :: "time \<Rightarrow> effect_row \<Rightarrow> bool" where
  "claim_free t e \<longleftrightarrow> claim_token e = None \<or> not_after (claim_expires_at e) t"

definition issued_claim :: "ident \<Rightarrow> effect_row \<Rightarrow> claim_kind \<Rightarrow> string \<Rightarrow> ident \<Rightarrow> effect_claim" where
  "issued_claim eid e kind token owner = \<lparr>c_effect_id = eid, c_tenant_id = tenant_id e, c_session_id = session_id e,
     c_run_id = run_id e, c_run_generation = run_generation e, c_kind = kind, c_token = token,
     c_generation = claim_generation e, c_owner_id = owner, c_lease_expires_at = claim_expires_at e\<rparr>"

definition dispatch_claimable :: "effect_run_fence \<Rightarrow> time \<Rightarrow> effect_row \<Rightarrow> bool" where
  "dispatch_claimable f t e \<longleftrightarrow> tenant_id e = f_tenant_id f \<and> session_id e = f_session_id f \<and>
     run_id e = f_run_id f \<and> run_generation e = f_generation f \<and> state e = Prepared \<and>
     attempt_count e < MAX_DISPATCH_ATTEMPTS \<and> claim_free t e"

definition claim_effect_for_dispatch ::
  "stdlib \<Rightarrow> 'a store \<Rightarrow> time \<Rightarrow> string \<Rightarrow> ident \<Rightarrow> effect_run_fence \<Rightarrow> ident \<Rightarrow> ledger_error + ('a store \<times> effect_claim)" where
  "claim_effect_for_dispatch lib s t token eid f owner =
     rbind (assert_agent_fence_locked s t f) (\<lambda>_.
       case update_effect eid (dispatch_claimable f t) (take_claim Dispatch token owner t) s of
         None \<Rightarrow> Inl EffectNotDispatchableError
       | Some (s1, e) \<Rightarrow>
           rbind (append_evidence lib eid e ''claim_acquired''
                    [(''kind'', PStr ''dispatch''), (''owner_digest'', PStr (take 16 (sha256_hex lib owner)))] t None s1)
             (\<lambda>s2. Inr (s2, issued_claim eid e Dispatch token owner)))"

definition guard_resource_dispatch ::
  "'a resource_ops \<Rightarrow> 'a store \<Rightarrow> time \<Rightarrow> effect_claim \<Rightarrow> bool \<Rightarrow> ledger_error + 'a store" where
  "guard_resource_dispatch rops s t c consume = (case tget (effects s) (c_effect_id c) of
       None \<Rightarrow> Inr s
     | Some e \<Rightarrow>
         if resource e = None then Inr s
         else rbind (assert_agent_fence_locked s t (claim_fence c)) (\<lambda>_.
                validate_effect_locked rops s t (c_effect_id c) e consume))"

definition claim_live :: "effect_claim \<Rightarrow> time \<Rightarrow> effect_row \<Rightarrow> bool" where
  "claim_live c t e \<longleftrightarrow> claim_matches c e \<and> after_now (claim_expires_at e) t"

definition submit_row :: "time \<Rightarrow> effect_row \<Rightarrow> effect_row" where
  "submit_row t e = e\<lparr>state := Submitting, attempt_count := attempt_count e + 1, submitting_at := Some t, updated_at := t\<rparr>"

definition mark_effect_submitting ::
  "stdlib \<Rightarrow> 'a resource_ops \<Rightarrow> 'a store \<Rightarrow> time \<Rightarrow> effect_claim \<Rightarrow> ledger_error + 'a store" where
  "mark_effect_submitting lib rops s t c =
     (if c_kind c \<noteq> Dispatch then Inl EffectLeaseLostError
      else rbind (guard_resource_dispatch rops s t c True) (\<lambda>s1.
        case update_effect (c_effect_id c) (\<lambda>e. claim_live c t e \<and> state e = Prepared) (submit_row t) s1 of
          None \<Rightarrow> Inl EffectLeaseLostError
        | Some (s2, e) \<Rightarrow>
            append_evidence lib (c_effect_id c) e ''submitting'' [(''attempt'', PInt (attempt_count e))] t None s2))"

definition abandon_effect_before_dispatch ::
  "stdlib \<Rightarrow> 'a store \<Rightarrow> time \<Rightarrow> effect_claim \<Rightarrow> string \<Rightarrow> ledger_error + 'a store" where
  "abandon_effect_before_dispatch lib s t c reason =
     (case update_effect (c_effect_id c) (\<lambda>e. claim_live c t e \<and> state e = Prepared \<and> attempt_count e = 0)
             (\<lambda>e. (clear_claim e)\<lparr>updated_at := t\<rparr>) s of
        None \<Rightarrow> Inl EffectLeaseLostError
      | Some (s1, e) \<Rightarrow>
          append_evidence lib (c_effect_id c) e ''before_dispatch_abandoned'' [(''reason'', PStr reason)] t
            (Some (c_generation c)) s1)"

definition assert_effect_dispatchable ::
  "'a resource_ops \<Rightarrow> 'a store \<Rightarrow> time \<Rightarrow> effect_claim \<Rightarrow> ledger_error + 'a store" where
  "assert_effect_dispatchable rops s t c =
     (if c_kind c \<noteq> Dispatch then Inl EffectLeaseLostError
      else rbind (assert_agent_fence_locked s t (claim_fence c)) (\<lambda>_.
        rbind (guard_resource_dispatch rops s t c False) (\<lambda>s1.
          case update_effect (c_effect_id c) (\<lambda>e. claim_live c t e \<and> state e = Submitting) (\<lambda>e. e\<lparr>updated_at := t\<rparr>) s1 of
            None \<Rightarrow> Inl EffectLeaseLostError
          | Some (s2, e) \<Rightarrow> Inr s2)))"

definition renew_effect_claim :: "'a store \<Rightarrow> time \<Rightarrow> effect_claim \<Rightarrow> ledger_error + ('a store \<times> effect_claim)" where
  "renew_effect_claim s t c =
     (case update_effect (c_effect_id c) (\<lambda>e. claim_live c t e \<and> state e \<notin> TERMINAL_STATES)
             (\<lambda>e. e\<lparr>claim_expires_at := Some (effect_expiry t), updated_at := t\<rparr>) s of
        None \<Rightarrow> Inl EffectLeaseLostError
      | Some (s1, e) \<Rightarrow> Inr (s1, c\<lparr>c_lease_expires_at := claim_expires_at e\<rparr>))"

definition record_effect_dispatch_progress ::
  "stdlib \<Rightarrow> 'a store \<Rightarrow> time \<Rightarrow> effect_claim \<Rightarrow> string \<Rightarrow> pydict \<Rightarrow> ledger_error + 'a store" where
  "record_effect_dispatch_progress lib s t c ph ev =
     (if c_kind c \<noteq> Dispatch then Inl EffectNotDispatchableError
      else rbind (valid_arg (bounded_identity ph 32)) (\<lambda>ph'.
        let safe = sanitize_public_evidence lib (PDict ev)
        in case update_effect (c_effect_id c) (\<lambda>e. claim_live c t e \<and> state e = Submitting) (\<lambda>e. e\<lparr>updated_at := t\<rparr>) s of
             None \<Rightarrow> Inl EffectLeaseLostError
           | Some (s1, e) \<Rightarrow> append_evidence lib (c_effect_id c) e ph'
               (map (\<lambda>(k, v). (k, of_json v)) (as_dict safe)) t (Some (c_generation c)) s1))"

definition accept_row :: "string option \<Rightarrow> json \<Rightarrow> time \<Rightarrow> effect_row \<Rightarrow> effect_row" where
  "accept_row handle receipt t e = e\<lparr>state := Accepted, provider_handle := handle, provider_receipt := Some receipt,
     accepted_at := Some t, reconcile_after := Some t, updated_at := t\<rparr>"

definition record_effect_accepted ::
  "stdlib \<Rightarrow> 'a store \<Rightarrow> time \<Rightarrow> effect_claim \<Rightarrow> string option \<Rightarrow> pydict \<Rightarrow> ledger_error + ('a store \<times> effect_snapshot)" where
  "record_effect_accepted lib s t c raw_handle receipt =
     rbind (valid_arg (validate_provider_handle raw_handle)) (\<lambda>handle.
       let safe = sanitize_public_evidence lib (PDict receipt)
       in case update_effect (c_effect_id c) (\<lambda>e. claim_live c t e \<and> state e = Submitting) (accept_row handle safe t) s of
            Some (s1, e) \<Rightarrow>
              rbind (append_evidence lib (c_effect_id c) e ''accepted''
                       [(''provider_handle_present'', PBool (handle \<noteq> None)), (''receipt'', of_json safe)] t None s1)
                (\<lambda>s2. Inr (s2, snapshot (c_effect_id c) e))
          | None \<Rightarrow>
              (case tget (effects s) (c_effect_id c) of
                 None \<Rightarrow> Inl EffectLeaseLostError
               | Some e \<Rightarrow>
                   if claim_token e = Some (c_token c) \<and> claim_generation e = c_generation c \<and> state e = Accepted \<and>
                      provider_handle e = handle \<and> provider_receipt e = Some safe
                   then Inr (s, snapshot (c_effect_id c) e) else Inl EffectLeaseLostError))"

text \<open>
  \<^verbatim>\<open>settle_effect\<close>. The projector runs domain code in the same transaction; it may raise (which rolls
  everything back) and may write the product tables, here the database under the ledger.
\<close>

type_synonym 'a projector = "'a db \<Rightarrow> effect_row \<Rightarrow> json \<Rightarrow> ledger_error + 'a db"

definition settle_row :: "effect_state \<Rightarrow> json \<Rightarrow> json option \<Rightarrow> time \<Rightarrow> effect_row \<Rightarrow> effect_row" where
  "settle_row st proj err t e = (clear_claim e)\<lparr>state := st,
     projection := (if st = Succeeded then Some proj else projection e), last_error := err,
     completed_at := Some t, reconcile_after := None, updated_at := t\<rparr>"

definition observed_row :: "json option \<Rightarrow> string option \<Rightarrow> effect_row \<Rightarrow> effect_row" where
  "observed_row receipt handle e =
     (let e1 = (case receipt of None \<Rightarrow> e | Some r \<Rightarrow> e\<lparr>provider_receipt := Some r\<rparr>)
      in case handle of None \<Rightarrow> e1 | Some h \<Rightarrow> e1\<lparr>provider_handle := Some h\<rparr>)"

definition state_name :: "effect_state \<Rightarrow> string" where
  "state_name st = (case st of Prepared \<Rightarrow> ''prepared'' | Submitting \<Rightarrow> ''submitting'' | Accepted \<Rightarrow> ''accepted''
     | Succeeded \<Rightarrow> ''succeeded'' | Failed \<Rightarrow> ''failed'' | OutcomeUnknown \<Rightarrow> ''outcome_unknown''
     | ManualReview \<Rightarrow> ''manual_review'')"

text \<open>\<^verbatim>\<open>{**first, "k": v, ...}\<close>: later keys win.\<close>

definition merged :: "pydict \<Rightarrow> pydict \<Rightarrow> pydict" where
  "merged first later = fold (\<lambda>(k, v). tput k v) later first"

definition opt_json :: "json option \<Rightarrow> pyval" where
  "opt_json j = (case j of None \<Rightarrow> PNone | Some v \<Rightarrow> of_json v)"

definition invoke_projection :: "'a projector option \<Rightarrow> effect_row \<Rightarrow> json \<Rightarrow> 'a store \<Rightarrow> ledger_error + 'a store" where
  "invoke_projection projector e proj s = (case projector of
       None \<Rightarrow> Inr s
     | Some p \<Rightarrow> rbind (p (base s) e proj) (\<lambda>b. Inr (s\<lparr>base := b\<rparr>)))"

definition settle_effect ::
  "stdlib \<Rightarrow> 'a store \<Rightarrow> time \<Rightarrow> effect_claim \<Rightarrow> effect_state \<Rightarrow> pydict option \<Rightarrow> error_value option \<Rightarrow>
     string option \<Rightarrow> pydict option \<Rightarrow> pydict option \<Rightarrow> 'a projector option \<Rightarrow> ledger_error + ('a store \<times> effect_snapshot)" where
  "settle_effect lib s t c st proj err raw_handle receipt ev projector =
     (if c_kind c = Reconcile \<and> projector \<noteq> None then Inl EffectNotDispatchableError
      else
        let safe_projection = sanitize_public_evidence lib (PDict (or_dict proj));
            safe_err = map_option (safe_error lib) err;
            safe_receipt = map_option (\<lambda>r. sanitize_public_evidence lib (PDict r)) receipt
        in rbind (valid_arg (validate_provider_handle raw_handle)) (\<lambda>handle.
           rbind (if c_kind c = Dispatch then assert_agent_fence_locked s t (claim_fence c) else Inr ()) (\<lambda>_.
             case update_effect (c_effect_id c) (\<lambda>e. claim_live c t e \<and> state e \<notin> TERMINAL_STATES)
                    (observed_row safe_receipt handle) s of
               None \<Rightarrow> Inl EffectLeaseLostError
             | Some (s1, e1) \<Rightarrow>
                 rbind (invoke_projection projector e1 safe_projection s1) (\<lambda>s2.
                   let e2 = settle_row st safe_projection safe_err t e1
                   in rbind (append_evidence lib (c_effect_id c) e2 (state_name st)
                          (merged (or_dict ev)
                             [(''projection'', if st = Succeeded then of_json safe_projection else PDict []),
                              (''error'', opt_json safe_err)]) t (Some (c_generation c)) (put_effect (c_effect_id c) e2 s2))
                        (\<lambda>s3. Inr (s3, snapshot (c_effect_id c) e2))))))"

definition record_effect_outcome_unknown ::
  "stdlib \<Rightarrow> 'a store \<Rightarrow> time \<Rightarrow> effect_claim \<Rightarrow> error_value \<Rightarrow> string option \<Rightarrow> pydict option \<Rightarrow>
     ledger_error + ('a store \<times> effect_snapshot)" where
  "record_effect_outcome_unknown lib s t c err raw_handle receipt =
     rbind (valid_arg (validate_provider_handle raw_handle)) (\<lambda>handle.
       let safe_receipt = map_option (\<lambda>r. sanitize_public_evidence lib (PDict r)) receipt;
           safe_err = safe_error lib err
       in case update_effect (c_effect_id c) (\<lambda>e. claim_live c t e \<and> state e \<in> {Submitting, Accepted})
                 (\<lambda>e. observed_row safe_receipt handle ((clear_claim e)\<lparr>state := OutcomeUnknown,
                        last_error := Some safe_err, reconcile_after := Some t, updated_at := t\<rparr>)) s of
            None \<Rightarrow> Inl EffectLeaseLostError
          | Some (s1, e) \<Rightarrow>
              rbind (append_evidence lib (c_effect_id c) e ''outcome_unknown''
                       [(''provider_handle_present'', PBool (handle \<noteq> None)), (''error'', of_json safe_err)] t
                       (Some (c_generation c)) s1)
                (\<lambda>s2. Inr (s2, snapshot (c_effect_id c) e)))"

section \<open>Release by the owner\<close>

definition OWNER_ACKNOWLEDGEABLE_ADAPTERS :: "string list" where
  "OWNER_ACKNOWLEDGEABLE_ADAPTERS = [''sandbox_tool'', ''sandbox_preparation'', ''sandbox_runtime'', ''computer'']"

definition acknowledgeable :: "ident \<Rightarrow> ident list \<Rightarrow> effect_row \<Rightarrow> bool" where
  "acknowledgeable tenant sids e \<longleftrightarrow> tenant_id e = tenant \<and> session_id e \<in> set sids \<and> state e = ManualReview \<and>
     adapter e \<in> set OWNER_ACKNOWLEDGEABLE_ADAPTERS"

definition acknowledged_row :: "time \<Rightarrow> effect_row \<Rightarrow> effect_row" where
  "acknowledged_row t e = e\<lparr>state := Failed, last_error := Some (JDict [(''code'', JStr ''acknowledged_unverified'')]),
     reconcile_after := None, updated_at := t\<rparr>"

definition acknowledge_one ::
  "stdlib \<Rightarrow> time \<Rightarrow> ident \<Rightarrow> ident \<Rightarrow> ident \<Rightarrow> effect_row \<Rightarrow> 'a store \<Rightarrow> ledger_error + 'a store" where
  "acknowledge_one lib t user command eid e s =
     append_evidence lib eid (acknowledged_row t e) ''acknowledged''
       [(''previous_state'', PStr ''manual_review''), (''previous_error'', of_json (or_empty (last_error e))),
        (''actor_user_id'', PStr user), (''command_id'', PStr command), (''outcome_verified'', PBool False)] t None
       (put_effect eid (acknowledged_row t e) s)"

fun acknowledge_all ::
  "stdlib \<Rightarrow> time \<Rightarrow> ident \<Rightarrow> ident \<Rightarrow> (ident \<times> effect_row) list \<Rightarrow> 'a store \<Rightarrow> ledger_error + 'a store" where
  "acknowledge_all lib t user command [] s = Inr s"
| "acknowledge_all lib t user command ((eid, e) # rows) s =
     rbind (acknowledge_one lib t user command eid e s) (acknowledge_all lib t user command rows)"

definition acknowledge_parked_effects_locked ::
  "stdlib \<Rightarrow> 'a store \<Rightarrow> time \<Rightarrow> ident \<Rightarrow> ident list \<Rightarrow> ident \<Rightarrow> ident \<Rightarrow> int \<Rightarrow> ledger_error + ('a store \<times> ident list)" where
  "acknowledge_parked_effects_locked lib s t tenant sids user command limit =
     (if sids = [] then Inr (s, [])
      else
        let rows = take (nat (max 1 limit)) (sort_key (created_at \<circ> snd) (sort_key fst
                     (filter (\<lambda>(k, e). acknowledgeable tenant sids e) (effects s))))
        in rbind (acknowledge_all lib t user command rows s) (\<lambda>s'. Inr (s', map fst rows)))"

section \<open>Recovery\<close>

definition origin_run_is_live :: "'a store \<Rightarrow> time \<Rightarrow> effect_row \<Rightarrow> bool" where
  "origin_run_is_live s t e = (case tget (drivers (base s)) (session_id e) of
       None \<Rightarrow> False
     | Some d \<Rightarrow> d_user_id d = tenant_id e \<and> d_run_id d = Some (run_id e) \<and> d_generation d = run_generation e \<and>
         d_phase d \<noteq> Idle \<and> after_now (d_lease_expires_at d) t)"

definition reconcilable :: "'a store \<Rightarrow> time \<Rightarrow> effect_row \<Rightarrow> bool" where
  "reconcilable s t e \<longleftrightarrow> state e \<notin> TERMINAL_STATES \<and>
     \<not> (claim_token e \<noteq> None \<and> after_now (claim_expires_at e) t) \<and>
     \<not> after_now (reconcile_after e) t \<and> \<not> origin_run_is_live s t e \<and>
     (if state e = Prepared then prepared_at e \<le> t - seconds PREPARED_RECOVERY_GRACE_SECONDS
      else state e \<in> RECONCILE_STATES)"

definition reconcile_claim_row :: "string \<Rightarrow> ident \<Rightarrow> time \<Rightarrow> effect_row \<Rightarrow> effect_row" where
  "reconcile_claim_row token owner t e = (take_claim Reconcile token owner t e)\<lparr>reconcile_count := reconcile_count e + 1\<rparr>"

definition claim_for_reconcile ::
  "stdlib \<Rightarrow> 'a store \<Rightarrow> time \<Rightarrow> string \<Rightarrow> ident \<Rightarrow> ident \<Rightarrow> ledger_error + ('a store \<times> effect_claim) option" where
  "claim_for_reconcile lib s t token owner eid =
     (case update_effect eid (\<lambda>e. reconcilable s t e \<and> claim_free t e) (reconcile_claim_row token owner t) s of
        None \<Rightarrow> Inr None
      | Some (s1, e) \<Rightarrow>
          rbind (append_evidence lib eid e ''reconcile_claimed'' [(''attempt'', PInt (reconcile_count e))] t None s1)
            (\<lambda>s2. Inr (Some (s2, issued_claim eid e Reconcile token owner))))"

definition defer_state :: "reconcile_decision option \<Rightarrow> effect_state" where
  "defer_state d = (case d of None \<Rightarrow> OutcomeUnknown
     | Some x \<Rightarrow> (case de_state x of DAccepted \<Rightarrow> Accepted | _ \<Rightarrow> OutcomeUnknown))"

definition defer_delay :: "reconcile_decision option \<Rightarrow> int" where
  "defer_delay d = max 1 (min 3600 (case d of None \<Rightarrow> RECONCILE_RETRY_SECONDS | Some x \<Rightarrow> de_retry_after_seconds x))"

definition defer_row ::
  "effect_state \<Rightarrow> json option \<Rightarrow> time \<Rightarrow> int \<Rightarrow> json option \<Rightarrow> string option \<Rightarrow> effect_row \<Rightarrow> effect_row" where
  "defer_row st err t delay receipt handle e = observed_row receipt handle ((clear_claim e)\<lparr>state := st,
     last_error := err, reconcile_after := Some (t + seconds delay), updated_at := t\<rparr>)"

definition defer_reconcile ::
  "stdlib \<Rightarrow> 'a store \<Rightarrow> time \<Rightarrow> effect_claim \<Rightarrow> reconcile_decision option \<Rightarrow> error_value option \<Rightarrow>
     ledger_error + ('a store \<times> effect_snapshot)" where
  "defer_reconcile lib s t c d err =
     (let safe_err = map_option (safe_error lib) err;
          safe_receipt = map_option (\<lambda>r. sanitize_public_evidence lib (PDict r)) (Option.bind d de_receipt)
      in rbind (valid_arg (validate_provider_handle (Option.bind d de_provider_handle))) (\<lambda>handle.
           case update_effect (c_effect_id c) (claim_live c t)
                  (defer_row (defer_state d) safe_err t (defer_delay d) safe_receipt handle) s of
             None \<Rightarrow> Inl EffectLeaseLostError
           | Some (s1, e) \<Rightarrow>
               rbind (append_evidence lib (c_effect_id c) e ''reconcile_deferred''
                        (merged [(''state'', PStr (state_name (defer_state d))), (''error'', opt_json safe_err)]
                           (or_dict (Option.bind d de_evidence))) t (Some (c_generation c)) s1)
                 (\<lambda>s2. Inr (s2, snapshot (c_effect_id c) e))))"

datatype outcome = Stale | Reconciled | Deferred | ParkedForReview | FailedBeforeDispatch

text \<open>
  The part of \<^verbatim>\<open>recover_effect_once\<close> after the claim: what is decided from the snapshot and the
  reconciler's reply (a timeout is a raised \<^verbatim>\<open>TimeoutError\<close>), settled at instant \<open>t\<close>.
\<close>

definition code_error :: "string \<Rightarrow> pydict \<Rightarrow> error_value option" where
  "code_error code extra = Some (ErrValue (PDict ((''code'', PStr code) # extra)))"

definition evidence_or :: "pydict option \<Rightarrow> string \<Rightarrow> error_value option" where
  "evidence_or ev code = (case ev of
       None \<Rightarrow> code_error code []
     | Some kvs \<Rightarrow> if kvs = [] then code_error code [] else Some (ErrValue (PDict kvs)))"

definition settle_as ::
  "outcome \<Rightarrow> ledger_error + ('a store \<times> effect_snapshot) \<Rightarrow> ledger_error + ('a store \<times> outcome)" where
  "settle_as out r = rbind r (\<lambda>(s, sn). Inr (s, out))"

definition park :: "stdlib \<Rightarrow> 'a store \<Rightarrow> time \<Rightarrow> effect_claim \<Rightarrow> error_value option \<Rightarrow> ledger_error + ('a store \<times> outcome)" where
  "park lib s t c err = settle_as ParkedForReview (settle_effect lib s t c ManualReview None err None None None None)"

definition apply_decision ::
  "stdlib \<Rightarrow> 'a store \<Rightarrow> time \<Rightarrow> effect_claim \<Rightarrow> reconcile_decision \<Rightarrow> ledger_error + ('a store \<times> outcome)" where
  "apply_decision lib s t c d = (case de_state d of
       DSucceeded \<Rightarrow> settle_as Reconciled (settle_effect lib s t c Succeeded (de_projection d) None
                        (de_provider_handle d) (de_receipt d) (de_evidence d) None)
     | DFailed \<Rightarrow> settle_as Reconciled (settle_effect lib s t c Failed None (evidence_or (de_evidence d) ''provider_failed'')
                        (de_provider_handle d) (de_receipt d) None None)
     | DManualReview \<Rightarrow> settle_as ParkedForReview (settle_effect lib s t c ManualReview None
                        (evidence_or (de_evidence d) ''manual_review_required'')
                        (de_provider_handle d) (de_receipt d) None None)
     | _ \<Rightarrow> settle_as Deferred (defer_reconcile lib s t c (Some d) None))"

definition reconcile_claimed ::
  "stdlib \<Rightarrow> (string, reconciler) table \<Rightarrow> 'a store \<Rightarrow> time \<Rightarrow> effect_claim \<Rightarrow> ledger_error + ('a store \<times> outcome)" where
  "reconcile_claimed lib reg s t c = (case get_effect s (c_effect_id c) (Some (c_tenant_id c)) of
       None \<Rightarrow> Inr (s, Stale)
     | Some sn \<Rightarrow>
         if sn_state sn = Prepared
         then settle_as FailedBeforeDispatch (settle_effect lib s t c Failed None
                (code_error ''abandoned_before_dispatch'' []) None None (Some [(''provider_called'', PBool False)]) None)
         else if sn_reconcile_count sn > MAX_RECONCILE_ATTEMPTS
         then park lib s t c (code_error ''reconcile_attempts_exhausted'' [])
         else case tget reg (sn_adapter sn) of
           None \<Rightarrow> park lib s t c (code_error ''reconciler_unavailable'' [(''adapter'', PStr (sn_adapter sn))])
         | Some rc \<Rightarrow>
             if nonempty (sn_provider_handle sn) = None \<and> \<not> rc_without_handle rc
             then park lib s t c (code_error ''provider_receipt_unavailable'' [])
             else case rc_reconcile rc sn of
               Raised n \<Rightarrow>
                 if sn_reconcile_count sn \<ge> MAX_RECONCILE_ATTEMPTS
                 then park lib s t c (code_error ''reconcile_failed'' [(''error_type'', PStr n)])
                 else settle_as Deferred (defer_reconcile lib s t c None (Some (ErrException n)))
             | Decided d \<Rightarrow> apply_decision lib s t c d)"

text \<open>
  A whole pass on one effect: the claim commits at \<open>t1\<close>; an exception of the settlement at \<open>t2\<close>
  leaves that claim behind. The result is the store left, and what was returned or raised.
\<close>

definition recover_effect_once ::
  "stdlib \<Rightarrow> (string, reconciler) table \<Rightarrow> 'a store \<Rightarrow> time \<Rightarrow> time \<Rightarrow> string \<Rightarrow> ident \<Rightarrow> ident \<Rightarrow>
     'a store \<times> (ledger_error + outcome)" where
  "recover_effect_once lib reg s t1 t2 token owner eid = (case claim_for_reconcile lib s t1 token owner eid of
       Inl err \<Rightarrow> (s, Inl err)
     | Inr None \<Rightarrow> (s, Inr Stale)
     | Inr (Some (s1, c)) \<Rightarrow>
         (case reconcile_claimed lib reg s1 t2 c of
            Inl err \<Rightarrow> (s1, Inl err)
          | Inr (s2, out) \<Rightarrow> (s2, Inr out)))"

definition recovery_candidate :: "time \<Rightarrow> effect_row \<Rightarrow> bool" where
  "recovery_candidate t e \<longleftrightarrow> state e \<notin> TERMINAL_STATES \<and> claim_free t e \<and>
     (reconcile_after e = None \<or> not_after (reconcile_after e) t) \<and>
     (state e \<noteq> Prepared \<or> prepared_at e \<le> t - seconds PREPARED_RECOVERY_GRACE_SECONDS)"

definition recovery_batch :: "'a store \<Rightarrow> time \<Rightarrow> int \<Rightarrow> ident list" where
  "recovery_batch s t limit = take (nat (max 1 (min limit RECOVERY_BATCH_SIZE)))
     (map fst (sort_key (updated_at \<circ> snd) (sort_key fst (filter (\<lambda>(k, e). recovery_candidate t e) (effects s)))))"

record recovery_result =
  scanned :: nat
  reconciled :: nat
  deferred :: nat
  manual_review :: nat
  failed_before_dispatch :: nat
  stale_skips :: nat

definition count_outcome :: "outcome \<Rightarrow> recovery_result \<Rightarrow> recovery_result" where
  "count_outcome out r = (case out of
       Stale \<Rightarrow> r\<lparr>stale_skips := Suc (stale_skips r)\<rparr>
     | Reconciled \<Rightarrow> r\<lparr>reconciled := Suc (reconciled r)\<rparr>
     | Deferred \<Rightarrow> r\<lparr>deferred := Suc (deferred r)\<rparr>
     | ParkedForReview \<Rightarrow> r\<lparr>manual_review := Suc (manual_review r)\<rparr>
     | FailedBeforeDispatch \<Rightarrow> r\<lparr>failed_before_dispatch := Suc (failed_before_dispatch r)\<rparr>)"

text \<open>The loop over the batch; \<open>clk eid\<close> gives the two instants and the token of each candidate.\<close>

fun recover_batch ::
  "stdlib \<Rightarrow> (string, reconciler) table \<Rightarrow> ident \<Rightarrow> (ident \<Rightarrow> time \<times> time \<times> string) \<Rightarrow> ident list \<Rightarrow>
     'a store \<Rightarrow> recovery_result \<Rightarrow> 'a store \<times> recovery_result" where
  "recover_batch lib reg owner clk [] s r = (s, r)"
| "recover_batch lib reg owner clk (eid # rest) s r =
     (let (t1, t2, token) = clk eid;
          (s', res) = recover_effect_once lib reg s t1 t2 token owner eid
      in recover_batch lib reg owner clk rest s' (count_outcome (case res of Inl err \<Rightarrow> Stale | Inr out \<Rightarrow> out) r))"

definition recover_external_effects_once ::
  "stdlib \<Rightarrow> (string, reconciler) table \<Rightarrow> 'a store \<Rightarrow> time \<Rightarrow> ident \<Rightarrow> (ident \<Rightarrow> time \<times> time \<times> string) \<Rightarrow> int \<Rightarrow>
     'a store \<times> recovery_result" where
  "recover_external_effects_once lib reg s t owner clk limit =
     (let batch = recovery_batch s t limit
      in recover_batch lib reg owner clk batch s \<lparr>scanned = length batch, reconciled = 0, deferred = 0,
           manual_review = 0, failed_before_dispatch = 0, stale_skips = 0\<rparr>)"

end
