(* ===== verification/Effect_Invariants.thy ===== *)
theory Effect_Invariants
  imports Effect_Ledger
begin

text \<open>
  What the operations of \<^verbatim>\<open>agent/effect_ledger.py\<close> keep true. \<open>effect_ok\<close> is the row invariant (the
  CHECK constraints of the table and what the protocol adds), \<open>evolves\<close> how a row may change over
  any number of transactions, and \<open>ledger_change\<close> their lifting to a store with its append-only
  evidence. Each operation is a composition of the primitive changes below.
\<close>

section \<open>Rows\<close>

definition effect_ok :: "effect_row \<Rightarrow> bool" where
  "effect_ok e \<longleftrightarrow>
     (claim_token e = None \<longleftrightarrow> claim_kind_col e = None) \<and> (claim_token e = None \<longleftrightarrow> claim_owner e = None) \<and>
     (claim_token e = None \<longleftrightarrow> claim_expires_at e = None) \<and>
     (state e \<in> TERMINAL_STATES \<longrightarrow> claim_token e = None) \<and>
     (state e = Prepared \<longrightarrow> attempt_count e = 0 \<and> submitting_at e = None) \<and>
     (state e \<in> RECONCILE_STATES \<longrightarrow> attempt_count e = 1 \<and> submitting_at e \<noteq> None) \<and>
     0 \<le> attempt_count e \<and> attempt_count e \<le> 1 \<and> 0 \<le> claim_generation e \<and> 0 \<le> reconcile_count e \<and>
     0 < run_generation e \<and> is_sha256 (request_hash_col e)"

definition same_identity :: "effect_row \<Rightarrow> effect_row \<Rightarrow> bool" where
  "same_identity e e' \<longleftrightarrow> tenant_id e' = tenant_id e \<and> session_id e' = session_id e \<and> adapter e' = adapter e \<and>
     provider e' = provider e \<and> operation e' = operation e \<and> idempotency_key e' = idempotency_key e \<and>
     request_hash_col e' = request_hash_col e \<and> resource e' = resource e \<and> prepared_at e' = prepared_at e"

definition counters_grow :: "effect_row \<Rightarrow> effect_row \<Rightarrow> bool" where
  "counters_grow e e' \<longleftrightarrow> claim_generation e \<le> claim_generation e' \<and> attempt_count e \<le> attempt_count e' \<and>
     reconcile_count e \<le> reconcile_count e' \<and>
     (claim_generation e' = claim_generation e \<longrightarrow> claim_token e' = claim_token e \<or> claim_token e' = None)"

text \<open>Past the send boundary the row is bound to its origin, and no new dispatch claim appears.\<close>

definition origin_bound :: "effect_row \<Rightarrow> effect_row \<Rightarrow> bool" where
  "origin_bound e e' \<longleftrightarrow> (state e \<noteq> Prepared \<longrightarrow> state e' \<noteq> Prepared \<and> run_id e' = run_id e \<and>
     run_generation e' = run_generation e \<and> submitting_at e' = submitting_at e \<and> attempt_count e' = attempt_count e \<and>
     (claim_kind_col e' = Some Dispatch \<longrightarrow> claim_kind_col e = Some Dispatch \<and>
        claim_generation e' = claim_generation e \<and> claim_token e' = claim_token e \<and> claim_owner e' = claim_owner e))"

definition settled_for_good :: "effect_row \<Rightarrow> effect_row \<Rightarrow> bool" where
  "settled_for_good e e' \<longleftrightarrow> (state e \<in> TERMINAL_STATES \<longrightarrow>
     (state e' = state e \<or> state e = ManualReview \<and> state e' = Failed) \<and>
     claim_token e' = None \<and> claim_generation e' = claim_generation e \<and> projection e' = projection e \<and>
     provider_handle e' = provider_handle e \<and> provider_receipt e' = provider_receipt e \<and>
     completed_at e' = completed_at e \<and> reconcile_count e' = reconcile_count e)"

definition evolves :: "effect_row \<Rightarrow> effect_row \<Rightarrow> bool" where
  "evolves e e' \<longleftrightarrow> same_identity e e' \<and> counters_grow e e' \<and> origin_bound e e' \<and> settled_for_good e e'"

lemmas evolves_defs = evolves_def same_identity_def counters_grow_def origin_bound_def settled_for_good_def

lemma evolves_refl [simp]: "effect_ok e \<Longrightarrow> evolves e e"
  by (auto simp: evolves_defs effect_ok_def)

lemma same_identity_trans: "same_identity e e' \<Longrightarrow> same_identity e' e'' \<Longrightarrow> same_identity e e''"
  by (simp add: same_identity_def)

lemma counters_grow_trans: "counters_grow e e' \<Longrightarrow> counters_grow e' e'' \<Longrightarrow> counters_grow e e''"
  by (auto simp: counters_grow_def)

lemma origin_bound_trans: "origin_bound e e' \<Longrightarrow> origin_bound e' e'' \<Longrightarrow> origin_bound e e''"
  by (simp add: origin_bound_def)

lemma settled_for_good_trans: "settled_for_good e e' \<Longrightarrow> settled_for_good e' e'' \<Longrightarrow> settled_for_good e e''"
  unfolding settled_for_good_def by (cases "state e"; cases "state e'"; simp)

lemma evolves_trans: "evolves e e' \<Longrightarrow> evolves e' e'' \<Longrightarrow> evolves e e''"
  unfolding evolves_def
  by (blast intro: same_identity_trans counters_grow_trans origin_bound_trans settled_for_good_trans)

section \<open>Stores\<close>

definition effect_change :: "effect_row option \<Rightarrow> effect_row option \<Rightarrow> bool" where
  "effect_change o1 o2 = (case o1 of
       None \<Rightarrow> (case o2 of None \<Rightarrow> True | Some e' \<Rightarrow> effect_ok e')
     | Some e \<Rightarrow> effect_ok e \<longrightarrow> (\<exists>e'. o2 = Some e' \<and> effect_ok e' \<and> evolves e e'))"

lemma effect_change_refl: "effect_change x x \<longleftrightarrow> True" if "\<And>e. x = Some e \<Longrightarrow> effect_ok e"
  using that by (auto simp: effect_change_def split: option.split)

lemma effect_change_trans: "effect_change x y \<Longrightarrow> effect_change y z \<Longrightarrow> effect_change x z"
  by (auto simp: effect_change_def split: option.splits intro: evolves_trans)

definition sequence_of :: "ident \<Rightarrow> evidence_row list \<Rightarrow> int list" where
  "sequence_of eid log = map ev_sequence (filter (\<lambda>r. ev_effect_id r = eid) log)"

text \<open>Per effect, the sequence numbers are 1, 2, 3, ... in insertion order.\<close>

definition log_ok :: "evidence_row list \<Rightarrow> bool" where
  "log_ok log \<longleftrightarrow> (\<forall>eid. sequence_of eid log = [1..int (length (sequence_of eid log))]) \<and>
     (\<forall>r \<in> set log. safe_json 8 (ev_evidence r))"

definition store_ok :: "'a store \<Rightarrow> bool" where
  "store_ok s \<longleftrightarrow> twf (effects s) \<and> (\<forall>eid e. tget (effects s) eid = Some e \<longrightarrow> effect_ok e) \<and> log_ok (evidence_log s)"

definition ledger_change :: "'a store \<Rightarrow> 'a store \<Rightarrow> bool" where
  "ledger_change s s' \<longleftrightarrow> (store_ok s \<longrightarrow> store_ok s' \<and>
     (\<forall>eid. effect_change (tget (effects s) eid) (tget (effects s') eid)) \<and>
     (\<exists>xs. evidence_log s' = evidence_log s @ xs))"

lemma ledger_change_same:
  "effects s' = effects s \<Longrightarrow> evidence_log s' = evidence_log s \<Longrightarrow> ledger_change s s'"
  by (auto simp: ledger_change_def store_ok_def intro!: effect_change_refl [THEN iffD2])

lemma ledger_change_refl [simp]: "ledger_change s s"
  by (simp add: ledger_change_same)

lemma ledger_change_trans [trans]: "ledger_change s s1 \<Longrightarrow> ledger_change s1 s2 \<Longrightarrow> ledger_change s s2"
  unfolding ledger_change_def by (auto intro: effect_change_trans)

lemma ledger_change_put:
  assumes "store_ok s \<Longrightarrow> effect_change (tget (effects s) eid) (Some e)"
    and "store_ok s \<Longrightarrow> effect_ok e"
  shows "ledger_change s (put_effect eid e s)"
  using assms unfolding ledger_change_def store_ok_def put_effect_def
  by (auto simp: tget_tput twf_tput effect_change_refl)

lemma update_effect_eq:
  "update_effect eid P f s = Some (s', e') \<longleftrightarrow>
     (\<exists>e. tget (effects s) eid = Some e \<and> P e \<and> e' = f e \<and> s' = put_effect eid e' s)"
  by (auto simp: update_effect_def split: option.splits if_splits)

lemma update_effect_None:
  "update_effect eid P f s = None \<longleftrightarrow> (\<forall>e. tget (effects s) eid = Some e \<longrightarrow> \<not> P e)"
  by (auto simp: update_effect_def split: option.splits if_splits)

definition safe_update :: "(effect_row \<Rightarrow> bool) \<Rightarrow> (effect_row \<Rightarrow> effect_row) \<Rightarrow> bool" where
  "safe_update P f \<longleftrightarrow> (\<forall>e. P e \<longrightarrow> effect_ok e \<longrightarrow> effect_ok (f e) \<and> evolves e (f e))"

lemma ledger_change_update:
  assumes "update_effect eid P f s = Some (s', e')" and "safe_update P f"
  shows "ledger_change s s'"
proof -
  from assms(1) obtain e where e: "tget (effects s) eid = Some e" "P e" "e' = f e" "s' = put_effect eid e' s"
    by (auto simp: update_effect_eq)
  with assms(2) show ?thesis
    by (auto simp: safe_update_def store_ok_def effect_change_def intro!: ledger_change_put)
qed

text \<open>The next evidence row of an effect carries the next sequence number.\<close>

lemma fold_max_upto: "fold max [1..int n] (0 :: int) = int n"
proof (induction n)
  case (Suc n)
  have "[1..int (Suc n)] = [1..int n] @ [int (Suc n)]" by (simp add: upto_rec2)
  with Suc show ?case by simp
qed simp

lemma evidence_safe: "safe_json 8 (sanitize_public_evidence lib v)"
proof -
  have d: "Suc (Suc MAX_SAFE_DEPTH) = 8" by (simp add: MAX_SAFE_DEPTH_def)
  show ?thesis using safe_public_evidence [of lib v] unfolding d .
qed

lemma log_ok_append:
  assumes "log_ok log" and "ev_sequence r = fold max (sequence_of (ev_effect_id r) log) 0 + 1"
    and "safe_json 8 (ev_evidence r)"
  shows "log_ok (log @ [r])"
proof -
  have "sequence_of eid (log @ [r]) = [1..int (length (sequence_of eid (log @ [r])))]" for eid
  proof (cases "ev_effect_id r = eid")
    case False
    then have "sequence_of eid (log @ [r]) = sequence_of eid log" by (simp add: sequence_of_def)
    with assms(1) show ?thesis by (simp add: log_ok_def)
  next
    case True
    let ?n = "length (sequence_of eid log)"
    from assms(1) have e: "sequence_of eid log = [1..int ?n]" by (simp only: log_ok_def)
    then have "fold max (sequence_of eid log) 0 = int ?n" by (metis fold_max_upto)
    with True assms(2) have "sequence_of eid (log @ [r]) = sequence_of eid log @ [int ?n + 1]"
      by (simp add: sequence_of_def)
    moreover have "[1..int ?n + 1] = [1..int ?n] @ [int ?n + 1]" by (simp add: upto_rec2)
    ultimately show ?thesis using e by (simp add: add.commute)
  qed
  with assms(1,3) show ?thesis by (auto simp: log_ok_def)
qed

lemma append_evidence_Inr:
  assumes "append_evidence lib eid e ph ev t g s = Inr s'"
  shows "effects s' = effects s" and "base s' = base s" and "resources s' = resources s" and "desktops s' = desktops s"
    and "ledger_change s s'"
proof -
  from assms obtain r where s': "s' = s\<lparr>evidence_log := evidence_log s @ [r]\<rparr>" and
    r: "ev_sequence r = fold max (sequence_of (ev_effect_id r) (evidence_log s)) 0 + 1" "safe_json 8 (ev_evidence r)"
    by (auto simp: append_evidence_def rbind_Inr_iff Let_def sequence_of_def evidence_safe)
  then show "effects s' = effects s" "base s' = base s" "resources s' = resources s" "desktops s' = desktops s"
    by simp_all
  show "ledger_change s s'"
    using log_ok_append [OF _ r] by (auto simp: s' ledger_change_def store_ok_def intro!: effect_change_refl [THEN iffD2])
qed

section \<open>Operations\<close>

lemmas effect_rows = effect_ok_def evolves_defs claim_live_def claim_matches_def reconcile_iff

lemma safe_updateI: "(\<And>e. P e \<Longrightarrow> effect_ok e \<Longrightarrow> effect_ok (f e) \<and> evolves e (f e)) \<Longrightarrow> safe_update P f"
  by (simp add: safe_update_def)

lemma safe_touch: "safe_update P (\<lambda>e. e\<lparr>updated_at := t\<rparr>)"
  by (rule safe_updateI) (auto simp: effect_rows)

lemma safe_take_claim: "safe_update (dispatch_claimable f t) (take_claim Dispatch token owner t)"
  by (rule safe_updateI) (auto simp: effect_rows dispatch_claimable_def take_claim_def)

lemma safe_submit: "safe_update (\<lambda>e. claim_live c t e \<and> state e = Prepared) (submit_row t)"
  by (rule safe_updateI) (auto simp: effect_rows submit_row_def)

lemma safe_abandon:
  "safe_update (\<lambda>e. claim_live c t e \<and> state e = Prepared \<and> attempt_count e = 0) (\<lambda>e. (clear_claim e)\<lparr>updated_at := t\<rparr>)"
  by (rule safe_updateI) (auto simp: effect_rows clear_claim_def)

lemma safe_renew:
  "safe_update (\<lambda>e. claim_live c t e \<and> state e \<notin> TERMINAL_STATES)
     (\<lambda>e. e\<lparr>claim_expires_at := Some x, updated_at := t\<rparr>)"
  by (rule safe_updateI) (auto simp: effect_rows)

lemma safe_accept: "safe_update (\<lambda>e. claim_live c t e \<and> state e = Submitting) (accept_row h r t)"
  by (rule safe_updateI) (auto simp: effect_rows accept_row_def)

lemma observed_row_cases:
  obtains r h where "observed_row receipt handle e = e\<lparr>provider_receipt := r, provider_handle := h\<rparr>"
proof -
  have "\<exists>r h. observed_row receipt handle e = e\<lparr>provider_receipt := r, provider_handle := h\<rparr>"
    by (cases receipt; cases handle; cases e) (auto simp: observed_row_def)
  with that show ?thesis by blast
qed

lemma safe_observed:
  "safe_update (\<lambda>e. claim_live c t e \<and> state e \<notin> TERMINAL_STATES) (observed_row receipt handle)"
proof (rule safe_updateI)
  fix e assume "claim_live c t e \<and> state e \<notin> TERMINAL_STATES" "effect_ok e"
  then show "effect_ok (observed_row receipt handle e) \<and> evolves e (observed_row receipt handle e)"
    by (rule_tac observed_row_cases [of receipt handle e]) (auto simp: effect_rows)
qed

lemma safe_unknown:
  "safe_update (\<lambda>e. claim_live c t e \<and> (state e = Submitting \<or> state e = Accepted))
     (\<lambda>e. observed_row receipt handle ((clear_claim e)\<lparr>state := OutcomeUnknown, last_error := x,
        reconcile_after := y, updated_at := t\<rparr>))"
proof (rule safe_updateI)
  fix e assume "claim_live c t e \<and> (state e = Submitting \<or> state e = Accepted)" "effect_ok e"
  let ?e = "(clear_claim e)\<lparr>state := OutcomeUnknown, last_error := x, reconcile_after := y, updated_at := t\<rparr>"
  obtain r h where o: "observed_row receipt handle ?e = ?e\<lparr>provider_receipt := r, provider_handle := h\<rparr>"
    by (rule observed_row_cases)
  show "effect_ok (observed_row receipt handle ?e) \<and> evolves e (observed_row receipt handle ?e)"
    unfolding o using \<open>claim_live c t e \<and> _\<close> \<open>effect_ok e\<close> by (auto simp: effect_rows clear_claim_def)
qed

lemma safe_reconcile_claim:
  "safe_update (\<lambda>e. reconcilable s t e \<and> claim_free t e) (reconcile_claim_row token owner t)"
  by (rule safe_updateI) (auto simp: effect_rows reconcilable_def reconcile_claim_row_def take_claim_def)

text \<open>A deferral is only asked for rows past the send boundary.\<close>

lemma safe_defer:
  assumes "st \<in> {Accepted, OutcomeUnknown}"
  shows "safe_update (\<lambda>e. claim_live c t e \<and> state e \<noteq> Prepared) (defer_row st err t delay receipt handle)"
proof (rule safe_updateI)
  fix e assume "claim_live c t e \<and> state e \<noteq> Prepared" "effect_ok e"
  let ?e = "(clear_claim e)\<lparr>state := st, last_error := err, reconcile_after := Some (t + seconds delay), updated_at := t\<rparr>"
  obtain r h where o: "observed_row receipt handle ?e = ?e\<lparr>provider_receipt := r, provider_handle := h\<rparr>"
    by (rule observed_row_cases)
  show "effect_ok (defer_row st err t delay receipt handle e) \<and> evolves e (defer_row st err t delay receipt handle e)"
    unfolding defer_row_def o using \<open>claim_live c t e \<and> _\<close> \<open>effect_ok e\<close> assms
    by (cases "state e") (auto simp: effect_rows clear_claim_def)
qed

lemma settle_row_evolves:
  "effect_ok e \<Longrightarrow> state e \<notin> TERMINAL_STATES \<Longrightarrow> st \<in> TERMINAL_STATES \<Longrightarrow>
   effect_ok (settle_row st proj err t e) \<and> evolves e (settle_row st proj err t e)"
  by (auto simp: effect_rows settle_row_def clear_claim_def)

lemma acknowledged_evolves:
  "effect_ok e \<Longrightarrow> state e = ManualReview \<Longrightarrow> effect_ok (acknowledged_row t e) \<and> evolves e (acknowledged_row t e)"
  by (auto simp: effect_rows acknowledged_row_def)

lemma update_then_log:
  assumes "update_effect eid P f s = Some (s1, e)" and "append_evidence lib eid' e' ph ev t g s1 = Inr s'"
    and "safe_update P f"
  shows "ledger_change s s'"
  using ledger_change_update [OF assms(1,3)] append_evidence_Inr(5) [OF assms(2)] by (rule ledger_change_trans)

lemma claim_effect_for_dispatch_change:
  "claim_effect_for_dispatch lib s t token eid f owner = Inr (s', c) \<Longrightarrow> ledger_change s s'"
  by (auto simp: claim_effect_for_dispatch_def rbind_Inr_iff split: option.splits
      elim: update_then_log [OF _ _ safe_take_claim])

lemma guard_effect_locked_effects:
  "guard_effect_locked rops s eid e rid r consume = Inr s' \<Longrightarrow>
   effects s' = effects s \<and> evidence_log s' = evidence_log s \<and> base s' = base s \<and> desktops s' = desktops s"
  by (auto simp: guard_effect_locked_def put_resource_def Let_def split: option.splits if_splits)

lemma validate_effect_locked_effects:
  "validate_effect_locked rops s t eid e consume = Inr s' \<Longrightarrow>
   effects s' = effects s \<and> evidence_log s' = evidence_log s \<and> base s' = base s \<and> desktops s' = desktops s"
  by (auto simp: validate_effect_locked_def rbind_Inr_iff split: option.splits if_splits
      dest: guard_effect_locked_effects)

lemma guard_resource_dispatch_effects:
  "guard_resource_dispatch rops s t c consume = Inr s' \<Longrightarrow>
   effects s' = effects s \<and> evidence_log s' = evidence_log s \<and> base s' = base s \<and> desktops s' = desktops s"
  by (auto simp: guard_resource_dispatch_def rbind_Inr_iff split: option.splits if_splits
      dest: validate_effect_locked_effects)

lemma guard_resource_dispatch_change:
  "guard_resource_dispatch rops s t c consume = Inr s' \<Longrightarrow> ledger_change s s'"
  by (simp add: guard_resource_dispatch_effects ledger_change_same)

lemma mark_effect_submitting_change:
  "mark_effect_submitting lib rops s t c = Inr s' \<Longrightarrow> ledger_change s s'"
  by (auto simp: mark_effect_submitting_def rbind_Inr_iff split: option.splits if_splits
      elim: ledger_change_trans [OF guard_resource_dispatch_change update_then_log [OF _ _ safe_submit]])

lemma abandon_change: "abandon_effect_before_dispatch lib s t c reason = Inr s' \<Longrightarrow> ledger_change s s'"
  by (auto simp: abandon_effect_before_dispatch_def split: option.splits
      elim: update_then_log [OF _ _ safe_abandon])

lemma assert_effect_dispatchable_change: "assert_effect_dispatchable rops s t c = Inr s' \<Longrightarrow> ledger_change s s'"
  by (auto simp: assert_effect_dispatchable_def rbind_Inr_iff split: option.splits if_splits
      elim: ledger_change_trans [OF guard_resource_dispatch_change ledger_change_update [OF _ safe_touch]])

lemma renew_effect_claim_change: "renew_effect_claim s t c = Inr (s', c') \<Longrightarrow> ledger_change s s'"
  by (auto simp: renew_effect_claim_def split: option.splits intro: ledger_change_update [OF _ safe_renew])

lemma progress_change: "record_effect_dispatch_progress lib s t c ph ev = Inr s' \<Longrightarrow> ledger_change s s'"
  by (auto simp: record_effect_dispatch_progress_def rbind_Inr_iff Let_def split: option.splits if_splits
      elim: update_then_log [OF _ _ safe_touch])

lemma record_effect_accepted_change: "record_effect_accepted lib s t c h r = Inr (s', sn) \<Longrightarrow> ledger_change s s'"
  by (auto simp: record_effect_accepted_def rbind_Inr_iff Let_def split: option.splits if_splits
      elim: update_then_log [OF _ _ safe_accept])

lemma unknown_change: "record_effect_outcome_unknown lib s t c err h r = Inr (s', sn) \<Longrightarrow> ledger_change s s'"
  by (auto simp: record_effect_outcome_unknown_def rbind_Inr_iff Let_def split: option.splits
      elim: update_then_log [OF _ _ safe_unknown])

lemma invoke_projection_effects:
  "invoke_projection p e proj s = Inr s' \<Longrightarrow>
   effects s' = effects s \<and> evidence_log s' = evidence_log s \<and> resources s' = resources s"
  by (auto simp: invoke_projection_def rbind_Inr_iff split: option.splits)

text \<open>What a successful settlement writes.\<close>

lemma settle_effect_Inr:
  assumes "settle_effect lib s t c st proj err h r ev p = Inr (s', sn)"
  obtains e handle where "tget (effects s) (c_effect_id c) = Some e" and "claim_live c t e" and "state e \<notin> TERMINAL_STATES"
    and "validate_provider_handle h = Inr handle"
    and "effects s' = tput (c_effect_id c) (settle_row st (sanitize_public_evidence lib (PDict (or_dict proj)))
           (map_option (safe_error lib) err) t
           (observed_row (map_option (\<lambda>r. sanitize_public_evidence lib (PDict r)) r) handle e)) (effects s)"
    and "c_kind c = Dispatch \<Longrightarrow> assert_agent_fence_locked s t (claim_fence c) = Inr ()"
    and "st \<in> TERMINAL_STATES \<Longrightarrow> ledger_change s s'" and "resources s' = resources s"
proof -
  let ?P = "\<lambda>e. claim_live c t e \<and> state e \<notin> TERMINAL_STATES"
  let ?proj = "sanitize_public_evidence lib (PDict (or_dict proj))"
  let ?err = "map_option (safe_error lib) err"
  let ?o = "observed_row (map_option (\<lambda>r. sanitize_public_evidence lib (PDict r)) r)"
  from assms obtain handle s1 e1 s2 ph ev' where h: "validate_provider_handle h = Inr handle"
    and f: "c_kind c = Dispatch \<Longrightarrow> assert_agent_fence_locked s t (claim_fence c) = Inr ()"
    and u: "update_effect (c_effect_id c) ?P (?o handle) s = Some (s1, e1)"
    and i: "invoke_projection p e1 ?proj s1 = Inr s2"
    and a: "append_evidence lib (c_effect_id c) (settle_row st ?proj ?err t e1) ph ev' t (Some (c_generation c))
              (put_effect (c_effect_id c) (settle_row st ?proj ?err t e1) s2) = Inr s'"
    by (auto simp: settle_effect_def rbind_Inr_iff Let_def split: option.splits if_splits)
  from u obtain e where e: "tget (effects s) (c_effect_id c) = Some e" "?P e" "e1 = ?o handle e"
      "s1 = put_effect (c_effect_id c) e1 s"
    by (auto simp: update_effect_eq)
  have s2: "effects s2 = tput (c_effect_id c) e1 (effects s)"
    using invoke_projection_effects [OF i] by (simp add: e(4) put_effect_def)
  have st1: "state e1 \<notin> TERMINAL_STATES"
    using e(2,3) by (rule_tac observed_row_cases [of "map_option (\<lambda>r. sanitize_public_evidence lib (PDict r)) r" handle e]) auto
  have "effects s' = tput (c_effect_id c) (settle_row st ?proj ?err t (?o handle e)) (effects s)"
    using append_evidence_Inr(1) [OF a] by (simp add: put_effect_def s2 e(3))
  moreover have "ledger_change s s'" if st: "st \<in> TERMINAL_STATES"
  proof -
    have "ledger_change s s1" by (rule ledger_change_update [OF u safe_observed])
    also have "ledger_change s1 s2" using invoke_projection_effects [OF i] by (simp add: ledger_change_same)
    also have "ledger_change s2 (put_effect (c_effect_id c) (settle_row st ?proj ?err t e1) s2)"
      using settle_row_evolves [OF _ st1 st]
      by (intro ledger_change_put) (auto simp: s2 tget_tput effect_change_def store_ok_def split: if_splits)
    also note append_evidence_Inr(5) [OF a]
    finally show ?thesis .
  qed
  moreover have "resources s' = resources s"
    using append_evidence_Inr(3) [OF a] invoke_projection_effects [OF i] by (simp add: put_effect_def e(4))
  ultimately show ?thesis using that e h f by blast
qed

lemma settle_effect_change:
  assumes "settle_effect lib s t c st proj err h r ev p = Inr (s', sn)" and "st \<in> TERMINAL_STATES"
  shows "ledger_change s s'"
  using assms(1) by (rule settle_effect_Inr) (use assms(2) in blast)

lemma claim_for_reconcile_change:
  "claim_for_reconcile lib s t token owner eid = Inr (Some (s', c)) \<Longrightarrow> ledger_change s s'"
  by (auto simp: claim_for_reconcile_def rbind_Inr_iff split: option.splits
      elim: update_then_log [OF _ _ safe_reconcile_claim])

lemma defer_state_cases: "defer_state d \<in> {Accepted, OutcomeUnknown}"
  by (auto simp: defer_state_def split: option.splits decision_state.splits)

lemma defer_reconcile_change:
  assumes "defer_reconcile lib s t c d err = Inr (s', sn)"
    and "\<And>e. tget (effects s) (c_effect_id c) = Some e \<Longrightarrow> state e \<noteq> Prepared"
  shows "ledger_change s s'"
proof -
  from assms(1) obtain x r h s1 e ph ev g where
    u: "update_effect (c_effect_id c) (claim_live c t) (defer_row (defer_state d) x t (defer_delay d) r h) s = Some (s1, e)"
    and a: "append_evidence lib (c_effect_id c) e ph ev t g s1 = Inr s'"
    by (auto simp: defer_reconcile_def rbind_Inr_iff Let_def split: option.splits)
  from u assms(2) have "update_effect (c_effect_id c) (\<lambda>e. claim_live c t e \<and> state e \<noteq> Prepared)
      (defer_row (defer_state d) x t (defer_delay d) r h) s = Some (s1, e)"
    by (auto simp: update_effect_eq)
  then have "ledger_change s s1" by (rule ledger_change_update) (rule safe_defer [OF defer_state_cases])
  also note append_evidence_Inr(5) [OF a]
  finally show ?thesis .
qed

lemma acknowledge_all_change:
  assumes "acknowledge_all lib t user command rows s = Inr s'" and "distinct (map fst rows)"
    and "\<forall>(k, e) \<in> set rows. tget (effects s) k = Some e \<and> state e = ManualReview"
  shows "ledger_change s s'"
  using assms
proof (induction lib t user command rows s rule: acknowledge_all.induct)
  case (1 lib t user command s)
  then show ?case by simp
next
  case (2 lib t user command eid e rows s)
  from "2.prems"(1) obtain s1 where a: "acknowledge_one lib t user command eid e s = Inr s1"
    and r: "acknowledge_all lib t user command rows s1 = Inr s'"
    by (auto simp: rbind_Inr_iff)
  have e: "tget (effects s) eid = Some e" "state e = ManualReview" using "2.prems"(3) by auto
  have ef: "effects s1 = tput eid (acknowledged_row t e) (effects s)"
    using append_evidence_Inr(1) [OF a [unfolded acknowledge_one_def]] by (simp add: put_effect_def)
  have "ledger_change s (put_effect eid (acknowledged_row t e) s)"
    using acknowledged_evolves [OF _ e(2)] e(1) by (intro ledger_change_put) (auto simp: effect_change_def store_ok_def)
  also note append_evidence_Inr(5) [OF a [unfolded acknowledge_one_def]]
  also have "ledger_change s1 s'"
  proof (rule "2.IH" [OF r])
    show "\<forall>(k, e) \<in> set rows. tget (effects s1) k = Some e \<and> state e = ManualReview"
      using "2.prems"(2,3) unfolding ef by (force simp: tget_tput)
  qed (use "2.prems"(2) in simp)
  finally show ?case .
qed

lemma acknowledge_change:
  assumes "acknowledge_parked_effects_locked lib s t tenant sids user command limit = Inr (s', ids)"
  shows "ledger_change s s'"
proof (cases "store_ok s \<and> sids \<noteq> []")
  case False
  then consider "\<not> store_ok s" | "sids = []" by blast
  then show ?thesis
    using assms by cases (simp add: ledger_change_def, simp add: acknowledge_parked_effects_locked_def)
next
  case True
  let ?rows = "take (nat (max 1 limit)) (sort_key (created_at \<circ> snd) (sort_key fst
                     (filter (\<lambda>(k, e). acknowledgeable tenant sids e) (effects s))))"
  from True have wf: "twf (effects s)" by (simp add: store_ok_def)
  have "distinct (map fst (filter (\<lambda>(k, e). acknowledgeable tenant sids e) (effects s)))"
    using wf unfolding twf_def by (rule distinct_map_filter)
  then have "distinct (map fst ?rows)"
    by (simp add: take_map [symmetric] distinct_map flip: set_filter)
  moreover have "\<forall>(k, e) \<in> set ?rows. tget (effects s) k = Some e \<and> state e = ManualReview"
    using wf by (auto dest!: in_set_takeD simp: tget_iff_in acknowledgeable_def)
  ultimately show ?thesis
    using assms True by (auto simp: acknowledge_parked_effects_locked_def rbind_Inr_iff Let_def intro: acknowledge_all_change)
qed

lemma plan_prepare_Inr:
  "plan_prepare lib f a = Inr p \<Longrightarrow> 0 < f_generation f \<and> is_sha256 (pp_digest p)"
  by (auto simp: plan_prepare_def rbind_Inr_iff Let_def split: if_splits)

lemma new_effect_ok:
  "plan_prepare lib f a = Inr p \<Longrightarrow> effect_ok (new_effect f p res project t)"
  by (simp add: plan_prepare_Inr new_effect_def effect_ok_def reconcile_iff)

lemma assigned_project_evolves:
  "effect_ok e \<Longrightarrow> effect_ok (e\<lparr>project_id := x\<rparr>) \<and> evolves e (e\<lparr>project_id := x\<rparr>)"
  by (auto simp: effect_rows)

lemma reprepare_evolves:
  "effect_ok e \<Longrightarrow> state e = Prepared \<Longrightarrow> 0 < f_generation f \<Longrightarrow>
   effect_ok (reprepare f ctx project t e) \<and> evolves e (reprepare f ctx project t e)"
  by (auto simp: effect_rows reprepare_def)

lemma prepare_put_change:
  assumes "tget (effects s) eid = Some e" and "effect_ok e \<Longrightarrow> effect_ok e' \<and> evolves e e'"
  shows "ledger_change s (put_effect eid e' s)"
  using assms by (intro ledger_change_put) (auto simp: effect_change_def store_ok_def)

text \<open>The row an accepted preparation of an existing effect leaves.\<close>

definition reprepared_row :: "effect_run_fence \<Rightarrow> prepare_plan \<Rightarrow> ident \<Rightarrow> time \<Rightarrow> effect_row \<Rightarrow> effect_row" where
  "reprepared_row f p project t e =
     (let e1 = (if project_id e = None then e\<lparr>project_id := Some project\<rparr> else e)
      in if state e1 = Prepared \<and> attempt_count e1 = 0 \<and> claim_token e1 = None \<and>
            (run_id e1 \<noteq> f_run_id f \<or> run_generation e1 \<noteq> f_generation f)
         then reprepare f (pp_context p) project t e1 else e1)"

lemma reprepared_row_fields:
  "project_id (reprepared_row f p project t e) \<noteq> None" "state (reprepared_row f p project t e) = state e"
  "attempt_count (reprepared_row f p project t e) = attempt_count e"
  "claim_token (reprepared_row f p project t e) = claim_token e"
  "state e = Prepared \<Longrightarrow> attempt_count e = 0 \<Longrightarrow> claim_token e = None \<Longrightarrow>
     run_id (reprepared_row f p project t e) = f_run_id f \<and> run_generation (reprepared_row f p project t e) = f_generation f"
  by (auto simp: reprepared_row_def reprepare_def Let_def)

lemma reprepared_row_same:
  assumes "project_id e \<noteq> None"
    and "state e = Prepared \<Longrightarrow> attempt_count e = 0 \<Longrightarrow> claim_token e = None \<Longrightarrow>
      run_id e = f_run_id f \<and> run_generation e = f_generation f"
  shows "reprepared_row f p project t e = e"
proof -
  have "\<not> (state e = Prepared \<and> attempt_count e = 0 \<and> claim_token e = None \<and>
      (run_id e \<noteq> f_run_id f \<or> run_generation e \<noteq> f_generation f))"
    using assms(2) by blast
  with assms(1) show ?thesis unfolding reprepared_row_def Let_def by (simp only: if_False simp_thms)
qed

lemma prepare_existing_Inr:
  assumes "prepare_existing lib rops s t f a p project e = Inr (s', sn, cr)"
  shows "same_request f p (pa_resource_fence a) project e"
    and "state e = Prepared \<Longrightarrow> resource_admits rops s t f (pa_resource_fence a) True = Inr ()"
    and "sn = snapshot (pp_effect_id p) (reprepared_row f p project t e)"
    and "s' = put_effect (pp_effect_id p) (reprepared_row f p project t e) s \<or>
         (\<exists>ph ev g. append_evidence lib (pp_effect_id p) (reprepared_row f p project t e) ph ev t g
            (put_effect (pp_effect_id p) (reprepared_row f p project t e) s) = Inr s')"
  using assms
  by (auto simp: prepare_existing_def reprepared_row_def rbind_Inr_iff Let_def split: if_splits)

lemma prepare_new_Inr:
  assumes "prepare_new lib rops s t f a p project = Inr (s', sn, cr)"
  defines "e \<equiv> new_effect f p (pa_resource_fence a) project t"
  shows "resource_admits rops s t f (pa_resource_fence a) True = Inr ()" and "sn = snapshot (pp_effect_id p) e"
    and "\<exists>ph ev g. append_evidence lib (pp_effect_id p) e ph ev t g (put_effect (pp_effect_id p) e s) = Inr s'"
  using assms by (auto simp: prepare_new_def rbind_Inr_iff Let_def split: if_splits)

lemma prepare_effect_cases:
  assumes "prepare_effect lib rops s t f a = Inr x"
  obtains p project where "plan_prepare lib f a = Inr p" and "session_project s f = Some project"
    and "assert_agent_fence_locked s t f = Inr ()" and "pa_project_id a \<in> {None, Some project}"
    and "resource_admits rops s t f (pa_resource_fence a) False = Inr ()"
    and "(case tget (effects s) (pp_effect_id p) of
            Some e \<Rightarrow> prepare_existing lib rops s t f a p project e
          | None \<Rightarrow> prepare_new lib rops s t f a p project) = Inr x"
proof -
  obtain p u v where p: "plan_prepare lib f a = Inr p" "assert_agent_fence_locked s t f = Inr u"
      "resource_admits rops s t f (pa_resource_fence a) False = Inr v"
    and r: "(case session_project s f of
       None \<Rightarrow> Inl EffectNotDispatchableError
     | Some project \<Rightarrow>
         if pa_project_id a \<notin> {None, Some project} then Inl EffectConflictError
         else case tget (effects s) (pp_effect_id p) of
           Some e \<Rightarrow> prepare_existing lib rops s t f a p project e
         | None \<Rightarrow> prepare_new lib rops s t f a p project) = Inr x"
    using assms unfolding prepare_effect_def rbind_Inr_iff by (elim exE conjE) (rule that)
  from r obtain project where pr: "session_project s f = Some project" by (cases "session_project s f") simp_all
  have pa: "pa_project_id a \<in> {None, Some project}"
    by (rule ccontr) (use r pr in simp)
  have "\<not> pa_project_id a \<notin> {None, Some project}" using pa by blast
  then have x: "(case tget (effects s) (pp_effect_id p) of
            Some e \<Rightarrow> prepare_existing lib rops s t f a p project e
          | None \<Rightarrow> prepare_new lib rops s t f a p project) = Inr x"
    using r unfolding pr by (simp only: option.case if_False)
  show ?thesis by (rule that [OF p(1) pr _ pa _ x]) (use p in simp_all)
qed

lemma reprepared_row_evolves:
  assumes "0 < f_generation f" and "effect_ok e"
  shows "effect_ok (reprepared_row f p project t e) \<and> evolves e (reprepared_row f p project t e)"
proof -
  let ?e1 = "if project_id e = None then e\<lparr>project_id := Some project\<rparr> else e"
  have 1: "effect_ok ?e1 \<and> evolves e ?e1"
    using assms(2) assigned_project_evolves by simp
  moreover have "state ?e1 = Prepared \<Longrightarrow> effect_ok (reprepare f (pp_context p) project t ?e1) \<and>
      evolves ?e1 (reprepare f (pp_context p) project t ?e1)"
    using 1 assms(1) by (intro reprepare_evolves) blast+
  ultimately show ?thesis unfolding reprepared_row_def Let_def by (auto intro: evolves_trans)
qed

lemma prepare_effect_change:
  assumes "prepare_effect lib rops s t f a = Inr (s', sn, created)"
  shows "ledger_change s s'"
  using assms
proof (rule prepare_effect_cases)
  fix p project assume p: "plan_prepare lib f a = Inr p"
    and c: "(case tget (effects s) (pp_effect_id p) of
            Some e \<Rightarrow> prepare_existing lib rops s t f a p project e
          | None \<Rightarrow> prepare_new lib rops s t f a p project) = Inr (s', sn, created)"
  show ?thesis
  proof (cases "tget (effects s) (pp_effect_id p)")
    case None
    let ?e = "new_effect f p (pa_resource_fence a) project t"
    have "ledger_change s (put_effect (pp_effect_id p) ?e s)"
      using new_effect_ok [OF p] None by (intro ledger_change_put) (simp_all add: effect_change_def)
    then show ?thesis
      using prepare_new_Inr(3) [of lib rops s t f a p project s' sn created] c None
      by (auto intro: ledger_change_trans dest: append_evidence_Inr(5))
  next
    case (Some e)
    with c have c: "prepare_existing lib rops s t f a p project e = Inr (s', sn, created)" by simp
    have "ledger_change s (put_effect (pp_effect_id p) (reprepared_row f p project t e) s)"
      using Some reprepared_row_evolves plan_prepare_Inr [OF p] by (intro prepare_put_change) blast+
    then show ?thesis
      using prepare_existing_Inr(4) [OF c] by (auto intro: ledger_change_trans dest: append_evidence_Inr(5))
  qed
qed

section \<open>The ledger as a transition system\<close>

text \<open>
  Any number of workers issue transactions in any order, with claims they may have made up. Time
  passes; the driver, the assistant, the sessions and the desktop inventory change under the
  ledger's feet. A settlement is asked with one of the three terminal states of its signature; a
  deferral is asked by a recovery pass that has read a row past the send boundary.
\<close>

record 'a ledger =
  clk :: time
  st :: "'a store"

inductive ledger_step :: "stdlib \<Rightarrow> 'a resource_ops \<Rightarrow> 'a ledger \<Rightarrow> 'a ledger \<Rightarrow> bool" for lib rops where
  Tick: "clk s \<le> t \<Longrightarrow> ledger_step lib rops s (s\<lparr>clk := t\<rparr>)"
| Outside: "ledger_step lib rops s (s\<lparr>st := (st s)\<lparr>base := b, desktops := d\<rparr>\<rparr>)"
| Prepare: "prepare_effect lib rops (st s) (clk s) f a = Inr (s', sn, cr) \<Longrightarrow> ledger_step lib rops s (s\<lparr>st := s'\<rparr>)"
| ClaimDispatch: "claim_effect_for_dispatch lib (st s) (clk s) tok eid f ow = Inr (s', c) \<Longrightarrow> ledger_step lib rops s (s\<lparr>st := s'\<rparr>)"
| Submit: "mark_effect_submitting lib rops (st s) (clk s) c = Inr s' \<Longrightarrow> ledger_step lib rops s (s\<lparr>st := s'\<rparr>)"
| Abandon: "abandon_effect_before_dispatch lib (st s) (clk s) c reason = Inr s' \<Longrightarrow> ledger_step lib rops s (s\<lparr>st := s'\<rparr>)"
| AssertSend: "assert_effect_dispatchable rops (st s) (clk s) c = Inr s' \<Longrightarrow> ledger_step lib rops s (s\<lparr>st := s'\<rparr>)"
| Renew: "renew_effect_claim (st s) (clk s) c = Inr (s', c') \<Longrightarrow> ledger_step lib rops s (s\<lparr>st := s'\<rparr>)"
| Progress: "record_effect_dispatch_progress lib (st s) (clk s) c ph ev = Inr s' \<Longrightarrow> ledger_step lib rops s (s\<lparr>st := s'\<rparr>)"
| Accept: "record_effect_accepted lib (st s) (clk s) c h r = Inr (s', sn) \<Longrightarrow> ledger_step lib rops s (s\<lparr>st := s'\<rparr>)"
| Settle: "settle_effect lib (st s) (clk s) c fin proj err h r ev p = Inr (s', sn) \<Longrightarrow> fin \<in> TERMINAL_STATES \<Longrightarrow>
     ledger_step lib rops s (s\<lparr>st := s'\<rparr>)"
| Unknown: "record_effect_outcome_unknown lib (st s) (clk s) c err' h r = Inr (s', sn) \<Longrightarrow> ledger_step lib rops s (s\<lparr>st := s'\<rparr>)"
| Acknowledge: "acknowledge_parked_effects_locked lib (st s) (clk s) tenant sids user cmd lim = Inr (s', ids) \<Longrightarrow>
     ledger_step lib rops s (s\<lparr>st := s'\<rparr>)"
| ClaimReconcile: "claim_for_reconcile lib (st s) (clk s) tok ow eid = Inr (Some (s', c)) \<Longrightarrow> ledger_step lib rops s (s\<lparr>st := s'\<rparr>)"
| Defer: "defer_reconcile lib (st s) (clk s) c d err = Inr (s', sn) \<Longrightarrow>
     tget (effects (st s)) (c_effect_id c) = Some e \<Longrightarrow> state e \<noteq> Prepared \<Longrightarrow> ledger_step lib rops s (s\<lparr>st := s'\<rparr>)"
| Enroll: "enroll_desktop lib rops (st s) (clk s) dt ws user = Inr (s', rf) \<Longrightarrow> ledger_step lib rops s (s\<lparr>st := s'\<rparr>)"
| Close: "close_admission_locked rops (st s) (clk s) fence user = Inr (s', rr) \<Longrightarrow> ledger_step lib rops s (s\<lparr>st := s'\<rparr>)"
| Expire: "ledger_step lib rops s (s\<lparr>st := fst (expire_leases (st s) (clk s) limit)\<rparr>)"
| Heartbeat: "heartbeat rops (st s) (clk s) fence user ttl = Inr (s', rr) \<Longrightarrow> ledger_step lib rops s (s\<lparr>st := s'\<rparr>)"

lemma enroll_desktop_effects:
  "enroll_desktop lib rops s t dt ws user = Inr (s', rf) \<Longrightarrow> effects s' = effects s \<and> evidence_log s' = evidence_log s"
  by (auto simp: enroll_desktop_def enroll_desktop_locked_def rbind_Inr_iff Let_def put_resource_def case_prod_unfold
      split: option.splits if_splits)

lemma close_admission_effects:
  "close_admission_locked rops s t fence user = Inr (s', rr) \<Longrightarrow> effects s' = effects s \<and> evidence_log s' = evidence_log s"
  by (auto simp: close_admission_locked_def rbind_Inr_iff Let_def put_resource_def split: option.splits if_splits)

lemma heartbeat_effects:
  "heartbeat rops s t fence user ttl = Inr (s', rr) \<Longrightarrow> effects s' = effects s \<and> evidence_log s' = evidence_log s"
  by (auto simp: heartbeat_def rbind_Inr_iff Let_def put_resource_def split: option.splits if_splits)

lemma expire_fold_effects:
  "effects (fold (\<lambda>(k, r). put_resource k (g r)) rows s) = effects s \<and>
   evidence_log (fold (\<lambda>(k, r). put_resource k (g r)) rows s) = evidence_log s"
  by (induction rows arbitrary: s) (auto simp: put_resource_def)

lemma ledger_step_change: "ledger_step lib rops s s' \<Longrightarrow> ledger_change (st s) (st s') \<and> clk s \<le> clk s'"
proof (induction rule: ledger_step.induct)
  case (Defer s c d err s' sn e)
  then show ?case by (auto intro: defer_reconcile_change)
qed (auto simp: prepare_effect_change claim_effect_for_dispatch_change mark_effect_submitting_change abandon_change
    assert_effect_dispatchable_change renew_effect_claim_change progress_change record_effect_accepted_change
    settle_effect_change unknown_change acknowledge_change claim_for_reconcile_change
    expire_leases_def Let_def expire_fold_effects
    dest: enroll_desktop_effects close_admission_effects heartbeat_effects intro!: ledger_change_same)

lemma ledger_steps_change:
  "(ledger_step lib rops)\<^sup>*\<^sup>* s s' \<Longrightarrow> ledger_change (st s) (st s') \<and> clk s \<le> clk s'"
  by (induction rule: rtranclp_induct) (auto dest!: ledger_step_change intro: ledger_change_trans)

definition start_ledger :: "'a ledger \<Rightarrow> bool" where
  "start_ledger s \<longleftrightarrow> effects (st s) = [] \<and> evidence_log (st s) = []"

lemma start_ledger_ok: "start_ledger s \<Longrightarrow> store_ok (st s)"
  by (simp add: start_ledger_def store_ok_def log_ok_def sequence_of_def)

lemma ledger_reachable_ok:
  "start_ledger s0 \<Longrightarrow> (ledger_step lib rops)\<^sup>*\<^sup>* s0 s \<Longrightarrow> store_ok (st s)"
  using ledger_steps_change [of lib rops s0 s] by (simp add: ledger_change_def start_ledger_ok)

text \<open>The form in which the theorems use it: what later steps may have done to a row.\<close>

lemma row_later:
  assumes "store_ok (st s)" and "(ledger_step lib rops)\<^sup>*\<^sup>* s s'" and "tget (effects (st s)) eid = Some e"
  obtains e' where "tget (effects (st s')) eid = Some e'" and "effect_ok e'" and "evolves e e'" and "effect_ok e"
proof -
  have ok: "effect_ok e" using assms(1,3) by (simp add: store_ok_def)
  have "effect_change (tget (effects (st s)) eid) (tget (effects (st s')) eid)"
    using ledger_steps_change [OF assms(2)] assms(1) by (simp add: ledger_change_def)
  then show ?thesis using that ok by (auto simp: effect_change_def assms(3))
qed

end
