(* ===== verification/Effect_Theorems.thy ===== *)
theory Effect_Theorems
  imports Effect_Invariants Driver_Theorems
begin

text \<open>
  The guarantees of the effect ledger: at most one send, stable terminal outcomes, fencing of effect
  workers, the audit trail, idempotent preparation, and what an effect inherits from the Agent driver
  and from resource control.
\<close>

section \<open>At most one send\<close>

lemma claim_for_dispatch_state:
  "claim_effect_for_dispatch lib s t tok eid f ow = Inr x \<Longrightarrow>
   \<exists>e. tget (effects s) eid = Some e \<and> dispatch_claimable f t e"
  by (auto simp: claim_effect_for_dispatch_def rbind_Inr_iff update_effect_eq split: option.splits)

lemma mark_effect_submitting_Inr:
  assumes "mark_effect_submitting lib rops s t c = Inr s'"
  shows "\<exists>e. tget (effects s) (c_effect_id c) = Some e \<and> claim_live c t e \<and> state e = Prepared \<and>
     effects s' = tput (c_effect_id c) (submit_row t e) (effects s)"
proof -
  from assms obtain s1 s2 e' ph ev where g: "guard_resource_dispatch rops s t c True = Inr s1"
    and u: "update_effect (c_effect_id c) (\<lambda>e. claim_live c t e \<and> state e = Prepared) (submit_row t) s1 = Some (s2, e')"
    and a: "append_evidence lib (c_effect_id c) e' ph ev t None s2 = Inr s'"
    by (auto simp: mark_effect_submitting_def rbind_Inr_iff split: option.splits if_splits)
  from guard_resource_dispatch_effects [OF g] u append_evidence_Inr(1) [OF a] show ?thesis
    by (auto simp: update_effect_eq put_effect_def)
qed

lemma abandon_state:
  "abandon_effect_before_dispatch lib s t c reason = Inr x \<Longrightarrow>
   \<exists>e. tget (effects s) (c_effect_id c) = Some e \<and> claim_live c t e \<and> state e = Prepared"
  by (auto simp: abandon_effect_before_dispatch_def update_effect_eq split: option.splits)

lemma assert_effect_dispatchable_Inr:
  assumes "assert_effect_dispatchable rops s t c = Inr s'"
  shows "\<exists>e. tget (effects s) (c_effect_id c) = Some e \<and> claim_live c t e \<and> state e = Submitting \<and> c_kind c = Dispatch"
    and "assert_agent_fence_locked s t (claim_fence c) = Inr ()"
proof -
  from assms obtain s1 s2 e where g: "guard_resource_dispatch rops s t c False = Inr s1"
    and u: "update_effect (c_effect_id c) (\<lambda>e. claim_live c t e \<and> state e = Submitting) (\<lambda>e. e\<lparr>updated_at := t\<rparr>) s1 = Some (s2, e)"
    and k: "c_kind c = Dispatch" "assert_agent_fence_locked s t (claim_fence c) = Inr ()"
    by (auto simp: assert_effect_dispatchable_def rbind_Inr_iff split: option.splits if_splits)
  from guard_resource_dispatch_effects [OF g] u k show
    "\<exists>e. tget (effects s) (c_effect_id c) = Some e \<and> claim_live c t e \<and> state e = Submitting \<and> c_kind c = Dispatch"
    "assert_agent_fence_locked s t (claim_fence c) = Inr ()"
    by (auto simp: update_effect_eq)
qed

text \<open>
  C2. The send boundary is crossed once. After an effect has been marked as submitting, then
  whatever the workers do, however many recoveries and restarts there are, and whatever claim is
  presented: it is never marked again, never abandoned as unsent, never claimed for dispatch
  again, and its attempt counter stays one.
\<close>

theorem send_boundary_crossed_once:
  assumes "start_ledger s0" and "(ledger_step lib rops)\<^sup>*\<^sup>* s0 s"
    and "mark_effect_submitting lib rops (st s) (clk s) c = Inr s1"
    and "(ledger_step lib rops)\<^sup>*\<^sup>* (s\<lparr>st := s1\<rparr>) s'"
    and "c_effect_id c2 = c_effect_id c"
  shows "mark_effect_submitting lib rops (st s') t c2 \<noteq> Inr x \<and>
     abandon_effect_before_dispatch lib (st s') t c2 reason \<noteq> Inr x \<and>
     claim_effect_for_dispatch lib (st s') t tok (c_effect_id c) f ow \<noteq> Inr y \<and>
     (\<exists>e. tget (effects (st s')) (c_effect_id c) = Some e \<and> attempt_count e = 1 \<and> run_id e = run_id (the (tget (effects s1) (c_effect_id c))))"
proof -
  have ok: "store_ok (st s)" using assms(1,2) by (rule ledger_reachable_ok)
  have ok1: "store_ok s1" using mark_effect_submitting_change [OF assms(3)] ok by (simp add: ledger_change_def)
  obtain e where e: "tget (effects (st s)) (c_effect_id c) = Some e" "state e = Prepared"
      "effects s1 = tput (c_effect_id c) (submit_row (clk s) e) (effects (st s))"
    using mark_effect_submitting_Inr [OF assms(3)] by blast
  have e1: "tget (effects (st (s\<lparr>st := s1\<rparr>))) (c_effect_id c) = Some (submit_row (clk s) e)"
    by (simp add: e(3) tget_tput)
  from row_later [OF _ assms(4) e1] ok1 obtain e' where e': "tget (effects (st s')) (c_effect_id c) = Some e'"
      "evolves (submit_row (clk s) e) e'" "effect_ok e'" "effect_ok (submit_row (clk s) e)"
    by (metis ledger.select_convs(2) ledger.surjective ledger.update_convs(2))
  have "state e' \<noteq> Prepared" "attempt_count e' = attempt_count (submit_row (clk s) e)" "run_id e' = run_id e"
    using e'(2) by (auto simp: evolves_def origin_bound_def submit_row_def)
  moreover have "attempt_count (submit_row (clk s) e) = 1"
    using e'(4) by (simp add: effect_ok_def reconcile_iff submit_row_def)
  ultimately show ?thesis
    using e'(1) assms(5) mark_effect_submitting_Inr [of lib rops "st s'" t c2 x]
      abandon_state [of lib "st s'" t c2 reason x] claim_for_dispatch_state [of lib "st s'" t tok "c_effect_id c" f ow y]
    by (auto simp: dispatch_claimable_def e(3) tget_tput submit_row_def)
qed

text \<open>
  One claim sends. If at two moments of a run the last guard before the provider call passes
  for the same effect, it is for the very same claim: same worker, same token, same claim
  generation. A recovery worker never passes it.
\<close>

lemma one_claim_may_send:
  assumes "start_ledger s0" and "(ledger_step lib rops)\<^sup>*\<^sup>* s0 s"
    and "assert_effect_dispatchable rops (st s) (clk s) c1 = Inr x1"
    and "(ledger_step lib rops)\<^sup>*\<^sup>* s s'"
    and "assert_effect_dispatchable rops (st s') (clk s') c2 = Inr x2"
    and "c_effect_id c2 = c_effect_id c1"
  shows "c_token c2 = c_token c1 \<and> c_generation c2 = c_generation c1 \<and> c_owner_id c2 = c_owner_id c1 \<and>
     c_tenant_id c2 = c_tenant_id c1 \<and> c_session_id c2 = c_session_id c1 \<and> c_kind c1 = Dispatch \<and> c_kind c2 = Dispatch"
proof -
  have ok: "store_ok (st s)" using assms(1,2) by (rule ledger_reachable_ok)
  from assert_effect_dispatchable_Inr(1) [OF assms(3)] obtain e where
    e: "tget (effects (st s)) (c_effect_id c1) = Some e" "claim_live c1 (clk s) e" "state e = Submitting" "c_kind c1 = Dispatch"
    by blast
  from row_later [OF ok assms(4) e(1)] obtain e' where
    e': "tget (effects (st s')) (c_effect_id c1) = Some e'" "evolves e e'" .
  from assert_effect_dispatchable_Inr(1) [OF assms(5)] e'(1) assms(6) have
    c2: "claim_live c2 (clk s') e'" "c_kind c2 = Dispatch" by auto
  have "origin_bound e e'" "same_identity e e'" using e'(2) by (simp_all add: evolves_def)
  then show ?thesis
    using e(2,3,4) c2 by (simp add: origin_bound_def same_identity_def claim_live_def claim_matches_def)
qed

section \<open>Terminal outcomes\<close>

text \<open>
  C18. A settled effect stays settled. Once a row is succeeded, failed or parked, no later step
  changes its outcome, its projection, its receipt or its handle; no worker can hold it; its
  identity and request digest never change. The one exception is the owner's acknowledgement, which
  turns a parked row into a failed one.
\<close>

theorem settled_effects_stay_settled:
  assumes "start_ledger s0" and "(ledger_step lib rops)\<^sup>*\<^sup>* s0 s"
    and "tget (effects (st s)) eid = Some e" and "state e \<in> TERMINAL_STATES"
    and "(ledger_step lib rops)\<^sup>*\<^sup>* s s'"
  shows "\<exists>e'. tget (effects (st s')) eid = Some e' \<and>
     (state e' = state e \<or> state e = ManualReview \<and> state e' = Failed) \<and>
     projection e' = projection e \<and> provider_receipt e' = provider_receipt e \<and> provider_handle e' = provider_handle e \<and>
     completed_at e' = completed_at e \<and> claim_token e' = None \<and> request_hash_col e' = request_hash_col e \<and>
     (\<forall>c t. \<not> claim_live c t e')"
proof -
  have ok: "store_ok (st s)" using assms(1,2) by (rule ledger_reachable_ok)
  from row_later [OF ok assms(5,3)] obtain e' where
    e': "tget (effects (st s')) eid = Some e'" "evolves e e'" .
  then have "settled_for_good e e'" "same_identity e e'" by (simp_all add: evolves_def)
  with e'(1) assms(4) show ?thesis
    by (auto simp: settled_for_good_def same_identity_def claim_live_def claim_matches_def)
qed

section \<open>Effect workers are fenced\<close>

definition claim_gen :: "ident \<Rightarrow> 'a ledger \<Rightarrow> int" where
  "claim_gen eid s = (case tget (effects (st s)) eid of None \<Rightarrow> -1 | Some e \<Rightarrow> claim_generation e)"

definition claim_holds :: "ident \<Rightarrow> effect_claim \<Rightarrow> 'a ledger \<Rightarrow> bool" where
  "claim_holds eid c s \<longleftrightarrow> (\<exists>e. tget (effects (st s)) eid = Some e \<and> claim_matches c e)"

definition ok_step :: "stdlib \<Rightarrow> 'a resource_ops \<Rightarrow> 'a ledger \<Rightarrow> 'a ledger \<Rightarrow> bool" where
  "ok_step lib rops s s' \<longleftrightarrow> store_ok (st s) \<and> ledger_step lib rops s s'"

lemma ok_steps:
  assumes "(ledger_step lib rops)\<^sup>*\<^sup>* s s'" and "store_ok (st s)"
  shows "(ok_step lib rops)\<^sup>*\<^sup>* s s'"
  using assms
proof (induction rule: rtranclp_induct)
  case (step y z)
  then have "store_ok (st y)" using ledger_steps_change [of lib rops s y] by (simp add: ledger_change_def)
  with step show ?case by (auto simp: ok_step_def intro: rtranclp.rtrancl_into_rtrancl)
qed simp

lemma ok_step_gen:
  assumes "ok_step lib rops s s'"
  shows "claim_gen eid s \<le> claim_gen eid s'"
proof -
  have ok: "store_ok (st s)" and ch: "effect_change (tget (effects (st s)) eid) (tget (effects (st s')) eid)"
    using assms ledger_step_change [of lib rops s s'] by (simp_all add: ok_step_def ledger_change_def)
  have g: "effect_ok x \<Longrightarrow> 0 \<le> claim_generation x" for x by (simp add: effect_ok_def)
  show ?thesis
  proof (cases "tget (effects (st s)) eid")
    case None
    with ch g show ?thesis by (force simp: claim_gen_def effect_change_def split: option.splits)
  next
    case (Some e)
    with ok have "effect_ok e" by (simp add: store_ok_def)
    with ch Some obtain e' where "tget (effects (st s')) eid = Some e'" "evolves e e'" by (auto simp: effect_change_def)
    with Some show ?thesis by (simp add: claim_gen_def evolves_def counters_grow_def)
  qed
qed

interpretation eff: fencing "claim_gen eid" "claim_holds eid" c_generation "ok_step lib rops"
  for eid lib rops
  by unfold_locales (auto simp: claim_holds_def claim_gen_def claim_matches_def intro: ok_step_gen [unfolded claim_gen_def])

text \<open>A claim that no longer matches its row can do nothing.\<close>

lemma unmatched_claim_fails:
  assumes "\<And>e. tget (effects s) (c_effect_id c) = Some e \<Longrightarrow> \<not> claim_live c t e"
  shows "mark_effect_submitting lib rops s t c \<noteq> Inr x1" "abandon_effect_before_dispatch lib s t c reason \<noteq> Inr x1"
    "assert_effect_dispatchable rops s t c \<noteq> Inr x1" "renew_effect_claim s t c \<noteq> Inr x2"
    "record_effect_dispatch_progress lib s t c ph ev \<noteq> Inr x1"
    "settle_effect lib s t c fin proj err h r ev2 p \<noteq> Inr x3" "record_effect_outcome_unknown lib s t c er h r \<noteq> Inr x3"
    "defer_reconcile lib s t c d err \<noteq> Inr x3"
proof -
  show "settle_effect lib s t c fin proj err h r ev2 p \<noteq> Inr x3"
  proof
    assume "settle_effect lib s t c fin proj err h r ev2 p = Inr x3"
    then show False using assms by (cases x3) (auto elim: settle_effect_Inr)
  qed
  show "record_effect_outcome_unknown lib s t c er h r \<noteq> Inr x3"
    using assms by (auto simp: record_effect_outcome_unknown_def rbind_Inr_iff update_effect_eq Let_def split: option.splits)
  show "defer_reconcile lib s t c d err \<noteq> Inr x3"
    using assms by (auto simp: defer_reconcile_def rbind_Inr_iff update_effect_eq Let_def split: option.splits)
  show "renew_effect_claim s t c \<noteq> Inr x2"
    using assms by (auto simp: renew_effect_claim_def update_effect_eq split: option.splits)
  show "record_effect_dispatch_progress lib s t c ph ev \<noteq> Inr x1"
    using assms by (auto simp: record_effect_dispatch_progress_def rbind_Inr_iff update_effect_eq Let_def split: option.splits)
qed (use assms mark_effect_submitting_Inr abandon_state assert_effect_dispatchable_Inr(1) in blast)+

text \<open>
  A worker that lost its claim is fenced out for ever. Once a newer claim on the effect has been
  taken, the old claim can in no later state mark, abandon, send, renew, report progress, record
  a receipt, settle, report an unknown outcome or defer.
\<close>

lemma stale_claim_powerless:
  assumes "start_ledger s0" and "(ledger_step lib rops)\<^sup>*\<^sup>* s0 s"
    and "c_generation c < claim_gen (c_effect_id c) s" and "(ledger_step lib rops)\<^sup>*\<^sup>* s s'"
  shows "mark_effect_submitting lib rops (st s') t c \<noteq> Inr x1 \<and> abandon_effect_before_dispatch lib (st s') t c reason \<noteq> Inr x1 \<and>
    assert_effect_dispatchable rops (st s') t c \<noteq> Inr x1 \<and> renew_effect_claim (st s') t c \<noteq> Inr x2 \<and>
    record_effect_dispatch_progress lib (st s') t c ph ev \<noteq> Inr x1 \<and>
    record_effect_accepted lib (st s') t c h rcpt \<noteq> Inr x3 \<and>
    settle_effect lib (st s') t c fin proj err h r ev2 p \<noteq> Inr x3 \<and>
    record_effect_outcome_unknown lib (st s') t c er h r \<noteq> Inr x3 \<and> defer_reconcile lib (st s') t c d err \<noteq> Inr x3"
proof -
  have ok: "store_ok (st s)" using assms(1,2) by (rule ledger_reachable_ok)
  note steps = ok_steps [OF assms(4) ok]
  have nh: "\<not> claim_holds (c_effect_id c) c s'" by (rule eff.stale_forever [OF assms(3) steps])
  have gen: "claim_generation e \<noteq> c_generation c" if "tget (effects (st s')) (c_effect_id c) = Some e" for e
    using eff.gen_mono_steps [OF steps, of "c_effect_id c"] assms(3) that by (simp add: claim_gen_def)
  have live: "\<not> claim_live c t e" if "tget (effects (st s')) (c_effect_id c) = Some e" for e
    using nh that by (auto simp: claim_holds_def claim_live_def)
  have acc: "record_effect_accepted lib (st s') t c h rcpt \<noteq> Inr x3"
    using live gen by (auto simp: record_effect_accepted_def rbind_Inr_iff Let_def update_effect_eq split: option.splits if_splits)
  show ?thesis by (intro conjI acc unmatched_claim_fails live)
qed

section \<open>The audit trail\<close>

text \<open>
  The evidence of an effect is an append-only, gap-free, public-safe log: in every reachable
  state the rows of each effect are numbered 1, 2, 3, ... in the order they were written, none holds
  a credential or raw provider text, and later states only append.
\<close>

lemma evidence_is_append_only:
  assumes "start_ledger s0" and "(ledger_step lib rops)\<^sup>*\<^sup>* s0 s" and "(ledger_step lib rops)\<^sup>*\<^sup>* s s'"
  shows "sequence_of eid (evidence_log (st s)) = [1..int (length (sequence_of eid (evidence_log (st s))))] \<and>
    list_all (\<lambda>r. redacted (ev_evidence r) \<and> no_provider_text (ev_evidence r)) (evidence_log (st s)) \<and>
    take (length (evidence_log (st s))) (evidence_log (st s')) = evidence_log (st s)"
proof -
  have ok: "store_ok (st s)" using assms(1,2) by (rule ledger_reachable_ok)
  then have l: "log_ok (evidence_log (st s))" by (simp add: store_ok_def)
  obtain xs where "evidence_log (st s') = evidence_log (st s) @ xs"
    using ledger_steps_change [OF assms(3)] ok by (auto simp: ledger_change_def)
  with l show ?thesis by (auto simp: log_ok_def list_all_iff safe_json_def)
qed

section \<open>Preparation\<close>

lemma tput_same: "tget t k = Some r \<Longrightarrow> tput k r t = t"
  by (induction t) (auto simp: tget_def tput_def)

lemma append_evidence_core:
  "append_evidence lib eid e ph ev t g s = Inr s' \<Longrightarrow>
   effects s' = effects s \<and> base s' = base s \<and> resources s' = resources s \<and> desktops s' = desktops s"
  by (simp add: append_evidence_Inr)

definition same_surroundings :: "'a store \<Rightarrow> 'a store \<Rightarrow> bool" where
  "same_surroundings s s' \<longleftrightarrow> base s' = base s \<and> resources s' = resources s \<and> desktops s' = desktops s"

lemma surroundings_admit:
  assumes "same_surroundings s s'"
  shows "resource_admits rops s' t f res req = resource_admits rops s t f res req"
    "session_project s' f = session_project s f" "assert_agent_fence_locked s' t f = assert_agent_fence_locked s t f"
proof -
  have "assigned_desktop s' r = assigned_desktop s r" for r
    using assms unfolding same_surroundings_def assigned_desktop_def by (elim conjE) (simp only:)
  then have "validate_locked rops s' t fence u sid req = validate_locked rops s t fence u sid req" for fence u sid
    using assms unfolding same_surroundings_def validate_locked_def by (elim conjE) (simp only:)
  then show "resource_admits rops s' t f res req = resource_admits rops s t f res req"
    by (simp only: resource_admits_def)
  show "session_project s' f = session_project s f" "assert_agent_fence_locked s' t f = assert_agent_fence_locked s t f"
    using assms by (simp_all add: same_surroundings_def session_project_def assert_agent_fence_locked_def)
qed

text \<open>What a successful preparation leaves behind.\<close>

lemma put_append_core:
  "s1 = put_effect eid e s \<or> (\<exists>ph ev g. append_evidence lib eid e ph ev t g (put_effect eid e s) = Inr s1) \<Longrightarrow>
   tget (effects s1) eid = Some e \<and> same_surroundings s s1"
  by (auto simp: put_effect_def same_surroundings_def tget_tput dest!: append_evidence_core)

lemma prepare_effect_Inr:
  assumes "prepare_effect lib rops s t f a = Inr (s1, sn, cr)" and "session_project s f \<noteq> Some []"
  obtains p project e where "plan_prepare lib f a = Inr p" and "session_project s f = Some project"
    and "assert_agent_fence_locked s t f = Inr ()" and "pa_project_id a \<in> {None, Some project}"
    and "resource_admits rops s t f (pa_resource_fence a) False = Inr ()"
    and "tget (effects s1) (pp_effect_id p) = Some e" and "same_request f p (pa_resource_fence a) project e"
    and "same_surroundings s s1" and "sn = snapshot (pp_effect_id p) e" and "reprepared_row f p project t e = e"
    and "state e = Prepared \<Longrightarrow> resource_admits rops s t f (pa_resource_fence a) True = Inr ()"
  using assms(1)
proof (rule prepare_effect_cases)
  fix p project assume p: "plan_prepare lib f a = Inr p" "session_project s f = Some project"
      "assert_agent_fence_locked s t f = Inr ()" "pa_project_id a \<in> {None, Some project}"
      "resource_admits rops s t f (pa_resource_fence a) False = Inr ()"
    and c: "(case tget (effects s) (pp_effect_id p) of
            Some e \<Rightarrow> prepare_existing lib rops s t f a p project e
          | None \<Rightarrow> prepare_new lib rops s t f a p project) = Inr (s1, sn, cr)"
  have ne: "project \<noteq> []" using assms(2) p(2) by auto
  show ?thesis
  proof (cases "tget (effects s) (pp_effect_id p)")
    case None
    with c have n: "prepare_new lib rops s t f a p project = Inr (s1, sn, cr)" by simp
    let ?e = "new_effect f p (pa_resource_fence a) project t"
    have "same_request f p (pa_resource_fence a) project ?e" "reprepared_row f p project t ?e = ?e"
      using ne by (simp_all add: same_request_def new_effect_def reprepared_row_def)
    with prepare_new_Inr [OF n] put_append_core [of s1 "pp_effect_id p" ?e s lib t] show ?thesis
      by (intro that [OF p, of ?e]) blast+
  next
    case (Some e)
    with c have x: "prepare_existing lib rops s t f a p project e = Inr (s1, sn, cr)" by simp
    let ?e = "reprepared_row f p project t e"
    have "same_request f p (pa_resource_fence a) project ?e" "state ?e = state e"
      using prepare_existing_Inr(1) [OF x] by (auto simp: same_request_def reprepared_row_def reprepare_def Let_def)
    moreover have "reprepared_row f p project t ?e = ?e"
      by (rule reprepared_row_same) (simp_all add: reprepared_row_fields)
    ultimately show ?thesis
      using prepare_existing_Inr(2,3,4) [OF x] put_append_core [of s1 "pp_effect_id p" ?e s lib t]
      by (intro that [OF p, of ?e]) auto
  qed
qed

lemma prepare_existing_keep:
  assumes "same_request f p (pa_resource_fence a) project e" and "reprepared_row f p project t e = e"
    and "state e = Prepared \<Longrightarrow> resource_admits rops s t f (pa_resource_fence a) True = Inr ()"
    and "tget (effects s) (pp_effect_id p) = Some e"
  shows "prepare_existing lib rops s t f a p project e = Inr (s, snapshot (pp_effect_id p) e, False)"
proof -
  have n: "project_id e \<noteq> None" and r: "\<not> (state e = Prepared \<and> attempt_count e = 0 \<and> claim_token e = None \<and>
      (run_id e \<noteq> f_run_id f \<or> run_generation e \<noteq> f_generation f))"
    using reprepared_row_fields [where f = f and p = p and project = project and t = t and e = e] assms(2) by auto
  have "put_effect (pp_effect_id p) e s = s" using assms(4) by (simp add: put_effect_def tput_same)
  moreover have "(if state e = Prepared then resource_admits rops s t f (pa_resource_fence a) True else Inr ()) = Inr ()"
    using assms(3) by simp
  ultimately show ?thesis using n r assms(1) unfolding prepare_existing_def Let_def by (simp only: if_False simp_thms rbind_simps)
qed

text \<open>
  Preparing is idempotent. Repeating a preparation that succeeded, in the same run, reports
  that nothing was created, returns the same snapshot and changes nothing: no second row, no new
  evidence, no reset of an effect that has meanwhile been sent.
\<close>

lemma prepare_is_idempotent:
  assumes "prepare_effect lib rops s t f a = Inr (s1, sn, created)" and "session_project s f \<noteq> Some []"
  shows "prepare_effect lib rops s1 t f a = Inr (s1, sn, False)"
proof -
  obtain p project e where
    h: "plan_prepare lib f a = Inr p" "session_project s f = Some project" "assert_agent_fence_locked s t f = Inr ()"
      "pa_project_id a \<in> {None, Some project}" "resource_admits rops s t f (pa_resource_fence a) False = Inr ()"
    and e: "tget (effects s1) (pp_effect_id p) = Some e" "same_request f p (pa_resource_fence a) project e"
      "sn = snapshot (pp_effect_id p) e" "reprepared_row f p project t e = e"
      "state e = Prepared \<Longrightarrow> resource_admits rops s t f (pa_resource_fence a) True = Inr ()"
    and ss: "same_surroundings s s1"
    by (rule prepare_effect_Inr [OF assms]) blast
  have "prepare_existing lib rops s1 t f a p project e = Inr (s1, sn, False)"
    unfolding e(3) using e(1,2,4,5) by (intro prepare_existing_keep) (simp_all add: surroundings_admit [OF ss])
  with h e(1) show ?thesis by (simp add: prepare_effect_def surroundings_admit [OF ss])
qed

text \<open>
  An identity stands for one request. Once an effect exists, no later preparation that derives
  the same identity from other request bytes, another provider, another idempotency key or another
  resource is accepted, in whatever run and after whatever steps.
\<close>

lemma identity_fixes_the_request:
  assumes "start_ledger s0" and "(ledger_step lib rops)\<^sup>*\<^sup>* s0 s"
    and "tget (effects (st s)) (pp_effect_id p) = Some e"
    and "(ledger_step lib rops)\<^sup>*\<^sup>* s s'" and "plan_prepare lib f a = Inr p"
    and "request_hash_col e \<noteq> pp_digest p \<or> provider e \<noteq> pp_provider p \<or> idempotency_key e \<noteq> pp_provider_key p \<or>
         resource e \<noteq> pa_resource_fence a"
  shows "prepare_effect lib rops (st s') t f a \<noteq> Inr x"
proof
  assume h: "prepare_effect lib rops (st s') t f a = Inr x"
  have ok: "store_ok (st s)" using assms(1,2) by (rule ledger_reachable_ok)
  from row_later [OF ok assms(4,3)] obtain e' where e': "tget (effects (st s')) (pp_effect_id p) = Some e'" "evolves e e'" .
  obtain s2 sn cr where x: "x = (s2, sn, cr)" by (cases x)
  from h obtain project where "prepare_existing lib rops (st s') t f a p project e' = Inr (s2, sn, cr)"
    by (rule prepare_effect_cases) (use assms(5) e'(1) x in auto)
  then have "same_request f p (pa_resource_fence a) project e'" by (rule prepare_existing_Inr)
  with e'(2) assms(6) show False by (auto simp: evolves_def same_identity_def same_request_def)
qed

end
