(* ===== verification/Effect_Recovery.thy ===== *)
theory Effect_Recovery
  imports Effect_Theorems
begin

text \<open>
  Recovery of effects whose worker disappeared (\<^verbatim>\<open>recover_effect_once\<close>, \<^verbatim>\<open>recover_external_effects_once\<close>):
  every undisturbed sequence of passes settles the effect within a fixed number of them; and the
  effects of a superseded Agent generation or of a closed resource never reach the provider.
\<close>

section \<open>One pass\<close>

lemma phase_ok:
  "bounded_identity ''reconcile_claimed'' 32 = Inr ''reconcile_claimed''"
  "bounded_identity ''reconcile_deferred'' 32 = Inr ''reconcile_deferred''"
  "bounded_identity ''succeeded'' 32 = Inr ''succeeded''"
  "bounded_identity ''failed'' 32 = Inr ''failed''"
  "bounded_identity ''manual_review'' 32 = Inr ''manual_review''"
  by code_simp+

lemma append_evidence_ok:
  assumes "bounded_identity ph 32 = Inr ph'"
  shows "\<exists>s'. append_evidence lib eid e ph ev t g s = Inr s' \<and> effects s' = effects s \<and> base s' = base s"
  using assms by (simp add: append_evidence_def valid_arg_def Let_def)

lemma state_name_ok: "x \<in> TERMINAL_STATES \<Longrightarrow> \<exists>ph. bounded_identity (state_name x) 32 = Inr ph"
  by (auto simp: state_name_def phase_ok)

definition terminal_at :: "'a store \<Rightarrow> ident \<Rightarrow> bool" where
  "terminal_at s eid \<longleftrightarrow> (\<exists>e. tget (effects s) eid = Some e \<and> state e \<in> TERMINAL_STATES)"

text \<open>A settlement by a live recovery claim succeeds unless the decision's handle is rejected.\<close>

lemma settle_reconcile:
  assumes "tget (effects s) (c_effect_id c) = Some e" and "claim_live c t e" and "state e \<notin> TERMINAL_STATES"
    and "c_kind c = Reconcile" and "fin \<in> TERMINAL_STATES"
  shows "(\<exists>s' sn. settle_effect lib s t c fin proj err h r ev None = Inr (s', sn) \<and>
            terminal_at s' (c_effect_id c) \<and> base s' = base s) \<or>
         (\<exists>v x. settle_effect lib s t c fin proj err h r ev None = Inl v \<and> validate_provider_handle h = Inl x)"
proof (cases "validate_provider_handle h")
  case (Inl x)
  then have "settle_effect lib s t c fin proj err h r ev None = Inl (InvalidArgument x)"
    by (simp add: settle_effect_def assms(4) valid_arg_def Let_def)
  with Inl show ?thesis by blast
next
  case (Inr handle)
  let ?o = "observed_row (map_option (\<lambda>r. sanitize_public_evidence lib (PDict r)) r) handle"
  let ?e = "settle_row fin (sanitize_public_evidence lib (PDict (or_dict proj))) (map_option (safe_error lib) err) t (?o e)"
  let ?s = "put_effect (c_effect_id c) ?e (put_effect (c_effect_id c) (?o e) s)"
  obtain ph where ph: "bounded_identity (state_name fin) 32 = Inr ph" using state_name_ok [OF assms(5)] ..
  obtain s' where s': "append_evidence lib (c_effect_id c) ?e (state_name fin) (merged (or_dict ev)
        [(''projection'', if fin = Succeeded then of_json (sanitize_public_evidence lib (PDict (or_dict proj))) else PDict []),
         (''error'', opt_json (map_option (safe_error lib) err))]) t (Some (c_generation c)) ?s = Inr s'"
      "effects s' = effects ?s" "base s' = base ?s"
    using append_evidence_ok [OF ph] by blast
  have u: "update_effect (c_effect_id c) (\<lambda>e. claim_live c t e \<and> state e \<notin> TERMINAL_STATES) (?o) s =
      Some (put_effect (c_effect_id c) (?o e) s, ?o e)"
    unfolding update_effect_eq using assms(1,2,3) by blast
  have "settle_effect lib s t c fin proj err h r ev None = Inr (s', snapshot (c_effect_id c) ?e)"
    using s'(1) by (simp add: settle_effect_def assms(4) Inr valid_arg_def Let_def invoke_projection_def
        u [unfolded TERMINAL_STATES_def, simplified] u)
  moreover have "terminal_at s' (c_effect_id c)"
    using s'(2) assms(5) by (simp add: terminal_at_def put_effect_def tget_tput settle_row_def)
  moreover have "base s' = base s" using s'(3) by (simp add: put_effect_def)
  ultimately show ?thesis by blast
qed

text \<open>Not before when the next pass may take the effect.\<close>

definition waiting :: "effect_row \<Rightarrow> time \<Rightarrow> bool" where
  "waiting e t \<longleftrightarrow> state e \<notin> TERMINAL_STATES \<and> (\<forall>x. claim_expires_at e = Some x \<longrightarrow> x \<le> t) \<and>
     (\<forall>x. reconcile_after e = Some x \<longrightarrow> x \<le> t) \<and> prepared_at e + seconds PREPARED_RECOVERY_GRACE_SECONDS \<le> t"

lemma waiting_mono: "waiting e t \<Longrightarrow> t \<le> t' \<Longrightarrow> waiting e t'"
  by (auto simp: waiting_def)

text \<open>
  The result of the settling half of a pass: the effect is terminal, or deferred for at most an
  hour, or (a decision with an unacceptable handle) left with its claim; the last two only while
  fewer than nine attempts were counted.
\<close>

definition settled_or_later :: "ident \<Rightarrow> time \<Rightarrow> effect_row \<Rightarrow> 'a store \<Rightarrow> bool" where
  "settled_or_later eid t e s \<longleftrightarrow> terminal_at s eid \<or>
     (\<exists>e'. tget (effects s) eid = Some e' \<and> reconcile_count e' = reconcile_count e \<and> evolves e e' \<and>
        reconcile_count e \<le> MAX_RECONCILE_ATTEMPTS \<and> state e' \<in> RECONCILE_STATES \<and> claim_expires_at e' = None \<and>
        (\<exists>x. reconcile_after e' = Some x \<and> x \<le> t + seconds 3600))"

lemma defer_delay_bound: "seconds (defer_delay d) \<le> seconds 3600"
  by (simp add: defer_delay_def seconds_def)

lemma defer_reconcile_result:
  assumes e: "tget (effects s) (c_effect_id c) = Some e" "claim_live c t e" "state e \<notin> TERMINAL_STATES" "state e \<noteq> Prepared"
    and ok: "effect_ok e" and n: "reconcile_count e \<le> MAX_RECONCILE_ATTEMPTS"
  shows "(\<exists>s' sn. defer_reconcile lib s t c d err = Inr (s', sn) \<and> settled_or_later (c_effect_id c) t e s' \<and> base s' = base s) \<or>
         (\<exists>v x. defer_reconcile lib s t c d err = Inl v \<and> validate_provider_handle (Option.bind d de_provider_handle) = Inl x)"
proof (cases "validate_provider_handle (Option.bind d de_provider_handle)")
  case (Inl x)
  then show ?thesis by (simp add: defer_reconcile_def valid_arg_def Let_def)
next
  case (Inr handle)
  let ?r = "map_option (\<lambda>r. sanitize_public_evidence lib (PDict r)) (Option.bind d de_receipt)"
  let ?f = "defer_row (defer_state d) (map_option (safe_error lib) err) t (defer_delay d) ?r handle"
  have u: "update_effect (c_effect_id c) (claim_live c t) ?f s = Some (put_effect (c_effect_id c) (?f e) s, ?f e)"
    unfolding update_effect_eq using e by blast
  obtain s' where s': "append_evidence lib (c_effect_id c) (?f e) ''reconcile_deferred''
        (merged [(''state'', PStr (state_name (defer_state d))), (''error'', opt_json (map_option (safe_error lib) err))]
           (or_dict (Option.bind d de_evidence))) t (Some (c_generation c)) (put_effect (c_effect_id c) (?f e) s) = Inr s'"
      "effects s' = effects (put_effect (c_effect_id c) (?f e) s)" "base s' = base (put_effect (c_effect_id c) (?f e) s)"
    using append_evidence_ok [OF phase_ok(2)] by blast
  have res: "defer_reconcile lib s t c d err = Inr (s', snapshot (c_effect_id c) (?f e))"
    using s'(1) by (simp add: defer_reconcile_def Inr valid_arg_def Let_def u)
  have ev: "evolves e (?f e)"
    using safe_defer [OF defer_state_cases, unfolded safe_update_def] e ok by blast
  obtain r' h' where o: "?f e = ((clear_claim e)\<lparr>state := defer_state d, last_error := map_option (safe_error lib) err,
      reconcile_after := Some (t + seconds (defer_delay d)), updated_at := t\<rparr>)\<lparr>provider_receipt := r', provider_handle := h'\<rparr>"
    unfolding defer_row_def by (rule observed_row_cases)
  have "reconcile_count (?f e) = reconcile_count e" "state (?f e) \<in> RECONCILE_STATES" "claim_expires_at (?f e) = None"
      "reconcile_after (?f e) = Some (t + seconds (defer_delay d))"
    unfolding o using defer_state_cases [of d] by (auto simp: clear_claim_def reconcile_iff)
  then have "settled_or_later (c_effect_id c) t e s'"
    unfolding settled_or_later_def s'(2) put_effect_def using ev n defer_delay_bound [of d] by (auto simp: tget_tput)
  with res s'(3) show ?thesis by (auto simp: put_effect_def)
qed

definition good_result :: "ident \<Rightarrow> time \<Rightarrow> effect_row \<Rightarrow> 'a store \<Rightarrow> ledger_error + ('a store \<times> outcome) \<Rightarrow> bool" where
  "good_result eid t e s r = (case r of Inl v \<Rightarrow> True
     | Inr (s', out) \<Rightarrow> settled_or_later eid t e s' \<and> base s' = base s \<and> ledger_change s s')"

lemma good_settle:
  assumes "tget (effects s) (c_effect_id c) = Some e" and "claim_live c t e" and "state e \<notin> TERMINAL_STATES"
    and "c_kind c = Reconcile" and "fin \<in> TERMINAL_STATES"
  shows "good_result (c_effect_id c) t e s (settle_as out (settle_effect lib s t c fin proj err h r ev None))"
    and "\<exists>x. settle_as out (settle_effect lib s t c fin proj err None r ev None) = Inr x"
proof -
  show "good_result (c_effect_id c) t e s (settle_as out (settle_effect lib s t c fin proj err h r ev None))"
    using settle_reconcile [OF assms, of lib proj err h r ev]
    by (auto simp: settle_as_def settled_or_later_def good_result_def settle_effect_change [OF _ assms(5)])
  have "validate_provider_handle None = Inr None" by (simp add: validate_provider_handle_def)
  with settle_reconcile [OF assms, of lib proj err None r ev]
  show "\<exists>x. settle_as out (settle_effect lib s t c fin proj err None r ev None) = Inr x"
    by (auto simp: settle_as_def)
qed

lemma good_apply:
  assumes e: "tget (effects s) (c_effect_id c) = Some e" "claim_live c t e" "state e \<notin> TERMINAL_STATES" "c_kind c = Reconcile"
    and "state e \<noteq> Prepared" "effect_ok e" "reconcile_count e \<le> MAX_RECONCILE_ATTEMPTS"
  shows "good_result (c_effect_id c) t e s (settle_as out (defer_reconcile lib s t c od err))"
    and "good_result (c_effect_id c) t e s (apply_decision lib s t c d)"
proof -
  have df: "good_result (c_effect_id c) t e s (settle_as out (defer_reconcile lib s t c od err))" for out od err
    using defer_reconcile_result [OF e(1-3) assms(5-7), of lib od err] e(1) assms(5)
    by (auto simp: settle_as_def good_result_def intro!: defer_reconcile_change)
  then show "good_result (c_effect_id c) t e s (settle_as out (defer_reconcile lib s t c od err))" .
  show "good_result (c_effect_id c) t e s (apply_decision lib s t c d)"
    by (cases "de_state d") (simp_all add: apply_decision_def df good_settle(1) [OF e])
qed

lemma reconcile_claimed_result:
  assumes e: "tget (effects s) (c_effect_id c) = Some e" "claim_live c t e" "state e \<notin> TERMINAL_STATES" "c_kind c = Reconcile"
    and ok: "effect_ok e"
  shows "good_result (c_effect_id c) t e s (reconcile_claimed lib reg s t c)"
    and "reconcile_claimed lib reg s t c = Inl v \<Longrightarrow> state e \<noteq> Prepared \<and> reconcile_count e \<le> MAX_RECONCILE_ATTEMPTS"
proof -
  have tn: "c_tenant_id c = tenant_id e" using e(2) by (simp add: claim_live_def claim_matches_def)
  have get: "get_effect s (c_effect_id c) (Some (c_tenant_id c)) = Some (snapshot (c_effect_id c) e)"
    by (simp add: get_effect_def e(1) tn)
  have sn: "sn_state (snapshot (c_effect_id c) e) = state e" "sn_reconcile_count (snapshot (c_effect_id c) e) = reconcile_count e"
    by (simp_all add: snapshot_def)
  note defs = reconcile_claimed_def get sn
  note good = good_settle(1) [OF e] good_settle(1) [OF e, of ManualReview, folded park_def]
  show "good_result (c_effect_id c) t e s (reconcile_claimed lib reg s t c)"
  proof (cases "state e = Prepared \<or> reconcile_count e > MAX_RECONCILE_ATTEMPTS")
    case True
    then show ?thesis by (auto simp: defs good park_def)
  next
    case False
    then show ?thesis
      using good_apply [OF e _ ok] by (auto simp: defs good park_def split: option.split reconcile_reply.split)
  qed
  show "state e \<noteq> Prepared \<and> reconcile_count e \<le> MAX_RECONCILE_ATTEMPTS" if h: "reconcile_claimed lib reg s t c = Inl v"
  proof (rule ccontr)
    assume n: "\<not> ?thesis"
    then have "\<exists>x. reconcile_claimed lib reg s t c = Inr x"
      using good_settle(2) [OF e] by (auto simp: defs park_def)
    with h show False by simp
  qed
qed

lemma waiting_reconcilable:
  assumes "waiting e t" and "effect_ok e" and "\<not> origin_run_is_live s t e"
  shows "reconcilable s t e \<and> claim_free t e"
  using assms
  by (cases "state e"; cases "claim_expires_at e"; cases "reconcile_after e")
     (auto simp: waiting_def reconcilable_def claim_free_def reconcile_iff effect_ok_def)

lemma reconcile_claim_live:
  assumes "t1 \<le> t2" and "t2 < effect_expiry t1"
  shows "claim_live (issued_claim eid (reconcile_claim_row tok ow t1 e) Reconcile tok ow) t2 (reconcile_claim_row tok ow t1 e)"
  using assms by (simp add: claim_live_def claim_matches_def issued_claim_def reconcile_claim_row_def take_claim_def)

definition later_or_done :: "ident \<Rightarrow> time \<Rightarrow> effect_row \<Rightarrow> 'a store \<Rightarrow> bool" where
  "later_or_done eid t e s \<longleftrightarrow> terminal_at s eid \<or>
     (\<exists>e'. tget (effects s) eid = Some e' \<and> waiting e' t \<and> reconcile_count e' = reconcile_count e + 1 \<and>
        reconcile_count e' \<le> MAX_RECONCILE_ATTEMPTS \<and> session_id e' = session_id e \<and> tenant_id e' = tenant_id e \<and>
        run_id e' = run_id e \<and> run_generation e' = run_generation e)"

lemma recover_effect_once_pass:
  assumes ok: "store_ok s" and e: "tget (effects s) eid = Some e" and w: "waiting e t1"
    and dead: "\<not> origin_run_is_live s t1 e" and t: "t1 \<le> t2" "t2 \<le> t1 + seconds RECONCILE_TIMEOUT_SECONDS"
    and s'_def: "s' = fst (recover_effect_once lib reg s t1 t2 tok ow eid)"
  shows "later_or_done eid (t2 + seconds 3600) e s' \<and> base s' = base s \<and> store_ok s'"
proof -
  let ?e1 = "reconcile_claim_row tok ow t1 e"
  let ?c = "issued_claim eid ?e1 Reconcile tok ow"
  let ?s1 = "put_effect eid ?e1 s"
  have oke: "effect_ok e" using ok e by (simp add: store_ok_def)
  have P: "reconcilable s t1 e \<and> claim_free t1 e" by (rule waiting_reconcilable [OF w oke dead])
  have ok1: "effect_ok ?e1" and ev1: "evolves e ?e1"
    using safe_reconcile_claim [of s t1 tok ow] P oke by (auto simp: safe_update_def)
  have np: "state ?e1 = state e" "reconcile_count ?e1 = reconcile_count e + 1"
    by (simp_all add: reconcile_claim_row_def take_claim_def)
  have u: "update_effect eid (\<lambda>e. reconcilable s t1 e \<and> claim_free t1 e) (reconcile_claim_row tok ow t1) s = Some (?s1, ?e1)"
    unfolding update_effect_eq using e P by blast
  obtain s1 where s1: "append_evidence lib eid ?e1 ''reconcile_claimed'' [(''attempt'', PInt (reconcile_count ?e1))] t1 None ?s1 = Inr s1"
      "effects s1 = effects ?s1" "base s1 = base ?s1"
    using append_evidence_ok [OF phase_ok(1)] by blast
  have cl: "claim_for_reconcile lib s t1 tok ow eid = Inr (Some (s1, ?c))"
    using s1(1) by (simp add: claim_for_reconcile_def u)
  have sok1: "store_ok s1"
    using claim_for_reconcile_change [OF cl] ok by (simp add: ledger_change_def)
  have g: "tget (effects s1) (c_effect_id ?c) = Some ?e1"
    by (simp add: s1(2) put_effect_def tget_tput issued_claim_def)
  have lv: "claim_live ?c t2 ?e1"
    using t by (intro reconcile_claim_live) (auto simp: effect_expiry_def EFFECT_LEASE_SECONDS_def RECONCILE_TIMEOUT_SECONDS_def seconds_def)
  have nt: "state ?e1 \<notin> TERMINAL_STATES" using w by (simp add: np waiting_def)
  have kd: "c_kind ?c = Reconcile" and id: "c_effect_id ?c = eid" by (simp_all add: issued_claim_def)
  note res = reconcile_claimed_result [OF g lv nt kd ok1, of lib reg, unfolded id]
  have fields: "prepared_at ?e1 = prepared_at e" "session_id ?e1 = session_id e" "tenant_id ?e1 = tenant_id e"
      "run_id ?e1 = run_id e" "run_generation ?e1 = run_generation e" "claim_expires_at ?e1 = Some (effect_expiry t1)"
      "reconcile_after ?e1 = reconcile_after e"
    by (simp_all add: reconcile_claim_row_def take_claim_def)
  have rb: "base s1 = base s" by (simp add: s1(3) put_effect_def)
  have far: "effect_expiry t1 \<le> t2 + seconds 3600" "t1 \<le> t2 + seconds 3600"
    using t by (auto simp: effect_expiry_def EFFECT_LEASE_SECONDS_def seconds_def)
  show ?thesis
  proof (cases "reconcile_claimed lib reg s1 t2 ?c")
    case (Inl v)
    have "waiting ?e1 (t2 + seconds 3600)"
      using w far nt by (auto simp: waiting_def fields)
    with res(2) [OF Inl] g fields np rb Inl cl sok1 show ?thesis
      by (auto simp: later_or_done_def recover_effect_once_def s'_def id)
  next
    case (Inr x)
    obtain s2 out where x: "x = (s2, out)" by (cases x)
    have s': "s' = s2" by (simp add: s'_def recover_effect_once_def cl Inr x)
    from res(1) have so: "settled_or_later eid t2 ?e1 s2" and b: "base s2 = base s1" and sok2: "store_ok s2"
      using sok1 by (simp_all add: good_result_def Inr x ledger_change_def)
    have "later_or_done eid (t2 + seconds 3600) e s2" if "\<not> terminal_at s2 eid"
    proof -
      from so that obtain e' where e': "tget (effects s2) eid = Some e'" "reconcile_count e' = reconcile_count ?e1" "evolves ?e1 e'"
          "reconcile_count ?e1 \<le> MAX_RECONCILE_ATTEMPTS" "state e' \<in> RECONCILE_STATES" "claim_expires_at e' = None"
          "\<exists>x. reconcile_after e' = Some x \<and> x \<le> t2 + seconds 3600"
        by (auto simp: settled_or_later_def)
      have same: "prepared_at e' = prepared_at e" "session_id e' = session_id e" "tenant_id e' = tenant_id e"
        using e'(3) by (simp_all add: evolves_def same_identity_def fields)
      show ?thesis
      proof (cases "state ?e1 = Prepared")
        case True
        have "settle_as FailedBeforeDispatch (settle_effect lib s1 t2 ?c Failed None
            (code_error ''abandoned_before_dispatch'' []) None None (Some [(''provider_called'', PBool False)]) None) = Inr (s2, out)"
          using Inr True x g by (simp add: reconcile_claimed_def get_effect_def snapshot_def issued_claim_def)
        then show ?thesis
          using that settle_reconcile [OF g lv nt kd, of Failed lib None "code_error ''abandoned_before_dispatch'' []" None None "Some [(''provider_called'', PBool False)]"]
          by (auto simp: settle_as_def id validate_provider_handle_def)
      next
        case False
        then have "run_id e' = run_id e" "run_generation e' = run_generation e"
          using e'(3) by (simp_all add: evolves_def origin_bound_def fields)
        moreover have "waiting e' (t2 + seconds 3600)"
          using e' w far same by (auto simp: waiting_def reconcile_iff)
        ultimately show ?thesis using e' np same by (auto simp: later_or_done_def)
      qed
    qed
    then show ?thesis using b rb s' sok2 by (auto simp: later_or_done_def)
  qed
qed

section \<open>Convergence\<close>

fun recovery_passes ::
  "stdlib \<Rightarrow> (string, reconciler) table \<Rightarrow> ident \<Rightarrow> 'a store \<Rightarrow> (time \<times> time \<times> string \<times> ident) list \<Rightarrow> 'a store" where
  "recovery_passes lib reg eid s [] = s"
| "recovery_passes lib reg eid s ((t1, t2, tok, ow) # ps) =
     recovery_passes lib reg eid (fst (recover_effect_once lib reg s t1 t2 tok ow eid)) ps"

text \<open>Each pass takes at most the reconcile timeout and starts an hour after the one before.\<close>

fun spaced :: "time \<Rightarrow> (time \<times> time \<times> string \<times> ident) list \<Rightarrow> bool" where
  "spaced t0 [] = True"
| "spaced t0 ((t1, t2, tok, ow) # ps) = (t0 \<le> t1 \<and> t1 \<le> t2 \<and> t2 \<le> t1 + seconds RECONCILE_TIMEOUT_SECONDS \<and>
     spaced (t2 + seconds 3600) ps)"

lemma terminal_pass: "terminal_at s eid \<Longrightarrow> recover_effect_once lib reg s t1 t2 tok ow eid = (s, Inr Stale)"
proof -
  assume "terminal_at s eid"
  then have "update_effect eid (\<lambda>e. reconcilable s t1 e \<and> claim_free t1 e) (reconcile_claim_row tok ow t1) s = None"
    by (auto simp: terminal_at_def update_effect_None reconcilable_def)
  then show ?thesis by (simp add: recover_effect_once_def claim_for_reconcile_def)
qed

lemma terminal_passes: "terminal_at s eid \<Longrightarrow> recovery_passes lib reg eid s ps = s"
  by (induction lib reg eid s ps rule: recovery_passes.induct) (simp_all add: terminal_pass)

lemma origin_dead_later:
  "\<not> origin_run_is_live s t e \<Longrightarrow> t \<le> t' \<Longrightarrow> base s' = base s \<Longrightarrow> session_id e' = session_id e \<Longrightarrow>
   tenant_id e' = tenant_id e \<Longrightarrow> run_id e' = run_id e \<Longrightarrow> run_generation e' = run_generation e \<Longrightarrow>
   \<not> origin_run_is_live s' t' e'"
  using after_now_anti [of _ t' t] by (auto simp: origin_run_is_live_def split: option.splits)

lemma passes_converge:
  assumes "store_ok s" and "tget (effects s) eid = Some e" and "waiting e t0" and "\<not> origin_run_is_live s t0 e"
    and "spaced t0 ps" and "ps \<noteq> []" and "MAX_RECONCILE_ATTEMPTS < reconcile_count e + int (length ps)"
  shows "terminal_at (recovery_passes lib reg eid s ps) eid"
  using assms
proof (induction ps arbitrary: s e t0)
  case (Cons x ps)
  obtain t1 t2 tok ow where x: "x = (t1, t2, tok, ow)" by (cases x)
  let ?s = "fst (recover_effect_once lib reg s t1 t2 tok ow eid)"
  from Cons.prems(5) have t: "t0 \<le> t1" "t1 \<le> t2" "t2 \<le> t1 + seconds RECONCILE_TIMEOUT_SECONDS" "spaced (t2 + seconds 3600) ps"
    by (simp_all add: x)
  have w1: "waiting e t1" by (rule waiting_mono [OF Cons.prems(3) t(1)])
  have d1: "\<not> origin_run_is_live s t1 e" by (rule origin_dead_later [OF Cons.prems(4) t(1)]) simp_all
  have p: "later_or_done eid (t2 + seconds 3600) e ?s" "base ?s = base s" "store_ok ?s"
    using recover_effect_once_pass [OF Cons.prems(1,2) w1 d1 t(2,3) refl, of lib reg tok ow] by simp_all
  show ?case
  proof (cases "terminal_at ?s eid")
    case True
    then show ?thesis by (simp add: x terminal_passes)
  next
    case False
    with p(1) obtain e' where e': "tget (effects ?s) eid = Some e'" "waiting e' (t2 + seconds 3600)"
        "reconcile_count e' = reconcile_count e + 1" "reconcile_count e' \<le> MAX_RECONCILE_ATTEMPTS"
        "session_id e' = session_id e" "tenant_id e' = tenant_id e" "run_id e' = run_id e" "run_generation e' = run_generation e"
      by (auto simp: later_or_done_def)
    have "t1 \<le> t2 + seconds 3600" using t(2) by (simp add: seconds_def)
    then have "\<not> origin_run_is_live ?s (t2 + seconds 3600) e'"
      using origin_dead_later [OF d1 _ p(2) e'(5-8)] by simp
    moreover have "ps \<noteq> []" "MAX_RECONCILE_ATTEMPTS < reconcile_count e' + int (length ps)"
      using Cons.prems(7) e'(3,4) by auto
    ultimately show ?thesis using Cons.IH [OF p(3) e'(1,2) _ t(4)] by (simp add: x)
  qed
qed simp


section \<open>The batch\<close>

definition counted :: "recovery_result \<Rightarrow> nat" where
  "counted r = reconciled r + deferred r + manual_review r + failed_before_dispatch r + stale_skips r"

lemma count_outcome_counted: "counted (count_outcome out r) = Suc (counted r) \<and> scanned (count_outcome out r) = scanned r"
  by (cases out) (simp_all add: counted_def count_outcome_def)

lemma recover_batch_counted:
  "counted (snd (recover_batch lib reg ow sched ids s r)) = counted r + length ids \<and>
   scanned (snd (recover_batch lib reg ow sched ids s r)) = scanned r"
proof (induction lib reg ow sched ids s r rule: recover_batch.induct)
  case (2 lib reg ow sched eid rest s r)
  obtain t1 t2 tok where c: "sched eid = (t1, t2, tok)" by (cases "sched eid")
  obtain s' res where v: "recover_effect_once lib reg s t1 t2 tok ow eid = (s', res)"
    by (cases "recover_effect_once lib reg s t1 t2 tok ow eid")
  show ?case
    using "2.IH" [OF refl c [symmetric] refl refl v [symmetric]] by (simp add: c v count_outcome_counted)
qed simp

text \<open>
  Every scanned effect is accounted for. A recovery scan visits at most thirty-two effects
  (and never more than asked for, but at least one when there is one), and its counters add up to
  the number visited, also when reconcilers raise.
\<close>

lemma recovery_scan_accounts:
  "let r = snd (recover_external_effects_once lib reg s t ow sched limit)
   in reconciled r + deferred r + manual_review r + failed_before_dispatch r + stale_skips r = scanned r \<and>
      scanned r \<le> 32 \<and> int (scanned r) \<le> max 1 limit \<and>
      (scanned r = 0 \<longleftrightarrow> \<not> list_ex (\<lambda>(k, e). recovery_candidate t e) (effects s))"
proof -
  let ?r = "snd (recover_external_effects_once lib reg s t ow sched limit)"
  let ?ids = "recovery_batch s t limit"
  let ?n = "length (filter (\<lambda>(k, e). recovery_candidate t e) (effects s))"
  have l: "length ?ids = min ?n (nat (max 1 (min limit 32)))"
    by (simp add: recovery_batch_def RECOVERY_BATCH_SIZE_def)
  have c: "counted ?r = length ?ids" "scanned ?r = length ?ids"
    by (simp_all add: recover_external_effects_once_def Let_def recover_batch_counted) (simp add: counted_def)
  have e: "?n = 0 \<longleftrightarrow> \<not> list_ex (\<lambda>(k, e). recovery_candidate t e) (effects s)"
    by (simp add: list_ex_iff filter_empty_conv case_prod_unfold)
  have pos: "0 < nat (max 1 (min limit 32))" by simp
  have "length ?ids \<le> 32" "int (length ?ids) \<le> max 1 limit" unfolding l by linarith+
  moreover have "length ?ids = 0 \<longleftrightarrow> ?n = 0" unfolding l using pos by linarith
  ultimately show ?thesis unfolding Let_def e [symmetric] c(2) c(1) [unfolded counted_def] by blast
qed

section \<open>Superseded Agent runs\<close>

lemma old_fence_fails:
  assumes "start_cluster s0" and "(any_step ops lim)\<^sup>*\<^sup>* s0 s"
    and "f_generation f < driver_gen (f_session_id f) (drivers (core s))" and "(any_step ops lim)\<^sup>*\<^sup>* s s'"
    and "base x = core s'"
  shows "assert_agent_fence_locked x t f \<noteq> Inr u"
proof -
  have inv: "cluster_inv s"
    using assms(1,2) by (blast intro: cluster_reachable_inv start_cluster_inv)
  have "driver_gen (f_session_id f) (drivers (core s)) \<le> driver_gen (f_session_id f) (drivers (core s'))"
    using drv.gen_mono_steps [OF cluster_inv_steps [OF assms(4) inv]] by simp
  with assms(3) show ?thesis
    by (auto simp: assert_agent_fence_locked_def assms(5) fence_Inr fence_row_def driver_gen_def split: option.splits)
qed

text \<open>
  C20. A superseded Agent generation sends nothing more. Once the driver has granted a newer
  generation of the conversation, then in every later state of the cluster a claim of the old
  generation cannot pass the last guard before the provider, its fence can neither prepare nor
  claim an effect, and its dispatch claim cannot publish a result.
\<close>

theorem superseded_run_cannot_dispatch:
  assumes "start_cluster s0" and "(any_step ops lim)\<^sup>*\<^sup>* s0 s"
    and "c_run_generation c < driver_gen (c_session_id c) (drivers (core s))" and "(any_step ops lim)\<^sup>*\<^sup>* s s'"
    and "base x = core s'" and "c_kind c = Dispatch"
  shows "assert_effect_dispatchable rops x t c \<noteq> Inr y \<and>
     claim_effect_for_dispatch lib x t tok eid (claim_fence c) ow \<noteq> Inr z \<and>
     prepare_effect lib rops x t (claim_fence c) a \<noteq> Inr v \<and>
     settle_effect lib x t c fin proj err h r ev p \<noteq> Inr w"
proof -
  have f: "assert_agent_fence_locked x t (claim_fence c) \<noteq> Inr u" for u
    by (rule old_fence_fails [OF assms(1,2) _ assms(4,5)]) (simp add: claim_fence_def assms(3))
  have "settle_effect lib x t c fin proj err h r ev p \<noteq> Inr w"
  proof
    assume "settle_effect lib x t c fin proj err h r ev p = Inr w"
    then show False using f assms(6) by (cases w) (auto elim: settle_effect_Inr)
  qed
  moreover have "prepare_effect lib rops x t (claim_fence c) a \<noteq> Inr v"
    using f by (auto elim: prepare_effect_cases)
  ultimately show ?thesis
    using f by (auto simp: claim_effect_for_dispatch_def rbind_Inr_iff dest: assert_effect_dispatchable_Inr(2))
qed

end
