(* ===== verification/Resource_Theorems.thy ===== *)
theory Resource_Theorems
  imports Effect_Theorems
begin

text \<open>
  Resource control under the ledger: no operation reopens a closed admission, changes the owner or
  the epoch of a resource; so the effects bound to a closed resource never reach the provider. The
  table constraint \<^verbatim>\<open>ck_resource_control_hold\<close> (only an active lease is open) is kept by all.
\<close>

definition resource_ok :: "resource_row \<Rightarrow> bool" where
  "resource_ok r \<longleftrightarrow> 0 < r_epoch r \<and> (r_status r = Active \<or> \<not> r_open r)"

definition resource_kept :: "resource_row \<Rightarrow> resource_row \<Rightarrow> bool" where
  "resource_kept r r' \<longleftrightarrow> r_epoch r' = r_epoch r \<and> r_owner_kind r' = r_owner_kind r \<and> r_owner_id r' = r_owner_id r \<and>
     r_workspace_id r' = r_workspace_id r \<and> r_physical_id r' = r_physical_id r \<and> (\<not> r_open r \<longrightarrow> \<not> r_open r') \<and>
     (resource_ok r \<longrightarrow> resource_ok r')"

definition resources_kept :: "'a store \<Rightarrow> 'a store \<Rightarrow> bool" where
  "resources_kept s s' \<longleftrightarrow> (\<forall>rid. case tget (resources s) rid of
       None \<Rightarrow> (\<forall>r'. tget (resources s') rid = Some r' \<longrightarrow> resource_ok r')
     | Some r \<Rightarrow> (\<exists>r'. tget (resources s') rid = Some r' \<and> resource_kept r r'))"

lemma resource_kept_refl [simp]: "resource_kept r r"
  by (simp add: resource_kept_def)

lemma resource_kept_trans: "resource_kept r r' \<Longrightarrow> resource_kept r' r'' \<Longrightarrow> resource_kept r r''"
  by (auto simp: resource_kept_def)

lemma resources_kept_same: "resources s' = resources s \<Longrightarrow> resources_kept s s'"
  by (auto simp: resources_kept_def split: option.split)

lemma resources_kept_trans:
  assumes "resources_kept s s1" and "resources_kept s1 s2"
  shows "resources_kept s s2"
  unfolding resources_kept_def
proof (intro allI)
  fix rid
  note a = assms(1) [unfolded resources_kept_def, rule_format, of rid]
    and b = assms(2) [unfolded resources_kept_def, rule_format, of rid]
  show "case tget (resources s) rid of
       None \<Rightarrow> (\<forall>r'. tget (resources s2) rid = Some r' \<longrightarrow> resource_ok r')
     | Some r \<Rightarrow> (\<exists>r'. tget (resources s2) rid = Some r' \<and> resource_kept r r')"
    using a b by (auto simp: resource_kept_def split: option.splits)
qed

lemma resources_kept_put:
  "tget (resources s) rid = Some r \<Longrightarrow> resource_kept r r' \<Longrightarrow> resources_kept s (put_resource rid r' s)"
  by (auto simp: resources_kept_def put_resource_def tget_tput split: option.split)

lemma resources_kept_new:
  "tget (resources s) rid = None \<Longrightarrow> resource_ok r' \<Longrightarrow> resources_kept s (put_resource rid r' s)"
  by (auto simp: resources_kept_def put_resource_def tget_tput split: option.split)

section \<open>Operations\<close>

lemma update_effect_resources: "update_effect eid P f s = Some (s', e) \<Longrightarrow> resources s' = resources s"
  by (auto simp: update_effect_eq put_effect_def)

lemma update_log_resources:
  "update_effect eid P f s = Some (s1, e) \<Longrightarrow> append_evidence lib eid' e' ph ev t g s1 = Inr s' \<Longrightarrow>
   resources s' = resources s"
  by (auto simp: update_effect_eq put_effect_def dest!: append_evidence_Inr(3))

lemmas keeps_resources = update_effect_resources update_log_resources

lemma ledger_ops_resources:
  "claim_effect_for_dispatch lib s t tok eid f ow = Inr (s', c) \<Longrightarrow> resources s' = resources s"
  "abandon_effect_before_dispatch lib s t cl reason = Inr s' \<Longrightarrow> resources s' = resources s"
  "renew_effect_claim s t cl = Inr (s', c) \<Longrightarrow> resources s' = resources s"
  "record_effect_dispatch_progress lib s t cl ph ev = Inr s' \<Longrightarrow> resources s' = resources s"
  "record_effect_accepted lib s t cl h r = Inr (s', sn) \<Longrightarrow> resources s' = resources s"
  "record_effect_outcome_unknown lib s t cl er h r2 = Inr (s', sn) \<Longrightarrow> resources s' = resources s"
  "claim_for_reconcile lib s t tok ow eid = Inr (Some (s', c)) \<Longrightarrow> resources s' = resources s"
  "defer_reconcile lib s t cl d err = Inr (s', sn) \<Longrightarrow> resources s' = resources s"
  by (auto simp: claim_effect_for_dispatch_def abandon_effect_before_dispatch_def renew_effect_claim_def
      record_effect_dispatch_progress_def record_effect_accepted_def record_effect_outcome_unknown_def
      claim_for_reconcile_def defer_reconcile_def rbind_Inr_iff Let_def
      elim: keeps_resources split: option.splits if_splits)

lemma settle_effect_resources:
  "settle_effect lib s t c fin proj err h r ev p = Inr (s', sn) \<Longrightarrow> resources s' = resources s"
  by (erule settle_effect_Inr)

lemma acknowledge_resources:
  assumes "acknowledge_parked_effects_locked lib s t tenant sids user cmd lim = Inr (s', ids)"
  shows "resources s' = resources s"
proof -
  have "acknowledge_all lib t user cmd rows s = Inr s' \<Longrightarrow> resources s' = resources s" for rows
    by (induction rows arbitrary: s)
       (auto simp: rbind_Inr_iff acknowledge_one_def put_effect_def dest!: append_evidence_Inr(3))
  with assms show ?thesis
    by (auto simp: acknowledge_parked_effects_locked_def rbind_Inr_iff Let_def split: if_splits)
qed

lemma prepare_effect_resources:
  assumes "prepare_effect lib rops s t f a = Inr (s', sn, cr)"
  shows "resources s' = resources s"
  using assms
proof (rule prepare_effect_cases)
  fix p project
  assume c: "(case tget (effects s) (pp_effect_id p) of
            Some e \<Rightarrow> prepare_existing lib rops s t f a p project e
          | None \<Rightarrow> prepare_new lib rops s t f a p project) = Inr (s', sn, cr)"
  show ?thesis
  proof (cases "tget (effects s) (pp_effect_id p)")
    case None
    with c have "prepare_new lib rops s t f a p project = Inr (s', sn, cr)" by simp
    from prepare_new_Inr(3) [OF this] show ?thesis by (auto simp: put_effect_def dest!: append_evidence_Inr(3))
  next
    case (Some e)
    with c have "prepare_existing lib rops s t f a p project e = Inr (s', sn, cr)" by simp
    from prepare_existing_Inr(4) [OF this] show ?thesis by (auto simp: put_effect_def dest!: append_evidence_Inr(3))
  qed
qed

lemma validate_locked_Inr:
  "validate_locked rops s t fence u sid req = Inr r \<Longrightarrow>
   tget (resources s) (rf_resource_id fence) = Some r \<and> (req \<longrightarrow> admission_open (rf_resource_id fence) r fence t)"
  by (auto simp: validate_locked_def rbind_Inr_iff split: option.splits if_splits)

lemma guard_resource_dispatch_resources:
  assumes "guard_resource_dispatch rops s t c consume = Inr s'"
  shows "resources_kept s s'"
    and "tget (effects s) (c_effect_id c) = Some e \<Longrightarrow> resource e = Some fence \<Longrightarrow>
      \<exists>r. tget (resources s) (rf_resource_id fence) = Some r \<and> r_open r"
proof -
  have g: "guard_effect_locked rops s eid e rid r consume = Inr s' \<Longrightarrow> tget (resources s) rid = Some r \<Longrightarrow> resources_kept s s'"
    for eid e rid r
    by (auto simp: guard_effect_locked_def Let_def resources_kept_same resource_kept_def resource_ok_def
        intro!: resources_kept_put split: option.splits if_splits)
  then show "resources_kept s s'"
    using assms
    by (auto simp: guard_resource_dispatch_def validate_effect_locked_def rbind_Inr_iff resources_kept_same
        dest!: validate_locked_Inr split: option.splits if_splits)
  show "\<exists>r. tget (resources s) (rf_resource_id fence) = Some r \<and> r_open r"
    if "tget (effects s) (c_effect_id c) = Some e" "resource e = Some fence"
    using assms that
    by (auto simp: guard_resource_dispatch_def validate_effect_locked_def rbind_Inr_iff admission_open_def
        dest!: validate_locked_Inr split: if_splits)
qed

text \<open>Marking and asserting change resources only through the guard.\<close>

lemma mark_and_assert_guard:
  "mark_effect_submitting lib rops s t c = Inr s' \<Longrightarrow>
     \<exists>s1. guard_resource_dispatch rops s t c True = Inr s1 \<and> resources s' = resources s1"
  "assert_effect_dispatchable rops s t c = Inr s' \<Longrightarrow>
     \<exists>s1. guard_resource_dispatch rops s t c False = Inr s1 \<and> resources s' = resources s1"
  by (auto simp: mark_effect_submitting_def assert_effect_dispatchable_def rbind_Inr_iff
      split: option.splits if_splits elim!: keeps_resources)

lemma mark_and_assert_resources:
  "mark_effect_submitting lib rops s t c = Inr s' \<Longrightarrow> resources_kept s s'"
  "assert_effect_dispatchable rops s t c = Inr s' \<Longrightarrow> resources_kept s s'"
  by (auto dest!: mark_and_assert_guard dest: guard_resource_dispatch_resources(1)
      intro: resources_kept_trans resources_kept_same)

lemma enroll_resources: "enroll_desktop lib rops s t dt ws user = Inr (s', rf) \<Longrightarrow> resources_kept s s'"
  by (auto simp: enroll_desktop_def enroll_desktop_locked_def rbind_Inr_iff Let_def resources_kept_same
      resource_ok_def intro!: resources_kept_new split: option.splits if_splits prod.splits)

lemma close_resources: "close_admission_locked rops s t fence user = Inr (s', rr) \<Longrightarrow> resources_kept s s'"
  by (auto simp: close_admission_locked_def rbind_Inr_iff Let_def resource_kept_def resource_ok_def
      intro!: resources_kept_put split: option.splits if_splits)

lemma heartbeat_resources: "heartbeat rops s t fence user ttl = Inr (s', rr) \<Longrightarrow> resources_kept s s'"
  by (auto simp: heartbeat_def rbind_Inr_iff Let_def resource_kept_def resource_ok_def
      intro!: resources_kept_put split: option.splits if_splits)

lemma expire_fold:
  assumes "distinct (map fst rows)" and "\<forall>(k, r) \<in> set rows. tget (resources s) k = Some r"
  shows "resources_kept s (fold (\<lambda>(k, r). put_resource k (r\<lparr>r_status := Hold, r_open := False, r_updated_at := t\<rparr>)) rows s)"
  using assms
proof (induction rows arbitrary: s)
  case (Cons x rows)
  obtain k r where x: "x = (k, r)" by (cases x)
  let ?s = "put_resource k (r\<lparr>r_status := Hold, r_open := False, r_updated_at := t\<rparr>) s"
  have "resources_kept s ?s"
    using Cons.prems(2) by (intro resources_kept_put [of s k r]) (auto simp: x resource_kept_def resource_ok_def)
  moreover have "\<forall>(k', r') \<in> set rows. tget (resources ?s) k' = Some r'"
    using Cons.prems by (force simp: x put_resource_def tget_tput)
  ultimately show ?case using Cons.IH [of ?s] Cons.prems(1) by (auto simp: x intro: resources_kept_trans)
qed (simp add: resources_kept_same)

lemma expire_resources:
  assumes "twf (resources s)"
  shows "resources_kept s (fst (expire_leases s t limit))"
proof -
  have d: "distinct (map fst (filter P (resources s)))" for P
    using assms unfolding twf_def by (rule distinct_map_filter)
  have "distinct (map fst (due_leases s t limit))"
    using d by (simp add: due_leases_def take_map [symmetric] distinct_map flip: set_filter)
  moreover have "\<forall>(k, r) \<in> set (due_leases s t limit). tget (resources s) k = Some r"
    using assms by (auto simp: due_leases_def tget_iff_in dest!: in_set_takeD)
  ultimately show ?thesis by (simp add: expire_leases_def Let_def expire_fold)
qed

section \<open>Closed for good\<close>

lemma fold_put_twf: "twf (resources s) \<Longrightarrow> twf (resources (fold (\<lambda>(k, r). put_resource k (g r)) rows s))"
  by (induction rows arbitrary: s) (auto simp: put_resource_def twf_tput)

lemma put_resource_twf: "twf (resources s) \<Longrightarrow> twf (resources (put_resource k r s))"
  by (simp add: put_resource_def twf_tput)

lemma guard_resource_dispatch_twf:
  "guard_resource_dispatch rops s t c consume = Inr s' \<Longrightarrow> twf (resources s) \<Longrightarrow> twf (resources s')"
  by (auto simp: guard_resource_dispatch_def validate_effect_locked_def guard_effect_locked_def rbind_Inr_iff Let_def
      put_resource_twf split: option.splits if_splits)

lemma mark_and_assert_twf:
  "mark_effect_submitting lib rops s t c = Inr s' \<Longrightarrow> twf (resources s) \<Longrightarrow> twf (resources s')"
  "assert_effect_dispatchable rops s t c = Inr s' \<Longrightarrow> twf (resources s) \<Longrightarrow> twf (resources s')"
  by (auto dest!: mark_and_assert_guard dest: guard_resource_dispatch_twf)

lemma ledger_step_resources:
  assumes "ledger_step lib rops s s'" and "twf (resources (st s))"
  shows "resources_kept (st s) (st s') \<and> twf (resources (st s'))"
  using assms
proof (induction rule: ledger_step.induct)
  case (Submit s c s')
  then show ?case using mark_and_assert_resources mark_and_assert_twf by fastforce
next
  case (AssertSend s c s')
  then show ?case using mark_and_assert_resources mark_and_assert_twf by fastforce
next
  case (Enroll s dt ws user s' rf)
  then have "twf (resources s')"
    by (auto simp: enroll_desktop_def enroll_desktop_locked_def rbind_Inr_iff Let_def put_resource_twf
        split: option.splits if_splits prod.splits)
  with Enroll enroll_resources show ?case by fastforce
next
  case (Close s fence user s' rr)
  then have "twf (resources s')"
    by (auto simp: close_admission_locked_def rbind_Inr_iff Let_def put_resource_twf split: option.splits if_splits)
  with Close close_resources show ?case by fastforce
next
  case (Heartbeat s fence user ttl s' rr)
  then have "twf (resources s')"
    by (auto simp: heartbeat_def rbind_Inr_iff Let_def put_resource_twf split: option.splits if_splits)
  with Heartbeat heartbeat_resources show ?case by fastforce
next
  case (Expire s limit)
  then show ?case by (simp add: expire_resources) (simp add: expire_leases_def Let_def fold_put_twf)
qed (simp_all add: resources_kept_same prepare_effect_resources ledger_ops_resources settle_effect_resources
      acknowledge_resources)

lemma ledger_steps_resources:
  assumes "(ledger_step lib rops)\<^sup>*\<^sup>* s s'" and "twf (resources (st s))"
  shows "resources_kept (st s) (st s') \<and> twf (resources (st s'))"
  using assms
  by (induction rule: rtranclp_induct)
     (auto simp: resources_kept_same dest: ledger_step_resources intro: resources_kept_trans)


end
