(* ===== verification/Effect_Examples.thy ===== *)
theory Effect_Examples
  imports Effect_Recovery Resource_Theorems Driver_Examples
begin

text \<open>
  A concrete run of the ledger, used by the witnesses: an effect is prepared, claimed and marked as
  submitting; its worker reports an unknown outcome; much later a recovery worker claims it.
\<close>

definition lx_rops :: "unit resource_ops" where
  "lx_rops = \<lparr>active_membership = (\<lambda>_ _ _. True), active_user = (\<lambda>_ _. True), load_observation = (\<lambda>_ _ _ _ _ _. None)\<rparr>"

definition lx_fence :: effect_run_fence where
  "lx_fence = \<lparr>f_session_id = ''s'', f_tenant_id = ''u'', f_run_id = ''r1'', f_generation = 1\<rparr>"

definition lx_args :: "char \<Rightarrow> prepare_args" where
  "lx_args d = \<lparr>pa_adapter = ''shell'', pa_provider = ''host'', pa_operation = ''run'', pa_logical_key = ''k'',
     pa_request_payload = PNone, pa_request_digest = Some (replicate 64 d), pa_project_id = None,
     pa_idempotency_key = None, pa_safe_context = None, pa_resource_fence = None\<rparr>"

definition lx_base :: "unit db" where
  "lx_base = ex_db\<lparr>drivers := [(''s'', granted_row (ex_worker ''w1'') 0 ''u'' 1 ''r1'' Running None)]\<rparr>"

definition lx0 :: "unit store" where
  "lx0 = \<lparr>base = lx_base, effects = [], evidence_log = [], resources = [], desktops = []\<rparr>"

definition lx_id :: ident where "lx_id = ''effect_digest''"

definition lx_plan :: "char \<Rightarrow> prepare_plan" where
  "lx_plan d = \<lparr>pp_adapter = ''shell'', pp_provider = ''host'', pp_operation = ''run'', pp_digest = replicate 64 d,
     pp_effect_id = lx_id, pp_provider_key = ''openbox-effect-digest'',
     pp_context = sanitize_public_evidence example_lib (PDict [])\<rparr>"

definition lx_row0 :: effect_row where "lx_row0 = new_effect lx_fence (lx_plan CHR ''0'') None ''p'' 0"
definition lx_row1 :: effect_row where "lx_row1 = take_claim Dispatch ''t1'' ''w'' 0 lx_row0"
definition lx_row2 :: effect_row where "lx_row2 = submit_row 0 lx_row1"

definition lx_claim :: effect_claim where "lx_claim = issued_claim lx_id lx_row1 Dispatch ''t1'' ''w''"

section \<open>Evaluation\<close>

lemma logged:
  assumes "bounded_identity ph 32 = Inr ph'"
  shows "append_evidence lib eid e ph ev t g s = Inr (projr (append_evidence lib eid e ph ev t g s))"
    and "effects (projr (append_evidence lib eid e ph ev t g s)) = effects s"
    and "base (projr (append_evidence lib eid e ph ev t g s)) = base s"
    and "resources (projr (append_evidence lib eid e ph ev t g s)) = resources s"
    and "desktops (projr (append_evidence lib eid e ph ev t g s)) = desktops s"
  using assms by (simp_all add: append_evidence_def valid_arg_def Let_def)

lemma lx_identities:
  "bounded_identity ''shell'' 64 = Inr ''shell''" "bounded_identity ''host'' 64 = Inr ''host''"
  "bounded_identity ''run'' 64 = Inr ''run''" "bounded_identity ''k'' 512 = Inr ''k''"
  "validate_idempotency_key ''openbox-effect-digest'' = Inr ''openbox-effect-digest''"
  "stable_effect_id example_lib ''u'' ''s'' ''shell'' ''run'' ''k'' = lx_id"
  "stable_idempotency_key example_lib lx_id = ''openbox-effect-digest''"
  by code_simp+

lemma lx_phases:
  "bounded_identity ''prepared'' 32 = Inr ''prepared''" "bounded_identity ''claim_acquired'' 32 = Inr ''claim_acquired''"
  "bounded_identity ''submitting'' 32 = Inr ''submitting''" "bounded_identity ''outcome_unknown'' 32 = Inr ''outcome_unknown''"
  by code_simp+

lemma lx_plan_ok: "d \<in> {CHR ''0'', CHR ''1''} \<Longrightarrow> plan_prepare example_lib lx_fence (lx_args d) = Inr (lx_plan d)"
  by (auto simp: plan_prepare_def lx_fence_def lx_args_def lx_plan_def valid_arg_def lx_identities nonempty_def
      is_sha256_def list_all_iff Let_def or_dict_def)

lemma lx_fence_ok:
  assumes "base s = lx_base" and "t < seconds 60"
  shows "assert_agent_fence_locked s t lx_fence = Inr ()"
  using assms
  by (simp add: assert_agent_fence_locked_def fence_Inr lx_fence_def lx_base_def ex_db_def owned_session_def tget_def
      fence_row_def lease_expiry_def LEASE_SECONDS_def)

lemma lx_project: "base s = lx_base \<Longrightarrow> session_project s lx_fence = Some ''p''"
  by (simp add: session_project_def lx_base_def ex_db_def open_session_def owned_session_def tget_def lx_fence_def)

definition lx1 :: "unit store" where
  "lx1 = projr (append_evidence example_lib lx_id lx_row0 ''prepared'' [(''adapter'', PStr ''shell''), (''provider'', PStr ''host''),
     (''operation'', PStr ''run''), (''request_hash'', PStr (replicate 64 CHR ''0''))] 0 (Some 0) (put_effect lx_id lx_row0 lx0))"

definition lx2 :: "unit store" where
  "lx2 = projr (append_evidence example_lib lx_id lx_row1 ''claim_acquired'' [(''kind'', PStr ''dispatch''),
     (''owner_digest'', PStr (take 16 (sha256_hex example_lib ''w'')))] 0 None (put_effect lx_id lx_row1 lx1))"

definition lx3 :: "unit store" where
  "lx3 = projr (append_evidence example_lib lx_id lx_row2 ''submitting'' [(''attempt'', PInt (attempt_count lx_row2))] 0 None
     (put_effect lx_id lx_row2 lx2))"

lemma lx_stores:
  "effects lx0 = []" "base lx0 = lx_base" "evidence_log lx0 = []"
  "effects lx1 = [(lx_id, lx_row0)]" "base lx1 = lx_base" "effects lx2 = [(lx_id, lx_row1)]" "base lx2 = lx_base"
  "effects lx3 = [(lx_id, lx_row2)]" "base lx3 = lx_base"
  by (simp_all add: lx0_def lx1_def lx2_def lx3_def logged(2,3) [OF lx_phases(1)] logged(2,3) [OF lx_phases(2)]
      logged(2,3) [OF lx_phases(3)] put_effect_def tput_def)

lemma lx_prepare: "prepare_effect example_lib lx_rops lx0 0 lx_fence (lx_args CHR ''0'') = Inr (lx1, snapshot lx_id lx_row0, True)"
proof -
  have r: "pa_resource_fence (lx_args CHR ''0'') = None" "pa_project_id (lx_args CHR ''0'') = None"
    by (simp_all add: lx_args_def)
  have p: "pp_effect_id (lx_plan d) = lx_id" "pp_adapter (lx_plan d) = ''shell''" "pp_provider (lx_plan d) = ''host''"
      "pp_operation (lx_plan d) = ''run''" "pp_digest (lx_plan d) = replicate 64 d" for d
    by (simp_all add: lx_plan_def)
  have n: "prepare_new example_lib lx_rops lx0 0 lx_fence (lx_args CHR ''0'') (lx_plan CHR ''0'') ''p'' =
      Inr (lx1, snapshot lx_id lx_row0, True)"
    unfolding prepare_new_def p r resource_admits_def lx_row0_def [symmetric] Let_def
    by (subst logged(1) [OF lx_phases(1)]) (simp add: key_taken_def lx_stores(1) lx1_def)
  show ?thesis
    by (simp add: prepare_effect_def lx_plan_ok lx_fence_ok lx_project lx_stores r resource_admits_def p tget_def n)
qed

lemma lx_rows:
  "dispatch_claimable lx_fence 0 lx_row0" "claim_live lx_claim 0 lx_row1" "state lx_row1 = Prepared" "resource lx_row1 = None"
  "claim_live lx_claim 0 lx_row2" "state lx_row2 = Submitting" "resource lx_row2 = None"
  "claim_fence lx_claim = lx_fence" "c_kind lx_claim = Dispatch" "c_effect_id lx_claim = lx_id"
  by (simp_all add: dispatch_claimable_def lx_row2_def submit_row_def lx_row1_def take_claim_def lx_row0_def new_effect_def
      lx_fence_def MAX_DISPATCH_ATTEMPTS_def claim_free_def claim_live_def claim_matches_def lx_claim_def issued_claim_def
      effect_expiry_def EFFECT_LEASE_SECONDS_def claim_fence_def lx_plan_def)

lemma lx_claim_ok: "claim_effect_for_dispatch example_lib lx1 0 ''t1'' lx_id lx_fence ''w'' = Inr (lx2, lx_claim)"
proof -
  have "update_effect lx_id (dispatch_claimable lx_fence 0) (take_claim Dispatch ''t1'' ''w'' 0) lx1 =
      Some (put_effect lx_id lx_row1 lx1, lx_row1)"
    by (simp add: update_effect_def lx_stores tget_def lx_rows lx_row1_def)
  then show ?thesis
    unfolding claim_effect_for_dispatch_def
    by (simp add: lx_fence_ok lx_stores) (subst logged(1) [OF lx_phases(2)], simp add: lx2_def lx_claim_def)
qed

lemma lx_mark_ok: "mark_effect_submitting example_lib lx_rops lx2 0 lx_claim = Inr lx3"
proof -
  have "update_effect lx_id (\<lambda>e. claim_live lx_claim 0 e \<and> state e = Prepared) (submit_row 0) lx2 =
      Some (put_effect lx_id lx_row2 lx2, lx_row2)"
    by (simp add: update_effect_def lx_stores tget_def lx_rows lx_row2_def)
  moreover have "guard_resource_dispatch lx_rops lx2 0 lx_claim True = Inr lx2"
    by (simp add: guard_resource_dispatch_def lx_rows lx_stores tget_def)
  ultimately show ?thesis
    unfolding mark_effect_submitting_def
    by (simp add: lx_rows) (subst logged(1) [OF lx_phases(3)], simp add: lx3_def)
qed

lemma lx_assert_ok: "\<exists>s. assert_effect_dispatchable lx_rops lx3 0 lx_claim = Inr s"
  by (simp add: assert_effect_dispatchable_def guard_resource_dispatch_def lx_rows lx_stores tget_def lx_fence_ok update_effect_def)

section \<open>The run\<close>

definition lx_run :: "unit store \<Rightarrow> time \<Rightarrow> unit ledger" where
  "lx_run s t = \<lparr>clk = t, st = s\<rparr>"

lemma lx_run_simps [simp]: "clk (lx_run s t) = t" "st (lx_run s t) = s" "(lx_run s t)\<lparr>st := s'\<rparr> = lx_run s' t"
  "(lx_run s t)\<lparr>clk := t'\<rparr> = lx_run s t'"
  by (simp_all add: lx_run_def)

lemma lx_start: "start_ledger (lx_run lx0 0)"
  by (simp add: start_ledger_def lx_stores)

lemma lx_reach2: "(ledger_step example_lib lx_rops)\<^sup>*\<^sup>* (lx_run lx0 0) (lx_run lx2 0)"
proof -
  have "ledger_step example_lib lx_rops (lx_run lx0 0) (lx_run lx1 0)"
    using ledger_step.Prepare [of example_lib lx_rops "lx_run lx0 0"] lx_prepare by fastforce
  moreover have "ledger_step example_lib lx_rops (lx_run lx1 0) (lx_run lx2 0)"
    using ledger_step.ClaimDispatch [of example_lib "lx_run lx1 0"] lx_claim_ok by fastforce
  ultimately show ?thesis by (meson converse_rtranclp_into_rtranclp r_into_rtranclp)
qed

lemma lx_reach3: "(ledger_step example_lib lx_rops)\<^sup>*\<^sup>* (lx_run lx0 0) (lx_run lx3 0)"
proof -
  have "ledger_step example_lib lx_rops (lx_run lx2 0) (lx_run lx3 0)"
    using ledger_step.Submit [of example_lib lx_rops "lx_run lx2 0"] lx_mark_ok by fastforce
  with lx_reach2 show ?thesis by (rule rtranclp.rtrancl_into_rtrancl)
qed

text \<open>Two minutes later a recovery worker claims the effect.\<close>

definition lx_row3 :: effect_row where "lx_row3 = reconcile_claim_row ''t2'' ''w2'' (seconds 120) lx_row2"

definition lx4 :: "unit store" where
  "lx4 = projr (append_evidence example_lib lx_id lx_row3 ''reconcile_claimed'' [(''attempt'', PInt (reconcile_count lx_row3))]
     (seconds 120) None (put_effect lx_id lx_row3 lx3))"

definition lx_reclaim :: effect_claim where "lx_reclaim = issued_claim lx_id lx_row3 Reconcile ''t2'' ''w2''"

lemma lx_waiting: "waiting lx_row2 (seconds 120)"
  by (simp add: waiting_def lx_row2_def submit_row_def lx_row1_def take_claim_def lx_row0_def new_effect_def
      effect_expiry_def EFFECT_LEASE_SECONDS_def PREPARED_RECOVERY_GRACE_SECONDS_def seconds_def)

lemma lx_dead: "\<not> origin_run_is_live lx3 (seconds 120) lx_row2"
  by (simp add: origin_run_is_live_def lx_stores lx_base_def tget_def lx_row2_def submit_row_def lx_row1_def
      take_claim_def lx_row0_def new_effect_def lx_fence_def lease_expiry_def LEASE_SECONDS_def seconds_def)

lemma lx_ok3: "store_ok lx3"
  using ledger_reachable_ok [OF lx_start lx_reach3] by simp

lemma lx_row2_in: "tget (effects lx3) lx_id = Some lx_row2"
  by (simp add: lx_stores tget_def)

lemma lx_reclaim_ok: "claim_for_reconcile example_lib lx3 (seconds 120) ''t2'' ''w2'' lx_id = Inr (Some (lx4, lx_reclaim))"
proof -
  have ok: "effect_ok lx_row2" using lx_ok3 lx_row2_in by (simp add: store_ok_def)
  have "update_effect lx_id (\<lambda>e. reconcilable lx3 (seconds 120) e \<and> claim_free (seconds 120) e)
      (reconcile_claim_row ''t2'' ''w2'' (seconds 120)) lx3 = Some (put_effect lx_id lx_row3 lx3, lx_row3)"
    using waiting_reconcilable [OF lx_waiting ok lx_dead] by (simp add: update_effect_def lx_row2_in lx_row3_def)
  then show ?thesis
    unfolding claim_for_reconcile_def
    by (simp) (subst logged(1) [OF phase_ok(1)], simp add: lx4_def lx_reclaim_def)
qed

lemma lx4_stores: "effects lx4 = [(lx_id, lx_row3)]" "base lx4 = lx_base"
  by (simp_all add: lx4_def logged(2,3) [OF phase_ok(1)] put_effect_def tput_def lx_stores)

lemma lx_reach4: "(ledger_step example_lib lx_rops)\<^sup>*\<^sup>* (lx_run lx3 0) (lx_run lx4 (seconds 120))"
proof -
  have "ledger_step example_lib lx_rops (lx_run lx3 0) (lx_run lx3 (seconds 120))"
    using ledger_step.Tick [of "lx_run lx3 0" "seconds 120" example_lib lx_rops] by (simp add: seconds_def)
  moreover have "ledger_step example_lib lx_rops (lx_run lx3 (seconds 120)) (lx_run lx4 (seconds 120))"
    using ledger_step.ClaimReconcile [of example_lib "lx_run lx3 (seconds 120)"] lx_reclaim_ok by fastforce
  ultimately show ?thesis by (meson converse_rtranclp_into_rtranclp r_into_rtranclp)
qed

section \<open>Witnesses\<close>

theorem send_boundary_crossed_once_witness:
  "mark_effect_submitting example_lib lx_rops lx2 0 lx_claim = Inr lx3 \<and>
   mark_effect_submitting example_lib lx_rops lx4 (seconds 120) lx_claim \<noteq> Inr lx3 \<and>
   (\<exists>e. tget (effects lx4) lx_id = Some e \<and> attempt_count e = 1)"
  using send_boundary_crossed_once [OF lx_start lx_reach2, of lx_claim lx3 "lx_run lx4 (seconds 120)" lx_claim "seconds 120" lx3
      "[]" "[]" lx_fence "[]" "(lx4, lx_claim)"] lx_mark_ok lx_reach4 by (auto simp: lx_rows)

lemma one_claim_may_send_witness:
  "\<exists>s1. assert_effect_dispatchable lx_rops lx3 0 lx_claim = Inr s1 \<and>
   (\<forall>tok. assert_effect_dispatchable lx_rops lx3 0 (lx_claim\<lparr>c_token := tok\<rparr>) = Inr s1 \<longleftrightarrow> tok = ''t1'')"
proof -
  obtain s1 where s1: "assert_effect_dispatchable lx_rops lx3 0 lx_claim = Inr s1" using lx_assert_ok ..
  have "tok = ''t1''" if "assert_effect_dispatchable lx_rops lx3 0 (lx_claim\<lparr>c_token := tok\<rparr>) = Inr s1" for tok
    using one_claim_may_send [OF lx_start lx_reach3, of lx_claim s1 "lx_run lx3 0" "lx_claim\<lparr>c_token := tok\<rparr>" s1] s1 that
    by (simp add: lx_claim_def issued_claim_def)
  moreover have "lx_claim\<lparr>c_token := ''t1''\<rparr> = lx_claim" by (simp add: lx_claim_def issued_claim_def)
  ultimately show ?thesis using s1 by metis
qed

lemma lx_reclaim_live:
  "claim_live lx_reclaim (seconds 120) lx_row3" "state lx_row3 = Submitting" "c_kind lx_reclaim = Reconcile"
  "c_effect_id lx_reclaim = lx_id" "claim_generation lx_row3 = 2"
proof -
  show "claim_live lx_reclaim (seconds 120) lx_row3"
    unfolding lx_reclaim_def lx_row3_def by (rule reconcile_claim_live) (simp_all add: effect_expiry_def EFFECT_LEASE_SECONDS_def)
qed (simp_all add: lx_reclaim_def issued_claim_def lx_row3_def reconcile_claim_row_def take_claim_def lx_rows
      lx_row2_def submit_row_def lx_row1_def lx_row0_def new_effect_def)

theorem settled_effects_stay_settled_witness:
  "\<exists>(s :: unit store) e. tget (effects s) lx_id = Some e \<and> state e \<in> TERMINAL_STATES \<and> (\<forall>c t. \<not> claim_live c t e)"
proof -
  have g: "tget (effects lx4) (c_effect_id lx_reclaim) = Some lx_row3" by (simp add: lx4_stores lx_reclaim_live tget_def)
  have nt: "state lx_row3 \<notin> TERMINAL_STATES" by (simp add: lx_reclaim_live)
  have "\<exists>s sn. settle_effect example_lib lx4 (seconds 120) lx_reclaim Failed None None None None None None = Inr (s, sn) \<and>
      terminal_at s lx_id"
    using settle_reconcile [OF g lx_reclaim_live(1) nt lx_reclaim_live(3), of Failed example_lib None None None None None]
    by (auto simp: lx_reclaim_live validate_provider_handle_def)
  then obtain s sn e where s: "settle_effect example_lib lx4 (seconds 120) lx_reclaim Failed None None None None None None = Inr (s, sn)"
      and e: "tget (effects s) lx_id = Some e" "state e \<in> TERMINAL_STATES" by (auto simp: terminal_at_def)
  have "ledger_step example_lib lx_rops (lx_run lx4 (seconds 120)) (lx_run s (seconds 120))"
    using ledger_step.Settle [of example_lib "lx_run lx4 (seconds 120)"] s by fastforce
  then have "(ledger_step example_lib lx_rops)\<^sup>*\<^sup>* (lx_run lx0 0) (lx_run s (seconds 120))"
    using lx_reach3 lx_reach4 by (meson rtranclp.rtrancl_into_rtrancl rtranclp_trans)
  from settled_effects_stay_settled [OF lx_start this _ e(2) rtranclp.rtrancl_refl, of lx_id] e
  have "\<forall>c t. \<not> claim_live c t e" by auto
  with e show ?thesis by blast
qed

lemma stale_claim_powerless_witness:
  "c_generation lx_claim < claim_gen lx_id (lx_run lx4 (seconds 120)) \<and>
   (\<forall>t x. renew_effect_claim lx4 t lx_claim \<noteq> Inr x)"
proof -
  have g: "c_generation lx_claim < claim_gen (c_effect_id lx_claim) (lx_run lx4 (seconds 120))"
    by (simp add: claim_gen_def lx_rows lx4_stores tget_def lx_reclaim_live)
       (simp add: lx_claim_def issued_claim_def lx_row1_def take_claim_def lx_row0_def new_effect_def)
  have "(ledger_step example_lib lx_rops)\<^sup>*\<^sup>* (lx_run lx0 0) (lx_run lx4 (seconds 120))"
    using lx_reach3 lx_reach4 by (rule rtranclp_trans)
  from stale_claim_powerless [OF lx_start this g rtranclp.rtrancl_refl] g show ?thesis by (simp add: lx_rows)
qed

lemma evidence_is_append_only_witness:
  "sequence_of lx_id (evidence_log lx3) = [1..int (length (sequence_of lx_id (evidence_log lx3)))] \<and>
   take (length (evidence_log lx3)) (evidence_log lx4) = evidence_log lx3"
  using evidence_is_append_only [OF lx_start lx_reach3 lx_reach4, of lx_id] by simp

lemma prepare_is_idempotent_witness:
  "prepare_effect example_lib lx_rops lx0 0 lx_fence (lx_args CHR ''0'') = Inr (lx1, snapshot lx_id lx_row0, True) \<and>
   prepare_effect example_lib lx_rops lx1 0 lx_fence (lx_args CHR ''0'') = Inr (lx1, snapshot lx_id lx_row0, False)"
  using prepare_is_idempotent [OF lx_prepare] lx_prepare by (simp add: lx_project lx_stores)

lemma identity_fixes_the_request_witness:
  "\<forall>t x. prepare_effect example_lib lx_rops lx4 t lx_fence (lx_args CHR ''1'') \<noteq> Inr x"
proof (intro allI)
  fix t x
  have p: "plan_prepare example_lib lx_fence (lx_args CHR ''1'') = Inr (lx_plan CHR ''1'')" by (rule lx_plan_ok) simp
  have "tget (effects (st (lx_run lx3 0))) (pp_effect_id (lx_plan CHR ''1'')) = Some lx_row2"
    by (simp add: lx_row2_in lx_plan_def)
  from identity_fixes_the_request [OF lx_start lx_reach3 this lx_reach4 p, of t x]
  show "prepare_effect example_lib lx_rops lx4 t lx_fence (lx_args CHR ''1'') \<noteq> Inr x"
    by (simp add: lx_row2_def submit_row_def lx_row1_def take_claim_def lx_row0_def new_effect_def lx_plan_def)
qed

definition lx_passes :: "(time \<times> time \<times> string \<times> ident) list" where
  "lx_passes = map (\<lambda>i. (seconds (120 + 3700 * i), seconds (121 + 3700 * i), ''t'', ''w2'')) [0..8]"


theorem superseded_run_cannot_dispatch_witness:
  "\<forall>t y. assert_effect_dispatchable lx_rops (lx3\<lparr>base := core ex_s3\<rparr>) t lx_claim \<noteq> Inr y"
proof (intro allI)
  fix t y
  have "c_run_generation lx_claim < driver_gen (c_session_id lx_claim) (drivers (core ex_s3))"
    by (simp add: lx_claim_def issued_claim_def lx_row1_def take_claim_def lx_row0_def new_effect_def lx_fence_def
        ex_s3_def ex_run2_values driver_gen_def tget_def)
  from superseded_run_cannot_dispatch [OF ex_start ex_reachable(1) this rtranclp.rtrancl_refl, of "lx3\<lparr>base := core ex_s3\<rparr>"]
  show "assert_effect_dispatchable lx_rops (lx3\<lparr>base := core ex_s3\<rparr>) t lx_claim \<noteq> Inr y"
    by (simp add: lx_rows)
qed

text \<open>A desktop whose owner has closed admission, and an effect prepared on it before.\<close>

definition lx_desktop :: resource_row where
  "lx_desktop = \<lparr>r_type = ''desktop'', r_provider = ''wuying'', r_physical_id = ''cn:d'', r_workspace_id = ''ws'',
     r_desktop_record_id = Some ''k'', r_owner_kind = Automation, r_owner_id = ''ws'', r_epoch = 1, r_status = Draining,
     r_open = False, r_expires_at = None, r_last_observation_ref = None, r_remote_journal_id = None,
     r_remote_status = None, r_created_at = 0, r_updated_at = 0\<rparr>"

definition lx_closed :: "unit store" where
  "lx_closed = lx3\<lparr>resources := [(''rid'', lx_desktop)], effects := [(lx_id, lx_row1\<lparr>resource := Some (fence_for ''rid'' lx_desktop)\<rparr>)]\<rparr>"


end
