(* ===== verification/Tool_Scheduler.thy ===== *)
theory Tool_Scheduler
  imports OB_Prelude
begin

text \<open>
  \<^verbatim>\<open>src/backend/agent/tool_scheduler.py\<close>: tool bodies run concurrently, everything else is serial and
  in model order. \<open>sched_step\<close> is one step of \<^verbatim>\<open>_run_group\<close> between two suspension points of the
  coroutine; an \<open>event\<close> is what happens there: the abort signal is set, a body task settles, or the
  scheduler goes on with the answer of the callback it awaited. So every interleaving of bodies,
  cancellation and callbacks is a sequence of events. Cancellation of the scheduler's own task and
  an invalid deadline are not modelled; a body that exceeds its deadline is \<open>BodySettles\<close> with the
  result of \<^verbatim>\<open>timed_out\<close>.
\<close>

section \<open>State\<close>

datatype pc = Filling | Preparing | Committing | Waiting | Finishing | Done | Draining | Raised

record ('r, 'e) gstate =
  at :: pc
  slots :: "'r option list"
  started :: nat
  committed :: nat
  skipped :: nat
  aborted :: bool
  in_flight :: "nat list"
  settled :: "nat list"
  first_failure :: "'e option"
  abort_flag :: bool
  commits :: "(nat \<times> 'r) list"

record 'r group =
  size_of :: nat
  parallel_group :: bool
  max_parallel :: nat
  aborted_result :: "nat \<Rightarrow> 'r"

datatype ('r, 'e) answer = Go | SaysExclusive | PrepReady 'r | PrepDispatch | Raises 'e

datatype ('r, 'e) event = AbortSet | BodySettles nat 'r | BodyFails nat 'e | Scheduler "('r, 'e) answer"

definition start_group :: "'r group \<Rightarrow> bool \<Rightarrow> ('r, 'e) gstate" where
  "start_group g ab = \<lparr>at = Filling, slots = replicate (size_of g) None, started = 0, committed = 0, skipped = 0,
     aborted = ab, in_flight = [], settled = [], first_failure = None, abort_flag = ab, commits = []\<rparr>"

definition remember_failure :: "'e \<Rightarrow> ('r, 'e) gstate \<Rightarrow> ('r, 'e) gstate" where
  "remember_failure err s = s\<lparr>first_failure := (case first_failure s of None \<Rightarrow> Some err | Some f \<Rightarrow> Some f)\<rparr>"

section \<open>Steps\<close>

text \<open>The loop condition of \<^verbatim>\<open>fill_pool\<close>.\<close>

definition may_start :: "'r group \<Rightarrow> ('r, 'e) gstate \<Rightarrow> bool" where
  "may_start g s \<longleftrightarrow> \<not> aborted s \<and> started s < size_of g \<and> length (in_flight s) < max_parallel g"

definition raise_failure :: "pc \<Rightarrow> ('r, 'e) gstate \<Rightarrow> ('r, 'e) gstate" where
  "raise_failure next s = s\<lparr>at := (if first_failure s = None then next else Draining)\<rparr>"

definition fail_now :: "'e \<Rightarrow> ('r, 'e) gstate \<Rightarrow> ('r, 'e) gstate" where
  "fail_now err s = (remember_failure err s)\<lparr>at := Draining\<rparr>"

definition fill_step :: "'r group \<Rightarrow> ('r, 'e) answer \<Rightarrow> ('r, 'e) gstate \<Rightarrow> ('r, 'e) gstate option" where
  "fill_step g a s =
     (if \<not> may_start g s then (if a = Go then Some (s\<lparr>at := Waiting\<rparr>) else None)
      else case a of
        SaysExclusive \<Rightarrow> if started s > 0 \<and> parallel_group g then Some (s\<lparr>at := Waiting\<rparr>) else None
      | Go \<Rightarrow> Some (s\<lparr>at := Preparing, started := Suc (started s)\<rparr>)
      | _ \<Rightarrow> None)"

text \<open>The end of \<^verbatim>\<open>start_call\<close>, once \<^verbatim>\<open>prepare\<close> has answered.\<close>

definition prepare_step :: "'r group \<Rightarrow> ('r, 'e) answer \<Rightarrow> ('r, 'e) gstate \<Rightarrow> ('r, 'e) gstate option" where
  "prepare_step g a s =
     (let index = started s - 1
      in case a of
           PrepReady r \<Rightarrow> Some (raise_failure Committing (s\<lparr>slots := (slots s)[index := Some r]\<rparr>))
         | PrepDispatch \<Rightarrow>
             Some (raise_failure Committing
               (if abort_flag s then s\<lparr>slots := (slots s)[index := Some (aborted_result g index)]\<rparr>
                else s\<lparr>in_flight := in_flight s @ [index]\<rparr>))
         | Raises err \<Rightarrow> Some (fail_now err s)
         | _ \<Rightarrow> None)"

text \<open>\<^verbatim>\<open>commit_ready\<close>, one commit per step, then the failure and abort checks of its callers.\<close>

definition ready_slot :: "('r, 'e) gstate \<Rightarrow> 'r option" where
  "ready_slot s = (if committed s < started s then slots s ! committed s else None)"

definition commit_one :: "'r \<Rightarrow> ('r, 'e) gstate \<Rightarrow> ('r, 'e) gstate" where
  "commit_one r s = s\<lparr>committed := Suc (committed s), commits := commits s @ [(committed s, r)]\<rparr>"

definition commit_step :: "('r, 'e) answer \<Rightarrow> ('r, 'e) gstate \<Rightarrow> ('r, 'e) gstate option" where
  "commit_step a s = (case ready_slot s of
       Some r \<Rightarrow> (case a of
           Go \<Rightarrow> Some (commit_one r s)
         | Raises err \<Rightarrow> Some (fail_now err s)
         | _ \<Rightarrow> None)
     | None \<Rightarrow> if a = Go then Some (raise_failure Filling (s\<lparr>aborted := aborted s \<or> abort_flag s\<rparr>)) else None)"

definition wait_step :: "('r, 'e) answer \<Rightarrow> ('r, 'e) gstate \<Rightarrow> ('r, 'e) gstate option" where
  "wait_step a s =
     (if a \<noteq> Go then None
      else if in_flight s = [] then Some (s\<lparr>at := Finishing\<rparr>)
      else if list_ex (\<lambda>i. i \<in> set (settled s)) (in_flight s)
      then Some (raise_failure Committing (s\<lparr>in_flight := filter (\<lambda>i. i \<notin> set (settled s)) (in_flight s)\<rparr>))
      else None)"

text \<open>After the loop: an aborted group commits its suffix with the synthetic result.\<close>

definition finish_step :: "'r group \<Rightarrow> ('r, 'e) answer \<Rightarrow> ('r, 'e) gstate \<Rightarrow> ('r, 'e) gstate option" where
  "finish_step g a s =
     (if \<not> aborted s
      then (if a \<noteq> Go then None else Some (s\<lparr>at := (if committed s = started s then Done else Raised)\<rparr>))
      else case ready_slot s of
        Some r \<Rightarrow> (case a of Go \<Rightarrow> Some (commit_one r s) | Raises err \<Rightarrow> Some ((remember_failure err s)\<lparr>at := Raised\<rparr>) | _ \<Rightarrow> None)
      | None \<Rightarrow>
          let index = started s + skipped s
          in if index < size_of g
             then (case a of
                 Go \<Rightarrow> Some (s\<lparr>commits := commits s @ [(index, aborted_result g index)], committed := Suc (committed s),
                              skipped := Suc (skipped s)\<rparr>)
               | Raises err \<Rightarrow> Some ((remember_failure err s)\<lparr>at := Raised\<rparr>)
               | _ \<Rightarrow> None)
             else if a = Go then Some (s\<lparr>at := Done\<rparr>) else None)"

text \<open>Quiescence before failure: every started body has settled.\<close>

definition drain_step :: "('r, 'e) answer \<Rightarrow> ('r, 'e) gstate \<Rightarrow> ('r, 'e) gstate option" where
  "drain_step a s = (if a = Go \<and> set (in_flight s) \<subseteq> set (settled s) then Some (s\<lparr>at := Raised\<rparr>) else None)"

definition running :: "('r, 'e) gstate \<Rightarrow> nat \<Rightarrow> bool" where
  "running s i \<longleftrightarrow> i \<in> set (in_flight s) \<and> i \<notin> set (settled s)"

definition sched_step :: "'r group \<Rightarrow> ('r, 'e) event \<Rightarrow> ('r, 'e) gstate \<Rightarrow> ('r, 'e) gstate option" where
  "sched_step g ev s = (case ev of
       AbortSet \<Rightarrow> if abort_flag s then None else Some (s\<lparr>abort_flag := True\<rparr>)
     | BodySettles i r \<Rightarrow>
         if running s i then Some (s\<lparr>slots := (slots s)[i := Some r], settled := i # settled s\<rparr>) else None
     | BodyFails i err \<Rightarrow>
         if running s i then Some ((remember_failure err s)\<lparr>settled := i # settled s\<rparr>) else None
     | Scheduler a \<Rightarrow> (case at s of
           Filling \<Rightarrow> fill_step g a s
         | Preparing \<Rightarrow> prepare_step g a s
         | Committing \<Rightarrow> commit_step a s
         | Waiting \<Rightarrow> wait_step a s
         | Finishing \<Rightarrow> finish_step g a s
         | Draining \<Rightarrow> drain_step a s
         | _ \<Rightarrow> None))"

definition group_step :: "'r group \<Rightarrow> ('r, 'e) gstate \<Rightarrow> ('r, 'e) gstate \<Rightarrow> bool" where
  "group_step g s s' \<longleftrightarrow> (\<exists>ev. sched_step g ev s = Some s')"

text \<open>\<^verbatim>\<open>_GroupResult\<close>.\<close>

record group_result =
  gr_consumed :: nat
  gr_started :: nat
  gr_committed :: nat
  gr_skipped :: nat
  gr_aborted :: bool

definition group_result :: "'r group \<Rightarrow> ('r, 'e) gstate \<Rightarrow> group_result" where
  "group_result g s =
     (if aborted s then \<lparr>gr_consumed = size_of g, gr_started = started s, gr_committed = committed s,
        gr_skipped = skipped s, gr_aborted = True\<rparr>
      else \<lparr>gr_consumed = started s, gr_started = started s, gr_committed = committed s,
        gr_skipped = skipped s, gr_aborted = False\<rparr>)"

section \<open>Invariant\<close>

definition shape_inv :: "'r group \<Rightarrow> ('r, 'e) gstate \<Rightarrow> bool" where
  "shape_inv g s \<longleftrightarrow> 0 < size_of g \<and> 0 < max_parallel g \<and> length (slots s) = size_of g \<and>
     started s + skipped s \<le> size_of g \<and> distinct (in_flight s) \<and> length (in_flight s) \<le> max_parallel g \<and>
     (\<forall>i \<in> set (in_flight s). i < started s)"

text \<open>A slot is empty until its call has produced a result.\<close>

definition empty_inv :: "'r group \<Rightarrow> ('r, 'e) gstate \<Rightarrow> bool" where
  "empty_inv g s \<longleftrightarrow> (\<forall>i. running s i \<longrightarrow> slots s ! i = None) \<and>
     (\<forall>i. started s \<le> i \<longrightarrow> i < size_of g \<longrightarrow> slots s ! i = None) \<and>
     (at s = Preparing \<longrightarrow> slots s ! (started s - 1) = None)"

text \<open>Nothing is lost: a started call has a result, is in flight or being prepared, or a failure is pending.\<close>

definition full_inv :: "('r, 'e) gstate \<Rightarrow> bool" where
  "full_inv s \<longleftrightarrow> first_failure s = None \<longrightarrow>
     (\<forall>i < started s. slots s ! i \<noteq> None \<or> i \<in> set (in_flight s) \<or> at s = Preparing \<and> Suc i = started s) \<and>
     (\<forall>i \<in> set (settled s). slots s ! i \<noteq> None)"

definition result_of :: "'r group \<Rightarrow> ('r, 'e) gstate \<Rightarrow> nat \<Rightarrow> 'r" where
  "result_of g s i = (if i < started s then the (slots s ! i) else aborted_result g i)"

definition commits_inv :: "'r group \<Rightarrow> ('r, 'e) gstate \<Rightarrow> bool" where
  "commits_inv g s \<longleftrightarrow> commits s = map (\<lambda>i. (i, result_of g s i)) [0..<committed s] \<and>
     committed s \<le> started s + skipped s \<and> (skipped s \<noteq> 0 \<longrightarrow> committed s = started s + skipped s) \<and>
     (\<forall>i < committed s. i < started s \<longrightarrow> slots s ! i \<noteq> None)"

definition pc_ok :: "'r group \<Rightarrow> ('r, 'e) gstate \<Rightarrow> bool" where
  "pc_ok g s = (case at s of
       Filling \<Rightarrow> (committed s = started s \<or> committed s \<in> set (in_flight s)) \<and> skipped s = 0
     | Preparing \<Rightarrow> 0 < started s \<and> started s - 1 \<notin> set (in_flight s) \<and> length (in_flight s) < max_parallel g \<and> skipped s = 0
     | Committing \<Rightarrow> skipped s = 0
     | Waiting \<Rightarrow> (committed s = started s \<or> committed s \<in> set (in_flight s)) \<and> skipped s = 0 \<and> (aborted s \<or> 0 < started s)
     | Finishing \<Rightarrow> in_flight s = [] \<and> committed s = started s + skipped s \<and> (aborted s \<or> 0 < started s \<and> skipped s = 0)
     | Done \<Rightarrow> in_flight s = [] \<and> committed s = started s + skipped s \<and>
         (if aborted s then committed s = size_of g else 0 < started s \<and> skipped s = 0)
     | Draining \<Rightarrow> first_failure s \<noteq> None
     | Raised \<Rightarrow> first_failure s \<noteq> None \<and> set (in_flight s) \<subseteq> set (settled s))"

text \<open>While the loop runs, a pending failure belongs to a settled task that is still listed.\<close>

definition pending_inv :: "('r, 'e) gstate \<Rightarrow> bool" where
  "pending_inv s \<longleftrightarrow> at s \<noteq> Draining \<longrightarrow> at s \<noteq> Raised \<longrightarrow> first_failure s \<noteq> None \<longrightarrow>
     (\<exists>i \<in> set (in_flight s). i \<in> set (settled s))"

definition sched_inv :: "'r group \<Rightarrow> ('r, 'e) gstate \<Rightarrow> bool" where
  "sched_inv g s \<longleftrightarrow> shape_inv g s \<and> empty_inv g s \<and> full_inv s \<and> commits_inv g s \<and> pc_ok g s \<and> pending_inv s"

lemma start_group_inv: "0 < size_of g \<Longrightarrow> 0 < max_parallel g \<Longrightarrow> sched_inv g (start_group g ab)"
  by (simp add: sched_inv_def shape_inv_def empty_inv_def full_inv_def commits_inv_def pc_ok_def pending_inv_def
      start_group_def running_def)

lemma sched_invI:
  "shape_inv g s \<Longrightarrow> empty_inv g s \<Longrightarrow> full_inv s \<Longrightarrow> commits_inv g s \<Longrightarrow> pc_ok g s \<Longrightarrow> pending_inv s \<Longrightarrow> sched_inv g s"
  by (simp add: sched_inv_def)

lemma sched_invE:
  assumes "sched_inv g s"
  obtains "shape_inv g s" "empty_inv g s" "full_inv s" "commits_inv g s" "pc_ok g s" "pending_inv s"
  using assms by (simp add: sched_inv_def)

text \<open>A commit log depends on the slots below the commit mark only.\<close>

lemma commits_inv_cong:
  assumes "commits_inv g s" and "commits s' = commits s" "committed s' = committed s" "started s' = started s" "skipped s' = skipped s"
    and "\<And>i. i < committed s \<Longrightarrow> i < started s \<Longrightarrow> slots s' ! i = slots s ! i"
  shows "commits_inv g s'"
proof -
  have "map (\<lambda>i. (i, result_of g s' i)) [0..<committed s] = map (\<lambda>i. (i, result_of g s i)) [0..<committed s]"
    using assms(4,6) by (auto simp: result_of_def)
  with assms show ?thesis by (simp add: commits_inv_def)
qed

lemma abort_set_inv: "sched_inv g s \<Longrightarrow> sched_inv g (s\<lparr>abort_flag := True\<rparr>)"
proof (erule sched_invE, rule sched_invI)
  let ?s = "s\<lparr>abort_flag := True\<rparr>"
  show "commits_inv g s \<Longrightarrow> commits_inv g ?s" by (erule commits_inv_cong) simp_all
  show "pc_ok g s \<Longrightarrow> pc_ok g ?s" by (auto simp: pc_ok_def split: pc.splits)
qed (simp_all add: shape_inv_def empty_inv_def full_inv_def pending_inv_def running_def)

lemma goto_inv:
  assumes "sched_inv g s" and "at s \<noteq> Preparing" and "p \<noteq> Preparing"
    and "pc_ok g (s\<lparr>at := p\<rparr>)" and "pending_inv (s\<lparr>at := p\<rparr>)"
  shows "sched_inv g (s\<lparr>at := p\<rparr>)"
  using assms(1)
proof (rule sched_invE, intro sched_invI)
  show "commits_inv g s \<Longrightarrow> commits_inv g (s\<lparr>at := p\<rparr>)" by (erule commits_inv_cong) simp_all
qed (use assms in \<open>simp_all add: shape_inv_def empty_inv_def full_inv_def running_def\<close>)

lemma fail_now_inv:
  assumes "sched_inv g s"
  shows "sched_inv g (fail_now err s)"
  using assms
proof (rule sched_invE, intro sched_invI)
  have f: "first_failure (fail_now err s) \<noteq> None" by (simp add: fail_now_def remember_failure_def split: option.split)
  show "commits_inv g s \<Longrightarrow> commits_inv g (fail_now err s)"
    by (erule commits_inv_cong) (simp_all add: fail_now_def remember_failure_def)
  show "full_inv (fail_now err s)" using f by (auto simp: full_inv_def)
  show "pc_ok g (fail_now err s)" using f by (simp add: pc_ok_def) (simp add: fail_now_def)
qed (simp_all add: shape_inv_def empty_inv_def pending_inv_def running_def fail_now_def remember_failure_def)

lemma body_settles_inv:
  assumes inv: "sched_inv g s" and run: "running s i"
  shows "sched_inv g (s\<lparr>slots := (slots s)[i := Some r], settled := i # settled s\<rparr>)"
  using inv
proof (rule sched_invE)
  let ?s = "s\<lparr>slots := (slots s)[i := Some r], settled := i # settled s\<rparr>"
  assume h: "shape_inv g s" "empty_inv g s" "full_inv s" "commits_inv g s" "pc_ok g s" "pending_inv s"
  have i: "i < started s" "i < size_of g" "i \<in> set (in_flight s)"
    using h(1) run by (auto simp: shape_inv_def running_def)
  have e: "slots s ! i = None" using h(2) run by (simp add: empty_inv_def)
  then have nc: "committed s \<le> i" using h(4) i by (force simp: commits_inv_def not_less [symmetric])
  show ?thesis
  proof (rule sched_invI)
    show "shape_inv g ?s" using h(1) by (simp add: shape_inv_def)
    show "empty_inv g ?s"
      using h(1,2,5) i by (auto simp: empty_inv_def shape_inv_def pc_ok_def running_def nth_list_update)
    show "full_inv ?s" using h(1,3) i by (auto simp: full_inv_def shape_inv_def nth_list_update)
    show "commits_inv g ?s" by (rule commits_inv_cong [OF h(4)]) (use nc in auto)
    show "pc_ok g ?s" using h(5) by (auto simp: pc_ok_def split: pc.splits)
    show "pending_inv ?s" using h(6) by (auto simp: pending_inv_def)
  qed
qed

lemma body_fails_inv:
  assumes inv: "sched_inv g s" and run: "running s i"
  shows "sched_inv g ((remember_failure err s)\<lparr>settled := i # settled s\<rparr>)"
  using inv
proof (rule sched_invE)
  let ?s = "(remember_failure err s)\<lparr>settled := i # settled s\<rparr>"
  assume h: "shape_inv g s" "empty_inv g s" "full_inv s" "commits_inv g s" "pc_ok g s" "pending_inv s"
  have f: "first_failure ?s \<noteq> None" by (simp add: remember_failure_def split: option.split)
  show ?thesis
  proof (rule sched_invI)
    show "shape_inv g ?s" using h(1) by (simp add: shape_inv_def remember_failure_def)
    show "empty_inv g ?s" using h(2) by (auto simp: empty_inv_def running_def remember_failure_def)
    show "full_inv ?s" using f by (auto simp: full_inv_def)
    show "commits_inv g ?s" by (rule commits_inv_cong [OF h(4)]) (auto simp: remember_failure_def)
    show "pc_ok g ?s" using h(5) f by (auto simp: pc_ok_def remember_failure_def split: pc.splits)
    show "pending_inv ?s" using run by (auto simp: pending_inv_def running_def remember_failure_def)
  qed
qed

lemma fill_step_inv:
  assumes inv: "sched_inv g s" and at: "at s = Filling" and st: "fill_step g a s = Some s'"
  shows "sched_inv g s'"
  using inv
proof (rule sched_invE)
  assume h: "shape_inv g s" "empty_inv g s" "full_inv s" "commits_inv g s" "pc_ok g s" "pending_inv s"
  have pc: "committed s = started s \<or> committed s \<in> set (in_flight s)" "skipped s = 0" using h(5) at by (simp_all add: pc_ok_def)
  have pos: "\<not> may_start g s \<Longrightarrow> aborted s \<or> 0 < started s"
    using h(1) by (cases "in_flight s") (auto simp: may_start_def shape_inv_def)
  consider (wait) "s' = s\<lparr>at := Waiting\<rparr>" "aborted s \<or> 0 < started s"
    | (start) "s' = s\<lparr>at := Preparing, started := Suc (started s)\<rparr>" "may_start g s"
    using st pos by (auto simp: fill_step_def split: if_splits answer.splits)
  then show ?thesis
  proof cases
    case wait
    then show ?thesis using at pc h(6) by (auto intro!: goto_inv [OF inv] simp: pc_ok_def pending_inv_def)
  next
    case start
    have n: "started s < size_of g" "length (in_flight s) < max_parallel g" "slots s ! started s = None"
      using start(2) h(2) by (auto simp: may_start_def empty_inv_def)
    have c: "committed s \<le> started s" using h(4) pc(2) by (simp add: commits_inv_def)
    show ?thesis unfolding start(1)
    proof (rule sched_invI)
      show "shape_inv g (s\<lparr>at := Preparing, started := Suc (started s)\<rparr>)" using h(1) n pc(2) by (auto simp: shape_inv_def)
      show "empty_inv g (s\<lparr>at := Preparing, started := Suc (started s)\<rparr>)" using h(2) n by (auto simp: empty_inv_def running_def)
      show "full_inv (s\<lparr>at := Preparing, started := Suc (started s)\<rparr>)"
        using h(3) at by (auto simp: full_inv_def less_Suc_eq)
      show "commits_inv g (s\<lparr>at := Preparing, started := Suc (started s)\<rparr>)"
        using h(4) c pc(2) by (auto simp: commits_inv_def result_of_def)
      show "pc_ok g (s\<lparr>at := Preparing, started := Suc (started s)\<rparr>)"
        using h(1) n pc(2) by (auto simp: pc_ok_def shape_inv_def)
      show "pending_inv (s\<lparr>at := Preparing, started := Suc (started s)\<rparr>)" using h(6) at by (auto simp: pending_inv_def)
    qed
  qed
qed

lemma raise_failure_inv:
  assumes "first_failure s = None \<Longrightarrow> sched_inv g (s\<lparr>at := p\<rparr>)"
    and "first_failure s \<noteq> None \<Longrightarrow> shape_inv g s \<and> empty_inv g (s\<lparr>at := Draining\<rparr>) \<and> commits_inv g s"
  shows "sched_inv g (raise_failure p s)"
proof (cases "first_failure s = None")
  case True
  with assms(1) show ?thesis by (simp add: raise_failure_def)
next
  case False
  from assms(2) [OF False] have h: "shape_inv g s" "empty_inv g (s\<lparr>at := Draining\<rparr>)" "commits_inv g s" by simp_all
  have "sched_inv g (s\<lparr>at := Draining\<rparr>)"
  proof (rule sched_invI)
    show "commits_inv g (s\<lparr>at := Draining\<rparr>)" using h(3) by (rule commits_inv_cong) simp_all
  qed (use h False in \<open>auto simp: shape_inv_def full_inv_def pc_ok_def pending_inv_def\<close>)
  with False show ?thesis by (auto simp: raise_failure_def)
qed

text \<open>Filling the slot of the call that was being prepared.\<close>

lemma prepared_slot_inv:
  assumes inv: "sched_inv g s" and at: "at s = Preparing"
  shows "sched_inv g (raise_failure Committing (s\<lparr>slots := (slots s)[started s - 1 := Some r]\<rparr>))"
  using inv
proof (rule sched_invE)
  let ?i = "started s - 1"
  let ?s = "s\<lparr>slots := (slots s)[?i := Some r]\<rparr>"
  assume h: "shape_inv g s" "empty_inv g s" "full_inv s" "commits_inv g s" "pc_ok g s" "pending_inv s"
  have pc: "0 < started s" "?i \<notin> set (in_flight s)" "skipped s = 0" "?i < size_of g" "?i < length (slots s)"
    using h(1,5) at by (auto simp: pc_ok_def shape_inv_def)
  have e: "slots s ! ?i = None" using h(2) at by (simp add: empty_inv_def)
  have c: "committed s \<le> ?i"
    using h(4) e pc by (auto simp: commits_inv_def not_less [symmetric])
  have sh: "shape_inv g ?s" using h(1) by (simp add: shape_inv_def)
  have em: "empty_inv g (?s\<lparr>at := p\<rparr>)" if "p \<noteq> Preparing" for p
    using h(2) pc that by (auto simp: empty_inv_def running_def nth_list_update)
  have cm: "commits_inv g ?s" by (rule commits_inv_cong [OF h(4)]) (use c in auto)
  have "sched_inv g (?s\<lparr>at := Committing\<rparr>)" if nf: "first_failure ?s = None"
  proof (rule sched_invI)
    show "shape_inv g (?s\<lparr>at := Committing\<rparr>)" using sh by (simp add: shape_inv_def)
    show "empty_inv g (?s\<lparr>at := Committing\<rparr>)" by (rule em) simp
    show "full_inv (?s\<lparr>at := Committing\<rparr>)" using h(3) pc by (auto simp: full_inv_def nth_list_update)
    show "commits_inv g (?s\<lparr>at := Committing\<rparr>)" using cm by (rule commits_inv_cong) simp_all
  qed (use nf pc in \<open>simp_all add: pc_ok_def pending_inv_def\<close>)
  then show ?thesis by (rule raise_failure_inv) (assumption, intro conjI sh em cm, simp)
qed

lemma dispatched_inv:
  assumes inv: "sched_inv g s" and at: "at s = Preparing"
  shows "sched_inv g (raise_failure Committing (s\<lparr>in_flight := in_flight s @ [started s - 1]\<rparr>))"
  using inv
proof (rule sched_invE)
  let ?i = "started s - 1"
  let ?s = "s\<lparr>in_flight := in_flight s @ [?i]\<rparr>"
  assume h: "shape_inv g s" "empty_inv g s" "full_inv s" "commits_inv g s" "pc_ok g s" "pending_inv s"
  have pc: "0 < started s" "?i \<notin> set (in_flight s)" "skipped s = 0" "length (in_flight s) < max_parallel g"
    using h(1,5) at by (auto simp: pc_ok_def shape_inv_def)
  have e: "slots s ! ?i = None" using h(2) at by (simp add: empty_inv_def)
  have sh: "shape_inv g ?s" using h(1) pc by (auto simp: shape_inv_def)
  have em: "empty_inv g (?s\<lparr>at := p\<rparr>)" if "p \<noteq> Preparing" for p
    using h(2) e that by (auto simp: empty_inv_def running_def)
  have cm: "commits_inv g ?s" by (rule commits_inv_cong [OF h(4)]) auto
  have "sched_inv g (?s\<lparr>at := Committing\<rparr>)" if nf: "first_failure ?s = None"
  proof (rule sched_invI)
    show "shape_inv g (?s\<lparr>at := Committing\<rparr>)" using sh by (simp add: shape_inv_def)
    show "empty_inv g (?s\<lparr>at := Committing\<rparr>)" by (rule em) simp
    show "full_inv (?s\<lparr>at := Committing\<rparr>)" using h(3) pc by (auto simp: full_inv_def)
    show "commits_inv g (?s\<lparr>at := Committing\<rparr>)" using cm by (rule commits_inv_cong) simp_all
  qed (use nf pc in \<open>simp_all add: pc_ok_def pending_inv_def\<close>)
  then show ?thesis by (rule raise_failure_inv) (assumption, intro conjI sh em cm, simp)
qed

lemma prepare_step_inv:
  "sched_inv g s \<Longrightarrow> at s = Preparing \<Longrightarrow> prepare_step g a s = Some s' \<Longrightarrow> sched_inv g s'"
  by (auto simp: prepare_step_def Let_def prepared_slot_inv [simplified] dispatched_inv [simplified] fail_now_inv split: answer.splits if_splits)

lemma commit_one_inv:
  assumes inv: "sched_inv g s" and at: "at s \<noteq> Preparing" "at s \<noteq> Done" "at s \<noteq> Filling" "at s \<noteq> Waiting" "at s \<noteq> Finishing"
    and r: "ready_slot s = Some r"
  shows "sched_inv g (commit_one r s)"
  using inv
proof (rule sched_invE)
  assume h: "shape_inv g s" "empty_inv g s" "full_inv s" "commits_inv g s" "pc_ok g s" "pending_inv s"
  have c: "committed s < started s" "slots s ! committed s = Some r"
    using r by (auto simp: ready_slot_def split: if_splits)
  have sk: "skipped s = 0" using h(4) c by (auto simp: commits_inv_def)
  show ?thesis
  proof (rule sched_invI)
    show "commits_inv g (commit_one r s)"
      using h(4) c sk by (auto simp: commits_inv_def commit_one_def result_of_def less_Suc_eq)
    show "pc_ok g (commit_one r s)" using h(5) at by (auto simp: pc_ok_def commit_one_def split: pc.splits)
  qed (use h in \<open>simp_all add: shape_inv_def empty_inv_def full_inv_def pending_inv_def running_def commit_one_def\<close>)
qed

lemma commit_step_inv:
  assumes inv: "sched_inv g s" and at: "at s = Committing" and st: "commit_step a s = Some s'"
  shows "sched_inv g s'"
  using inv
proof (rule sched_invE)
  assume h: "shape_inv g s" "empty_inv g s" "full_inv s" "commits_inv g s" "pc_ok g s" "pending_inv s"
  show ?thesis
  proof (cases "ready_slot s")
    case (Some r)
    then show ?thesis
      using st inv at by (auto simp: commit_step_def commit_one_inv fail_now_inv split: answer.splits)
  next
    case None
    let ?s = "s\<lparr>aborted := aborted s \<or> abort_flag s\<rparr>"
    have s': "s' = raise_failure Filling ?s" using st None by (auto simp: commit_step_def split: if_splits)
    have sk: "skipped s = 0" using h(5) at by (simp add: pc_ok_def)
    have le: "committed s \<le> started s" using h(4) sk by (simp add: commits_inv_def)
    have cm: "commits_inv g ?s" by (rule commits_inv_cong [OF h(4)]) simp_all
    have em: "empty_inv g (?s\<lparr>at := p\<rparr>)" if "p \<noteq> Preparing" for p
      using h(2) that by (simp add: empty_inv_def running_def)
    have sh: "shape_inv g ?s" using h(1) by (simp add: shape_inv_def)
    have "sched_inv g (?s\<lparr>at := Filling\<rparr>)" if nf: "first_failure ?s = None"
    proof (rule sched_invI)
      show "shape_inv g (?s\<lparr>at := Filling\<rparr>)" using sh by (simp add: shape_inv_def)
      show "empty_inv g (?s\<lparr>at := Filling\<rparr>)" by (rule em) simp
      show "full_inv (?s\<lparr>at := Filling\<rparr>)" using h(3) at by (auto simp: full_inv_def)
      show "commits_inv g (?s\<lparr>at := Filling\<rparr>)" using cm by (rule commits_inv_cong) simp_all
      have "committed s = started s \<or> committed s \<in> set (in_flight s)"
        using None h(3) nf le at by (auto simp: ready_slot_def full_inv_def split: if_splits)
      then show "pc_ok g (?s\<lparr>at := Filling\<rparr>)" using sk by (simp add: pc_ok_def)
    qed (use nf in \<open>simp add: pending_inv_def\<close>)
    then show ?thesis unfolding s' by (rule raise_failure_inv) (assumption, intro conjI sh em cm, simp)
  qed
qed

lemma wait_step_inv:
  assumes inv: "sched_inv g s" and at: "at s = Waiting" and st: "wait_step a s = Some s'"
  shows "sched_inv g s'"
  using inv
proof (rule sched_invE)
  assume h: "shape_inv g s" "empty_inv g s" "full_inv s" "commits_inv g s" "pc_ok g s" "pending_inv s"
  have pc: "committed s = started s \<or> committed s \<in> set (in_flight s)" "skipped s = 0" "aborted s \<or> 0 < started s"
    using h(5) at by (simp_all add: pc_ok_def)
  show ?thesis
  proof (cases "in_flight s = []")
    case True
    then have "s' = s\<lparr>at := Finishing\<rparr>" using st by (auto simp: wait_step_def split: if_splits)
    then show ?thesis using True at pc h(6) by (auto intro!: goto_inv [OF inv] simp: pc_ok_def pending_inv_def)
  next
    case False
    let ?s = "s\<lparr>in_flight := filter (\<lambda>i. i \<notin> set (settled s)) (in_flight s)\<rparr>"
    have s': "s' = raise_failure Committing ?s" using st False by (auto simp: wait_step_def split: if_splits)
    have cm: "commits_inv g ?s" by (rule commits_inv_cong [OF h(4)]) simp_all
    have em: "empty_inv g (?s\<lparr>at := p\<rparr>)" if "p \<noteq> Preparing" for p
      using h(2) that by (simp add: empty_inv_def running_def)
    have sh: "shape_inv g ?s" using h(1) by (auto simp: shape_inv_def intro: le_trans [OF length_filter_le])
    have "sched_inv g (?s\<lparr>at := Committing\<rparr>)" if nf: "first_failure ?s = None"
    proof (rule sched_invI)
      show "shape_inv g (?s\<lparr>at := Committing\<rparr>)" using sh by (simp add: shape_inv_def)
      show "empty_inv g (?s\<lparr>at := Committing\<rparr>)" by (rule em) simp
      show "full_inv (?s\<lparr>at := Committing\<rparr>)" using h(3) at by (auto simp: full_inv_def)
      show "commits_inv g (?s\<lparr>at := Committing\<rparr>)" using cm by (rule commits_inv_cong) simp_all
    qed (use nf pc in \<open>simp_all add: pc_ok_def pending_inv_def\<close>)
    then show ?thesis unfolding s' by (rule raise_failure_inv) (assumption, intro conjI sh em cm, simp)
  qed
qed

lemma finish_step_inv:
  assumes inv: "sched_inv g s" and at: "at s = Finishing" and st: "finish_step g a s = Some s'"
  shows "sched_inv g s'"
  using inv
proof (rule sched_invE)
  assume h: "shape_inv g s" "empty_inv g s" "full_inv s" "commits_inv g s" "pc_ok g s" "pending_inv s"
  have pc: "in_flight s = []" "committed s = started s + skipped s" "aborted s \<or> 0 < started s \<and> skipped s = 0"
    using h(5) at by (simp_all add: pc_ok_def)
  have nr: "ready_slot s = None" by (simp add: ready_slot_def pc(2))
  have nf: "first_failure s = None" using h(6) at pc(1) by (simp add: pending_inv_def)
  let ?i = "started s + skipped s"
  consider (fin) "s' = s\<lparr>at := Done\<rparr>" "aborted s \<Longrightarrow> size_of g \<le> ?i"
    | (skip) "s' = s\<lparr>commits := commits s @ [(?i, aborted_result g ?i)], committed := Suc (committed s), skipped := Suc (skipped s)\<rparr>"
        "?i < size_of g" "aborted s"
    | (raise) err where "s' = (remember_failure err s)\<lparr>at := Raised\<rparr>"
    using st nr pc by (auto simp: finish_step_def Let_def split: if_splits answer.splits)
  then show ?thesis
  proof cases
    case fin
    have "aborted s \<Longrightarrow> ?i = size_of g" using fin(2) h(1) by (auto simp: shape_inv_def)
    with fin(1) show ?thesis using at pc h(6) by (auto intro!: goto_inv [OF inv] simp: pc_ok_def pending_inv_def)
  next
    case skip
    show ?thesis
    proof (rule sched_invI)
      show "shape_inv g s'" using h(1) skip by (auto simp: shape_inv_def)
      show "commits_inv g s'" using h(4) pc(2) by (auto simp: skip(1) commits_inv_def result_of_def less_Suc_eq)
      show "pc_ok g s'" using at pc skip by (simp add: pc_ok_def)
    qed (use h in \<open>simp_all add: skip(1) empty_inv_def full_inv_def pending_inv_def running_def\<close>)
  next
    case raise
    have f: "first_failure s' \<noteq> None" by (simp add: raise remember_failure_def nf)
    show ?thesis
    proof (rule sched_invI)
      show "commits_inv g s'" by (rule commits_inv_cong [OF h(4)]) (simp_all add: raise remember_failure_def)
      show "full_inv s'" using f by (auto simp: full_inv_def)
      show "pc_ok g s'" using f pc by (simp add: pc_ok_def) (simp add: raise remember_failure_def pc)
    qed (use h in \<open>simp_all add: raise remember_failure_def shape_inv_def empty_inv_def pending_inv_def running_def\<close>)
  qed
qed

lemma drain_step_inv:
  assumes inv: "sched_inv g s" and at: "at s = Draining" and st: "drain_step a s = Some s'"
  shows "sched_inv g s'"
proof -
  have s': "s' = s\<lparr>at := Raised\<rparr>" "set (in_flight s) \<subseteq> set (settled s)"
    using st by (auto simp: drain_step_def split: if_splits)
  have "pc_ok g s" using inv by (simp add: sched_inv_def)
  then show ?thesis using s' at by (auto intro!: goto_inv [OF inv] simp: pc_ok_def pending_inv_def)
qed

lemma sched_step_inv: "sched_inv g s \<Longrightarrow> sched_step g ev s = Some s' \<Longrightarrow> sched_inv g s'"
  by (auto simp: sched_step_def abort_set_inv body_settles_inv body_fails_inv
      dest: fill_step_inv prepare_step_inv commit_step_inv wait_step_inv finish_step_inv drain_step_inv
      split: event.splits pc.splits if_splits)

section \<open>Termination\<close>

fun pc_weight :: "pc \<Rightarrow> nat" where
  "pc_weight Preparing = 10" | "pc_weight Committing = 4" | "pc_weight Filling = 3" | "pc_weight Waiting = 2"
| "pc_weight Finishing = 1" | "pc_weight Draining = 1" | "pc_weight Done = 0" | "pc_weight Raised = 0"

definition unsettled :: "('r, 'e) gstate \<Rightarrow> nat" where
  "unsettled s = length (filter (\<lambda>i. i \<notin> set (settled s)) (in_flight s))"

definition fuel_of :: "'r group \<Rightarrow> ('r, 'e) gstate \<Rightarrow> nat" where
  "fuel_of g s = 10 * (size_of g - started s) + (size_of g - committed s) + 4 * length (in_flight s) + unsettled s +
     (if abort_flag s then 0 else 1) + pc_weight (at s)"

lemma unsettled_settle:
  assumes "distinct (in_flight s)" and "running s i"
  shows "Suc (length (filter (\<lambda>j. j \<notin> set (i # settled s)) (in_flight s))) = unsettled s"
proof -
  let ?xs = "filter (\<lambda>j. j \<notin> set (settled s)) (in_flight s)"
  have "filter (\<lambda>j. j \<notin> set (i # settled s)) (in_flight s) = filter (\<lambda>j. j \<noteq> i) ?xs"
    by (auto intro: filter_cong)
  also have "\<dots> = remove1 i ?xs"
    using assms(1) by (simp add: distinct_remove1_removeAll removeAll_filter_not_eq eq_commute)
  finally show ?thesis
    using assms(2) length_pos_if_in_set [of i ?xs] by (simp add: unsettled_def running_def length_remove1)
qed

lemma unsettled_le: "unsettled s \<le> length (in_flight s)"
  by (simp add: unsettled_def)

lemma pop_shrinks:
  assumes "list_ex (\<lambda>i. i \<in> set (settled s)) (in_flight s)"
  shows "length (filter (\<lambda>i. i \<notin> set (settled s)) (in_flight s)) < length (in_flight s)"
  using assms by (auto simp: list_ex_iff intro: length_filter_less)

lemma raise_failure_fuel:
  "p \<noteq> Raised \<Longrightarrow> p \<noteq> Done \<Longrightarrow> fuel_of g (raise_failure p s) \<le> fuel_of g (s\<lparr>at := p\<rparr>)"
  by (cases p) (simp_all add: raise_failure_def fuel_of_def unsettled_def)

lemma fuel_at: "fuel_of g (s\<lparr>at := p\<rparr>) + pc_weight (at s) = fuel_of g s + pc_weight p"
  by (simp add: fuel_of_def unsettled_def)

lemma scheduler_fuel:
  assumes inv: "sched_inv g s" and st: "sched_step g (Scheduler a) s = Some s'"
  shows "fuel_of g s' < fuel_of g s"
  using inv
proof (rule sched_invE)
  assume h: "shape_inv g s" "empty_inv g s" "full_inv s" "commits_inv g s" "pc_ok g s" "pending_inv s"
  have cm: "committed s \<le> started s + skipped s" "started s + skipped s \<le> size_of g"
    using h(1,4) by (simp_all add: commits_inv_def shape_inv_def)
  have rs: "committed s < started s" if "ready_slot s = Some r" for r
    using that by (auto simp: ready_slot_def split: if_splits)
  have ff: "fuel_of g (fail_now err s) < fuel_of g s" if "2 \<le> pc_weight (at s)" for err
    using that by (simp add: fail_now_def remember_failure_def fuel_of_def unsettled_def)
  show ?thesis
  proof (cases "at s")
    case Filling
    then show ?thesis
      using st by (auto simp: sched_step_def fill_step_def may_start_def fuel_of_def unsettled_def split: if_splits answer.splits)
  next
    case Preparing
    have 1: "fuel_of g (s\<lparr>slots := x, at := Committing\<rparr>) < fuel_of g s" for x
      using Preparing by (simp add: fuel_of_def unsettled_def)
    have 2: "fuel_of g (s\<lparr>in_flight := in_flight s @ [i], at := Committing\<rparr>) < fuel_of g s" for i
      using Preparing by (simp add: fuel_of_def unsettled_def)
    from Preparing st consider (slot) x where "s' = raise_failure Committing (s\<lparr>slots := x\<rparr>)"
      | (fly) i where "s' = raise_failure Committing (s\<lparr>in_flight := in_flight s @ [i]\<rparr>)"
      | (raise) err where "s' = fail_now err s"
      by (auto simp: sched_step_def prepare_step_def Let_def split: answer.splits if_splits)
    then show ?thesis
    proof cases
      case slot
      with 1 raise_failure_fuel [of Committing g "s\<lparr>slots := x\<rparr>"] show ?thesis by (simp add: le_less_trans)
    next
      case fly
      with 2 raise_failure_fuel [of Committing g "s\<lparr>in_flight := in_flight s @ [i]\<rparr>"] show ?thesis by (simp add: le_less_trans)
    next
      case raise
      then show ?thesis using ff Preparing by simp
    qed
  next
    case Committing
    have 1: "fuel_of g (s\<lparr>aborted := x, at := Filling\<rparr>) < fuel_of g s" for x
      using Committing by (simp add: fuel_of_def unsettled_def)
    have 2: "fuel_of g (commit_one r s) < fuel_of g s" if "ready_slot s = Some r" for r
      using rs [OF that] cm by (simp add: commit_one_def fuel_of_def unsettled_def)
    from Committing st consider (none) x where "s' = raise_failure Filling (s\<lparr>aborted := x\<rparr>)"
      | (one) r where "ready_slot s = Some r" "s' = commit_one r s" | (raise) err where "s' = fail_now err s"
      by (auto simp: sched_step_def commit_step_def split: option.splits answer.splits if_splits)
    then show ?thesis
    proof cases
      case none
      with 1 raise_failure_fuel [of Filling g "s\<lparr>aborted := x\<rparr>"] show ?thesis by (simp add: le_less_trans)
    next
      case one
      with 2 show ?thesis by simp
    next
      case raise
      then show ?thesis using ff Committing by simp
    qed
  next
    case Waiting
    let ?f = "filter (\<lambda>i. i \<notin> set (settled s)) (in_flight s)"
    from Waiting st consider (exit) "s' = s\<lparr>at := Finishing\<rparr>"
      | (pop) "s' = raise_failure Committing (s\<lparr>in_flight := ?f\<rparr>)" "list_ex (\<lambda>i. i \<in> set (settled s)) (in_flight s)"
      by (auto simp: sched_step_def wait_step_def split: if_splits)
    then show ?thesis
    proof cases
      case exit
      with Waiting show ?thesis by (simp add: fuel_of_def unsettled_def)
    next
      case pop
      have "fuel_of g (s\<lparr>in_flight := ?f, at := Committing\<rparr>) < fuel_of g s"
        using pop_shrinks [OF pop(2)] Waiting by (simp add: fuel_of_def unsettled_def)
      with pop(1) raise_failure_fuel [of Committing g "s\<lparr>in_flight := ?f\<rparr>"] show ?thesis by (simp add: le_less_trans)
    qed
  next
    case Finishing
    have "committed s < size_of g" if "started s + skipped s < size_of g" using that cm by simp
    then show ?thesis
      using Finishing st rs cm
      by (auto simp: sched_step_def finish_step_def commit_one_def remember_failure_def fuel_of_def unsettled_def Let_def
          split: if_splits answer.splits option.splits)
  next
    case Draining
    then show ?thesis
      using st by (auto simp: sched_step_def drain_step_def fuel_of_def unsettled_def split: if_splits)
  qed (use st in \<open>simp_all add: sched_step_def\<close>)
qed

lemma sched_step_fuel:
  assumes inv: "sched_inv g s" and st: "sched_step g ev s = Some s'"
  shows "fuel_of g s' < fuel_of g s"
proof (cases ev)
  case (Scheduler a)
  with assms scheduler_fuel show ?thesis by blast
next
  case AbortSet
  with st show ?thesis by (auto simp: sched_step_def fuel_of_def unsettled_def split: if_splits)
next
  case (BodySettles i r)
  then have r: "running s i" "s' = s\<lparr>slots := (slots s)[i := Some r], settled := i # settled s\<rparr>"
    using st by (auto simp: sched_step_def split: if_splits)
  have "distinct (in_flight s)" using inv by (simp add: sched_inv_def shape_inv_def)
  from unsettled_settle [OF this r(1)] show ?thesis by (simp add: r(2) fuel_of_def unsettled_def)
next
  case (BodyFails i err)
  then have r: "running s i" "s' = (remember_failure err s)\<lparr>settled := i # settled s\<rparr>"
    using st by (auto simp: sched_step_def split: if_splits)
  have "distinct (in_flight s)" using inv by (simp add: sched_inv_def shape_inv_def)
  from unsettled_settle [OF this r(1)] show ?thesis by (simp add: r(2) fuel_of_def unsettled_def remember_failure_def)
qed

interpretation sched: bounded_system "group_step g" "sched_inv g" "fuel_of g" for g
  by unfold_locales (auto simp: group_step_def intro: sched_step_inv sched_step_fuel)

end
