(* ===== verification/Scheduler_Theorems.thy ===== *)
theory Scheduler_Theorems
  imports Tool_Scheduler
begin

text \<open>
  The guarantees of \<^verbatim>\<open>agent/tool_scheduler.py\<close>: model-ordered commits under any interleaving of the
  bodies, bounded concurrency, quiescence before failure, termination; and the loop over groups of
  \<^verbatim>\<open>run_ordered_tool_calls\<close>.
\<close>

section \<open>One group\<close>

lemma group_reach_inv:
  "0 < size_of g \<Longrightarrow> 0 < max_parallel g \<Longrightarrow> (group_step g)\<^sup>*\<^sup>* (start_group g ab) s \<Longrightarrow> sched_inv g s"
  using sched.inv_steps start_group_inv by blast

text \<open>
  C4. Only bodies overlap. However the bodies, the callbacks and the abort signal interleave, at
  every moment of a group at most \<^verbatim>\<open>max_parallel\<close> bodies are in flight, and the commits made so far
  are those of the calls 0, 1, 2, ... in model order, each once, each with the result of its own
  call.
\<close>

theorem commits_follow_model_order:
  assumes "0 < size_of g" and "0 < max_parallel g" and "(group_step g)\<^sup>*\<^sup>* (start_group g ab) s"
  shows "commits s = map (\<lambda>i. (i, result_of g s i)) [0..<committed s] \<and>
    length (in_flight s) \<le> max_parallel g \<and> distinct (in_flight s) \<and> committed s \<le> size_of g"
  using group_reach_inv [OF assms] by (auto simp: sched_inv_def commits_inv_def shape_inv_def)

text \<open>
  A group ends cleanly. When it returns, no body is in flight and every consumed call has been
  committed: all of them if it was aborted (the calls never started with the synthetic result), the
  started ones otherwise, at least one. When it raises, a failure was remembered and every started
  body has settled; the defensive \<^verbatim>\<open>RuntimeError\<close> is never reached.
\<close>

lemma group_ends_cleanly:
  assumes "0 < size_of g" and "0 < max_parallel g" and "(group_step g)\<^sup>*\<^sup>* (start_group g ab) s"
  shows "(at s = Done \<longrightarrow> in_flight s = [] \<and> gr_committed (group_result g s) = gr_consumed (group_result g s) \<and>
       gr_started (group_result g s) + gr_skipped (group_result g s) = gr_consumed (group_result g s) \<and>
       (if aborted s then gr_consumed (group_result g s) = size_of g
        else 0 < gr_consumed (group_result g s) \<and> gr_skipped (group_result g s) = 0)) \<and>
    (at s = Raised \<longrightarrow> first_failure s \<noteq> None \<and> set (in_flight s) \<subseteq> set (settled s))"
  using group_reach_inv [OF assms] by (auto simp: sched_inv_def pc_ok_def group_result_def)

lemma scheduler_moves:
  assumes "at s \<noteq> Done" and "at s \<noteq> Raised" and "\<not> (\<exists>i. running s i)"
  shows "\<exists>a s'. sched_step g (Scheduler a) s = Some s'"
proof (cases "at s")
  case Filling
  then show ?thesis
    by (cases "may_start g s") (auto simp: sched_step_def fill_step_def intro: exI [of _ Go])
next
  case Preparing
  then have "sched_step g (Scheduler PrepDispatch) s \<noteq> None" by (simp add: sched_step_def prepare_step_def Let_def)
  then show ?thesis by blast
next
  case Committing
  then have "sched_step g (Scheduler Go) s \<noteq> None" by (simp add: sched_step_def commit_step_def split: option.split)
  then show ?thesis by blast
next
  case Waiting
  have "in_flight s \<noteq> [] \<Longrightarrow> list_ex (\<lambda>i. i \<in> set (settled s)) (in_flight s)"
    using assms(3) by (cases "in_flight s") (auto simp: running_def list_ex_iff)
  with Waiting have "sched_step g (Scheduler Go) s \<noteq> None" by (auto simp: sched_step_def wait_step_def)
  then show ?thesis by blast
next
  case Finishing
  then have "sched_step g (Scheduler Go) s \<noteq> None"
    by (simp add: sched_step_def finish_step_def Let_def split: option.split)
  then show ?thesis by blast
next
  case Draining
  have "set (in_flight s) \<subseteq> set (settled s)" using assms(3) by (auto simp: running_def)
  with Draining have "sched_step g (Scheduler Go) s \<noteq> None" by (simp add: sched_step_def drain_step_def)
  then show ?thesis by blast
qed (use assms in simp_all)

text \<open>
  A group always ends. No run of a group of n calls has more than 11n + 4 steps, counting the
  abort signal and the settling of bodies; and a group that has neither returned nor raised can
  always go on by itself, unless it waits for a running body (which its deadline settles).
\<close>

lemma group_terminates:
  fixes s :: "('r, 'e) gstate"
  assumes "0 < size_of g" and "0 < max_parallel g" and "(group_step g ^^ k) (start_group g ab) s"
  shows "k \<le> 11 * size_of g + 4 \<and>
    (at s = Done \<or> at s = Raised \<or> (\<exists>i. running s i) \<or> (\<exists>a s'. sched_step g (Scheduler a) s = Some s'))"
proof -
  have "k + fuel_of g s \<le> fuel_of g (start_group g ab :: ('r, 'e) gstate)"
    using assms(3) start_group_inv [OF assms(1,2), of ab] by (rule sched.run_bound)
  also have "\<dots> \<le> 11 * size_of g + 4" by (simp add: fuel_of_def start_group_def unsettled_def)
  finally show ?thesis using scheduler_moves [of s g] by auto
qed

section \<open>All groups\<close>

text \<open>
  \<^verbatim>\<open>run_ordered_tool_calls\<close> on n calls. \<open>group_at\<close> is the group formed at an index: the whole suffix
  when the first call says it is parallel-safe, the call alone otherwise. The loop is a big-step
  relation over the runs of its groups; its result is the log of commits (by call number), the
  counters and whether the schedule was aborted. An exception is its class name here.
\<close>

record 'r schedule =
  log_of :: "(nat \<times> 'r) list"
  n_started :: nat
  n_committed :: nat
  n_skipped :: nat

definition DEFAULT_MAX_PARALLEL_TOOL_CALLS :: nat where "DEFAULT_MAX_PARALLEL_TOOL_CALLS = 10"

definition group_at :: "nat \<Rightarrow> nat \<Rightarrow> (nat \<Rightarrow> 'r) \<Rightarrow> nat \<Rightarrow> bool \<Rightarrow> 'r group" where
  "group_at n maxp ar k par = \<lparr>size_of = (if par then n - k else 1), parallel_group = par, max_parallel = maxp,
     aborted_result = (\<lambda>i. ar (k + i))\<rparr>"

definition add_group :: "nat \<Rightarrow> group_result \<Rightarrow> (nat \<times> 'r) list \<Rightarrow> 'r schedule \<Rightarrow> 'r schedule" where
  "add_group k r cs t = \<lparr>log_of = log_of t @ map (\<lambda>(i, x). (k + i, x)) cs, n_started = n_started t + gr_started r,
     n_committed = n_committed t + gr_committed r, n_skipped = n_skipped t + gr_skipped r\<rparr>"

definition abort_rest :: "nat \<Rightarrow> (nat \<Rightarrow> 'r) \<Rightarrow> nat \<Rightarrow> 'r schedule \<Rightarrow> 'r schedule" where
  "abort_rest n ar k t = \<lparr>log_of = log_of t @ map (\<lambda>i. (i, ar i)) [k..<n], n_started = n_started t,
     n_committed = n_committed t + (n - k), n_skipped = n_skipped t + (n - k)\<rparr>"

inductive run_calls :: "nat \<Rightarrow> nat \<Rightarrow> (nat \<Rightarrow> 'r) \<Rightarrow> nat \<Rightarrow> 'r schedule \<Rightarrow> 'r schedule \<Rightarrow> bool \<Rightarrow> bool" for n maxp ar where
  finished: "n \<le> k \<Longrightarrow> run_calls n maxp ar k t t False"
| next_group: "k < n \<Longrightarrow> g = group_at n maxp ar k par \<Longrightarrow> (group_step g)\<^sup>*\<^sup>* (start_group g ab :: ('r, string) gstate) s \<Longrightarrow> at s = Done \<Longrightarrow>
     \<not> gr_aborted (group_result g s) \<Longrightarrow>
     run_calls n maxp ar (k + gr_consumed (group_result g s)) (add_group k (group_result g s) (commits s) t) t' x \<Longrightarrow>
     run_calls n maxp ar k t t' x"
| aborted_group: "k < n \<Longrightarrow> g = group_at n maxp ar k par \<Longrightarrow> (group_step g)\<^sup>*\<^sup>* (start_group g ab :: ('r, string) gstate) s \<Longrightarrow> at s = Done \<Longrightarrow>
     gr_aborted (group_result g s) \<Longrightarrow>
     run_calls n maxp ar k t (abort_rest n ar (k + gr_consumed (group_result g s)) (add_group k (group_result g s) (commits s) t)) True"

definition start_schedule :: "'r schedule" where
  "start_schedule = \<lparr>log_of = [], n_started = 0, n_committed = 0, n_skipped = 0\<rparr>"

text \<open>The counters and the log agree, and cover the first k calls.\<close>

definition covers :: "nat \<Rightarrow> 'r schedule \<Rightarrow> bool" where
  "covers k t \<longleftrightarrow> map fst (log_of t) = [0..<k] \<and> n_started t + n_skipped t = k \<and> n_committed t = k"

lemma group_done:
  assumes "0 < maxp" and "k < n" and "g = group_at n maxp ar k par" and "(group_step g)\<^sup>*\<^sup>* (start_group g ab) s" and "at s = Done"
  shows "map fst (commits s) = [0..<gr_consumed (group_result g s)]"
    and "gr_committed (group_result g s) = gr_consumed (group_result g s)"
    and "gr_started (group_result g s) + gr_skipped (group_result g s) = gr_consumed (group_result g s)"
    and "k + gr_consumed (group_result g s) \<le> n" and "0 < gr_consumed (group_result g s)"
    and "\<not> gr_aborted (group_result g s) \<Longrightarrow> gr_skipped (group_result g s) = 0"
proof -
  have g: "0 < size_of g" "0 < max_parallel g" "k + size_of g \<le> n" using assms(1-3) by (auto simp: group_at_def)
  have "sched_inv g s" by (rule group_reach_inv [OF g(1,2) assms(4)])
  then have "commits_inv g s" "shape_inv g s" "pc_ok g s" by (simp_all add: sched_inv_def)
  then show "map fst (commits s) = [0..<gr_consumed (group_result g s)]"
    "gr_committed (group_result g s) = gr_consumed (group_result g s)"
    "gr_started (group_result g s) + gr_skipped (group_result g s) = gr_consumed (group_result g s)"
    "k + gr_consumed (group_result g s) \<le> n" "0 < gr_consumed (group_result g s)"
    "\<not> gr_aborted (group_result g s) \<Longrightarrow> gr_skipped (group_result g s) = 0"
    using assms(5) g by (auto simp: commits_inv_def shape_inv_def pc_ok_def group_result_def comp_def split: if_splits)
qed

lemma add_group_covers:
  assumes "covers k t" and "map fst cs = [0..<gr_consumed r]" and "gr_committed r = gr_consumed r"
    and "gr_started r + gr_skipped r = gr_consumed r"
  shows "covers (k + gr_consumed r) (add_group k r cs t)"
proof -
  have "map fst (map (\<lambda>(i, x). (k + i, x)) cs) = map (\<lambda>i. k + i) (map fst cs)" by (induction cs) auto
  also have "\<dots> = [k..<k + gr_consumed r]" by (simp add: assms(2) map_add_upt add.commute)
  finally show ?thesis
    using assms(1,3,4) by (simp add: covers_def add_group_def upt_add_eq_append [of 0, simplified])
qed

lemma run_calls_covers:
  assumes "run_calls n maxp ar k t t' x" and "0 < maxp" and "covers k t" and "k \<le> n"
  shows "covers n t' \<and> (\<not> x \<longrightarrow> n_skipped t' = n_skipped t)"
  using assms
proof (induction rule: run_calls.induct)
  case (finished k t)
  then show ?case by simp
next
  case (next_group k g par ab s t t' x)
  note d = group_done [OF next_group.prems(1) next_group.hyps(1-4)]
  have "covers (k + gr_consumed (group_result g s)) (add_group k (group_result g s) (commits s) t)"
    using next_group.prems(2) d(1-3) by (rule add_group_covers)
  with next_group.IH next_group.prems(1) d(4,6) next_group.hyps(5) show ?case by (simp add: add_group_def)
next
  case (aborted_group k g par ab s t)
  note d = group_done [OF aborted_group.prems(1) aborted_group.hyps(1-4)]
  let ?k = "k + gr_consumed (group_result g s)"
  have "covers ?k (add_group k (group_result g s) (commits s) t)"
    using aborted_group.prems(2) d(1-3) by (rule add_group_covers)
  with d(4) upt_add_eq_append [of 0 ?k "n - ?k"] show ?case by (auto simp: covers_def abort_rest_def comp_def)
qed

text \<open>
  Every tool call of the model gets exactly one result, in order. Whenever the schedule of n
  calls returns, aborted or not, however its calls reclassified themselves on the way, its commits
  are those of calls 0 to n-1 in this order, each exactly once, and the reported counters satisfy
  started + skipped = committed = n; a schedule that was not aborted skipped nothing.
\<close>

lemma every_call_committed_once:
  assumes "0 < maxp" and "run_calls n maxp ar 0 start_schedule t x"
  shows "map fst (log_of t) = [0..<n] \<and> n_started t + n_skipped t = n \<and> n_committed t = n \<and> (\<not> x \<longrightarrow> n_skipped t = 0)"
  using run_calls_covers [OF assms(2,1)] by (simp add: covers_def start_schedule_def)

section \<open>A concrete schedule\<close>

fun run_events :: "'r group \<Rightarrow> ('r, 'e) event list \<Rightarrow> ('r, 'e) gstate \<Rightarrow> ('r, 'e) gstate option" where
  "run_events g [] s = Some s"
| "run_events g (ev # evs) s = (case sched_step g ev s of None \<Rightarrow> None | Some s' \<Rightarrow> run_events g evs s')"

lemma run_events_steps: "run_events g evs s = Some s' \<Longrightarrow> (group_step g ^^ length evs) s s'"
proof (induction evs arbitrary: s)
  case (Cons ev evs)
  then obtain s1 where "sched_step g ev s = Some s1" "run_events g evs s1 = Some s'" by (auto split: option.splits)
  then have "group_step g s s1" "(group_step g ^^ length evs) s1 s'" using Cons.IH group_step_def by blast+
  then show ?case unfolding length_Cons by (rule relpowp_Suc_I2)
qed simp

text \<open>Two parallel calls; the second body settles first, and still commits second.\<close>

definition ex_group :: "string group" where
  "ex_group = group_at 2 2 (\<lambda>i. ''aborted'') 0 True"

definition ex_events :: "(string, string) event list" where
  "ex_events = [Scheduler Go, Scheduler PrepDispatch, Scheduler Go, Scheduler Go, Scheduler PrepDispatch, Scheduler Go,
     Scheduler Go, BodySettles 1 ''b'', Scheduler Go, Scheduler Go, Scheduler Go, BodySettles 0 ''a'', Scheduler Go,
     Scheduler Go, Scheduler Go, Scheduler Go, Scheduler Go, Scheduler Go, Scheduler Go]"

definition ex_end :: "(string, string) gstate" where
  "ex_end = the (run_events ex_group ex_events (start_group ex_group False))"

lemma ex_run: "run_events ex_group ex_events (start_group ex_group False) = Some ex_end"
proof -
  have "run_events ex_group ex_events (start_group ex_group False) \<noteq> None" by code_simp
  then show ?thesis by (auto simp: ex_end_def)
qed

lemma ex_end_values:
  "at ex_end = Done" "commits ex_end = [(0, ''a''), (1, ''b'')]" "aborted ex_end = False" "committed ex_end = 2"
  "started ex_end = 2" "skipped ex_end = 0"
  by code_simp+

lemma ex_group_values: "size_of ex_group = 2" "max_parallel ex_group = 2"
  by (simp_all add: ex_group_def group_at_def)

lemma ex_group_reach: "(group_step ex_group)\<^sup>*\<^sup>* (start_group ex_group False) ex_end"
  using run_events_steps [OF ex_run] by (rule relpowp_imp_rtranclp)

theorem commits_follow_model_order_witness:
  "commits ex_end = map (\<lambda>i. (i, result_of ex_group ex_end i)) [0..<2] \<and> length (in_flight ex_end) \<le> 2"
  using commits_follow_model_order [OF _ _ ex_group_reach] by (simp add: ex_group_values ex_end_values)

lemma group_ends_cleanly_witness:
  "at ex_end = Done \<and> in_flight ex_end = [] \<and> gr_committed (group_result ex_group ex_end) = gr_consumed (group_result ex_group ex_end)"
  using group_ends_cleanly [OF _ _ ex_group_reach] by (simp add: ex_group_values ex_end_values)

lemma group_terminates_witness: "length ex_events \<le> 11 * 2 + 4"
  using group_terminates [OF _ _ run_events_steps [OF ex_run]] by (simp add: ex_group_values)

lemma ex_schedule:
  "run_calls 2 2 (\<lambda>i. ''aborted'') 0 start_schedule (add_group 0 (group_result ex_group ex_end) (commits ex_end) start_schedule) False"
proof (rule run_calls.next_group [OF _ refl])
  show "(group_step (group_at 2 2 (\<lambda>i. ''aborted'') 0 True))\<^sup>*\<^sup>* (start_group (group_at 2 2 (\<lambda>i. ''aborted'') 0 True) False) ex_end"
    using ex_group_reach by (simp only: ex_group_def)
  show "run_calls 2 2 (\<lambda>i. ''aborted'') (0 + gr_consumed (group_result (group_at 2 2 (\<lambda>i. ''aborted'') 0 True) ex_end))
      (add_group 0 (group_result (group_at 2 2 (\<lambda>i. ''aborted'') 0 True) ex_end) (commits ex_end) start_schedule)
      (add_group 0 (group_result ex_group ex_end) (commits ex_end) start_schedule) False"
    by (simp add: ex_group_def [symmetric] group_result_def ex_end_values run_calls.finished)
qed (simp_all add: ex_end_values group_result_def)

lemma every_call_committed_once_witness:
  "\<exists>t. run_calls 2 2 (\<lambda>i. ''aborted'') 0 start_schedule t False \<and> map fst (log_of t) = [0..<2] \<and> n_skipped t = 0"
  using every_call_committed_once [OF _ ex_schedule] ex_schedule by auto

end
