(* ===== verification/Permission.thy ===== *)
theory Permission
  imports OB_Prelude
begin

text \<open>
  \<^verbatim>\<open>src/backend/core/wildcard.py\<close> and \<^verbatim>\<open>src/backend/permission/permission.py\<close>: rule evaluation, the
  decision of \<^verbatim>\<open>ask\<close>, and the local life of a pending request until its reply. The relay over Redis
  between workers, notifications and tracing are not modelled; what \<^verbatim>\<open>reply\<close> asks of the assistant's
  durable requests and of the database is the record \<open>perm_ops\<close>.
\<close>

section \<open>Wildcards\<close>

text \<open>
  The regular expression built from a pattern: \<^verbatim>\<open>**\<close> is \<^verbatim>\<open>.*\<close> (any characters but newline, as the
  expression is compiled without DOTALL), \<^verbatim>\<open>*\<close> is \<^verbatim>\<open>[^/]*\<close>, and the final \<^verbatim>\<open>$\<close> also matches just before
  a trailing newline.
\<close>

datatype token = Dots | NonSlash | Lit char

fun tokens :: "string \<Rightarrow> token list" where
  "tokens [] = []"
| "tokens (c # cs) =
     (if c = CHR ''*'' then (case cs of
          [] \<Rightarrow> [NonSlash]
        | d # ds \<Rightarrow> if d = CHR ''*'' then Dots # tokens ds else NonSlash # tokens cs)
      else Lit c # tokens cs)"

definition newline :: char where "newline = CHR 0x0A"

fun regex_match :: "token list \<Rightarrow> string \<Rightarrow> bool" where
  "regex_match [] s = (s = [] \<or> s = [newline])"
| "regex_match (Lit c # ts) [] = False"
| "regex_match (Lit c # ts) (x # xs) = (c = x \<and> regex_match ts xs)"
| "regex_match (Dots # ts) [] = regex_match ts []"
| "regex_match (Dots # ts) (x # xs) = (regex_match ts (x # xs) \<or> x \<noteq> newline \<and> regex_match (Dots # ts) xs)"
| "regex_match (NonSlash # ts) [] = regex_match ts []"
| "regex_match (NonSlash # ts) (x # xs) = (regex_match ts (x # xs) \<or> x \<noteq> CHR ''/'' \<and> regex_match (NonSlash # ts) xs)"

definition wildcard_match :: "string \<Rightarrow> string \<Rightarrow> bool" where
  "wildcard_match text pattern =
     (if pattern = ''*'' \<or> pattern = ''**'' then True
      else if CHR ''*'' \<notin> set pattern then text = pattern
      else regex_match (tokens pattern) text)"

section \<open>Rules\<close>

datatype action = Allow | Deny | Ask

record rule =
  permission :: string
  rule_pattern :: string
  rule_action :: action

definition rule_matches :: "string \<Rightarrow> string \<Rightarrow> rule \<Rightarrow> bool" where
  "rule_matches perm pat r \<longleftrightarrow> wildcard_match perm (permission r) \<and> wildcard_match pat (rule_pattern r)"

definition evaluate :: "string \<Rightarrow> string \<Rightarrow> rule list list \<Rightarrow> rule" where
  "evaluate perm pat rulesets =
     (case fold (\<lambda>r m. if rule_matches perm pat r then Some r else m) (concat rulesets) None of
        Some r \<Rightarrow> r
      | None \<Rightarrow> \<lparr>permission = perm, rule_pattern = ''*'', rule_action = Ask\<rparr>)"

definition evaluate_guard :: "string \<Rightarrow> string \<Rightarrow> rule list \<Rightarrow> rule" where
  "evaluate_guard perm pat ruleset =
     evaluate perm pat [\<lparr>permission = ''*'', rule_pattern = ''*'', rule_action = Allow\<rparr> # ruleset]"

definition EDIT_TOOLS :: "string list" where
  "EDIT_TOOLS = [''edit'', ''write'', ''patch'', ''multiedit'', ''apply_patch'']"

definition tool_disabled :: "rule list \<Rightarrow> string \<Rightarrow> bool" where
  "tool_disabled ruleset tool =
     (case find (\<lambda>r. wildcard_match (if tool \<in> set EDIT_TOOLS then ''edit'' else tool) (permission r)) (rev ruleset) of
        None \<Rightarrow> False
      | Some r \<Rightarrow> rule_pattern r = ''*'' \<and> rule_action r = Deny)"

definition disabled_tools :: "string list \<Rightarrow> rule list \<Rightarrow> string list" where
  "disabled_tools tools ruleset = filter (tool_disabled ruleset) tools"

section \<open>The decision of ask\<close>

text \<open>What the loop over the patterns of a call decides, before any prompt is published.\<close>

record policies =
  config_rules :: "rule list"
  guard_rules :: "rule list"
  authority_rulesets :: "rule list list"
  authority_guard_rulesets :: "rule list list"

datatype decision = Granted | Denied string | Prompt

definition trusted_actions :: "policies \<Rightarrow> string \<Rightarrow> string \<Rightarrow> action list" where
  "trusted_actions p perm pat = rule_action (evaluate perm pat [config_rules p]) #
     map (\<lambda>rs. rule_action (evaluate perm pat [rs])) (authority_rulesets p)"

definition guard_actions :: "policies \<Rightarrow> string \<Rightarrow> string \<Rightarrow> action list" where
  "guard_actions p perm pat = rule_action (evaluate_guard perm pat (guard_rules p)) #
     map (\<lambda>rs. rule_action (evaluate_guard perm pat rs)) (authority_guard_rulesets p)"

definition decide_one :: "policies \<Rightarrow> rule list \<Rightarrow> string \<Rightarrow> string \<Rightarrow> decision" where
  "decide_one p user_rules perm pat =
     (let trusted = trusted_actions p perm pat; guards = guard_actions p perm pat
      in if Deny \<in> set (trusted @ guards) then Denied pat
         else if list_all (\<lambda>a. a = Allow) trusted \<and> Ask \<notin> set guards then Granted
         else case rule_action (evaluate perm pat [user_rules]) of
                Deny \<Rightarrow> Denied pat
              | Allow \<Rightarrow> Granted
              | Ask \<Rightarrow> Prompt)"

fun decide :: "policies \<Rightarrow> rule list \<Rightarrow> string \<Rightarrow> string list \<Rightarrow> bool \<Rightarrow> decision" where
  "decide p user_rules perm [] needs_confirmation = (if needs_confirmation then Prompt else Granted)"
| "decide p user_rules perm (pat # pats) needs_confirmation = (case decide_one p user_rules perm pat of
       Denied q \<Rightarrow> Denied q
     | Granted \<Rightarrow> decide p user_rules perm pats needs_confirmation
     | Prompt \<Rightarrow> decide p user_rules perm pats True)"

section \<open>Pending requests\<close>

datatype reply_action = Once | Always | Reject

record perm_request =
  q_id :: ident
  q_user_id :: ident
  q_session_id :: ident
  q_tool :: string
  q_patterns :: "string list"
  q_always :: "string list"
  q_assistant :: bool

record pending_permission =
  p_request :: perm_request
  p_event :: bool
  p_result :: "reply_action option"
  p_error_message :: "string option"

text \<open>
  The process state: the objects the waiting calls hold, the identifiers listed in \<^verbatim>\<open>_pending\<close> in
  insertion order, the rule cache and the loaded users; and the persisted rules.
\<close>

record perm_state =
  objects :: "(ident, pending_permission) table"
  pending_ids :: "ident list"
  approved :: "(ident, rule list) table"
  loaded_users :: "ident list"
  persisted :: "(ident, rule list) table"

record perm_ops =
  durable_reply :: "ident \<Rightarrow> bool"
  use_db :: bool
  linked_session :: "ident \<Rightarrow> bool"
  load_fails :: "ident \<Rightarrow> bool"
  persist_fails :: "rule \<Rightarrow> bool"

datatype perm_error = PermissionDeniedError string string | PermissionRejectedError | PermissionCorrectedError string
  | NotOwner | NotFound | PermissionGone | PersistFailed

definition get_user_approved :: "perm_state \<Rightarrow> ident \<Rightarrow> rule list" where
  "get_user_approved s user = (case tget (approved s) user of None \<Rightarrow> [] | Some rs \<Rightarrow> rs)"

definition set_user_approved :: "ident \<Rightarrow> rule list \<Rightarrow> perm_state \<Rightarrow> perm_state" where
  "set_user_approved user rs s = s\<lparr>approved := tput user rs (approved s)\<rparr>"

definition load_persisted_rules :: "perm_ops \<Rightarrow> perm_state \<Rightarrow> ident \<Rightarrow> perm_state" where
  "load_persisted_rules ops s user =
     (if user \<in> set (loaded_users s) then s
      else set_user_approved user
             (get_user_approved s user @
                (if load_fails ops user then [] else case tget (persisted s) user of None \<Rightarrow> [] | Some rs \<Rightarrow> rs))
             (s\<lparr>loaded_users := loaded_users s @ [user]\<rparr>))"

definition persist_rule :: "perm_ops \<Rightarrow> ident \<Rightarrow> rule \<Rightarrow> perm_state \<Rightarrow> perm_error + perm_state" where
  "persist_rule ops user r s =
     (if persist_fails ops r then Inl PersistFailed
      else Inr (s\<lparr>persisted := tput user ((case tget (persisted s) user of None \<Rightarrow> [] | Some rs \<Rightarrow> rs) @ [r]) (persisted s)\<rparr>))"

definition cache_rule :: "ident \<Rightarrow> rule \<Rightarrow> perm_state \<Rightarrow> perm_state" where
  "cache_rule user r s =
     (if r \<in> set (get_user_approved s user) then set_user_approved user (get_user_approved s user) s
      else set_user_approved user (get_user_approved s user @ [r]) s)"

text \<open>A failure to persist stops the loop; what was loaded, persisted and cached before it stays.\<close>

fun record_rules :: "perm_ops \<Rightarrow> ident \<Rightarrow> rule list \<Rightarrow> perm_state \<Rightarrow> perm_state \<times> perm_error option" where
  "record_rules ops user [] s = (s, None)"
| "record_rules ops user (r # rs) s =
     (if r \<in> set (get_user_approved s user) then record_rules ops user rs s
      else case persist_rule ops user r s of
             Inl e \<Rightarrow> (s, Some e)
           | Inr s' \<Rightarrow> record_rules ops user rs (cache_rule user r s'))"

definition grant_rules :: "perm_request \<Rightarrow> rule list" where
  "grant_rules q = map (\<lambda>pat. \<lparr>permission = q_tool q, rule_pattern = pat, rule_action = Allow\<rparr>)
     (if q_always q = [] then q_patterns q else q_always q)"

definition record_always_grant :: "perm_ops \<Rightarrow> ident \<Rightarrow> perm_request \<Rightarrow> perm_state \<Rightarrow> perm_state \<times> perm_error option" where
  "record_always_grant ops user q s = record_rules ops user (grant_rules q) (load_persisted_rules ops s user)"

definition put_object :: "ident \<Rightarrow> pending_permission \<Rightarrow> perm_state \<Rightarrow> perm_state" where
  "put_object i p s = s\<lparr>objects := tput i p (objects s)\<rparr>"

definition apply_reply_data ::
  "ident \<Rightarrow> reply_action \<Rightarrow> string option \<Rightarrow> rule list \<Rightarrow> perm_state \<Rightarrow> perm_state" where
  "apply_reply_data i act msg granted s = (case tget (objects s) i of
       None \<Rightarrow> s
     | Some p \<Rightarrow>
         (let s1 = put_object i (p\<lparr>p_result := Some act, p_error_message := msg\<rparr>) s
          in if act = Always then fold (cache_rule (q_user_id (p_request p))) granted s1 else s1))"

text \<open>The effect of an Always or Reject on the other requests of the same user and session.\<close>

definition related :: "perm_request \<Rightarrow> ident \<Rightarrow> perm_request \<Rightarrow> bool" where
  "related q i other \<longleftrightarrow> i \<noteq> q_id q \<and> \<not> q_assistant q \<and> \<not> q_assistant other \<and>
     q_user_id other = q_user_id q \<and> q_session_id other = q_session_id q"

definition resolves :: "reply_action \<Rightarrow> rule list \<Rightarrow> perm_request \<Rightarrow> bool" where
  "resolves act user_rules other = (case act of
       Once \<Rightarrow> False
     | Always \<Rightarrow> list_all (\<lambda>pat. rule_action (evaluate (q_tool other) pat [user_rules]) = Allow) (q_patterns other)
     | Reject \<Rightarrow> True)"

fun resolve_each :: "reply_action \<Rightarrow> rule list \<Rightarrow> perm_request \<Rightarrow> ident list \<Rightarrow> perm_state \<Rightarrow> perm_state" where
  "resolve_each act rules q [] s = s"
| "resolve_each act rules q (i # is) s = resolve_each act rules q is (case tget (objects s) i of
       None \<Rightarrow> s
     | Some other \<Rightarrow>
         if related q i (p_request other) \<and> resolves act rules (p_request other)
         then put_object i (other\<lparr>p_result := Some act, p_event := True\<rparr>) (s\<lparr>pending_ids := remove1 i (pending_ids s)\<rparr>)
         else s)"

definition resolve_related_pending :: "ident \<Rightarrow> perm_state \<Rightarrow> perm_state" where
  "resolve_related_pending i s = (case tget (objects s) i of
       None \<Rightarrow> s
     | Some p \<Rightarrow> (case p_result p of
           Some act \<Rightarrow>
             if act = Once then s
             else resolve_each act (get_user_approved s (q_user_id (p_request p))) (p_request p) (pending_ids s) s
         | None \<Rightarrow> s))"

text \<open>\<^verbatim>\<open>ask\<close> up to its wait, with the fresh identifier of the request; then what the wait returns.\<close>

definition ask ::
  "policies \<Rightarrow> perm_state \<Rightarrow> ident \<Rightarrow> ident \<Rightarrow> ident \<Rightarrow> string \<Rightarrow> string list \<Rightarrow> string list \<Rightarrow> bool \<Rightarrow>
     perm_state \<times> (perm_error + bool)" where
  "ask p s fresh user sid perm patterns always linked =
     (case decide p (get_user_approved s user) perm patterns False of
        Denied pat \<Rightarrow> (s, Inl (PermissionDeniedError perm pat))
      | Granted \<Rightarrow> (s, Inr False)
      | Prompt \<Rightarrow>
          let q = \<lparr>q_id = fresh, q_user_id = user, q_session_id = sid, q_tool = perm, q_patterns = patterns,
                   q_always = (if always = [] then patterns else always), q_assistant = linked\<rparr>
          in ((put_object fresh \<lparr>p_request = q, p_event = False, p_result = None, p_error_message = None\<rparr> s)
                \<lparr>pending_ids := pending_ids s @ [fresh]\<rparr>, Inr True))"

definition wait_result :: "pending_permission \<Rightarrow> perm_error + unit" where
  "wait_result p = (case p_result p of
       Some Once \<Rightarrow> Inr ()
     | Some Always \<Rightarrow> Inr ()
     | _ \<Rightarrow> (case p_error_message p of
           None \<Rightarrow> Inl PermissionRejectedError
         | Some m \<Rightarrow> if m = [] then Inl PermissionRejectedError else Inl (PermissionCorrectedError m)))"

definition set_event_of :: "ident \<Rightarrow> perm_state \<Rightarrow> perm_state" where
  "set_event_of i s = (case tget (objects s) i of None \<Rightarrow> s | Some p \<Rightarrow> put_object i (p\<lparr>p_event := True\<rparr>) s)"

definition reply :: "perm_ops \<Rightarrow> perm_state \<Rightarrow> ident \<Rightarrow> reply_action \<Rightarrow> string option \<Rightarrow> ident \<Rightarrow> perm_state \<times> (perm_error + unit)" where
  "reply ops s i act msg user =
     (if durable_reply ops i then (s, Inr ())
      else if i \<notin> set (pending_ids s) then (s, Inl NotFound)
      else case tget (objects s) i of
        None \<Rightarrow> (s, Inl NotFound)
      | Some p \<Rightarrow>
          let q = p_request p
          in if q_user_id q \<noteq> [] \<and> q_user_id q \<noteq> user then (s, Inl NotOwner)
             else if use_db ops \<and> (linked_session ops (q_session_id q) \<or> q_assistant q) then (s, Inl PermissionGone)
             else
               let s1 = s\<lparr>pending_ids := remove1 i (pending_ids s)\<rparr>
               in case (if act = Always then record_always_grant ops user q s1 else (s1, None)) of
                    (s2, Some e) \<Rightarrow> (s2\<lparr>pending_ids := pending_ids s2 @ [i]\<rparr>, Inl e)
                  | (s2, None) \<Rightarrow>
                      (set_event_of i (resolve_related_pending i (apply_reply_data i act msg
                         (if act = Always then grant_rules q else []) s2)), Inr ()))"

text \<open>
  The end of \<^verbatim>\<open>ask\<close>: when its wait is over, because the event was set or the call was cancelled, the
  request leaves \<^verbatim>\<open>_pending\<close> and the object goes with the call.
\<close>

definition finish_ask :: "perm_state \<Rightarrow> ident \<Rightarrow> perm_state" where
  "finish_ask s i = s\<lparr>pending_ids := remove1 i (pending_ids s), objects := tdel i (objects s)\<rparr>"

definition list_pending :: "perm_state \<Rightarrow> ident option \<Rightarrow> perm_request list" where
  "list_pending s user = filter (\<lambda>q. case user of None \<Rightarrow> True | Some u \<Rightarrow> q_user_id q = u)
     (map p_request (List.map_filter (tget (objects s)) (pending_ids s)))"

text \<open>\<^verbatim>\<open>_sync_grants_from_bus\<close>: another worker's reply reaches this worker's cache (allow rules only).\<close>

definition sync_grants_from_bus :: "perm_state \<Rightarrow> ident option \<Rightarrow> rule list \<Rightarrow> perm_state" where
  "sync_grants_from_bus s user rules = (case user of
       None \<Rightarrow> s
     | Some u \<Rightarrow> if u = [] then s else fold (cache_rule u) (filter (\<lambda>r. rule_action r = Allow) rules) s)"

end
