(* ===== verification/Permission_Theorems.thy ===== *)
theory Permission_Theorems
  imports Permission
begin

text \<open>
  What \<^verbatim>\<open>src/backend/core/wildcard.py\<close> and \<^verbatim>\<open>src/backend/permission/permission.py\<close> guarantee: the language
  of a pattern, the decision of \<^verbatim>\<open>ask\<close> over all the targets of a call, and the life of a request.
\<close>

section \<open>The language of a pattern\<close>

text \<open>The words one piece of a pattern stands for.\<close>

fun piece_word :: "token \<Rightarrow> string \<Rightarrow> bool" where
  "piece_word (Lit c) w = (w = [c])"
| "piece_word Dots w = (newline \<notin> set w)"
| "piece_word NonSlash w = (CHR ''/'' \<notin> set w)"

definition denotes :: "token list \<Rightarrow> string \<Rightarrow> bool" where
  "denotes ts s \<longleftrightarrow> (\<exists>ws z. s = concat ws @ z \<and> list_all2 piece_word ts ws \<and> (z = [] \<or> z = [newline]))"

lemma denotes_Nil: "denotes [] s \<longleftrightarrow> s = [] \<or> s = [newline]"
  by (auto simp: denotes_def)

lemma denotes_Cons:
  "denotes (t # ts) s \<longleftrightarrow> (\<exists>w s'. s = w @ s' \<and> piece_word t w \<and> denotes ts s')"
proof
  assume "denotes (t # ts) s"
  then obtain ws z where *: "s = concat ws @ z" "list_all2 piece_word (t # ts) ws" "z = [] \<or> z = [newline]"
    by (auto simp: denotes_def)
  then obtain w us where "ws = w # us" "piece_word t w" "list_all2 piece_word ts us"
    by (auto simp: list_all2_Cons1)
  with * show "\<exists>w s'. s = w @ s' \<and> piece_word t w \<and> denotes ts s'"
    by (auto simp: denotes_def)
next
  assume "\<exists>w s'. s = w @ s' \<and> piece_word t w \<and> denotes ts s'"
  then obtain w ws z where *: "s = w @ concat ws @ z" "piece_word t w" "list_all2 piece_word ts ws" "z = [] \<or> z = [newline]"
    by (auto simp: denotes_def)
  then show "denotes (t # ts) s"
    unfolding denotes_def by (intro exI [of _ "w # ws"] exI [of _ z]) simp
qed

lemma denotes_star_step:
  assumes "piece_word t [] " and "\<And>x w. piece_word t (x # w) \<longleftrightarrow> P x \<and> piece_word t w"
  shows "denotes (t # ts) [] = denotes ts []"
    and "denotes (t # ts) (x # xs) \<longleftrightarrow> denotes ts (x # xs) \<or> P x \<and> denotes (t # ts) xs"
proof -
  show "denotes (t # ts) [] = denotes ts []"
    using assms(1) by (auto simp: denotes_Cons)
  show "denotes (t # ts) (x # xs) \<longleftrightarrow> denotes ts (x # xs) \<or> P x \<and> denotes (t # ts) xs"
  proof
    assume "denotes (t # ts) (x # xs)"
    then obtain w s' where w: "x # xs = w @ s'" "piece_word t w" "denotes ts s'"
      by (auto simp: denotes_Cons)
    then show "denotes ts (x # xs) \<or> P x \<and> denotes (t # ts) xs"
      by (cases w) (auto simp: denotes_Cons assms(2))
  next
    assume "denotes ts (x # xs) \<or> P x \<and> denotes (t # ts) xs"
    then show "denotes (t # ts) (x # xs)"
    proof
      assume "denotes ts (x # xs)"
      with assms(1) show ?thesis by (auto simp: denotes_Cons)
    next
      assume "P x \<and> denotes (t # ts) xs"
      then obtain w s' where "xs = w @ s'" "piece_word t w" "denotes ts s'" "P x"
        by (auto simp: denotes_Cons)
      then have "x # xs = (x # w) @ s'" "piece_word t (x # w)" "denotes ts s'"
        by (simp_all add: assms(2))
      then show ?thesis unfolding denotes_Cons by blast
    qed
  qed
qed

lemma regex_match_denotes: "regex_match ts s = denotes ts s"
proof (induction ts s rule: regex_match.induct)
  case (1 s)
  show ?case by (simp add: denotes_Nil)
next
  case (2 c ts)
  show ?case by (simp add: denotes_Cons)
next
  case (3 c ts x xs)
  then show ?case by (auto simp: denotes_Cons)
next
  case (4 ts)
  then show ?case using denotes_star_step(1) [of Dots "\<lambda>x. x \<noteq> newline"] by auto
next
  case (5 ts x xs)
  then show ?case using denotes_star_step(2) [of Dots "\<lambda>x. x \<noteq> newline" ts x xs] by auto
next
  case (6 ts)
  then show ?case using denotes_star_step(1) [of NonSlash "\<lambda>x. x \<noteq> CHR ''/''"] by auto
next
  case (7 ts x xs)
  then show ?case using denotes_star_step(2) [of NonSlash "\<lambda>x. x \<noteq> CHR ''/''" ts x xs] by auto
qed


lemma denotes_self: "denotes (tokens s) s"
proof (induction s rule: tokens.induct)
  case 1
  show ?case by (simp add: denotes_Nil)
next
  case (2 c cs)
  show ?case
  proof (cases "c = CHR ''*''")
    case False
    with 2 have "piece_word (Lit c) [c]" "denotes (tokens cs) cs" by simp_all
    then show ?thesis using False unfolding tokens.simps denotes_Cons
      by (simp add: denotes_Cons)
  next
    case True
    show ?thesis
    proof (cases cs)
      case Nil
      have "piece_word NonSlash ''*''" "denotes [] []" by (simp_all add: denotes_Nil)
      then have "denotes [NonSlash] (''*'' @ [])" unfolding denotes_Cons by blast
      with True Nil show ?thesis by simp
    next
      case (Cons d ds)
      show ?thesis
      proof (cases "d = CHR ''*''")
        case d: True
        with 2(1) True Cons have "denotes (tokens ds) ds" by simp
        moreover have "piece_word Dots ''**''" by (simp add: newline_def)
        ultimately have "denotes (Dots # tokens ds) (''**'' @ ds)" unfolding denotes_Cons by blast
        with True d Cons show ?thesis by simp
      next
        case d: False
        with 2(2) True Cons have "denotes (tokens cs) cs" by simp
        moreover have "piece_word NonSlash ''*''" by simp
        ultimately have "denotes (NonSlash # tokens cs) (''*'' @ cs)" unfolding denotes_Cons by blast
        with True d Cons show ?thesis by simp
      qed
    qed
  qed
qed

lemma wildcard_match_self [simp]: "wildcard_match s s"
  by (simp add: wildcard_match_def regex_match_denotes denotes_self)

section \<open>Evaluation\<close>

lemma fold_last_match:
  "fold (\<lambda>r m. if P r then Some r else m) rs m = (if filter P rs = [] then m else Some (last (filter P rs)))"
  by (induction rs arbitrary: m) auto

lemma evaluate_last:
  "evaluate perm pat rulesets =
     (let ms = filter (rule_matches perm pat) (concat rulesets)
      in if ms = [] then \<lparr>permission = perm, rule_pattern = ''*'', rule_action = Ask\<rparr> else last ms)"
  by (simp add: evaluate_def fold_last_match Let_def)

lemma evaluate_only_allow:
  assumes "\<And>r. r \<in> set rules \<Longrightarrow> rule_action r = Allow" and "r \<in> set rules" "rule_matches perm pat r"
  shows "rule_action (evaluate perm pat [rules]) = Allow"
proof -
  have "filter (rule_matches perm pat) rules \<noteq> []"
    using assms(2,3) by (auto simp: filter_empty_conv)
  then have "last (filter (rule_matches perm pat) rules) \<in> set rules"
    using last_in_set by fastforce
  with assms(1) \<open>filter _ _ \<noteq> []\<close> show ?thesis
    by (simp add: evaluate_last Let_def)
qed

lemma guard_neutral:
  "filter (rule_matches perm pat) rs = [] \<Longrightarrow> rule_action (evaluate_guard perm pat rs) = Allow"
  by (simp add: evaluate_guard_def evaluate_last rule_matches_def wildcard_match_def)


section \<open>The decision of a whole call\<close>

lemma decide_cases:
  "decide p u perm pats needs =
     (case find (\<lambda>pat. decide_one p u perm pat \<notin> {Granted, Prompt}) pats of
        Some pat \<Rightarrow> Denied pat
      | None \<Rightarrow> if needs \<or> (\<exists>pat\<in>set pats. decide_one p u perm pat = Prompt) then Prompt else Granted)"
proof (induction pats arbitrary: needs)
  case Nil
  then show ?case by simp
next
  case (Cons pat pats)
  have "decide_one p u perm pat = Denied q \<Longrightarrow> q = pat" for q
    by (auto simp: decide_one_def Let_def split: if_splits action.splits)
  with Cons show ?case
    by (cases "decide_one p u perm pat") (auto split: option.splits)
qed

definition forbids :: "policies \<Rightarrow> string \<Rightarrow> string \<Rightarrow> bool" where
  "forbids p perm pat \<longleftrightarrow> Deny \<in> set (trusted_actions p perm pat @ guard_actions p perm pat)"

lemma decide_one_forbids: "forbids p perm pat \<Longrightarrow> decide_one p u perm pat = Denied pat"
  by (simp add: forbids_def decide_one_def Let_def)

lemma find_first: "x \<in> set xs \<Longrightarrow> P x \<Longrightarrow> \<exists>y\<in>set xs. P y \<and> find P xs = Some y"
  by (induction xs) auto

lemma decide_refuses:
  assumes "pat \<in> set pats" and "forbids p perm pat"
  shows "\<exists>pat'\<in>set pats. decide p u perm pats needs = Denied pat'"
  using find_first [of pat pats "\<lambda>pat. decide_one p u perm pat \<notin> {Granted, Prompt}"] assms
  by (auto simp: decide_one_forbids decide_cases)

text \<open>
  C39. A deny of the trusted policy is final. If the configuration, the deployment guard or any
  inherited ruleset or guard denies one target of a call, the call is refused with
  \<^verbatim>\<open>PermissionDeniedError\<close> on one of its targets, no prompt is created and nothing changes, wherever
  the target stands among the others and whatever the user has approved.
\<close>

theorem trusted_deny_is_final:
  assumes "pat \<in> set patterns" and "forbids p perm pat"
  shows "\<exists>pat'\<in>set patterns. ask p s fresh user sid perm patterns always linked
           = (s, Inl (PermissionDeniedError perm pat'))"
  using decide_refuses [OF assms, of "get_user_approved s user" False] by (auto simp: ask_def)

fun strictness :: "decision \<Rightarrow> nat" where
  "strictness Granted = 0"
| "strictness Prompt = 1"
| "strictness (Denied pat) = 2"

definition inherit :: "rule list list \<Rightarrow> rule list list \<Rightarrow> policies \<Rightarrow> policies" where
  "inherit rulesets guards p = p\<lparr>authority_rulesets := authority_rulesets p @ rulesets,
     authority_guard_rulesets := authority_guard_rulesets p @ guards\<rparr>"

lemma decide_one_inherit:
  "strictness (decide_one p u perm pat) \<le> strictness (decide_one (inherit rss gss p) u perm pat)"
  by (auto simp: decide_one_def Let_def trusted_actions_def guard_actions_def inherit_def list_all_iff
      split: action.splits)

lemma decide_mono:
  assumes "\<And>pat. pat \<in> set pats \<Longrightarrow> strictness (decide_one p u perm pat) \<le> strictness (decide_one p' u' perm pat)"
    and "needs \<longrightarrow> needs'"
  shows "strictness (decide p u perm pats needs) \<le> strictness (decide p' u' perm pats needs')"
  using assms
proof (induction pats arbitrary: needs needs')
  case Nil
  then show ?case by auto
next
  case (Cons pat pats)
  have le: "strictness (decide_one p u perm pat) \<le> strictness (decide_one p' u' perm pat)"
    using Cons.prems(1) by simp
  have IH: "n \<longrightarrow> n' \<Longrightarrow> strictness (decide p u perm pats n) \<le> strictness (decide p' u' perm pats n')" for n n'
    using Cons.IH Cons.prems(1) by simp
  have top: "strictness d \<le> 2" for d by (cases d) simp_all
  show ?case
    using le IH Cons.prems(2) top
    by (cases "decide_one p u perm pat"; cases "decide_one p' u' perm pat") auto
qed

text \<open>
  What a task inherits from the run that delegated it can only restrict it: with any further
  inherited rulesets and guards the decision on the same call and the same approvals is at least as
  strict, in the order granted, prompt, denied.
\<close>

lemma inherited_authority_only_restricts:
  "strictness (decide p u perm patterns needs) \<le> strictness (decide (inherit rulesets guards p) u perm patterns needs)"
  by (rule decide_mono) (simp_all add: decide_one_inherit)

definition permits :: "policies \<Rightarrow> string \<Rightarrow> string \<Rightarrow> bool" where
  "permits p perm pat \<longleftrightarrow>
     list_all (\<lambda>a. a = Allow) (trusted_actions p perm pat) \<and> list_all (\<lambda>a. a = Allow) (guard_actions p perm pat)"

lemma decide_one_Granted:
  "decide_one p u perm pat = Granted \<longleftrightarrow>
     permits p perm pat \<or> \<not> forbids p perm pat \<and> rule_action (evaluate perm pat [u]) = Allow"
proof -
  have "list_all (\<lambda>a. a = Allow) xs \<longleftrightarrow> Ask \<notin> set xs \<and> Deny \<notin> set xs" for xs :: "action list"
    unfolding list_all_iff using action.exhaust by auto
  then show ?thesis
    by (auto simp: decide_one_def Let_def permits_def forbids_def split: action.splits)
qed

lemma decide_Granted:
  "decide p u perm pats needs = Granted \<longleftrightarrow> \<not> needs \<and> (\<forall>pat\<in>set pats. decide_one p u perm pat = Granted)"
proof (induction pats arbitrary: needs)
  case Nil
  show ?case by simp
next
  case (Cons pat pats)
  then show ?case by (cases "decide_one p u perm pat") auto
qed

text \<open>
  A call goes ahead without a prompt exactly when each of its targets is permitted: by every
  trusted ruleset and every guard, or, where none of them denies it, by the user's own rules.
\<close>

lemma granted_exactly_when_permitted:
  "ask p s fresh user sid perm patterns always linked = (s, Inr False) \<longleftrightarrow>
     list_all (\<lambda>pat. permits p perm pat \<or>
        \<not> forbids p perm pat \<and> rule_action (evaluate perm pat [get_user_approved s user]) = Allow) patterns"
proof -
  have "ask p s fresh user sid perm patterns always linked = (s, Inr False) \<longleftrightarrow>
      decide p (get_user_approved s user) perm patterns False = Granted"
    by (simp add: ask_def Let_def split: decision.splits)
  then show ?thesis
    by (simp add: decide_Granted decide_one_Granted list_all_iff)
qed

lemma last_filter_imp:
  assumes "find P (rev rs) = Some r" and "\<And>r. Q r \<Longrightarrow> P r" and "Q r"
  shows "filter Q rs \<noteq> [] \<and> last (filter Q rs) = r"
  using assms(1,3)
proof (induction rs rule: rev_induct)
  case Nil
  then show ?case by simp
next
  case (snoc x rs)
  then show ?case using assms(2) by (auto split: if_splits)
qed

text \<open>
  Hiding a tool agrees with deciding its calls: a tool \<^verbatim>\<open>disabled_tools\<close> leaves out of the model's
  tools is one whose every call would be refused, for every target, under a policy with that ruleset
  (the editing tools are judged as \<^verbatim>\<open>edit\<close>).
\<close>

lemma disabled_tools_are_denied:
  assumes "tool \<in> set (disabled_tools tools (config_rules p))" and "patterns \<noteq> []"
  shows "\<exists>pat\<in>set patterns. ask p s fresh user sid (if tool \<in> set EDIT_TOOLS then ''edit'' else tool) patterns always linked
           = (s, Inl (PermissionDeniedError (if tool \<in> set EDIT_TOOLS then ''edit'' else tool) pat))"
proof -
  let ?perm = "if tool \<in> set EDIT_TOOLS then ''edit'' else tool"
  from assms(1) obtain r where r: "find (\<lambda>r. wildcard_match ?perm (permission r)) (rev (config_rules p)) = Some r"
      "rule_pattern r = ''*''" "rule_action r = Deny"
    by (auto simp: disabled_tools_def tool_disabled_def split: option.splits)
  then have m: "wildcard_match ?perm (permission r)" by (auto simp: find_Some_iff)
  have "rule_action (evaluate ?perm pat [config_rules p]) = Deny" for pat
    using last_filter_imp [OF r(1), of "rule_matches ?perm pat"] m r(2,3)
    by (simp add: rule_matches_def evaluate_last Let_def wildcard_match_def [of _ "''*''"])
  then have "forbids p ?perm pat" for pat
    by (simp add: forbids_def trusted_actions_def)
  moreover obtain pat where "pat \<in> set patterns" using assms(2) by (cases patterns) auto
  ultimately show ?thesis
    using decide_refuses [of pat patterns p ?perm "get_user_approved s user" False] by (auto simp: ask_def)
qed


section \<open>Concrete instances\<close>

text \<open>A policy that denies the shell on everything under one directory and every edit.\<close>

definition ex_deny :: policies where
  "ex_deny = \<lparr>config_rules = [\<lparr>permission = ''bash'', rule_pattern = ''etc/*'', rule_action = Deny\<rparr>,
       \<lparr>permission = ''edit'', rule_pattern = ''*'', rule_action = Deny\<rparr>],
     guard_rules = [], authority_rulesets = [], authority_guard_rulesets = []\<rparr>"

definition ex_idle :: perm_state where
  "ex_idle = \<lparr>objects = [], pending_ids = [], approved = [], loaded_users = [], persisted = []\<rparr>"

theorem trusted_deny_is_final_witness:
  "\<exists>pat'\<in>set [''ls'', ''etc/x'']. ask ex_deny ex_idle ''q'' ''u1'' ''s1'' ''bash'' [''ls'', ''etc/x''] [] False
     = (ex_idle, Inl (PermissionDeniedError ''bash'' pat'))"
proof -
  have "forbids ex_deny ''bash'' ''etc/x''" by code_simp
  with trusted_deny_is_final [of "''etc/x''" "[''ls'', ''etc/x'']" ex_deny "''bash''"] show ?thesis by simp
qed

lemma disabled_tools_are_denied_witness:
  "\<exists>pat\<in>set [''a.py'']. ask ex_deny ex_idle ''q'' ''u1'' ''s1'' ''edit'' [''a.py''] [] False
     = (ex_idle, Inl (PermissionDeniedError ''edit'' pat))"
proof -
  have "''write'' \<in> set (disabled_tools [''read'', ''write''] (config_rules ex_deny))" by code_simp
  with disabled_tools_are_denied [of "''write''" "[''read'', ''write'']" ex_deny "[''a.py'']" ex_idle "''q''" "''u1''" "''s1''" "[]" False]
  show ?thesis by (simp add: EDIT_TOOLS_def)
qed

end
