(* ===== verification/Permission_Requests.thy ===== *)
theory Permission_Requests
  imports Permission_Theorems
begin

text \<open>
  The life of a permission request in \<^verbatim>\<open>src/backend/permission/permission.py\<close>: the steps a worker takes,
  what holds in every state they reach, and what a reply guarantees.
\<close>

section \<open>What each operation leaves alone\<close>

lemma cache_rule_fields [simp]:
  "objects (cache_rule u r s) = objects s" "pending_ids (cache_rule u r s) = pending_ids s"
  "persisted (cache_rule u r s) = persisted s" "loaded_users (cache_rule u r s) = loaded_users s"
  by (simp_all add: cache_rule_def set_user_approved_def)

lemma get_user_approved_cache_rule:
  "set (get_user_approved (cache_rule u r s) v) = (if v = u then insert r (set (get_user_approved s u)) else set (get_user_approved s v))"
  by (auto simp: cache_rule_def set_user_approved_def get_user_approved_def tget_tput)

lemma fold_cache_rule_fields [simp]:
  "objects (fold (cache_rule u) rs s) = objects s" "pending_ids (fold (cache_rule u) rs s) = pending_ids s"
  "persisted (fold (cache_rule u) rs s) = persisted s"
  by (induction rs arbitrary: s) simp_all

lemma get_user_approved_fold:
  "set (get_user_approved (fold (cache_rule u) rs s) v) = (if v = u then set rs \<union> set (get_user_approved s u) else set (get_user_approved s v))"
  by (induction rs arbitrary: s) (auto simp: get_user_approved_cache_rule)

definition persisted_of :: "perm_state \<Rightarrow> ident \<Rightarrow> rule list" where
  "persisted_of s u = (case tget (persisted s) u of None \<Rightarrow> [] | Some rs \<Rightarrow> rs)"

lemma load_fields [simp]:
  "objects (load_persisted_rules ops s u) = objects s"
  "pending_ids (load_persisted_rules ops s u) = pending_ids s"
  "persisted (load_persisted_rules ops s u) = persisted s"
  by (simp_all add: load_persisted_rules_def set_user_approved_def)

lemma get_user_approved_load:
  "set (get_user_approved (load_persisted_rules ops s u) v) \<subseteq> set (get_user_approved s v) \<union> (if v = u then set (persisted_of s u) else {})"
  by (auto simp: load_persisted_rules_def set_user_approved_def get_user_approved_def tget_tput persisted_of_def)

lemma persist_rule_Inr:
  assumes "persist_rule ops u r s = Inr s'"
  shows "objects s' = objects s" "pending_ids s' = pending_ids s" "approved s' = approved s"
    and "set (persisted_of s' v) = set (persisted_of s v) \<union> (if v = u then {r} else {})"
  using assms by (auto simp: persist_rule_def persisted_of_def tget_tput split: if_splits)

lemma record_rules_fields:
  "record_rules ops u rs s = (s', e) \<Longrightarrow> objects s' = objects s \<and> pending_ids s' = pending_ids s"
proof (induction rs arbitrary: s)
  case (Cons r rs)
  then show ?case
    by (auto simp: persist_rule_Inr split: if_splits sum.splits)
qed simp

lemma record_rules_sets:
  assumes "record_rules ops u rs s = (s', e)"
  shows "set (persisted_of s v) \<subseteq> set (persisted_of s' v)"
    and "set (get_user_approved s v) \<subseteq> set (get_user_approved s' v)"
    and "set (get_user_approved s' v) \<subseteq> set (get_user_approved s v) \<union> (if v = u then set rs else {})"
    and "set (get_user_approved s v) \<subseteq> set (persisted_of s v) \<Longrightarrow> set (get_user_approved s' v) \<subseteq> set (persisted_of s' v)"
    and "set (persisted_of s' v) \<subseteq> set (persisted_of s v) \<union> (if v = u then set rs else {})"
  using assms
proof (atomize (full), induction rs arbitrary: s)
  case Nil
  then show ?case by simp
next
  case (Cons r rs)
  show ?case
  proof (cases "r \<in> set (get_user_approved s u)")
    case True
    with Cons.prems have run: "record_rules ops u rs s = (s', e)" by simp
    from Cons.IH [of s] run True show ?thesis by auto
  next
    case False
    show ?thesis
    proof (cases "persist_rule ops u r s")
      case (Inl x)
      with False Cons.prems show ?thesis by auto
    next
      case (Inr s1)
      note p = persist_rule_Inr [OF Inr]
      let ?s2 = "cache_rule u r s1"
      have a: "set (get_user_approved ?s2 v) = (if v = u then insert r (set (get_user_approved s u)) else set (get_user_approved s v))" for v
        by (simp add: get_user_approved_cache_rule) (simp add: get_user_approved_def p(3))
      have b: "set (persisted_of ?s2 v) = set (persisted_of s v) \<union> (if v = u then {r} else {})" for v
        using p(4) [of v] by (simp add: persisted_of_def)
      from False Inr Cons.prems have run: "record_rules ops u rs ?s2 = (s', e)" by simp
      show ?thesis using Cons.IH [of ?s2] run unfolding a b by (auto split: if_splits)
    qed
  qed
qed


lemma record_rules_recorded:
  "record_rules ops u rs s = (s', None) \<Longrightarrow> set rs \<subseteq> set (get_user_approved s' u)"
proof (induction rs arbitrary: s)
  case (Cons r rs)
  show ?case
  proof (cases "r \<in> set (get_user_approved s u)")
    case True
    with Cons.prems have "record_rules ops u rs s = (s', None)" by simp
    with Cons.IH [OF this] record_rules_sets(2) [OF this, of u] True show ?thesis by auto
  next
    case False
    with Cons.prems obtain s1 where "record_rules ops u rs (cache_rule u r s1) = (s', None)"
      by (auto split: sum.splits)
    with Cons.IH [OF this] record_rules_sets(2) [OF this, of u] show ?thesis
      by (auto simp: get_user_approved_cache_rule)
  qed
qed simp

lemma record_always_grant_sets:
  assumes "record_always_grant ops u q s = (s', e)"
  shows "objects s' = objects s" "pending_ids s' = pending_ids s"
    and "set (get_user_approved s' v) \<subseteq> set (get_user_approved s v) \<union> (if v = u then set (persisted_of s u) \<union> set (grant_rules q) else {})"
    and "set (persisted_of s v) \<subseteq> set (persisted_of s' v)"
    and "set (get_user_approved s v) \<subseteq> set (persisted_of s v) \<Longrightarrow> set (get_user_approved s' v) \<subseteq> set (persisted_of s' v)"
    and "e = None \<Longrightarrow> set (grant_rules q) \<subseteq> set (get_user_approved s' u)"
proof -
  let ?s = "load_persisted_rules ops s u"
  from assms have run: "record_rules ops u (grant_rules q) ?s = (s', e)" by (simp add: record_always_grant_def)
  have pers: "persisted_of ?s w = persisted_of s w" for w by (simp add: persisted_of_def)
  show "objects s' = objects s" "pending_ids s' = pending_ids s" using record_rules_fields [OF run] by simp_all
  show "set (get_user_approved s' v) \<subseteq> set (get_user_approved s v) \<union> (if v = u then set (persisted_of s u) \<union> set (grant_rules q) else {})"
    using record_rules_sets(3) [OF run, of v] get_user_approved_load [of ops s u v] by (auto split: if_splits)
  show "set (persisted_of s v) \<subseteq> set (persisted_of s' v)"
    using record_rules_sets(1) [OF run, of v] by (simp add: pers)
  show "set (get_user_approved s v) \<subseteq> set (persisted_of s v) \<Longrightarrow> set (get_user_approved s' v) \<subseteq> set (persisted_of s' v)"
    using record_rules_sets(4) [OF run, of v] get_user_approved_load [of ops s u v] pers
    by (auto split: if_splits)
  show "e = None \<Longrightarrow> set (grant_rules q) \<subseteq> set (get_user_approved s' u)"
    using record_rules_recorded run by blast
qed

section \<open>Resolving the related requests\<close>

text \<open>What \<^verbatim>\<open>_resolve_related_pending\<close> does to the request with a given identifier.\<close>

definition touched :: "reply_action \<Rightarrow> rule list \<Rightarrow> perm_request \<Rightarrow> ident \<Rightarrow> perm_state \<Rightarrow> bool" where
  "touched act rules q i s \<longleftrightarrow> (case tget (objects s) i of
       None \<Rightarrow> False
     | Some other \<Rightarrow> related q i (p_request other) \<and> resolves act rules (p_request other))"

lemma resolve_each_fields [simp]:
  "approved (resolve_each act rules q is s) = approved s"
  "persisted (resolve_each act rules q is s) = persisted s"
  by (induction "is" arbitrary: s) (simp_all add: put_object_def split: option.split)

lemma resolve_each_spec:
  "distinct is \<Longrightarrow>
     tget (objects (resolve_each act rules q is s)) j =
       (if j \<in> set is \<and> touched act rules q j s
        then map_option (\<lambda>p. p\<lparr>p_result := Some act, p_event := True\<rparr>) (tget (objects s) j) else tget (objects s) j) \<and>
     pending_ids (resolve_each act rules q is s) =
       fold remove1 (filter (\<lambda>i. touched act rules q i s) is) (pending_ids s)"
proof (induction "is" arbitrary: s)
  case Nil
  then show ?case by simp
next
  case (Cons i "is")
  let ?s = "if touched act rules q i s
      then put_object i ((the (tget (objects s) i))\<lparr>p_result := Some act, p_event := True\<rparr>) (s\<lparr>pending_ids := remove1 i (pending_ids s)\<rparr>)
      else s"
  have run: "resolve_each act rules q (i # is) s = resolve_each act rules q is ?s"
    by (auto simp: touched_def split: option.split)
  have same: "touched act rules q k ?s = touched act rules q k s" "tget (objects ?s) k = tget (objects s) k" if "k \<noteq> i" for k
    using that by (auto simp: touched_def put_object_def tget_tput)
  have flt: "filter (\<lambda>k. touched act rules q k ?s) is = filter (\<lambda>k. touched act rules q k s) is"
  proof (rule filter_cong [OF refl])
    fix k assume "k \<in> set is"
    with Cons.prems have "k \<noteq> i" by auto
    then show "touched act rules q k ?s = touched act rules q k s" by (rule same(1))
  qed
  have here: "tget (objects ?s) i = (if touched act rules q i s
      then map_option (\<lambda>p. p\<lparr>p_result := Some act, p_event := True\<rparr>) (tget (objects s) i) else tget (objects s) i)"
    by (auto simp: touched_def put_object_def tget_tput split: option.splits)
  have "pending_ids ?s = (if touched act rules q i s then remove1 i (pending_ids s) else pending_ids s)"
    by (simp add: put_object_def)
  with Cons.IH [of ?s] Cons.prems run flt same here show ?case
    by (cases "j = i") simp_all
qed

lemma fold_remove1: "distinct xs \<Longrightarrow> distinct (fold remove1 ys xs) \<and> set (fold remove1 ys xs) = set xs - set ys"
  by (induction ys arbitrary: xs) auto


section \<open>The steps of a worker\<close>

text \<open>
  What can happen to the state: a call prompts under a fresh identifier, a reply arrives, a call ends
  its wait (woken or cancelled), a user's rules are loaded, and another worker's grants, which that
  worker has persisted, are merged.
\<close>

inductive perm_step :: "perm_ops \<Rightarrow> perm_state \<Rightarrow> perm_state \<Rightarrow> bool" for ops where
  ask_step: "tget (objects s) fresh = None \<Longrightarrow> fst (ask p s fresh user sid perm patterns always linked) = s' \<Longrightarrow> perm_step ops s s'"
| reply_step: "fst (reply ops s i act msg user) = s' \<Longrightarrow> perm_step ops s s'"
| finish_step: "perm_step ops s (finish_ask s i)"
| load_step: "perm_step ops s (load_persisted_rules ops s user)"
| sync_step: "(\<And>u. user = Some u \<Longrightarrow> set rules \<subseteq> set (persisted_of s u)) \<Longrightarrow> perm_step ops s (sync_grants_from_bus s user rules)"

text \<open>A call is listed exactly while it has no answer and is woken exactly when it has one.\<close>

definition requests_ok :: "perm_state \<Rightarrow> bool" where
  "requests_ok s \<longleftrightarrow> distinct (pending_ids s) \<and> (\<forall>i\<in>set (pending_ids s). tget (objects s) i \<noteq> None) \<and>
     (\<forall>i p. tget (objects s) i = Some p \<longrightarrow>
        q_id (p_request p) = i \<and> (i \<in> set (pending_ids s) \<longleftrightarrow> p_result p = None) \<and> (p_event p \<longleftrightarrow> p_result p \<noteq> None))"

text \<open>The cache of a named user holds only rules that are persisted.\<close>

definition cache_ok :: "perm_state \<Rightarrow> bool" where
  "cache_ok s \<longleftrightarrow> (\<forall>u. u \<noteq> [] \<longrightarrow> set (get_user_approved s u) \<subseteq> set (persisted_of s u))"

lemma requests_ok_cong:
  "objects s' = objects s \<Longrightarrow> pending_ids s' = pending_ids s \<Longrightarrow> requests_ok s' = requests_ok s"
  by (simp add: requests_ok_def)

lemma cache_ok_mono:
  assumes "cache_ok s" and "\<And>u. u \<noteq> [] \<Longrightarrow> set (get_user_approved s' u) \<subseteq> set (get_user_approved s u)"
    and "\<And>u. set (persisted_of s u) \<subseteq> set (persisted_of s' u)"
  shows "cache_ok s'"
  using assms unfolding cache_ok_def by (metis subset_trans)

text \<open>The answered request, and the others it resolves.\<close>

definition answer :: "ident \<Rightarrow> reply_action \<Rightarrow> string option \<Rightarrow> rule list \<Rightarrow> perm_state \<Rightarrow> perm_state" where
  "answer i act msg granted s = set_event_of i (resolve_related_pending i (apply_reply_data i act msg granted s))"

lemma answer_spec:
  fixes i :: ident and act :: reply_action and msg :: "string option" and granted :: "rule list"
    and s :: perm_state and p :: pending_permission
  assumes ok: "requests_ok (s\<lparr>pending_ids := pending_ids s @ [i]\<rparr>)" and p: "tget (objects s) i = Some p"
  defines "rules \<equiv> get_user_approved (apply_reply_data i act msg granted s) (q_user_id (p_request p))"
  shows "tget (objects (answer i act msg granted s)) j =
      (if j = i then Some (p\<lparr>p_result := Some act, p_error_message := msg, p_event := True\<rparr>)
       else if j \<in> set (pending_ids s) \<and> touched act rules (p_request p) j s
       then map_option (\<lambda>p. p\<lparr>p_result := Some act, p_event := True\<rparr>) (tget (objects s) j)
       else tget (objects s) j)"
    and "pending_ids (answer i act msg granted s) =
      fold remove1 (filter (\<lambda>j. touched act rules (p_request p) j s) (pending_ids s)) (pending_ids s)"
    and "approved (answer i act msg granted s) = approved (apply_reply_data i act msg granted s)"
    and "persisted (answer i act msg granted s) = persisted s"
proof -
  let ?a = "apply_reply_data i act msg granted s"
  let ?p = "p\<lparr>p_result := Some act, p_error_message := msg\<rparr>"
  have id: "q_id (p_request p) = i" and dist: "distinct (pending_ids s)" "i \<notin> set (pending_ids s)"
    using ok p by (auto simp: requests_ok_def)
  have obj: "objects ?a = tput i ?p (objects s)" and pend: "pending_ids ?a = pending_ids s"
    and pers: "persisted ?a = persisted s"
    by (simp_all add: apply_reply_data_def p put_object_def Let_def)
  have tch: "touched act rules (p_request p) j ?a = touched act rules (p_request p) j s" for j
    using id by (cases "j = i") (auto simp: touched_def obj tget_tput p related_def)
  have none: "\<not> touched Once rules (p_request p) j s" for j
    by (simp add: touched_def resolves_def split: option.split)
  have self: "\<not> touched act rules (p_request p) i s"
    using id by (simp add: touched_def related_def split: option.split)
  let ?r = "resolve_related_pending i ?a"
  have r: "?r = (if act = Once then ?a else resolve_each act rules (p_request p) (pending_ids s) ?a)"
    by (simp add: resolve_related_pending_def obj tget_tput pend rules_def)
  note spec = resolve_each_spec [OF dist(1), of act rules "p_request p" ?a]
  have objs: "tget (objects ?r) j = (if j \<in> set (pending_ids s) \<and> touched act rules (p_request p) j s
       then map_option (\<lambda>p. p\<lparr>p_result := Some act, p_event := True\<rparr>) (tget (objects ?a) j)
       else tget (objects ?a) j)" for j
    using none spec [of j] by (auto simp: r tch)
  have here: "tget (objects ?r) i = Some ?p"
    using dist(2) by (simp add: objs obj tget_tput)
  have pids: "pending_ids ?r = fold remove1 (filter (\<lambda>j. touched act rules (p_request p) j s) (pending_ids s)) (pending_ids s)"
  proof (cases "act = Once")
    case True
    then have "?r = ?a" using r by simp
    with True none show ?thesis using pend by simp
  next
    case False
    with spec show ?thesis by (simp add: r tch pend)
  qed
  show "pending_ids (answer i act msg granted s) =
      fold remove1 (filter (\<lambda>j. touched act rules (p_request p) j s) (pending_ids s)) (pending_ids s)"
    by (simp add: answer_def set_event_of_def here put_object_def pids)
  show "tget (objects (answer i act msg granted s)) j =
      (if j = i then Some (p\<lparr>p_result := Some act, p_error_message := msg, p_event := True\<rparr>)
       else if j \<in> set (pending_ids s) \<and> touched act rules (p_request p) j s
       then map_option (\<lambda>p. p\<lparr>p_result := Some act, p_event := True\<rparr>) (tget (objects s) j)
       else tget (objects s) j)"
    by (simp add: answer_def set_event_of_def here put_object_def tget_tput objs obj)
  have cached: "approved ?r = approved ?a \<and> persisted ?r = persisted s"
    unfolding r using pers by (cases "act = Once") auto
  show "approved (answer i act msg granted s) = approved ?a" "persisted (answer i act msg granted s) = persisted s"
    using cached by (simp_all add: answer_def set_event_of_def here put_object_def)
qed


lemma get_user_approved_apply:
  assumes "tget (objects s) i = Some p"
  shows "set (get_user_approved (apply_reply_data i act msg granted s) u) =
    (if u = q_user_id (p_request p) \<and> act = Always then set granted \<union> set (get_user_approved s u) else set (get_user_approved s u))"
proof -
  have put: "get_user_approved (put_object i x s) v = get_user_approved s v" for x v
    by (simp add: get_user_approved_def put_object_def)
  show ?thesis
    by (auto simp: apply_reply_data_def assms Let_def get_user_approved_fold put)
qed

text \<open>The ways a reply that finds its local request can end.\<close>

lemma reply_cases:
  assumes "reply ops s i act msg user = (s', r)"
  obtains (unchanged) "s' = s" "durable_reply ops i \<or> (\<exists>e. r = Inl e)"
  | (failed) s2 e p where "\<not> durable_reply ops i" "i \<in> set (pending_ids s)" "tget (objects s) i = Some p" "act = Always"
      "record_always_grant ops user (p_request p) (s\<lparr>pending_ids := remove1 i (pending_ids s)\<rparr>) = (s2, Some e)"
      "s' = s2\<lparr>pending_ids := pending_ids s2 @ [i]\<rparr>" "r = Inl e" "q_user_id (p_request p) \<in> {[], user}"
  | (answered) s2 p where "\<not> durable_reply ops i" "i \<in> set (pending_ids s)" "tget (objects s) i = Some p"
      "(if act = Always then record_always_grant ops user (p_request p) (s\<lparr>pending_ids := remove1 i (pending_ids s)\<rparr>)
        else (s\<lparr>pending_ids := remove1 i (pending_ids s)\<rparr>, None)) = (s2, None)"
      "s' = answer i act msg (if act = Always then grant_rules (p_request p) else []) s2" "r = Inr ()"
      "q_user_id (p_request p) \<in> {[], user}"
  using assms unfolding reply_def answer_def Let_def
  by (auto split: if_splits option.splits prod.splits)

lemma requests_ok_remove:
  assumes "requests_ok s" "i \<in> set (pending_ids s)" "objects s2 = objects s" "pending_ids s2 = remove1 i (pending_ids s)"
  shows "requests_ok (s2\<lparr>pending_ids := pending_ids s2 @ [i]\<rparr>)"
  using assms by (auto simp: requests_ok_def)

lemma answer_requests_ok:
  assumes ok: "requests_ok (s\<lparr>pending_ids := pending_ids s @ [i]\<rparr>)" and p: "tget (objects s) i = Some p"
  shows "requests_ok (answer i act msg granted s)"
proof -
  note spec = answer_spec [OF ok p, of act msg granted]
  let ?T = "\<lambda>j. touched act (get_user_approved (apply_reply_data i act msg granted s) (q_user_id (p_request p))) (p_request p) j s"
  have dist: "distinct (pending_ids s)" "i \<notin> set (pending_ids s)" using ok by (auto simp: requests_ok_def)
  have pend: "distinct (pending_ids (answer i act msg granted s))"
      "set (pending_ids (answer i act msg granted s)) = {j \<in> set (pending_ids s). \<not> ?T j}"
    unfolding spec(2) using fold_remove1 [OF dist(1)] by auto
  show ?thesis
    unfolding requests_ok_def pend(2)
    using ok pend(1) dist p unfolding spec(1) by (auto simp: requests_ok_def touched_def split: option.splits if_splits)
qed

lemma reply_requests_ok:
  assumes "requests_ok s"
  shows "requests_ok (fst (reply ops s i act msg user))"
proof -
  obtain s' r where run: "reply ops s i act msg user = (s', r)" by (cases "reply ops s i act msg user")
  from run show ?thesis
  proof (cases rule: reply_cases)
    case unchanged
    with run assms show ?thesis by simp
  next
    case (failed s2 e p)
    from record_always_grant_sets(1,2) [OF failed(5)] requests_ok_remove [OF assms failed(2)] failed(6) run
    show ?thesis by simp
  next
    case (answered s2 p)
    have "objects s2 = objects s" "pending_ids s2 = remove1 i (pending_ids s)"
      using answered(4) record_always_grant_sets(1,2) by (auto split: if_splits)
    with answer_requests_ok [OF requests_ok_remove [OF assms answered(2) this], of p] answered(3,5) run
    show ?thesis by simp
  qed
qed

lemma finish_requests_ok: "requests_ok s \<Longrightarrow> requests_ok (finish_ask s i)"
  by (auto simp: requests_ok_def finish_ask_def tget_tdel)

lemma ask_requests_ok:
  "requests_ok s \<Longrightarrow> tget (objects s) fresh = None \<Longrightarrow>
     requests_ok (fst (ask p s fresh user sid perm patterns always linked))"
  by (auto simp: ask_def Let_def requests_ok_def put_object_def tget_tput split: decision.splits)

lemma perm_step_requests_ok: "perm_step ops s s' \<Longrightarrow> requests_ok s \<Longrightarrow> requests_ok s'"
proof (induction rule: perm_step.induct)
  case (ask_step s fresh p user sid perm patterns always linked s')
  then show ?case using ask_requests_ok by blast
next
  case (reply_step s i act msg user s')
  then show ?case using reply_requests_ok by blast
next
  case (finish_step s i)
  then show ?case by (rule finish_requests_ok)
next
  case (load_step s user)
  then show ?case using requests_ok_cong [of "load_persisted_rules ops s user" s] by simp
next
  case (sync_step user rules s)
  then show ?case
    by (auto simp: sync_grants_from_bus_def requests_ok_def split: option.splits)
qed


lemma answer_cache_ok:
  assumes "requests_ok (s\<lparr>pending_ids := pending_ids s @ [i]\<rparr>)" "tget (objects s) i = Some p" "cache_ok s"
    and "act = Always \<Longrightarrow> q_user_id (p_request p) \<noteq> [] \<Longrightarrow> set granted \<subseteq> set (persisted_of s (q_user_id (p_request p)))"
  shows "cache_ok (answer i act msg granted s)"
proof -
  note spec = answer_spec(3,4) [OF assms(1,2), of act msg granted]
  have "get_user_approved (answer i act msg granted s) u = get_user_approved (apply_reply_data i act msg granted s) u" for u
    by (simp add: get_user_approved_def spec)
  moreover have "persisted_of (answer i act msg granted s) u = persisted_of s u" for u
    by (simp add: persisted_of_def spec)
  ultimately show ?thesis
    using assms(3,4) by (auto simp: cache_ok_def get_user_approved_apply [OF assms(2)])
qed

lemma record_cache_ok: "record_always_grant ops u q s = (s', e) \<Longrightarrow> cache_ok s \<Longrightarrow> cache_ok s'"
  unfolding cache_ok_def using record_always_grant_sets(5) by blast

lemma cache_ok_cong: "approved s' = approved s \<Longrightarrow> persisted s' = persisted s \<Longrightarrow> cache_ok s' = cache_ok s"
  by (simp add: cache_ok_def get_user_approved_def persisted_of_def)

lemma cache_ok_pending [simp]: "cache_ok (s\<lparr>pending_ids := xs\<rparr>) = cache_ok s"
  by (rule cache_ok_cong) simp_all

lemma reply_cache_ok:
  assumes "requests_ok s" "cache_ok s"
  shows "cache_ok (fst (reply ops s i act msg user))"
proof -
  obtain s' r where run: "reply ops s i act msg user = (s', r)" by (cases "reply ops s i act msg user")
  from run show ?thesis
  proof (cases rule: reply_cases)
    case unchanged
    with run assms show ?thesis by simp
  next
    case (failed s2 e p)
    from record_cache_ok [OF failed(5)] assms(2) failed(6) run show ?thesis by simp
  next
    case (answered s2 p)
    have fields: "objects s2 = objects s" "pending_ids s2 = remove1 i (pending_ids s)"
      using answered(4) record_always_grant_sets(1,2) by (auto split: if_splits)
    have ok2: "cache_ok s2"
      using answered(4) assms(2) record_cache_ok by (auto split: if_splits)
    have "set (grant_rules (p_request p)) \<subseteq> set (persisted_of s2 user)" if "act = Always" "user \<noteq> []"
      using record_always_grant_sets(6) [of ops user "p_request p" _ s2 None] answered(4) that ok2
      unfolding cache_ok_def by fastforce
    with answer_cache_ok [OF requests_ok_remove [OF assms(1) answered(2) fields], of p act] ok2 answered fields run
    show ?thesis by auto
  qed
qed

lemma perm_step_cache_ok: "perm_step ops s s' \<Longrightarrow> requests_ok s \<Longrightarrow> cache_ok s \<Longrightarrow> cache_ok s'"
proof (induction rule: perm_step.induct)
  case (ask_step s fresh p user sid perm patterns always linked s')
  have "approved (fst (ask p s fresh user sid perm patterns always linked)) = approved s"
      "persisted (fst (ask p s fresh user sid perm patterns always linked)) = persisted s"
    by (simp_all add: ask_def Let_def put_object_def split: decision.splits)
  with ask_step cache_ok_cong show ?case by blast
next
  case (reply_step s i act msg user s')
  then show ?case using reply_cache_ok by blast
next
  case (finish_step s i)
  then show ?case using cache_ok_cong [of "finish_ask s i" s] by (simp add: finish_ask_def)
next
  case (load_step s user)
  have "persisted_of (load_persisted_rules ops s user) u = persisted_of s u" for u
    by (simp add: persisted_of_def)
  moreover have "set (get_user_approved (load_persisted_rules ops s user) u) \<subseteq> set (persisted_of s u)" if "u \<noteq> []" for u
    using get_user_approved_load [of ops s user u] load_step(2) that
    by (auto simp: cache_ok_def split: if_splits)
  ultimately show ?case by (simp add: cache_ok_def)
next
  case (sync_step user rules s)
  have "persisted_of (sync_grants_from_bus s user rules) u = persisted_of s u" for u
    by (simp add: persisted_of_def sync_grants_from_bus_def split: option.split)
  with sync_step show ?case
    by (auto simp: sync_grants_from_bus_def cache_ok_def get_user_approved_fold split: option.splits)
qed

text \<open>A worker starts with no request and an empty cache, over whatever rules are persisted.\<close>

definition start_worker :: "(ident, rule list) table \<Rightarrow> perm_state" where
  "start_worker rules = \<lparr>objects = [], pending_ids = [], approved = [], loaded_users = [], persisted = rules\<rparr>"

definition worker_state :: "perm_ops \<Rightarrow> perm_state \<Rightarrow> bool" where
  "worker_state ops s \<longleftrightarrow> (\<exists>rules. (perm_step ops)\<^sup>*\<^sup>* (start_worker rules) s)"

lemma worker_state_ok:
  assumes "worker_state ops s"
  shows "requests_ok s" "cache_ok s"
proof -
  from assms obtain rules where "(perm_step ops)\<^sup>*\<^sup>* (start_worker rules) s" by (auto simp: worker_state_def)
  then have "requests_ok s \<and> cache_ok s"
  proof (induction rule: rtranclp_induct)
    case base
    show ?case by (simp add: start_worker_def requests_ok_def cache_ok_def get_user_approved_def)
  next
    case (step s1 s2)
    then show ?case using perm_step_requests_ok perm_step_cache_ok by blast
  qed
  then show "requests_ok s" "cache_ok s" by simp_all
qed

end
