(* ===== verification/Permission_Replies.thy ===== *)
theory Permission_Replies
  imports Permission_Requests
begin

text \<open>
  The guarantees of \<^verbatim>\<open>reply\<close> in \<^verbatim>\<open>src/backend/permission/permission.py\<close>, in every state a worker reaches,
  each with a concrete instance.
\<close>

lemma reply_answers:
  assumes "requests_ok s" "\<not> durable_reply ops i" "reply ops s i act msg user = (s', Inr ())"
  shows "i \<notin> set (pending_ids s')" "\<exists>p. tget (objects s') i = Some p \<and> p_event p \<and> p_result p = Some act"
proof -
  from assms(3) have "\<exists>p. tget (objects s') i = Some p \<and> p_event p \<and> p_result p = Some act"
  proof (cases rule: reply_cases)
    case (answered s2 p)
    have fields: "objects s2 = objects s" "pending_ids s2 = remove1 i (pending_ids s)"
      using answered(4) record_always_grant_sets(1,2) by (auto split: if_splits)
    from answer_spec(1) [OF requests_ok_remove [OF assms(1) answered(2) fields]] fields answered(3,5)
    show ?thesis by simp
  qed (use assms(2) in auto)
  moreover from this reply_requests_ok [OF assms(1), of ops i act msg user] assms(3)
  show "i \<notin> set (pending_ids s')" by (auto simp: requests_ok_def)
  ultimately show "\<exists>p. tget (objects s') i = Some p \<and> p_event p \<and> p_result p = Some act" by simp
qed

lemma reply_keeps_answers:
  assumes "requests_ok s" "tget (objects s) j = Some p" "p_result p \<noteq> None"
  shows "tget (objects (fst (reply ops s i act msg user))) j = Some p"
proof -
  obtain s' r where run: "reply ops s i act msg user = (s', r)" by (cases "reply ops s i act msg user")
  have j: "j \<notin> set (pending_ids s)" using assms by (auto simp: requests_ok_def)
  from run show ?thesis
  proof (cases rule: reply_cases)
    case unchanged
    with run assms show ?thesis by simp
  next
    case (failed s2 e q)
    with record_always_grant_sets(1) [OF failed(5)] run assms show ?thesis by simp
  next
    case (answered s2 q)
    have fields: "objects s2 = objects s" "pending_ids s2 = remove1 i (pending_ids s)"
      using answered(4) record_always_grant_sets(1,2) by (auto split: if_splits)
    from answer_spec(1) [OF requests_ok_remove [OF assms(1) answered(2) fields], of q act msg _ j] fields answered(2,3,5) j assms(2) run
    show ?thesis by (auto simp: set_remove1_eq requests_ok_def dest: in_set_remove1 [THEN iffD1])
  qed
qed

lemma perm_step_keeps_answers:
  assumes "perm_step ops s s'" "requests_ok s" "tget (objects s) i = Some p" "p_result p \<noteq> None"
  shows "tget (objects s') i = None \<or> tget (objects s') i = Some p"
  using assms
proof (induction rule: perm_step.induct)
  case (ask_step s fresh pol user sid perm patterns always linked s')
  then have "i \<noteq> fresh" by auto
  with ask_step show ?case
    unfolding ask_step(2) [symmetric] by (simp add: ask_def Let_def put_object_def tget_tput split: decision.splits)
next
  case (reply_step s j act msg user s')
  then show ?case using reply_keeps_answers [of s i p ops j act msg user] by simp
next
  case (finish_step s j)
  then show ?case by (auto simp: finish_ask_def tget_tdel)
next
  case (load_step s user)
  then show ?case by simp
next
  case (sync_step user rules s)
  then show ?case by (simp add: sync_grants_from_bus_def split: option.split)
qed

text \<open>
  A reply is final. When a reply to a local request succeeds, the waiting call is woken with that
  decision and the request is no longer listed; any second reply to it, by anyone, finds nothing and
  changes nothing; and no step of the worker alters the answer while the call still holds it.
\<close>

lemma reply_is_final:
  assumes "worker_state ops s" "\<not> durable_reply ops i" "reply ops s i act msg user = (s', Inr ())"
  shows "\<exists>p. tget (objects s') i = Some p \<and> p_event p \<and> p_result p = Some act \<and> i \<notin> set (pending_ids s') \<and>
    (\<forall>act' msg' user'. reply ops s' i act' msg' user' = (s', Inl NotFound)) \<and>
    (\<forall>s'' p'. perm_step ops s' s'' \<and> tget (objects s'') i = Some p' \<longrightarrow> p' = p)"
proof -
  note ok = worker_state_ok(1) [OF assms(1)]
  from reply_answers [OF ok assms(2,3)] obtain p where p: "i \<notin> set (pending_ids s')"
    "tget (objects s') i = Some p" "p_event p" "p_result p = Some act" by blast
  have ok': "requests_ok s'" using reply_requests_ok [OF ok, of ops i act msg user] assms(3) by simp
  have "p' = p" if "perm_step ops s' s''" "tget (objects s'') i = Some p'" for s'' p'
    using perm_step_keeps_answers [OF that(1) ok' p(2)] p(4) that(2) by auto
  then show ?thesis using p assms(2) by (auto simp: reply_def)
qed

text \<open>
  An Always is durable before it is acknowledged. If the reply succeeds, each rule it grants is
  persisted for the user and effective in this worker; if a rule cannot be persisted, the reply fails,
  the request is listed again and unanswered, so that no call proceeds on it.
\<close>

lemma always_is_durable_first:
  assumes "worker_state ops s" "\<not> durable_reply ops i" "i \<in> set (pending_ids s)" "tget (objects s) i = Some p"
    and "user \<noteq> []" "reply ops s i Always msg user = (s', r)"
  shows "case r of
      Inr u \<Rightarrow> set (grant_rules (p_request p)) \<subseteq> set (persisted_of s' user) \<inter> set (get_user_approved s' user)
    | Inl e \<Rightarrow> i \<in> set (pending_ids s') \<and> tget (objects s') i = Some p \<and> \<not> p_event p \<and> p_result p = None"
proof -
  note ok = worker_state_ok [OF assms(1)]
  have waiting: "\<not> p_event p" "p_result p = None" using ok(1) assms(3,4) by (auto simp: requests_ok_def)
  from assms(6) show ?thesis
  proof (cases rule: reply_cases)
    case unchanged
    with assms(2-4) waiting show ?thesis by (auto split: sum.splits)
  next
    case (failed s2 e q)
    with record_always_grant_sets(1) [OF failed(5)] assms(4) waiting show ?thesis by simp
  next
    case (answered s2 q)
    then have q: "q = p" and run: "record_always_grant ops user (p_request p) (s\<lparr>pending_ids := remove1 i (pending_ids s)\<rparr>) = (s2, None)"
      using assms(4) by auto
    note sets = record_always_grant_sets [OF run]
    note spec = answer_spec(3,4) [OF requests_ok_remove [OF ok(1) answered(2)], of s2 p Always msg "grant_rules (p_request p)"]
    have get: "set (get_user_approved s2 user) \<subseteq> set (get_user_approved s' user)"
      using spec(1) sets(1,2) answered(3,5) q get_user_approved_apply [of s2 i p Always msg "grant_rules (p_request p)" user]
      by (auto simp: get_user_approved_def)
    have "cache_ok s'" using reply_cache_ok [OF ok, of ops i Always msg user] assms(6) by simp
    with get sets(6) assms(5) answered(6) show ?thesis by (auto simp: cache_ok_def)
  qed
qed


definition may_concern :: "perm_request \<Rightarrow> perm_request \<Rightarrow> bool" where
  "may_concern q other \<longleftrightarrow> q_user_id other = q_user_id q \<and> q_session_id other = q_session_id q \<and>
     \<not> q_assistant q \<and> \<not> q_assistant other"

text \<open>
  A reply stays within its user and session. Whatever the decision, and whether or not it
  succeeds, a request of another user, of another session, or linked to an assistant task keeps its
  state: it is neither woken nor answered and stays listed; and a reply by another user than the
  owner changes nothing at all.
\<close>

lemma reply_stays_in_session:
  assumes "worker_state ops s" "tget (objects s) i = Some p" "tget (objects s) j = Some other" "j \<noteq> i"
    and "\<not> may_concern (p_request p) (p_request other)"
  shows "tget (objects (fst (reply ops s i act msg user))) j = Some other \<and>
    (j \<in> set (pending_ids (fst (reply ops s i act msg user))) \<longleftrightarrow> j \<in> set (pending_ids s)) \<and>
    (q_user_id (p_request p) \<notin> {[], user} \<longrightarrow> fst (reply ops s i act msg user) = s)"
proof -
  note ok = worker_state_ok(1) [OF assms(1)]
  obtain s' r where run: "reply ops s i act msg user = (s', r)" by (cases "reply ops s i act msg user")
  have wrong: "q_user_id (p_request p) \<notin> {[], user} \<longrightarrow> s' = s"
    using run assms(2) by (auto simp: reply_def Let_def split: if_splits)
  have kept: "tget (objects s') j = Some other"
    using run
  proof (cases rule: reply_cases)
    case unchanged
    with assms show ?thesis by simp
  next
    case (failed s2 e q)
    with record_always_grant_sets(1) [OF failed(5)] assms show ?thesis by simp
  next
    case (answered s2 q)
    have fields: "objects s2 = objects s" "pending_ids s2 = remove1 i (pending_ids s)"
      using answered(4) record_always_grant_sets(1,2) by (auto split: if_splits)
    have "\<not> touched act rules (p_request p) j s2" for rules
      using assms(3,5) fields by (auto simp: touched_def related_def may_concern_def)
    with answer_spec(1) [OF requests_ok_remove [OF ok answered(2) fields], of q act msg _ j] fields answered(3,5) assms
    show ?thesis by simp
  qed
  have "requests_ok s'" using reply_requests_ok [OF ok, of ops i act msg user] run by simp
  with kept ok assms(3) have "j \<in> set (pending_ids s') \<longleftrightarrow> j \<in> set (pending_ids s)"
    by (auto simp: requests_ok_def)
  with kept wrong run show ?thesis by simp
qed

lemma grants_cover:
  assumes "pat \<in> set (q_patterns q)" "q_always q = q_patterns q"
  shows "\<exists>r\<in>set (grant_rules q). rule_matches (q_tool q) pat r"
  using assms by (auto simp: grant_rules_def rule_matches_def intro!: bexI [of _ pat])

text \<open>
  An Always is remembered. After a successful Always on a call that asked for its own targets, the
  same call by the same user is granted without a prompt, in any session and under any policy that
  denies none of its targets, as long as all the rules of the user are grants.
\<close>

lemma always_is_remembered:
  assumes "worker_state ops s" "\<not> durable_reply ops i" "tget (objects s) i = Some p" "q_always (p_request p) = q_patterns (p_request p)"
    and "user \<noteq> []" "reply ops s i Always msg user = (s', Inr ())"
    and "\<And>r. r \<in> set (get_user_approved s' user) \<Longrightarrow> rule_action r = Allow"
    and "\<And>pat. pat \<in> set (q_patterns (p_request p)) \<Longrightarrow> \<not> forbids policy (q_tool (p_request p)) pat"
  shows "ask policy s' fresh user sid (q_tool (p_request p)) (q_patterns (p_request p)) always linked = (s', Inr False)"
proof -
  let ?q = "p_request p"
  from assms(6) have "set (grant_rules ?q) \<subseteq> set (get_user_approved s' user)"
  proof (cases rule: reply_cases)
    case (answered s2 q)
    then have q: "q = p" and run: "record_always_grant ops user ?q (s\<lparr>pending_ids := remove1 i (pending_ids s)\<rparr>) = (s2, None)"
      using assms(3) by auto
    note sets = record_always_grant_sets [OF run]
    from answer_spec(3) [OF requests_ok_remove [OF worker_state_ok(1) [OF assms(1)] answered(2)], of s2 p Always msg "grant_rules ?q"]
      sets(1,2,6) answered(3,5) q get_user_approved_apply [of s2 i p Always msg "grant_rules ?q" user]
    show ?thesis by (auto simp: get_user_approved_def)
  qed (use assms(2) in auto)
  then have "rule_action (evaluate (q_tool ?q) pat [get_user_approved s' user]) = Allow" if "pat \<in> set (q_patterns ?q)" for pat
    using grants_cover [OF that assms(4)] evaluate_only_allow assms(7) by blast
  then have "decide policy (get_user_approved s' user) (q_tool ?q) (q_patterns ?q) False = Granted"
    using assms(8) by (simp add: decide_Granted decide_one_Granted)
  then show ?thesis by (simp add: ask_def)
qed


section \<open>Concrete instances\<close>

text \<open>Two prompts of the shell tool, in two sessions of one user, under an empty policy.\<close>

definition ex_ops :: perm_ops where
  "ex_ops = \<lparr>durable_reply = (\<lambda>_. False), use_db = True, linked_session = (\<lambda>_. False),
     load_fails = (\<lambda>_. False), persist_fails = (\<lambda>_. False)\<rparr>"

definition ex_policy :: policies where
  "ex_policy = \<lparr>config_rules = [], guard_rules = [], authority_rulesets = [], authority_guard_rulesets = []\<rparr>"

definition ex_p1 :: perm_state where
  "ex_p1 = fst (ask ex_policy (start_worker []) ''p1'' ''u1'' ''s1'' ''bash'' [''ls''] [] False)"

definition ex_p2 :: perm_state where
  "ex_p2 = fst (ask ex_policy ex_p1 ''p2'' ''u1'' ''s2'' ''bash'' [''ls''] [] False)"

definition ex_p3 :: perm_state where
  "ex_p3 = fst (reply ex_ops ex_p2 ''p1'' Always None ''u1'')"

definition ex_request :: "ident \<Rightarrow> ident \<Rightarrow> pending_permission" where
  "ex_request i sid = \<lparr>p_request = \<lparr>q_id = i, q_user_id = ''u1'', q_session_id = sid, q_tool = ''bash'',
     q_patterns = [''ls''], q_always = [''ls''], q_assistant = False\<rparr>, p_event = False, p_result = None, p_error_message = None\<rparr>"

definition ex_grant :: rule where
  "ex_grant = \<lparr>permission = ''bash'', rule_pattern = ''ls'', rule_action = Allow\<rparr>"

lemma ex_decide: "decide_one ex_policy [] ''bash'' ''ls'' = Prompt"
  by (simp add: ex_policy_def decide_one_def trusted_actions_def guard_actions_def evaluate_def evaluate_guard_def rule_matches_def
      wildcard_match_def)

lemma ex_p1_simp: "ex_p1 = (start_worker [])\<lparr>objects := [(''p1'', ex_request ''p1'' ''s1'')], pending_ids := [''p1'']\<rparr>"
  by (simp add: ex_p1_def ask_def start_worker_def get_user_approved_def ex_decide ex_request_def put_object_def tput_def)

lemma ex_p2_simp:
  "ex_p2 = (start_worker [])\<lparr>objects := [(''p1'', ex_request ''p1'' ''s1''), (''p2'', ex_request ''p2'' ''s2'')],
     pending_ids := [''p1'', ''p2'']\<rparr>"
  by (simp add: ex_p2_def ex_p1_simp ask_def start_worker_def get_user_approved_def ex_decide ex_request_def put_object_def tput_def)

lemma ex_p2_worker: "worker_state ex_ops ex_p2"
proof -
  have "perm_step ex_ops (start_worker []) ex_p1"
    by (rule perm_step.ask_step [of _ "''p1''" ex_policy "''u1''" "''s1''" "''bash''" "[''ls'']" "[]" False])
      (simp_all add: start_worker_def ex_p1_def)
  moreover have "perm_step ex_ops ex_p1 ex_p2"
    by (rule perm_step.ask_step [of _ "''p2''" ex_policy "''u1''" "''s2''" "''bash''" "[''ls'']" "[]" False])
      (simp_all add: ex_p1_simp tget_def ex_p2_def)
  ultimately show ?thesis unfolding worker_state_def by (meson converse_rtranclp_into_rtranclp rtranclp.rtrancl_refl)
qed

lemma ex_get [simp]: "tget (objects ex_p2) ''p1'' = Some (ex_request ''p1'' ''s1'')" "tget (objects ex_p2) ''p2'' = Some (ex_request ''p2'' ''s2'')"
    "pending_ids ex_p2 = [''p1'', ''p2'']"
  by (simp_all add: ex_p2_simp tget_def)

lemma ex_reply: "reply ex_ops ex_p2 ''p1'' Always None ''u1'' = (ex_p3, Inr ())"
  unfolding ex_p3_def by (simp add: reply_def ex_ops_def ex_request_def record_always_grant_def grant_rules_def
      load_persisted_rules_def persist_rule_def start_worker_def get_user_approved_def set_user_approved_def Let_def
      ex_p2_simp tget_def tput_def cache_rule_def)

lemma ex_approved: "get_user_approved ex_p3 ''u1'' = [ex_grant]"
  unfolding ex_p3_def by (simp add: reply_def ex_ops_def ex_request_def record_always_grant_def grant_rules_def
      load_persisted_rules_def persist_rule_def start_worker_def get_user_approved_def set_user_approved_def Let_def
      ex_p2_simp tget_def tput_def cache_rule_def apply_reply_data_def resolve_related_pending_def put_object_def
      related_def set_event_of_def ex_grant_def)

lemma reply_is_final_witness:
  "reply ex_ops ex_p3 ''p1'' Reject None ''u1'' = (ex_p3, Inl NotFound)"
proof -
  have "\<not> durable_reply ex_ops ''p1''" by (simp add: ex_ops_def)
  from reply_is_final [OF ex_p2_worker this ex_reply] show ?thesis by blast
qed

lemma always_is_durable_first_witness:
  "set (grant_rules (p_request (ex_request ''p1'' ''s1''))) \<subseteq> set (persisted_of ex_p3 ''u1'') \<inter> set (get_user_approved ex_p3 ''u1'')"
proof -
  have "\<not> durable_reply ex_ops ''p1''" by (simp add: ex_ops_def)
  from always_is_durable_first [OF ex_p2_worker this _ _ _ ex_reply] show ?thesis by simp
qed

lemma reply_stays_in_session_witness:
  "tget (objects ex_p3) ''p2'' = Some (ex_request ''p2'' ''s2'') \<and> ''p2'' \<in> set (pending_ids ex_p3)"
proof -
  have "\<not> may_concern (p_request (ex_request ''p1'' ''s1'')) (p_request (ex_request ''p2'' ''s2''))"
    by (simp add: may_concern_def ex_request_def)
  from reply_stays_in_session [OF ex_p2_worker ex_get(1,2) _ this, of Always None "''u1''"] show ?thesis
    by (simp add: ex_reply)
qed

lemma always_is_remembered_witness:
  "ask ex_policy ex_p3 ''p9'' ''u1'' ''s9'' ''bash'' [''ls''] [] False = (ex_p3, Inr False)"
proof -
  have ops: "\<not> durable_reply ex_ops ''p1''" by (simp add: ex_ops_def)
  have no_deny: "\<not> forbids ex_policy ''bash'' ''ls''"
    by (simp add: forbids_def ex_policy_def trusted_actions_def guard_actions_def evaluate_def evaluate_guard_def
        rule_matches_def wildcard_match_def)
  show ?thesis
    using always_is_remembered [OF ex_p2_worker ops ex_get(1) _ _ ex_reply, of ex_policy "''p9''" "''s9''" "[]" False]
    by (simp add: ex_request_def ex_approved ex_grant_def no_deny)
qed

end
