(* ===== verification/Inbox_Rows.thy ===== *)
theory Inbox_Rows
  imports Effect_Rows
begin

text \<open>
  The durable inbox of a conversation: its rows (\<^verbatim>\<open>src/backend/db/models/agent_inbox.py\<close>), the part of
  the transcript and of the Agent event log it writes, and the admission of input
  (\<^verbatim>\<open>src/backend/agent/input_origin.py\<close>, \<^verbatim>\<open>accept_inbox_item\<close> of \<^verbatim>\<open>src/backend/agent/inbox.py\<close>). What is
  read from or changed in the tables of other components (file assets, cards of the question runtime,
  tasks and submissions of the assistant, message parts) is the record \<open>inbox_ops\<close> over the
  abstract component \<open>assistant\<close> of the database. Strings are of the ASCII repertoire.
\<close>

datatype delivery = Followup | Steer | Inject
datatype target = NextTurn | NextStep
datatype item_state = InAccepted | InClaimed | InCanceled | InSettled
datatype origin = Human | AssistantDelegation | TaskResult | SystemRecovery | UnknownOrigin

record item_row =
  i_user :: ident
  i_project :: "ident option"
  i_session :: ident
  i_client_id :: "string option"
  i_digest :: string
  i_delivery :: delivery
  i_target :: target
  i_prompt :: string
  i_origin :: origin
  i_origin_ref :: json
  i_attachments :: "ident list"
  i_agent :: "string option"
  i_model :: "string option"
  i_video_model :: "string option"
  i_video_resolution :: "string option"
  i_variant :: "string option"
  i_output_format :: "json option"
  i_state :: item_state
  i_message :: "ident option"
  i_result :: "ident option"
  i_run :: "ident option"
  i_generation :: "int option"
  i_turn :: "ident option"
  i_step :: "string option"
  i_token :: "string option"
  i_owner :: "ident option"
  i_claim_expires :: "time option"
  i_outcome :: "string option"
  i_error :: "json option"
  i_attempts :: nat
  i_last_error :: "json option"
  i_accepted_at :: time
  i_claimed_at :: "time option"
  i_canceled_at :: "time option"
  i_settled_at :: "time option"
  i_created_at :: time
  i_updated_at :: time

record msg_row =
  m_session :: ident
  m_user :: ident
  m_role :: string
  m_parent :: "ident option"
  m_finish :: "string option"
  m_error :: "json option"
  m_created :: time

record agent_event =
  e_session :: ident
  e_user :: ident
  e_sequence :: int
  e_key :: string
  e_kind :: string
  e_fence :: "(ident \<times> int) option"
  e_turn :: "ident option"
  e_step :: "string option"
  e_message :: "ident option"
  e_payload :: json

record 'a ibx =
  ibase :: "'a db"
  inbox :: "(ident, item_row) table"
  transcript :: "(ident, msg_row) table"
  agent_log :: "agent_event list"

datatype inbox_error =
    InboxValueError
  | InboxIdempotencyConflict
  | InboxAttachmentError "ident list"
  | InboxAttachmentDeliveryPending "ident list"
  | InboxError
  | InboxFence driver_error
  | InboxAssistantError string
  | AgentEventConflict
  | InboxIntegrityError
  | RunRevoked
  | HookError string

record 'a inbox_ops =
  ticket_bound :: "'a \<Rightarrow> ident \<Rightarrow> ident \<Rightarrow> bool"
  ticket_stale :: "'a \<Rightarrow> ident \<Rightarrow> bool"
  asset_ready :: "'a \<Rightarrow> ident \<Rightarrow> ident \<Rightarrow> ident \<Rightarrow> bool"
  admission_blocked :: "'a \<Rightarrow> ident \<Rightarrow> bool"
  execution_running :: "'a \<Rightarrow> ident \<Rightarrow> bool"
  task_held :: "'a \<Rightarrow> ident \<Rightarrow> session_row \<Rightarrow> bool"
  linked_task_id :: "'a \<Rightarrow> ident \<Rightarrow> ident option"
  task_steers :: "'a \<Rightarrow> ident \<Rightarrow> ident \<Rightarrow> ident list option"
  bind_baseline :: "'a \<Rightarrow> ident \<Rightarrow> origin \<Rightarrow> json \<Rightarrow> json"
  claimed_hook :: "'a \<Rightarrow> ident \<Rightarrow> (ident \<times> item_row) list \<Rightarrow> inbox_error + 'a"
  canceled_hook :: "'a \<Rightarrow> ident \<Rightarrow> (ident \<times> item_row) list \<Rightarrow> 'a"
  steered_hook :: "'a \<Rightarrow> ident \<Rightarrow> ident list \<Rightarrow> 'a"
  settled_hook :: "'a \<Rightarrow> ident \<Rightarrow> ident list \<Rightarrow> ident option \<Rightarrow> string \<Rightarrow> 'a"
  not_run_hook :: "'a \<Rightarrow> ident \<Rightarrow> ident list \<Rightarrow> 'a"

section \<open>Python values\<close>

fun json_dumps_default :: "json \<Rightarrow> string" where
  "json_dumps_default (JList vs) = ''['' @ join '', '' (map json_dumps_default vs) @ '']''"
| "json_dumps_default (JDict kvs) = CHR 0x7B # join '', '' (map (\<lambda>(k, t). quoted k @ '': '' @ t)
     (sort_key fst (map (\<lambda>(k, v). (k, json_dumps_default v)) kvs))) @ [CHR 0x7D]"
| "json_dumps_default j = json_dumps j"

definition truthy :: "json \<Rightarrow> bool" where
  "truthy j = (case j of
       JNull \<Rightarrow> False
     | JBool b \<Rightarrow> b
     | JInt n \<Rightarrow> n \<noteq> 0
     | JFloat x \<Rightarrow> x \<noteq> ''0.0'' \<and> x \<noteq> ''-0.0''
     | JStr s \<Rightarrow> s \<noteq> []
     | JList vs \<Rightarrow> vs \<noteq> []
     | JDict kvs \<Rightarrow> kvs \<noteq> [])"

definition some_nonempty :: "string option \<Rightarrow> string option \<Rightarrow> string option" where
  "some_nonempty a b = (case a of None \<Rightarrow> b | Some x \<Rightarrow> if x = [] then b else a)"

section \<open>Locks and events\<close>

text \<open>
  \<^verbatim>\<open>prepare_agent_event_write\<close>: the owned session row under its write lock, the exact driver fence when
  the write is the Agent's, and the ticket of the question runtime.
\<close>

definition lock_session :: "'a inbox_ops \<Rightarrow> 'a db \<Rightarrow> ident \<Rightarrow> ident \<Rightarrow> inbox_error + session_row" where
  "lock_session iops db sid user = (case open_session db sid user of
       Some s \<Rightarrow> Inr s
     | None \<Rightarrow>
         if ticket_bound iops (assistant db) sid user \<and> owned_session db sid user \<noteq> None then Inl RunRevoked
         else Inl (InboxFence (LookupError sid)))"

definition prepare_agent_event_write ::
  "'a inbox_ops \<Rightarrow> 'a ibx \<Rightarrow> time \<Rightarrow> ident \<Rightarrow> ident \<Rightarrow> (ident \<times> ident \<times> int) option \<Rightarrow> inbox_error + session_row" where
  "prepare_agent_event_write iops s t sid user fence =
     (case fence of
        Some (fsid, run, g) \<Rightarrow>
          if fsid \<noteq> sid then Inl (InboxFence LeaseLostError)
          else rbind (lock_session iops (ibase s) sid user) (\<lambda>owner.
            case assert_owned_driver_fence_locked (ibase s) t sid user run g of
              Inl e \<Rightarrow> Inl (InboxFence e)
            | Inr _ \<Rightarrow> if ticket_stale iops (assistant (ibase s)) sid then Inl RunRevoked else Inr owner)
      | None \<Rightarrow>
          rbind (lock_session iops (ibase s) sid user) (\<lambda>owner.
            if ticket_stale iops (assistant (ibase s)) sid then Inl RunRevoked else Inr owner))"

text \<open>
  \<^verbatim>\<open>append_agent_event_locked\<close> with an idempotency key: the event is appended once; a repetition with the
  same content is absorbed and one with another content refused.
\<close>

definition event_key ::
  "stdlib \<Rightarrow> string \<Rightarrow> (ident \<times> int) option \<Rightarrow> ident option \<Rightarrow> string option \<Rightarrow> ident option \<Rightarrow> string \<Rightarrow> string" where
  "event_key lib kind fence turn step message key = sha256_hex lib (json_dumps (JDict [
     (''idempotency_key'', JStr key), (''kind'', JStr kind),
     (''run_id'', opt_str (map_option fst fence)),
     (''generation'', case fence of None \<Rightarrow> JNull | Some (r, g) \<Rightarrow> JInt g),
     (''turn_id'', opt_str turn), (''step_id'', opt_str step), (''message_id'', opt_str message),
     (''part_id'', JNull), (''tool_call_id'', JNull)]))"

definition next_sequence :: "ident \<Rightarrow> agent_event list \<Rightarrow> int" where
  "next_sequence sid log = fold max (map e_sequence (filter (\<lambda>e. e_session e = sid) log)) 0 + 1"

definition EVENT_SCHEMA_VERSION :: int where "EVENT_SCHEMA_VERSION = 1"

definition clean_payload :: "(string \<times> json) list \<Rightarrow> json" where
  "clean_payload kvs = JDict (tput ''version'' (JInt EVENT_SCHEMA_VERSION) kvs)"

definition append_agent_event ::
  "stdlib \<Rightarrow> ident \<Rightarrow> ident \<Rightarrow> string \<Rightarrow> (string \<times> json) list \<Rightarrow> (ident \<times> int) option \<Rightarrow> ident option \<Rightarrow> string option \<Rightarrow>
     ident option \<Rightarrow> string \<Rightarrow> 'a ibx \<Rightarrow> inbox_error + 'a ibx" where
  "append_agent_event lib sid user kind payload fence turn step message key s =
     (if kind = [] \<or> length kind > 48 then Inl InboxValueError
      else if (case fence of None \<Rightarrow> False | Some (run, g) \<Rightarrow> run = [] \<or> g < 1) then Inl InboxValueError
      else
        let k = event_key lib kind fence turn step message key
        in case find (\<lambda>e. e_session e = sid \<and> e_key e = k) (agent_log s) of
             Some e \<Rightarrow>
               if e_user e = user \<and> e_kind e = kind \<and> e_fence e = fence \<and> e_turn e = turn \<and> e_step e = step \<and>
                  e_message e = message \<and> e_payload e = clean_payload payload
               then Inr s else Inl AgentEventConflict
           | None \<Rightarrow> Inr (s\<lparr>agent_log := agent_log s @ [\<lparr>e_session = sid, e_user = user,
                 e_sequence = next_sequence sid (agent_log s), e_key = k, e_kind = kind, e_fence = fence,
                 e_turn = turn, e_step = step, e_message = message, e_payload = clean_payload payload\<rparr>]\<rparr>))"

end
