(* ===== verification/Inbox.thy ===== *)
theory Inbox
  imports Inbox_Rows
begin

text \<open>
  \<^verbatim>\<open>src/backend/agent/inbox.py\<close>, with \<^verbatim>\<open>src/backend/assistant/queue.py\<close> and the expiry of task steering
  (\<^verbatim>\<open>src/backend/assistant/steering.py\<close>): acceptance, the claim of one boundary, settlement, cancellation,
  attachment delivery and recovery. Every operation is one or several transactions on an \<open>ibx\<close> at
  an instant \<open>t\<close> of the database clock; \<open>Inl\<close> is a raised exception, which rolls its transaction back.
  Fresh identifiers are arguments, and an insertion under a taken key fails as the database refuses it.
\<close>

definition MAX_PROMPT_CHARS :: nat where "MAX_PROMPT_CHARS = 65536"
definition MAX_ATTACHMENTS :: nat where "MAX_ATTACHMENTS = 32"
definition MAX_OUTPUT_FORMAT_BYTES :: nat where "MAX_OUTPUT_FORMAT_BYTES = 256 * 1024"
definition MAX_STEP_BATCH :: nat where "MAX_STEP_BATCH = 32"
definition CLAIM_SECONDS :: int where "CLAIM_SECONDS = 5 * 60"
definition MAX_DURABLE_DELIVERY_ATTEMPTS :: nat where "MAX_DURABLE_DELIVERY_ATTEMPTS = 3"

section \<open>Acceptance\<close>

fun target_of :: "delivery \<Rightarrow> target" where
  "target_of Followup = NextTurn"
| "target_of Steer = NextStep"
| "target_of Inject = NextStep"

fun delivery_name :: "delivery \<Rightarrow> string" where
  "delivery_name Followup = ''followup''"
| "delivery_name Steer = ''steer''"
| "delivery_name Inject = ''inject''"

fun target_name :: "target \<Rightarrow> string" where
  "target_name NextTurn = ''next-turn''"
| "target_name NextStep = ''next-step''"

fun origin_name :: "origin \<Rightarrow> string" where
  "origin_name Human = ''human''"
| "origin_name AssistantDelegation = ''assistant_delegation''"
| "origin_name TaskResult = ''task_result''"
| "origin_name SystemRecovery = ''system_recovery''"
| "origin_name UnknownOrigin = ''unknown''"

definition human_input :: "item_row \<Rightarrow> bool" where
  "human_input r \<longleftrightarrow> i_origin r \<in> {Human, UnknownOrigin}"

definition checked_origin :: "origin \<Rightarrow> json option \<Rightarrow> ident \<Rightarrow> inbox_error + json" where
  "checked_origin origin reference user =
     (let r = or_empty reference; alias = jget ''client_message_id'' r; attempt = jget ''report_attempt'' r
      in if length (json_dumps_default r) > 8192 then Inl InboxValueError
         else if origin = Human \<and> jget ''actor_user_id'' r \<noteq> JStr user then Inl InboxValueError
         else if origin = Human \<and> alias \<noteq> JNull \<and>
                 (case alias of JStr a \<Rightarrow> \<not> (1 \<le> length a \<and> length a \<le> 64) \<or> starts_with ''sjr:'' a \<or> starts_with ''tabort:'' a
                              | _ \<Rightarrow> True)
         then Inl InboxValueError
         else if origin = TaskResult \<and>
                 (jget ''execution_mode'' r \<noteq> JStr ''report_only'' \<or> \<not> truthy (jget ''result_id'' r) \<or>
                  (case attempt of JInt n \<Rightarrow> n < 1 | _ \<Rightarrow> True))
         then Inl InboxValueError
         else Inr r)"

record accept_args =
  aa_delivery :: delivery
  aa_prompt :: string
  aa_attachments :: "ident list"
  aa_client_id :: "string option"
  aa_agent :: "string option"
  aa_model :: "string option"
  aa_video_model :: "string option"
  aa_video_resolution :: "string option"
  aa_variant :: "string option"
  aa_output_format :: "json option"
  aa_origin :: origin
  aa_origin_ref :: "json option"
  aa_system :: bool

definition SYSTEM_CLIENT_PREFIXES :: "string list" where
  "SYSTEM_CLIENT_PREFIXES = [''sjr:'', ''tabort:'', ''vjob:'']"

definition is_system_client_id :: "string option \<Rightarrow> bool" where
  "is_system_client_id c = (case c of
       None \<Rightarrow> False
     | Some x \<Rightarrow> x \<noteq> [] \<and> list_ex (\<lambda>p. starts_with p x) SYSTEM_CLIENT_PREFIXES)"

definition validate_input :: "accept_args \<Rightarrow> inbox_error + unit" where
  "validate_input a =
     (if aa_prompt a = [] \<or> length (aa_prompt a) > MAX_PROMPT_CHARS then Inl InboxValueError
      else if (case aa_client_id a of None \<Rightarrow> False
               | Some c \<Rightarrow> c = [] \<or> length c > 64 \<or> is_system_client_id (Some c) \<and> \<not> aa_system a) then Inl InboxValueError
      else if length (aa_attachments a) > MAX_ATTACHMENTS then Inl InboxValueError
      else if list_ex (\<lambda>x. x = [] \<or> length x > 64) (aa_attachments a) \<or> \<not> distinct (aa_attachments a) then Inl InboxValueError
      else if (case aa_output_format a of None \<Rightarrow> False | Some f \<Rightarrow> length (json_dumps f) > MAX_OUTPUT_FORMAT_BYTES)
      then Inl InboxValueError
      else Inr ())"

definition request_digest :: "stdlib \<Rightarrow> accept_args \<Rightarrow> origin \<Rightarrow> json \<Rightarrow> string" where
  "request_digest lib a origin reference = sha256_hex lib (json_dumps (JDict ([
     (''delivery'', JStr (delivery_name (aa_delivery a))), (''prompt'', JStr (aa_prompt a)),
     (''attachments'', JList (map JStr (aa_attachments a))), (''agent'', opt_str (aa_agent a)),
     (''model'', opt_str (aa_model a)), (''video_model'', opt_str (aa_video_model a)),
     (''video_resolution'', opt_str (aa_video_resolution a)), (''variant'', opt_str (aa_variant a)),
     (''output_format'', case aa_output_format a of None \<Rightarrow> JNull | Some f \<Rightarrow> f)] @
     (if origin \<noteq> UnknownOrigin \<or> truthy reference
      then [(''origin'', JStr (origin_name origin)), (''origin_ref'', reference)] else []))))"

record receipt =
  rc_id :: ident
  rc_row :: item_row
  rc_created :: bool

definition admitted_origin :: "accept_args \<Rightarrow> origin" where
  "admitted_origin a = (if aa_system a \<and> aa_origin a = UnknownOrigin then SystemRecovery else aa_origin a)"

definition same_client :: "ident \<Rightarrow> ident \<Rightarrow> string option \<Rightarrow> ident \<times> item_row \<Rightarrow> bool" where
  "same_client sid user c kr \<longleftrightarrow> c \<noteq> None \<and> i_user (snd kr) = user \<and> i_session (snd kr) = sid \<and> i_client_id (snd kr) = c"

definition new_item :: "accept_args \<Rightarrow> ident \<Rightarrow> session_row \<Rightarrow> string \<Rightarrow> origin \<Rightarrow> json \<Rightarrow> time \<Rightarrow> item_row" where
  "new_item a sid owner digest origin reference t =
     \<lparr>i_user = s_user_id owner, i_project = s_project_id owner, i_session = sid, i_client_id = aa_client_id a, i_digest = digest,
      i_delivery = aa_delivery a, i_target = target_of (aa_delivery a), i_prompt = aa_prompt a,
      i_origin = origin, i_origin_ref = reference, i_attachments = aa_attachments a, i_agent = aa_agent a,
      i_model = aa_model a, i_video_model = aa_video_model a, i_video_resolution = aa_video_resolution a,
      i_variant = aa_variant a, i_output_format = aa_output_format a, i_state = InAccepted,
      i_message = None, i_result = None, i_run = None, i_generation = None, i_turn = None, i_step = None,
      i_token = None, i_owner = None, i_claim_expires = None, i_outcome = None, i_error = None,
      i_attempts = 0, i_last_error = None, i_accepted_at = t, i_claimed_at = None, i_canceled_at = None,
      i_settled_at = None, i_created_at = t, i_updated_at = t\<rparr>"

definition put_item :: "ident \<Rightarrow> item_row \<Rightarrow> 'a ibx \<Rightarrow> 'a ibx" where
  "put_item i r s = s\<lparr>inbox := tput i r (inbox s)\<rparr>"

definition insert_item ::
  "stdlib \<Rightarrow> 'a inbox_ops \<Rightarrow> 'a ibx \<Rightarrow> time \<Rightarrow> ident \<Rightarrow> ident \<Rightarrow> session_row \<Rightarrow> accept_args \<Rightarrow> string \<Rightarrow> origin \<Rightarrow> json \<Rightarrow>
     inbox_error + ('a ibx \<times> receipt)" where
  "insert_item lib iops s t fresh sid owner a digest origin reference =
     (let linked = linked_task_id iops (assistant (ibase s)) sid
      in if s_kind owner \<noteq> ''assistant'' \<and> origin \<noteq> SystemRecovery \<and> linked \<noteq> None \<and>
            jget ''task_id'' reference \<noteq> opt_str linked
         then Inl (InboxAssistantError ''ASSISTANT_LINK_CHANGED'')
         else if \<not> list_all (asset_ready iops (assistant (ibase s)) (s_user_id owner) (s_workspace_id owner)) (aa_attachments a)
         then Inl (InboxAttachmentError [])
         else
           let bound = bind_baseline iops (assistant (ibase s)) sid origin reference;
               r = new_item a sid owner digest origin bound t
           in if tget (inbox s) fresh \<noteq> None then Inl InboxIntegrityError
              else rbind (append_agent_event lib sid (s_user_id owner) ''inbox.accepted''
                     [(''item_id'', JStr fresh), (''state'', JStr ''accepted''),
                      (''delivery'', JStr (delivery_name (aa_delivery a))), (''target'', JStr (target_name (i_target r))),
                      (''client_id'', opt_str (aa_client_id a)), (''request_digest'', JStr digest),
                      (''attachment_count'', JInt (int (length (aa_attachments a)))),
                      (''origin'', JStr (origin_name origin)), (''origin_ref'', bound)]
                     None None None None (''inbox:'' @ fresh @ '':accepted'') (put_item fresh r s))
                   (\<lambda>s'. Inr (s', \<lparr>rc_id = fresh, rc_row = r, rc_created = True\<rparr>)))"

definition accept_inbox_item_locked ::
  "stdlib \<Rightarrow> 'a inbox_ops \<Rightarrow> 'a ibx \<Rightarrow> time \<Rightarrow> ident \<Rightarrow> ident \<Rightarrow> session_row \<Rightarrow> accept_args \<Rightarrow> inbox_error + ('a ibx \<times> receipt)" where
  "accept_inbox_item_locked lib iops s t fresh sid owner a =
     (let origin = admitted_origin a
      in rbind (checked_origin origin (aa_origin_ref a) (s_user_id owner)) (\<lambda>reference.
        if origin = TaskResult \<and> aa_delivery a \<noteq> Followup then Inl InboxValueError
        else if s_kind owner = ''assistant'' \<and> aa_agent a \<notin> {None, Some ''assistant''} then Inl InboxValueError
        else if s_kind owner \<noteq> ''assistant'' \<and> aa_agent a = Some ''assistant'' then Inl InboxValueError
        else rbind (validate_input a) (\<lambda>_.
          let digest = request_digest lib a origin reference
          in case find (same_client sid (s_user_id owner) (aa_client_id a)) (inbox s) of
               Some (k, r) \<Rightarrow>
                 if i_digest r = digest \<or>
                    origin = Human \<and> i_origin r = UnknownOrigin \<and>
                      i_digest r = request_digest lib a UnknownOrigin (JDict [])
                 then Inr (s, \<lparr>rc_id = k, rc_row = r, rc_created = False\<rparr>)
                 else Inl InboxIdempotencyConflict
             | None \<Rightarrow> insert_item lib iops s t fresh sid owner a digest origin reference)))"

definition accept_inbox_item ::
  "stdlib \<Rightarrow> 'a inbox_ops \<Rightarrow> 'a ibx \<Rightarrow> time \<Rightarrow> ident \<Rightarrow> ident \<Rightarrow> ident \<Rightarrow> accept_args \<Rightarrow> inbox_error + ('a ibx \<times> receipt)" where
  "accept_inbox_item lib iops s t fresh sid user a =
     rbind (prepare_agent_event_write iops s t sid user None) (\<lambda>owner.
       accept_inbox_item_locked lib iops s t fresh sid owner a)"

definition get_inbox_item :: "'a ibx \<Rightarrow> ident \<Rightarrow> ident \<Rightarrow> ident option \<Rightarrow> receipt option" where
  "get_inbox_item s i user sid = (case tget (inbox s) i of
       None \<Rightarrow> None
     | Some r \<Rightarrow> if i_user r = user \<and> (sid = None \<or> sid = Some (i_session r))
                 then Some \<lparr>rc_id = i, rc_row = r, rc_created = False\<rparr> else None)"


section \<open>Selection at a boundary\<close>

text \<open>\<^verbatim>\<open>ORDER BY created_at, id\<close>, over the rows of one conversation that satisfy a condition.\<close>

definition queue_order :: "(ident \<times> item_row) list \<Rightarrow> (ident \<times> item_row) list" where
  "queue_order rows = sort_key (i_created_at \<circ> snd) (sort_key fst rows)"

definition rows_of :: "'a ibx \<Rightarrow> ident \<Rightarrow> ident \<Rightarrow> (item_row \<Rightarrow> bool) \<Rightarrow> (ident \<times> item_row) list" where
  "rows_of s sid user P = queue_order (filter (\<lambda>(k, r). i_session r = sid \<and> i_user r = user \<and> P r) (inbox s))"

definition first_superseding_input_locked :: "'a ibx \<Rightarrow> ident \<Rightarrow> ident \<Rightarrow> (ident \<times> item_row) list" where
  "first_superseding_input_locked s sid user = take 1 (rows_of s sid user
     (\<lambda>r. i_state r = InAccepted \<and> i_delivery r = Followup \<and> i_target r = NextTurn \<and> human_input r))"

definition selected_boundary_rows :: "'a inbox_ops \<Rightarrow> 'a ibx \<Rightarrow> ident \<Rightarrow> ident \<Rightarrow> bool \<Rightarrow> (ident \<times> item_row) list" where
  "selected_boundary_rows iops s sid user include_next_turn =
     (if rows_of s sid user (\<lambda>r. i_origin r = TaskResult \<and> i_state r = InClaimed) \<noteq> [] then []
      else if admission_blocked iops (assistant (ibase s)) sid
      then (if include_next_turn then first_superseding_input_locked s sid user else [])
      else
        let next_step = take MAX_STEP_BATCH (rows_of s sid user (\<lambda>r. i_state r = InAccepted \<and> i_target r = NextStep));
            next_turn = take 1 (rows_of s sid user (\<lambda>r. i_state r = InAccepted \<and> i_target r = NextTurn))
        in if \<not> include_next_turn then next_step
           else if next_turn \<noteq> [] \<and> i_origin (snd (hd next_turn)) = TaskResult
           then (if next_step = [] then next_turn else next_step)
           else next_step @ next_turn)"

text \<open>The main conversation of the assistant: one ordinary or one report-only input per turn.\<close>

datatype mode = Ordinary | ReportOnly

definition mode_of :: "item_row \<Rightarrow> mode" where
  "mode_of r = (if i_origin r = TaskResult then ReportOnly else Ordinary)"

fun mode_name :: "mode \<Rightarrow> string" where
  "mode_name Ordinary = ''ordinary''"
| "mode_name ReportOnly = ''report_only''"

fun MAX_CONSECUTIVE :: "mode \<Rightarrow> nat" where
  "MAX_CONSECUTIVE Ordinary = 2"
| "MAX_CONSECUTIVE ReportOnly = 1"

definition MAX_WAIT_SECONDS :: int where "MAX_WAIT_SECONDS = 30"

definition queue_history :: "'a ibx \<Rightarrow> ident \<Rightarrow> ident \<Rightarrow> json list" where
  "queue_history s sid user = map (\<lambda>e. jget ''mode'' (e_payload e)) (take 2 (rev (sort_key e_sequence
     (filter (\<lambda>e. e_session e = sid \<and> e_user e = user \<and> e_kind e = ''assistant.queue.claimed'') (agent_log s)))))"

definition other_mode :: "json list \<Rightarrow> mode" where
  "other_mode history = (if history \<noteq> [] \<and> hd history = JStr ''ordinary'' then ReportOnly else Ordinary)"

definition exhausted :: "json list \<Rightarrow> bool" where
  "exhausted history \<longleftrightarrow> history \<noteq> [] \<and>
     (let streak = length (takeWhile (\<lambda>m. m = hd history) history)
      in hd history = JStr ''ordinary'' \<and> MAX_CONSECUTIVE Ordinary \<le> streak \<or>
         hd history = JStr ''report_only'' \<and> MAX_CONSECUTIVE ReportOnly \<le> streak)"

definition choose_mode :: "time \<Rightarrow> json list \<Rightarrow> (mode \<Rightarrow> item_row) \<Rightarrow> mode" where
  "choose_mode t history heads =
     (let other = other_mode history; overdue = (\<lambda>m. t - i_created_at (heads m) \<ge> seconds MAX_WAIT_SECONDS)
      in if exhausted history then other
         else if overdue other then other
         else if overdue Ordinary then Ordinary
         else if overdue ReportOnly then ReportOnly
         else Ordinary)"

definition select_main_turn_locked :: "'a inbox_ops \<Rightarrow> 'a ibx \<Rightarrow> time \<Rightarrow> ident \<Rightarrow> ident \<Rightarrow> bool \<Rightarrow> (ident \<times> item_row) list" where
  "select_main_turn_locked iops s t sid user include_next_turn =
     (if \<not> include_next_turn then []
      else if rows_of s sid user (\<lambda>r. i_state r = InClaimed) \<noteq> [] then []
      else if admission_blocked iops (assistant (ibase s)) sid then first_superseding_input_locked s sid user
      else
        let head = (\<lambda>m. take 1 (rows_of s sid user (\<lambda>r. i_state r = InAccepted \<and> mode_of r = m)))
        in if head Ordinary = [] \<or> head ReportOnly = [] then head Ordinary @ head ReportOnly
           else head (choose_mode t (queue_history s sid user) (\<lambda>m. snd (hd (head m)))))"

definition record_main_claim_locked ::
  "stdlib \<Rightarrow> ident \<Rightarrow> session_row \<Rightarrow> (ident \<times> item_row) list \<Rightarrow> ident \<times> int \<Rightarrow> ident \<Rightarrow> 'a ibx \<Rightarrow> inbox_error + 'a ibx" where
  "record_main_claim_locked lib sid owner rows fence turn s =
     (if s_kind owner \<noteq> ''assistant'' \<or> rows = [] then Inr s
      else if length rows \<noteq> 1 then Inl InboxValueError
      else append_agent_event lib sid (s_user_id owner) ''assistant.queue.claimed''
             [(''mode'', JStr (mode_name (mode_of (snd (hd rows))))), (''inbox_id'', JStr (fst (hd rows)))]
             (Some fence) (Some turn) None None (''assistant-queue:'' @ fst fence @ '':'' @ int_text (snd fence)) s)"

section \<open>Expiry of task steering\<close>

definition current_steer_target :: "'a db \<Rightarrow> time \<Rightarrow> ident \<Rightarrow> ident \<Rightarrow> (ident \<times> int) option" where
  "current_steer_target db t sid user = (case tget (drivers db) sid of
       None \<Rightarrow> None
     | Some r \<Rightarrow>
         if d_user_id r = user \<and> d_phase r \<in> {Reserved, Running} \<and> d_trigger_message_id r \<noteq> None \<and>
            d_abort_requested_at r = None \<and> after_now (d_lease_expires_at r) t
         then map_option (\<lambda>run. (run, d_generation r)) (d_run_id r) else None)"

definition names_run :: "json \<Rightarrow> (ident \<times> int) option \<Rightarrow> bool" where
  "names_run expected run = (case (expected, run) of
       (JDict kvs, Some (r, g)) \<Rightarrow>
         length kvs = 2 \<and> jget ''run_id'' expected = JStr r \<and> jget ''generation'' expected = JInt g
     | _ \<Rightarrow> False)"

definition cancel_row :: "string \<Rightarrow> json \<Rightarrow> time \<Rightarrow> item_row \<Rightarrow> item_row" where
  "cancel_row outcome err t r = r\<lparr>i_state := InCanceled, i_outcome := Some outcome, i_error := Some err,
     i_canceled_at := Some t, i_updated_at := t\<rparr>"

fun cancel_each ::
  "stdlib \<Rightarrow> ident \<Rightarrow> ident \<Rightarrow> string \<Rightarrow> json \<Rightarrow> (item_row \<Rightarrow> (string \<times> json) list) \<Rightarrow> time \<Rightarrow>
     (ident \<times> item_row) list \<Rightarrow> 'a ibx \<Rightarrow> inbox_error + 'a ibx" where
  "cancel_each lib sid user outcome err payload t [] s = Inr s"
| "cancel_each lib sid user outcome err payload t ((i, r) # rows) s =
     rbind (append_agent_event lib sid user ''inbox.canceled''
              ([(''item_id'', JStr i), (''state'', JStr ''canceled'')] @ payload r) None None None None
              (''inbox:'' @ i @ '':canceled'') (put_item i (cancel_row outcome err t r) s))
       (cancel_each lib sid user outcome err payload t rows)"

definition steer_message :: string where
  "steer_message = ''The target run stopped before claiming this modification''"

definition expired_steers ::
  "'a inbox_ops \<Rightarrow> 'a ibx \<Rightarrow> time \<Rightarrow> ident \<Rightarrow> session_row \<Rightarrow> (ident \<times> int) option \<Rightarrow> (ident \<times> item_row) list" where
  "expired_steers iops s t sid owner ending_run =
     (if s_kind owner = ''assistant'' then []
      else case task_steers iops (assistant (ibase s)) sid (s_user_id owner) of
        None \<Rightarrow> []
      | Some submissions \<Rightarrow>
          let live = (if ending_run = None then current_steer_target (ibase s) t sid (s_user_id owner) else None)
          in filter (\<lambda>(k, r). let expected = jget ''expected_run'' (i_origin_ref r)
                               in if ending_run \<noteq> None then names_run expected ending_run
                                  else \<not> (truthy expected \<and> names_run expected live))
               (filter (\<lambda>(k, r). k \<in> set submissions)
                  (rows_of s sid (s_user_id owner) (\<lambda>r. i_state r = InAccepted \<and> i_delivery r = Steer))))"

definition set_assistant :: "'a \<Rightarrow> 'a ibx \<Rightarrow> 'a ibx" where
  "set_assistant a s = s\<lparr>ibase := (ibase s)\<lparr>assistant := a\<rparr>\<rparr>"

definition expire_task_steers_locked ::
  "stdlib \<Rightarrow> 'a inbox_ops \<Rightarrow> 'a ibx \<Rightarrow> time \<Rightarrow> ident \<Rightarrow> session_row \<Rightarrow> (ident \<times> int) option \<Rightarrow> inbox_error + 'a ibx" where
  "expire_task_steers_locked lib iops s t sid owner ending_run =
     (let rows = expired_steers iops s t sid owner ending_run;
          err = JDict [(''code'', JStr ''ASSISTANT_STEER_NOT_APPLIED''), (''message'', JStr steer_message)]
      in if rows = [] then Inr s
         else rbind (cancel_each lib sid (s_user_id owner) ''not_applied'' err
                (\<lambda>r. [(''reason'', JStr steer_message), (''code'', JStr ''ASSISTANT_STEER_NOT_APPLIED''),
                      (''expected_run'', jget ''expected_run'' (i_origin_ref r))]) t rows s)
              (\<lambda>s'. Inr (set_assistant (steered_hook iops (assistant (ibase s')) sid (map fst rows)) s')))"


section \<open>Claiming a boundary\<close>

definition lease_fence :: "lease \<Rightarrow> ident \<times> ident \<times> int" where
  "lease_fence l = (l_session_id l, l_run_id l, l_generation l)"

definition claimed_by :: "ident \<Rightarrow> int \<Rightarrow> item_row \<Rightarrow> bool" where
  "claimed_by run g r \<longleftrightarrow> i_run r = Some run \<and> i_generation r = Some g \<and> i_state r = InClaimed"

text \<open>A new message sorts after every message of the conversation.\<close>

definition message_clock :: "'a ibx \<Rightarrow> ident \<Rightarrow> ident \<Rightarrow> time \<Rightarrow> time" where
  "message_clock s sid user t =
     fold max (map (\<lambda>(k, m). m_created m + 1) (filter (\<lambda>(k, m). m_session m = sid \<and> m_user m = user) (transcript s))) t"

definition i_claimed_at_key :: "item_row \<Rightarrow> time" where
  "i_claimed_at_key r = (case i_claimed_at r of None \<Rightarrow> 0 | Some x \<Rightarrow> x)"

definition turn_identity :: "'a ibx \<Rightarrow> lease \<Rightarrow> ident \<Rightarrow> ident" where
  "turn_identity s l fallback =
     (let existing = (case sort_key (i_claimed_at_key \<circ> snd) (sort_key fst (filter (\<lambda>(k, r).
              i_session r = l_session_id l \<and> i_user r = l_user_id l \<and> claimed_by (l_run_id l) (l_generation l) r \<and> i_turn r \<noteq> None) (inbox s))) of
              [] \<Rightarrow> None | (k, r) # _ \<Rightarrow> i_turn r);
          trigger = (case tget (drivers (ibase s)) (l_session_id l) of
              None \<Rightarrow> None
            | Some d \<Rightarrow> if d_user_id d = l_user_id l \<and> d_run_id d = Some (l_run_id l) \<and> d_generation d = l_generation l
                        then d_trigger_message_id d else None)
      in case some_nonempty existing (some_nonempty trigger None) of None \<Rightarrow> fallback | Some x \<Rightarrow> x)"

definition insert_message :: "ident \<Rightarrow> msg_row \<Rightarrow> 'a ibx \<Rightarrow> inbox_error + 'a ibx" where
  "insert_message i m s =
     (if tget (transcript s) i \<noteq> None then Inl InboxIntegrityError else Inr (s\<lparr>transcript := tput i m (transcript s)\<rparr>))"

definition claim_row :: "lease \<Rightarrow> ident \<Rightarrow> ident \<Rightarrow> string \<Rightarrow> string \<Rightarrow> ident \<Rightarrow> time \<Rightarrow> item_row \<Rightarrow> item_row" where
  "claim_row l message turn step token worker t r =
     r\<lparr>i_state := InClaimed, i_message := Some message, i_run := Some (l_run_id l), i_generation := Some (l_generation l),
       i_turn := Some turn, i_step := Some step, i_token := Some token, i_owner := Some worker,
       i_claim_expires := Some (t + seconds CLAIM_SECONDS), i_claimed_at := Some t, i_updated_at := t\<rparr>"

definition claim_payload :: "ident \<Rightarrow> item_row \<Rightarrow> ident \<Rightarrow> string \<Rightarrow> (string \<times> json) list" where
  "claim_payload i r message token =
     [(''item_id'', JStr i), (''state'', JStr ''claimed''), (''delivery'', JStr (delivery_name (i_delivery r))),
      (''target'', JStr (target_name (i_target r))), (''message_id'', JStr message), (''claim_token'', JStr token),
      (''origin'', JStr (origin_name (i_origin r))), (''origin_ref'', i_origin_ref r)]"

text \<open>The loop over the selected rows: the user message, the row and its event, in queue order.\<close>

fun materialize ::
  "stdlib \<Rightarrow> lease \<Rightarrow> ident \<Rightarrow> ident \<Rightarrow> string \<Rightarrow> time \<Rightarrow> (nat \<Rightarrow> ident) \<Rightarrow> (nat \<Rightarrow> string) \<Rightarrow> nat \<Rightarrow>
     (ident \<times> item_row) list \<Rightarrow> 'a ibx \<Rightarrow> inbox_error + 'a ibx" where
  "materialize lib l worker turn step t mids toks n [] s = Inr s"
| "materialize lib l worker turn step t mids toks n ((i, r) # rows) s =
     rbind (insert_message (mids n) \<lparr>m_session = l_session_id l, m_user = l_user_id l, m_role = ''user'', m_parent = None,
              m_finish = None, m_error = None, m_created = t + int n\<rparr> s) (\<lambda>s1.
       rbind (append_agent_event lib (l_session_id l) (l_user_id l) ''inbox.claimed'' (claim_payload i r (mids n) (toks n))
                (Some (l_run_id l, l_generation l)) (Some turn) (Some step) (Some (mids n))
                (''inbox:'' @ i @ '':claimed:'' @ l_run_id l @ '':'' @ int_text (l_generation l) @ '':'' @ step)
                (put_item i (claim_row l (mids n) turn step (toks n) worker t r) s1))
         (materialize lib l worker turn step t mids toks (Suc n) rows))"

definition step_name :: "lease \<Rightarrow> int \<Rightarrow> string" where
  "step_name l step = l_run_id l @ '':'' @ int_text (l_generation l) @ '':'' @ int_text step"

record claim_env =
  ce_worker :: ident
  ce_messages :: "nat \<Rightarrow> ident"
  ce_tokens :: "nat \<Rightarrow> string"

definition claim_selected ::
  "stdlib \<Rightarrow> 'a inbox_ops \<Rightarrow> 'a ibx \<Rightarrow> time \<Rightarrow> claim_env \<Rightarrow> lease \<Rightarrow> session_row \<Rightarrow> int \<Rightarrow> (ident \<times> item_row) list \<Rightarrow>
     inbox_error + 'a ibx" where
  "claim_selected lib iops s t ce l owner step rows =
     (let turn = turn_identity s l (ce_messages ce (length rows - 1));
          t' = message_clock s (l_session_id l) (l_user_id l) t
      in rbind (materialize lib l (ce_worker ce) turn (step_name l step) t' (ce_messages ce) (ce_tokens ce) 0 rows s) (\<lambda>s1.
         rbind (claimed_hook iops (assistant (ibase s1)) (l_session_id l) rows) (\<lambda>a.
         rbind (record_main_claim_locked lib (l_session_id l) owner rows (l_run_id l, l_generation l) turn (set_assistant a s1)) (\<lambda>s2.
           case bind_trigger_message_locked (ibase s2) t (l_session_id l) (l_user_id l) (l_run_id l) (l_generation l) turn of
             Inl e \<Rightarrow> Inl (InboxFence e)
           | Inr db \<Rightarrow> Inr (s2\<lparr>ibase := db\<lparr>sessions := tput (l_session_id l) (owner\<lparr>s_updated_at := t'\<rparr>) (sessions db)\<rparr>\<rparr>)))))"

definition claim_inbox_boundary_once ::
  "stdlib \<Rightarrow> 'a inbox_ops \<Rightarrow> 'a ibx \<Rightarrow> time \<Rightarrow> claim_env \<Rightarrow> lease \<Rightarrow> int \<Rightarrow> bool \<Rightarrow> inbox_error + ('a ibx \<times> ident list)" where
  "claim_inbox_boundary_once lib iops s t ce l step include_next_turn =
     (if step < 1 then Inl InboxValueError
      else rbind (prepare_agent_event_write iops s t (l_session_id l) (l_user_id l) (Some (lease_fence l))) (\<lambda>owner.
        rbind (expire_task_steers_locked lib iops s t (l_session_id l) owner None) (\<lambda>s1.
          if task_held iops (assistant (ibase s1)) (l_session_id l) owner then Inr (s1, [])
          else
            let rows = (if s_kind owner = ''assistant'' then select_main_turn_locked iops s1 t (l_session_id l) (l_user_id l) include_next_turn
                        else selected_boundary_rows iops s1 (l_session_id l) (l_user_id l) include_next_turn);
                invalid = filter (\<lambda>(k, r). \<not> list_all (asset_ready iops (assistant (ibase s1)) (l_user_id l) (s_workspace_id owner)) (i_attachments r)) rows
            in if rows = [] then Inr (s1, [])
               else if invalid \<noteq> [] then Inl (InboxAttachmentError (map fst invalid))
               else rbind (claim_selected lib iops s1 t ce l owner step rows) (\<lambda>s2. Inr (s2, map fst rows)))))"

definition run_has_claimed_turn :: "'a ibx \<Rightarrow> lease \<Rightarrow> bool" where
  "run_has_claimed_turn s l \<longleftrightarrow>
     rows_of s (l_session_id l) (l_user_id l) (claimed_by (l_run_id l) (l_generation l)) \<noteq> [] \<or>
     (case tget (drivers (ibase s)) (l_session_id l) of
        None \<Rightarrow> False
      | Some d \<Rightarrow> d_user_id d = l_user_id l \<and> d_run_id d = Some (l_run_id l) \<and> d_generation d = l_generation l \<and>
                  d_trigger_message_id d \<noteq> None)"

definition has_pending_next_step :: "'a ibx \<Rightarrow> ident \<Rightarrow> ident \<Rightarrow> bool" where
  "has_pending_next_step s sid user \<longleftrightarrow> rows_of s sid user (\<lambda>r. i_state r = InAccepted \<and> i_target r = NextStep) \<noteq> []"

section \<open>Cancellation and the retry of a claim\<close>

definition cancel_error :: "string \<Rightarrow> string option \<Rightarrow> json" where
  "cancel_error reason code = JDict ((''message'', JStr (take 512 reason)) #
     (case code of None \<Rightarrow> [] | Some c \<Rightarrow> if c = [] then [] else [(''code'', JStr c)]))"

definition cancel_inbox_items ::
  "stdlib \<Rightarrow> 'a inbox_ops \<Rightarrow> 'a ibx \<Rightarrow> time \<Rightarrow> ident \<Rightarrow> ident \<Rightarrow> ident list option \<Rightarrow> string \<Rightarrow> string option \<Rightarrow>
     inbox_error + ('a ibx \<times> ident list)" where
  "cancel_inbox_items lib iops s t sid user item_ids reason code =
     rbind (prepare_agent_event_write iops s t sid user None) (\<lambda>owner.
       let rows = (case item_ids of
              None \<Rightarrow> rows_of s sid user (\<lambda>r. i_state r = InAccepted)
            | Some ids \<Rightarrow> filter (\<lambda>(k, r). k \<in> set ids) (rows_of s sid user (\<lambda>r. i_state r = InAccepted)))
       in if rows = [] then Inr (s, [])
          else rbind (cancel_each lib sid user ''canceled'' (cancel_error reason code)
                  (\<lambda>r. (''reason'', JStr (take 512 reason)) # (case code of None \<Rightarrow> [] | Some c \<Rightarrow> if c = [] then [] else [(''code'', JStr c)]))
                  t rows s)
               (\<lambda>s'. Inr (set_assistant (canceled_hook iops (assistant (ibase s')) sid rows) s', map fst rows)))"

text \<open>
  The loop of \<^verbatim>\<open>claim_inbox_boundary\<close>: each failed pass commits the cancellation of the broken rows it
  names and tries again. \<open>fuel\<close> bounds the passes; \<open>None\<close> is running out of it.
\<close>

fun claim_inbox_boundary ::
  "nat \<Rightarrow> stdlib \<Rightarrow> 'a inbox_ops \<Rightarrow> 'a ibx \<Rightarrow> time \<Rightarrow> claim_env \<Rightarrow> lease \<Rightarrow> int \<Rightarrow> bool \<Rightarrow>
     ('a ibx \<times> (inbox_error + ident list)) option" where
  "claim_inbox_boundary 0 lib iops s t ce l step include_next_turn = None"
| "claim_inbox_boundary (Suc n) lib iops s t ce l step include_next_turn =
     (case claim_inbox_boundary_once lib iops s t ce l step include_next_turn of
        Inr (s', ids) \<Rightarrow> Some (s', Inr ids)
      | Inl (InboxAttachmentError bad) \<Rightarrow>
          if bad = [] then Some (s, Inl (InboxAttachmentError []))
          else (case cancel_inbox_items lib iops s t (l_session_id l) (l_user_id l) (Some bad)
                       ''attachment is missing, deleted, or not ready'' (Some ''ASSISTANT_ASSET_UNAVAILABLE'') of
                  Inl e \<Rightarrow> Some (s, Inl e)
                | Inr (s', _) \<Rightarrow> claim_inbox_boundary n lib iops s' t ce l step include_next_turn)
      | Inl e \<Rightarrow> Some (s, Inl e))"


section \<open>Settlement\<close>

definition settle_item :: "ident option \<Rightarrow> string \<Rightarrow> json option \<Rightarrow> time \<Rightarrow> item_row \<Rightarrow> item_row" where
  "settle_item result outcome err t r = r\<lparr>i_state := InSettled, i_result := result, i_outcome := Some outcome,
     i_error := err, i_claim_expires := None, i_settled_at := Some t, i_updated_at := t\<rparr>"

definition settled_payload :: "ident \<Rightarrow> ident option \<Rightarrow> string \<Rightarrow> json option \<Rightarrow> (string \<times> json) list" where
  "settled_payload i result outcome err =
     [(''item_id'', JStr i), (''state'', JStr ''settled''), (''outcome'', JStr outcome),
      (''result_message_id'', opt_str result), (''error'', case err of None \<Rightarrow> JNull | Some j \<Rightarrow> j)]"

definition settled_key :: "ident \<Rightarrow> ident \<Rightarrow> int \<Rightarrow> string" where
  "settled_key i run g = ''inbox:'' @ i @ '':settled:'' @ run @ '':'' @ int_text g"

fun settle_each ::
  "stdlib \<Rightarrow> ident \<Rightarrow> ident \<Rightarrow> ident \<times> int \<Rightarrow> ident option \<Rightarrow> string \<Rightarrow> json option \<Rightarrow> time \<Rightarrow> (ident \<times> item_row) list \<Rightarrow>
     'a ibx \<Rightarrow> inbox_error + 'a ibx" where
  "settle_each lib sid user fence result outcome err t [] s = Inr s"
| "settle_each lib sid user fence result outcome err t ((i, r) # rows) s =
     (if i_message r = None then Inl InboxError
      else rbind (append_agent_event lib sid user ''inbox.settled'' (settled_payload i result outcome err)
                    (Some fence) (i_turn r) (i_step r) (i_message r) (settled_key i (fst fence) (snd fence))
                    (put_item i (settle_item result outcome err t r) s))
             (settle_each lib sid user fence result outcome err t rows))"

definition claimed_rows :: "'a ibx \<Rightarrow> ident \<Rightarrow> ident \<Rightarrow> ident \<Rightarrow> int \<Rightarrow> (ident \<times> item_row) list" where
  "claimed_rows s sid user run g = rows_of s sid user (claimed_by run g)"

definition settle_claimed_inbox_items ::
  "stdlib \<Rightarrow> 'a inbox_ops \<Rightarrow> 'a ibx \<Rightarrow> time \<Rightarrow> lease \<Rightarrow> ident option \<Rightarrow> string \<Rightarrow> json option \<Rightarrow> inbox_error + ('a ibx \<times> ident list)" where
  "settle_claimed_inbox_items lib iops s t l result outcome err =
     rbind (prepare_agent_event_write iops s t (l_session_id l) (l_user_id l) (Some (lease_fence l))) (\<lambda>owner.
       if (case result of None \<Rightarrow> False
           | Some m \<Rightarrow> (case tget (transcript s) m of None \<Rightarrow> True
                        | Some row \<Rightarrow> m_session row \<noteq> l_session_id l \<or> m_user row \<noteq> l_user_id l))
       then Inl InboxError
       else
         let rows = claimed_rows s (l_session_id l) (l_user_id l) (l_run_id l) (l_generation l)
         in rbind (settle_each lib (l_session_id l) (l_user_id l) (l_run_id l, l_generation l) result (take 24 outcome) err t rows s)
              (\<lambda>s'. Inr (set_assistant (settled_hook iops (assistant (ibase s')) (l_session_id l) (map fst rows) result outcome) s',
                         map fst rows)))"

text \<open>Input that was claimed but never reached the model.\<close>

datatype never_ran = DeliveryFailed | WaitingInput

fun never_ran_outcome :: "never_ran \<Rightarrow> string" where
  "never_ran_outcome DeliveryFailed = ''delivery_error''"
| "never_ran_outcome WaitingInput = ''not_run''"

fun never_ran_reason :: "never_ran \<Rightarrow> string" where
  "never_ran_reason DeliveryFailed = ''inbox_delivery_error''"
| "never_ran_reason WaitingInput = ''inbox_waiting_input''"

text \<open>The texts of the closing errors are an argument: one for the reply and one for each row.\<close>

record never_ran_errors =
  closing_error :: json
  row_error :: "item_row \<Rightarrow> json"

definition create_delivery_error_locked ::
  "'a ibx \<Rightarrow> ident \<Rightarrow> ident \<Rightarrow> ident \<Rightarrow> ident option \<Rightarrow> json \<Rightarrow> time \<Rightarrow> inbox_error + ('a ibx \<times> time)" where
  "create_delivery_error_locked s fresh sid user parent err t =
     (case parent of
        None \<Rightarrow> Inl InboxError
      | Some p \<Rightarrow> (case tget (transcript s) p of
          None \<Rightarrow> Inl InboxError
        | Some m \<Rightarrow>
            if m_session m \<noteq> sid \<or> m_user m \<noteq> user \<or> m_role m \<noteq> ''user'' then Inl InboxError
            else
              let t' = message_clock s sid user t
              in rbind (insert_message fresh \<lparr>m_session = sid, m_user = user, m_role = ''assistant'', m_parent = Some p,
                    m_finish = Some ''error'', m_error = Some err, m_created = t'\<rparr> s) (\<lambda>s'. Inr (s', t'))))"

fun close_each ::
  "stdlib \<Rightarrow> ident \<Rightarrow> ident \<Rightarrow> ident \<times> int \<Rightarrow> never_ran \<Rightarrow> never_ran_errors \<Rightarrow> ident option \<Rightarrow> time \<Rightarrow> (ident \<times> item_row) list \<Rightarrow>
     'a ibx \<Rightarrow> inbox_error + 'a ibx" where
  "close_each lib sid user fence why errs closing t [] s = Inr s"
| "close_each lib sid user fence why errs closing t ((i, r) # rows) s =
     (case i_message r of
        None \<Rightarrow> Inl InboxError
      | Some m \<Rightarrow>
          rbind (append_agent_event lib sid user ''surface.model_exclusion''
                   [(''message_ids'', JList (map JStr (m # (case closing of None \<Rightarrow> [] | Some c \<Rightarrow> [c])))),
                    (''reason'', JStr (never_ran_reason why)), (''source_item_id'', JStr i)]
                   (Some fence) (i_turn r) (i_step r) (Some m)
                   (''inbox:'' @ i @ '':model-exclusion:'' @ fst fence @ '':'' @ int_text (snd fence))
                   (put_item i (settle_item closing (never_ran_outcome why) (Some (row_error errs r)) t r) s)) (\<lambda>s1.
            rbind (append_agent_event lib sid user ''inbox.settled''
                     (settled_payload i closing (never_ran_outcome why) (Some (row_error errs r)))
                     (Some fence) (i_turn r) (i_step r) (Some m) (settled_key i (fst fence) (snd fence)) s1)
              (close_each lib sid user fence why errs closing t rows)))"

definition close_never_ran_locked ::
  "stdlib \<Rightarrow> 'a ibx \<Rightarrow> ident \<Rightarrow> ident \<Rightarrow> ident \<Rightarrow> ident \<times> int \<Rightarrow> never_ran \<Rightarrow> never_ran_errors \<Rightarrow> bool \<Rightarrow> time \<Rightarrow>
     (ident \<times> item_row) list \<Rightarrow> inbox_error + ('a ibx \<times> ident option)" where
  "close_never_ran_locked lib s fresh sid user fence why errs close_turn t rows =
     (if close_turn \<and> rows \<noteq> []
      then rbind (create_delivery_error_locked s fresh sid user (i_message (snd (last rows))) (closing_error errs) t) (\<lambda>(s1, t').
             rbind (close_each lib sid user fence why errs (Some fresh) t' rows s1) (\<lambda>s2. Inr (s2, Some fresh)))
      else rbind (close_each lib sid user fence why errs None t rows s) (\<lambda>s2. Inr (s2, None)))"

definition settle_delivery_failures ::
  "stdlib \<Rightarrow> 'a inbox_ops \<Rightarrow> 'a ibx \<Rightarrow> time \<Rightarrow> ident \<Rightarrow> never_ran_errors \<Rightarrow> lease \<Rightarrow> ident list \<Rightarrow> bool \<Rightarrow>
     inbox_error + ('a ibx \<times> ident list \<times> ident option)" where
  "settle_delivery_failures lib iops s t fresh errs l item_ids close_turn =
     (if item_ids = [] then Inr (s, [], None)
      else rbind (prepare_agent_event_write iops s t (l_session_id l) (l_user_id l) (Some (lease_fence l))) (\<lambda>owner.
        let rows = filter (\<lambda>(k, r). k \<in> set item_ids)
                     (claimed_rows s (l_session_id l) (l_user_id l) (l_run_id l) (l_generation l))
        in if rows = [] then Inr (s, [], None)
           else rbind (close_never_ran_locked lib s fresh (l_session_id l) (l_user_id l) (l_run_id l, l_generation l)
                    DeliveryFailed errs close_turn t rows) (\<lambda>(s', closing).
             Inr (if close_turn then set_assistant (settled_hook iops (assistant (ibase s')) (l_session_id l) (map fst rows) closing ''delivery_error'') s'
                  else s', map fst rows, closing))))"

definition settle_refused_claims ::
  "stdlib \<Rightarrow> 'a inbox_ops \<Rightarrow> 'a ibx \<Rightarrow> time \<Rightarrow> ident \<Rightarrow> never_ran_errors \<Rightarrow> lease \<Rightarrow> inbox_error + ('a ibx \<times> ident list)" where
  "settle_refused_claims lib iops s t fresh errs l =
     rbind (prepare_agent_event_write iops s t (l_session_id l) (l_user_id l) (Some (lease_fence l))) (\<lambda>owner.
       let rows = claimed_rows s (l_session_id l) (l_user_id l) (l_run_id l) (l_generation l)
       in if rows = [] then Inr (s, [])
          else rbind (close_never_ran_locked lib s fresh (l_session_id l) (l_user_id l) (l_run_id l, l_generation l)
                   WaitingInput errs True t rows) (\<lambda>(s', closing).
            Inr (set_assistant (not_run_hook iops (assistant (ibase s')) (l_session_id l) (map fst rows)) s', map fst rows)))"

end
