(* ===== verification/Inbox_Recovery.thy ===== *)
theory Inbox_Recovery
  imports Inbox
begin

text \<open>
  The rest of \<^verbatim>\<open>src/backend/agent/inbox.py\<close>: durable attachment delivery of claimed input, the takeover
  of claims by a recovered run, the settlement of orphaned claims, and the wake that reserves a run
  and claims its first boundary. The transfer of bytes to a sandbox is an argument that says how each
  attempt ends; the texts shown to people are arguments too.
\<close>

section \<open>Attachment delivery\<close>

datatype delivery_exn =
    SandboxSubscriptionRequired string
  | DesktopNotReady
  | AssetDeliveryError string bool "ident list"
  | AttachmentMissing
  | OtherException

datatype delivery_end = Delivered | Fails delivery_exn | Interrupted

definition ASSET_ERROR_CODES :: "string list" where
  "ASSET_ERROR_CODES = [''asset_unavailable'', ''delivery_failed'', ''asset_origin_unavailable'', ''asset_source_changed'',
     ''resource_preparation_unavailable'', ''private_runtime_unavailable'']"

definition safe_delivery_failure :: "(delivery_exn \<Rightarrow> string) \<Rightarrow> ident list \<Rightarrow> delivery_exn \<Rightarrow> (string \<times> json) list" where
  "safe_delivery_failure texts expected e =
     (let out = (\<lambda>code retryable missing. [(''code'', JStr code), (''message'', JStr (texts e)),
                   (''retryable'', JBool retryable), (''missing_asset_ids'', JList (map JStr missing))])
      in case e of
           SandboxSubscriptionRequired code \<Rightarrow> out code False []
         | DesktopNotReady \<Rightarrow> out ''sandbox_not_ready'' True []
         | AssetDeliveryError code retryable missing \<Rightarrow>
             out (if code \<in> set ASSET_ERROR_CODES then code else ''delivery_failed'') retryable
                 (take MAX_ATTACHMENTS (map (take 64) (filter (\<lambda>a. a \<in> set expected) missing)))
         | _ \<Rightarrow> out ''delivery_failed'' True [])"

definition claim_of_lease :: "'a ibx \<Rightarrow> lease \<Rightarrow> ident \<Rightarrow> item_row option" where
  "claim_of_lease s l i = (case tget (inbox s) i of
       None \<Rightarrow> None
     | Some r \<Rightarrow> if i_session r = l_session_id l \<and> i_user r = l_user_id l \<and> claimed_by (l_run_id l) (l_generation l) r
                 then Some r else None)"

definition record_delivery_failure ::
  "stdlib \<Rightarrow> 'a inbox_ops \<Rightarrow> 'a ibx \<Rightarrow> time \<Rightarrow> lease \<Rightarrow> ident \<Rightarrow> (string \<times> json) list \<Rightarrow> inbox_error + ('a ibx \<times> nat \<times> bool)" where
  "record_delivery_failure lib iops s t l i err =
     rbind (prepare_agent_event_write iops s t (l_session_id l) (l_user_id l) (Some (lease_fence l))) (\<lambda>owner.
       case claim_of_lease s l i of
         None \<Rightarrow> Inl InboxError
       | Some r \<Rightarrow>
           let attempt = min (i_attempts r + 1) 1000;
               durable = JDict (tput ''attempt'' (JInt (int attempt)) err)
           in rbind (append_agent_event lib (l_session_id l) (l_user_id l) ''inbox.claimed''
                  [(''item_id'', JStr i), (''state'', JStr ''claimed''), (''delivery_status'', JStr ''failed''),
                   (''attempt'', JInt (int attempt)), (''error'', durable)]
                  (Some (l_run_id l, l_generation l)) (i_turn r) (i_step r) (i_message r)
                  (''inbox:'' @ i @ '':delivery_failed:'' @ l_run_id l @ '':'' @ int_text (l_generation l) @ '':'' @ nat_text attempt)
                  (put_item i (r\<lparr>i_attempts := attempt, i_last_error := Some durable, i_updated_at := t\<rparr>) s))
                (\<lambda>s'. Inr (s', attempt, \<not> truthy (jget ''retryable'' durable) \<or> MAX_DURABLE_DELIVERY_ATTEMPTS \<le> attempt)))"

definition record_delivery_success ::
  "stdlib \<Rightarrow> 'a inbox_ops \<Rightarrow> 'a ibx \<Rightarrow> time \<Rightarrow> lease \<Rightarrow> ident \<Rightarrow> inbox_error + 'a ibx" where
  "record_delivery_success lib iops s t l i =
     rbind (prepare_agent_event_write iops s t (l_session_id l) (l_user_id l) (Some (lease_fence l))) (\<lambda>owner.
       case claim_of_lease s l i of
         None \<Rightarrow> Inl InboxError
       | Some r \<Rightarrow>
           if i_last_error r = None then Inr s
           else append_agent_event lib (l_session_id l) (l_user_id l) ''inbox.claimed''
                  [(''item_id'', JStr i), (''state'', JStr ''claimed''), (''delivery_status'', JStr ''succeeded''),
                   (''attempts'', JInt (int (i_attempts r)))]
                  (Some (l_run_id l, l_generation l)) (i_turn r) (i_step r) (i_message r)
                  (''inbox:'' @ i @ '':delivery_succeeded:'' @ l_run_id l @ '':'' @ int_text (l_generation l) @ '':'' @ nat_text (i_attempts r))
                  (put_item i (r\<lparr>i_last_error := None, i_updated_at := t\<rparr>) s))"

record delivery_lists =
  runnable :: "ident list"
  terminal :: "ident list"
  pending :: "ident list"

definition delivery_over :: "item_row \<Rightarrow> bool" where
  "delivery_over r \<longleftrightarrow> jget ''retryable'' (or_empty (i_last_error r)) = JBool False \<or>
     MAX_DURABLE_DELIVERY_ATTEMPTS \<le> i_attempts r"

text \<open>
  The loop over the claimed rows. \<open>try\<close> is how the transfer for a row ends; \<open>fixed\<close> marks a main
  assistant conversation, whose missing files are not retried. A raised exception leaves the
  transactions committed before it.
\<close>

fun deliver_each ::
  "stdlib \<Rightarrow> 'a inbox_ops \<Rightarrow> (delivery_exn \<Rightarrow> string) \<Rightarrow> (ident \<Rightarrow> delivery_end) \<Rightarrow> bool \<Rightarrow> lease \<Rightarrow> (nat \<Rightarrow> time) \<Rightarrow> nat \<Rightarrow>
     (ident \<times> item_row) list \<Rightarrow> 'a ibx \<Rightarrow> delivery_lists \<Rightarrow> 'a ibx \<times> (inbox_error + delivery_lists)" where
  "deliver_each lib iops texts try fixed l ts n [] s acc = (s, Inr acc)"
| "deliver_each lib iops texts try fixed l ts n ((i, r) # rows) s acc =
     (if i_attachments r = []
      then deliver_each lib iops texts try fixed l ts (Suc n) rows s (acc\<lparr>runnable := runnable acc @ [i]\<rparr>)
      else if delivery_over r
      then deliver_each lib iops texts try fixed l ts (Suc n) rows s (acc\<lparr>terminal := terminal acc @ [i]\<rparr>)
      else case try i of
        Interrupted \<Rightarrow> (s, Inl (InboxFence TaskSchedulingHeld))
      | Delivered \<Rightarrow>
          (if i_last_error r = None
           then deliver_each lib iops texts try fixed l ts (Suc n) rows s (acc\<lparr>runnable := runnable acc @ [i]\<rparr>)
           else case record_delivery_success lib iops s (ts n) l i of
                  Inl e \<Rightarrow> (s, Inl e)
                | Inr s' \<Rightarrow> deliver_each lib iops texts try fixed l ts (Suc n) rows s' (acc\<lparr>runnable := runnable acc @ [i]\<rparr>))
      | Fails e \<Rightarrow>
          (let failure = safe_delivery_failure texts (i_attachments r) e;
               failure' = (if fixed \<and> e = AttachmentMissing then tput ''retryable'' (JBool False) failure else failure)
           in case record_delivery_failure lib iops s (ts n) l i failure' of
                Inl x \<Rightarrow> (s, Inl x)
              | Inr (s', attempt, over) \<Rightarrow>
                  deliver_each lib iops texts try fixed l ts (Suc n) rows s'
                    (if over then acc\<lparr>terminal := terminal acc @ [i]\<rparr> else acc\<lparr>pending := pending acc @ [i]\<rparr>)))"

definition no_lists :: delivery_lists where
  "no_lists = \<lparr>runnable = [], terminal = [], pending = []\<rparr>"

definition deliver_claimed_attachments ::
  "stdlib \<Rightarrow> 'a inbox_ops \<Rightarrow> (delivery_exn \<Rightarrow> string) \<Rightarrow> never_ran_errors \<Rightarrow> (ident \<Rightarrow> delivery_end) \<Rightarrow> bool \<Rightarrow> 'a ibx \<Rightarrow>
     (nat \<Rightarrow> time) \<Rightarrow> ident \<Rightarrow> lease \<Rightarrow> ident list option \<Rightarrow> ident list option \<Rightarrow> 'a ibx \<times> (inbox_error + delivery_lists)" where
  "deliver_claimed_attachments lib iops texts errs try fixed s ts fresh l item_ids expected =
     (let all_rows = claimed_rows s (l_session_id l) (l_user_id l) (l_run_id l) (l_generation l);
          rows = (case item_ids of None \<Rightarrow> all_rows | Some ids \<Rightarrow> filter (\<lambda>(k, r). k \<in> set ids) all_rows);
          drifted = (case expected of None \<Rightarrow> False | Some es \<Rightarrow> set es \<noteq> (\<Union>(k, r)\<in>set rows. set (i_attachments r)))
      in if drifted then (s, Inl InboxError)
         else case deliver_each lib iops texts try fixed l ts 0 rows s no_lists of
           (s1, Inl e) \<Rightarrow> (s1, Inl e)
         | (s1, Inr out) \<Rightarrow>
             (case settle_delivery_failures lib iops s1 (ts (length rows)) fresh errs l (terminal out)
                     (runnable out = [] \<and> pending out = []) of
                Inl e \<Rightarrow> (s1, Inl e)
              | Inr (s2, _, _) \<Rightarrow>
                  (s2, if pending out = [] then Inr out else Inl (InboxAttachmentDeliveryPending (pending out)))))"

section \<open>Takeover and orphans\<close>

definition rebind_row :: "lease \<Rightarrow> string \<Rightarrow> ident \<Rightarrow> time \<Rightarrow> item_row \<Rightarrow> item_row" where
  "rebind_row l token worker t r = r\<lparr>i_run := Some (l_run_id l), i_generation := Some (l_generation l), i_token := Some token,
     i_owner := Some worker, i_claim_expires := Some (t + seconds CLAIM_SECONDS), i_updated_at := t\<rparr>"

fun rebind_each ::
  "stdlib \<Rightarrow> lease \<Rightarrow> ident \<times> int \<Rightarrow> ident \<Rightarrow> (nat \<Rightarrow> string) \<Rightarrow> nat \<Rightarrow> time \<Rightarrow> (ident \<times> item_row) list \<Rightarrow> 'a ibx \<Rightarrow>
     inbox_error + 'a ibx" where
  "rebind_each lib l old worker toks n t [] s = Inr s"
| "rebind_each lib l old worker toks n t ((i, r) # rows) s =
     rbind (append_agent_event lib (l_session_id l) (l_user_id l) ''inbox.claimed''
              [(''item_id'', JStr i), (''state'', JStr ''claimed''), (''message_id'', opt_str (i_message r)),
               (''claim_token'', JStr (toks n)),
               (''recovered_from'', JDict [(''run_id'', JStr (fst old)), (''generation'', JInt (snd old))]),
               (''origin'', JStr (origin_name (i_origin r))), (''origin_ref'', i_origin_ref r)]
              (Some (l_run_id l, l_generation l)) (i_turn r) (i_step r) (i_message r)
              (''inbox:'' @ i @ '':rebound:'' @ l_run_id l @ '':'' @ int_text (l_generation l))
              (put_item i (rebind_row l (toks n) worker t r) s))
       (rebind_each lib l old worker toks (Suc n) t rows)"

definition rebind_recovered_claims ::
  "stdlib \<Rightarrow> 'a inbox_ops \<Rightarrow> 'a ibx \<Rightarrow> time \<Rightarrow> claim_env \<Rightarrow> ident \<Rightarrow> ident \<Rightarrow> ident \<times> int \<Rightarrow> lease \<Rightarrow> inbox_error + ('a ibx \<times> nat)" where
  "rebind_recovered_claims lib iops s t ce sid user old l =
     rbind (prepare_agent_event_write iops s t (l_session_id l) (l_user_id l) (Some (lease_fence l))) (\<lambda>owner.
       let rows = filter (\<lambda>(k, r). i_session r = sid \<and> i_user r = user \<and> claimed_by (fst old) (snd old) r) (inbox s)
       in rbind (rebind_each lib l old (ce_worker ce) (ce_tokens ce) 0 t rows s) (\<lambda>s'. Inr (s', length rows)))"

definition settle_unstarted_claims ::
  "stdlib \<Rightarrow> 'a inbox_ops \<Rightarrow> 'a ibx \<Rightarrow> time \<Rightarrow> ident \<Rightarrow> never_ran_errors \<Rightarrow> ident \<Rightarrow> ident \<Rightarrow> ident \<times> int \<Rightarrow> inbox_error + ('a ibx \<times> nat)" where
  "settle_unstarted_claims lib iops s t fresh errs sid user fence =
     (case prepare_agent_event_write iops s t sid user None of
        Inl e \<Rightarrow> if e = InboxFence (LookupError sid) then Inr (s, 0) else Inl e
      | Inr owner \<Rightarrow>
          let rows = claimed_rows s sid user (fst fence) (snd fence)
          in if (case tget (drivers (ibase s)) sid of None \<Rightarrow> False | Some d \<Rightarrow> d_phase d \<noteq> Idle \<or> d_run_id d \<noteq> None) then Inr (s, 0)
             else if execution_running iops (assistant (ibase s)) sid then Inr (s, 0)
             else if rows = [] \<or> \<not> list_all (\<lambda>(k, r). not_after (i_claim_expires r) t) rows \<or> list_ex (\<lambda>(k, r). i_message r = None) rows
             then Inr (s, 0)
             else if list_ex (\<lambda>(k, m). m_session m = sid \<and> m_user m = user \<and> m_role m = ''assistant'' \<and>
                                       m_parent m \<in> (\<lambda>(k, r). i_message r) ` set rows) (transcript s)
             then Inr (s, 0)
             else rbind (close_never_ran_locked lib s fresh sid user fence WaitingInput errs True t rows) (\<lambda>(s', closing).
               Inr (set_assistant (not_run_hook iops (assistant (ibase s')) sid (map fst rows)) s', length rows)))"


text \<open>
  One candidate of \<^verbatim>\<open>settle_orphaned_claims\<close>: a finished transcript is settled through a short
  maintenance generation, a claim that no run ever started is closed under its own fence.
\<close>

record 'a sweep_env =
  sw_env :: env
  sw_worker :: worker
  sw_claim :: claim_env
  sw_fresh :: ident
  sw_errors :: never_ran_errors

definition terminal_reply :: "'a ibx \<Rightarrow> ident \<Rightarrow> ident \<Rightarrow> ident option set \<Rightarrow> ident option" where
  "terminal_reply s sid user parents =
     (case rev (sort_key (m_created \<circ> snd) (sort_key fst (filter (\<lambda>(k, m). m_session m = sid \<and> m_user m = user \<and>
              m_role m = ''assistant'' \<and> m_parent m \<in> parents \<and> (m_finish m \<noteq> None \<or> m_error m \<noteq> None)) (transcript s)))) of
        [] \<Rightarrow> None
      | (k, m) # _ \<Rightarrow> Some k)"

definition settle_through_generation ::
  "stdlib \<Rightarrow> 'a assistant_ops \<Rightarrow> 'a inbox_ops \<Rightarrow> 'a sweep_env \<Rightarrow> ident \<Rightarrow> ident \<Rightarrow> ident \<times> int \<Rightarrow> ident \<Rightarrow> 'a ibx \<Rightarrow>
     'a ibx \<times> (inbox_error + nat)" where
  "settle_through_generation lib ops iops e sid user fence reply s =
     (case reserve_run ops (ibase s) (sw_env e) (sw_worker e) sid user None None Finalizing None False of
        Inl (AssistantError x) \<Rightarrow> (s, Inl (InboxFence (AssistantError x)))
      | Inl ValueError \<Rightarrow> (s, Inl (InboxFence ValueError))
      | Inl TaskSchedulingHeld \<Rightarrow> (s, Inl (InboxFence TaskSchedulingHeld))
      | Inl _ \<Rightarrow> (s, Inr 0)
      | Inr (w, l, db) \<Rightarrow>
          let s1 = s\<lparr>ibase := db\<rparr>; t = now (sw_env e);
              failed = (\<lambda>x s2. (s2\<lparr>ibase := fst (snd (snd (preserve_for_recovery (ibase s2) t w l (Some ''error''))))\<rparr>, Inl x))
          in case rebind_recovered_claims lib iops s1 t (sw_claim e) sid user fence l of
               Inl x \<Rightarrow> failed x s1
             | Inr (s2, _) \<Rightarrow>
                 (case settle_claimed_inbox_items lib iops s2 t l (Some reply) ''recovered'' None of
                    Inl x \<Rightarrow> failed x s2
                  | Inr (s3, ids) \<Rightarrow>
                      (s3\<lparr>ibase := fst (snd (snd (release ops (ibase s3) t w l (Some ''idle''))))\<rparr>, Inr (length ids))))"

definition settle_orphan ::
  "stdlib \<Rightarrow> 'a assistant_ops \<Rightarrow> 'a inbox_ops \<Rightarrow> 'a sweep_env \<Rightarrow> ident \<Rightarrow> ident \<Rightarrow> ident \<times> int \<Rightarrow> 'a ibx \<Rightarrow> 'a ibx \<times> (inbox_error + nat)" where
  "settle_orphan lib ops iops e sid user fence s =
     (if (case tget (drivers (ibase s)) sid of None \<Rightarrow> False | Some d \<Rightarrow> d_phase d \<noteq> Idle) then (s, Inr 0)
      else
        let triggers = (\<lambda>(k, r). i_message r) ` set (filter (\<lambda>(k, r). i_message r \<noteq> None) (claimed_rows s sid user (fst fence) (snd fence)))
        in if triggers = {} then (s, Inr 0)
           else case terminal_reply s sid user triggers of
             None \<Rightarrow>
               (case settle_unstarted_claims lib iops s (now (sw_env e)) (sw_fresh e) (sw_errors e) sid user fence of
                  Inl x \<Rightarrow> (s, Inr 0)
                | Inr (s', n) \<Rightarrow> (s', Inr n))
           | Some reply \<Rightarrow> settle_through_generation lib ops iops e sid user fence reply s)"

text \<open>The \<^verbatim>\<open>seen\<close> set: the first occurrence of each identity, in order.\<close>

definition first_occurrences :: "'x list \<Rightarrow> 'x list" where
  "first_occurrences xs = rev (remdups (rev xs))"

definition orphan_candidates :: "'a ibx \<Rightarrow> time \<Rightarrow> (ident \<times> ident \<times> ident \<times> int) list" where
  "orphan_candidates s t = first_occurrences (List.map_filter (\<lambda>(k, r).
       (case (i_run r, i_generation r) of
          (Some run, Some g) \<Rightarrow> if run = [] then None else Some (i_session r, i_user r, run, g)
        | _ \<Rightarrow> None))
     (queue_order (filter (\<lambda>(k, r). i_state r = InClaimed \<and> not_after (i_claim_expires r) t) (inbox s))))"

fun settle_orphans ::
  "stdlib \<Rightarrow> 'a assistant_ops \<Rightarrow> 'a inbox_ops \<Rightarrow> (nat \<Rightarrow> 'a sweep_env) \<Rightarrow> nat \<Rightarrow> (ident \<times> ident \<times> ident \<times> int) list \<Rightarrow>
     nat \<Rightarrow> 'a ibx \<Rightarrow> 'a ibx \<times> (inbox_error + nat)" where
  "settle_orphans lib ops iops es n [] acc s = (s, Inr acc)"
| "settle_orphans lib ops iops es n ((sid, user, fence) # rest) acc s =
     (case settle_orphan lib ops iops (es n) sid user fence s of
        (s', Inl x) \<Rightarrow> (s', Inl x)
      | (s', Inr k) \<Rightarrow> settle_orphans lib ops iops es (Suc n) rest (acc + k) s')"

definition settle_orphaned_claims ::
  "stdlib \<Rightarrow> 'a assistant_ops \<Rightarrow> 'a inbox_ops \<Rightarrow> (nat \<Rightarrow> 'a sweep_env) \<Rightarrow> time \<Rightarrow> 'a ibx \<Rightarrow> 'a ibx \<times> (inbox_error + nat)" where
  "settle_orphaned_claims lib ops iops es t s = settle_orphans lib ops iops es 0 (orphan_candidates s t) 0 s"

section \<open>Waking a conversation\<close>

definition runnable_input :: "'a inbox_ops \<Rightarrow> 'a ibx \<Rightarrow> ident \<Rightarrow> ident \<Rightarrow> bool" where
  "runnable_input iops s sid user \<longleftrightarrow>
     rows_of s sid user (\<lambda>r. i_state r = InAccepted \<and> i_delivery r \<in> {Followup, Steer}) \<noteq> [] \<and>
     (admission_blocked iops (assistant (ibase s)) sid \<longrightarrow>
        rows_of s sid user (\<lambda>r. i_state r = InAccepted \<and> i_delivery r = Followup \<and> human_input r) \<noteq> [])"

definition has_waking_input ::
  "stdlib \<Rightarrow> 'a inbox_ops \<Rightarrow> 'a ibx \<Rightarrow> time \<Rightarrow> ident \<Rightarrow> ident \<Rightarrow> 'a ibx \<times> (inbox_error + bool)" where
  "has_waking_input lib iops s t sid user =
     (if \<not> runnable_input iops s sid user then (s, Inr False)
      else case open_session (ibase s) sid user of
        None \<Rightarrow> (s, Inr False)
      | Some owner \<Rightarrow>
          (case expire_task_steers_locked lib iops s t sid owner None of
             Inl e \<Rightarrow> (s, Inl e)
           | Inr s1 \<Rightarrow> (s1, Inr (\<not> task_held iops (assistant (ibase s1)) sid owner \<and> runnable_input iops s1 sid user))))"

definition reserve_and_claim ::
  "nat \<Rightarrow> stdlib \<Rightarrow> 'a assistant_ops \<Rightarrow> 'a inbox_ops \<Rightarrow> 'a sweep_env \<Rightarrow> string \<Rightarrow> ident \<Rightarrow> ident \<Rightarrow> 'a ibx \<Rightarrow>
     ('a ibx \<times> (inbox_error + (lease \<times> ident list) option)) option" where
  "reserve_and_claim fuel lib ops iops e resting sid user s =
     (case has_waking_input lib iops s (now (sw_env e)) sid user of
        (s1, Inl x) \<Rightarrow> Some (s1, Inl x)
      | (s1, Inr False) \<Rightarrow> Some (s1, Inr None)
      | (s1, Inr True) \<Rightarrow>
          (case reserve_run ops (ibase s1) (sw_env e) (sw_worker e) sid user None None Reserved None False of
             Inl (AssistantError x) \<Rightarrow> Some (s1, Inl (InboxFence (AssistantError x)))
           | Inl ValueError \<Rightarrow> Some (s1, Inl (InboxFence ValueError))
           | Inl _ \<Rightarrow> Some (s1, Inr None)
           | Inr (w, l, db) \<Rightarrow>
               let s2 = s1\<lparr>ibase := db\<rparr>; t = now (sw_env e);
                   released = (\<lambda>st s. s\<lparr>ibase := fst (snd (snd (release ops (ibase s) t w l (Some st))))\<rparr>)
               in (case claim_inbox_boundary fuel lib iops s2 t (sw_claim e) l 1 True of
                     None \<Rightarrow> None
                   | Some (s3, Inl x) \<Rightarrow> Some (released ''error'' s3, Inl x)
                   | Some (s3, Inr []) \<Rightarrow> Some (released resting s3, Inr None)
                   | Some (s3, Inr (i # ids)) \<Rightarrow> Some (s3, Inr (Some (l, i # ids))))))"

definition claimable_inbox_sessions :: "'a ibx \<Rightarrow> (ident \<times> ident) list" where
  "claimable_inbox_sessions s =
     (let waiting = filter (\<lambda>(k, r). i_state r = InAccepted \<and> i_delivery r \<in> {Followup, Steer}) (inbox s);
          oldest = (\<lambda>p. Min ((\<lambda>(k, r). i_created_at r) ` set (filter (\<lambda>(k, r). (i_session r, i_user r) = p) waiting)))
      in sort_key oldest (sort_key fst (remdups (map (\<lambda>(k, r). (i_session r, i_user r)) waiting))))"

end
