(* ===== verification/Inbox_Invariants.thy ===== *)
theory Inbox_Invariants
  imports Inbox_Recovery Driver_Theorems
begin

text \<open>
  The invariant of the inbox: \<open>item_ok\<close> is the shape of a row in each state (the CHECK constraints of
  \<^verbatim>\<open>agent_inbox\<close> and what the code adds), \<open>item_evolves\<close> how a row may change over time, \<open>log_ok\<close> the
  numbering of the Agent event log, and \<open>ibx_ok\<close> ties rows, user messages and events together. The
  locale \<open>item_loop\<close> is the contract of the loops over selected rows (claim, cancel, settle, close,
  rebind); every operation is then an \<open>ichange\<close>.
\<close>

section \<open>Rows\<close>

definition item_ok :: "item_row \<Rightarrow> bool" where
  "item_ok r \<longleftrightarrow> i_target r = target_of (i_delivery r) \<and> i_attempts r \<le> 1000 \<and>
     (case i_state r of
        InAccepted \<Rightarrow> i_message r = None \<and> i_run r = None \<and> i_generation r = None \<and> i_turn r = None \<and> i_step r = None \<and>
          i_outcome r = None \<and> i_result r = None \<and> i_claimed_at r = None \<and> i_canceled_at r = None \<and> i_settled_at r = None
      | InClaimed \<Rightarrow> i_message r \<noteq> None \<and> i_run r \<noteq> None \<and> i_generation r \<noteq> None \<and> i_turn r \<noteq> None \<and> i_step r \<noteq> None \<and>
          i_token r \<noteq> None \<and> i_owner r \<noteq> None \<and> i_claim_expires r \<noteq> None \<and>
          i_outcome r = None \<and> i_claimed_at r \<noteq> None \<and> i_canceled_at r = None \<and> i_settled_at r = None
      | InCanceled \<Rightarrow> i_message r = None \<and> i_run r = None \<and> i_outcome r \<noteq> None \<and> i_claimed_at r = None \<and>
          i_canceled_at r \<noteq> None \<and> i_settled_at r = None
      | InSettled \<Rightarrow> i_message r \<noteq> None \<and> i_run r \<noteq> None \<and> i_generation r \<noteq> None \<and> i_turn r \<noteq> None \<and> i_step r \<noteq> None \<and>
          i_outcome r \<noteq> None \<and> i_claim_expires r = None \<and> i_claimed_at r \<noteq> None \<and> i_canceled_at r = None \<and> i_settled_at r \<noteq> None)"

definition same_input :: "item_row \<Rightarrow> item_row \<Rightarrow> bool" where
  "same_input r r' \<longleftrightarrow> i_user r' = i_user r \<and> i_project r' = i_project r \<and> i_session r' = i_session r \<and>
     i_client_id r' = i_client_id r \<and> i_digest r' = i_digest r \<and> i_delivery r' = i_delivery r \<and> i_target r' = i_target r \<and>
     i_prompt r' = i_prompt r \<and> i_origin r' = i_origin r \<and> i_origin_ref r' = i_origin_ref r \<and>
     i_attachments r' = i_attachments r \<and> i_agent r' = i_agent r \<and> i_model r' = i_model r \<and>
     i_video_model r' = i_video_model r \<and> i_video_resolution r' = i_video_resolution r \<and> i_variant r' = i_variant r \<and>
     i_output_format r' = i_output_format r \<and> i_accepted_at r' = i_accepted_at r \<and> i_created_at r' = i_created_at r"

definition item_evolves :: "item_row \<Rightarrow> item_row \<Rightarrow> bool" where
  "item_evolves r r' \<longleftrightarrow> same_input r r' \<and> i_attempts r \<le> i_attempts r' \<and>
     (case i_state r of
        InAccepted \<Rightarrow> True
      | InClaimed \<Rightarrow> i_state r' \<in> {InClaimed, InSettled} \<and> i_message r' = i_message r \<and> i_turn r' = i_turn r \<and>
          i_step r' = i_step r \<and> i_claimed_at r' = i_claimed_at r
      | _ \<Rightarrow> r' = r)"

lemma item_evolves_refl [simp]: "item_evolves r r"
  by (simp add: item_evolves_def same_input_def split: item_state.split)

lemma item_evolves_trans: "item_evolves a b \<Longrightarrow> item_evolves b c \<Longrightarrow> item_evolves a c"
  unfolding item_evolves_def same_input_def by (cases "i_state a"; cases "i_state b"; simp)

lemmas item_rows = item_ok_def item_evolves_def same_input_def

section \<open>The event log\<close>

definition numbers :: "ident \<Rightarrow> agent_event list \<Rightarrow> int list" where
  "numbers sid log = map e_sequence (filter (\<lambda>e. e_session e = sid) log)"

definition log_keys :: "ident \<Rightarrow> agent_event list \<Rightarrow> string list" where
  "log_keys sid log = map e_key (filter (\<lambda>e. e_session e = sid) log)"

text \<open>Per conversation the sequence numbers are 1, 2, 3, ... in order and no key occurs twice.\<close>

definition log_ok :: "agent_event list \<Rightarrow> bool" where
  "log_ok log \<longleftrightarrow> (\<forall>sid. numbers sid log = [1..int (length (numbers sid log))] \<and> distinct (log_keys sid log))"

lemma next_sequence_ok:
  assumes "log_ok log"
  shows "next_sequence sid log = int (length (numbers sid log)) + 1"
proof -
  have max: "fold max [1..int n] 0 = int n" for n
  proof (induction n)
    case (Suc n)
    have "[1..int (Suc n)] = [1..int n] @ [int (Suc n)]" by (simp add: upto_rec2)
    with Suc show ?case by (simp add: max_def)
  qed simp
  from assms have "numbers sid log = [1..int (length (numbers sid log))]" by (simp add: log_ok_def)
  with max [of "length (numbers sid log)"] show ?thesis by (simp add: next_sequence_def numbers_def)
qed

definition event_is ::
  "ident \<Rightarrow> ident \<Rightarrow> string \<Rightarrow> (ident \<times> int) option \<Rightarrow> ident option \<Rightarrow> agent_event \<Rightarrow> bool" where
  "event_is sid user kind fence message e \<longleftrightarrow>
     e_session e = sid \<and> e_user e = user \<and> e_kind e = kind \<and> e_fence e = fence \<and> e_message e = message"

definition log_grows :: "agent_event list \<Rightarrow> agent_event list \<Rightarrow> bool" where
  "log_grows log log' \<longleftrightarrow> (\<exists>xs. log' = log @ xs) \<and> (log_ok log \<longrightarrow> log_ok log')"

lemma log_grows_refl [simp]: "log_grows log log"
  by (simp add: log_grows_def)

lemma log_grows_trans: "log_grows a b \<Longrightarrow> log_grows b c \<Longrightarrow> log_grows a c"
  unfolding log_grows_def by auto

lemma log_grows_set: "log_grows log log' \<Longrightarrow> e \<in> set log \<Longrightarrow> e \<in> set log'"
  by (auto simp: log_grows_def)

lemma log_ok_snoc:
  assumes "log_ok log" and "e_sequence e = next_sequence (e_session e) log"
    and "\<And>x. x \<in> set log \<Longrightarrow> e_session x = e_session e \<Longrightarrow> e_key x \<noteq> e_key e"
  shows "log_ok (log @ [e])"
proof -
  have "numbers sid (log @ [e]) = [1..int (length (numbers sid (log @ [e])))]" for sid
  proof (cases "e_session e = sid")
    case True
    then have n: "numbers sid (log @ [e]) = numbers sid log @ [int (length (numbers sid log)) + 1]"
      using assms(1,2) by (simp add: numbers_def next_sequence_ok)
    have "[1..int (length (numbers sid log)) + 1] = [1..int (length (numbers sid log))] @ [int (length (numbers sid log)) + 1]"
      by (simp add: upto_rec2)
    with n assms(1) show ?thesis unfolding log_ok_def by (simp add: add.commute)
  qed (use assms(1) in \<open>simp add: log_ok_def numbers_def\<close>)
  moreover have "distinct (log_keys sid (log @ [e]))" for sid
  proof -
    have "e_key e \<notin> e_key ` {x \<in> set log. e_session x = e_session e}"
    proof
      assume "e_key e \<in> e_key ` {x \<in> set log. e_session x = e_session e}"
      then obtain x where "e_key e = e_key x" "x \<in> set log" "e_session x = e_session e" by auto
      with assms(3) [of x] show False by simp
    qed
    with assms(1) show ?thesis by (auto simp: log_ok_def log_keys_def)
  qed
  ultimately show ?thesis by (simp add: log_ok_def)
qed

lemma append_agent_event_Inr:
  assumes "append_agent_event lib sid user kind payload fence turn step message key s = Inr s'"
  shows "s' = s\<lparr>agent_log := agent_log s'\<rparr>" and "log_grows (agent_log s) (agent_log s')"
    and "\<exists>e \<in> set (agent_log s'). event_is sid user kind fence message e"
proof -
  let ?k = "event_key lib kind fence turn step message key"
  have "s' = s\<lparr>agent_log := agent_log s'\<rparr> \<and> log_grows (agent_log s) (agent_log s') \<and>
      (\<exists>e \<in> set (agent_log s'). event_is sid user kind fence message e)"
  proof (cases "find (\<lambda>e. e_session e = sid \<and> e_key e = ?k) (agent_log s)")
    case None
    then have fresh: "e_key x \<noteq> ?k" if "x \<in> set (agent_log s)" "e_session x = sid" for x
      using that by (auto simp: find_None_iff)
    from None assms obtain e where e: "s' = s\<lparr>agent_log := agent_log s @ [e]\<rparr>" "event_is sid user kind fence message e"
        "e_sequence e = next_sequence sid (agent_log s)" "e_key e = ?k"
      by (auto simp: append_agent_event_def Let_def event_is_def split: if_splits)
    then have "log_ok (agent_log s) \<Longrightarrow> log_ok (agent_log s @ [e])"
      using fresh by (intro log_ok_snoc) (auto simp: event_is_def)
    with e show ?thesis by (auto simp: log_grows_def)
  next
    case (Some e)
    then have "e \<in> set (agent_log s)" "e_session e = sid" by (auto simp: find_Some_iff)
    moreover from Some assms have "s' = s" "e_user e = user" "e_kind e = kind" "e_fence e = fence" "e_message e = message"
      by (simp_all add: append_agent_event_def Let_def split: if_splits)
    ultimately show ?thesis by (auto simp: event_is_def)
  qed
  then show "s' = s\<lparr>agent_log := agent_log s'\<rparr>" and "log_grows (agent_log s) (agent_log s')"
    and "\<exists>e \<in> set (agent_log s'). event_is sid user kind fence message e" by auto
qed

section \<open>The invariant\<close>

text \<open>The event that documents the present owner of a claimed row, or the settlement of a settled one.\<close>

definition documented :: "agent_event list \<Rightarrow> item_row \<Rightarrow> bool" where
  "documented log r \<longleftrightarrow> (\<forall>kind run g.
     (i_state r = InClaimed \<and> kind = ''inbox.claimed'' \<or> i_state r = InSettled \<and> kind = ''inbox.settled'') \<and>
     i_run r = Some run \<and> i_generation r = Some g \<longrightarrow>
     (\<exists>e \<in> set log. event_is (i_session r) (i_user r) kind (Some (run, g)) (i_message r) e))"

definition has_message :: "(ident, msg_row) table \<Rightarrow> item_row \<Rightarrow> bool" where
  "has_message msgs r \<longleftrightarrow> (\<forall>m. i_message r = Some m \<longrightarrow>
     (\<exists>row. tget msgs m = Some row \<and> m_role row = ''user'' \<and> m_session row = i_session r \<and> m_user row = i_user r))"

definition same_key :: "item_row \<Rightarrow> item_row \<Rightarrow> bool" where
  "same_key r r' \<longleftrightarrow> i_user r = i_user r' \<and> i_session r = i_session r' \<and> i_client_id r = i_client_id r' \<and> i_client_id r \<noteq> None \<or>
     i_message r = i_message r' \<and> i_message r \<noteq> None"

definition ibx_ok :: "'a ibx \<Rightarrow> bool" where
  "ibx_ok s \<longleftrightarrow> twf (inbox s) \<and> twf (transcript s) \<and> twf (drivers (ibase s)) \<and> log_ok (agent_log s) \<and>
     (\<forall>i r. tget (inbox s) i = Some r \<longrightarrow> item_ok r \<and> documented (agent_log s) r \<and> has_message (transcript s) r) \<and>
     (\<forall>i j r r'. tget (inbox s) i = Some r \<longrightarrow> tget (inbox s) j = Some r' \<longrightarrow> same_key r r' \<longrightarrow> i = j)"

text \<open>Messages stay, with their role and owner.\<close>

definition messages_grow :: "(ident, msg_row) table \<Rightarrow> (ident, msg_row) table \<Rightarrow> bool" where
  "messages_grow t t' \<longleftrightarrow> (twf t \<longrightarrow> twf t') \<and> (\<forall>m row. tget t m = Some row \<longrightarrow>
     (\<exists>row'. tget t' m = Some row' \<and> m_role row' = m_role row \<and> m_session row' = m_session row \<and> m_user row' = m_user row))"

lemma messages_grow_refl [simp]: "messages_grow t t"
  by (simp add: messages_grow_def)

lemma messages_grow_trans: "messages_grow a b \<Longrightarrow> messages_grow b c \<Longrightarrow> messages_grow a c"
  unfolding messages_grow_def by metis

lemma has_message_grow: "messages_grow t t' \<Longrightarrow> has_message t r \<Longrightarrow> has_message t' r"
  unfolding messages_grow_def has_message_def by metis

lemma documented_grow: "log_grows log log' \<Longrightarrow> documented log r \<Longrightarrow> documented log' r"
  unfolding documented_def by (blast intro: log_grows_set)

definition ichange :: "'a ibx \<Rightarrow> 'a ibx \<Rightarrow> bool" where
  "ichange s s' \<longleftrightarrow> (ibx_ok s \<longrightarrow> ibx_ok s' \<and>
     (\<forall>i r. tget (inbox s) i = Some r \<longrightarrow> (\<exists>r'. tget (inbox s') i = Some r' \<and> item_evolves r r')) \<and>
     messages_grow (transcript s) (transcript s') \<and> log_grows (agent_log s) (agent_log s') \<and>
     (\<forall>sid. driver_gen sid (drivers (ibase s)) \<le> driver_gen sid (drivers (ibase s'))))"

lemma ichange_refl [simp]: "ichange s s"
  by (auto simp: ichange_def)

lemma ichange_trans [trans]: "ichange s s1 \<Longrightarrow> ichange s1 s2 \<Longrightarrow> ichange s s2"
  unfolding ichange_def
  by (blast intro: messages_grow_trans log_grows_trans order_trans item_evolves_trans)

text \<open>Everything but the rows of the inbox grows.\<close>

lemma ichange_around:
  assumes "inbox s' = inbox s" and "messages_grow (transcript s) (transcript s')" and "log_grows (agent_log s) (agent_log s')"
    and "twf (drivers (ibase s)) \<Longrightarrow> twf (drivers (ibase s')) \<and> (\<forall>sid. driver_gen sid (drivers (ibase s)) \<le> driver_gen sid (drivers (ibase s')))"
  shows "ichange s s'"
  using assms has_message_grow [OF assms(2)] documented_grow [OF assms(3)]
  unfolding ichange_def ibx_ok_def by (auto simp: messages_grow_def log_grows_def)

text \<open>One row changes, with its event.\<close>

lemma ichange_put:
  assumes "tget (inbox s) i = Some r" and "ibx_ok s \<Longrightarrow> item_ok r \<Longrightarrow> item_ok r' \<and> item_evolves r r'"
    and "i_message r' = i_message r \<or> has_message (transcript s') r' \<and> (\<forall>j x. tget (inbox s) j = Some x \<longrightarrow> i_message x \<noteq> i_message r')"
    and "documented (agent_log s') r'" and "inbox s' = tput i r' (inbox s)" and "ibase s' = ibase s"
    and "messages_grow (transcript s) (transcript s')" and "log_grows (agent_log s) (agent_log s')"
  shows "ichange s s'"
proof -
  have row: "item_ok x \<and> documented (agent_log s') x \<and> has_message (transcript s') x"
    if ok: "ibx_ok s" and x: "tget (inbox s') k = Some x" for k x
  proof (cases "k = i")
    case True
    with ok x assms(1-5) has_message_grow [OF assms(7), of r] show ?thesis
      by (auto simp: tget_tput ibx_ok_def has_message_def item_evolves_def same_input_def)
  next
    case False
    with ok x assms(5) has_message_grow [OF assms(7)] documented_grow [OF assms(8)] show ?thesis
      by (auto simp: tget_tput ibx_ok_def)
  qed
  have same: "same_key x r' \<Longrightarrow> same_key x r" "same_key r' x \<Longrightarrow> same_key r x"
    if ok: "ibx_ok s" and x: "tget (inbox s) j = Some x" for j x
  proof -
    have "item_ok r" using ok assms(1) by (auto simp: ibx_ok_def)
    then have "same_input r r'" using ok assms(2) by (simp add: item_evolves_def)
    then have c: "i_user r' = i_user r" "i_session r' = i_session r" "i_client_id r' = i_client_id r"
      by (simp_all add: same_input_def)
    have m: "i_message r' = i_message r \<or> i_message x \<noteq> i_message r'" using assms(3) x by blast
    show "same_key x r' \<Longrightarrow> same_key x r" "same_key r' x \<Longrightarrow> same_key r x"
      using m unfolding same_key_def c by auto
  qed
  have uniq: "j = k" if ok: "ibx_ok s" and x: "tget (inbox s') j = Some x" "tget (inbox s') k = Some y" "same_key x y" for j k x y
  proof -
    have old: "a = b" if "tget (inbox s) a = Some u" "tget (inbox s) b = Some v" "same_key u v" for a b u v
      using ok that by (auto simp: ibx_ok_def)
    show ?thesis
    proof (cases "j = i"; cases "k = i")
      assume "j = i" "k \<noteq> i"
      with x assms(1,5) show ?thesis using old [of i r k y] same(2) [OF ok, of k y] by (simp add: tget_tput)
    next
      assume "j \<noteq> i" "k = i"
      with x assms(1,5) show ?thesis using old [of j x i r] same(1) [OF ok, of j x] by (simp add: tget_tput)
    next
      assume "j \<noteq> i" "k \<noteq> i"
      with x assms(5) show ?thesis using old [of j x k y] by (simp add: tget_tput)
    qed simp
  qed
  have "ibx_ok s'" if ok: "ibx_ok s"
    unfolding ibx_ok_def using row [OF ok] uniq [OF ok] ok assms(5-8)
    by (simp add: ibx_ok_def twf_tput messages_grow_def log_grows_def)
  moreover have "item_evolves r r'" if ok: "ibx_ok s"
    using ok assms(1,2) by (simp add: ibx_ok_def)
  ultimately show ?thesis unfolding ichange_def using assms(1,5-8) by (simp add: tget_tput)
qed

end
