(* ===== verification/Inbox_Loops.thy ===== *)
theory Inbox_Loops
  imports Inbox_Invariants
begin

text \<open>
  Lists of selected rows, and the contract \<open>item_loop\<close> of the loops over them, with its five
  instances: cancellation, settlement, closing, claiming and the takeover of claims.
\<close>

section \<open>Selected rows\<close>

text \<open>A list of rows read in a state: each is the present row of its key, and no key occurs twice.\<close>

definition rows_in :: "'a ibx \<Rightarrow> (item_row \<Rightarrow> bool) \<Rightarrow> (ident \<times> item_row) list \<Rightarrow> bool" where
  "rows_in s P rows \<longleftrightarrow> distinct (map fst rows) \<and> (\<forall>(i, r) \<in> set rows. tget (inbox s) i = Some r \<and> P r)"

lemma rows_in_simps [simp]:
  "rows_in s P []"
  "rows_in s P ((i, r) # rows) \<longleftrightarrow> tget (inbox s) i = Some r \<and> P r \<and> i \<notin> fst ` set rows \<and> rows_in s P rows"
  by (auto simp: rows_in_def)

lemma rows_in_mono: "rows_in s P rows \<Longrightarrow> (\<And>r. P r \<Longrightarrow> Q r) \<Longrightarrow> rows_in s Q rows"
  by (auto simp: rows_in_def)

lemma set_queue_order [simp]: "set (queue_order rows) = set rows"
  by (simp add: queue_order_def)

lemma rows_of_mem:
  "(i, r) \<in> set (rows_of s sid user P) \<longleftrightarrow> (i, r) \<in> set (inbox s) \<and> i_session r = sid \<and> i_user r = user \<and> P r"
  by (auto simp: rows_of_def)

lemma distinct_fst_iff: "distinct (map fst xs) \<longleftrightarrow> distinct xs \<and> inj_on fst (set xs)"
  by (simp add: distinct_map)

lemma rows_in_subset:
  assumes "ibx_ok s" and "set rows \<subseteq> set (inbox s)" and "distinct rows" and "\<And>i r. (i, r) \<in> set rows \<Longrightarrow> P r"
  shows "rows_in s P rows"
proof -
  have wf: "twf (inbox s)" using assms(1) by (simp add: ibx_ok_def)
  then have "inj_on fst (set rows)" using assms(2) by (auto simp: twf_def distinct_map intro: inj_on_subset)
  moreover have "tget (inbox s) i = Some r" if "(i, r) \<in> set rows" for i r
    using that wf assms(2) tget_iff_in [of "inbox s"] by auto
  ultimately show ?thesis using assms(3,4) by (auto simp: rows_in_def distinct_map)
qed

lemma distinct_rows_of: "ibx_ok s \<Longrightarrow> distinct (rows_of s sid user P)"
  by (simp add: rows_of_def queue_order_def ibx_ok_def twf_def distinct_map)

lemma rows_in_rows_of:
  "ibx_ok s \<Longrightarrow> rows_in s (\<lambda>r. i_session r = sid \<and> i_user r = user \<and> P r) (rows_of s sid user P)"
  by (rule rows_in_subset) (auto simp: rows_of_mem distinct_rows_of)

lemma rows_in_filter: "rows_in s P rows \<Longrightarrow> rows_in s P (filter Q rows)"
  by (auto simp: rows_in_def distinct_map_filter)

lemma rows_in_take: "rows_in s P rows \<Longrightarrow> rows_in s P (take n rows)"
  by (auto simp: rows_in_def take_map [symmetric] dest: in_set_takeD)

section \<open>Loops over rows\<close>

locale item_loop =
  fixes F :: "nat \<Rightarrow> (ident \<times> item_row) list \<Rightarrow> 'a ibx \<Rightarrow> inbox_error + 'a ibx"
    and G :: "nat \<Rightarrow> ident \<Rightarrow> item_row \<Rightarrow> 'a ibx \<Rightarrow> inbox_error + 'a ibx"
    and f :: "nat \<Rightarrow> item_row \<Rightarrow> item_row"
    and P :: "item_row \<Rightarrow> bool"
  assumes F_Nil: "F n [] s = Inr s"
    and F_Cons: "F n ((i, r) # rows) s = rbind (G n i r s) (F (Suc n) rows)"
    and G_row: "G n i r s = Inr s' \<Longrightarrow> inbox s' = tput i (f n r) (inbox s) \<and> ibase s' = ibase s"
    and G_change: "tget (inbox s) i = Some r \<Longrightarrow> P r \<Longrightarrow> G n i r s = Inr s' \<Longrightarrow> ichange s s'"
begin

lemma loop_rows:
  assumes "F n rows s = Inr s'" and "distinct (map fst rows)"
  shows "ibase s' = ibase s \<and> (\<forall>k. k \<notin> fst ` set rows \<longrightarrow> tget (inbox s') k = tget (inbox s) k) \<and>
    (\<forall>j<length rows. tget (inbox s') (fst (rows ! j)) = Some (f (n + j) (snd (rows ! j))))"
  using assms
proof (induction rows arbitrary: n s)
  case Nil
  then show ?case by (simp add: F_Nil)
next
  case (Cons x rows)
  obtain i r where x: "x = (i, r)" by (cases x)
  with Cons.prems(1) obtain s1 where s1: "G n i r s = Inr s1" "F (Suc n) rows s1 = Inr s'"
    by (auto simp: F_Cons rbind_Inr_iff)
  note ih = Cons.IH [OF s1(2)]
  have i: "i \<notin> fst ` set rows" using Cons.prems(2) by (simp add: x)
  show ?case
    using ih i G_row [OF s1(1)] Cons.prems(2) by (auto simp: x tget_tput nth_Cons split: nat.split)
qed

lemma loop_mem:
  assumes "F n rows s = Inr s'" and "distinct (map fst rows)" and "(i, r) \<in> set rows"
  shows "\<exists>j. j < length rows \<and> rows ! j = (i, r) \<and> tget (inbox s') i = Some (f (n + j) r)"
  using loop_rows [OF assms(1,2)] assms(3) by (metis fst_conv in_set_conv_nth snd_conv)

lemma loop_change:
  assumes "F n rows s = Inr s'" and "rows_in s P rows"
  shows "ichange s s'"
  using assms
proof (induction rows arbitrary: n s)
  case Nil
  then show ?case by (simp add: F_Nil)
next
  case (Cons x rows)
  obtain i r where x: "x = (i, r)" by (cases x)
  with Cons.prems(1) obtain s1 where s1: "G n i r s = Inr s1" "F (Suc n) rows s1 = Inr s'"
    by (auto simp: F_Cons rbind_Inr_iff)
  have "rows_in s1 P rows"
    using Cons.prems(2) G_row [OF s1(1)] by (force simp: x rows_in_def tget_tput)
  with Cons.IH [OF s1(2)] G_change [OF _ _ s1(1)] Cons.prems(2) show ?case by (auto simp: x intro: ichange_trans)
qed

end

text \<open>The body of most loops: one row is written and one event appended.\<close>

lemma put_and_append:
  assumes "append_agent_event lib sid user kind payload fence turn step message key (put_item i r' s) = Inr s'"
  shows "inbox s' = tput i r' (inbox s) \<and> ibase s' = ibase s \<and> transcript s' = transcript s \<and>
    log_grows (agent_log s) (agent_log s') \<and> (\<exists>e \<in> set (agent_log s'). event_is sid user kind fence message e)"
  using append_agent_event_Inr [OF assms] unfolding put_item_def
  by (metis ibx.select_convs(1-4) ibx.surjective ibx.update_convs(2) ibx.update_convs(4))

lemma put_append_change:
  assumes "append_agent_event lib sid user kind payload fence turn step message key (put_item i r' s) = Inr s'"
    and "tget (inbox s) i = Some r" and "item_ok r \<Longrightarrow> item_ok r' \<and> item_evolves r r'" and "i_message r' = i_message r"
    and "i_state r' = InCanceled \<or>
         i_session r' = sid \<and> i_user r' = user \<and> i_message r' = message \<and>
         fence = Some (the (i_run r'), the (i_generation r')) \<and>
         (i_state r' = InClaimed \<and> kind = ''inbox.claimed'' \<or> i_state r' = InSettled \<and> kind = ''inbox.settled'')"
  shows "ichange s s'"
proof -
  note a = put_and_append [OF assms(1)]
  have "documented (agent_log s') r'"
    using a assms(5) by (auto simp: documented_def)
  then show ?thesis using a assms(3,4) by (intro ichange_put [OF assms(2)]) auto
qed

interpretation cancel_loop: item_loop "\<lambda>n. cancel_each lib sid user outcome err payload t"
    "\<lambda>n i r s. append_agent_event lib sid user ''inbox.canceled''
       ([(''item_id'', JStr i), (''state'', JStr ''canceled'')] @ payload r) None None None None
       (''inbox:'' @ i @ '':canceled'') (put_item i (cancel_row outcome err t r) s)"
    "\<lambda>n. cancel_row outcome err t" "\<lambda>r. i_state r = InAccepted"
  for lib sid user outcome err payload t
proof unfold_locales
  fix s :: "'a ibx" and i r s'
  assume "tget (inbox s) i = Some r" and acc: "i_state r = InAccepted"
    and "append_agent_event lib sid user ''inbox.canceled''
       ([(''item_id'', JStr i), (''state'', JStr ''canceled'')] @ payload r) None None None None
       (''inbox:'' @ i @ '':canceled'') (put_item i (cancel_row outcome err t r) s) = Inr s'"
  then show "ichange s s'"
    by (elim put_append_change) (auto simp: item_rows cancel_row_def)
qed (auto dest!: put_and_append)

lemma claimed_by_simps: "claimed_by run g r \<Longrightarrow> i_run r = Some run \<and> i_generation r = Some g \<and> i_state r = InClaimed"
  by (simp add: claimed_by_def)

definition owned_claim :: "ident \<Rightarrow> ident \<Rightarrow> ident \<times> int \<Rightarrow> item_row \<Rightarrow> bool" where
  "owned_claim sid user fence r \<longleftrightarrow> i_session r = sid \<and> i_user r = user \<and> claimed_by (fst fence) (snd fence) r"

lemma settle_item_ok:
  "item_ok r \<Longrightarrow> i_state r = InClaimed \<Longrightarrow>
   item_ok (settle_item result outcome err t r) \<and> item_evolves r (settle_item result outcome err t r)"
  by (auto simp: item_rows settle_item_def)

interpretation settle_loop: item_loop "\<lambda>n. settle_each lib sid user fence result outcome err t"
    "\<lambda>n i r s. if i_message r = None then Inl InboxError
       else append_agent_event lib sid user ''inbox.settled'' (settled_payload i result outcome err)
         (Some fence) (i_turn r) (i_step r) (i_message r) (settled_key i (fst fence) (snd fence))
         (put_item i (settle_item result outcome err t r) s)"
    "\<lambda>n. settle_item result outcome err t" "owned_claim sid user fence"
  for lib sid user fence result outcome err t
proof unfold_locales
  fix s :: "'a ibx" and i r s' n
  assume r: "tget (inbox s) i = Some r" and P: "owned_claim sid user fence r"
    and "(if i_message r = None then Inl InboxError
       else append_agent_event lib sid user ''inbox.settled'' (settled_payload i result outcome err)
         (Some fence) (i_turn r) (i_step r) (i_message r) (settled_key i (fst fence) (snd fence))
         (put_item i (settle_item result outcome err t r) s)) = Inr s'"
  then have "append_agent_event lib sid user ''inbox.settled'' (settled_payload i result outcome err)
         (Some fence) (i_turn r) (i_step r) (i_message r) (settled_key i (fst fence) (snd fence))
         (put_item i (settle_item result outcome err t r) s) = Inr s'" by (simp split: if_splits)
  from put_append_change [OF this r] show "ichange s s'"
    using P settle_item_ok by (auto simp: owned_claim_def claimed_by_def settle_item_def)
qed (auto dest!: put_and_append split: if_splits)

lemma append_only_log:
  assumes "append_agent_event lib sid user kind payload fence turn step message key s = Inr s'"
  shows "inbox s' = inbox s" "transcript s' = transcript s" "ibase s' = ibase s"
proof -
  obtain log where "s' = s\<lparr>agent_log := log\<rparr>" using append_agent_event_Inr(1) [OF assms] by blast
  then show "inbox s' = inbox s" "transcript s' = transcript s" "ibase s' = ibase s" by simp_all
qed

lemma event_around:
  "append_agent_event lib sid user kind payload fence turn step message key s = Inr s' \<Longrightarrow> ichange s s'"
  by (rule ichange_around) (simp_all add: append_only_log append_agent_event_Inr(2))

definition close_body ::
  "stdlib \<Rightarrow> ident \<Rightarrow> ident \<Rightarrow> ident \<times> int \<Rightarrow> never_ran \<Rightarrow> never_ran_errors \<Rightarrow> ident option \<Rightarrow> time \<Rightarrow> ident \<Rightarrow> item_row \<Rightarrow>
     'a ibx \<Rightarrow> inbox_error + 'a ibx" where
  "close_body lib sid user fence why errs closing t i r s =
     (case i_message r of
        None \<Rightarrow> Inl InboxError
      | Some m \<Rightarrow>
          rbind (append_agent_event lib sid user ''surface.model_exclusion''
                   [(''message_ids'', JList (map JStr (m # (case closing of None \<Rightarrow> [] | Some c \<Rightarrow> [c])))),
                    (''reason'', JStr (never_ran_reason why)), (''source_item_id'', JStr i)]
                   (Some fence) (i_turn r) (i_step r) (Some m)
                   (''inbox:'' @ i @ '':model-exclusion:'' @ fst fence @ '':'' @ int_text (snd fence))
                   (put_item i (settle_item closing (never_ran_outcome why) (Some (row_error errs r)) t r) s))
            (append_agent_event lib sid user ''inbox.settled''
                     (settled_payload i closing (never_ran_outcome why) (Some (row_error errs r)))
                     (Some fence) (i_turn r) (i_step r) (Some m) (settled_key i (fst fence) (snd fence))))"

lemma close_body_Inr:
  assumes "close_body lib sid user fence why errs closing t i r s = Inr s'"
  shows "inbox s' = tput i (settle_item closing (never_ran_outcome why) (Some (row_error errs r)) t r) (inbox s) \<and>
    ibase s' = ibase s \<and> transcript s' = transcript s \<and> log_grows (agent_log s) (agent_log s') \<and>
    (\<exists>e \<in> set (agent_log s'). event_is sid user ''inbox.settled'' (Some fence) (i_message r) e)"
proof -
  from assms obtain m s1 turn p1 k1 k2 step p2 where m: "i_message r = Some m"
    and 1: "append_agent_event lib sid user ''surface.model_exclusion'' p1 (Some fence) turn step (Some m) k1
        (put_item i (settle_item closing (never_ran_outcome why) (Some (row_error errs r)) t r) s) = Inr s1"
    and 2: "append_agent_event lib sid user ''inbox.settled'' p2 (Some fence) turn step (Some m) k2 s1 = Inr s'"
    by (auto simp: close_body_def rbind_Inr_iff split: option.splits)
  from append_agent_event_Inr(2,3) [OF 2] append_only_log [OF 2] put_and_append [OF 1] show ?thesis
    by (auto simp: m intro: log_grows_trans)
qed

interpretation close_loop: item_loop "\<lambda>n. close_each lib sid user fence why errs closing t"
    "\<lambda>n. close_body lib sid user fence why errs closing t"
    "\<lambda>n r. settle_item closing (never_ran_outcome why) (Some (row_error errs r)) t r" "owned_claim sid user fence"
  for lib sid user fence why errs closing t
proof unfold_locales
  fix s :: "'a ibx" and i r s' n
  assume r: "tget (inbox s) i = Some r" and P: "owned_claim sid user fence r"
    and "close_body lib sid user fence why errs closing t i r s = Inr s'"
  note b = close_body_Inr [OF this(3)]
  let ?r = "settle_item closing (never_ran_outcome why) (Some (row_error errs r)) t r"
  have "documented (agent_log s') ?r"
    using b P by (auto simp: documented_def owned_claim_def claimed_by_def settle_item_def)
  then show "ichange s s'"
    using b P settle_item_ok by (intro ichange_put [OF r]) (auto simp: owned_claim_def claimed_by_def settle_item_def)
next
  fix n i r rows and s :: "'a ibx"
  show "close_each lib sid user fence why errs closing t ((i, r) # rows) s =
      rbind (close_body lib sid user fence why errs closing t i r s) (close_each lib sid user fence why errs closing t rows)"
    by (auto simp: close_body_def rbind_def split: option.split sum.split)
qed (auto dest!: close_body_Inr)

section \<open>Claiming and taking over\<close>

lemma ichangeI: "(ibx_ok s \<Longrightarrow> ichange s s') \<Longrightarrow> ichange s s'"
  by (auto simp: ichange_def)

lemma insert_message_Inr:
  "insert_message i m s = Inr s' \<longleftrightarrow> tget (transcript s) i = None \<and> s' = s\<lparr>transcript := tput i m (transcript s)\<rparr>"
  by (auto simp: insert_message_def)

lemma messages_grow_tput: "tget msgs i = None \<Longrightarrow> messages_grow msgs (tput i m msgs)"
  by (auto simp: messages_grow_def tget_tput twf_tput)

definition claim_body ::
  "stdlib \<Rightarrow> lease \<Rightarrow> ident \<Rightarrow> ident \<Rightarrow> string \<Rightarrow> time \<Rightarrow> (nat \<Rightarrow> ident) \<Rightarrow> (nat \<Rightarrow> string) \<Rightarrow> nat \<Rightarrow>
     ident \<Rightarrow> item_row \<Rightarrow> 'a ibx \<Rightarrow> inbox_error + 'a ibx" where
  "claim_body lib l worker turn step t mids toks n i r s =
     rbind (insert_message (mids n) \<lparr>m_session = l_session_id l, m_user = l_user_id l, m_role = ''user'', m_parent = None,
              m_finish = None, m_error = None, m_created = t + int n\<rparr> s) (\<lambda>s1.
       append_agent_event lib (l_session_id l) (l_user_id l) ''inbox.claimed'' (claim_payload i r (mids n) (toks n))
         (Some (l_run_id l, l_generation l)) (Some turn) (Some step) (Some (mids n))
         (''inbox:'' @ i @ '':claimed:'' @ l_run_id l @ '':'' @ int_text (l_generation l) @ '':'' @ step)
         (put_item i (claim_row l (mids n) turn step (toks n) worker t r) s1))"

lemma claim_body_Inr:
  assumes "claim_body lib l worker turn step t mids toks n i r s = Inr s'"
  shows "inbox s' = tput i (claim_row l (mids n) turn step (toks n) worker t r) (inbox s) \<and> ibase s' = ibase s \<and>
    tget (transcript s) (mids n) = None \<and>
    (\<exists>m. transcript s' = tput (mids n) m (transcript s) \<and> m_role m = ''user'' \<and> m_session m = l_session_id l \<and> m_user m = l_user_id l) \<and>
    log_grows (agent_log s) (agent_log s') \<and>
    (\<exists>e \<in> set (agent_log s'). event_is (l_session_id l) (l_user_id l) ''inbox.claimed'' (Some (l_run_id l, l_generation l)) (Some (mids n)) e)"
proof -
  let ?m = "\<lparr>m_session = l_session_id l, m_user = l_user_id l, m_role = ''user'', m_parent = None,
      m_finish = None, m_error = None, m_created = t + int n\<rparr>"
  from assms have m: "tget (transcript s) (mids n) = None"
    and a: "append_agent_event lib (l_session_id l) (l_user_id l) ''inbox.claimed'' (claim_payload i r (mids n) (toks n))
         (Some (l_run_id l, l_generation l)) (Some turn) (Some step) (Some (mids n))
         (''inbox:'' @ i @ '':claimed:'' @ l_run_id l @ '':'' @ int_text (l_generation l) @ '':'' @ step)
         (put_item i (claim_row l (mids n) turn step (toks n) worker t r) (s\<lparr>transcript := tput (mids n) ?m (transcript s)\<rparr>)) = Inr s'"
    by (auto simp: claim_body_def rbind_Inr_iff insert_message_Inr)
  from put_and_append [OF a] m show ?thesis by (auto intro!: exI [of _ ?m])
qed

lemma claim_body_change:
  assumes r: "tget (inbox s) i = Some r" and acc: "i_state r = InAccepted"
    and own: "i_session r = l_session_id l" "i_user r = l_user_id l"
    and b: "claim_body lib l worker turn step t mids toks n i r s = Inr s'"
  shows "ichange s s'"
proof (rule ichangeI)
  assume ok: "ibx_ok s"
  note b = claim_body_Inr [OF b]
  let ?r = "claim_row l (mids n) turn step (toks n) worker t r"
  from b have grow: "messages_grow (transcript s) (transcript s')" by (auto simp: messages_grow_tput)
  have fresh: "i_message x \<noteq> i_message ?r" if "tget (inbox s) j = Some x" for j x
  proof -
    have "has_message (transcript s) x" using ok that by (auto simp: ibx_ok_def)
    then show ?thesis using b by (auto simp: has_message_def claim_row_def)
  qed
  moreover have "has_message (transcript s') ?r"
    using b own by (auto simp: has_message_def claim_row_def tget_tput)
  moreover have "documented (agent_log s') ?r"
    using b own by (auto simp: documented_def claim_row_def)
  moreover have "item_ok r \<Longrightarrow> item_ok ?r \<and> item_evolves r ?r"
    using acc by (auto simp: item_rows claim_row_def)
  ultimately show "ichange s s'"
    using b grow by (intro ichange_put [OF r]) auto
qed

interpretation claim_loop: item_loop "materialize lib l worker turn step t mids toks"
    "claim_body lib l worker turn step t mids toks"
    "\<lambda>n. claim_row l (mids n) turn step (toks n) worker t"
    "\<lambda>r. i_state r = InAccepted \<and> i_session r = l_session_id l \<and> i_user r = l_user_id l"
  for lib l worker turn step t mids toks
proof unfold_locales
  fix n i r rows and s :: "'a ibx"
  show "materialize lib l worker turn step t mids toks n ((i, r) # rows) s =
      rbind (claim_body lib l worker turn step t mids toks n i r s) (materialize lib l worker turn step t mids toks (Suc n) rows)"
    by (auto simp: claim_body_def rbind_def split: sum.split)
qed (auto dest: claim_body_Inr claim_body_change)

interpretation rebind_loop: item_loop "\<lambda>n. rebind_each lib l old worker toks n t"
    "\<lambda>n i r s. append_agent_event lib (l_session_id l) (l_user_id l) ''inbox.claimed''
              [(''item_id'', JStr i), (''state'', JStr ''claimed''), (''message_id'', opt_str (i_message r)),
               (''claim_token'', JStr (toks n)),
               (''recovered_from'', JDict [(''run_id'', JStr (fst old)), (''generation'', JInt (snd old))]),
               (''origin'', JStr (origin_name (i_origin r))), (''origin_ref'', i_origin_ref r)]
              (Some (l_run_id l, l_generation l)) (i_turn r) (i_step r) (i_message r)
              (''inbox:'' @ i @ '':rebound:'' @ l_run_id l @ '':'' @ int_text (l_generation l))
              (put_item i (rebind_row l (toks n) worker t r) s)"
    "\<lambda>n. rebind_row l (toks n) worker t" "owned_claim (l_session_id l) (l_user_id l) old"
  for lib l old worker toks t
proof unfold_locales
  fix s :: "'a ibx" and i r s' n
  assume r: "tget (inbox s) i = Some r" and P: "owned_claim (l_session_id l) (l_user_id l) old r"
    and "append_agent_event lib (l_session_id l) (l_user_id l) ''inbox.claimed''
              [(''item_id'', JStr i), (''state'', JStr ''claimed''), (''message_id'', opt_str (i_message r)),
               (''claim_token'', JStr (toks n)),
               (''recovered_from'', JDict [(''run_id'', JStr (fst old)), (''generation'', JInt (snd old))]),
               (''origin'', JStr (origin_name (i_origin r))), (''origin_ref'', i_origin_ref r)]
              (Some (l_run_id l, l_generation l)) (i_turn r) (i_step r) (i_message r)
              (''inbox:'' @ i @ '':rebound:'' @ l_run_id l @ '':'' @ int_text (l_generation l))
              (put_item i (rebind_row l (toks n) worker t r) s) = Inr s'"
  from put_append_change [OF this(3) r] show "ichange s s'"
    using P by (auto simp: item_rows owned_claim_def claimed_by_def rebind_row_def)
qed (auto dest!: put_and_append)

end
