(* ===== verification/Inbox_Steps.thy ===== *)
theory Inbox_Steps
  imports Inbox_Loops
begin

text \<open>
  Every transaction of the inbox is an \<open>ichange\<close>: acceptance, claim, cancellation, settlement,
  delivery and recovery; \<open>inbox_step\<close> is the transition relation in which they interleave with the
  driver and with the other writers of the database, and the operations that span several
  transactions are sequences of its steps.
\<close>

section \<open>Selection\<close>

abbreviation waiting :: "ident \<Rightarrow> ident \<Rightarrow> item_row \<Rightarrow> bool" where
  "waiting sid user r \<equiv> i_state r = InAccepted \<and> i_session r = sid \<and> i_user r = user"

lemma superseding_rows:
  assumes "(i, r) \<in> set (first_superseding_input_locked s sid user)"
  shows "(i, r) \<in> set (inbox s) \<and> waiting sid user r"
  using assms by (auto simp: first_superseding_input_locked_def rows_of_mem dest: in_set_takeD)

lemma distinct_superseding: "ibx_ok s \<Longrightarrow> distinct (first_superseding_input_locked s sid user)"
  by (simp add: first_superseding_input_locked_def distinct_rows_of)

lemma selected_rows_in:
  assumes "ibx_ok s"
  shows "rows_in s (waiting sid user) (selected_boundary_rows iops s sid user incl)"
proof (rule rows_in_subset [OF assms])
  have "distinct (take m (rows_of s sid user (\<lambda>r. i_state r = InAccepted \<and> i_target r = NextStep)) @
      take n (rows_of s sid user (\<lambda>r. i_state r = InAccepted \<and> i_target r = NextTurn)))" for m n
    using distinct_rows_of [OF assms] by (auto simp: rows_of_mem dest!: in_set_takeD)
  then show "distinct (selected_boundary_rows iops s sid user incl)"
    using distinct_superseding [OF assms] by (auto simp: selected_boundary_rows_def Let_def)
  show "set (selected_boundary_rows iops s sid user incl) \<subseteq> set (inbox s)"
    by (auto simp: selected_boundary_rows_def Let_def rows_of_mem dest!: in_set_takeD superseding_rows split: if_splits)
  show "waiting sid user r" if "(i, r) \<in> set (selected_boundary_rows iops s sid user incl)" for i r
    using that by (auto simp: selected_boundary_rows_def Let_def rows_of_mem dest: in_set_takeD superseding_rows split: if_splits)
qed

definition mode_head :: "'a ibx \<Rightarrow> ident \<Rightarrow> ident \<Rightarrow> mode \<Rightarrow> (ident \<times> item_row) list" where
  "mode_head s sid user m = take 1 (rows_of s sid user (\<lambda>r. i_state r = InAccepted \<and> mode_of r = m))"

lemma mode_head_mem:
  "(i, r) \<in> set (mode_head s sid user m) \<Longrightarrow> (i, r) \<in> set (inbox s) \<and> waiting sid user r \<and> mode_of r = m"
  by (auto simp: mode_head_def rows_of_mem dest: in_set_takeD)

lemma distinct_mode_head: "ibx_ok s \<Longrightarrow> distinct (mode_head s sid user m)"
  by (simp add: mode_head_def distinct_rows_of)

text \<open>What a main turn selects: nothing, the superseding input, or the head of one mode.\<close>

lemma main_turn_cases:
  "select_main_turn_locked iops s t sid user incl \<in>
     {[], first_superseding_input_locked s sid user} \<union> range (mode_head s sid user)"
  unfolding select_main_turn_locked_def mode_head_def [symmetric] Let_def by auto

lemma main_turn_rows_in:
  assumes "ibx_ok s"
  shows "rows_in s (waiting sid user) (select_main_turn_locked iops s t sid user incl)"
proof -
  have "rows_in s (waiting sid user) (mode_head s sid user m)" for m
    using assms by (intro rows_in_subset) (auto dest: mode_head_mem simp: distinct_mode_head)
  moreover have "rows_in s (waiting sid user) (first_superseding_input_locked s sid user)"
    using assms by (intro rows_in_subset) (auto dest: superseding_rows simp: distinct_superseding)
  ultimately show ?thesis using main_turn_cases [of iops s t sid user incl] by auto
qed

lemma claimed_rows_in:
  "ibx_ok s \<Longrightarrow> rows_in s (owned_claim sid user (run, g)) (claimed_rows s sid user run g)"
  unfolding claimed_rows_def owned_claim_def fst_conv snd_conv by (rule rows_in_rows_of)

section \<open>Transactions\<close>

lemma set_assistant_change: "ichange s (set_assistant a s)"
  by (rule ichange_around) (simp_all add: set_assistant_def)

lemma cancel_then:
  assumes "rbind (cancel_each lib sid user outcome err payload t rows s) k = Inr y"
    and "rows_in s (\<lambda>r. i_state r = InAccepted) rows" and "\<And>s1. k s1 = Inr y \<Longrightarrow> ichange s1 s'"
  shows "ichange s s'"
  using assms by (auto simp: rbind_Inr_iff intro: ichange_trans cancel_loop.loop_change)

lemma cancel_inbox_items_change:
  assumes "cancel_inbox_items lib iops s t sid user ids reason code = Inr (s', out)"
  shows "ichange s s'"
proof (rule ichangeI)
  assume ok: "ibx_ok s"
  let ?rows = "case ids of None \<Rightarrow> rows_of s sid user (\<lambda>r. i_state r = InAccepted)
      | Some xs \<Rightarrow> filter (\<lambda>(k, r). k \<in> set xs) (rows_of s sid user (\<lambda>r. i_state r = InAccepted))"
  have rows: "rows_in s (\<lambda>r. i_state r = InAccepted) ?rows"
    using rows_in_rows_of [OF ok, of sid user "\<lambda>r. i_state r = InAccepted"]
    by (auto intro: rows_in_filter rows_in_mono split: option.split)
  show "ichange s s'"
  proof (cases "?rows = []")
    case True
    with assms show ?thesis by (auto simp: cancel_inbox_items_def rbind_Inr_iff Let_def)
  next
    case False
    with assms show ?thesis
      by (simp only: cancel_inbox_items_def rbind_Inr_iff [of "prepare_agent_event_write _ _ _ _ _ _"] Let_def if_False)
         (elim exE conjE, erule cancel_then [OF _ rows], auto simp: set_assistant_change)
  qed
qed

lemma expire_task_steers_change:
  assumes "expire_task_steers_locked lib iops s t sid owner ending = Inr s'"
  shows "ichange s s'"
proof (rule ichangeI)
  assume ok: "ibx_ok s"
  have rows: "rows_in s (\<lambda>r. i_state r = InAccepted) (expired_steers iops s t sid owner ending)"
    using ok by (intro rows_in_subset)
      (auto simp: expired_steers_def Let_def rows_of_mem distinct_rows_of split: if_splits option.splits)
  show "ichange s s'"
  proof (cases "expired_steers iops s t sid owner ending = []")
    case True
    with assms show ?thesis by (simp add: expire_task_steers_locked_def)
  next
    case False
    with assms show ?thesis
      by (simp only: expire_task_steers_locked_def Let_def if_False) (erule cancel_then [OF _ rows], auto simp: set_assistant_change)
  qed
qed

lemma record_main_claim_change: "record_main_claim_locked lib sid owner rows fence turn s = Inr s' \<Longrightarrow> ichange s s'"
  by (auto simp: record_main_claim_locked_def event_around split: if_splits)

lemma quiet_change:
  assumes "twf (drivers (ibase s)) \<Longrightarrow> quiet t (drivers (ibase s)) (drivers db)"
  shows "ichange s (s\<lparr>ibase := db\<rparr>)"
  by (rule ichange_around) (use assms in \<open>auto simp: quiet_gen quiet_def\<close>)

lemma claim_selected_change:
  assumes "claim_selected lib iops s t ce l owner step rows = Inr s'"
    and "rows_in s (waiting (l_session_id l) (l_user_id l)) rows"
  shows "ichange s s'"
proof -
  define turn where "turn = turn_identity s l (ce_messages ce (length rows - 1))"
  define t' where "t' = message_clock s (l_session_id l) (l_user_id l) t"
  from assms(1) obtain s1 a s2 where
      1: "materialize lib l (ce_worker ce) turn (step_name l step) t' (ce_messages ce) (ce_tokens ce) 0 rows s = Inr s1"
    and 2: "record_main_claim_locked lib (l_session_id l) owner rows (l_run_id l, l_generation l) turn (set_assistant a s1) = Inr s2"
    and x: "(case bind_trigger_message_locked (ibase s2) t (l_session_id l) (l_user_id l) (l_run_id l) (l_generation l) turn of
             Inl e \<Rightarrow> Inl (InboxFence e)
           | Inr db \<Rightarrow> Inr (s2\<lparr>ibase := db\<lparr>sessions := tput (l_session_id l) (owner\<lparr>s_updated_at := t'\<rparr>) (sessions db)\<rparr>\<rparr>)) = Inr s'"
    unfolding claim_selected_def Let_def turn_def [symmetric] t'_def [symmetric] rbind_Inr_iff by blast
  from x obtain db where 3: "bind_trigger_message_locked (ibase s2) t (l_session_id l) (l_user_id l) (l_run_id l) (l_generation l) turn = Inr db"
    and s': "s' = s2\<lparr>ibase := db\<lparr>sessions := tput (l_session_id l) (owner\<lparr>s_updated_at := t'\<rparr>) (sessions db)\<rparr>\<rparr>"
    by (auto split: sum.splits)
  have "ichange s s1" using claim_loop.loop_change [OF 1] assms(2) by (simp add: rows_in_def)
  also have "ichange s1 (set_assistant a s1)" by (rule set_assistant_change)
  also have "ichange (set_assistant a s1) s2" using 2 by (rule record_main_claim_change)
  also have "ichange s2 s'" unfolding s'
    by (rule quiet_change [of _ t]) (use bind_trigger_message_locked_drivers [OF _ 3] in simp)
  finally show ?thesis .
qed

text \<open>What a claim selects, in the state after the expiry.\<close>

definition boundary_rows ::
  "'a inbox_ops \<Rightarrow> 'a ibx \<Rightarrow> time \<Rightarrow> session_row \<Rightarrow> lease \<Rightarrow> bool \<Rightarrow> (ident \<times> item_row) list" where
  "boundary_rows iops s t owner l incl =
     (if task_held iops (assistant (ibase s)) (l_session_id l) owner then []
      else if s_kind owner = ''assistant'' then select_main_turn_locked iops s t (l_session_id l) (l_user_id l) incl
      else selected_boundary_rows iops s (l_session_id l) (l_user_id l) incl)"

definition assets_ready :: "'a inbox_ops \<Rightarrow> 'a ibx \<Rightarrow> session_row \<Rightarrow> lease \<Rightarrow> ident \<times> item_row \<Rightarrow> bool" where
  "assets_ready iops s owner l kr \<longleftrightarrow>
     list_all (asset_ready iops (assistant (ibase s)) (l_user_id l) (s_workspace_id owner)) (i_attachments (snd kr))"

lemma claim_once_unfold:
  "claim_inbox_boundary_once lib iops s t ce l step incl =
     (if step < 1 then Inl InboxValueError
      else rbind (prepare_agent_event_write iops s t (l_session_id l) (l_user_id l) (Some (lease_fence l))) (\<lambda>owner.
        rbind (expire_task_steers_locked lib iops s t (l_session_id l) owner None) (\<lambda>s1.
          let rows = boundary_rows iops s1 t owner l incl
          in if rows = [] then Inr (s1, [])
             else if filter (\<lambda>kr. \<not> assets_ready iops s1 owner l kr) rows \<noteq> []
             then Inl (InboxAttachmentError (map fst (filter (\<lambda>kr. \<not> assets_ready iops s1 owner l kr) rows)))
             else rbind (claim_selected lib iops s1 t ce l owner step rows) (\<lambda>s2. Inr (s2, map fst rows)))))"
  unfolding claim_inbox_boundary_once_def
  by (intro if_cong refl arg_cong2 [where f = rbind] ext) (simp add: boundary_rows_def assets_ready_def case_prod_unfold Let_def)

lemma claim_boundary_once_Inr:
  assumes "claim_inbox_boundary_once lib iops s t ce l step incl = Inr (s', ids)"
  obtains owner s1 where
    "prepare_agent_event_write iops s t (l_session_id l) (l_user_id l) (Some (lease_fence l)) = Inr owner"
    "expire_task_steers_locked lib iops s t (l_session_id l) owner None = Inr s1"
    "ids = map fst (boundary_rows iops s1 t owner l incl)"
    "if boundary_rows iops s1 t owner l incl = [] then s' = s1
     else claim_selected lib iops s1 t ce l owner step (boundary_rows iops s1 t owner l incl) = Inr s'"
  using assms unfolding claim_once_unfold Let_def by (auto simp: rbind_Inr_iff split: if_splits)

lemma boundary_rows_waiting:
  assumes "ibx_ok s"
  shows "rows_in s (waiting (l_session_id l) (l_user_id l)) (boundary_rows iops s t owner l incl)"
  using selected_rows_in [OF assms] main_turn_rows_in [OF assms] by (simp add: boundary_rows_def)

lemma claim_boundary_once_change:
  assumes "claim_inbox_boundary_once lib iops s t ce l step incl = Inr (s', ids)"
  shows "ichange s s'"
proof (rule ichangeI)
  assume ok: "ibx_ok s"
  from assms show "ichange s s'"
  proof (cases rule: claim_boundary_once_Inr)
    case (1 owner s1)
    note c1 = expire_task_steers_change [OF 1(2)]
    with ok have "ibx_ok s1" by (simp add: ichange_def)
    from boundary_rows_waiting [OF this, of l iops t owner incl] 1(4) have "ichange s1 s'"
      by (auto split: if_splits intro: claim_selected_change)
    with c1 show ?thesis by (rule ichange_trans)
  qed
qed

lemma settle_claimed_Inr:
  assumes "settle_claimed_inbox_items lib iops s t l result outcome err = Inr (s', ids)"
  shows "\<exists>s1 owner a. prepare_agent_event_write iops s t (l_session_id l) (l_user_id l) (Some (lease_fence l)) = Inr owner \<and>
    settle_each lib (l_session_id l) (l_user_id l) (l_run_id l, l_generation l) result (take 24 outcome) err t
      (claimed_rows s (l_session_id l) (l_user_id l) (l_run_id l) (l_generation l)) s = Inr s1 \<and>
    s' = set_assistant a s1 \<and> ids = map fst (claimed_rows s (l_session_id l) (l_user_id l) (l_run_id l) (l_generation l))"
  using assms by (auto simp: settle_claimed_inbox_items_def rbind_Inr_iff Let_def split: if_splits)

lemma settle_claimed_change:
  assumes "settle_claimed_inbox_items lib iops s t l result outcome err = Inr (s', ids)"
  shows "ichange s s'"
proof (rule ichangeI)
  assume "ibx_ok s"
  then have "rows_in s (owned_claim (l_session_id l) (l_user_id l) (l_run_id l, l_generation l))
      (claimed_rows s (l_session_id l) (l_user_id l) (l_run_id l) (l_generation l))"
    by (rule claimed_rows_in)
  with settle_claimed_Inr [OF assms] show "ichange s s'"
    by (auto intro: ichange_trans [OF settle_loop.loop_change set_assistant_change])
qed

lemma create_delivery_error_Inr:
  assumes "create_delivery_error_locked s fresh sid user parent err t = Inr (s', t')"
  shows "tget (transcript s) fresh = None \<and> (\<exists>m. s' = s\<lparr>transcript := tput fresh m (transcript s)\<rparr>)"
  using assms by (auto simp: create_delivery_error_locked_def Let_def rbind_Inr_iff insert_message_Inr split: option.splits if_splits)

lemma close_never_ran_Inr:
  assumes "close_never_ran_locked lib s fresh sid user fence why errs close_turn t rows = Inr (s', closing)"
  shows "\<exists>s1 t'. close_each lib sid user fence why errs closing t' rows s1 = Inr s' \<and> inbox s1 = inbox s \<and>
    ibase s1 = ibase s \<and> ichange s s1"
proof (cases "close_turn \<and> rows \<noteq> []")
  case True
  with assms obtain s1 t' parent where 1: "create_delivery_error_locked s fresh sid user parent (closing_error errs) t = Inr (s1, t')"
    and 2: "close_each lib sid user fence why errs closing t' rows s1 = Inr s'"
    by (auto simp: close_never_ran_locked_def rbind_Inr_iff)
  from create_delivery_error_Inr [OF 1] have "inbox s1 = inbox s" "ibase s1 = ibase s" "ichange s s1"
    by (auto intro!: ichange_around messages_grow_tput)
  with 2 show ?thesis by blast
next
  case False
  with assms have "close_each lib sid user fence why errs closing t rows s = Inr s'"
    by (auto simp: close_never_ran_locked_def rbind_Inr_iff)
  then show ?thesis by (intro exI [of _ s] exI [of _ t]) simp
qed

lemma close_never_ran_change:
  assumes "close_never_ran_locked lib s fresh sid user fence why errs close_turn t rows = Inr (s', closing)"
    and "rows_in s (owned_claim sid user fence) rows"
  shows "ichange s s'"
proof -
  from close_never_ran_Inr [OF assms(1)] obtain s1 t' where 1: "close_each lib sid user fence why errs closing t' rows s1 = Inr s'"
      "inbox s1 = inbox s" "ichange s s1" by blast
  from 1(2) assms(2) have "rows_in s1 (owned_claim sid user fence) rows" by (simp add: rows_in_def)
  with 1 show ?thesis by (blast intro: ichange_trans close_loop.loop_change)
qed

lemma close_then:
  assumes "rbind (close_never_ran_locked lib s fresh sid user fence why errs close_turn t rows) k = Inr y"
    and "rows_in s (owned_claim sid user fence) rows" and "\<And>s1 c. k (s1, c) = Inr y \<Longrightarrow> ichange s1 s'"
  shows "ichange s s'"
proof -
  from assms(1) obtain s1 c where "close_never_ran_locked lib s fresh sid user fence why errs close_turn t rows = Inr (s1, c)"
      "k (s1, c) = Inr y"
    by (auto simp: rbind_Inr_iff)
  then show ?thesis using close_never_ran_change [OF _ assms(2)] assms(3) by (blast intro: ichange_trans)
qed

lemma settle_delivery_failures_change:
  assumes "settle_delivery_failures lib iops s t fresh errs l ids close_turn = Inr (s', out)"
  shows "ichange s s'"
proof (rule ichangeI)
  assume ok: "ibx_ok s"
  let ?rows = "filter (\<lambda>(k, r). k \<in> set ids) (claimed_rows s (l_session_id l) (l_user_id l) (l_run_id l) (l_generation l))"
  have rows: "rows_in s (owned_claim (l_session_id l) (l_user_id l) (l_run_id l, l_generation l)) ?rows"
    using ok by (intro rows_in_filter claimed_rows_in)
  show "ichange s s'"
  proof (cases "ids = [] \<or> ?rows = []")
    case True
    with assms show ?thesis by (auto simp: settle_delivery_failures_def rbind_Inr_iff Let_def split: if_splits)
  next
    case False
    then have "ids \<noteq> []" "?rows \<noteq> []" by auto
    with assms show ?thesis
      by (simp only: settle_delivery_failures_def rbind_Inr_iff [of "prepare_agent_event_write _ _ _ _ _ _"] Let_def if_False)
         (elim exE conjE, erule close_then [OF _ rows], auto simp: set_assistant_change split: if_splits)
  qed
qed

lemma settle_refused_change:
  assumes "settle_refused_claims lib iops s t fresh errs l = Inr (s', out)"
  shows "ichange s s'"
proof (rule ichangeI)
  assume ok: "ibx_ok s"
  let ?rows = "claimed_rows s (l_session_id l) (l_user_id l) (l_run_id l) (l_generation l)"
  have rows: "rows_in s (owned_claim (l_session_id l) (l_user_id l) (l_run_id l, l_generation l)) ?rows"
    using ok by (rule claimed_rows_in)
  from assms consider "s' = s" | s1 closing a where
      "close_never_ran_locked lib s fresh (l_session_id l) (l_user_id l) (l_run_id l, l_generation l) WaitingInput errs True t ?rows = Inr (s1, closing)"
      "s' = set_assistant a s1"
    by (auto simp: settle_refused_claims_def rbind_Inr_iff Let_def split: if_splits)
  then show "ichange s s'"
    using close_never_ran_change [OF _ rows] by cases (auto intro: ichange_trans [OF _ set_assistant_change])
qed

lemma settle_unstarted_change:
  assumes "settle_unstarted_claims lib iops s t fresh errs sid user fence = Inr (s', out)"
  shows "ichange s s'"
proof (rule ichangeI)
  assume ok: "ibx_ok s"
  let ?rows = "claimed_rows s sid user (fst fence) (snd fence)"
  have rows: "rows_in s (owned_claim sid user fence) ?rows"
    using claimed_rows_in [OF ok, of sid user "fst fence" "snd fence"] by simp
  from assms consider "s' = s" | s1 closing a where
      "close_never_ran_locked lib s fresh sid user fence WaitingInput errs True t ?rows = Inr (s1, closing)"
      "s' = set_assistant a s1"
    by (auto simp: settle_unstarted_claims_def rbind_Inr_iff Let_def split: sum.splits if_splits)
  then show "ichange s s'"
    using close_never_ran_change [OF _ rows] by cases (auto intro: ichange_trans [OF _ set_assistant_change])
qed

lemma claim_of_lease_Some:
  "claim_of_lease s l i = Some r \<Longrightarrow>
   tget (inbox s) i = Some r \<and> owned_claim (l_session_id l) (l_user_id l) (l_run_id l, l_generation l) r"
  by (auto simp: claim_of_lease_def owned_claim_def split: option.splits if_splits)

lemma record_delivery_failure_change:
  assumes "record_delivery_failure lib iops s t l i err = Inr (s', out)"
  shows "ichange s s'"
proof -
  from assms obtain r where r: "claim_of_lease s l i = Some r"
    by (auto simp: record_delivery_failure_def rbind_Inr_iff split: option.splits)
  let ?row = "r\<lparr>i_attempts := min (i_attempts r + 1) 1000,
      i_last_error := Some (JDict (tput ''attempt'' (JInt (int (min (i_attempts r + 1) 1000))) err)), i_updated_at := t\<rparr>"
  from assms r obtain payload key where
    a: "append_agent_event lib (l_session_id l) (l_user_id l) ''inbox.claimed'' payload
        (Some (l_run_id l, l_generation l)) (i_turn r) (i_step r) (i_message r) key (put_item i ?row s) = Inr s'"
    by (auto simp only: record_delivery_failure_def Let_def rbind_Inr_iff option.case)
  have "item_ok ?row \<and> item_evolves r ?row" if "item_ok r"
    using that claim_of_lease_Some [OF r] by (auto simp: item_rows owned_claim_def claimed_by_def)
  with put_append_change [OF a] show ?thesis
    using claim_of_lease_Some [OF r] by (simp add: owned_claim_def claimed_by_def)
qed

lemma record_delivery_success_change:
  assumes "record_delivery_success lib iops s t l i = Inr s'"
  shows "ichange s s'"
proof -
  from assms obtain r where r: "claim_of_lease s l i = Some r"
    by (auto simp: record_delivery_success_def rbind_Inr_iff split: option.splits)
  let ?row = "r\<lparr>i_last_error := None, i_updated_at := t\<rparr>"
  show ?thesis
  proof (cases "i_last_error r = None")
    case True
    with assms r show ?thesis by (auto simp: record_delivery_success_def rbind_Inr_iff)
  next
    case False
    with assms r obtain payload key where
      a: "append_agent_event lib (l_session_id l) (l_user_id l) ''inbox.claimed'' payload
        (Some (l_run_id l, l_generation l)) (i_turn r) (i_step r) (i_message r) key (put_item i ?row s) = Inr s'"
      by (auto simp only: record_delivery_success_def rbind_Inr_iff option.case if_False)
    have "item_ok ?row \<and> item_evolves r ?row" if "item_ok r"
      using that claim_of_lease_Some [OF r] by (simp add: item_rows owned_claim_def claimed_by_def)
    with put_append_change [OF a] show ?thesis
      using claim_of_lease_Some [OF r] by (simp add: owned_claim_def claimed_by_def)
  qed
qed

lemma rebind_change:
  assumes "rebind_recovered_claims lib iops s t ce (l_session_id l) (l_user_id l) old l = Inr (s', n)"
  shows "ichange s s'"
proof (rule ichangeI)
  assume ok: "ibx_ok s"
  let ?rows = "filter (\<lambda>(k, r). i_session r = l_session_id l \<and> i_user r = l_user_id l \<and> claimed_by (fst old) (snd old) r) (inbox s)"
  have "distinct (inbox s)" using ok by (simp add: ibx_ok_def twf_def distinct_map)
  then have rows: "rows_in s (owned_claim (l_session_id l) (l_user_id l) old) ?rows"
    using ok by (intro rows_in_subset) (auto simp: owned_claim_def)
  from assms have "rebind_each lib l old (ce_worker ce) (ce_tokens ce) 0 t ?rows s = Inr s'"
    by (auto simp: rebind_recovered_claims_def rbind_Inr_iff Let_def)
  from rebind_loop.loop_change [OF this rows] show "ichange s s'" .
qed

lemma new_item_ok:
  "item_ok (new_item a sid owner digest origin reference t)"
  "documented log (new_item a sid owner digest origin reference t)"
  "has_message msgs (new_item a sid owner digest origin reference t)"
  by (simp_all add: item_ok_def new_item_def documented_def has_message_def)

lemma insert_item_Inr:
  assumes "insert_item lib iops s t fresh sid owner a digest origin reference = Inr (s', rc)"
  shows "\<exists>bound payload key. rc = \<lparr>rc_id = fresh, rc_row = new_item a sid owner digest origin bound t, rc_created = True\<rparr> \<and>
      tget (inbox s) fresh = None \<and>
      append_agent_event lib sid (s_user_id owner) ''inbox.accepted'' payload None None None None key
        (put_item fresh (rc_row rc) s) = Inr s'"
proof -
  have fresh: "tget (inbox s) fresh = None"
    using assms by (auto simp: insert_item_def Let_def split: if_splits)
  obtain payload where "rbind (append_agent_event lib sid (s_user_id owner) ''inbox.accepted'' payload None None None None
        (''inbox:'' @ fresh @ '':accepted'')
        (put_item fresh (new_item a sid owner digest origin (bind_baseline iops (assistant (ibase s)) sid origin reference) t) s))
      (\<lambda>s'. Inr (s', \<lparr>rc_id = fresh, rc_row = new_item a sid owner digest origin (bind_baseline iops (assistant (ibase s)) sid origin reference) t,
        rc_created = True\<rparr>)) = Inr (s', rc)"
    using assms that unfolding insert_item_def Let_def by (simp only: split: if_splits) simp_all
  then have ap: "append_agent_event lib sid (s_user_id owner) ''inbox.accepted'' payload None None None None
        (''inbox:'' @ fresh @ '':accepted'')
        (put_item fresh (new_item a sid owner digest origin (bind_baseline iops (assistant (ibase s)) sid origin reference) t) s) = Inr s'"
    and rc: "rc = \<lparr>rc_id = fresh, rc_row = new_item a sid owner digest origin (bind_baseline iops (assistant (ibase s)) sid origin reference) t,
        rc_created = True\<rparr>"
    by (auto simp only: rbind_Inr_iff sum.inject prod.inject)
  from ap fresh show ?thesis unfolding rc receipt.select_convs by blast
qed

lemma accept_locked_Inr:
  assumes "accept_inbox_item_locked lib iops s t fresh sid owner a = Inr (s', rc)"
  shows "\<exists>reference. checked_origin (admitted_origin a) (aa_origin_ref a) (s_user_id owner) = Inr reference \<and>
    (case find (same_client sid (s_user_id owner) (aa_client_id a)) (inbox s) of
       Some (k, r) \<Rightarrow> s' = s \<and> rc = \<lparr>rc_id = k, rc_row = r, rc_created = False\<rparr> \<and>
         (i_digest r = request_digest lib a (admitted_origin a) reference \<or>
          admitted_origin a = Human \<and> i_origin r = UnknownOrigin \<and> i_digest r = request_digest lib a UnknownOrigin (JDict []))
     | None \<Rightarrow> insert_item lib iops s t fresh sid owner a (request_digest lib a (admitted_origin a) reference) (admitted_origin a) reference = Inr (s', rc))"
  using assms unfolding accept_inbox_item_locked_def Let_def
  by (auto simp: rbind_Inr_iff split: if_splits option.splits prod.splits)

lemma same_client_None:
  assumes "find (same_client sid user c) (inbox s) = None" and "tget (inbox s) j = Some r"
  shows "\<not> (c \<noteq> None \<and> i_user r = user \<and> i_session r = sid \<and> i_client_id r = c)"
  using assms tget_in [OF assms(2)] by (fastforce simp: find_None_iff same_client_def)

lemma insert_change:
  assumes "insert_item lib iops s t fresh sid owner a digest origin reference = Inr (s', rc)"
    and "find (same_client sid (s_user_id owner) (aa_client_id a)) (inbox s) = None"
  shows "ichange s s'"
proof (rule ichangeI)
  assume ok: "ibx_ok s"
  from insert_item_Inr [OF assms(1)] obtain bound payload key where fresh: "tget (inbox s) fresh = None"
    and ap: "append_agent_event lib sid (s_user_id owner) ''inbox.accepted'' payload None None None None key
        (put_item fresh (new_item a sid owner digest origin bound t) s) = Inr s'"
    by auto
  let ?r = "new_item a sid owner digest origin bound t"
  note p = put_and_append [OF ap]
  have new: "\<not> same_key ?r x \<and> \<not> same_key x ?r" if "tget (inbox s) j = Some x" for j x
    using same_client_None [OF assms(2) that] by (auto simp: same_key_def new_item_def)
  have row: "item_ok x \<and> documented (agent_log s') x \<and> has_message (transcript s') x" if "tget (inbox s') k = Some x" for k x
    using that ok p documented_grow [of "agent_log s" "agent_log s'" x]
    by (cases "k = fresh") (auto simp: tget_tput ibx_ok_def new_item_ok)
  have "j = k" if "tget (inbox s') j = Some x" "tget (inbox s') k = Some y" "same_key x y" for j k x y
    using that p ok new [of j x] new [of k y]
    by (cases "j = fresh"; cases "k = fresh") (auto simp: tget_tput ibx_ok_def)
  with row p ok have "ibx_ok s'"
    by (simp add: ibx_ok_def twf_tput log_grows_def)
  moreover have "tget (inbox s') i = Some r" if "tget (inbox s) i = Some r" for i r
    using that p fresh by (auto simp: tget_tput)
  ultimately show "ichange s s'" using p by (auto simp: ichange_def)
qed

lemma accept_locked_change:
  assumes "accept_inbox_item_locked lib iops s t fresh sid owner a = Inr (s', rc)"
  shows "ichange s s'"
proof (cases "find (same_client sid (s_user_id owner) (aa_client_id a)) (inbox s)")
  case None
  with accept_locked_Inr [OF assms] show ?thesis by (auto intro: insert_change)
next
  case (Some kr)
  with accept_locked_Inr [OF assms] show ?thesis by (cases kr) auto
qed

lemma accept_change: "accept_inbox_item lib iops s t fresh sid user a = Inr (s', rc) \<Longrightarrow> ichange s s'"
  by (auto simp: accept_inbox_item_def rbind_Inr_iff accept_locked_change)

section \<open>Conversations\<close>

text \<open>
  One committed transaction. \<open>drive\<close> is any transaction of the driver, \<open>others\<close> what the rest of the
  program may do: change the sessions and the assistant tables, add messages or change their
  contents, and append events.
\<close>

inductive inbox_step :: "'a ibx \<Rightarrow> 'a ibx \<Rightarrow> bool" where
  accepted: "accept_inbox_item lib iops s t fresh sid user a = Inr (s', rc) \<Longrightarrow> inbox_step s s'"
| accepted_locked: "accept_inbox_item_locked lib iops s t fresh sid owner a = Inr (s', rc) \<Longrightarrow> inbox_step s s'"
| claimed: "claim_inbox_boundary_once lib iops s t ce l step incl = Inr (s', ids) \<Longrightarrow> inbox_step s s'"
| canceled: "cancel_inbox_items lib iops s t sid user items reason code = Inr (s', ids) \<Longrightarrow> inbox_step s s'"
| steers_expired: "expire_task_steers_locked lib iops s t sid owner ending = Inr s' \<Longrightarrow> inbox_step s s'"
| settled: "settle_claimed_inbox_items lib iops s t l result outcome err = Inr (s', ids) \<Longrightarrow> inbox_step s s'"
| refused: "settle_refused_claims lib iops s t fresh errs l = Inr (s', ids) \<Longrightarrow> inbox_step s s'"
| failed: "record_delivery_failure lib iops s t l i err = Inr (s', out) \<Longrightarrow> inbox_step s s'"
| delivered: "record_delivery_success lib iops s t l i = Inr s' \<Longrightarrow> inbox_step s s'"
| undeliverable: "settle_delivery_failures lib iops s t fresh errs l items closing = Inr (s', res) \<Longrightarrow> inbox_step s s'"
| rebound: "rebind_recovered_claims lib iops s t ce (l_session_id l) (l_user_id l) old l = Inr (s', n) \<Longrightarrow> inbox_step s s'"
| unstarted: "settle_unstarted_claims lib iops s t fresh errs sid user fence = Inr (s', n) \<Longrightarrow> inbox_step s s'"
| drive: "any_step ops lim \<lparr>clock = t, core = ibase s, granted = ls\<rparr> c \<Longrightarrow> inbox_step s (s\<lparr>ibase := core c\<rparr>)"
| others: "drivers db = drivers (ibase s) \<Longrightarrow> messages_grow (transcript s) msgs \<Longrightarrow> log_grows (agent_log s) log \<Longrightarrow>
    inbox_step s (s\<lparr>ibase := db, transcript := msgs, agent_log := log\<rparr>)"

lemma drive_change:
  assumes "any_step ops lim c c'" and "core c = ibase s"
  shows "ichange s (s\<lparr>ibase := core c'\<rparr>)"
proof (rule ichange_around)
  assume wf: "twf (drivers (ibase s))"
  from assms obtain k where "driver_step ops lim k c c'" by (auto simp: any_step_def)
  moreover have "twf (drivers (core c))" using wf by (simp add: assms(2))
  ultimately show "twf (drivers (ibase (s\<lparr>ibase := core c'\<rparr>))) \<and>
      (\<forall>sid. driver_gen sid (drivers (ibase s)) \<le> driver_gen sid (drivers (ibase (s\<lparr>ibase := core c'\<rparr>))))"
  proof (cases rule: driver_step_shape)
    case (Grant l)
    then obtain row where "drivers (core c') = tput (l_session_id l) row (drivers (core c))" by (auto simp: grant_change_def)
    then have "twf (drivers (core c'))" using wf assms(2) by (simp add: twf_tput)
    then show ?thesis using grant_change_gen [OF Grant(4)] by (simp add: assms(2))
  qed (auto simp: assms(2) wf quiet_gen quiet_def)
qed simp_all

lemma inbox_step_change: "inbox_step s s' \<Longrightarrow> ichange s s'"
proof (induction rule: inbox_step.induct)
  case (drive ops lim t s ls c)
  then show ?case by (rule drive_change) simp
next
  case (others db s msgs log)
  then show ?case by (intro ichange_around) auto
qed (fact accept_change accept_locked_change claim_boundary_once_change cancel_inbox_items_change expire_task_steers_change
      settle_claimed_change settle_refused_change record_delivery_failure_change record_delivery_success_change
      settle_delivery_failures_change rebind_change settle_unstarted_change)+

interpretation conv: evolving_rows inbox_step ibx_ok "\<lambda>s. tget (inbox s)" item_evolves
  by unfold_locales (auto dest!: inbox_step_change simp: ichange_def intro: item_evolves_trans)

lemma inbox_steps_change: "inbox_step\<^sup>*\<^sup>* s s' \<Longrightarrow> ichange s s'"
  by (induction rule: rtranclp_induct) (auto intro: ichange_trans inbox_step_change)

end
