(* ===== verification/Inbox_Theorems.thy ===== *)
theory Inbox_Theorems
  imports Inbox_Steps
begin

text \<open>
  The guarantees of the inbox: every accepted input is consumed at most once, in order, by the run that
  holds the conversation; a client id names one request; settlement is complete; stale runs are
  powerless; the event log is append-only.
\<close>

section \<open>Reachable states\<close>

definition start_ibx :: "'a ibx \<Rightarrow> bool" where
  "start_ibx s \<longleftrightarrow> inbox s = [] \<and> twf (transcript s) \<and> twf (drivers (ibase s)) \<and> log_ok (agent_log s)"

lemma start_ibx_ok: "start_ibx s \<Longrightarrow> ibx_ok s"
  by (simp add: start_ibx_def ibx_ok_def)

lemma inbox_reachable_ok: "start_ibx s0 \<Longrightarrow> inbox_step\<^sup>*\<^sup>* s0 s \<Longrightarrow> ibx_ok s"
  by (erule conv.inv_steps) (rule start_ibx_ok)

lemma ichange_ok: "ichange s s' \<Longrightarrow> ibx_ok s \<Longrightarrow> ibx_ok s'"
  by (simp add: ichange_def)

section \<open>The rows of a claim\<close>

text \<open>Expiry only cancels waiting rows.\<close>

lemma expire_row:
  assumes "expire_task_steers_locked lib iops s t sid owner ending = Inr s1" and "ibx_ok s"
  shows "tget (inbox s1) i = tget (inbox s) i \<or>
    (\<exists>r outcome err. tget (inbox s) i = Some r \<and> i_state r = InAccepted \<and> tget (inbox s1) i = Some (cancel_row outcome err t r))"
proof (cases "expired_steers iops s t sid owner ending = []")
  case True
  with assms(1) show ?thesis by (simp add: expire_task_steers_locked_def)
next
  case False
  let ?rows = "expired_steers iops s t sid owner ending"
  have rows: "rows_in s (\<lambda>r. i_state r = InAccepted) ?rows"
    using assms(2) by (intro rows_in_subset)
      (auto simp: expired_steers_def Let_def rows_of_mem distinct_rows_of split: if_splits option.splits)
  from assms(1) False have "\<exists>outcome err payload s2 a. cancel_each lib sid (s_user_id owner) outcome err payload t ?rows s = Inr s2 \<and>
      s1 = set_assistant a s2"
    by (simp only: expire_task_steers_locked_def Let_def if_False rbind_Inr_iff sum.inject)
       (elim exE conjE, intro exI conjI, assumption, erule sym)
  then obtain outcome err payload s2 a where
      c: "cancel_each lib sid (s_user_id owner) outcome err payload t ?rows s = Inr s2" "s1 = set_assistant a s2" by blast
  then have i: "inbox s1 = inbox s2" by (simp add: set_assistant_def)
  show ?thesis
  proof (cases "i \<in> fst ` set ?rows")
    case True
    then obtain r where r: "(i, r) \<in> set ?rows" by force
    then have "tget (inbox s) i = Some r" "i_state r = InAccepted" using rows by (auto simp: rows_in_def)
    with cancel_loop.loop_mem [OF c(1) _ r] rows i show ?thesis by (auto simp: rows_in_def)
  next
    case False
    with cancel_loop.loop_rows [OF c(1)] rows i show ?thesis by (simp add: rows_in_def)
  qed
qed

lemma expire_waiting:
  assumes "expire_task_steers_locked lib iops s t sid owner ending = Inr s1" and "ibx_ok s"
    and "tget (inbox s1) i = Some r" and "i_state r = InAccepted"
  shows "tget (inbox s) i = Some r"
  using expire_row [OF assms(1,2), of i] assms(3,4) by (auto simp: cancel_row_def)

lemma record_main_claim_inbox: "record_main_claim_locked lib sid owner rows fence turn s = Inr s' \<Longrightarrow> inbox s' = inbox s"
  by (auto simp: record_main_claim_locked_def append_only_log split: if_splits)

lemma claim_selected_Inr:
  assumes "claim_selected lib iops s t ce l owner step rows = Inr s'"
  shows "\<exists>s1 s2 a turn t'. materialize lib l (ce_worker ce) turn (step_name l step) t' (ce_messages ce) (ce_tokens ce) 0 rows s = Inr s1 \<and>
    record_main_claim_locked lib (l_session_id l) owner rows (l_run_id l, l_generation l) turn (set_assistant a s1) = Inr s2 \<and>
    inbox s' = inbox s1 \<and> agent_log s' = agent_log s2"
proof -
  define turn where "turn = turn_identity s l (ce_messages ce (length rows - 1))"
  define t' where "t' = message_clock s (l_session_id l) (l_user_id l) t"
  from assms obtain s1 a s2 where
      1: "materialize lib l (ce_worker ce) turn (step_name l step) t' (ce_messages ce) (ce_tokens ce) 0 rows s = Inr s1"
    and 2: "record_main_claim_locked lib (l_session_id l) owner rows (l_run_id l, l_generation l) turn (set_assistant a s1) = Inr s2"
    and x: "(case bind_trigger_message_locked (ibase s2) t (l_session_id l) (l_user_id l) (l_run_id l) (l_generation l) turn of
             Inl e \<Rightarrow> Inl (InboxFence e)
           | Inr db \<Rightarrow> Inr (s2\<lparr>ibase := db\<lparr>sessions := tput (l_session_id l) (owner\<lparr>s_updated_at := t'\<rparr>) (sessions db)\<rparr>\<rparr>)) = Inr s'"
    unfolding claim_selected_def Let_def turn_def [symmetric] t'_def [symmetric] rbind_Inr_iff by blast
  from x have "inbox s' = inbox s2" "agent_log s' = agent_log s2" by (auto split: sum.splits)
  moreover have "inbox s2 = inbox s1" using record_main_claim_inbox [OF 2] by (simp add: set_assistant_def)
  ultimately show ?thesis using 1 2 by metis
qed

lemma claim_once_rows:
  assumes "claim_inbox_boundary_once lib iops s t ce l step incl = Inr (s', ids)" and "ibx_ok s"
  shows "\<exists>owner s1. prepare_agent_event_write iops s t (l_session_id l) (l_user_id l) (Some (lease_fence l)) = Inr owner \<and>
    expire_task_steers_locked lib iops s t (l_session_id l) owner None = Inr s1 \<and> ibx_ok s1 \<and>
    ids = map fst (boundary_rows iops s1 t owner l incl) \<and>
    (\<forall>k. k \<notin> set ids \<longrightarrow> tget (inbox s') k = tget (inbox s1) k) \<and>
    (\<forall>i r. (i, r) \<in> set (boundary_rows iops s1 t owner l incl) \<longrightarrow> tget (inbox s) i = Some r \<and>
       (\<exists>m turn tok t'. tget (inbox s') i = Some (claim_row l m turn (step_name l step) tok (ce_worker ce) t' r)))"
proof -
  from assms(1) obtain owner s1 where
      1: "prepare_agent_event_write iops s t (l_session_id l) (l_user_id l) (Some (lease_fence l)) = Inr owner"
        "expire_task_steers_locked lib iops s t (l_session_id l) owner None = Inr s1"
        "ids = map fst (boundary_rows iops s1 t owner l incl)"
    and 2: "if boundary_rows iops s1 t owner l incl = [] then s' = s1
        else claim_selected lib iops s1 t ce l owner step (boundary_rows iops s1 t owner l incl) = Inr s'"
    by (rule claim_boundary_once_Inr)
  let ?rows = "boundary_rows iops s1 t owner l incl"
  have ok1: "ibx_ok s1" using expire_task_steers_change [OF 1(2)] assms(2) by (rule ichange_ok)
  note w = boundary_rows_waiting [OF ok1, of l iops t owner incl]
  have old: "tget (inbox s) i = Some r" if "(i, r) \<in> set ?rows" for i r
    using that w expire_waiting [OF 1(2) assms(2), of i r] by (auto simp: rows_in_def)
  have "(\<forall>k. k \<notin> set ids \<longrightarrow> tget (inbox s') k = tget (inbox s1) k) \<and>
      (\<forall>i r. (i, r) \<in> set ?rows \<longrightarrow>
         (\<exists>m turn tok t'. tget (inbox s') i = Some (claim_row l m turn (step_name l step) tok (ce_worker ce) t' r)))"
  proof (cases "?rows = []")
    case True
    with 2 show ?thesis by (simp add: 1(3))
  next
    case False
    with 2 have "claim_selected lib iops s1 t ce l owner step ?rows = Inr s'" by simp
    from claim_selected_Inr [OF this] obtain s2 turn t' where
        m: "materialize lib l (ce_worker ce) turn (step_name l step) t' (ce_messages ce) (ce_tokens ce) 0 ?rows s1 = Inr s2" "inbox s' = inbox s2"
      by blast
    have d: "distinct (map fst ?rows)" using w by (simp add: rows_in_def)
    from claim_loop.loop_rows [OF m(1) d] claim_loop.loop_mem [OF m(1) d] m(2) show ?thesis
      by (fastforce simp: 1(3))
  qed
  with 1 ok1 old show ?thesis by blast
qed

section \<open>Exactly once\<close>

lemma cancel_only_waiting:
  assumes "cancel_inbox_items lib iops s t sid user items reason code = Inr (s', ids)" and "ibx_ok s" and "i \<in> set ids"
  shows "\<exists>r. tget (inbox s) i = Some r \<and> i_state r = InAccepted"
proof -
  from assms(1) have "ids = [] \<or> ids = map fst (rows_of s sid user (\<lambda>r. i_state r = InAccepted)) \<or>
      (\<exists>xs. ids = map fst (filter (\<lambda>(k, r). k \<in> set xs) (rows_of s sid user (\<lambda>r. i_state r = InAccepted))))"
    by (auto simp: cancel_inbox_items_def rbind_Inr_iff Let_def split: if_splits option.splits)
  with assms(3) obtain r where "(i, r) \<in> set (rows_of s sid user (\<lambda>r. i_state r = InAccepted))" by auto
  with rows_in_rows_of [OF assms(2)] show ?thesis by (fastforce simp: rows_in_def)
qed

lemma claim_only_waiting:
  assumes "claim_inbox_boundary_once lib iops s t ce l step incl = Inr (s', ids)" and "ibx_ok s" and "i \<in> set ids"
  shows "\<exists>r m turn tok t'. tget (inbox s) i = Some r \<and> waiting (l_session_id l) (l_user_id l) r \<and>
    tget (inbox s') i = Some (claim_row l m turn (step_name l step) tok (ce_worker ce) t' r)"
proof -
  from claim_once_rows [OF assms(1,2)] obtain owner s1 where ok1: "ibx_ok s1" and ids: "ids = map fst (boundary_rows iops s1 t owner l incl)"
    and rows: "\<And>i r. (i, r) \<in> set (boundary_rows iops s1 t owner l incl) \<Longrightarrow> tget (inbox s) i = Some r \<and>
       (\<exists>m turn tok t'. tget (inbox s') i = Some (claim_row l m turn (step_name l step) tok (ce_worker ce) t' r))"
    by blast
  from assms(3) ids obtain r where r: "(i, r) \<in> set (boundary_rows iops s1 t owner l incl)" by auto
  with boundary_rows_waiting [OF ok1, of l iops t owner incl] have "waiting (l_session_id l) (l_user_id l) r"
    by (auto simp: rows_in_def)
  with rows [OF r] show ?thesis by blast
qed


text \<open>
  The event log is a ledger. In every reachable state the events of a conversation are numbered
  1, 2, 3, ... without gap or repetition and no idempotency key occurs twice; events are never
  changed or removed; every claimed input has the event of its present owner and every settled one
  the event of its settlement, naming its message.
\<close>

lemma event_log_is_append_only:
  assumes "start_ibx s0" and "inbox_step\<^sup>*\<^sup>* s0 s" and "inbox_step\<^sup>*\<^sup>* s s'"
  shows "numbers sid (agent_log s') = [1..int (length (numbers sid (agent_log s')))] \<and> distinct (log_keys sid (agent_log s')) \<and>
    (\<exists>xs. agent_log s' = agent_log s @ xs) \<and>
    (tget (inbox s') i = Some r \<and> i_state r = InClaimed \<longrightarrow>
       (\<exists>e \<in> set (agent_log s'). event_is (i_session r) (i_user r) ''inbox.claimed''
          (Some (the (i_run r), the (i_generation r))) (i_message r) e)) \<and>
    (tget (inbox s') i = Some r \<and> i_state r = InSettled \<longrightarrow>
       (\<exists>e \<in> set (agent_log s'). event_is (i_session r) (i_user r) ''inbox.settled''
          (Some (the (i_run r), the (i_generation r))) (i_message r) e))"
proof -
  have ok: "ibx_ok s" using assms(1,2) by (rule inbox_reachable_ok)
  have ok': "ibx_ok s'" using conv.inv_steps [OF assms(3) ok] .
  have "log_ok (agent_log s')" using ok' by (simp add: ibx_ok_def)
  moreover have "log_grows (agent_log s) (agent_log s')" using inbox_steps_change [OF assms(3)] ok by (simp add: ichange_def)
  moreover have "item_ok r \<and> documented (agent_log s') r" if "tget (inbox s') i = Some r" using ok' that by (auto simp: ibx_ok_def)
  ultimately show ?thesis by (auto simp: log_ok_def log_grows_def documented_def item_ok_def)
qed

section \<open>Idempotent acceptance\<close>

lemma prepare_user: "prepare_agent_event_write iops s t sid user fence = Inr owner \<Longrightarrow> s_user_id owner = user"
  by (auto simp: prepare_agent_event_write_def lock_session_def open_session_def owned_session_def rbind_Inr_iff
      split: option.splits if_splits prod.splits sum.splits)

text \<open>The item a client id names.\<close>

lemma find_same_client:
  assumes "ibx_ok s" and "tget (inbox s) i = Some r" and "i_user r = user" "i_session r = sid" "i_client_id r = c" and "c \<noteq> None"
  shows "find (same_client sid user c) (inbox s) = Some (i, r)"
proof (cases "find (same_client sid user c) (inbox s)")
  case None
  from same_client_None [OF this assms(2)] assms(3-6) show ?thesis by blast
next
  case (Some kr)
  obtain k x where kr: "kr = (k, x)" by (cases kr)
  with Some have x: "(k, x) \<in> set (inbox s)" "same_client sid user c (k, x)" by (auto simp: find_Some_iff in_set_conv_nth)
  then have k: "tget (inbox s) k = Some x" using assms(1) tget_iff_in [of "inbox s"] by (auto simp: ibx_ok_def)
  have "same_key x r" using x(2) assms(3-6) by (auto simp: same_key_def same_client_def)
  with assms(1,2) k have "k = i" by (auto simp: ibx_ok_def)
  with k assms(2) Some kr show ?thesis by simp
qed

lemma accepted_row:
  assumes "accept_inbox_item lib iops s t fresh sid user a = Inr (s1, rc)" and "ibx_ok s" and "aa_client_id a \<noteq> None"
  shows "\<exists>r reference. tget (inbox s1) (rc_id rc) = Some r \<and> rc_row rc = r \<and> i_user r = user \<and> i_session r = sid \<and> i_client_id r = aa_client_id a \<and>
    checked_origin (admitted_origin a) (aa_origin_ref a) user = Inr reference \<and>
    (i_digest r = request_digest lib a (admitted_origin a) reference \<or>
     admitted_origin a = Human \<and> i_origin r = UnknownOrigin \<and> i_digest r = request_digest lib a UnknownOrigin (JDict []))"
proof -
  from assms(1) obtain owner where o: "prepare_agent_event_write iops s t sid user None = Inr owner"
      "accept_inbox_item_locked lib iops s t fresh sid owner a = Inr (s1, rc)"
    by (auto simp: accept_inbox_item_def rbind_Inr_iff)
  note u = prepare_user [OF o(1)]
  from accept_locked_Inr [OF o(2)] obtain reference where ref: "checked_origin (admitted_origin a) (aa_origin_ref a) user = Inr reference"
    and c: "case find (same_client sid user (aa_client_id a)) (inbox s) of
       Some (k, r) \<Rightarrow> s1 = s \<and> rc = \<lparr>rc_id = k, rc_row = r, rc_created = False\<rparr> \<and>
         (i_digest r = request_digest lib a (admitted_origin a) reference \<or>
          admitted_origin a = Human \<and> i_origin r = UnknownOrigin \<and> i_digest r = request_digest lib a UnknownOrigin (JDict []))
     | None \<Rightarrow> insert_item lib iops s t fresh sid owner a (request_digest lib a (admitted_origin a) reference) (admitted_origin a) reference = Inr (s1, rc)"
    unfolding u by blast
  show ?thesis
  proof (cases "find (same_client sid user (aa_client_id a)) (inbox s)")
    case None
    with c have "insert_item lib iops s t fresh sid owner a (request_digest lib a (admitted_origin a) reference) (admitted_origin a) reference = Inr (s1, rc)"
      by simp
    from insert_item_Inr [OF this] obtain bound payload key where
        rc: "rc = \<lparr>rc_id = fresh, rc_row = new_item a sid owner (request_digest lib a (admitted_origin a) reference) (admitted_origin a) bound t, rc_created = True\<rparr>"
      and ap: "append_agent_event lib sid (s_user_id owner) ''inbox.accepted'' payload None None None None key (put_item fresh (rc_row rc) s) = Inr s1"
      by blast
    have "tget (inbox s1) (rc_id rc) = Some (rc_row rc)" using put_and_append [OF ap] by (simp add: rc tget_tput)
    then show ?thesis using ref by (simp add: rc new_item_def u)
  next
    case (Some kr)
    obtain k r where kr: "kr = (k, r)" by (cases kr)
    with Some have x: "(k, r) \<in> set (inbox s)" "same_client sid user (aa_client_id a) (k, r)" by (auto simp: find_Some_iff in_set_conv_nth)
    then have "tget (inbox s) k = Some r" using assms(2) tget_iff_in [of "inbox s"] by (auto simp: ibx_ok_def)
    with Some kr c ref x show ?thesis by (auto simp: same_client_def)
  qed
qed


section \<open>Order\<close>

definition earlier :: "ident \<times> item_row \<Rightarrow> ident \<times> item_row \<Rightarrow> bool" where
  "earlier a b \<longleftrightarrow> i_created_at (snd a) < i_created_at (snd b) \<or> i_created_at (snd a) = i_created_at (snd b) \<and> fst a \<le> fst b"

lemma sorted_insort_earlier:
  "sorted_wrt earlier ys \<Longrightarrow> (\<And>y. y \<in> set ys \<Longrightarrow> fst x \<le> fst y) \<Longrightarrow>
   sorted_wrt earlier (insort_key (i_created_at \<circ> snd) x ys)"
proof (induction ys)
  case (Cons y ys)
  then show ?case by (auto simp: earlier_def set_insort_key)
qed simp

lemma sorted_queue_order: "sorted_wrt earlier (queue_order rows)"
proof -
  have "sorted (map fst xs) \<Longrightarrow> sorted_wrt earlier (sort_key (i_created_at \<circ> snd) xs)" for xs :: "(ident \<times> item_row) list"
  proof (induction xs)
    case (Cons a xs)
    then show ?case using sorted_insort_earlier [of "sort_key (i_created_at \<circ> snd) xs" a] by (simp add: o_def)
  qed simp
  then show ?thesis by (simp add: queue_order_def)
qed

lemma prefix_earlier:
  "sorted_wrt earlier xs \<Longrightarrow> x \<in> set (take n xs) \<Longrightarrow> y \<in> set xs \<Longrightarrow> y \<notin> set (take n xs) \<Longrightarrow> earlier x y"
  by (metis UnE append_take_drop_id set_append sorted_wrt_append)

lemma head_earlier:
  assumes "(i, r) \<in> set (take n (rows_of s sid user P))" and "(j, x) \<in> set (inbox s)" and "i_session x = sid" "i_user x = user" "P x"
    and "(j, x) \<notin> set (take n (rows_of s sid user P))"
  shows "earlier (i, r) (j, x)"
  using assms prefix_earlier [OF _ assms(1) _ assms(6)] sorted_queue_order by (auto simp: rows_of_def)

text \<open>Within one delivery and one origin a selected row is earlier than every row left behind.\<close>

lemma selected_earlier:
  assumes ok: "ibx_ok s" and i: "(i, r) \<in> set (boundary_rows iops s t owner l incl)"
    and j: "(j, x) \<in> set (inbox s)" "waiting (l_session_id l) (l_user_id l) x" "(j, x) \<notin> set (boundary_rows iops s t owner l incl)"
    and same: "i_delivery x = i_delivery r" "i_origin x = i_origin r"
  shows "earlier (i, r) (j, x)"
proof -
  have "rows_in s (waiting (l_session_id l) (l_user_id l)) (boundary_rows iops s t owner l incl)"
    using ok by (rule boundary_rows_waiting)
  with i have "tget (inbox s) i = Some r" by (auto simp: rows_in_def)
  with ok j(1) have "item_ok r" "item_ok x" using tget_iff_in [of "inbox s"] by (auto simp: ibx_ok_def)
  then have tgt: "i_target x = i_target r" using same by (simp add: item_ok_def)
  have head: ?thesis if h: "(i, r) \<in> set (take n (rows_of s (l_session_id l) (l_user_id l) P))" "P r \<Longrightarrow> P x"
      "set (take n (rows_of s (l_session_id l) (l_user_id l) P)) \<subseteq> set (boundary_rows iops s t owner l incl)" for n P
  proof -
    have "P r" using in_set_takeD [OF h(1)] by (simp add: rows_of_mem)
    then show ?thesis using h j by (intro head_earlier [OF h(1)]) auto
  qed
  show ?thesis
  proof (cases "s_kind owner = ''assistant''")
    case True
    with i have b: "boundary_rows iops s t owner l incl = select_main_turn_locked iops s t (l_session_id l) (l_user_id l) incl"
      by (auto simp: boundary_rows_def split: if_splits)
    from main_turn_cases [of iops s t "l_session_id l" "l_user_id l" incl] consider
        "boundary_rows iops s t owner l incl = []"
      | "boundary_rows iops s t owner l incl = first_superseding_input_locked s (l_session_id l) (l_user_id l)"
      | m where "boundary_rows iops s t owner l incl = mode_head s (l_session_id l) (l_user_id l) m" unfolding b by auto
    then show ?thesis
      using i head by cases (auto simp: first_superseding_input_locked_def mode_head_def mode_of_def human_input_def same tgt j(2))
  next
    case False
    with i have "boundary_rows iops s t owner l incl = selected_boundary_rows iops s (l_session_id l) (l_user_id l) incl"
      by (auto simp: boundary_rows_def split: if_splits)
    with i head show ?thesis
      by (auto simp: selected_boundary_rows_def Let_def first_superseding_input_locked_def human_input_def same tgt j(2) split: if_splits)
  qed
qed

lemma selected_length: "length (boundary_rows iops s t owner l incl) \<le> MAX_STEP_BATCH + 1"
proof -
  have "length (select_main_turn_locked iops s t sid user incl) \<le> 1" for sid user
    using main_turn_cases [of iops s t sid user incl] by (auto simp: first_superseding_input_locked_def mode_head_def)
  from le_trans [OF this] have m: "length (select_main_turn_locked iops s t sid user incl) \<le> MAX_STEP_BATCH + 1" for sid user
    by simp
  have "length (take a xs @ take 1 ys) \<le> a + 1" "length (take a xs) \<le> a + 1" "length (take 1 xs) \<le> a + 1"
    for a and xs ys :: "(ident \<times> item_row) list" by simp_all
  then have "length (selected_boundary_rows iops s sid user incl) \<le> MAX_STEP_BATCH + 1" for sid user
    unfolding selected_boundary_rows_def Let_def first_superseding_input_locked_def by (auto split: if_split)
  with m show ?thesis by (simp add: boundary_rows_def)
qed

text \<open>
  No overtaking. A claim takes at most 33 inputs, none twice, all of them waiting inputs of the
  conversation whose run makes the claim; and of two inputs of one delivery and one origin the
  earlier is taken first: what a claim leaves waiting is later (by creation time, then by id) than
  what it takes.
\<close>

lemma claims_do_not_overtake:
  assumes "start_ibx s0" and "inbox_step\<^sup>*\<^sup>* s0 s"
    and "claim_inbox_boundary_once lib iops s t ce l step incl = Inr (s', ids)"
    and "i \<in> set ids" and "tget (inbox s) i = Some r"
    and "tget (inbox s') j = Some x" and "waiting (l_session_id l) (l_user_id l) x"
    and "i_delivery x = i_delivery r" and "i_origin x = i_origin r"
  shows "(i_created_at r < i_created_at x \<or> i_created_at r = i_created_at x \<and> i < j) \<and>
    waiting (l_session_id l) (l_user_id l) r \<and> distinct ids \<and> length ids \<le> 33"
proof -
  have ok: "ibx_ok s" using assms(1,2) by (rule inbox_reachable_ok)
  from claim_once_rows [OF assms(3) ok] obtain owner s1 where ok1: "ibx_ok s1"
    and ids: "ids = map fst (boundary_rows iops s1 t owner l incl)"
    and left: "\<And>k. k \<notin> set ids \<Longrightarrow> tget (inbox s') k = tget (inbox s1) k"
    and taken: "\<And>i r. (i, r) \<in> set (boundary_rows iops s1 t owner l incl) \<Longrightarrow> tget (inbox s) i = Some r \<and>
       (\<exists>m turn tok t'. tget (inbox s') i = Some (claim_row l m turn (step_name l step) tok (ce_worker ce) t' r))"
    by blast
  note w = boundary_rows_waiting [OF ok1, of l iops t owner incl]
  have i: "(i, r) \<in> set (boundary_rows iops s1 t owner l incl)"
    using assms(4,5) ids taken by fastforce
  have j: "j \<notin> set ids"
  proof
    assume "j \<in> set ids"
    then obtain y where "(j, y) \<in> set (boundary_rows iops s1 t owner l incl)" using ids by auto
    with taken [OF this] assms(6,7) show False by (auto simp: claim_row_def)
  qed
  have x: "(j, x) \<in> set (inbox s1)" using assms(6) left [OF j] by (auto dest: tget_in)
  have "earlier (i, r) (j, x)"
    using j ids by (intro selected_earlier [OF ok1 i x assms(7) _ assms(8,9)]) force
  moreover have "i \<noteq> j" using j assms(4) by auto
  ultimately show ?thesis
    using w i selected_length [of iops s1 t owner l incl] by (auto simp: earlier_def ids rows_in_def MAX_STEP_BATCH_def)
qed

end
