(* ===== verification/Inbox_Guarantees.thy ===== *)
theory Inbox_Guarantees
  imports Inbox_Theorems
begin

text \<open>
  The inbox and the run that drives it: complete settlement, powerlessness of stale runs (through the
  fencing contract), termination of the retry loop of a claim, fairness of the main queue, and
  the operations that span several transactions.
\<close>

section \<open>Settlement\<close>

lemma claimed_rows_mem:
  assumes "ibx_ok s"
  shows "(i, r) \<in> set (claimed_rows s sid user run g) \<longleftrightarrow> tget (inbox s) i = Some r \<and> owned_claim sid user (run, g) r"
  using assms tget_iff_in [of "inbox s"] by (auto simp: claimed_rows_def rows_of_mem owned_claim_def ibx_ok_def)

text \<open>
  Settlement is complete and exact. When a run settles its inputs, the inputs it reports are
  exactly those of the conversation it had claimed under its fence; each becomes settled with the
  outcome and result, every other input is untouched, and no claim of that fence is left.
\<close>

lemma settlement_is_complete:
  assumes "start_ibx s0" and "inbox_step\<^sup>*\<^sup>* s0 s"
    and "settle_claimed_inbox_items lib iops s t l result outcome err = Inr (s', ids)"
  shows "set ids = {i. \<exists>r. tget (inbox s) i = Some r \<and> owned_claim (l_session_id l) (l_user_id l) (l_run_id l, l_generation l) r} \<and>
    (\<forall>i. tget (inbox s') i = (if i \<in> set ids then map_option (settle_item result (take 24 outcome) err t) (tget (inbox s) i)
                              else tget (inbox s) i)) \<and>
    claimed_rows s' (l_session_id l) (l_user_id l) (l_run_id l) (l_generation l) = []"
proof -
  have ok: "ibx_ok s" using assms(1,2) by (rule inbox_reachable_ok)
  have ok': "ibx_ok s'" using settle_claimed_change [OF assms(3)] ok by (rule ichange_ok)
  let ?rows = "claimed_rows s (l_session_id l) (l_user_id l) (l_run_id l) (l_generation l)"
  from settle_claimed_Inr [OF assms(3)] obtain s1 a where
      1: "settle_each lib (l_session_id l) (l_user_id l) (l_run_id l, l_generation l) result (take 24 outcome) err t ?rows s = Inr s1"
    and s': "s' = set_assistant a s1" and ids: "ids = map fst ?rows" by blast
  have d: "distinct (map fst ?rows)" using claimed_rows_in [OF ok] by (simp add: rows_in_def)
  have ib: "inbox s' = inbox s1" by (simp add: s' set_assistant_def)
  have set_ids: "set ids = {i. \<exists>r. tget (inbox s) i = Some r \<and> owned_claim (l_session_id l) (l_user_id l) (l_run_id l, l_generation l) r}"
    using claimed_rows_mem [OF ok] by (force simp: ids)
  have rows: "tget (inbox s') i = (if i \<in> set ids then map_option (settle_item result (take 24 outcome) err t) (tget (inbox s) i)
      else tget (inbox s) i)" for i
  proof (cases "i \<in> set ids")
    case True
    then obtain r where r: "(i, r) \<in> set ?rows" using ids by auto
    with claimed_rows_mem [OF ok] have "tget (inbox s) i = Some r" by simp
    with settle_loop.loop_mem [OF 1 d r] True show ?thesis by (auto simp: ib)
  next
    case False
    with settle_loop.loop_rows [OF 1 d] show ?thesis by (simp add: ib ids)
  qed
  have "(i, r) \<notin> set (claimed_rows s' (l_session_id l) (l_user_id l) (l_run_id l) (l_generation l))" for i r
    using claimed_rows_mem [OF ok'] rows [of i] set_ids
    by (auto simp: settle_item_def owned_claim_def claimed_by_def split: if_splits)
  then have "claimed_rows s' (l_session_id l) (l_user_id l) (l_run_id l) (l_generation l) = []"
    by (metis ex_in_conv set_empty2 surj_pair)
  with set_ids rows show ?thesis by blast
qed

section \<open>Stale runs\<close>

definition run_holds :: "ident \<Rightarrow> lease \<Rightarrow> 'a ibx \<Rightarrow> bool" where
  "run_holds sid l s \<longleftrightarrow> l_session_id l = sid \<and>
     (\<exists>iops t owner. prepare_agent_event_write iops s t sid (l_user_id l) (Some (lease_fence l)) = Inr owner)"

lemma prepare_fence:
  "prepare_agent_event_write iops s t sid user (Some (lease_fence l)) = Inr owner \<Longrightarrow>
   driver_gen sid (drivers (ibase s)) = l_generation l"
  by (auto simp: prepare_agent_event_write_def lease_fence_def rbind_Inr_iff assert_owned_driver_fence_locked_def driver_gen_def fence_row_def
      split: if_splits sum.splits option.splits)

interpretation run: fencing "\<lambda>s. driver_gen sid (drivers (ibase s))" "run_holds sid" l_generation "\<lambda>s s'. ibx_ok s \<and> inbox_step s s'"
  for sid
  by unfold_locales (auto simp: run_holds_def prepare_fence ichange_def dest: inbox_step_change)

lemma not_held_inbox:
  assumes "\<not> run_holds (l_session_id l) l s"
  shows "claim_inbox_boundary_once lib iops s t ce l step incl \<noteq> Inr x"
    and "settle_claimed_inbox_items lib iops s t l result outcome err \<noteq> Inr x"
    and "settle_refused_claims lib iops s t fresh errs l \<noteq> Inr x"
    and "record_delivery_failure lib iops s t l i e \<noteq> Inr y"
    and "record_delivery_success lib iops s t l i \<noteq> Inr z"
    and "rebind_recovered_claims lib iops s t ce sid user old l \<noteq> Inr u"
    and "items \<noteq> [] \<Longrightarrow> settle_delivery_failures lib iops s t fresh errs l items closing \<noteq> Inr v"
  using assms
  by (auto simp: run_holds_def claim_inbox_boundary_once_def settle_claimed_inbox_items_def settle_refused_claims_def
      record_delivery_failure_def record_delivery_success_def rebind_recovered_claims_def settle_delivery_failures_def rbind_Inr_iff)

text \<open>
  A superseded run cannot touch the inbox. Once a newer generation was granted for the
  conversation, then for ever after every operation of the old run on the inbox fails: claiming,
  settling, refusing, recording a delivery, closing undeliverable input, taking over claims.
\<close>

lemma stale_run_cannot_touch_inbox:
  assumes "start_ibx s0" and "inbox_step\<^sup>*\<^sup>* s0 s"
    and "l_generation l < driver_gen (l_session_id l) (drivers (ibase s))" and "inbox_step\<^sup>*\<^sup>* s s'"
  shows "claim_inbox_boundary_once lib iops s' t ce l step incl \<noteq> Inr x \<and>
    settle_claimed_inbox_items lib iops s' t l result outcome err \<noteq> Inr x \<and>
    settle_refused_claims lib iops s' t fresh errs l \<noteq> Inr x \<and>
    record_delivery_failure lib iops s' t l i e \<noteq> Inr y \<and>
    record_delivery_success lib iops s' t l i \<noteq> Inr z \<and>
    rebind_recovered_claims lib iops s' t ce sid user old l \<noteq> Inr u \<and>
    (items \<noteq> [] \<longrightarrow> settle_delivery_failures lib iops s' t fresh errs l items closing \<noteq> Inr v)"
proof -
  have ok: "ibx_ok s" using assms(1,2) by (rule inbox_reachable_ok)
  have "\<not> run_holds (l_session_id l) l s'"
    using run.stale_forever [OF assms(3) conv.guarded_steps [OF assms(4) ok]] .
  then show ?thesis by (simp add: not_held_inbox)
qed

section \<open>The retry loop of a claim\<close>

text \<open>What a claim reports as broken: waiting inputs it selected. The hook of the assistant does not raise
  the inbox's own exception for broken attachments, which only \<^verbatim>\<open>inbox.py\<close> raises.\<close>

definition hook_keeps_attachment_errors :: "'a inbox_ops \<Rightarrow> bool" where
  "hook_keeps_attachment_errors iops \<longleftrightarrow> (\<forall>a sid rows bad. claimed_hook iops a sid rows \<noteq> Inl (InboxAttachmentError bad))"

lemma append_no_attachment_error: "append_agent_event lib sid user kind payload fence turn step message key s \<noteq> Inl (InboxAttachmentError bad)"
  by (auto simp: append_agent_event_def Let_def split: if_splits option.splits)

lemma rbind_Inl_iff: "rbind r f = Inl e \<longleftrightarrow> r = Inl e \<or> (\<exists>x. r = Inr x \<and> f x = Inl e)"
  by (cases r) auto

lemma materialize_no_attachment_error:
  "materialize lib l worker turn step t mids toks n rows s \<noteq> Inl (InboxAttachmentError bad)"
  by (induction rows arbitrary: n s) (auto simp: rbind_Inl_iff append_no_attachment_error insert_message_def split: if_splits)

lemma cancel_each_no_attachment_error:
  "cancel_each lib sid user outcome err payload t rows s \<noteq> Inl (InboxAttachmentError bad)"
  by (induction rows arbitrary: s) (auto simp: rbind_Inl_iff append_no_attachment_error)

lemma expire_no_attachment_error: "expire_task_steers_locked lib iops s t sid owner ending \<noteq> Inl (InboxAttachmentError bad)"
  unfolding expire_task_steers_locked_def Let_def by (simp add: rbind_Inl_iff cancel_each_no_attachment_error)

lemma claim_selected_no_attachment_error:
  "hook_keeps_attachment_errors iops \<Longrightarrow> claim_selected lib iops s t ce l owner step rows \<noteq> Inl (InboxAttachmentError bad)"
  unfolding claim_selected_def Let_def
  by (auto simp: rbind_Inl_iff materialize_no_attachment_error hook_keeps_attachment_errors_def record_main_claim_locked_def
      append_no_attachment_error split: if_splits sum.splits)

lemma prepare_no_attachment_error: "prepare_agent_event_write iops s t sid user fence \<noteq> Inl (InboxAttachmentError bad)"
  by (auto simp: prepare_agent_event_write_def lock_session_def rbind_Inl_iff split: option.splits prod.splits if_splits sum.splits)

lemma claim_once_broken:
  assumes "claim_inbox_boundary_once lib iops s t ce l step incl = Inl (InboxAttachmentError bad)"
    and "hook_keeps_attachment_errors iops" and "ibx_ok s"
  shows "bad \<noteq> [] \<and> (\<forall>i \<in> set bad. \<exists>r. tget (inbox s) i = Some r \<and> waiting (l_session_id l) (l_user_id l) r)"
proof -
  from assms(1) obtain owner s1 where 1: "expire_task_steers_locked lib iops s t (l_session_id l) owner None = Inr s1"
    and bad: "bad = map fst (filter (\<lambda>kr. \<not> assets_ready iops s1 owner l kr) (boundary_rows iops s1 t owner l incl))" "bad \<noteq> []"
    unfolding claim_once_unfold Let_def
    by (auto simp: rbind_Inl_iff prepare_no_attachment_error expire_no_attachment_error
        claim_selected_no_attachment_error [OF assms(2)] split: if_splits)
  have "ibx_ok s1" using expire_task_steers_change [OF 1] assms(3) by (rule ichange_ok)
  then have "rows_in s1 (waiting (l_session_id l) (l_user_id l)) (boundary_rows iops s1 t owner l incl)"
    by (rule boundary_rows_waiting)
  then show ?thesis using bad expire_waiting [OF 1 assms(3)] by (force simp: rows_in_def)
qed

definition waiting_count :: "'a ibx \<Rightarrow> ident \<Rightarrow> ident \<Rightarrow> nat" where
  "waiting_count s sid user = card {i. \<exists>r. tget (inbox s) i = Some r \<and> waiting sid user r}"

lemma finite_waiting: "finite {i. \<exists>r. tget (inbox s) i = Some r \<and> P r}"
proof (rule finite_subset)
  show "{i. \<exists>r. tget (inbox s) i = Some r \<and> P r} \<subseteq> fst ` set (inbox s)" by (force dest: tget_in)
qed simp

lemma waiting_count_le: "waiting_count s sid user \<le> length (inbox s)"
proof -
  have "{i. \<exists>r. tget (inbox s) i = Some r \<and> waiting sid user r} \<subseteq> fst ` set (inbox s)" by (force dest: tget_in)
  then have "waiting_count s sid user \<le> card (fst ` set (inbox s))" unfolding waiting_count_def by (simp add: card_mono)
  also have "\<dots> \<le> length (inbox s)" by (metis card_image_le card_length finite_set le_trans)
  finally show ?thesis .
qed

lemma cancel_waiting:
  assumes "cancel_inbox_items lib iops s t sid user (Some bad) reason code = Inr (s', out)" and "ibx_ok s"
    and "bad \<noteq> []" and "\<forall>i \<in> set bad. \<exists>r. tget (inbox s) i = Some r \<and> waiting sid user r"
  shows "{i. \<exists>r. tget (inbox s') i = Some r \<and> waiting sid user r} = {i. \<exists>r. tget (inbox s) i = Some r \<and> waiting sid user r} - set bad"
proof -
  let ?rows = "filter (\<lambda>(k, r). k \<in> set bad) (rows_of s sid user (\<lambda>r. i_state r = InAccepted))"
  have rows: "rows_in s (\<lambda>r. i_session r = sid \<and> i_user r = user \<and> i_state r = InAccepted) ?rows"
    using rows_in_filter [OF rows_in_rows_of [OF assms(2)]] .
  have keys: "fst ` set ?rows = set bad"
  proof (intro equalityI subsetI)
    fix i assume "i \<in> set bad"
    with assms(4) obtain r where "tget (inbox s) i = Some r" "waiting sid user r" by blast
    with \<open>i \<in> set bad\<close> have "(i, r) \<in> set ?rows" by (auto simp: rows_of_mem dest: tget_in)
    then show "i \<in> fst ` set ?rows" by (metis fst_conv imageI)
  qed auto
  then have "?rows \<noteq> []" using assms(3) by force
  with assms(1) have "\<exists>outcome err payload s1 a. cancel_each lib sid user outcome err payload t ?rows s = Inr s1 \<and> s' = set_assistant a s1"
    by (simp only: cancel_inbox_items_def rbind_Inr_iff Let_def option.case if_False sum.inject prod.inject)
       (elim exE conjE, intro exI conjI, assumption, erule sym)
  then obtain outcome err payload s1 a where
      c: "cancel_each lib sid user outcome err payload t ?rows s = Inr s1" and s': "inbox s' = inbox s1"
    by (auto simp: set_assistant_def)
  have d: "distinct (map fst ?rows)" using rows by (simp add: rows_in_def)
  have bad: "\<exists>r. tget (inbox s1) i = Some (cancel_row outcome err t r)" if "i \<in> set bad" for i
  proof -
    from that keys have "i \<in> fst ` set ?rows" by blast
    then obtain kr where kr: "kr \<in> set ?rows" "fst kr = i" by blast
    from cancel_loop.loop_mem [OF c d, of i "snd kr"] kr show ?thesis by (metis prod.collapse)
  qed
  have left: "tget (inbox s1) i = tget (inbox s) i" if "i \<notin> set bad" for i
    using cancel_loop.loop_rows [OF c d] that by (simp only: keys) blast
  have "(\<exists>r. tget (inbox s1) i = Some r \<and> waiting sid user r) \<longleftrightarrow>
      (\<exists>r. tget (inbox s) i = Some r \<and> waiting sid user r) \<and> i \<notin> set bad" for i
    using bad [of i] left [of i] by (cases "i \<in> set bad") (auto simp: cancel_row_def)
  then show ?thesis by (auto simp: s')
qed

lemma cancel_is_step: "cancel_inbox_items lib iops s t sid user items reason code = Inr (s', ids) \<Longrightarrow> inbox_step\<^sup>*\<^sup>* s s'"
  by (blast intro: inbox_step.canceled)

lemma claim_loop_returns:
  assumes "hook_keeps_attachment_errors iops" and "ibx_ok s" and "waiting_count s (l_session_id l) (l_user_id l) < fuel"
  shows "\<exists>s' out. claim_inbox_boundary fuel lib iops s t ce l step incl = Some (s', out) \<and> inbox_step\<^sup>*\<^sup>* s s' \<and>
    (\<forall>bad. out = Inl (InboxAttachmentError bad) \<longrightarrow> False)"
  using assms(2,3)
proof (induction fuel arbitrary: s)
  case (Suc n)
  consider (ok) s' ids where "claim_inbox_boundary_once lib iops s t ce l step incl = Inr (s', ids)"
    | (broken) bad where "claim_inbox_boundary_once lib iops s t ce l step incl = Inl (InboxAttachmentError bad)"
    | (err) e where "claim_inbox_boundary_once lib iops s t ce l step incl = Inl e" "\<And>bad. e \<noteq> InboxAttachmentError bad"
    by (metis obj_sumE surj_pair)
  then show ?case
  proof cases
    case ok
    then show ?thesis by (auto intro: inbox_step.claimed)
  next
    case err
    then show ?thesis by (cases e) auto
  next
    case broken
    note b = claim_once_broken [OF broken assms(1) Suc.prems(1)]
    show ?thesis
    proof (cases "cancel_inbox_items lib iops s t (l_session_id l) (l_user_id l) (Some bad)
                       ''attachment is missing, deleted, or not ready'' (Some ''ASSISTANT_ASSET_UNAVAILABLE'')")
      case (Inl e)
      then have "e \<noteq> InboxAttachmentError x" for x
        by (auto simp: cancel_inbox_items_def rbind_Inl_iff Let_def prepare_no_attachment_error cancel_each_no_attachment_error split: if_splits)
      with Inl broken b show ?thesis by auto
    next
      case (Inr y)
      obtain s1 out where y: "y = (s1, out)" by (cases y)
      with Inr have c: "cancel_inbox_items lib iops s t (l_session_id l) (l_user_id l) (Some bad)
                       ''attachment is missing, deleted, or not ready'' (Some ''ASSISTANT_ASSET_UNAVAILABLE'') = Inr (s1, out)" by simp
      have ok1: "ibx_ok s1" using cancel_inbox_items_change [OF c] Suc.prems(1) by (rule ichange_ok)
      note cw = cancel_waiting [OF c Suc.prems(1)] b
      let ?W = "\<lambda>s. {i. \<exists>r. tget (inbox s) i = Some r \<and> waiting (l_session_id l) (l_user_id l) r}"
      have "?W s1 = ?W s - set bad" using cw by blast
      moreover have "hd bad \<in> ?W s" "hd bad \<in> set bad" using b by auto
      ultimately have "?W s1 \<subset> ?W s" by blast
      then have "waiting_count s1 (l_session_id l) (l_user_id l) < waiting_count s (l_session_id l) (l_user_id l)"
        unfolding waiting_count_def by (rule psubset_card_mono [OF finite_waiting])
      with Suc.prems(2) have "waiting_count s1 (l_session_id l) (l_user_id l) < n" by simp
      from Suc.IH [OF ok1 this] obtain s' res where
        ih: "claim_inbox_boundary n lib iops s1 t ce l step incl = Some (s', res)" "inbox_step\<^sup>*\<^sup>* s1 s'"
          "\<forall>bad. res = Inl (InboxAttachmentError bad) \<longrightarrow> False" by blast
      from ih(2) cancel_is_step [OF c] have "inbox_step\<^sup>*\<^sup>* s s'" by simp
      with ih broken b c show ?thesis by auto
    qed
  qed
qed simp

text \<open>
  Claiming terminates. However many broken attachments there are, the retry loop of a claim
  returns after at most one pass more than there are waiting inputs; it never ends with the
  broken-attachment error it retries on, and everything it did is a sequence of ordinary
  transactions.
\<close>

lemma claim_retry_terminates:
  assumes "start_ibx s0" and "inbox_step\<^sup>*\<^sup>* s0 s" and "hook_keeps_attachment_errors iops"
    and "waiting_count s (l_session_id l) (l_user_id l) < fuel"
  shows "\<exists>s' out. claim_inbox_boundary fuel lib iops s t ce l step incl = Some (s', out) \<and> inbox_step\<^sup>*\<^sup>* s s' \<and>
    (\<forall>bad. out \<noteq> Inl (InboxAttachmentError bad))"
  using claim_loop_returns [OF assms(3) inbox_reachable_ok [OF assms(1,2)] assms(4)] by blast

section \<open>Operations of several transactions\<close>

lemma claim_loop_steps: "claim_inbox_boundary fuel lib iops s t ce l step incl = Some (s', out) \<Longrightarrow> inbox_step\<^sup>*\<^sup>* s s'"
proof (induction fuel arbitrary: s)
  case (Suc n)
  show ?case
  proof (cases "claim_inbox_boundary_once lib iops s t ce l step incl")
    case (Inr x)
    with Suc.prems show ?thesis by (cases x) (auto intro: inbox_step.claimed)
  next
    case (Inl e)
    show ?thesis
    proof (cases "\<exists>bad. e = InboxAttachmentError bad \<and> bad \<noteq> []")
      case True
      with Inl Suc.prems show ?thesis
        by (auto split: sum.splits prod.splits dest!: cancel_is_step Suc.IH)
    next
      case False
      with Inl Suc.prems show ?thesis by (cases e) auto
    qed
  qed
qed simp

lemma deliver_each_steps:
  "deliver_each lib iops texts try fixed l ts n rows s acc = (s', out) \<Longrightarrow> inbox_step\<^sup>*\<^sup>* s s'"
proof (induction rows arbitrary: n s acc)
  case (Cons x rows)
  obtain i r where x: "x = (i, r)" by (cases x)
  have go: "inbox_step\<^sup>*\<^sup>* s s'" if "inbox_step\<^sup>*\<^sup>* s s1" "deliver_each lib iops texts try fixed l ts (Suc n) rows s1 acc1 = (s', out)" for s1 acc1
    using that Cons.IH by (meson rtranclp_trans)
  show ?case
  proof (cases "i_attachments r = [] \<or> delivery_over r")
    case True
    with Cons.prems go [of s] show ?thesis by (auto simp: x split: if_splits)
  next
    case False
    then have f: "i_attachments r \<noteq> []" "\<not> delivery_over r" by auto
    show ?thesis
    proof (cases "try i")
      case Delivered
      with Cons.prems f go [of s] go [OF r_into_rtranclp [where r = inbox_step, OF inbox_step.delivered]] show ?thesis
        by (auto simp: x split: if_splits sum.splits)
    next
      case (Fails e)
      with Cons.prems f go [OF r_into_rtranclp [where r = inbox_step, OF inbox_step.failed]] show ?thesis
        by (auto simp: x Let_def split: sum.splits)
    next
      case Interrupted
      with Cons.prems f show ?thesis by (simp add: x)
    qed
  qed
qed simp

lemma deliver_claimed_steps:
  assumes "deliver_claimed_attachments lib iops texts errs try fixed s ts fresh l item_ids expected = (s', out)"
  shows "inbox_step\<^sup>*\<^sup>* s s'"
proof -
  have *: "inbox_step\<^sup>*\<^sup>* s s'" if "inbox_step\<^sup>*\<^sup>* s s1" "settle_delivery_failures lib iops s1 t fresh errs l items closing = Inr (s', res)" for s1 t items closing res
    using that(1) inbox_step.undeliverable [OF that(2)] by simp
  show ?thesis
    using assms unfolding deliver_claimed_attachments_def Let_def
    by (auto split: if_splits prod.splits sum.splits intro: deliver_each_steps *)
qed

lemma reserve_is_step:
  assumes "reserve_run ops (ibase s) e w sid user run trg p cmd unl = Inr (w', l, db)"
  shows "inbox_step s (s\<lparr>ibase := db\<rparr>)"
proof -
  have "any_step ops (max_concurrent_agents e) \<lparr>clock = now e, core = ibase s, granted = []\<rparr> \<lparr>clock = now e, core = db, granted = [l]\<rparr>"
    using driver_step.reserved [of e "\<lparr>clock = now e, core = ibase s, granted = []\<rparr>" "max_concurrent_agents e" ops] assms
    by (fastforce simp: any_step_def)
  from inbox_step.drive [OF this] show ?thesis by simp
qed

lemma release_is_step: "inbox_step s (s\<lparr>ibase := fst (snd (snd (release ops (ibase s) t w l st)))\<rparr>)"
proof -
  let ?c = "\<lparr>clock = t, core = ibase s, granted = []\<rparr>"
  have "any_step ops 0 ?c (?c\<lparr>core := fst (snd (snd (release ops (core ?c) (clock ?c) w l st)))\<rparr>)"
    unfolding any_step_def by (blast intro: driver_step.released)
  from inbox_step.drive [OF this] show ?thesis by simp
qed

lemma preserve_is_step: "inbox_step s (s\<lparr>ibase := fst (snd (snd (preserve_for_recovery (ibase s) t w l st)))\<rparr>)"
proof -
  let ?c = "\<lparr>clock = t, core = ibase s, granted = []\<rparr>"
  have "any_step ops 0 ?c (?c\<lparr>core := fst (snd (snd (preserve_for_recovery (core ?c) (clock ?c) w l st)))\<rparr>)" for ops :: "'a assistant_ops"
    unfolding any_step_def by (blast intro: driver_step.preserved)
  from inbox_step.drive [OF this] show ?thesis by simp
qed

lemma reserve_run_lease:
  assumes "reserve_run ops db e w sid user run trg p cmd unl = Inr (w', l, db')"
  shows "l_session_id l = sid \<and> l_user_id l = user"
  using assms by (rule reserve_run_Inr) (simp add: issue_lease_def activate_local_lease_def Let_def case_prod_unfold)

lemma settle_through_generation_steps:
  assumes "settle_through_generation lib ops iops e sid user fence reply s = (s', out)"
  shows "inbox_step\<^sup>*\<^sup>* s s'"
proof (cases "reserve_run ops (ibase s) (sw_env e) (sw_worker e) sid user None None Finalizing None False")
  case (Inl x)
  with assms show ?thesis by (cases x) (auto simp: settle_through_generation_def)
next
  case (Inr y)
  then obtain w l db where y: "reserve_run ops (ibase s) (sw_env e) (sw_worker e) sid user None None Finalizing None False = Inr (w, l, db)"
    by (cases y) auto
  define s1 where "s1 = s\<lparr>ibase := db\<rparr>"
  define t where "t = now (sw_env e)"
  have l: "l_session_id l = sid" "l_user_id l = user" using reserve_run_lease [OF y] by auto
  have s1: "inbox_step\<^sup>*\<^sup>* s s1" using reserve_is_step [OF y] by (simp add: s1_def)
  have rel: "inbox_step\<^sup>*\<^sup>* s (s2\<lparr>ibase := fst (snd (snd (release ops (ibase s2) t w l st)))\<rparr>)" if "inbox_step\<^sup>*\<^sup>* s s2" for s2 st
    using that release_is_step [of s2 ops t w l st] by simp
  have pre: "inbox_step\<^sup>*\<^sup>* s (s2\<lparr>ibase := fst (snd (snd (preserve_for_recovery (ibase s2) t w l st)))\<rparr>)" if "inbox_step\<^sup>*\<^sup>* s s2" for s2 st
    using that preserve_is_step [of s2 t w l st] by simp
  have reb: "inbox_step\<^sup>*\<^sup>* s s2" if "rebind_recovered_claims lib iops s1 t ce sid user fence l = Inr (s2, n)" for s2 ce n
    using s1 inbox_step.rebound [OF that [folded l]] by simp
  have set: "inbox_step\<^sup>*\<^sup>* s s3" if "inbox_step\<^sup>*\<^sup>* s s2" "settle_claimed_inbox_items lib iops s2 t l result outcome err = Inr (s3, ids)"
    for s2 s3 result outcome err ids
    using that(1) inbox_step.settled [OF that(2)] by simp
  show ?thesis
    using assms unfolding settle_through_generation_def y sum.case prod.case Let_def s1_def [symmetric] t_def [symmetric]
    by (auto split: sum.splits prod.splits intro: rel pre reb set s1)
qed

lemma settle_orphan_steps:
  assumes "settle_orphan lib ops iops e sid user fence s = (s', out)"
  shows "inbox_step\<^sup>*\<^sup>* s s'"
  using assms unfolding settle_orphan_def Let_def
  by (auto split: if_splits option.splits sum.splits prod.splits intro: settle_through_generation_steps inbox_step.unstarted)

lemma settle_orphans_steps:
  "settle_orphans lib ops iops es n cands acc s = (s', out) \<Longrightarrow> inbox_step\<^sup>*\<^sup>* s s'"
proof (induction cands arbitrary: n acc s)
  case (Cons c cands)
  obtain sid user fence where c: "c = (sid, user, fence)" by (cases c)
  obtain s1 o1 where 1: "settle_orphan lib ops iops (es n) sid user fence s = (s1, o1)" by (cases "settle_orphan lib ops iops (es n) sid user fence s")
  with Cons settle_orphan_steps [OF 1] show ?case by (cases o1) (auto simp: c intro: rtranclp_trans)
qed simp

lemma has_waking_steps:
  assumes "has_waking_input lib iops s t sid user = (s', out)"
  shows "inbox_step\<^sup>*\<^sup>* s s'"
  using assms by (auto simp: has_waking_input_def split: if_splits option.splits sum.splits intro: inbox_step.steers_expired)

lemma reserve_and_claim_steps:
  assumes "reserve_and_claim fuel lib ops iops e resting sid user s = Some (s', out)"
  shows "inbox_step\<^sup>*\<^sup>* s s'"
proof -
  obtain s1 o1 where 1: "has_waking_input lib iops s (now (sw_env e)) sid user = (s1, o1)" by fastforce
  note s1 = has_waking_steps [OF 1]
  show ?thesis
  proof (cases "o1 = Inr True")
    case False
    with assms s1 show ?thesis by (cases o1) (auto simp: reserve_and_claim_def 1)
  next
    case True
    show ?thesis
    proof (cases "reserve_run ops (ibase s1) (sw_env e) (sw_worker e) sid user None None Reserved None False")
      case (Inl x)
      with assms True s1 show ?thesis by (cases x) (auto simp: reserve_and_claim_def 1)
    next
      case (Inr y)
      then obtain w l db where y: "reserve_run ops (ibase s1) (sw_env e) (sw_worker e) sid user None None Reserved None False = Inr (w, l, db)"
        by (cases y) auto
      have s2: "inbox_step\<^sup>*\<^sup>* s (s1\<lparr>ibase := db\<rparr>)" using s1 reserve_is_step [OF y] by simp
      have s3: "inbox_step\<^sup>*\<^sup>* s s3" if "claim_inbox_boundary fuel lib iops (s1\<lparr>ibase := db\<rparr>) (now (sw_env e)) (sw_claim e) l 1 True = Some (s3, res)" for s3 res
        using s2 claim_loop_steps [OF that] by simp
      have rel: "inbox_step\<^sup>*\<^sup>* s (s3\<lparr>ibase := fst (snd (snd (release ops (ibase s3) (now (sw_env e)) w l st)))\<rparr>)"
        if "claim_inbox_boundary fuel lib iops (s1\<lparr>ibase := db\<rparr>) (now (sw_env e)) (sw_claim e) l 1 True = Some (s3, res)" for s3 res st
        using s3 [OF that] release_is_step [of s3 ops "now (sw_env e)" w l st] by simp
      show ?thesis
        using assms True unfolding reserve_and_claim_def 1 y Let_def
        by (auto simp: y split: option.splits prod.splits sum.splits list.splits bool.splits intro: s3 rel)
    qed
  qed
qed

text \<open>
  Long operations refine the transaction system. Delivering the attachments of a claim, the
  sweep over orphaned claims, and waking a conversation (reserve a run, claim, release) run several
  transactions with decisions in between and may stop at any of them. From a reachable state each
  leads, also when it raises, to a state that ordinary transactions reach, so the invariant of
  the inbox holds there and every input that was there is there, evolved lawfully.
\<close>

lemma long_operations_refine:
  assumes "start_ibx s0" and "inbox_step\<^sup>*\<^sup>* s0 s"
    and "deliver_claimed_attachments lib iops texts errs try fixed s ts fresh l item_ids expected = (s', out) \<or>
         settle_orphaned_claims lib ops iops es t s = (s', swept) \<or>
         reserve_and_claim fuel lib ops iops e resting sid user s = Some (s', woken)"
  shows "inbox_step\<^sup>*\<^sup>* s0 s' \<and> ibx_ok s' \<and>
    (\<forall>i r. tget (inbox s) i = Some r \<longrightarrow> (\<exists>r'. tget (inbox s') i = Some r' \<and> item_evolves r r'))"
proof -
  have st: "inbox_step\<^sup>*\<^sup>* s s'"
    using assms(3) by (auto intro: deliver_claimed_steps settle_orphans_steps reserve_and_claim_steps simp: settle_orphaned_claims_def)
  have ok: "ibx_ok s" using assms(1,2) by (rule inbox_reachable_ok)
  show ?thesis
    using assms(2) st conv.inv_steps [OF st ok] conv.row_steps [OF st ok] by (blast intro: rtranclp_trans)
qed

section \<open>Fairness of the main queue\<close>

lemma sorted_numbers:
  assumes "log_ok log"
  shows "sort_key e_sequence (filter (\<lambda>e. e_session e = sid \<and> P e) log) = filter (\<lambda>e. e_session e = sid \<and> P e) log"
proof (rule sort_key_id_if_sorted)
  have "sorted (map e_sequence (filter (\<lambda>e. e_session e = sid) log))"
    using assms unfolding log_ok_def numbers_def by (metis sorted_upto)
  then have "sorted (map e_sequence (filter P (filter (\<lambda>e. e_session e = sid) log)))" by (rule sorted_filter)
  then show "sorted (map e_sequence (filter (\<lambda>e. e_session e = sid \<and> P e) log))" by (simp add: conj_commute)
qed

definition queue_claims :: "ident \<Rightarrow> ident \<Rightarrow> agent_event list \<Rightarrow> agent_event list" where
  "queue_claims sid user log = filter (\<lambda>e. e_session e = sid \<and> e_user e = user \<and> e_kind e = ''assistant.queue.claimed'') log"

lemma queue_history_log:
  "log_ok (agent_log s) \<Longrightarrow>
   queue_history s sid user = map (\<lambda>e. jget ''mode'' (e_payload e)) (take 2 (rev (queue_claims sid user (agent_log s))))"
  by (simp add: queue_history_def queue_claims_def sorted_numbers)

lemma append_event_list:
  assumes "append_agent_event lib sid user kind payload fence turn step message key s = Inr s'"
  shows "(agent_log s' = agent_log s \<and> (\<exists>e \<in> set (agent_log s). e_session e = sid \<and> e_user e = user \<and> e_kind e = kind \<and> e_fence e = fence)) \<or>
    (\<exists>e. agent_log s' = agent_log s @ [e] \<and> e_session e = sid \<and> e_user e = user \<and> e_kind e = kind \<and> e_payload e = clean_payload payload)"
proof (cases "find (\<lambda>e. e_session e = sid \<and> e_key e = event_key lib kind fence turn step message key) (agent_log s)")
  case None
  with assms show ?thesis by (auto simp: append_agent_event_def Let_def split: if_splits)
next
  case (Some e)
  then have "e \<in> set (agent_log s)" "e_session e = sid" by (auto simp: find_Some_iff)
  moreover from Some assms have "s' = s" "e_user e = user" "e_kind e = kind" "e_fence e = fence"
    by (simp_all add: append_agent_event_def Let_def split: if_splits)
  ultimately show ?thesis by blast
qed

lemma materialize_queue:
  "materialize lib l worker turn step t mids toks n rows s = Inr s' \<Longrightarrow>
   queue_claims sid user (agent_log s') = queue_claims sid user (agent_log s)"
proof (induction rows arbitrary: n s)
  case (Cons x rows)
  obtain i r where x: "x = (i, r)" by (cases x)
  from Cons.prems obtain m s1 where
      a: "append_agent_event lib (l_session_id l) (l_user_id l) ''inbox.claimed'' (claim_payload i r (mids n) (toks n))
        (Some (l_run_id l, l_generation l)) (Some turn) (Some step) (Some (mids n))
        (''inbox:'' @ i @ '':claimed:'' @ l_run_id l @ '':'' @ int_text (l_generation l) @ '':'' @ step)
        (put_item i (claim_row l (mids n) turn step (toks n) worker t r) (s\<lparr>transcript := tput (mids n) m (transcript s)\<rparr>)) = Inr s1"
    and b: "materialize lib l worker turn step t mids toks (Suc n) rows s1 = Inr s'"
    by (simp add: x rbind_Inr_iff insert_message_Inr) blast
  from append_event_list [OF a] have "queue_claims sid user (agent_log s1) = queue_claims sid user (agent_log s)"
    by (auto simp: queue_claims_def put_item_def)
  with Cons.IH [OF b] show ?case by simp
qed simp

lemma choose_mode_fair:
  "choose_mode t history heads = Ordinary \<Longrightarrow> history \<noteq> [JStr ''ordinary'', JStr ''ordinary'']"
  "choose_mode t history heads = ReportOnly \<Longrightarrow> take 1 history \<noteq> [JStr ''report_only'']"
proof -
  show "choose_mode t history heads = Ordinary \<Longrightarrow> history \<noteq> [JStr ''ordinary'', JStr ''ordinary'']"
    by (auto simp: choose_mode_def exhausted_def other_mode_def Let_def)
  have "exhausted history \<and> other_mode history = Ordinary" if "take 1 history = [JStr ''report_only'']"
    using that by (cases history) (simp_all add: exhausted_def other_mode_def)
  then show "choose_mode t history heads = ReportOnly \<Longrightarrow> take 1 history \<noteq> [JStr ''report_only'']"
    by (auto simp: choose_mode_def Let_def)
qed

lemma mode_head_nonempty:
  "tget (inbox s) i = Some r \<Longrightarrow> waiting sid user r \<Longrightarrow> mode_head s sid user (mode_of r) \<noteq> []"
proof -
  assume "tget (inbox s) i = Some r" "waiting sid user r"
  then have "(i, r) \<in> set (rows_of s sid user (\<lambda>x. i_state x = InAccepted \<and> mode_of x = mode_of r))"
    by (auto simp: rows_of_mem dest: tget_in)
  then show ?thesis by (auto simp: mode_head_def)
qed

lemma main_turn_choice:
  assumes "\<not> admission_blocked iops (assistant (ibase s)) sid" and "(i, r) \<in> set (select_main_turn_locked iops s t sid user incl)"
    and "\<And>m. mode_head s sid user m \<noteq> []"
  shows "\<exists>heads. mode_of r = choose_mode t (queue_history s sid user) heads \<and>
    select_main_turn_locked iops s t sid user incl = [(i, r)]"
proof -
  define heads where "heads = (\<lambda>m. snd (hd (mode_head s sid user m)))"
  have sel: "select_main_turn_locked iops s t sid user incl = mode_head s sid user (choose_mode t (queue_history s sid user) heads)"
    using assms unfolding select_main_turn_locked_def mode_head_def [symmetric] Let_def heads_def by (auto split: if_splits)
  with assms(2) have m: "(i, r) \<in> set (mode_head s sid user (choose_mode t (queue_history s sid user) heads))" by simp
  then have "mode_head s sid user (choose_mode t (queue_history s sid user) heads) = [(i, r)]"
    by (cases "rows_of s sid user (\<lambda>x. i_state x = InAccepted \<and> mode_of x = choose_mode t (queue_history s sid user) heads)")
       (auto simp: mode_head_def)
  with sel mode_head_mem [OF m] show ?thesis by auto
qed

lemma main_claim_recorded:
  assumes "claim_selected lib iops s t ce l owner step [(i, r)] = Inr s'" and "s_kind owner = ''assistant''" and "s_user_id owner = l_user_id l"
    and new: "\<forall>e \<in> set (queue_claims (l_session_id l) (l_user_id l) (agent_log s)). e_fence e \<noteq> Some (l_run_id l, l_generation l)"
  shows "\<exists>e. queue_claims (l_session_id l) (l_user_id l) (agent_log s') = queue_claims (l_session_id l) (l_user_id l) (agent_log s) @ [e] \<and>
    jget ''mode'' (e_payload e) = JStr (mode_name (mode_of r))"
proof -
  from claim_selected_Inr [OF assms(1)] obtain s1 s2 a turn t' where
      1: "materialize lib l (ce_worker ce) turn (step_name l step) t' (ce_messages ce) (ce_tokens ce) 0 [(i, r)] s = Inr s1"
    and 2: "record_main_claim_locked lib (l_session_id l) owner [(i, r)] (l_run_id l, l_generation l) turn (set_assistant a s1) = Inr s2"
    and log: "agent_log s' = agent_log s2" by blast
  note q = materialize_queue [OF 1, of "l_session_id l" "l_user_id l"]
  from 2 assms(2,3) obtain key where
      ap: "append_agent_event lib (l_session_id l) (l_user_id l) ''assistant.queue.claimed''
             [(''mode'', JStr (mode_name (mode_of r))), (''inbox_id'', JStr i)]
             (Some (l_run_id l, l_generation l)) (Some turn) None None key (set_assistant a s1) = Inr s2"
    by (auto simp: record_main_claim_locked_def)
  have "\<not> (\<exists>e \<in> set (agent_log (set_assistant a s1)). e_session e = l_session_id l \<and> e_user e = l_user_id l \<and>
      e_kind e = ''assistant.queue.claimed'' \<and> e_fence e = Some (l_run_id l, l_generation l))"
    using new unfolding q [symmetric] by (auto simp: queue_claims_def set_assistant_def)
  with append_event_list [OF ap] obtain e where e: "agent_log s2 = agent_log s1 @ [e]" "e_session e = l_session_id l" "e_user e = l_user_id l"
      "e_kind e = ''assistant.queue.claimed''" "e_payload e = clean_payload [(''mode'', JStr (mode_name (mode_of r))), (''inbox_id'', JStr i)]"
    by (auto simp: set_assistant_def)
  then have "queue_claims (l_session_id l) (l_user_id l) (agent_log s') = queue_claims (l_session_id l) (l_user_id l) (agent_log s1) @ [e]"
    by (simp add: log queue_claims_def)
  moreover have "jget ''mode'' (e_payload e) = JStr (mode_name (mode_of r))"
    by (simp add: e(5) clean_payload_def jget_def tput_def)
  ultimately show ?thesis using q by auto
qed

text \<open>
  The main queue of the assistant is fair. While an ordinary input and a report wait together and
  no decision blocks admission, a turn takes exactly one input; it is an ordinary one only if the
  last two turns were not both ordinary, and a report only if the last turn was not a report. The
  turn is recorded for the next decision when its run had recorded none yet.
\<close>

lemma main_queue_is_fair:
  assumes "start_ibx s0" and "inbox_step\<^sup>*\<^sup>* s0 s"
    and "prepare_agent_event_write iops s t (l_session_id l) (l_user_id l) (Some (lease_fence l)) = Inr owner"
    and "s_kind owner = ''assistant''" and "\<not> admission_blocked iops (assistant (ibase s)) (l_session_id l)"
    and "claim_inbox_boundary_once lib iops s t ce l step incl = Inr (s', ids)" and "i \<in> set ids" and "tget (inbox s) i = Some r"
    and "tget (inbox s) j = Some x" and "waiting (l_session_id l) (l_user_id l) x" and "mode_of x \<noteq> mode_of r"
  shows "ids = [i] \<and>
    (mode_of r = Ordinary \<longrightarrow> queue_history s (l_session_id l) (l_user_id l) \<noteq> [JStr ''ordinary'', JStr ''ordinary'']) \<and>
    (mode_of r = ReportOnly \<longrightarrow> take 1 (queue_history s (l_session_id l) (l_user_id l)) \<noteq> [JStr ''report_only'']) \<and>
    ((\<forall>e \<in> set (queue_claims (l_session_id l) (l_user_id l) (agent_log s)). e_fence e \<noteq> Some (l_run_id l, l_generation l)) \<longrightarrow>
       queue_history s' (l_session_id l) (l_user_id l) =
         JStr (mode_name (mode_of r)) # take 1 (queue_history s (l_session_id l) (l_user_id l)))"
proof -
  let ?sid = "l_session_id l" and ?user = "l_user_id l"
  have ok: "ibx_ok s" using assms(1,2) by (rule inbox_reachable_ok)
  have ok': "ibx_ok s'" using claim_boundary_once_change [OF assms(6)] ok by (rule ichange_ok)
  have exp: "expire_task_steers_locked lib iops s t ?sid owner None = Inr s"
    using assms(4) by (simp add: expire_task_steers_locked_def expired_steers_def)
  let ?rows = "boundary_rows iops s t owner l incl"
  from assms(6) have cl: "ids = map fst ?rows \<and> (if ?rows = [] then s' = s else claim_selected lib iops s t ce l owner step ?rows = Inr s')"
    by (rule claim_boundary_once_Inr) (use assms(3) exp in auto)
  then have "boundary_rows iops s t owner l incl \<noteq> []" using assms(7) by auto
  then have rows: "?rows = select_main_turn_locked iops s t ?sid ?user incl"
    using assms(4) by (auto simp: boundary_rows_def split: if_splits)
  have r: "(i, r) \<in> set ?rows" "waiting ?sid ?user r"
    using boundary_rows_waiting [OF ok, of l iops t owner incl] assms(7,8) cl by (force simp: rows_in_def)+
  have heads: "mode_head s ?sid ?user m \<noteq> []" for m
    using mode_head_nonempty [OF assms(8) r(2)] mode_head_nonempty [OF assms(9,10)] assms(11)
    by (cases "mode_of r"; cases "mode_of x"; cases m) auto
  from main_turn_choice [OF assms(5) r(1) [unfolded rows] heads] obtain heads where
      m: "mode_of r = choose_mode t (queue_history s ?sid ?user) heads" and one: "?rows = [(i, r)]"
    unfolding rows by blast
  have "queue_history s' ?sid ?user = JStr (mode_name (mode_of r)) # take 1 (queue_history s ?sid ?user)"
    if "\<forall>e \<in> set (queue_claims ?sid ?user (agent_log s)). e_fence e \<noteq> Some (l_run_id l, l_generation l)"
  proof -
    have "claim_selected lib iops s t ce l owner step [(i, r)] = Inr s'" using cl by (simp add: one)
    from main_claim_recorded [OF this assms(4) prepare_user [OF assms(3)] that] ok ok' show ?thesis
      by (auto simp: queue_history_log ibx_ok_def take_map)
  qed
  then show ?thesis using cl one m choose_mode_fair [of t "queue_history s ?sid ?user" heads] by auto
qed

end
