(* ===== verification/Inbox_Examples.thy ===== *)
theory Inbox_Examples
  imports Inbox_Guarantees Driver_Examples
begin

text \<open>
  A concrete conversation, used by the witnesses: two human messages are accepted, the run claims the
  first and settles it; in the assistant's own conversation a human message and a report wait together.
  The digest is the identity, and the tables of the other components are trivial.
\<close>

definition ix_lib :: stdlib where
  "ix_lib = example_lib\<lparr>sha256_hex := (\<lambda>x. x)\<rparr>"

definition ix_ops :: "unit inbox_ops" where
  "ix_ops = \<lparr>ticket_bound = (\<lambda>_ _ _. False), ticket_stale = (\<lambda>_ _. False), asset_ready = (\<lambda>_ _ _ _. True),
     admission_blocked = (\<lambda>_ _. False), execution_running = (\<lambda>_ _. False), task_held = (\<lambda>_ _ _. False),
     linked_task_id = (\<lambda>_ _. None), task_steers = (\<lambda>_ _ _. None), bind_baseline = (\<lambda>_ _ _ r. r),
     claimed_hook = (\<lambda>a _ _. Inr a), canceled_hook = (\<lambda>a _ _. a), steered_hook = (\<lambda>a _ _. a),
     settled_hook = (\<lambda>a _ _ _ _. a), not_run_hook = (\<lambda>a _ _. a)\<rparr>"

definition ix_session :: "string \<Rightarrow> session_row" where
  "ix_session kind = \<lparr>s_user_id = ''u'', s_is_deleted = False, s_status = ''busy'', s_kind = kind,
     s_project_id = None, s_workspace_id = ''ws'', s_updated_at = 0\<rparr>"

definition ix_lease :: "ident \<Rightarrow> int \<Rightarrow> lease" where
  "ix_lease sid g = \<lparr>l_session_id = sid, l_user_id = ''u'', l_run_id = ''r'', l_generation = g, l_owner_id = ''w'',
     l_abort = 0, l_monitor = True, l_closed = False, l_lost = False, l_transport_revoked = False, l_lease_expires_at = None\<rparr>"

definition ix_driver :: driver_row where
  "ix_driver = \<lparr>d_user_id = ''u'', d_generation = 1, d_run_id = Some ''r'', d_owner_id = Some ''w'', d_phase = Running,
     d_trigger_message_id = None, d_lease_expires_at = Some 1000, d_abort_requested_at = None, d_started_at = Some 0, d_updated_at = 0\<rparr>"

definition ix0 :: "unit ibx" where
  "ix0 = \<lparr>ibase = \<lparr>sessions = [(''s'', ix_session ''normal''), (''a'', ix_session ''assistant'')],
       drivers = [(''s'', ix_driver), (''a'', ix_driver)], assistant = ()\<rparr>,
     inbox = [], transcript = [], agent_log = []\<rparr>"

definition ix_args :: "string option \<Rightarrow> origin \<Rightarrow> json \<Rightarrow> accept_args" where
  "ix_args c origin reference = \<lparr>aa_delivery = Followup, aa_prompt = ''p'', aa_attachments = [], aa_client_id = c, aa_agent = None,
     aa_model = None, aa_video_model = None, aa_video_resolution = None, aa_variant = None, aa_output_format = None,
     aa_origin = origin, aa_origin_ref = Some reference, aa_system = False\<rparr>"

definition ix_ref :: json where "ix_ref = JDict [(''actor_user_id'', JStr ''u'')]"
definition ix_report_ref :: json where
  "ix_report_ref = JDict [(''execution_mode'', JStr ''report_only''), (''result_id'', JStr ''x''), (''report_attempt'', JInt 1)]"

definition ix_human :: "string option \<Rightarrow> accept_args" where
  "ix_human c = ix_args c Human ix_ref"

definition ix_report :: accept_args where
  "ix_report = ix_args None TaskResult ix_report_ref"

definition ix_next :: "ident \<Rightarrow> ident \<Rightarrow> accept_args \<Rightarrow> time \<Rightarrow> unit ibx \<Rightarrow> unit ibx" where
  "ix_next fresh sid a t s = fst (projr (accept_inbox_item ix_lib ix_ops s t fresh sid ''u'' a))"

definition ix1 :: "unit ibx" where "ix1 = ix_next ''i1'' ''s'' (ix_human (Some ''c'')) 1 ix0"
definition ix2 :: "unit ibx" where "ix2 = ix_next ''i2'' ''s'' (ix_human None) 2 ix1"
definition ix3 :: "unit ibx" where "ix3 = ix_next ''i3'' ''a'' (ix_human None) 3 ix2"
definition ix4 :: "unit ibx" where "ix4 = ix_next ''i4'' ''a'' ix_report 4 ix3"

definition ix_env :: claim_env where
  "ix_env = \<lparr>ce_worker = ''w'', ce_messages = (\<lambda>n. ''m'' @ nat_text n), ce_tokens = (\<lambda>n. ''t'')\<rparr>"

section \<open>Evaluation\<close>

lemma append_new:
  assumes "kind \<noteq> []" and "length kind \<le> 48" and "case fence of None \<Rightarrow> True | Some (run, g) \<Rightarrow> run \<noteq> [] \<and> 1 \<le> g"
    and "\<And>e. e \<in> set (agent_log s) \<Longrightarrow> e_session e = sid \<Longrightarrow> e_key e \<noteq> event_key lib kind fence turn step message key"
  shows "\<exists>e. append_agent_event lib sid user kind payload fence turn step message key s = Inr (s\<lparr>agent_log := agent_log s @ [e]\<rparr>) \<and>
    e_session e = sid \<and> e_key e = event_key lib kind fence turn step message key \<and> e_kind e = kind"
proof -
  have n: "find (\<lambda>e. e_session e = sid \<and> e_key e = event_key lib kind fence turn step message key) (agent_log s) = None"
    using assms(4) by (auto simp: find_None_iff)
  show ?thesis using assms(1-3) unfolding append_agent_event_def Let_def n by (auto split: option.splits)
qed

lemma ix_origins:
  "checked_origin Human (Some ix_ref) ''u'' = Inr ix_ref"
  "checked_origin TaskResult (Some ix_report_ref) ''u'' = Inr ix_report_ref"
proof -
  have l: "length (json_dumps_default ix_ref) \<le> 100" "length (json_dumps_default ix_report_ref) \<le> 100"
    by code_simp+
  have j: "jget ''client_message_id'' ix_ref = JNull" "jget ''actor_user_id'' ix_ref = JStr ''u''"
      "jget ''execution_mode'' ix_report_ref = JStr ''report_only''" "jget ''result_id'' ix_report_ref = JStr ''x''"
      "jget ''report_attempt'' ix_report_ref = JInt 1"
    by (simp_all add: jget_def ix_ref_def ix_report_ref_def)
  show "checked_origin Human (Some ix_ref) ''u'' = Inr ix_ref"
    "checked_origin TaskResult (Some ix_report_ref) ''u'' = Inr ix_report_ref"
    using l by (simp_all add: checked_origin_def or_empty_def Let_def j truthy_def)
qed

definition ix_row :: "accept_args \<Rightarrow> ident \<Rightarrow> string \<Rightarrow> json \<Rightarrow> time \<Rightarrow> item_row" where
  "ix_row a sid kind reference t = new_item a sid (ix_session kind) (request_digest ix_lib a (aa_origin a) reference) (aa_origin a) reference t"

definition ix_kind :: "ident \<Rightarrow> string" where "ix_kind sid = (if sid = ''a'' then ''assistant'' else ''normal'')"

lemma ix_open:
  assumes "ibase s = ibase ix0" and "sid \<in> {''s'', ''a''}"
  shows "prepare_agent_event_write ix_ops s t sid ''u'' None = Inr (ix_session (ix_kind sid))"
    and "t < 1000 \<Longrightarrow> prepare_agent_event_write ix_ops s t sid ''u'' (Some (lease_fence (ix_lease sid 1))) = Inr (ix_session (ix_kind sid))"
  using assms
  by (auto simp: prepare_agent_event_write_def lock_session_def open_session_def owned_session_def ix0_def ix_ops_def ix_session_def
      tget_def ix_kind_def lease_fence_def ix_lease_def assert_owned_driver_fence_locked_def fence_row_def ix_driver_def guard_that_def)

text \<open>A message or a report is accepted into either conversation when its id is new and its client id unused.\<close>

lemma ix_accept_eq:
  assumes "ibase s = ibase ix0" and "sid \<in> {''s'', ''a''}" and "a = ix_args c Human ix_ref \<and> reference = ix_ref \<or> a = ix_args c TaskResult ix_report_ref \<and> reference = ix_report_ref"
    and "c \<in> {None, Some ''c''}" and "find (same_client sid ''u'' c) (inbox s) = None" and "tget (inbox s) fresh = None"
    and "\<And>e. e \<in> set (agent_log s) \<Longrightarrow> e_session e = sid \<Longrightarrow> e_key e \<noteq> event_key ix_lib ''inbox.accepted'' None None None None (''inbox:'' @ fresh @ '':accepted'')"
  shows "\<exists>e. accept_inbox_item ix_lib ix_ops s t fresh sid ''u'' a =
      Inr (s\<lparr>inbox := tput fresh (ix_row a sid (ix_kind sid) reference t) (inbox s), agent_log := agent_log s @ [e]\<rparr>,
           \<lparr>rc_id = fresh, rc_row = ix_row a sid (ix_kind sid) reference t, rc_created = True\<rparr>) \<and>
    e_session e = sid \<and> e_key e = event_key ix_lib ''inbox.accepted'' None None None None (''inbox:'' @ fresh @ '':accepted'') \<and> e_kind e = ''inbox.accepted''"
proof -
  let ?row = "ix_row a sid (ix_kind sid) reference t"
  have o: "admitted_origin a = aa_origin a" "aa_client_id a = c" "aa_delivery a = Followup" "aa_agent a = None" "aa_attachments a = []"
      "aa_origin_ref a = Some reference" "checked_origin (aa_origin a) (Some reference) ''u'' = Inr reference" "validate_input a = Inr ()"
    using assms(3,4) ix_origins
    by (auto simp: admitted_origin_def ix_args_def validate_input_def MAX_PROMPT_CHARS_def MAX_ATTACHMENTS_def is_system_client_id_def
        SYSTEM_CLIENT_PREFIXES_def)
  have u: "s_user_id (ix_session k) = ''u''" "s_kind (ix_session k) = k" for k by (simp_all add: ix_session_def)
  let ?payload = "[(''item_id'', JStr fresh), (''state'', JStr ''accepted''),
          (''delivery'', JStr (delivery_name (aa_delivery a))), (''target'', JStr (target_name (i_target ?row))),
          (''client_id'', opt_str (aa_client_id a)), (''request_digest'', JStr (request_digest ix_lib a (aa_origin a) reference)),
          (''attachment_count'', JInt (int (length (aa_attachments a)))),
          (''origin'', JStr (origin_name (aa_origin a))), (''origin_ref'', reference)]"
  have "\<exists>e. append_agent_event ix_lib sid ''u'' ''inbox.accepted'' ?payload None None None None (''inbox:'' @ fresh @ '':accepted'') (put_item fresh ?row s) =
       Inr ((put_item fresh ?row s)\<lparr>agent_log := agent_log (put_item fresh ?row s) @ [e]\<rparr>) \<and>
     e_session e = sid \<and> e_key e = event_key ix_lib ''inbox.accepted'' None None None None (''inbox:'' @ fresh @ '':accepted'') \<and> e_kind e = ''inbox.accepted''"
    by (rule append_new) (use assms(7) in \<open>simp_all add: put_item_def\<close>)
  then obtain e where e: "append_agent_event ix_lib sid ''u'' ''inbox.accepted'' ?payload None None None None (''inbox:'' @ fresh @ '':accepted'') (put_item fresh ?row s) =
       Inr ((put_item fresh ?row s)\<lparr>agent_log := agent_log (put_item fresh ?row s) @ [e]\<rparr>)"
     "e_session e = sid" "e_key e = event_key ix_lib ''inbox.accepted'' None None None None (''inbox:'' @ fresh @ '':accepted'')" "e_kind e = ''inbox.accepted''"
    by blast
  have i: "insert_item ix_lib ix_ops s t fresh sid (ix_session (ix_kind sid)) a (request_digest ix_lib a (aa_origin a) reference) (aa_origin a) reference =
      Inr (s\<lparr>inbox := tput fresh ?row (inbox s), agent_log := agent_log s @ [e]\<rparr>, \<lparr>rc_id = fresh, rc_row = ?row, rc_created = True\<rparr>)"
    using e(1) assms(6) unfolding insert_item_def Let_def
    by (simp add: u o(5) ix_ops_def ix_row_def put_item_def)
  have "accept_inbox_item_locked ix_lib ix_ops s t fresh sid (ix_session (ix_kind sid)) a =
      Inr (s\<lparr>inbox := tput fresh ?row (inbox s), agent_log := agent_log s @ [e]\<rparr>, \<lparr>rc_id = fresh, rc_row = ?row, rc_created = True\<rparr>)"
    unfolding accept_inbox_item_locked_def Let_def o u o(7) rbind_simps assms(5) using i by simp
  with e show ?thesis by (auto simp: accept_inbox_item_def ix_open [OF assms(1,2)])
qed

definition ix_key :: "ident \<Rightarrow> string" where
  "ix_key fresh = event_key ix_lib ''inbox.accepted'' None None None None (''inbox:'' @ fresh @ '':accepted'')"

lemma ix_keys: "ix_key ''i1'' \<noteq> ix_key ''i2''" "ix_key ''i3'' \<noteq> ix_key ''i4''"
  by code_simp+

lemma ix_next_eq:
  assumes "ibase s = ibase ix0" and "sid \<in> {''s'', ''a''}" and "a = ix_args c Human ix_ref \<and> reference = ix_ref \<or> a = ix_args c TaskResult ix_report_ref \<and> reference = ix_report_ref"
    and "c \<in> {None, Some ''c''}" and "find (same_client sid ''u'' c) (inbox s) = None" and "tget (inbox s) fresh = None"
    and "\<forall>e \<in> set (agent_log s). e_session e = sid \<longrightarrow> e_key e \<noteq> ix_key fresh"
  shows "accept_inbox_item ix_lib ix_ops s t fresh sid ''u'' a =
      Inr (ix_next fresh sid a t s, \<lparr>rc_id = fresh, rc_row = ix_row a sid (ix_kind sid) reference t, rc_created = True\<rparr>)"
    and "ibase (ix_next fresh sid a t s) = ibase ix0" and "transcript (ix_next fresh sid a t s) = transcript s"
    and "inbox (ix_next fresh sid a t s) = tput fresh (ix_row a sid (ix_kind sid) reference t) (inbox s)"
    and "map (\<lambda>e. (e_session e, e_key e)) (agent_log (ix_next fresh sid a t s)) =
         map (\<lambda>e. (e_session e, e_key e)) (agent_log s) @ [(sid, ix_key fresh)]"
    and "map e_kind (agent_log (ix_next fresh sid a t s)) = map e_kind (agent_log s) @ [''inbox.accepted'']"
proof -
  have f: "\<And>e. e \<in> set (agent_log s) \<Longrightarrow> e_session e = sid \<Longrightarrow>
      e_key e \<noteq> event_key ix_lib ''inbox.accepted'' None None None None (''inbox:'' @ fresh @ '':accepted'')"
    using assms(7) by (simp add: ix_key_def)
  from ix_accept_eq [OF assms(1-6) f, of t] obtain e where
      e: "accept_inbox_item ix_lib ix_ops s t fresh sid ''u'' a =
      Inr (s\<lparr>inbox := tput fresh (ix_row a sid (ix_kind sid) reference t) (inbox s), agent_log := agent_log s @ [e]\<rparr>,
           \<lparr>rc_id = fresh, rc_row = ix_row a sid (ix_kind sid) reference t, rc_created = True\<rparr>)"
      "e_session e = sid" "e_key e = ix_key fresh" "e_kind e = ''inbox.accepted''"
    unfolding ix_key_def by blast
  then have n: "ix_next fresh sid a t s = s\<lparr>inbox := tput fresh (ix_row a sid (ix_kind sid) reference t) (inbox s), agent_log := agent_log s @ [e]\<rparr>"
    by (simp add: ix_next_def)
  show "accept_inbox_item ix_lib ix_ops s t fresh sid ''u'' a =
      Inr (ix_next fresh sid a t s, \<lparr>rc_id = fresh, rc_row = ix_row a sid (ix_kind sid) reference t, rc_created = True\<rparr>)"
    using e(1) n by simp
  show "ibase (ix_next fresh sid a t s) = ibase ix0" "transcript (ix_next fresh sid a t s) = transcript s"
    "inbox (ix_next fresh sid a t s) = tput fresh (ix_row a sid (ix_kind sid) reference t) (inbox s)"
    "map (\<lambda>e. (e_session e, e_key e)) (agent_log (ix_next fresh sid a t s)) =
         map (\<lambda>e. (e_session e, e_key e)) (agent_log s) @ [(sid, ix_key fresh)]"
    "map e_kind (agent_log (ix_next fresh sid a t s)) = map e_kind (agent_log s) @ [''inbox.accepted'']"
    by (simp_all add: n assms(1) e)
qed

definition ix_r1 :: item_row where "ix_r1 = ix_row (ix_human (Some ''c'')) ''s'' ''normal'' ix_ref 1"
definition ix_r2 :: item_row where "ix_r2 = ix_row (ix_human None) ''s'' ''normal'' ix_ref 2"
definition ix_r3 :: item_row where "ix_r3 = ix_row (ix_human None) ''a'' ''assistant'' ix_ref 3"
definition ix_r4 :: item_row where "ix_r4 = ix_row ix_report ''a'' ''assistant'' ix_report_ref 4"

lemmas ix_rows = ix_r1_def ix_r2_def ix_r3_def ix_r4_def ix_row_def new_item_def ix_human_def ix_report_def ix_args_def ix_session_def

lemma log_pairs:
  assumes "map (\<lambda>e. (e_session e, e_key e)) log = ps"
  shows "(\<forall>e \<in> set log. e_session e = sid \<longrightarrow> e_key e \<noteq> k) \<longleftrightarrow> (\<forall>p \<in> set ps. fst p = sid \<longrightarrow> snd p \<noteq> k)"
  unfolding assms [symmetric] by auto

lemma ix1_facts:
  "accept_inbox_item ix_lib ix_ops ix0 1 ''i1'' ''s'' ''u'' (ix_human (Some ''c'')) = Inr (ix1, \<lparr>rc_id = ''i1'', rc_row = ix_r1, rc_created = True\<rparr>)"
  "ibase ix1 = ibase ix0" "transcript ix1 = []" "inbox ix1 = [(''i1'', ix_r1)]"
  "map (\<lambda>e. (e_session e, e_key e)) (agent_log ix1) = [(''s'', ix_key ''i1'')]"
  "map e_kind (agent_log ix1) = [''inbox.accepted'']"
proof -
  have a: "ix_human (Some ''c'') = ix_args (Some ''c'') Human ix_ref" by (simp add: ix_human_def)
  note e = ix_next_eq [of ix0 "''s''" "ix_human (Some ''c'')" "Some ''c''" ix_ref "''i1''" 1, folded ix1_def]
  show "accept_inbox_item ix_lib ix_ops ix0 1 ''i1'' ''s'' ''u'' (ix_human (Some ''c'')) = Inr (ix1, \<lparr>rc_id = ''i1'', rc_row = ix_r1, rc_created = True\<rparr>)"
    "ibase ix1 = ibase ix0" "transcript ix1 = []" "inbox ix1 = [(''i1'', ix_r1)]"
    "map (\<lambda>e. (e_session e, e_key e)) (agent_log ix1) = [(''s'', ix_key ''i1'')]"
    "map e_kind (agent_log ix1) = [''inbox.accepted'']"
    using e by (simp_all add: a ix0_def ix_r1_def ix_kind_def tput_def)
qed

lemma ix2_facts:
  "accept_inbox_item ix_lib ix_ops ix1 2 ''i2'' ''s'' ''u'' (ix_human None) = Inr (ix2, \<lparr>rc_id = ''i2'', rc_row = ix_r2, rc_created = True\<rparr>)"
  "ibase ix2 = ibase ix0" "transcript ix2 = []" "inbox ix2 = [(''i1'', ix_r1), (''i2'', ix_r2)]"
  "map (\<lambda>e. (e_session e, e_key e)) (agent_log ix2) = [(''s'', ix_key ''i1''), (''s'', ix_key ''i2'')]"
  "map e_kind (agent_log ix2) = [''inbox.accepted'', ''inbox.accepted'']"
proof -
  have a: "ix_human None = ix_args None Human ix_ref" by (simp add: ix_human_def)
  have f: "find (same_client ''s'' ''u'' None) (inbox ix1) = None" by (simp add: find_None_iff same_client_def)
  have k: "\<forall>e \<in> set (agent_log ix1). e_session e = ''s'' \<longrightarrow> e_key e \<noteq> ix_key ''i2''"
    by (simp add: log_pairs [OF ix1_facts(5)] ix_keys)
  note e = ix_next_eq [of ix1 "''s''" "ix_human None" None ix_ref "''i2''" 2, folded ix2_def, OF ix1_facts(2) _ _ _ f _ k]
  show "accept_inbox_item ix_lib ix_ops ix1 2 ''i2'' ''s'' ''u'' (ix_human None) = Inr (ix2, \<lparr>rc_id = ''i2'', rc_row = ix_r2, rc_created = True\<rparr>)"
    "ibase ix2 = ibase ix0" "transcript ix2 = []" "inbox ix2 = [(''i1'', ix_r1), (''i2'', ix_r2)]"
    "map (\<lambda>e. (e_session e, e_key e)) (agent_log ix2) = [(''s'', ix_key ''i1''), (''s'', ix_key ''i2'')]"
    "map e_kind (agent_log ix2) = [''inbox.accepted'', ''inbox.accepted'']"
    using e by (simp_all add: a ix1_facts ix_r2_def ix_kind_def tput_def tget_def)
qed

lemma ix3_facts:
  "accept_inbox_item ix_lib ix_ops ix2 3 ''i3'' ''a'' ''u'' (ix_human None) = Inr (ix3, \<lparr>rc_id = ''i3'', rc_row = ix_r3, rc_created = True\<rparr>)"
  "ibase ix3 = ibase ix0" "transcript ix3 = []" "inbox ix3 = [(''i1'', ix_r1), (''i2'', ix_r2), (''i3'', ix_r3)]"
  "map (\<lambda>e. (e_session e, e_key e)) (agent_log ix3) = [(''s'', ix_key ''i1''), (''s'', ix_key ''i2''), (''a'', ix_key ''i3'')]"
  "map e_kind (agent_log ix3) = [''inbox.accepted'', ''inbox.accepted'', ''inbox.accepted'']"
proof -
  have a: "ix_human None = ix_args None Human ix_ref" by (simp add: ix_human_def)
  have f: "find (same_client ''a'' ''u'' None) (inbox ix2) = None" by (simp add: find_None_iff same_client_def)
  have k: "\<forall>e \<in> set (agent_log ix2). e_session e = ''a'' \<longrightarrow> e_key e \<noteq> ix_key ''i3''"
    by (simp add: log_pairs [OF ix2_facts(5)])
  note e = ix_next_eq [of ix2 "''a''" "ix_human None" None ix_ref "''i3''" 3, folded ix3_def, OF ix2_facts(2) _ _ _ f _ k]
  show "accept_inbox_item ix_lib ix_ops ix2 3 ''i3'' ''a'' ''u'' (ix_human None) = Inr (ix3, \<lparr>rc_id = ''i3'', rc_row = ix_r3, rc_created = True\<rparr>)"
    "ibase ix3 = ibase ix0" "transcript ix3 = []" "inbox ix3 = [(''i1'', ix_r1), (''i2'', ix_r2), (''i3'', ix_r3)]"
    "map (\<lambda>e. (e_session e, e_key e)) (agent_log ix3) = [(''s'', ix_key ''i1''), (''s'', ix_key ''i2''), (''a'', ix_key ''i3'')]"
    "map e_kind (agent_log ix3) = [''inbox.accepted'', ''inbox.accepted'', ''inbox.accepted'']"
    using e by (simp_all add: a ix2_facts ix_r3_def ix_kind_def tput_def tget_def)
qed

lemma ix4_facts:
  "accept_inbox_item ix_lib ix_ops ix3 4 ''i4'' ''a'' ''u'' ix_report = Inr (ix4, \<lparr>rc_id = ''i4'', rc_row = ix_r4, rc_created = True\<rparr>)"
  "ibase ix4 = ibase ix0" "transcript ix4 = []" "inbox ix4 = [(''i1'', ix_r1), (''i2'', ix_r2), (''i3'', ix_r3), (''i4'', ix_r4)]"
  "map (\<lambda>e. (e_session e, e_key e)) (agent_log ix4) =
     [(''s'', ix_key ''i1''), (''s'', ix_key ''i2''), (''a'', ix_key ''i3''), (''a'', ix_key ''i4'')]"
  "map e_kind (agent_log ix4) = [''inbox.accepted'', ''inbox.accepted'', ''inbox.accepted'', ''inbox.accepted'']"
proof -
  have a: "ix_report = ix_args None TaskResult ix_report_ref" by (simp add: ix_report_def)
  have f: "find (same_client ''a'' ''u'' None) (inbox ix3) = None" by (simp add: find_None_iff same_client_def)
  have k: "\<forall>e \<in> set (agent_log ix3). e_session e = ''a'' \<longrightarrow> e_key e \<noteq> ix_key ''i4''"
    by (simp add: log_pairs [OF ix3_facts(5)] ix_keys)
  note e = ix_next_eq [of ix3 "''a''" ix_report None ix_report_ref "''i4''" 4, folded ix4_def, OF ix3_facts(2) _ _ _ f _ k]
  show "accept_inbox_item ix_lib ix_ops ix3 4 ''i4'' ''a'' ''u'' ix_report = Inr (ix4, \<lparr>rc_id = ''i4'', rc_row = ix_r4, rc_created = True\<rparr>)"
    "ibase ix4 = ibase ix0" "transcript ix4 = []" "inbox ix4 = [(''i1'', ix_r1), (''i2'', ix_r2), (''i3'', ix_r3), (''i4'', ix_r4)]"
    "map (\<lambda>e. (e_session e, e_key e)) (agent_log ix4) =
     [(''s'', ix_key ''i1''), (''s'', ix_key ''i2''), (''a'', ix_key ''i3''), (''a'', ix_key ''i4'')]"
    "map e_kind (agent_log ix4) = [''inbox.accepted'', ''inbox.accepted'', ''inbox.accepted'', ''inbox.accepted'']"
    using e by (simp_all add: a ix3_facts ix_r4_def ix_kind_def tput_def tget_def)
qed

lemma ix_start: "start_ibx ix0"
  by (simp add: start_ibx_def ix0_def log_ok_def numbers_def log_keys_def twf_def)

lemma ix_reach: "inbox_step\<^sup>*\<^sup>* ix0 ix1" "inbox_step\<^sup>*\<^sup>* ix0 ix4"
proof -
  have "inbox_step ix0 ix1" "inbox_step ix1 ix2" "inbox_step ix2 ix3" "inbox_step ix3 ix4"
    using ix1_facts(1) ix2_facts(1) ix3_facts(1) ix4_facts(1) by (blast intro: inbox_step.accepted)+
  then show "inbox_step\<^sup>*\<^sup>* ix0 ix1" "inbox_step\<^sup>*\<^sup>* ix0 ix4" by (auto intro: rtranclp.rtrancl_into_rtrancl)
qed

section \<open>Claims\<close>

lemma ix_order:
  "i_created_at ix_r1 = 1" "i_created_at ix_r2 = 2" "i_created_at ix_r3 = 3" "i_created_at ix_r4 = 4"
  "i_state ix_r1 = InAccepted" "i_state ix_r2 = InAccepted" "i_state ix_r3 = InAccepted" "i_state ix_r4 = InAccepted"
  "i_session ix_r1 = ''s''" "i_session ix_r2 = ''s''" "i_session ix_r3 = ''a''" "i_session ix_r4 = ''a''"
  "i_user ix_r1 = ''u''" "i_user ix_r2 = ''u''" "i_user ix_r3 = ''u''" "i_user ix_r4 = ''u''"
  "i_origin ix_r1 = Human" "i_origin ix_r2 = Human" "i_origin ix_r3 = Human" "i_origin ix_r4 = TaskResult"
  "i_target ix_r1 = NextTurn" "i_target ix_r2 = NextTurn" "i_delivery ix_r1 = Followup" "i_delivery ix_r2 = Followup"
  "i_attachments ix_r1 = []" "i_attachments ix_r3 = []"
  by (simp_all add: ix_rows)

lemma ix_ids: "''i1'' \<le> (''i2'' :: string)"
  by code_simp

lemma ix_no_turns: "queue_claims sid user (agent_log ix4) = []" "queue_history ix4 sid user = []"
proof -
  have "e_kind e = ''inbox.accepted''" if "e \<in> set (agent_log ix4)" for e
  proof -
    from that have "e_kind e \<in> set (map e_kind (agent_log ix4))" by simp
    then show ?thesis unfolding ix4_facts(6) by simp
  qed
  then show "queue_claims sid user (agent_log ix4) = []" "queue_history ix4 sid user = []"
    by (simp_all add: queue_claims_def queue_history_def)
qed

lemma ix_boundary:
  "boundary_rows ix_ops ix4 5 (ix_session ''normal'') (ix_lease ''s'' 1) True = [(''i1'', ix_r1)]"
  "boundary_rows ix_ops ix4 5 (ix_session ''assistant'') (ix_lease ''a'' 1) True = [(''i3'', ix_r3)]"
proof -
  have ops: "task_held ix_ops x sid o1 = False" "admission_blocked ix_ops x sid = False" for x sid o1
    by (simp_all add: ix_ops_def)
  show "boundary_rows ix_ops ix4 5 (ix_session ''normal'') (ix_lease ''s'' 1) True = [(''i1'', ix_r1)]"
    by (simp add: boundary_rows_def ops ix_session_def selected_boundary_rows_def rows_of_def queue_order_def ix4_facts ix_order ix_ids
        ix_lease_def MAX_STEP_BATCH_def)
  show "boundary_rows ix_ops ix4 5 (ix_session ''assistant'') (ix_lease ''a'' 1) True = [(''i3'', ix_r3)]"
    by (simp add: boundary_rows_def ops ix_session_def select_main_turn_locked_def rows_of_def queue_order_def ix4_facts ix_order mode_of_def
        ix_lease_def ix_no_turns choose_mode_def exhausted_def other_mode_def MAX_WAIT_SECONDS_def seconds_def)
qed

definition ix_fence :: "ident \<times> int" where "ix_fence = (''r'', 1)"

definition ix_claim_key :: "ident \<Rightarrow> string" where
  "ix_claim_key i = event_key ix_lib ''inbox.claimed'' (Some ix_fence) (Some ''m0'') (Some ''r:1:1'') (Some ''m0'')
     (''inbox:'' @ i @ '':claimed:r:1:r:1:1'')"

definition ix_turn_key :: string where
  "ix_turn_key = event_key ix_lib ''assistant.queue.claimed'' (Some ix_fence) (Some ''m0'') None None ''assistant-queue:r:1''"

lemma ix_claim_keys:
  "ix_claim_key ''i1'' \<notin> {ix_key ''i1'', ix_key ''i2''}" "ix_claim_key ''i3'' \<notin> {ix_key ''i3'', ix_key ''i4''}"
  "ix_turn_key \<notin> {ix_key ''i3'', ix_key ''i4'', ix_claim_key ''i3''}"
  by code_simp+

lemma ix_texts: "step_name (ix_lease sid 1) 1 = ''r:1:1''" "int_text 1 = ''1''" "ce_messages ix_env 0 = ''m0''" "ce_tokens ix_env 0 = ''t''"
proof -
  show "int_text 1 = ''1''" by code_simp
  then show "step_name (ix_lease sid 1) 1 = ''r:1:1''" by (simp add: step_name_def ix_lease_def)
  have "nat_text 0 = ''0''" by code_simp
  then show "ce_messages ix_env 0 = ''m0''" "ce_tokens ix_env 0 = ''t''" by (simp_all add: ix_env_def)
qed

text \<open>The claim of one row.\<close>

lemma ix_claim_one:
  assumes "ibase s = ibase ix0" and "transcript s = []" and "sid \<in> {''s'', ''a''}" and "\<forall>kr \<in> set (inbox s). i_state (snd kr) = InAccepted"
    and "\<forall>e \<in> set (agent_log s). e_session e = sid \<longrightarrow> e_key e \<notin> {ix_claim_key i, ix_turn_key}"
    and "ix_turn_key \<noteq> ix_claim_key i"
  shows "\<exists>s'. claim_selected ix_lib ix_ops s 5 ix_env (ix_lease sid 1) (ix_session (ix_kind sid)) 1 [(i, r)] = Inr s' \<and>
    e_key ` set (agent_log s') \<subseteq> e_key ` set (agent_log s) \<union> {ix_claim_key i, ix_turn_key} \<and>
    (\<exists>owner. prepare_agent_event_write ix_ops s' 6 sid ''u'' (Some (lease_fence (ix_lease sid 1))) = Inr owner)"
proof -
  let ?l = "ix_lease sid 1"
  have l: "l_session_id ?l = sid" "l_user_id ?l = ''u''" "l_run_id ?l = ''r''" "l_generation ?l = 1" by (simp_all add: ix_lease_def)
  have turn: "turn_identity s ?l (ce_messages ix_env 0) = ''m0''"
  proof -
    have d: "tget (drivers (ibase s)) sid = Some ix_driver" using assms(1,3) by (auto simp: ix0_def tget_def)
    have f: "filter (\<lambda>(k, r). i_session r = sid \<and> i_user r = ''u'' \<and> claimed_by ''r'' 1 r \<and> i_turn r \<noteq> None) (inbox s) = []"
      using assms(4) by (auto simp: filter_empty_conv claimed_by_def)
    show ?thesis unfolding turn_identity_def l d f Let_def by (simp add: some_nonempty_def ix_driver_def ix_texts)
  qed
  have clock: "message_clock s sid ''u'' 5 = 5" using assms(2) by (simp add: message_clock_def)
  let ?m = "\<lparr>m_session = sid, m_user = ''u'', m_role = ''user'', m_parent = None, m_finish = None, m_error = None, m_created = 5\<rparr>"
  let ?s1 = "put_item i (claim_row ?l ''m0'' ''m0'' ''r:1:1'' ''t'' ''w'' 5 r) (s\<lparr>transcript := tput ''m0'' ?m (transcript s)\<rparr>)"
  have "\<exists>e. append_agent_event ix_lib sid ''u'' ''inbox.claimed'' (claim_payload i r ''m0'' ''t'') (Some ix_fence) (Some ''m0'') (Some ''r:1:1'')
      (Some ''m0'') (''inbox:'' @ i @ '':claimed:r:1:r:1:1'') ?s1 = Inr (?s1\<lparr>agent_log := agent_log ?s1 @ [e]\<rparr>) \<and>
    e_session e = sid \<and> e_key e = event_key ix_lib ''inbox.claimed'' (Some ix_fence) (Some ''m0'') (Some ''r:1:1'') (Some ''m0'')
     (''inbox:'' @ i @ '':claimed:r:1:r:1:1'') \<and> e_kind e = ''inbox.claimed''"
    by (rule append_new) (use assms(5) in \<open>simp_all add: put_item_def ix_fence_def ix_claim_key_def\<close>)
  then obtain e where e: "append_agent_event ix_lib sid ''u'' ''inbox.claimed'' (claim_payload i r ''m0'' ''t'') (Some ix_fence) (Some ''m0'') (Some ''r:1:1'')
      (Some ''m0'') (''inbox:'' @ i @ '':claimed:r:1:r:1:1'') ?s1 = Inr (?s1\<lparr>agent_log := agent_log ?s1 @ [e]\<rparr>)" "e_session e = sid" "e_key e = ix_claim_key i"
    unfolding ix_claim_key_def by blast
  let ?s2 = "?s1\<lparr>agent_log := agent_log ?s1 @ [e]\<rparr>"
  have mat: "materialize ix_lib ?l (ce_worker ix_env) ''m0'' ''r:1:1'' 5 (ce_messages ix_env) (ce_tokens ix_env) 0 [(i, r)] s = Inr ?s2"
    using e(1) by (simp add: l insert_message_def assms(2) ix_texts ix_fence_def ix_env_def [THEN arg_cong, of ce_worker])
  let ?s3 = "set_assistant () ?s2"
  have rec: "\<exists>s4. record_main_claim_locked ix_lib sid (ix_session (ix_kind sid)) [(i, r)] ix_fence ''m0'' ?s3 = Inr s4 \<and> ibase s4 = ibase ?s3 \<and>
      e_key ` set (agent_log s4) \<subseteq> insert ix_turn_key (e_key ` set (agent_log ?s3))"
  proof (cases "sid = ''a''")
    case True
    have "\<exists>e. append_agent_event ix_lib sid ''u'' ''assistant.queue.claimed'' payload (Some ix_fence) (Some ''m0'') None None ''assistant-queue:r:1'' ?s3 =
        Inr (?s3\<lparr>agent_log := agent_log ?s3 @ [e]\<rparr>) \<and> e_session e = sid \<and>
        e_key e = event_key ix_lib ''assistant.queue.claimed'' (Some ix_fence) (Some ''m0'') None None ''assistant-queue:r:1'' \<and> e_kind e = ''assistant.queue.claimed''" for payload
      by (rule append_new) (use assms(5,6) e(3) in \<open>auto simp: put_item_def set_assistant_def ix_fence_def ix_turn_key_def\<close>)
    from this [of "[(''mode'', JStr (mode_name (mode_of r))), (''inbox_id'', JStr i)]"] obtain e2 where
      e2: "append_agent_event ix_lib sid ''u'' ''assistant.queue.claimed'' [(''mode'', JStr (mode_name (mode_of r))), (''inbox_id'', JStr i)]
        (Some ix_fence) (Some ''m0'') None None ''assistant-queue:r:1'' ?s3 = Inr (?s3\<lparr>agent_log := agent_log ?s3 @ [e2]\<rparr>)"
        "e_key e2 = ix_turn_key" unfolding ix_turn_key_def by blast
    have "record_main_claim_locked ix_lib sid (ix_session (ix_kind sid)) [(i, r)] ix_fence ''m0'' x =
        append_agent_event ix_lib sid ''u'' ''assistant.queue.claimed'' [(''mode'', JStr (mode_name (mode_of r))), (''inbox_id'', JStr i)]
        (Some ix_fence) (Some ''m0'') None None ''assistant-queue:r:1'' x" for x :: "unit ibx"
      by (simp add: True record_main_claim_locked_def ix_session_def ix_kind_def ix_fence_def ix_texts)
    with e2 show ?thesis by (intro exI [of _ "?s3\<lparr>agent_log := agent_log ?s3 @ [e2]\<rparr>"]) auto
  next
    case False
    then show ?thesis by (auto simp: record_main_claim_locked_def ix_session_def ix_kind_def)
  qed
  then obtain s4 where s4: "record_main_claim_locked ix_lib sid (ix_session (ix_kind sid)) [(i, r)] ix_fence ''m0'' ?s3 = Inr s4" "ibase s4 = ibase ?s3"
      "e_key ` set (agent_log s4) \<subseteq> insert ix_turn_key (e_key ` set (agent_log ?s3))"
    by blast
  let ?d = "ix_driver\<lparr>d_trigger_message_id := Some ''m0'', d_updated_at := 5\<rparr>"
  have base: "ibase s4 = ibase ix0" using assms(1) s4(2) by (simp add: put_item_def set_assistant_def)
  have fence: "fence_row ''u'' ''r'' 1 5 ix_driver" "fence_row ''u'' ''r'' 1 6 ?d" by (simp_all add: fence_row_def ix_driver_def)
  have driver: "tget (drivers (ibase ix0)) sid = Some ix_driver" using assms(3) by (auto simp: ix0_def tget_def)
  let ?db = "(ibase ix0)\<lparr>drivers := tput sid ?d (drivers (ibase ix0))\<rparr>"
  have db: "bind_trigger_message_locked (ibase s4) 5 sid ''u'' ''r'' 1 ''m0'' = Inr ?db"
    by (simp add: base bind_trigger_message_locked_def update_driver_def update_where_def driver fence)
  let ?s5 = "s4\<lparr>ibase := ?db\<lparr>sessions := tput sid ((ix_session (ix_kind sid))\<lparr>s_updated_at := 5\<rparr>) (sessions ?db)\<rparr>\<rparr>"
  have hook: "claimed_hook ix_ops x sid rows = Inr ()" for x rows by (simp add: ix_ops_def)
  have len: "length [(i, r)] - 1 = 0" by simp
  have "claim_selected ix_lib ix_ops s 5 ix_env ?l (ix_session (ix_kind sid)) 1 [(i, r)] = Inr ?s5"
    unfolding claim_selected_def Let_def l len turn clock ix_texts(1) mat rbind_simps hook s4(1) [unfolded ix_fence_def] db sum.case ..
  moreover have "e_key ` set (agent_log ?s5) \<subseteq> e_key ` set (agent_log s) \<union> {ix_claim_key i, ix_turn_key}"
    using s4(3) e(3) by (auto simp: set_assistant_def put_item_def)
  moreover have "prepare_agent_event_write ix_ops ?s5 6 sid ''u'' (Some (lease_fence ?l)) = Inr ((ix_session (ix_kind sid))\<lparr>s_updated_at := 5\<rparr>)"
    using fence(2) by (simp add: prepare_agent_event_write_def lock_session_def open_session_def owned_session_def tget_tput lease_fence_def
        assert_owned_driver_fence_locked_def guard_that_def ix_session_def ix_ops_def l)
  ultimately show ?thesis by blast
qed

definition ix_claim :: "ident \<Rightarrow> unit ibx" where
  "ix_claim sid = fst (projr (claim_inbox_boundary_once ix_lib ix_ops ix4 5 ix_env (ix_lease sid 1) 1 True))"

lemma ix4_state: "\<forall>kr \<in> set (inbox ix4). i_state (snd kr) = InAccepted"
  by (simp add: ix4_facts ix_order)

lemma ix4_fresh:
  "\<forall>e \<in> set (agent_log ix4). e_session e = ''s'' \<longrightarrow> e_key e \<notin> {ix_claim_key ''i1'', ix_turn_key}"
  "\<forall>e \<in> set (agent_log ix4). e_session e = ''a'' \<longrightarrow> e_key e \<notin> {ix_claim_key ''i3'', ix_turn_key}"
proof -
  have t: "ix_turn_key \<notin> {ix_key ''i1'', ix_key ''i2''}" by code_simp
  have "\<forall>p \<in> set (map (\<lambda>e. (e_session e, e_key e)) (agent_log ix4)). fst p = ''s'' \<longrightarrow> snd p \<notin> {ix_claim_key ''i1'', ix_turn_key}"
    "\<forall>p \<in> set (map (\<lambda>e. (e_session e, e_key e)) (agent_log ix4)). fst p = ''a'' \<longrightarrow> snd p \<notin> {ix_claim_key ''i3'', ix_turn_key}"
    unfolding ix4_facts(5) using ix_claim_keys t by auto
  then show "\<forall>e \<in> set (agent_log ix4). e_session e = ''s'' \<longrightarrow> e_key e \<notin> {ix_claim_key ''i1'', ix_turn_key}"
    "\<forall>e \<in> set (agent_log ix4). e_session e = ''a'' \<longrightarrow> e_key e \<notin> {ix_claim_key ''i3'', ix_turn_key}" by auto
qed

lemma ix_claims:
  assumes "(sid, i, r) \<in> {(''s'', ''i1'', ix_r1), (''a'', ''i3'', ix_r3)}"
  shows "claim_inbox_boundary_once ix_lib ix_ops ix4 5 ix_env (ix_lease sid 1) 1 True = Inr (ix_claim sid, [i])"
    and "e_key ` set (agent_log (ix_claim sid)) \<subseteq> e_key ` set (agent_log ix4) \<union> {ix_claim_key i, ix_turn_key}"
    and "\<exists>owner. prepare_agent_event_write ix_ops (ix_claim sid) 6 sid ''u'' (Some (lease_fence (ix_lease sid 1))) = Inr owner"
proof -
  let ?l = "ix_lease sid 1"
  have sid: "sid \<in> {''s'', ''a''}" using assms by auto
  have t: "ix_turn_key \<noteq> ix_claim_key ''i1''" by code_simp
  have l: "l_session_id ?l = sid" "l_user_id ?l = ''u''" by (simp_all add: ix_lease_def)
  have b: "boundary_rows ix_ops ix4 5 (ix_session (ix_kind sid)) ?l True = [(i, r)]"
    using assms ix_boundary by (auto simp: ix_kind_def)
  have k: "\<forall>e \<in> set (agent_log ix4). e_session e = sid \<longrightarrow> e_key e \<notin> {ix_claim_key i, ix_turn_key}" "ix_turn_key \<noteq> ix_claim_key i"
    using assms ix4_fresh ix_claim_keys(3) t by auto
  from ix_claim_one [OF ix4_facts(2,3) sid ix4_state k] obtain s' where
      s': "claim_selected ix_lib ix_ops ix4 5 ix_env ?l (ix_session (ix_kind sid)) 1 [(i, r)] = Inr s'"
      "e_key ` set (agent_log s') \<subseteq> e_key ` set (agent_log ix4) \<union> {ix_claim_key i, ix_turn_key}"
      "\<exists>owner. prepare_agent_event_write ix_ops s' 6 sid ''u'' (Some (lease_fence ?l)) = Inr owner"
    by blast
  have e: "expire_task_steers_locked ix_lib ix_ops ix4 5 sid owner None = Inr ix4" for owner
    by (simp add: expire_task_steers_locked_def expired_steers_def ix_ops_def)
  have a: "assets_ready ix_ops ix4 owner ?l kr" for owner kr by (simp add: assets_ready_def ix_ops_def list_all_iff)
  have "claim_inbox_boundary_once ix_lib ix_ops ix4 5 ix_env ?l 1 True = Inr (s', [i])"
    by (simp add: claim_once_unfold l ix_open(2) [OF ix4_facts(2) sid] e b a s'(1))
  then show "claim_inbox_boundary_once ix_lib ix_ops ix4 5 ix_env ?l 1 True = Inr (ix_claim sid, [i])"
    "e_key ` set (agent_log (ix_claim sid)) \<subseteq> e_key ` set (agent_log ix4) \<union> {ix_claim_key i, ix_turn_key}"
    "\<exists>owner. prepare_agent_event_write ix_ops (ix_claim sid) 6 sid ''u'' (Some (lease_fence (ix_lease sid 1))) = Inr owner"
    using s'(2,3) by (simp_all add: ix_claim_def)
qed

lemmas ix5 = ix_claims [of "''s''" "''i1''" ix_r1, simplified]
lemmas ix6 = ix_claims [of "''a''" "''i3''" ix_r3, simplified]

lemma ix5_reach: "inbox_step\<^sup>*\<^sup>* ix0 (ix_claim ''s'')"
  using ix_reach(2) inbox_step.claimed [OF ix5(1)] by simp

section \<open>Witnesses\<close>


lemma event_log_is_append_only_witness:
  "numbers ''s'' (agent_log (ix_claim ''s'')) = [1..int (length (numbers ''s'' (agent_log (ix_claim ''s''))))] \<and>
   (\<exists>xs. agent_log (ix_claim ''s'') = agent_log ix4 @ xs)"
  using event_log_is_append_only [OF ix_start ix_reach(2), of "ix_claim ''s''"] inbox_step.claimed [OF ix5(1)] by blast


lemma claims_do_not_overtake_witness:
  "i_created_at ix_r1 < i_created_at ix_r2 \<or> i_created_at ix_r1 = i_created_at ix_r2 \<and> ''i1'' < (''i2'' :: ident)"
proof -
  have ok: "ibx_ok ix4" using ix_start ix_reach(2) by (rule inbox_reachable_ok)
  have i1: "tget (inbox ix4) ''i1'' = Some ix_r1" "tget (inbox ix4) ''i2'' = Some ix_r2" by (simp_all add: ix4_facts tget_def)
  have "expire_task_steers_locked ix_lib ix_ops ix4 5 ''s'' owner None = Inr ix4" for owner
    by (simp add: expire_task_steers_locked_def expired_steers_def ix_ops_def)
  then have i2: "tget (inbox (ix_claim ''s'')) ''i2'' = Some ix_r2"
    using claim_once_rows [OF ix5(1) ok] i1(2) by (auto simp: ix_lease_def)
  show ?thesis
    using claims_do_not_overtake [OF ix_start ix_reach(2) ix5(1) _ i1(1) i2] by (simp add: ix_order ix_lease_def)
qed

definition ix_lib2 :: stdlib where "ix_lib2 = ix_lib\<lparr>sha256_hex := (\<lambda>x. [])\<rparr>"

definition ix_settled :: "unit ibx" where
  "ix_settled = fst (projr (settle_claimed_inbox_items ix_lib2 ix_ops (ix_claim ''s'') 6 (ix_lease ''s'' 1) None ''done'' None))"

lemma distinct_one:
  assumes "distinct xs" and "set xs = {x}"
  shows "xs = [x]"
proof (cases xs)
  case (Cons a ys)
  with assms have "a = x" "x \<notin> set ys" "set ys \<subseteq> {x}" by auto
  then have "ys = []" by (cases ys) auto
  with Cons \<open>a = x\<close> show ?thesis by simp
qed (use assms in simp)

lemma ix_settle:
  "settle_claimed_inbox_items ix_lib2 ix_ops (ix_claim ''s'') 6 (ix_lease ''s'' 1) None ''done'' None = Inr (ix_settled, [''i1''])"
proof -
  let ?s = "ix_claim ''s''" and ?l = "ix_lease ''s'' 1"
  have l: "l_session_id ?l = ''s''" "l_user_id ?l = ''u''" "l_run_id ?l = ''r''" "l_generation ?l = 1" by (simp_all add: ix_lease_def)
  have ok4: "ibx_ok ix4" using ix_start ix_reach(2) by (rule inbox_reachable_ok)
  have ok: "ibx_ok ?s" using ix_start ix5_reach by (rule inbox_reachable_ok)
  have x: "expire_task_steers_locked ix_lib ix_ops ix4 5 ''s'' owner None = Inr ix4" for owner
    by (simp add: expire_task_steers_locked_def expired_steers_def ix_ops_def)
  have i4: "tget (inbox ix4) k = Some r \<Longrightarrow> i_state r = InAccepted" for k r
    using ix4_state tget_in [of "inbox ix4" k r] by fastforce
  have others: "tget (inbox ?s) k = tget (inbox ix4) k" if "k \<noteq> ''i1''" for k
    using claim_once_rows [OF ix5(1) ok4] x that by (auto simp: l)
  obtain m turn tok t' r where i1: "tget (inbox ?s) ''i1'' = Some (claim_row ?l m turn (step_name ?l 1) tok (ce_worker ix_env) t' r)"
      "waiting ''s'' ''u'' r"
    using claim_only_waiting [OF ix5(1) ok4, of "''i1''"] by (auto simp: l)
  let ?r = "claim_row ?l m turn (step_name ?l 1) tok (ce_worker ix_env) t' r"
  have own: "(k, x) \<in> set (claimed_rows ?s ''s'' ''u'' ''r'' 1) \<longleftrightarrow> k = ''i1'' \<and> x = ?r" for k x
    unfolding claimed_rows_mem [OF ok] using i1 others [of k] i4 [of k x]
    by (cases "k = ''i1''") (auto simp: owned_claim_def claimed_by_def claim_row_def l)
  have "distinct (claimed_rows ?s ''s'' ''u'' ''r'' 1)" by (simp add: claimed_rows_def distinct_rows_of [OF ok])
  moreover have "set (claimed_rows ?s ''s'' ''u'' ''r'' 1) = {(''i1'', ?r)}" using own by auto
  ultimately have rows: "claimed_rows ?s ''s'' ''u'' ''r'' 1 = [(''i1'', ?r)]"
    by (rule distinct_one)
  have k: "e_key e \<noteq> []" if "e \<in> set (agent_log ?s)" for e
  proof -
    have "ix_key ''i1'' \<noteq> []" "ix_key ''i2'' \<noteq> []" "ix_key ''i3'' \<noteq> []" "ix_key ''i4'' \<noteq> []" "ix_claim_key ''i1'' \<noteq> []" "ix_turn_key \<noteq> []"
      by code_simp+
    moreover have "e_key ` set (agent_log ix4) = snd ` set (map (\<lambda>e. (e_session e, e_key e)) (agent_log ix4))" by force
    ultimately show ?thesis using that ix5(2) unfolding ix4_facts(5) by auto
  qed
  have "\<exists>e. append_agent_event ix_lib2 ''s'' ''u'' ''inbox.settled'' (settled_payload ''i1'' None ''done'' None) (Some (''r'', 1)) (i_turn ?r) (i_step ?r) (i_message ?r)
      (settled_key ''i1'' ''r'' 1) (put_item ''i1'' (settle_item None ''done'' None 6 ?r) ?s) =
      Inr ((put_item ''i1'' (settle_item None ''done'' None 6 ?r) ?s)\<lparr>agent_log := agent_log (put_item ''i1'' (settle_item None ''done'' None 6 ?r) ?s) @ [e]\<rparr>) \<and>
      e_session e = ''s'' \<and> e_key e = event_key ix_lib2 ''inbox.settled'' (Some (''r'', 1)) (i_turn ?r) (i_step ?r) (i_message ?r) (settled_key ''i1'' ''r'' 1) \<and>
      e_kind e = ''inbox.settled''"
    by (rule append_new) (use k in \<open>simp_all add: put_item_def event_key_def ix_lib2_def\<close>)
  then obtain s2 where "settle_each ix_lib2 ''s'' ''u'' (''r'', 1) None ''done'' None 6 [(''i1'', ?r)] ?s = Inr s2"
    by (auto simp: claim_row_def)
  moreover have "take 24 ''done'' = ''done''" by simp
  ultimately have "\<exists>s3. settle_claimed_inbox_items ix_lib2 ix_ops ?s 6 ?l None ''done'' None = Inr (s3, [''i1''])"
    using ix5(3) by (auto simp: settle_claimed_inbox_items_def l rows)
  then show ?thesis by (auto simp: ix_settled_def)
qed

lemma settlement_is_complete_witness:
  "tget (inbox ix_settled) ''i1'' = map_option (settle_item None ''done'' None 6) (tget (inbox (ix_claim ''s'')) ''i1'') \<and>
   claimed_rows ix_settled ''s'' ''u'' ''r'' 1 = []"
  using settlement_is_complete [OF ix_start ix5_reach ix_settle] by (auto simp: ix_lease_def)

lemma stale_run_cannot_touch_inbox_witness:
  "claim_inbox_boundary_once ix_lib ix_ops (ix_claim ''s'') 6 ix_env (ix_lease ''s'' 0) 1 True \<noteq> Inr (ix0, []) \<and>
   settle_claimed_inbox_items ix_lib ix_ops (ix_claim ''s'') 6 (ix_lease ''s'' 0) None ''done'' None \<noteq> Inr (ix0, [])"
proof -
  have "l_generation (ix_lease ''s'' 0) < driver_gen (l_session_id (ix_lease ''s'' 0)) (drivers (ibase ix0))"
    by (simp add: ix_lease_def driver_gen_def ix0_def tget_def ix_driver_def)
  from stale_run_cannot_touch_inbox [OF ix_start rtranclp.rtrancl_refl this ix5_reach] show ?thesis by simp
qed

lemma claim_retry_terminates_witness:
  "\<exists>s' out. claim_inbox_boundary 5 ix_lib ix_ops ix4 5 ix_env (ix_lease ''s'' 1) 1 True = Some (s', out) \<and>
     (\<forall>bad. out \<noteq> Inl (InboxAttachmentError bad))"
proof -
  have h: "hook_keeps_attachment_errors ix_ops" by (simp add: hook_keeps_attachment_errors_def ix_ops_def)
  have "waiting_count ix4 (l_session_id (ix_lease ''s'' 1)) (l_user_id (ix_lease ''s'' 1)) < 5"
    using waiting_count_le [of ix4 "l_session_id (ix_lease ''s'' 1)" "l_user_id (ix_lease ''s'' 1)"] by (simp add: ix4_facts)
  from claim_retry_terminates [OF ix_start ix_reach(2) h this, of ix_lib 5 ix_env 1 True] show ?thesis by auto
qed

definition ix_sweep :: "nat \<Rightarrow> unit sweep_env" where
  "ix_sweep n = \<lparr>sw_env = ex_env (seconds 600) ''r9'' 3, sw_worker = ex_worker ''w9'', sw_claim = ix_env, sw_fresh = ''m9'',
     sw_errors = \<lparr>closing_error = JNull, row_error = (\<lambda>r. JNull)\<rparr>\<rparr>"

lemma long_operations_refine_witness:
  "ibx_ok (fst (settle_orphaned_claims ix_lib no_assistant ix_ops ix_sweep (seconds 600) (ix_claim ''s'')))"
proof -
  have "settle_orphaned_claims ix_lib no_assistant ix_ops ix_sweep (seconds 600) (ix_claim ''s'') =
      (fst (settle_orphaned_claims ix_lib no_assistant ix_ops ix_sweep (seconds 600) (ix_claim ''s'')),
       snd (settle_orphaned_claims ix_lib no_assistant ix_ops ix_sweep (seconds 600) (ix_claim ''s'')))" by simp
  from long_operations_refine [OF ix_start ix5_reach disjI2 [OF disjI1 [OF this]]] show ?thesis by simp
qed

lemma main_queue_is_fair_witness:
  "queue_history (ix_claim ''a'') ''a'' ''u'' = [JStr ''ordinary'']"
proof -
  let ?l = "ix_lease ''a'' 1"
  have l: "l_session_id ?l = ''a''" "l_user_id ?l = ''u''" by (simp_all add: ix_lease_def)
  have p: "prepare_agent_event_write ix_ops ix4 5 (l_session_id ?l) (l_user_id ?l) (Some (lease_fence ?l)) = Inr (ix_session ''assistant'')"
    using ix_open(2) [OF ix4_facts(2), of "''a''" 5] by (simp add: l ix_kind_def)
  have k: "s_kind (ix_session ''assistant'') = ''assistant''" by (simp add: ix_session_def)
  have b: "\<not> admission_blocked ix_ops (assistant (ibase ix4)) (l_session_id ?l)" by (simp add: ix_ops_def)
  have t: "tget (inbox ix4) ''i3'' = Some ix_r3" "tget (inbox ix4) ''i4'' = Some ix_r4" by (simp_all add: ix4_facts tget_def)
  have w: "waiting (l_session_id ?l) (l_user_id ?l) ix_r4" "mode_of ix_r4 \<noteq> mode_of ix_r3" "mode_of ix_r3 = Ordinary"
    by (simp_all add: l ix_order mode_of_def)
  show ?thesis
    using main_queue_is_fair [OF ix_start ix_reach(2) p k b ix6(1) _ t(1) t(2) w(1,2)] by (simp add: l ix_no_turns w(3))
qed

end
