(* ===== verification/Subagent_Composition.thy ===== *)
theory Subagent_Composition
  imports Evidence Permission
begin

text \<open>
  \<^verbatim>\<open>src/backend/agent/subagent_composition.py\<close>: the durable composition of a delegated child Agent, its
  JSON snapshot and the validation every snapshot goes through. Snapshots and requests are \<open>json\<close>
  values: a descriptor row holds JSON and the arguments of the Task tool come from JSON, so that the
  branches that reject values outside JSON have no counterpart. \<^verbatim>\<open>None\<close> is \<open>JNull\<close> there. A frozenset is
  a set, written as a sorted list. The library functions outside the repository are the fields of
  \<open>subagent_lib\<close>: validation of a rule by pydantic, the two entry points of the JSON Schema validator, and
  (with \<open>stdlib\<close>) SHA-256 and the conversion of an int to a float.
\<close>

record subagent_lib = stdlib +
  model_validate :: "json \<Rightarrow> rule option"
  check_schema :: "json \<Rightarrow> bool"
  schema_accepts :: "json \<Rightarrow> json \<Rightarrow> bool"
  float_of_int :: "int \<Rightarrow> string option"

datatype composition_error = SubagentCompositionError string | OverflowError

section \<open>Constants\<close>

definition COMPOSITION_VERSION :: int where "COMPOSITION_VERSION = 1"
definition MAX_PERSONA_CHARS :: nat where "MAX_PERSONA_CHARS = 8192"
definition MAX_PRESET_PROMPT_CHARS :: nat where "MAX_PRESET_PROMPT_CHARS = 65536"
definition MAX_PRESET_TOOLS :: nat where "MAX_PRESET_TOOLS = 4096"
definition MAX_SCHEMA_BYTES :: nat where "MAX_SCHEMA_BYTES = 32768"
definition MAX_SCHEMA_DEPTH :: nat where "MAX_SCHEMA_DEPTH = 16"
definition MAX_SCHEMA_NODES :: nat where "MAX_SCHEMA_NODES = 1024"
definition MAX_SCHEMA_COLLECTION :: nat where "MAX_SCHEMA_COLLECTION = 256"
definition MAX_SCHEMA_STRING :: nat where "MAX_SCHEMA_STRING = 8192"
definition MAX_STRUCTURED_RESULT_BYTES :: nat where "MAX_STRUCTURED_RESULT_BYTES = 128 * 1024"
definition MAX_COMPOSITION_BYTES :: nat where "MAX_COMPOSITION_BYTES = 128 * 1024"

definition COMPOSITION_KEYS :: "string list" where
  "COMPOSITION_KEYS = [''version'', ''model'', ''reasoning'', ''agent_preset'', ''persona'', ''tool_allowlist'',
     ''output_schema'', ''provider'', ''seed_mode'', ''digest'']"

definition PRESET_KEYS :: "string list" where
  "PRESET_KEYS = [''name'', ''mode'', ''tools'', ''max_steps'', ''model'', ''temperature'', ''prompt'', ''permission'',
     ''portable_opt_in'', ''capabilities'']"

definition PROVIDER_KEYS :: "string list" where
  "PROVIDER_KEYS = [''provider_id'', ''capabilities'', ''reasoning_variants'', ''binding_digest'']"

definition CAPABILITIES :: "string list" where
  "CAPABILITIES = [''model'', ''agent_preset'', ''tool_filter'', ''reasoning'', ''persona'', ''output_schema'']"

definition PROVIDER_CAPABILITIES :: "string list" where
  "PROVIDER_CAPABILITIES = [''model'', ''tool_filter'', ''reasoning'', ''persona'', ''output_schema'']"

definition BUILD_ONLY_WORKFLOW_TOOLS :: "string list" where
  "BUILD_ONLY_WORKFLOW_TOOLS = [''image_gen'', ''video_generate'', ''video_transcribe'', ''video_compose'',
     ''video_analyze'', ''hot_trends'', ''creator_context'', ''skill_manage'', ''douyin_publish'',
     ''desktop_publish'', ''autopilot_run'', ''desktop_login'']"

section \<open>JSON values\<close>

text \<open>\<^verbatim>\<open>raw.get(key)\<close>, and the test \<^verbatim>\<open>isinstance(raw, dict) and set(raw) == keys\<close>.\<close>

definition dget :: "(string \<times> json) list \<Rightarrow> string \<Rightarrow> json" where
  "dget kvs k = (case tget kvs k of None \<Rightarrow> JNull | Some v \<Rightarrow> v)"

definition exact_dict :: "string list \<Rightarrow> json \<Rightarrow> (string \<times> json) list option" where
  "exact_dict keys raw = (case raw of
       JDict kvs \<Rightarrow> if set (map fst kvs) = set keys then Some kvs else None
     | _ \<Rightarrow> None)"

definition is_dict :: "json \<Rightarrow> bool" where
  "is_dict v = (case v of JDict _ \<Rightarrow> True | _ \<Rightarrow> False)"

definition option_json :: "string option \<Rightarrow> json" where
  "option_json x = (case x of None \<Rightarrow> JNull | Some s \<Rightarrow> JStr s)"

text \<open>
  The value \<^verbatim>\<open>json.loads(json.dumps(v, sort_keys=True))\<close>, and Python's \<^verbatim>\<open>==\<close>, which ignores the order of keys
  and identifies a bool or int with the float of the same value (whose text is the int followed by
  \<^verbatim>\<open>.0\<close> below ten to the sixteenth).
\<close>

fun canonical :: "json \<Rightarrow> json" where
  "canonical (JList vs) = JList (map canonical vs)"
| "canonical (JDict kvs) = JDict (sort_key fst (map (\<lambda>(k, v). (k, canonical v)) kvs))"
| "canonical v = v"

fun number_text :: "json \<Rightarrow> json" where
  "number_text (JBool b) = JFloat (if b then ''1.0'' else ''0.0'')"
| "number_text (JInt n) = JFloat (int_text n @ ''.0'')"
| "number_text (JFloat s) = JFloat (if s = ''-0.0'' then ''0.0'' else s)"
| "number_text (JList vs) = JList (map number_text vs)"
| "number_text (JDict kvs) = JDict (map (\<lambda>(k, v). (k, number_text v)) kvs)"
| "number_text v = v"

definition py_equal :: "json \<Rightarrow> json \<Rightarrow> bool" where
  "py_equal a b \<longleftrightarrow> number_text (canonical a) = number_text (canonical b)"

definition payload_digest :: "'a stdlib_scheme \<Rightarrow> (string \<times> json) list \<Rightarrow> string" where
  "payload_digest lib kvs = sha256_hex lib (json_dumps (JDict (filter (\<lambda>(k, v). k \<noteq> ''digest'') kvs)))"

section \<open>Bounded values\<close>

definition bounded_string :: "json \<Rightarrow> nat \<Rightarrow> bool \<Rightarrow> composition_error + string" where
  "bounded_string value limit blank = (case value of
       JStr s \<Rightarrow> if \<not> blank \<and> s = [] \<or> length s > limit then Inl (SubagentCompositionError ''string'') else Inr s
     | _ \<Rightarrow> Inl (SubagentCompositionError ''string''))"

definition optional_string :: "json \<Rightarrow> nat \<Rightarrow> bool \<Rightarrow> composition_error + string option" where
  "optional_string value limit blank =
     (if value = JNull then Inr None else rbind (bounded_string value limit blank) (\<lambda>s. Inr (Some s)))"

fun string_items :: "string list option \<Rightarrow> json list \<Rightarrow> composition_error + string list" where
  "string_items allowed [] = Inr []"
| "string_items allowed (item # items) = rbind (bounded_string item 1024 False) (\<lambda>text.
     if (case allowed of None \<Rightarrow> False | Some names \<Rightarrow> text \<notin> set names)
     then Inl (SubagentCompositionError ''unsupported value'')
     else rbind (string_items allowed items) (\<lambda>result. Inr (text # result)))"

definition string_list :: "json \<Rightarrow> nat \<Rightarrow> string list option \<Rightarrow> composition_error + string list" where
  "string_list value maximum allowed = (case value of
       JList items \<Rightarrow>
         if length items > maximum then Inl (SubagentCompositionError ''list'')
         else rbind (string_items allowed items) (\<lambda>result.
           if length (remdups result) \<noteq> length result then Inl (SubagentCompositionError ''duplicates'') else Inr result)
     | _ \<Rightarrow> Inl (SubagentCompositionError ''list''))"

section \<open>Output schemas\<close>

text \<open>\<^verbatim>\<open>_validate_schema_node\<close>, with the shared counter passed through and returned.\<close>

fun validate_schema_node :: "json \<Rightarrow> nat \<Rightarrow> nat \<Rightarrow> composition_error + nat"
and validate_schema_items :: "json list \<Rightarrow> nat \<Rightarrow> nat \<Rightarrow> composition_error + nat"
and validate_schema_entries :: "(string \<times> json) list \<Rightarrow> nat \<Rightarrow> nat \<Rightarrow> composition_error + nat" where
  "validate_schema_node value depth counter =
     (let counter' = Suc counter
      in if counter' > MAX_SCHEMA_NODES \<or> depth > MAX_SCHEMA_DEPTH
         then Inl (SubagentCompositionError ''structural bounds'')
         else case value of
           JStr s \<Rightarrow> if length s > MAX_SCHEMA_STRING then Inl (SubagentCompositionError ''schema string'') else Inr counter'
         | JList vs \<Rightarrow> if length vs > MAX_SCHEMA_COLLECTION then Inl (SubagentCompositionError ''schema list'')
             else validate_schema_items vs (Suc depth) counter'
         | JDict kvs \<Rightarrow> if length kvs > MAX_SCHEMA_COLLECTION then Inl (SubagentCompositionError ''schema object'')
             else validate_schema_entries kvs (Suc depth) counter'
         | _ \<Rightarrow> Inr counter')"
| "validate_schema_items [] depth counter = Inr counter"
| "validate_schema_items (v # vs) depth counter =
     rbind (validate_schema_node v depth counter) (\<lambda>c. validate_schema_items vs depth c)"
| "validate_schema_entries [] depth counter = Inr counter"
| "validate_schema_entries ((k, v) # kvs) depth counter =
     rbind (bounded_string (JStr k) MAX_SCHEMA_STRING True) (\<lambda>_.
       rbind (validate_schema_node v depth counter) (\<lambda>c. validate_schema_entries kvs depth c))"

declare validate_schema_node.simps [simp del]

text \<open>A wrapped schema (\<^verbatim>\<open>{"type": "json_schema", "schema": {...}}\<close>) is unwrapped once.\<close>

definition unwrap_schema :: "(string \<times> json) list \<Rightarrow> (string \<times> json) list" where
  "unwrap_schema kvs =
     (if dget kvs ''type'' = JStr ''json_schema''
      then case dget kvs ''schema'' of JDict inner \<Rightarrow> inner | _ \<Rightarrow> kvs
      else kvs)"

definition validate_output_schema :: "subagent_lib \<Rightarrow> json \<Rightarrow> composition_error + json" where
  "validate_output_schema lib value = (case value of
       JNull \<Rightarrow> Inr JNull
     | JDict kvs0 \<Rightarrow>
         (let kvs = unwrap_schema kvs0
          in if dget kvs ''type'' \<noteq> JStr ''object'' \<or> \<not> is_dict (dget kvs ''properties'')
             then Inl (SubagentCompositionError ''object schema'')
             else rbind (validate_schema_node (JDict kvs) 0 0) (\<lambda>_.
               if length (json_dumps (JDict kvs)) > MAX_SCHEMA_BYTES then Inl (SubagentCompositionError ''schema bytes'')
               else if check_schema lib (canonical (JDict kvs)) then Inr (canonical (JDict kvs))
               else Inl (SubagentCompositionError ''json schema'')))
     | _ \<Rightarrow> Inl (SubagentCompositionError ''object schema''))"

definition validate_structured_result :: "subagent_lib \<Rightarrow> (string \<times> json) list \<Rightarrow> json \<Rightarrow> composition_error + json" where
  "validate_structured_result lib schema value =
     rbind (validate_output_schema lib (JDict schema)) (\<lambda>canonical_schema.
       if length (json_dumps value) > MAX_STRUCTURED_RESULT_BYTES then Inl (SubagentCompositionError ''result bytes'')
       else if \<not> schema_accepts lib canonical_schema (canonical value)
       then Inl (SubagentCompositionError ''violates output_schema'')
       else if \<not> is_dict (canonical value) then Inl (SubagentCompositionError ''object result'')
       else Inr (canonical value))"

section \<open>Frozen presets\<close>

text \<open>\<^verbatim>\<open>Rule.model_dump(mode="json")\<close>: the declared fields of a \<^verbatim>\<open>Rule\<close>, in order.\<close>

definition action_text :: "action \<Rightarrow> string" where
  "action_text a = (case a of Allow \<Rightarrow> ''allow'' | Deny \<Rightarrow> ''deny'' | Ask \<Rightarrow> ''ask'')"

definition rule_json :: "rule \<Rightarrow> json" where
  "rule_json r = JDict [(''permission'', JStr (permission r)), (''pattern'', JStr (rule_pattern r)),
     (''action'', JStr (action_text (rule_action r)))]"

fun permission_items :: "subagent_lib \<Rightarrow> json list \<Rightarrow> composition_error + rule list" where
  "permission_items lib [] = Inr []"
| "permission_items lib (item # items) = (case model_validate lib item of
       None \<Rightarrow> Inl (SubagentCompositionError ''preset permission'')
     | Some r \<Rightarrow> rbind (permission_items lib items) (\<lambda>rs. Inr (r # rs)))"

definition canonical_permission :: "subagent_lib \<Rightarrow> json \<Rightarrow> composition_error + rule list" where
  "canonical_permission lib raw = (case raw of
       JList items \<Rightarrow> if length items > 4096 then Inl (SubagentCompositionError ''preset permission'')
         else permission_items lib items
     | _ \<Rightarrow> Inl (SubagentCompositionError ''preset permission''))"

record agent_def =
  ad_name :: string
  ad_tools :: "string list"
  ad_max_steps :: int
  ad_model :: "string option"
  ad_temperature :: string
  ad_prompt :: "string option"
  ad_mode :: string
  ad_hidden :: bool
  ad_permission :: "json list"
  ad_portable_opt_in :: bool
  ad_capabilities :: "string set"

record frozen_preset =
  fp_name :: string
  fp_mode :: string
  fp_tools :: "string list"
  fp_max_steps :: int
  fp_model :: "string option"
  fp_temperature :: string
  fp_prompt :: "string option"
  fp_permission :: "rule list"
  fp_portable_opt_in :: bool
  fp_capabilities :: "string set"

definition strings_json :: "string list \<Rightarrow> json" where
  "strings_json xs = JList (map JStr xs)"

definition preset_to_json :: "frozen_preset \<Rightarrow> json" where
  "preset_to_json p = JDict [(''name'', JStr (fp_name p)), (''mode'', JStr (fp_mode p)),
     (''tools'', strings_json (fp_tools p)), (''max_steps'', JInt (fp_max_steps p)),
     (''model'', option_json (fp_model p)), (''temperature'', JFloat (fp_temperature p)),
     (''prompt'', option_json (fp_prompt p)), (''permission'', JList (map rule_json (fp_permission p))),
     (''portable_opt_in'', JBool (fp_portable_opt_in p)),
     (''capabilities'', strings_json (sorted_list_of_set (fp_capabilities p)))]"

text \<open>\<^verbatim>\<open>AgentDef.__post_init__\<close> keeps the skill loader and its search companion together.\<close>

fun insert_after_skill :: "string list \<Rightarrow> string list" where
  "insert_after_skill [] = []"
| "insert_after_skill (t # ts) =
     (if t = ''skill'' then t # ''skill_search'' # ts else t # insert_after_skill ts)"

definition with_skill_search_companion :: "string list \<Rightarrow> string list" where
  "with_skill_search_companion tools = insert_after_skill (filter (\<lambda>t. t \<noteq> ''skill_search'') tools)"

definition nl :: string where "nl = [newline]"

definition persona_overlay :: "string \<Rightarrow> string" where
  "persona_overlay persona = ''<delegated-persona>'' @ nl @ persona @ nl @ ''</delegated-persona>''"

definition to_agent_def :: "frozen_preset \<Rightarrow> string \<Rightarrow> string \<Rightarrow> agent_def" where
  "to_agent_def p persona effective_model =
     (let prompt = (if persona = [] then fp_prompt p
                    else case fp_prompt p of
                      None \<Rightarrow> Some (persona_overlay persona)
                    | Some base \<Rightarrow> Some (if base = [] then persona_overlay persona
                                         else base @ nl @ nl @ persona_overlay persona))
      in \<lparr>ad_name = fp_name p, ad_tools = with_skill_search_companion (fp_tools p), ad_max_steps = fp_max_steps p,
          ad_model = Some effective_model, ad_temperature = fp_temperature p, ad_prompt = prompt,
          ad_mode = fp_mode p, ad_hidden = True, ad_permission = map rule_json (fp_permission p),
          ad_portable_opt_in = fp_portable_opt_in p, ad_capabilities = fp_capabilities p\<rparr>)"

definition spawnable_modes :: "string list" where
  "spawnable_modes = [''subagent'', ''all'']"

definition is_number :: "json \<Rightarrow> bool" where
  "is_number v = (case v of JInt _ \<Rightarrow> True | JFloat _ \<Rightarrow> True | _ \<Rightarrow> False)"

definition to_float :: "subagent_lib \<Rightarrow> json \<Rightarrow> composition_error + string" where
  "to_float lib v = (case v of
       JInt n \<Rightarrow> (case float_of_int lib n of None \<Rightarrow> Inl OverflowError | Some s \<Rightarrow> Inr s)
     | JFloat s \<Rightarrow> Inr s
     | _ \<Rightarrow> Inl (SubagentCompositionError ''temperature''))"

definition preset_max_steps :: "json \<Rightarrow> composition_error + int" where
  "preset_max_steps v = (case v of
       JInt n \<Rightarrow> if 1 \<le> n \<and> n \<le> 10000 then Inr n else Inl (SubagentCompositionError ''max_steps'')
     | _ \<Rightarrow> Inl (SubagentCompositionError ''max_steps''))"

definition preset_flag :: "json \<Rightarrow> composition_error + bool" where
  "preset_flag v = (case v of JBool b \<Rightarrow> Inr b | _ \<Rightarrow> Inl (SubagentCompositionError ''portable flag''))"

definition parse_preset_fields :: "subagent_lib \<Rightarrow> (string \<times> json) list \<Rightarrow> composition_error + frozen_preset" where
  "parse_preset_fields lib kvs =
     rbind (bounded_string (dget kvs ''name'') 64 False) (\<lambda>name.
     rbind (bounded_string (dget kvs ''mode'') 16 False) (\<lambda>mode.
     rbind (guard_that (mode \<in> set spawnable_modes) (SubagentCompositionError ''not spawnable'')) (\<lambda>_.
     rbind (string_list (dget kvs ''tools'') MAX_PRESET_TOOLS None) (\<lambda>tools.
     rbind (preset_max_steps (dget kvs ''max_steps'')) (\<lambda>max_steps.
     rbind (optional_string (dget kvs ''model'') 128 False) (\<lambda>model.
     rbind (guard_that (is_number (dget kvs ''temperature'')) (SubagentCompositionError ''temperature'')) (\<lambda>_.
     rbind (optional_string (dget kvs ''prompt'') MAX_PRESET_PROMPT_CHARS True) (\<lambda>prompt.
     rbind (canonical_permission lib (dget kvs ''permission'')) (\<lambda>perms.
     rbind (preset_flag (dget kvs ''portable_opt_in'')) (\<lambda>portable.
     rbind (string_list (dget kvs ''capabilities'') (length CAPABILITIES) (Some CAPABILITIES)) (\<lambda>capabilities.
     rbind (guard_that ({''model'', ''agent_preset'', ''tool_filter''} \<subseteq> set capabilities)
              (SubagentCompositionError ''mandatory capabilities'')) (\<lambda>_.
     rbind (to_float lib (dget kvs ''temperature'')) (\<lambda>temperature.
       Inr \<lparr>fp_name = name, fp_mode = mode, fp_tools = tools, fp_max_steps = max_steps, fp_model = model,
            fp_temperature = temperature, fp_prompt = prompt, fp_permission = perms,
            fp_portable_opt_in = portable, fp_capabilities = set capabilities\<rparr>)))))))))))))"

definition parse_preset :: "subagent_lib \<Rightarrow> json \<Rightarrow> composition_error + frozen_preset" where
  "parse_preset lib raw = (case exact_dict PRESET_KEYS raw of
       None \<Rightarrow> Inl (SubagentCompositionError ''frozen preset'')
     | Some kvs \<Rightarrow> parse_preset_fields lib kvs)"

definition freeze_agent_preset :: "subagent_lib \<Rightarrow> agent_def \<Rightarrow> composition_error + frozen_preset" where
  "freeze_agent_preset lib a = parse_preset lib (JDict [(''name'', JStr (ad_name a)), (''mode'', JStr (ad_mode a)),
     (''tools'', strings_json (ad_tools a)), (''max_steps'', JInt (ad_max_steps a)),
     (''model'', option_json (ad_model a)), (''temperature'', JFloat (ad_temperature a)),
     (''prompt'', option_json (ad_prompt a)), (''permission'', JList (ad_permission a)),
     (''portable_opt_in'', JBool (ad_portable_opt_in a)),
     (''capabilities'', strings_json (sorted_list_of_set (ad_capabilities a)))])"

section \<open>Providers\<close>

record provider_caps =
  pc_provider_id :: string
  pc_capabilities :: "string set"
  pc_variants :: "string set"
  pc_binding_digest :: string

definition provider_to_json :: "provider_caps \<Rightarrow> json" where
  "provider_to_json p = JDict [(''provider_id'', JStr (pc_provider_id p)),
     (''capabilities'', strings_json (sorted_list_of_set (pc_capabilities p))),
     (''reasoning_variants'', strings_json (sorted_list_of_set (pc_variants p))),
     (''binding_digest'', JStr (pc_binding_digest p))]"

definition is_binding_digest :: "string \<Rightarrow> bool" where
  "is_binding_digest s \<longleftrightarrow> length s = 64 \<and> list_all (\<lambda>c. c \<in> set ''0123456789abcdef'') s"

definition parse_provider_fields :: "(string \<times> json) list \<Rightarrow> composition_error + provider_caps" where
  "parse_provider_fields kvs =
     rbind (bounded_string (dget kvs ''provider_id'') 64 False) (\<lambda>provider_id.
     rbind (string_list (dget kvs ''capabilities'') (length PROVIDER_CAPABILITIES) (Some PROVIDER_CAPABILITIES)) (\<lambda>caps.
     rbind (string_list (dget kvs ''reasoning_variants'') 32 None) (\<lambda>variants.
     rbind (bounded_string (dget kvs ''binding_digest'') 64 False) (\<lambda>binding_digest.
     rbind (guard_that (is_binding_digest binding_digest) (SubagentCompositionError ''binding digest'')) (\<lambda>_.
     rbind (guard_that (''model'' \<in> set caps \<and> ''tool_filter'' \<in> set caps)
              (SubagentCompositionError ''mandatory capabilities'')) (\<lambda>_.
     rbind (guard_that ((variants \<noteq> []) = (''reasoning'' \<in> set caps))
              (SubagentCompositionError ''reasoning declaration'')) (\<lambda>_.
       Inr \<lparr>pc_provider_id = provider_id, pc_capabilities = set caps, pc_variants = set variants,
            pc_binding_digest = binding_digest\<rparr>)))))))"

definition parse_provider :: "json \<Rightarrow> composition_error + provider_caps" where
  "parse_provider raw = (case exact_dict PROVIDER_KEYS raw of
       None \<Rightarrow> Inl (SubagentCompositionError ''provider snapshot'')
     | Some kvs \<Rightarrow> parse_provider_fields kvs)"

text \<open>
  The binding that \<^verbatim>\<open>resolved_subagent_provider_binding\<close> reads from the live configuration, and the part of
  the configuration the composition uses.
\<close>

record provider_binding =
  pb_declaration_consistent :: bool
  pb_readiness :: json
  pb_provider_id :: string
  pb_capabilities :: "string list"
  pb_variants :: "string list"
  pb_api_base :: "string option"
  pb_configured :: bool

record deployment =
  d_default_model :: string
  d_model_ids :: "string list"
  d_binding :: "string \<Rightarrow> provider_binding"

definition configured_models :: "deployment \<Rightarrow> string list" where
  "configured_models d =
     (let ids = filter (\<lambda>i. i \<noteq> []) (d_model_ids d)
      in if d_default_model d \<noteq> [] \<and> d_default_model d \<notin> set ids then d_default_model d # ids else ids)"

definition is_ready :: "json \<Rightarrow> bool" where
  "is_ready readiness = (case readiness of JDict kvs \<Rightarrow> dget kvs ''ready'' = JBool True | _ \<Rightarrow> False)"

definition provider_capabilities :: "subagent_lib \<Rightarrow> string \<Rightarrow> deployment \<Rightarrow> composition_error + provider_caps" where
  "provider_capabilities lib model_id d =
     (let b = d_binding d model_id
      in if \<not> pb_declaration_consistent b then Inl (SubagentCompositionError ''capability declaration'')
         else if \<not> is_ready (pb_readiness b) then Inl (SubagentCompositionError ''not ready'')
         else
           rbind (bounded_string (JStr (pb_provider_id b)) 64 False) (\<lambda>provider_id.
           rbind (string_list (strings_json (pb_capabilities b)) (length PROVIDER_CAPABILITIES) (Some PROVIDER_CAPABILITIES)) (\<lambda>caps.
           rbind (string_list (strings_json (pb_variants b)) 32 None) (\<lambda>variants.
             let material = JDict [(''model_id'', JStr model_id), (''provider_id'', JStr provider_id),
                   (''api_base'', JStr (case pb_api_base b of None \<Rightarrow> [] | Some u \<Rightarrow> u)),
                   (''configured_provider'', JBool (pb_configured b)), (''declaration_consistent'', JBool True),
                   (''readiness'', pb_readiness b), (''capabilities'', strings_json caps),
                   (''reasoning_variants'', strings_json variants)]
             in parse_provider (JDict [(''provider_id'', JStr provider_id), (''capabilities'', strings_json caps),
                  (''reasoning_variants'', strings_json variants),
                  (''binding_digest'', JStr (sha256_hex lib (json_dumps material)))])))))"

section \<open>Compositions\<close>

record composition =
  sc_model :: string
  sc_reasoning :: "string option"
  sc_agent_preset :: frozen_preset
  sc_persona :: string
  sc_tool_allowlist :: "string set"
  sc_output_schema :: json
  sc_provider :: provider_caps
  sc_seed_mode :: string
  sc_digest :: string

definition composition_payload :: "composition \<Rightarrow> (string \<times> json) list" where
  "composition_payload c = [(''version'', JInt COMPOSITION_VERSION), (''model'', JStr (sc_model c)),
     (''reasoning'', option_json (sc_reasoning c)), (''agent_preset'', preset_to_json (sc_agent_preset c)),
     (''persona'', JStr (sc_persona c)),
     (''tool_allowlist'', strings_json (sorted_list_of_set (sc_tool_allowlist c))),
     (''output_schema'', sc_output_schema c), (''provider'', provider_to_json (sc_provider c)),
     (''seed_mode'', JStr (sc_seed_mode c))]"

definition composition_to_json :: "subagent_lib \<Rightarrow> composition \<Rightarrow> json" where
  "composition_to_json lib c =
     JDict (composition_payload c @ [(''digest'', JStr (payload_digest lib (composition_payload c)))])"

definition frozen_agent :: "composition \<Rightarrow> agent_def" where
  "frozen_agent c = to_agent_def (sc_agent_preset c) (sc_persona c) (sc_model c)"

definition seed_modes :: "string list" where
  "seed_modes = [''fresh'', ''fork'']"

text \<open>The checks of a snapshot across its fields.\<close>

definition declared_capabilities_hold :: "composition \<Rightarrow> bool" where
  "declared_capabilities_hold c \<longleftrightarrow>
     (case sc_reasoning c of None \<Rightarrow> True
      | Some r \<Rightarrow> ''reasoning'' \<in> fp_capabilities (sc_agent_preset c) \<and> r \<in> pc_variants (sc_provider c)) \<and>
     (sc_persona c = [] \<or> ''persona'' \<in> fp_capabilities (sc_agent_preset c) \<and> ''persona'' \<in> pc_capabilities (sc_provider c)) \<and>
     (sc_output_schema c = JNull \<or>
        ''output_schema'' \<in> fp_capabilities (sc_agent_preset c) \<and> ''output_schema'' \<in> pc_capabilities (sc_provider c))"

definition parse_composition_fields :: "subagent_lib \<Rightarrow> string \<Rightarrow> (string \<times> json) list \<Rightarrow> composition_error + composition" where
  "parse_composition_fields lib supplied kvs =
     rbind (bounded_string (dget kvs ''model'') 128 False) (\<lambda>model.
     rbind (optional_string (dget kvs ''reasoning'') 32 False) (\<lambda>reasoning.
     rbind (bounded_string (dget kvs ''persona'') MAX_PERSONA_CHARS True) (\<lambda>persona.
     rbind (string_list (dget kvs ''tool_allowlist'') MAX_PRESET_TOOLS None) (\<lambda>tools.
     rbind (validate_output_schema lib (dget kvs ''output_schema'')) (\<lambda>schema.
     rbind (parse_preset lib (dget kvs ''agent_preset'')) (\<lambda>preset.
     rbind (parse_provider (dget kvs ''provider'')) (\<lambda>provider.
     rbind (bounded_string (dget kvs ''seed_mode'') 16 False) (\<lambda>seed_mode.
     rbind (guard_that (seed_mode \<in> set seed_modes) (SubagentCompositionError ''seed mode'')) (\<lambda>_.
     rbind (guard_that (set tools \<subseteq> set (fp_tools preset)) (SubagentCompositionError ''exceeds the frozen preset'')) (\<lambda>_.
       let c = \<lparr>sc_model = model, sc_reasoning = reasoning, sc_agent_preset = preset, sc_persona = persona,
                sc_tool_allowlist = set tools, sc_output_schema = schema, sc_provider = provider,
                sc_seed_mode = seed_mode, sc_digest = supplied\<rparr>
       in if declared_capabilities_hold c then Inr c
          else Inl (SubagentCompositionError ''exceeds declared capabilities'')))))))))))"

definition parse_subagent_composition :: "subagent_lib \<Rightarrow> json \<Rightarrow> composition_error + composition" where
  "parse_subagent_composition lib raw = (case exact_dict COMPOSITION_KEYS raw of
       None \<Rightarrow> Inl (SubagentCompositionError ''snapshot'')
     | Some kvs \<Rightarrow>
         if \<not> py_equal (dget kvs ''version'') (JInt COMPOSITION_VERSION) then Inl (SubagentCompositionError ''version'')
         else if length (json_dumps raw) > MAX_COMPOSITION_BYTES then Inl (SubagentCompositionError ''byte budget'')
         else if dget kvs ''digest'' \<noteq> JStr (payload_digest lib kvs) then Inl (SubagentCompositionError ''digest'')
         else parse_composition_fields lib (payload_digest lib kvs) kvs)"

definition validate_composition_availability :: "subagent_lib \<Rightarrow> composition \<Rightarrow> deployment \<Rightarrow> composition_error + unit" where
  "validate_composition_availability lib c d =
     (if sc_model c \<notin> set (configured_models d) then Inl (SubagentCompositionError ''model no longer configured'')
      else rbind (provider_capabilities lib (sc_model c) d) (\<lambda>current.
        if provider_to_json current \<noteq> provider_to_json (sc_provider c)
        then Inl (SubagentCompositionError ''provider capabilities changed'')
        else Inr ()))"

record composition_request =
  cr_model :: "string option"
  cr_reasoning :: "string option"
  cr_persona :: string
  cr_tools :: "string list option"
  cr_output_schema :: json
  cr_seed_mode :: string

definition validate_request ::
  "subagent_lib \<Rightarrow> string option \<Rightarrow> string option \<Rightarrow> string option \<Rightarrow> string list option \<Rightarrow> json \<Rightarrow> string \<Rightarrow>
     composition_error + composition_request" where
  "validate_request lib model reasoning persona tools schema seed_mode =
     rbind (optional_string (option_json model) 128 False) (\<lambda>model'.
     rbind (optional_string (option_json reasoning) 32 False) (\<lambda>reasoning'.
     rbind (bounded_string (JStr (case persona of None \<Rightarrow> [] | Some p \<Rightarrow> p)) MAX_PERSONA_CHARS True) (\<lambda>persona'.
     rbind (case tools of None \<Rightarrow> Inr None
            | Some ts \<Rightarrow> rbind (string_list (strings_json ts) MAX_PRESET_TOOLS None) (\<lambda>r. Inr (Some r))) (\<lambda>tools'.
     rbind (guard_that (seed_mode \<in> set seed_modes) (SubagentCompositionError ''seed mode'')) (\<lambda>_.
     rbind (validate_output_schema lib schema) (\<lambda>schema'.
       Inr \<lparr>cr_model = model', cr_reasoning = reasoning', cr_persona = persona', cr_tools = tools',
            cr_output_schema = schema', cr_seed_mode = seed_mode\<rparr>))))))"

text \<open>Python's \<^verbatim>\<open>or\<close> over optional strings.\<close>

definition str_or :: "string option \<Rightarrow> string option \<Rightarrow> string option" where
  "str_or a b = (case a of None \<Rightarrow> b | Some s \<Rightarrow> if s = [] then b else a)"

definition requested_model_fits :: "composition_request \<Rightarrow> frozen_preset \<Rightarrow> bool" where
  "requested_model_fits r p = (case (cr_model r, fp_model p) of
       (Some m, Some fixed) \<Rightarrow> m = [] \<or> fixed = [] \<or> m = fixed
     | _ \<Rightarrow> True)"

definition requested_features :: "composition_request \<Rightarrow> frozen_preset \<Rightarrow> provider_caps \<Rightarrow> composition_error + unit" where
  "requested_features r p provider =
     rbind (case cr_reasoning r of
              None \<Rightarrow> Inr ()
            | Some v \<Rightarrow> rbind (guard_that (''reasoning'' \<in> fp_capabilities p) (SubagentCompositionError ''preset reasoning''))
                (\<lambda>_. guard_that (v \<in> pc_variants provider) (SubagentCompositionError ''provider reasoning''))) (\<lambda>_.
     rbind (guard_that (cr_persona r = [] \<or> ''persona'' \<in> fp_capabilities p) (SubagentCompositionError ''preset persona'')) (\<lambda>_.
       guard_that (cr_output_schema r = JNull \<or> ''output_schema'' \<in> fp_capabilities p \<and> ''output_schema'' \<in> pc_capabilities provider)
         (SubagentCompositionError ''structured output'')))"

definition delegated_tools :: "composition_request \<Rightarrow> string set \<Rightarrow> frozen_preset \<Rightarrow> composition_error + string set" where
  "delegated_tools r parent_tools p =
     rbind (case cr_tools r of
              None \<Rightarrow> Inr (parent_tools \<inter> set (fp_tools p))
            | Some ts \<Rightarrow> rbind (string_list (strings_json ts) MAX_PRESET_TOOLS None) (\<lambda>requested.
                if \<not> set requested \<subseteq> parent_tools then Inl (SubagentCompositionError ''exceed parent authority'')
                else if \<not> set requested \<subseteq> set (fp_tools p) then Inl (SubagentCompositionError ''not in the child preset'')
                else Inr (set requested))) (\<lambda>tools.
     if tools \<inter> set BUILD_ONLY_WORKFLOW_TOOLS \<noteq> {} then Inl (SubagentCompositionError ''build-only tools'')
     else Inr tools)"

definition build_subagent_composition ::
  "subagent_lib \<Rightarrow> deployment \<Rightarrow> agent_def \<Rightarrow> string set \<Rightarrow> string option \<Rightarrow> string option \<Rightarrow> string option \<Rightarrow>
     string option \<Rightarrow> string list option \<Rightarrow> json \<Rightarrow> string \<Rightarrow> composition_error + composition" where
  "build_subagent_composition lib d agent parent_tools inherited_model requested_model reasoning persona tools schema seed_mode =
     rbind (validate_request lib requested_model reasoning persona tools schema seed_mode) (\<lambda>r.
     rbind (freeze_agent_preset lib agent) (\<lambda>preset.
     rbind (guard_that (fp_mode preset \<in> set spawnable_modes) (SubagentCompositionError ''not spawnable'')) (\<lambda>_.
     rbind (guard_that (requested_model_fits r preset) (SubagentCompositionError ''preset fixes model'')) (\<lambda>_.
     rbind (bounded_string (option_json (str_or (cr_model r) (str_or (fp_model preset)
              (str_or inherited_model (Some (d_default_model d)))))) 128 False) (\<lambda>model.
     rbind (guard_that (model \<in> set (configured_models d)) (SubagentCompositionError ''model is not configured'')) (\<lambda>_.
     rbind (provider_capabilities lib model d) (\<lambda>provider.
     rbind (requested_features r preset provider) (\<lambda>_.
     rbind (delegated_tools r parent_tools preset) (\<lambda>allowed.
     rbind (parse_subagent_composition lib (composition_to_json lib
              \<lparr>sc_model = model, sc_reasoning = cr_reasoning r, sc_agent_preset = preset, sc_persona = cr_persona r,
               sc_tool_allowlist = allowed, sc_output_schema = cr_output_schema r, sc_provider = provider,
               sc_seed_mode = cr_seed_mode r, sc_digest = []\<rparr>)) (\<lambda>accepted.
     rbind (validate_composition_availability lib accepted d) (\<lambda>_. Inr accepted)))))))))))"

definition keeps_accepted :: "string option \<Rightarrow> string option \<Rightarrow> bool" where
  "keeps_accepted requested accepted \<longleftrightarrow> requested = None \<or> requested = accepted"

definition follow_up_schema :: "subagent_lib \<Rightarrow> composition \<Rightarrow> json \<Rightarrow> composition_error + unit" where
  "follow_up_schema lib existing schema =
     (if schema = JNull then Inr ()
      else rbind (validate_output_schema lib schema) (\<lambda>s.
        guard_that (py_equal s (sc_output_schema existing)) (SubagentCompositionError ''cannot change output schema'')))"

definition follow_up_tools :: "composition \<Rightarrow> string set \<Rightarrow> string list option \<Rightarrow> composition_error + string set" where
  "follow_up_tools existing delegator_tools requested =
     (let allowed = sc_tool_allowlist existing \<inter> delegator_tools
      in case requested of
           None \<Rightarrow> Inr allowed
         | Some ts \<Rightarrow> rbind (string_list (strings_json ts) MAX_PRESET_TOOLS None) (\<lambda>r.
             if set r \<subseteq> allowed then Inr (set r)
             else Inl (SubagentCompositionError ''follow-up tools exceed authority'')))"

definition narrow_follow_up_composition ::
  "subagent_lib \<Rightarrow> composition \<Rightarrow> string set \<Rightarrow> string option \<Rightarrow> string option \<Rightarrow> string option \<Rightarrow>
     string list option \<Rightarrow> json \<Rightarrow> composition_error + composition" where
  "narrow_follow_up_composition lib existing delegator_tools requested_model reasoning persona requested_tools schema =
     (if \<not> keeps_accepted requested_model (Some (sc_model existing)) \<or> \<not> keeps_accepted reasoning (sc_reasoning existing) \<or>
         \<not> keeps_accepted persona (Some (sc_persona existing))
      then Inl (SubagentCompositionError ''follow-up cannot change'')
      else rbind (follow_up_schema lib existing schema) (\<lambda>_.
        rbind (follow_up_tools existing delegator_tools requested_tools) (\<lambda>allowed.
          parse_subagent_composition lib
            (composition_to_json lib (existing\<lparr>sc_tool_allowlist := allowed, sc_digest := []\<rparr>)))))"

end
