(* ===== verification/Subagent_Codec.thy ===== *)
theory Subagent_Codec
  imports Subagent_Composition "HOL-Library.Multiset"
begin

text \<open>
  What the validators of \<^verbatim>\<open>subagent_composition.py\<close> accept, as exact characterisations: each reader succeeds on
  precisely the JSON its writer produces for a value within the bounds (and, where the reader is more
  tolerant, on what it normalises to one). Presets, providers, schemas and
  compositions implement the contract \<open>codec\<close> of a writer and its reader.
\<close>

section \<open>Strings and lists of strings\<close>

definition bounded :: "nat \<Rightarrow> bool \<Rightarrow> string \<Rightarrow> bool" where
  "bounded limit blank s \<longleftrightarrow> (blank \<or> s \<noteq> []) \<and> length s \<le> limit"

definition bounded_opt :: "nat \<Rightarrow> bool \<Rightarrow> string option \<Rightarrow> bool" where
  "bounded_opt limit blank x = (case x of None \<Rightarrow> True | Some s \<Rightarrow> bounded limit blank s)"

definition allows :: "string list option \<Rightarrow> string set \<Rightarrow> bool" where
  "allows allowed S = (case allowed of None \<Rightarrow> True | Some names \<Rightarrow> S \<subseteq> set names)"

lemma allows_simps [simp]:
  "allows None S" "allows (Some names) S \<longleftrightarrow> S \<subseteq> set names" "allows allowed {}"
  by (auto simp: allows_def split: option.splits)

lemma allows_subset: "allows allowed S \<Longrightarrow> T \<subseteq> S \<Longrightarrow> allows allowed T"
  by (auto simp: allows_def split: option.splits)

definition names_ok :: "nat \<Rightarrow> string list option \<Rightarrow> string list \<Rightarrow> bool" where
  "names_ok maximum allowed xs \<longleftrightarrow> length xs \<le> maximum \<and> distinct xs \<and> list_all (bounded 1024 False) xs \<and>
     allows allowed (set xs)"

lemma bounded_string_iff [simp]:
  "bounded_string v limit blank = Inr s \<longleftrightarrow> v = JStr s \<and> bounded limit blank s"
  by (auto simp: bounded_string_def bounded_def split: json.splits)

lemma bounded_string_JStr:
  "bounded_string (JStr s) limit blank =
     (if bounded limit blank s then Inr s else Inl (SubagentCompositionError ''string''))"
  by (auto simp: bounded_string_def bounded_def)

lemma optional_string_iff [simp]:
  "optional_string v limit blank = Inr x \<longleftrightarrow> v = option_json x \<and> bounded_opt limit blank x"
  by (cases x) (auto simp: optional_string_def option_json_def bounded_opt_def rbind_Inr_iff)

lemma string_items_iff:
  "string_items allowed vs = Inr xs \<longleftrightarrow> vs = map JStr xs \<and> list_all (bounded 1024 False) xs \<and>
     allows allowed (set xs)"
proof (induction vs arbitrary: xs)
  case Nil
  then show ?case by auto
next
  case (Cons v vs)
  show ?case
    by (cases "bounded_string v 1024 False"; cases xs)
      (auto simp: rbind_Inr_iff Cons.IH allows_def bounded_string_JStr split: option.splits if_splits)
qed

lemma string_list_JList:
  "string_list (JList vs) maximum allowed = Inr xs \<longleftrightarrow>
     length vs \<le> maximum \<and> string_items allowed vs = Inr xs \<and> distinct xs"
proof -
  have "length (remdups ys) = length ys \<longleftrightarrow> distinct ys" for ys :: "string list"
    by (metis card_distinct distinct_card length_remdups_card_conv)
  then show ?thesis
    by (cases "string_items allowed vs") (auto simp: string_list_def simp del: length_remdups_eq)
qed

lemma string_list_iff [simp]:
  "string_list v maximum allowed = Inr xs \<longleftrightarrow> v = strings_json xs \<and> names_ok maximum allowed xs"
proof (cases v)
  case (JList vs)
  then show ?thesis
    by (auto simp: string_list_JList strings_json_def names_ok_def string_items_iff)
qed (simp_all add: string_list_def strings_json_def)

lemma map_JStr_inject [simp]: "map JStr xs = map JStr ys \<longleftrightarrow> xs = ys"
  by (simp add: inj_map_eq_map inj_def)

lemma strings_json_inject [simp]: "strings_json xs = strings_json ys \<longleftrightarrow> xs = ys"
  by (simp add: strings_json_def)

lemma option_json_inject [simp]: "option_json x = option_json y \<longleftrightarrow> x = y"
  by (auto simp: option_json_def split: option.splits)

text \<open>A set of names, as its sorted list is accepted.\<close>

definition name_set_ok :: "nat \<Rightarrow> string list option \<Rightarrow> string set \<Rightarrow> bool" where
  "name_set_ok maximum allowed S \<longleftrightarrow> finite S \<and> card S \<le> maximum \<and> (\<forall>s \<in> S. bounded 1024 False s) \<and>
     allows allowed S"

lemma names_ok_set: "names_ok maximum allowed xs \<Longrightarrow> name_set_ok maximum allowed (set xs)"
  by (auto simp: names_ok_def name_set_ok_def list_all_iff distinct_card)

lemma name_set_ok_sorted: "name_set_ok maximum allowed S \<Longrightarrow> names_ok maximum allowed (sorted_list_of_set S)"
  by (auto simp: names_ok_def name_set_ok_def list_all_iff)

lemma name_set_ok_subset: "name_set_ok maximum allowed S \<Longrightarrow> T \<subseteq> S \<Longrightarrow> name_set_ok maximum allowed T"
  by (auto simp: name_set_ok_def intro: finite_subset allows_subset order_trans [OF card_mono])

section \<open>Dictionaries\<close>

lemma dget_simps [simp]:
  "dget [] k = JNull" "dget ((k', v) # kvs) k = (if k' = k then v else dget kvs k)"
  by (auto simp: dget_def tget_def)

lemma exact_dict_iff: "exact_dict keys raw = Some kvs \<longleftrightarrow> raw = JDict kvs \<and> fst ` set kvs = set keys"
  by (auto simp: exact_dict_def split: json.splits)

section \<open>Canonical JSON\<close>

lemma sort_key_map:
  assumes "\<And>x. f (g x) = h x"
  shows "sort_key f (map g xs) = map g (sort_key h xs)"
proof -
  have ins: "insort_key f (g x) (map g ys) = map g (insort_key h x ys)" for x ys
    by (induction ys) (simp_all add: assms)
  show ?thesis by (induction xs) (simp_all add: ins)
qed

lemma map_of_filter_key: "map_of xs k = map_of (filter (\<lambda>y. fst y = k) xs) k"
  by (induction xs) auto

lemma map_of_sort_key: "map_of (sort_key fst xs) k = map_of xs k"
  by (subst (1 2) map_of_filter_key) (simp add: sort_key_stable)

lemma entry_sort: "sort_key fst (map (\<lambda>(k, v). (k, f v)) kvs) = map (\<lambda>(k, v). (k, f v)) (sort_key fst kvs)"
  by (rule sort_key_map) (simp add: case_prod_beta)

lemma sort_key_idem [simp]: "sort_key f (sort_key f xs) = sort_key f xs"
  by (rule sort_key_id_if_sorted) simp

lemma sort_twice:
  "sort_key fst (map (\<lambda>(k, v). (k, g v)) (sort_key fst (map (\<lambda>(k, v). (k, f v)) kvs))) =
     sort_key fst (map (\<lambda>(k, v). (k, g (f v))) kvs)"
proof -
  have "map (\<lambda>(k, v). (k, g v)) (map (\<lambda>(k, v). (k, f v)) xs) = map (\<lambda>(k, v). (k, g (f v))) xs" for xs
    by (induction xs) auto
  then show ?thesis by (simp only: entry_sort sort_key_idem)
qed

lemma canonical_idem [simp]: "canonical (canonical v) = canonical v"
proof (induction v rule: canonical.induct)
  case (2 kvs)
  then have eq: "map (\<lambda>(k, v). (k, canonical (canonical v))) kvs = map (\<lambda>(k, v). (k, canonical v)) kvs"
    by (intro map_cong) auto
  show ?case by (simp only: canonical.simps sort_twice eq)
qed simp_all

lemma json_dumps_canonical [simp]: "json_dumps (canonical v) = json_dumps v"
proof (induction v rule: canonical.induct)
  case (1 vs)
  then show ?case by (simp cong: map_cong)
next
  case (2 kvs)
  then have eq: "map (\<lambda>(k, v). (k, json_dumps (canonical v))) kvs = map (\<lambda>(k, v). (k, json_dumps v)) kvs"
    by (intro map_cong) auto
  show ?case by (simp only: canonical.simps json_dumps.simps sort_twice eq)
qed simp_all

lemma dget_canonical:
  "canonical (JDict kvs) = JDict kvs' \<Longrightarrow> dget kvs' k = canonical (dget kvs k)"
  by (auto simp: dget_def tget_def map_of_sort_key map_of_map split: option.splits)

section \<open>Output schemas\<close>

text \<open>The structural bounds without the running counter: the number of nodes, and every other bound.\<close>

fun nodes :: "json \<Rightarrow> nat" where
  "nodes (JList vs) = Suc (sum_list (map nodes vs))"
| "nodes (JDict kvs) = Suc (sum_list (map (nodes \<circ> snd) kvs))"
| "nodes v = 1"

fun within :: "nat \<Rightarrow> json \<Rightarrow> bool" where
  "within depth (JStr s) \<longleftrightarrow> depth \<le> MAX_SCHEMA_DEPTH \<and> length s \<le> MAX_SCHEMA_STRING"
| "within depth (JList vs) \<longleftrightarrow> depth \<le> MAX_SCHEMA_DEPTH \<and> length vs \<le> MAX_SCHEMA_COLLECTION \<and>
     (\<forall>v \<in> set vs. within (Suc depth) v)"
| "within depth (JDict kvs) \<longleftrightarrow> depth \<le> MAX_SCHEMA_DEPTH \<and> length kvs \<le> MAX_SCHEMA_COLLECTION \<and>
     (\<forall>(k, v) \<in> set kvs. length k \<le> MAX_SCHEMA_STRING \<and> within (Suc depth) v)"
| "within depth v \<longleftrightarrow> depth \<le> MAX_SCHEMA_DEPTH"

lemma nodes_pos: "0 < nodes v"
  by (cases v) simp_all

lemma validate_schema_iff:
  "validate_schema_node v d c = Inr c' \<longleftrightarrow> within d v \<and> c + nodes v \<le> MAX_SCHEMA_NODES \<and> c' = c + nodes v"
  "validate_schema_items vs d c = Inr c' \<longleftrightarrow>
     (\<forall>v \<in> set vs. within d v) \<and> (vs = [] \<or> c + sum_list (map nodes vs) \<le> MAX_SCHEMA_NODES) \<and>
     c' = c + sum_list (map nodes vs)"
  "validate_schema_entries kvs d c = Inr c' \<longleftrightarrow>
     (\<forall>(k, v) \<in> set kvs. length k \<le> MAX_SCHEMA_STRING \<and> within d v) \<and>
     (kvs = [] \<or> c + sum_list (map (nodes \<circ> snd) kvs) \<le> MAX_SCHEMA_NODES) \<and>
     c' = c + sum_list (map (nodes \<circ> snd) kvs)"
proof (induction v d c and vs d c and kvs d c arbitrary: c' and c' and c'
    rule: validate_schema_node_validate_schema_items_validate_schema_entries.induct)
  case (1 v d c)
  then show ?case
    by (subst validate_schema_node.simps) (cases v; auto simp: Let_def comp_def)
next
  case (3 v vs d c)
  then show ?case using nodes_pos [of v] by (auto simp: rbind_Inr_iff)
next
  case (5 k v kvs d c)
  then show ?case using nodes_pos [of v]
    by (auto simp: rbind_Inr_iff bounded_string_JStr bounded_def)
qed auto

lemma sum_list_sort_key: "sum_list (map f (sort_key g xs)) = (sum_list (map f xs) :: nat)"
  by (metis mset_map mset_sort sum_mset_sum_list)

lemma nodes_canonical [simp]: "nodes (canonical v) = nodes v"
proof (induction v rule: canonical.induct)
  case (1 vs)
  then show ?case by (simp add: comp_def cong: map_cong)
next
  case (2 kvs)
  have "map (nodes \<circ> snd) (map (\<lambda>(k, v). (k, canonical v)) kvs) = map (nodes \<circ> snd) kvs"
    using 2 by (auto simp: comp_def)
  then show ?case by (simp only: canonical.simps nodes.simps sum_list_sort_key)
qed simp_all

lemma within_canonical [simp]: "within d (canonical v) = within d v"
proof (induction v arbitrary: d rule: canonical.induct)
  case (2 kvs)
  have "(\<forall>(k, v) \<in> set (map (\<lambda>(k, v). (k, canonical v)) kvs). length k \<le> MAX_SCHEMA_STRING \<and> within (Suc d) v) \<longleftrightarrow>
    (\<forall>(k, v) \<in> set kvs. length k \<le> MAX_SCHEMA_STRING \<and> within (Suc d) v)"
    using 2 by (fastforce simp: case_prod_beta)
  then show ?case by (simp only: canonical.simps within.simps set_sort length_sort length_map)
qed simp_all

text \<open>What \<^verbatim>\<open>validate_output_schema\<close> returns: nothing, or a canonical object schema within every bound.\<close>

definition schema_ok :: "subagent_lib \<Rightarrow> json \<Rightarrow> bool" where
  "schema_ok lib s = (case s of
       JNull \<Rightarrow> True
     | JDict kvs \<Rightarrow> canonical s = s \<and> dget kvs ''type'' = JStr ''object'' \<and> is_dict (dget kvs ''properties'') \<and>
         within 0 s \<and> nodes s \<le> MAX_SCHEMA_NODES \<and> length (json_dumps s) \<le> MAX_SCHEMA_BYTES \<and> check_schema lib s
     | _ \<Rightarrow> False)"

lemma is_dict_canonical [simp]: "is_dict (canonical v) = is_dict v"
  by (cases v) (simp_all add: is_dict_def)

lemma canonical_JStr [simp]: "canonical v = JStr s \<longleftrightarrow> v = JStr s"
  by (cases v) simp_all

lemma schema_ok_canonical:
  assumes "dget kvs ''type'' = JStr ''object''" "is_dict (dget kvs ''properties'')" "within 0 (JDict kvs)"
    "nodes (JDict kvs) \<le> MAX_SCHEMA_NODES" "length (json_dumps (JDict kvs)) \<le> MAX_SCHEMA_BYTES"
    "check_schema lib (canonical (JDict kvs))"
  shows "schema_ok lib (canonical (JDict kvs))"
proof -
  obtain kvs' where c: "canonical (JDict kvs) = JDict kvs'" by simp
  note same = canonical_idem [of "JDict kvs"] within_canonical [of 0 "JDict kvs"] nodes_canonical [of "JDict kvs"]
    json_dumps_canonical [of "JDict kvs"]
  from assms same show ?thesis
    unfolding c schema_ok_def by (simp add: dget_canonical [OF c])
qed

lemma validate_output_schema_ok:
  assumes "validate_output_schema lib v = Inr s"
  shows "schema_ok lib s"
proof (cases v)
  case (JDict kvs)
  with assms show ?thesis
    by (auto simp: validate_output_schema_def Let_def rbind_Inr_iff validate_schema_iff
        simp del: canonical.simps json_dumps.simps within.simps nodes.simps
        intro!: schema_ok_canonical split: if_splits)
qed (use assms in \<open>simp_all add: validate_output_schema_def schema_ok_def\<close>)

lemma validate_output_schema_fix:
  assumes "schema_ok lib s"
  shows "validate_output_schema lib s = Inr s"
proof (cases s)
  case (JDict kvs)
  with assms have ok: "canonical s = s" "dget kvs ''type'' = JStr ''object''" "is_dict (dget kvs ''properties'')"
    "validate_schema_node s 0 0 = Inr (nodes s)" "length (json_dumps s) \<le> MAX_SCHEMA_BYTES" "check_schema lib s"
    by (simp_all add: schema_ok_def validate_schema_iff)
  have "unwrap_schema kvs = kvs" using ok(2) by (simp add: unwrap_schema_def)
  with ok JDict show ?thesis
    by (simp add: validate_output_schema_def del: canonical.simps json_dumps.simps)
qed (use assms in \<open>simp_all add: validate_output_schema_def schema_ok_def\<close>)

interpretation schemas: codec "\<lambda>s. s" "validate_output_schema lib" "schema_ok lib" "\<lambda>_. True"
  for lib
  by unfold_locales (simp_all add: validate_output_schema_ok validate_output_schema_fix)

section \<open>Presets\<close>

definition preset_ok :: "frozen_preset \<Rightarrow> bool" where
  "preset_ok p \<longleftrightarrow> bounded 64 False (fp_name p) \<and> fp_mode p \<in> set spawnable_modes \<and>
     names_ok MAX_PRESET_TOOLS None (fp_tools p) \<and> 1 \<le> fp_max_steps p \<and> fp_max_steps p \<le> 10000 \<and>
     bounded_opt 128 False (fp_model p) \<and> bounded_opt MAX_PRESET_PROMPT_CHARS True (fp_prompt p) \<and>
     length (fp_permission p) \<le> 4096 \<and> fp_capabilities p \<subseteq> set CAPABILITIES \<and>
     {''model'', ''agent_preset'', ''tool_filter''} \<subseteq> fp_capabilities p"

text \<open>Pydantic reads back the dump of a rule.\<close>

definition rules_stable :: "subagent_lib \<Rightarrow> rule list \<Rightarrow> bool" where
  "rules_stable lib rs = list_all (\<lambda>r. model_validate lib (rule_json r) = Some r) rs"

lemma name_set_ok_closed:
  "S \<subseteq> set names \<Longrightarrow> list_all (bounded 1024 False) names \<Longrightarrow> name_set_ok (length names) (Some names) S"
  by (auto simp: name_set_ok_def list_all_iff finite_subset intro: order_trans [OF card_mono card_length])

lemma capability_names:
  "list_all (bounded 1024 False) CAPABILITIES" "list_all (bounded 1024 False) PROVIDER_CAPABILITIES"
  by (simp_all add: CAPABILITIES_def PROVIDER_CAPABILITIES_def bounded_def)

lemma permission_items_length: "permission_items lib items = Inr rs \<Longrightarrow> length rs = length items"
  by (induction items arbitrary: rs) (auto simp: rbind_Inr_iff split: option.splits)

lemma permission_items_dump: "rules_stable lib rs \<Longrightarrow> permission_items lib (map rule_json rs) = Inr rs"
  by (induction rs) (simp_all add: rules_stable_def)

lemma canonical_permission_length: "canonical_permission lib raw = Inr rs \<Longrightarrow> length rs \<le> 4096"
  by (auto simp: canonical_permission_def dest: permission_items_length split: json.splits if_splits)

lemma canonical_permission_dump:
  "length rs \<le> 4096 \<Longrightarrow> rules_stable lib rs \<Longrightarrow> canonical_permission lib (JList (map rule_json rs)) = Inr rs"
  by (simp add: canonical_permission_def permission_items_dump)

lemma preset_max_steps_iff [simp]: "preset_max_steps v = Inr n \<longleftrightarrow> v = JInt n \<and> 1 \<le> n \<and> n \<le> 10000"
  by (auto simp: preset_max_steps_def split: json.splits)

lemma preset_flag_iff [simp]: "preset_flag v = Inr b \<longleftrightarrow> v = JBool b"
  by (auto simp: preset_flag_def split: json.splits)

lemma parse_preset_ok: "parse_preset lib raw = Inr p \<Longrightarrow> preset_ok p"
  by (auto simp: parse_preset_def parse_preset_fields_def rbind_Inr_iff preset_ok_def names_ok_def
      canonical_permission_length split: option.splits)

lemma parse_preset_dump:
  assumes "preset_ok p" and "rules_stable lib (fp_permission p)"
  shows "parse_preset lib (preset_to_json p) = Inr p"
proof -
  have caps: "names_ok (length CAPABILITIES) (Some CAPABILITIES) (sorted_list_of_set (fp_capabilities p))"
    and fin: "finite (fp_capabilities p)"
    using assms(1) by (auto simp: preset_ok_def name_set_ok_closed capability_names name_set_ok_sorted intro: finite_subset)
  have "bounded 16 False (fp_mode p)"
    using assms(1) by (auto simp: preset_ok_def spawnable_modes_def bounded_def)
  with assms caps fin canonical_permission_dump [of "fp_permission p" lib] show ?thesis
    by (cases p) (simp add: parse_preset_def preset_to_json_def exact_dict_def PRESET_KEYS_def insert_commute
        parse_preset_fields_def rbind_Inr_iff preset_ok_def is_number_def to_float_def)
qed

interpretation presets: codec preset_to_json "parse_preset lib" preset_ok "\<lambda>p. rules_stable lib (fp_permission p)"
  for lib
  by unfold_locales (simp_all add: parse_preset_ok parse_preset_dump)

section \<open>Providers\<close>

definition provider_ok :: "provider_caps \<Rightarrow> bool" where
  "provider_ok p \<longleftrightarrow> bounded 64 False (pc_provider_id p) \<and> pc_capabilities p \<subseteq> set PROVIDER_CAPABILITIES \<and>
     name_set_ok 32 None (pc_variants p) \<and> is_binding_digest (pc_binding_digest p) \<and>
     {''model'', ''tool_filter''} \<subseteq> pc_capabilities p \<and> (pc_variants p \<noteq> {}) = (''reasoning'' \<in> pc_capabilities p)"

lemma parse_provider_ok: "parse_provider raw = Inr p \<Longrightarrow> provider_ok p"
  by (auto simp: parse_provider_def parse_provider_fields_def rbind_Inr_iff provider_ok_def names_ok_set
      split: option.splits) (auto simp: names_ok_def name_set_ok_def)

lemma parse_provider_dump:
  assumes "provider_ok p"
  shows "parse_provider (provider_to_json p) = Inr p"
proof -
  have caps: "names_ok (length PROVIDER_CAPABILITIES) (Some PROVIDER_CAPABILITIES) (sorted_list_of_set (pc_capabilities p))"
    and fin: "finite (pc_capabilities p)" "finite (pc_variants p)"
    and vars: "names_ok 32 None (sorted_list_of_set (pc_variants p))"
    using assms by (auto simp: provider_ok_def name_set_ok_closed capability_names name_set_ok_sorted
        intro: finite_subset dest: name_set_ok_def [THEN iffD1])
  have dig: "bounded 64 False (pc_binding_digest p)"
    using assms by (auto simp: provider_ok_def is_binding_digest_def bounded_def)
  have "sorted_list_of_set (pc_variants p) \<noteq> [] \<longleftrightarrow> pc_variants p \<noteq> {}"
    using fin by (simp add: sorted_list_of_set_eq_Nil_iff)
  with assms caps fin vars dig show ?thesis
    by (cases p) (simp add: parse_provider_def provider_to_json_def exact_dict_def PROVIDER_KEYS_def insert_commute
        parse_provider_fields_def rbind_Inr_iff provider_ok_def)
qed

interpretation providers: codec provider_to_json parse_provider provider_ok "\<lambda>_. True"
  by unfold_locales (simp_all add: parse_provider_ok parse_provider_dump)

section \<open>Compositions\<close>

definition composition_ok :: "subagent_lib \<Rightarrow> composition \<Rightarrow> bool" where
  "composition_ok lib c \<longleftrightarrow> bounded 128 False (sc_model c) \<and> bounded_opt 32 False (sc_reasoning c) \<and>
     bounded MAX_PERSONA_CHARS True (sc_persona c) \<and> name_set_ok MAX_PRESET_TOOLS None (sc_tool_allowlist c) \<and>
     schema_ok lib (sc_output_schema c) \<and> preset_ok (sc_agent_preset c) \<and> provider_ok (sc_provider c) \<and>
     sc_seed_mode c \<in> set seed_modes \<and> sc_tool_allowlist c \<subseteq> set (fp_tools (sc_agent_preset c)) \<and>
     declared_capabilities_hold c"

text \<open>A composition that its own snapshot represents: current digest, within the byte budget.\<close>

definition composition_stable :: "subagent_lib \<Rightarrow> composition \<Rightarrow> bool" where
  "composition_stable lib c \<longleftrightarrow> rules_stable lib (fp_permission (sc_agent_preset c)) \<and>
     sc_digest c = payload_digest lib (composition_payload c) \<and>
     length (json_dumps (composition_to_json lib c)) \<le> MAX_COMPOSITION_BYTES"

lemma declared_capabilities_update [simp]:
  "declared_capabilities_hold (c\<lparr>sc_digest := d\<rparr>) = declared_capabilities_hold c"
  "declared_capabilities_hold (c\<lparr>sc_tool_allowlist := S\<rparr>) = declared_capabilities_hold c"
  by (simp_all add: declared_capabilities_hold_def cong: option.case_cong)

lemma parse_composition_ok:
  assumes "parse_subagent_composition lib raw = Inr c"
  shows "composition_ok lib c"
proof -
  from assms obtain d kvs where "parse_composition_fields lib d kvs = Inr c"
    by (auto simp: parse_subagent_composition_def split: option.splits if_splits)
  then show ?thesis
    by (auto simp: parse_composition_fields_def rbind_Inr_iff composition_ok_def Let_def names_ok_set
        validate_output_schema_ok parse_preset_ok parse_provider_ok split: if_splits)
qed

lemma parse_fields_dump:
  assumes "composition_ok lib c" and "rules_stable lib (fp_permission (sc_agent_preset c))"
  shows "parse_composition_fields lib d (composition_payload c @ rest) = Inr (c\<lparr>sc_digest := d\<rparr>)"
proof -
  have fin: "finite (sc_tool_allowlist c)" and names: "names_ok MAX_PRESET_TOOLS None (sorted_list_of_set (sc_tool_allowlist c))"
    using assms(1) by (auto simp: composition_ok_def name_set_ok_sorted dest: name_set_ok_def [THEN iffD1])
  have "bounded 16 False (sc_seed_mode c)"
    using assms(1) by (auto simp: composition_ok_def seed_modes_def bounded_def)
  moreover have "declared_capabilities_hold (c\<lparr>sc_digest := d\<rparr>)"
    using assms(1) by (simp add: composition_ok_def)
  ultimately show ?thesis
    using assms fin names parse_preset_dump [of "sc_agent_preset c" lib] parse_provider_dump [of "sc_provider c"]
      validate_output_schema_fix [of lib "sc_output_schema c"]
    by (cases c) (simp add: parse_composition_fields_def composition_payload_def rbind_Inr_iff composition_ok_def Let_def)
qed

lemma digest_of_snapshot:
  "payload_digest lib (composition_payload c @ [(''digest'', v)]) = payload_digest lib (composition_payload c)"
  by (simp add: payload_digest_def composition_payload_def)

lemma parse_composition_dump:
  assumes "composition_ok lib c" and "rules_stable lib (fp_permission (sc_agent_preset c))"
    and "length (json_dumps (composition_to_json lib c)) \<le> MAX_COMPOSITION_BYTES"
  shows "parse_subagent_composition lib (composition_to_json lib c) =
    Inr (c\<lparr>sc_digest := payload_digest lib (composition_payload c)\<rparr>)"
proof -
  define kvs where "kvs = composition_payload c @ [(''digest'', JStr (payload_digest lib (composition_payload c)))]"
  have keys: "exact_dict COMPOSITION_KEYS (JDict kvs) = Some kvs"
    by (auto simp: exact_dict_def kvs_def composition_payload_def COMPOSITION_KEYS_def)
  have fields: "dget kvs ''version'' = JInt COMPOSITION_VERSION"
    "dget kvs ''digest'' = JStr (payload_digest lib (composition_payload c))"
    by (simp_all add: kvs_def composition_payload_def)
  have dig: "payload_digest lib kvs = payload_digest lib (composition_payload c)"
    unfolding kvs_def by (rule digest_of_snapshot)
  have "parse_composition_fields lib (payload_digest lib kvs) kvs =
    Inr (c\<lparr>sc_digest := payload_digest lib (composition_payload c)\<rparr>)"
    unfolding dig unfolding kvs_def by (rule parse_fields_dump [OF assms(1,2)])
  with assms(3) keys fields dig show ?thesis
    by (simp add: parse_subagent_composition_def composition_to_json_def py_equal_def flip: kvs_def)
qed

interpretation compositions: codec "composition_to_json lib" "parse_subagent_composition lib" "composition_ok lib"
  "composition_stable lib"
  for lib
  by unfold_locales (auto simp: parse_composition_ok composition_stable_def parse_composition_dump)

section \<open>Sizes\<close>

lemma length_join: "length (join [c] xs) = sum_list (map length xs) + (length xs - 1)"
  by (induction "[c]" xs rule: join.induct) auto

lemma length_dict:
  "length (json_dumps (JDict kvs)) =
     2 + (\<Sum>(k, v) \<leftarrow> kvs. Suc (length (quoted k) + length (json_dumps v))) + (length kvs - 1)"
proof -
  have "map (length \<circ> (\<lambda>(k, t). quoted k @ '':'' @ t)) (map (\<lambda>(k, v). (k, json_dumps v)) kvs) =
    map (\<lambda>(k, v). Suc (length (quoted k) + length (json_dumps v))) kvs"
    by auto
  then have "sum_list (map length (map (\<lambda>(k, t). quoted k @ '':'' @ t)
      (sort_key fst (map (\<lambda>(k, v). (k, json_dumps v)) kvs)))) =
    (\<Sum>(k, v) \<leftarrow> kvs. Suc (length (quoted k) + length (json_dumps v)))"
    by (simp only: map_map sum_list_sort_key)
  then show ?thesis by (simp only: json_dumps.simps length_Cons length_append length_join length_map length_sort)
    simp
qed

lemma length_names:
  "finite S \<Longrightarrow> length (json_dumps (strings_json (sorted_list_of_set S))) =
     2 + (\<Sum>s \<in> S. length (quoted s)) + (card S - 1)"
  by (simp add: strings_json_def length_join comp_def sum_list_distinct_conv_sum_set)

lemma length_names_mono:
  assumes "T \<subseteq> S" and "finite S"
  shows "length (json_dumps (strings_json (sorted_list_of_set T))) \<le> length (json_dumps (strings_json (sorted_list_of_set S)))"
proof -
  have "finite T" "card T \<le> card S" "(\<Sum>s \<in> T. length (quoted s)) \<le> (\<Sum>s \<in> S. length (quoted s))"
    using assms finite_subset card_mono sum_mono2 [of S T "\<lambda>s. length (quoted s)"] by auto
  with assms(2) show ?thesis by (simp add: length_names)
qed

end
