(* ===== verification/Subagent_Authority.thy ===== *)
theory Subagent_Authority
  imports Subagent_Codec
begin

text \<open>
  \<^verbatim>\<open>src/backend/agent/subagent_authority.py\<close>, the parts of \<^verbatim>\<open>src/backend/tool/task.py\<close> and
  \<^verbatim>\<open>src/backend/agent/subagent_runtime.py\<close> that compute the authority a child is accepted with, and the
  boundary \<^verbatim>\<open>src/backend/agent/loop.py\<close> builds for each step: the tools and rule planes a delegated Agent may not
  leave, their snapshot in the descriptor row, and how they narrow along a chain of delegations.
\<close>

section \<open>Data\<close>

definition AUTHORITY_SNAPSHOT_VERSION :: int where "AUTHORITY_SNAPSHOT_VERSION = 2"
definition LEGACY_AUTHORITY_SNAPSHOT_VERSION :: int where "LEGACY_AUTHORITY_SNAPSHOT_VERSION = 1"
definition MAX_AUTHORITY_TOOLS :: nat where "MAX_AUTHORITY_TOOLS = 4096"
definition MAX_AUTHORITY_PLANES :: nat where "MAX_AUTHORITY_PLANES = 16"
definition MAX_AUTHORITY_RULES_PER_PLANE :: nat where "MAX_AUTHORITY_RULES_PER_PLANE = 4096"
definition MAX_AUTHORITY_STRING :: nat where "MAX_AUTHORITY_STRING = 1024"

text \<open>
  \<open>CompositionFailed\<close> is a \<^verbatim>\<open>SubagentCompositionError\<close> that is not turned into a \<^verbatim>\<open>SubagentAuthorityError\<close>;
  \<open>UnhashableVersion\<close> is the \<^verbatim>\<open>TypeError\<close> of testing a list or dict for membership in a set.
\<close>

datatype authority_error = SubagentAuthorityError string | CompositionFailed composition_error | UnhashableVersion
  | SubagentFenceError string

text \<open>The version is kept as it was read: a JSON number that equals one of the two known ones.\<close>

record authority =
  sa_tool_ids :: "string set"
  sa_permission_planes :: "rule list list"
  sa_guard_planes :: "rule list list"
  sa_composition :: "composition option"
  sa_snapshot_version :: json

datatype raw_rule = RuleObject rule | RuleValue json

section \<open>Snapshots\<close>

definition plane_json :: "rule list \<Rightarrow> json" where
  "plane_json plane = JList (map rule_json plane)"

definition is_version :: "json \<Rightarrow> int \<Rightarrow> bool" where
  "is_version v n = py_equal v (JInt n)"

definition authority_to_json :: "subagent_lib \<Rightarrow> authority \<Rightarrow> authority_error + json" where
  "authority_to_json lib a =
     (let payload = [(''version'', sa_snapshot_version a),
                     (''tool_ids'', strings_json (sorted_list_of_set (sa_tool_ids a))),
                     (''permission_planes'', JList (map plane_json (sa_permission_planes a))),
                     (''guard_planes'', JList (map plane_json (sa_guard_planes a)))]
      in if is_version (sa_snapshot_version a) AUTHORITY_SNAPSHOT_VERSION
         then case sa_composition a of
                None \<Rightarrow> Inl (SubagentAuthorityError ''requires a composition'')
              | Some c \<Rightarrow> Inr (JDict (payload @ [(''composition'', composition_to_json lib c)]))
         else Inr (JDict payload))"

definition rule_fields :: "string list" where
  "rule_fields = [''permission'', ''pattern'', ''action'']"

definition validated_rule :: "subagent_lib \<Rightarrow> raw_rule \<Rightarrow> authority_error + rule" where
  "validated_rule lib raw =
     rbind (case raw of
              RuleObject r \<Rightarrow> Inr r
            | RuleValue v \<Rightarrow> (case v of
                JDict kvs \<Rightarrow>
                  if set (map fst kvs) \<noteq> set rule_fields then Inl (SubagentAuthorityError ''unsupported fields'')
                  else (case model_validate lib v of None \<Rightarrow> Inl (SubagentAuthorityError ''rule is invalid'') | Some r \<Rightarrow> Inr r)
              | _ \<Rightarrow> Inl (SubagentAuthorityError ''rule must be an object''))) (\<lambda>r.
     if permission r = [] \<or> rule_pattern r = [] \<or> length (permission r) > MAX_AUTHORITY_STRING \<or>
        length (rule_pattern r) > MAX_AUTHORITY_STRING
     then Inl (SubagentAuthorityError ''rule exceeds its bounds'') else Inr r)"

fun validated_rules :: "subagent_lib \<Rightarrow> raw_rule list \<Rightarrow> authority_error + rule list" where
  "validated_rules lib [] = Inr []"
| "validated_rules lib (raw # raws) =
     rbind (validated_rule lib raw) (\<lambda>r. rbind (validated_rules lib raws) (\<lambda>rs. Inr (r # rs)))"

definition validated_plane :: "subagent_lib \<Rightarrow> raw_rule list \<Rightarrow> authority_error + rule list" where
  "validated_plane lib raws =
     (if length raws > MAX_AUTHORITY_RULES_PER_PLANE then Inl (SubagentAuthorityError ''plane is too large'')
      else if raws = [] then Inl (SubagentAuthorityError ''plane cannot be empty'')
      else validated_rules lib raws)"

definition validated_plane_value :: "subagent_lib \<Rightarrow> json \<Rightarrow> authority_error + rule list" where
  "validated_plane_value lib v = (case v of
       JList vs \<Rightarrow> validated_plane lib (map RuleValue vs)
     | _ \<Rightarrow> Inl (SubagentAuthorityError ''plane must be a list''))"

fun plane_values :: "subagent_lib \<Rightarrow> json list \<Rightarrow> authority_error + rule list list" where
  "plane_values lib [] = Inr []"
| "plane_values lib (v # vs) =
     rbind (validated_plane_value lib v) (\<lambda>plane. rbind (plane_values lib vs) (\<lambda>planes. Inr (plane # planes)))"

definition validated_planes :: "subagent_lib \<Rightarrow> json \<Rightarrow> bool \<Rightarrow> authority_error + rule list list" where
  "validated_planes lib raw required = (case raw of
       JList vs \<Rightarrow>
         if length vs > MAX_AUTHORITY_PLANES then Inl (SubagentAuthorityError ''too many rule planes'')
         else if required \<and> vs = [] then Inl (SubagentAuthorityError ''planes are missing'')
         else plane_values lib vs
     | _ \<Rightarrow> Inl (SubagentAuthorityError ''planes must be a list''))"

fun tool_id_values :: "json list \<Rightarrow> authority_error + string list" where
  "tool_id_values [] = Inr []"
| "tool_id_values (v # vs) = (case v of
       JStr s \<Rightarrow> if s = [] \<or> length s > MAX_AUTHORITY_STRING then Inl (SubagentAuthorityError ''invalid tool id'')
         else rbind (tool_id_values vs) (\<lambda>ids. Inr (s # ids))
     | _ \<Rightarrow> Inl (SubagentAuthorityError ''invalid tool id''))"

definition parse_tool_ids :: "json \<Rightarrow> authority_error + string set" where
  "parse_tool_ids raw = (case raw of
       JList vs \<Rightarrow>
         if length vs > MAX_AUTHORITY_TOOLS then Inl (SubagentAuthorityError ''tool boundary is invalid'')
         else rbind (tool_id_values vs) (\<lambda>ids.
           if card (set ids) \<noteq> length vs then Inl (SubagentAuthorityError ''duplicate tool ids'') else Inr (set ids))
     | _ \<Rightarrow> Inl (SubagentAuthorityError ''tool boundary is invalid''))"

definition hashable :: "json \<Rightarrow> bool" where
  "hashable v = (case v of JList _ \<Rightarrow> False | JDict _ \<Rightarrow> False | _ \<Rightarrow> True)"

definition authority_keys :: "string list" where
  "authority_keys = [''version'', ''tool_ids'', ''permission_planes'', ''guard_planes'']"

definition wrapped_composition :: "composition_error + 'a \<Rightarrow> authority_error + 'a" where
  "wrapped_composition r = (case r of
       Inr c \<Rightarrow> Inr c
     | Inl (SubagentCompositionError m) \<Rightarrow> Inl (SubagentAuthorityError m)
     | Inl e \<Rightarrow> Inl (CompositionFailed e))"

definition parsed_composition ::
  "subagent_lib \<Rightarrow> bool \<Rightarrow> json \<Rightarrow> string set \<Rightarrow> authority_error + composition option" where
  "parsed_composition lib v2 raw tool_ids =
     (if \<not> v2 then Inr None
      else rbind (wrapped_composition (parse_subagent_composition lib raw)) (\<lambda>c.
        if tool_ids \<noteq> sc_tool_allowlist c then Inl (SubagentAuthorityError ''tools do not match'') else Inr (Some c)))"

definition parse_subagent_authority :: "subagent_lib \<Rightarrow> json \<Rightarrow> authority_error + authority" where
  "parse_subagent_authority lib raw = (case raw of
       JDict kvs \<Rightarrow>
         (let version = dget kvs ''version''; v2 = is_version version AUTHORITY_SNAPSHOT_VERSION
          in if set (map fst kvs) \<noteq> set (if v2 then ''composition'' # authority_keys else authority_keys)
             then Inl (SubagentAuthorityError ''snapshot is unsupported'')
             else if \<not> hashable version then Inl UnhashableVersion
             else if \<not> is_version version LEGACY_AUTHORITY_SNAPSHOT_VERSION \<and> \<not> v2
             then Inl (SubagentAuthorityError ''version is unsupported'')
             else
               rbind (parse_tool_ids (dget kvs ''tool_ids'')) (\<lambda>tool_ids.
               rbind (parsed_composition lib v2 (dget kvs ''composition'') tool_ids) (\<lambda>composition.
               rbind (validated_planes lib (dget kvs ''permission_planes'') True) (\<lambda>permission_planes.
               rbind (validated_planes lib (dget kvs ''guard_planes'') False) (\<lambda>guard_planes.
                 Inr \<lparr>sa_tool_ids = tool_ids, sa_permission_planes = permission_planes, sa_guard_planes = guard_planes,
                      sa_composition = composition, sa_snapshot_version = version\<rparr>)))))
     | _ \<Rightarrow> Inl (SubagentAuthorityError ''snapshot is missing''))"

section \<open>Narrowing\<close>

definition lift_composition :: "composition_error + 'a \<Rightarrow> authority_error + 'a" where
  "lift_composition r = (case r of Inl e \<Rightarrow> Inl (CompositionFailed e) | Inr x \<Rightarrow> Inr x)"

text \<open>The tools, composition and version that both narrowing operations compute.\<close>

definition narrowed_tools ::
  "subagent_lib \<Rightarrow> string set \<Rightarrow> composition option \<Rightarrow> json \<Rightarrow> authority_error + string set \<times> composition option \<times> json" where
  "narrowed_tools lib tools c version = (case c of
       None \<Rightarrow> Inr (tools, None, version)
     | Some existing \<Rightarrow>
         rbind (lift_composition (narrow_follow_up_composition lib existing tools None None None None JNull)) (\<lambda>c'.
           Inr (sc_tool_allowlist c', Some c', JInt AUTHORITY_SNAPSHOT_VERSION)))"

definition inherited_planes :: "(authority \<Rightarrow> rule list list) \<Rightarrow> authority option \<Rightarrow> rule list list" where
  "inherited_planes planes inherited = (case inherited of None \<Rightarrow> [] | Some a \<Rightarrow> planes a)"

definition compose_subagent_authority ::
  "subagent_lib \<Rightarrow> string list \<Rightarrow> raw_rule list \<Rightarrow> raw_rule list \<Rightarrow> authority option \<Rightarrow> authority_error + authority" where
  "compose_subagent_authority lib current_tools permission_rules current_guards inherited =
     (if length current_tools > MAX_AUTHORITY_TOOLS then Inl (SubagentAuthorityError ''tool boundary is too large'')
      else if [] \<in> set current_tools then Inl (SubagentAuthorityError ''tool boundary is invalid'')
      else
        (let tools = (case inherited of None \<Rightarrow> set current_tools | Some a \<Rightarrow> set current_tools \<inter> sa_tool_ids a)
         in rbind (validated_plane lib permission_rules) (\<lambda>plane.
            rbind (validated_rules lib current_guards) (\<lambda>current_guard.
            let permission_planes = inherited_planes sa_permission_planes inherited @ [plane];
                guard_planes = inherited_planes sa_guard_planes inherited @ (if current_guard = [] then [] else [current_guard])
            in if length permission_planes > MAX_AUTHORITY_PLANES \<or> length guard_planes > MAX_AUTHORITY_PLANES
               then Inl (SubagentAuthorityError ''nesting exceeds plane bounds'')
               else rbind (narrowed_tools lib tools (case inherited of None \<Rightarrow> None | Some a \<Rightarrow> sa_composition a)
                      (case inherited of None \<Rightarrow> JInt LEGACY_AUTHORITY_SNAPSHOT_VERSION | Some a \<Rightarrow> sa_snapshot_version a))
                      (\<lambda>(tools', composition, version).
                        Inr \<lparr>sa_tool_ids = tools', sa_permission_planes = permission_planes,
                             sa_guard_planes = guard_planes, sa_composition = composition,
                             sa_snapshot_version = version\<rparr>)))))"

definition with_subagent_composition :: "subagent_lib \<Rightarrow> authority \<Rightarrow> composition \<Rightarrow> authority_error + authority" where
  "with_subagent_composition lib a c =
     rbind (lift_composition (parse_subagent_composition lib (composition_to_json lib c))) (\<lambda>parsed.
       if sc_tool_allowlist parsed \<subseteq> sa_tool_ids a
       then Inr (a\<lparr>sa_tool_ids := sc_tool_allowlist parsed, sa_composition := Some parsed,
                   sa_snapshot_version := JInt AUTHORITY_SNAPSHOT_VERSION\<rparr>)
       else Inl (SubagentAuthorityError ''exceeds the current Agent tool authority''))"

definition plane_key :: "rule list \<Rightarrow> (string \<times> string \<times> action) list" where
  "plane_key plane = map (\<lambda>r. (permission r, rule_pattern r, rule_action r)) plane"

fun dedup_planes :: "rule list list \<Rightarrow> (string \<times> string \<times> action) list set \<Rightarrow> rule list list \<Rightarrow> rule list list" where
  "dedup_planes [] seen result = result"
| "dedup_planes (plane # planes) seen result =
     (if plane_key plane \<in> seen then dedup_planes planes seen result
      else dedup_planes planes (insert (plane_key plane) seen) (result @ [plane]))"

definition deduplicated_planes :: "rule list list list \<Rightarrow> authority_error + rule list list" where
  "deduplicated_planes collections =
     (let result = dedup_planes (concat collections) {} []
      in if length result > MAX_AUTHORITY_PLANES then Inl (SubagentAuthorityError ''too many rule planes'') else Inr result)"

definition intersect_subagent_authorities :: "subagent_lib \<Rightarrow> authority \<Rightarrow> authority \<Rightarrow> authority_error + authority" where
  "intersect_subagent_authorities lib existing delegator =
     rbind (narrowed_tools lib (sa_tool_ids existing \<inter> sa_tool_ids delegator) (sa_composition existing)
              (sa_snapshot_version existing)) (\<lambda>(tools, composition, version).
     rbind (deduplicated_planes [sa_permission_planes existing, sa_permission_planes delegator]) (\<lambda>permission_planes.
     rbind (deduplicated_planes [sa_guard_planes existing, sa_guard_planes delegator]) (\<lambda>guard_planes.
       Inr \<lparr>sa_tool_ids = tools, sa_permission_planes = permission_planes, sa_guard_planes = guard_planes,
            sa_composition = composition, sa_snapshot_version = version\<rparr>)))"

definition restrict_tools :: "(string, 'tool) table \<Rightarrow> authority option \<Rightarrow> (string, 'tool) table" where
  "restrict_tools tools inherited = (case inherited of
       None \<Rightarrow> tools
     | Some a \<Rightarrow> filter (\<lambda>(tool_id, tool). tool_id \<in> sa_tool_ids a) tools)"

section \<open>Acceptance of a child\<close>

definition authority_for_spawn :: "subagent_lib \<Rightarrow> json \<Rightarrow> authority_error + json" where
  "authority_for_spawn lib raw = rbind (parse_subagent_authority lib raw) (\<lambda>a.
     if ''task'' \<notin> sa_tool_ids a then Inl (SubagentAuthorityError ''Task is outside the authority'')
     else authority_to_json lib a)"

record task_args =
  ta_model :: "string option"
  ta_reasoning :: "string option"
  ta_persona :: "string option"
  ta_tools :: "string list option"
  ta_output_schema :: json
  ta_fork :: bool

text \<open>The authority part of the \<^verbatim>\<open>spawn\<close> and \<^verbatim>\<open>fork\<close> actions of the Task tool, from the snapshot of the parent's step.\<close>

definition spawn_authority ::
  "subagent_lib \<Rightarrow> deployment \<Rightarrow> agent_def \<Rightarrow> string option \<Rightarrow> task_args \<Rightarrow> json \<Rightarrow> authority_error + json" where
  "spawn_authority lib d agent parent_model args snapshot =
     rbind (authority_for_spawn lib snapshot) (\<lambda>raw.
     rbind (parse_subagent_authority lib raw) (\<lambda>parent.
     rbind (lift_composition (build_subagent_composition lib d agent (sa_tool_ids parent) parent_model (ta_model args)
              (ta_reasoning args) (ta_persona args) (ta_tools args) (ta_output_schema args)
              (if ta_fork args then ''fork'' else ''fresh''))) (\<lambda>composition.
     rbind (with_subagent_composition lib parent composition) (\<lambda>a. authority_to_json lib a))))"

text \<open>\<^verbatim>\<open>accept_spawn\<close> re-reads the snapshot it is given, checks it against the request and stores it rewritten.\<close>

definition accept_authority ::
  "subagent_lib \<Rightarrow> deployment \<Rightarrow> json \<Rightarrow> string \<Rightarrow> string \<Rightarrow> bool \<Rightarrow> authority_error + json" where
  "accept_authority lib d authority_snapshot subagent_type child_model forked =
     rbind (parse_subagent_authority lib authority_snapshot) (\<lambda>a.
     rbind (authority_to_json lib a) (\<lambda>canonical_authority.
       case sa_composition a of
         Some c \<Rightarrow>
           rbind (lift_composition (validate_composition_availability lib c d)) (\<lambda>_.
             if fp_name (sc_agent_preset c) \<noteq> subagent_type then Inl (SubagentFenceError ''preset does not match'')
             else if sc_model c \<noteq> child_model then Inl (SubagentFenceError ''model does not match'')
             else if forked \<noteq> (sc_seed_mode c = ''fork'') then Inl (SubagentFenceError ''fork seed does not match'')
             else Inr canonical_authority)
       | None \<Rightarrow> if forked then Inl (SubagentFenceError ''legacy fork'') else Inr canonical_authority))"

text \<open>
  \<^verbatim>\<open>accept_follow_up\<close>: from the snapshot of the descriptor, the delegator's snapshot and the request to the authority
  the descriptor is updated with.
\<close>

definition wants_composition :: "task_args \<Rightarrow> bool" where
  "wants_composition args \<longleftrightarrow> ta_model args \<noteq> None \<or> ta_reasoning args \<noteq> None \<or> ta_persona args \<noteq> None \<or>
     ta_tools args \<noteq> None \<or> ta_output_schema args \<noteq> JNull"

definition follow_up_authority ::
  "subagent_lib \<Rightarrow> deployment \<Rightarrow> json \<Rightarrow> json \<Rightarrow> task_args \<Rightarrow> authority_error + authority" where
  "follow_up_authority lib d descriptor_snapshot authority_snapshot args =
     rbind (parse_subagent_authority lib authority_snapshot) (\<lambda>delegator.
     rbind (parse_subagent_authority lib descriptor_snapshot) (\<lambda>existing.
     rbind (intersect_subagent_authorities lib existing delegator) (\<lambda>narrowed.
       case sa_composition existing of
         None \<Rightarrow> if wants_composition args then Inl (SubagentFenceError ''legacy subagent'') else Inr narrowed
       | Some c \<Rightarrow>
           rbind (lift_composition (validate_composition_availability lib c d)) (\<lambda>_.
           rbind (lift_composition (narrow_follow_up_composition lib c (sa_tool_ids narrowed) (ta_model args)
                    (ta_reasoning args) (ta_persona args) (ta_tools args) (ta_output_schema args))) (\<lambda>c'.
             Inr (narrowed\<lparr>sa_tool_ids := sc_tool_allowlist c', sa_composition := Some c',
                            sa_snapshot_version := JInt AUTHORITY_SNAPSHOT_VERSION\<rparr>))))))"

section \<open>Loading at the start of a child's run\<close>

record child_session =
  cs_id :: ident
  cs_parent_id :: ident
  cs_kind :: string
  cs_user_id :: ident
  cs_project_id :: ident

record descriptor =
  de_child_session_id :: ident
  de_user_id :: ident
  de_project_id :: ident
  de_parent_session_id :: ident
  de_authority_snapshot :: json

text \<open>
  The result is what the run is bound by, together with the Agent the context variable
  \<^verbatim>\<open>_bound_frozen_agent\<close> holds afterwards. An absent or empty \<^verbatim>\<open>kind\<close> counts as \<^verbatim>\<open>normal\<close>; a child session has one descriptor
  (a unique constraint).
\<close>

definition load_subagent_authority ::
  "subagent_lib \<Rightarrow> deployment \<Rightarrow> descriptor list \<Rightarrow> child_session \<Rightarrow> (authority_error + authority option) \<times> agent_def option" where
  "load_subagent_authority lib d descriptors s =
     (if cs_parent_id s = [] then (Inr None, None)
      else if cs_kind s = ''cron'' then (Inr None, None)
      else case find (\<lambda>r. de_child_session_id r = cs_id s \<and> de_user_id r = cs_user_id s \<and> de_project_id r = cs_project_id s) descriptors of
        None \<Rightarrow> (Inl (SubagentAuthorityError ''no descriptor''), None)
      | Some r \<Rightarrow>
          if de_parent_session_id r \<noteq> cs_parent_id s then (Inl (SubagentAuthorityError ''lineage does not match''), None)
          else case parse_subagent_authority lib (de_authority_snapshot r) of
            Inl e \<Rightarrow> (Inl e, None)
          | Inr a \<Rightarrow> (case sa_composition a of
                None \<Rightarrow> (Inr (Some a), None)
              | Some c \<Rightarrow> (case wrapped_composition (validate_composition_availability lib c d) of
                    Inl e \<Rightarrow> (Inl e, None)
                  | Inr u \<Rightarrow> (Inr (Some a), Some (frozen_agent c)))))"

definition current_frozen_subagent_agent :: "agent_def option \<Rightarrow> string \<Rightarrow> agent_def option" where
  "current_frozen_subagent_agent bound name = (case bound of
       None \<Rightarrow> None
     | Some agent \<Rightarrow> if ad_name agent \<noteq> name then None else Some agent)"

end
