(* ===== verification/Subagent_Rows.thy ===== *)
theory Subagent_Rows
  imports Subagent_Authority Driver_Lease
begin

text \<open>
  The rows of the durable subagent protocol (\<^verbatim>\<open>src/backend/db/models/subagent.py\<close>), the parts of the transcript
  it reads and writes, and the first half of \<^verbatim>\<open>src/backend/agent/subagent_runtime.py\<close>: the fence on the exact
  parent tool invocation and the two operations that bring work for a child into existence.

  A descriptor row extends the slice of it that the loader of \<open>Subagent_Authority\<close> reads. The payload of an
  outbox is \<^verbatim>\<open>NULL\<close> or an object with the single key \<^verbatim>\<open>projected\<close>, so it is a \<open>projection option\<close>. The tables of
  other components (the Agent event log, the question runtime, the trajectory recorder) are the abstract
  component \<open>rother\<close>; what these components do inside the transactions is the record \<open>runtime_ops\<close>.
  Notifications sent after a commit are not modelled.
\<close>

section \<open>Rows\<close>

datatype lifecycle = OneShot | Continuable
datatype descriptor_state = DsActive | DsSettled | DsInterrupted | DsError
datatype activation_kind = SpawnKind | FollowUpKind
datatype activation_state = AvAccepted | AvClaimed | AvBound | AvCompleted | AvAbandoned
datatype outbox_state = ObWaiting | ObReady | ObDelivered
datatype run_outcome = Waiting | OutSucceeded | OutInterrupted | OutUnknown | OutError

record descriptor_row = descriptor +
  de_root_session_id :: ident
  de_parent_descriptor_id :: "ident option"
  de_depth :: int
  de_subagent_type :: string
  de_lifecycle :: lifecycle
  de_state :: descriptor_state
  de_generation :: int
  de_active_activation_id :: "ident option"
  de_interrupt_requested :: "int option"
  de_interrupt_applied :: "int option"
  de_created_at :: time
  de_updated_at :: time
  de_settled_at :: "time option"

record activation_row =
  av_descriptor_id :: ident
  av_user_id :: ident
  av_project_id :: ident
  av_parent_session_id :: ident
  av_parent_message_id :: ident
  av_parent_part_id :: ident
  av_parent_run_id :: ident
  av_parent_generation :: int
  av_descriptor_generation :: int
  av_kind :: activation_kind
  av_child_session_id :: ident
  av_child_trigger_message_id :: ident
  av_child_run_id :: "ident option"
  av_child_generation :: "int option"
  av_state :: activation_state
  av_claim_token :: "string option"
  av_claim_owner :: "ident option"
  av_claim_expires_at :: "time option"
  av_task_title :: string
  av_created_at :: time
  av_updated_at :: time
  av_completed_at :: "time option"

record projection =
  pj_title :: string
  pj_output :: string
  pj_metadata :: "(string \<times> json) list"

record outbox_row =
  ob_descriptor_id :: ident
  ob_user_id :: ident
  ob_project_id :: ident
  ob_parent_session_id :: ident
  ob_parent_message_id :: ident
  ob_parent_part_id :: ident
  ob_state :: outbox_state
  ob_outcome :: run_outcome
  ob_result :: "projection option"
  ob_created_at :: time
  ob_updated_at :: time
  ob_ready_at :: "time option"
  ob_delivered_at :: "time option"

record tmsg_row =
  ms_session :: ident
  ms_user :: ident
  ms_role :: string
  ms_parent :: "ident option"
  ms_finish :: "string option"
  ms_error :: "json option"
  ms_structured :: json
  ms_agent :: string
  ms_model :: "string option"
  ms_variant :: "string option"
  ms_format :: json
  ms_created :: time

record part_row =
  pt_message :: ident
  pt_session :: ident
  pt_user :: ident
  pt_type :: string
  pt_canonical_tool_id :: "string option"
  pt_data :: "(string \<times> json) list"
  pt_created :: time

record project_row =
  pr_workspace_id :: ident
  pr_is_deleted :: bool

text \<open>The database of the protocol. The nullable column \<^verbatim>\<open>parent_id\<close> of a session is the table \<open>rparents\<close>.\<close>

record ('a, 'o) rt =
  rbase :: "'a db"
  rparents :: "(ident, ident) table"
  rprojects :: "(ident, project_row) table"
  rmessages :: "(ident, tmsg_row) table"
  rparts :: "(ident, part_row) table"
  descriptors :: "(ident, descriptor_row) table"
  activations :: "(ident, activation_row) table"
  outboxes :: "(ident, outbox_row) table"
  rother :: 'o

text \<open>\<open>Raised\<close> carries the exceptions of \<open>Subagent_Authority\<close>, among them \<^verbatim>\<open>SubagentFenceError\<close>.\<close>

datatype rt_error =
    Raised authority_error
  | SubagentBusyError string
  | SubagentLookupError string
  | SubagentValueError string
  | PyTypeError
  | PyKeyError
  | RtIntegrityError
  | RtDriverError driver_error
  | RtHookError string

abbreviation fence_error :: "string \<Rightarrow> rt_error + 'r" where
  "fence_error m \<equiv> Inl (Raised (SubagentFenceError m))"

definition lift_authority :: "authority_error + 'r \<Rightarrow> rt_error + 'r" where
  "lift_authority r = (case r of Inl e \<Rightarrow> Inl (Raised e) | Inr x \<Rightarrow> Inr x)"

record fork_seed =
  fs_session_id :: ident
  fs_frozen :: json

text \<open>
  What the transactions call in other components: the truncation of tool output, Python's \<^verbatim>\<open>str\<close> on a value that
  is not a string, the file list of a patch part, the seed of the Agent surface and the event of a
  changed part, everything a new user message does outside its own two rows, the rows copied into a
  forked child with the instant after them, and the trajectory records of a spawned and of a finished child.
\<close>

record 'o runtime_ops =
  truncate_output :: "string \<Rightarrow> string \<times> bool"
  py_str :: "json \<Rightarrow> string"
  literal_files :: "json \<Rightarrow> json"
  surface_seed :: "'o \<Rightarrow> ident \<Rightarrow> rt_error + 'o"
  part_event :: "'o \<Rightarrow> ident \<Rightarrow> ident \<Rightarrow> part_row \<Rightarrow> ident \<Rightarrow> ident \<times> int \<Rightarrow> rt_error + 'o"
  user_message_hook :: "'o \<Rightarrow> ident \<Rightarrow> ident \<Rightarrow> ident \<Rightarrow> ident \<Rightarrow> rt_error + 'o"
  clone_prefix :: "'o \<Rightarrow> ident \<Rightarrow> ident \<Rightarrow> fork_seed \<Rightarrow> time \<Rightarrow>
    rt_error + (ident \<times> tmsg_row) list \<times> (ident \<times> part_row) list \<times> 'o \<times> time"
  spawn_trace :: "'o \<Rightarrow> ident \<Rightarrow> ident \<Rightarrow> ident \<Rightarrow> rt_error + 'o"
  finish_trace :: "'o \<Rightarrow> ident \<Rightarrow> activation_row \<Rightarrow> run_outcome \<Rightarrow> string \<Rightarrow> rt_error + 'o"

text \<open>The clocks of a call (database, process wall clock, monotonic), its fresh identifiers and its worker.\<close>

record renv =
  rt_db_now :: time
  rt_now :: time
  rt_monotonic :: time
  new_session_id :: ident
  new_descriptor_id :: ident
  new_activation_id :: ident
  new_message_id :: ident
  new_part_id :: ident
  new_token :: string
  rt_worker :: ident

definition SUBAGENT_CLAIM_SECONDS :: int where "SUBAGENT_CLAIM_SECONDS = 30"
definition MAX_SUBAGENT_DEPTH :: int where "MAX_SUBAGENT_DEPTH = 3"
definition MAX_PROMPT_CHARS :: nat where "MAX_PROMPT_CHARS = 65536"
definition MAX_LIST_RESULTS :: nat where "MAX_LIST_RESULTS = 50"

definition outcome_text :: "run_outcome \<Rightarrow> string" where
  "outcome_text oc = (case oc of Waiting \<Rightarrow> ''waiting'' | OutSucceeded \<Rightarrow> ''succeeded'' | OutInterrupted \<Rightarrow> ''interrupted''
     | OutUnknown \<Rightarrow> ''outcome_unknown'' | OutError \<Rightarrow> ''error'')"

section \<open>Dictionaries and parts\<close>

text \<open>\<^verbatim>\<open>dict.update\<close>; and \<^verbatim>\<open>dict(value or {})\<close>, where a value other than an object that is true raises.\<close>

definition dict_update :: "(string \<times> json) list \<Rightarrow> (string \<times> json) list \<Rightarrow> (string \<times> json) list" where
  "dict_update kvs new = foldl (\<lambda>d (k, v). tput k v d) kvs new"

definition falsy :: "json \<Rightarrow> bool" where
  "falsy v = (case v of
       JNull \<Rightarrow> True
     | JBool b \<Rightarrow> \<not> b
     | JInt n \<Rightarrow> n = 0
     | JFloat x \<Rightarrow> x = ''0.0'' \<or> x = ''-0.0''
     | JStr s \<Rightarrow> s = []
     | JList vs \<Rightarrow> vs = []
     | JDict kvs \<Rightarrow> kvs = [])"

definition dict_or_empty :: "json \<Rightarrow> rt_error + (string \<times> json) list" where
  "dict_or_empty v = (case v of JDict kvs \<Rightarrow> Inr kvs | _ \<Rightarrow> if falsy v then Inr [] else Inl PyTypeError)"

text \<open>\<^verbatim>\<open>value in {...}\<close> for a set of strings: a list or an object cannot be hashed.\<close>

definition string_in :: "json \<Rightarrow> string list \<Rightarrow> rt_error + bool" where
  "string_in v names = (if \<not> hashable v then Inl PyTypeError
     else case v of JStr s \<Rightarrow> Inr (s \<in> set names) | _ \<Rightarrow> Inr False)"

definition PRIVATE_TOOL_PART_FIELDS :: "string list" where
  "PRIVATE_TOOL_PART_FIELDS = [''canonical_tool_id'', ''wire_tool_name'', ''provider_binding_digest'',
     ''provider_dialect'', ''stream_seq'']"

definition public_part_data :: "'o runtime_ops \<Rightarrow> (string \<times> json) list \<Rightarrow> (string \<times> json) list" where
  "public_part_data ops data =
     (let public = filter (\<lambda>(k, v). k \<notin> set PRIVATE_TOOL_PART_FIELDS) data
      in if dget public ''type'' = JStr ''patch'' \<and> dget public ''path_encoding'' \<noteq> JStr ''literal''
         then dict_update public [(''files'', literal_files ops (case tget public ''files'' of None \<Rightarrow> JList [] | Some v \<Rightarrow> v)),
                (''path_encoding'', JStr ''literal'')]
         else public)"

text \<open>\<^verbatim>\<open>str(data.get("tool") or "").lower() == "task"\<close>: only a string can read so.\<close>

definition is_task_part :: "part_row \<Rightarrow> bool" where
  "is_task_part p = (case pt_canonical_tool_id p of
       Some tool \<Rightarrow> tool = ''task''
     | None \<Rightarrow> (case dget (pt_data p) ''tool'' of JStr tool \<Rightarrow> casefold tool = ''task'' | _ \<Rightarrow> False))"

text \<open>An \<^verbatim>\<open>INSERT\<close> under a primary key, and the first row of a \<^verbatim>\<open>SELECT\<close> that matches at most one.\<close>

definition insert_row :: "'k \<Rightarrow> 'r \<Rightarrow> ('k, 'r) table \<Rightarrow> rt_error + ('k, 'r) table" where
  "insert_row k r t = (if tget t k = None then Inr (tput k r t) else Inl RtIntegrityError)"

fun insert_rows :: "('k \<times> 'r) list \<Rightarrow> ('k, 'r) table \<Rightarrow> rt_error + ('k, 'r) table" where
  "insert_rows [] t = Inr t"
| "insert_rows ((k, r) # rows) t = rbind (insert_row k r t) (insert_rows rows)"

definition find_row :: "('r \<Rightarrow> bool) \<Rightarrow> ('k, 'r) table \<Rightarrow> ('k \<times> 'r) option" where
  "find_row P t = find (\<lambda>(k, r). P r) t"

text \<open>\<^verbatim>\<open>ORDER BY created_at, id\<close>, and the last row in this order.\<close>

definition by_creation :: "('r \<Rightarrow> time) \<Rightarrow> (ident \<times> 'r) list \<Rightarrow> (ident \<times> 'r) list" where
  "by_creation created rows = sort_key (created \<circ> snd) (sort_key fst rows)"

definition newest :: "('r \<Rightarrow> time) \<Rightarrow> ('r \<Rightarrow> bool) \<Rightarrow> (ident, 'r) table \<Rightarrow> (ident \<times> 'r) option" where
  "newest created P t = (case rev (by_creation created (filter (P \<circ> snd) t)) of [] \<Rightarrow> None | x # _ \<Rightarrow> Some x)"

section \<open>The parent tool invocation\<close>

record parent_call =
  pc_user :: ident
  pc_session :: ident
  pc_message :: ident
  pc_part :: ident
  pc_run :: ident
  pc_generation :: int

definition exact_tool_part :: "('a, 'o) rt \<Rightarrow> ident \<Rightarrow> ident \<Rightarrow> ident \<Rightarrow> ident \<Rightarrow> part_row option" where
  "exact_tool_part s part message session user = (case tget (rparts s) part of
       None \<Rightarrow> None
     | Some p \<Rightarrow> if pt_message p = message \<and> pt_session p = session \<and> pt_user p = user \<and> pt_type p = ''tool''
                 then Some p else None)"

definition live_project :: "('a, 'o) rt \<Rightarrow> session_row \<Rightarrow> ident option" where
  "live_project s parent = (case s_project_id parent of
       None \<Rightarrow> None
     | Some project \<Rightarrow> (case tget (rprojects s) project of
           None \<Rightarrow> None
         | Some p \<Rightarrow> if pr_workspace_id p = s_workspace_id parent \<and> \<not> pr_is_deleted p then Some project else None))"

definition owned_message :: "('a, 'o) rt \<Rightarrow> ident \<Rightarrow> ident \<Rightarrow> ident \<Rightarrow> tmsg_row option" where
  "owned_message s message session user = (case tget (rmessages s) message of
       None \<Rightarrow> None
     | Some m \<Rightarrow> if ms_session m = session \<and> ms_user m = user then Some m else None)"

text \<open>\<^verbatim>\<open>_locked_parent_tool\<close>, with the project it found beside the session and the part.\<close>

definition locked_parent_tool ::
  "time \<Rightarrow> ('p) parent_call_scheme \<Rightarrow> ('a, 'o) rt \<Rightarrow> rt_error + session_row \<times> ident \<times> part_row" where
  "locked_parent_tool t c s = (case open_session (rbase s) (pc_session c) (pc_user c) of
       None \<Rightarrow> fence_error ''parent Session is no longer live''
     | Some parent \<Rightarrow>
         if \<not> (case tget (drivers (rbase s)) (pc_session c) of
                 None \<Rightarrow> False | Some r \<Rightarrow> fence_row (pc_user c) (pc_run c) (pc_generation c) t r)
         then fence_error ''parent Task generation is no longer live''
         else case live_project s parent of
           None \<Rightarrow> fence_error ''parent project is missing''
         | Some project \<Rightarrow>
             (case (owned_message s (pc_message c) (pc_session c) (pc_user c),
                    exact_tool_part s (pc_part c) (pc_message c) (pc_session c) (pc_user c)) of
                (Some m, Some p) \<Rightarrow>
                  if ms_role m \<noteq> ''assistant'' \<or> \<not> is_task_part p then fence_error ''transcript identity mismatch''
                  else rbind (string_in (dget (pt_data p) ''status'') [''pending'', ''running'']) (\<lambda>open.
                    if open then Inr (parent, project, p) else fence_error ''parent Task part is already terminal'')
              | _ \<Rightarrow> fence_error ''transcript identity mismatch''))"

definition parent_lineage :: "('a, 'o) rt \<Rightarrow> ident \<Rightarrow> ident \<Rightarrow> ident \<Rightarrow> rt_error + ident \<times> ident option \<times> int" where
  "parent_lineage s session user project =
     (case find_row (\<lambda>d. de_child_session_id d = session \<and> de_user_id d = user \<and> de_project_id d = project) (descriptors s) of
        None \<Rightarrow> Inr (session, None, 1)
      | Some (did, d) \<Rightarrow>
          if de_depth d + 1 > MAX_SUBAGENT_DEPTH then fence_error ''subagent depth exceeds configured maximum''
          else Inr (de_root_session_id d, Some did, de_depth d + 1))"

definition activation_metadata :: "ident \<Rightarrow> ident \<Rightarrow> ident \<Rightarrow> string \<Rightarrow> int \<Rightarrow> (string \<times> json) list" where
  "activation_metadata did aid child subagent_type generation =
     [(''subagent_id'', JStr did), (''subagent_activation_id'', JStr aid), (''child_session_id'', JStr child),
      (''subagent_type'', JStr subagent_type), (''subagent_generation'', JInt generation),
      (''task_handoff_id'', JStr aid)]"

end
