(* ===== verification/Subagent_Acceptance.thy ===== *)
theory Subagent_Acceptance
  imports Subagent_Rows
begin

text \<open>
  \<^verbatim>\<open>accept_spawn\<close> and \<^verbatim>\<open>accept_follow_up\<close> of \<^verbatim>\<open>src/backend/agent/subagent_runtime.py\<close>, with the creation of a session and of
  a user message from \<^verbatim>\<open>src/backend/session/session.py\<close> that they call. Each is one transaction: it commits
  the child's trigger, the descriptor, the activation, the waiting outbox and the pointer in the parent's
  tool part together, or raises and leaves the database as it was.
\<close>

section \<open>Rows that are inserted\<close>

record activation_ref =
  rf_id :: ident
  rf_descriptor_id :: ident
  rf_user_id :: ident
  rf_project_id :: ident
  rf_parent_session_id :: ident
  rf_parent_part_id :: ident
  rf_child_session_id :: ident
  rf_child_trigger_message_id :: ident
  rf_descriptor_generation :: int
  rf_created :: bool

definition ref_of :: "ident \<Rightarrow> activation_row \<Rightarrow> bool \<Rightarrow> activation_ref" where
  "ref_of aid a created = \<lparr>rf_id = aid, rf_descriptor_id = av_descriptor_id a, rf_user_id = av_user_id a,
     rf_project_id = av_project_id a, rf_parent_session_id = av_parent_session_id a,
     rf_parent_part_id = av_parent_part_id a, rf_child_session_id = av_child_session_id a,
     rf_child_trigger_message_id = av_child_trigger_message_id a,
     rf_descriptor_generation = av_descriptor_generation a, rf_created = created\<rparr>"

text \<open>The tables' primary keys and unique constraints.\<close>

definition insert_descriptor :: "ident \<Rightarrow> descriptor_row \<Rightarrow> ('a, 'o) rt \<Rightarrow> rt_error + ('a, 'o) rt" where
  "insert_descriptor did d s =
     (if find_row (\<lambda>r. de_child_session_id r = de_child_session_id d) (descriptors s) \<noteq> None then Inl RtIntegrityError
      else rbind (insert_row did d (descriptors s)) (\<lambda>t. Inr (s\<lparr>descriptors := t\<rparr>)))"

definition clashes :: "activation_row \<Rightarrow> activation_row \<Rightarrow> bool" where
  "clashes a r \<longleftrightarrow> av_parent_part_id r = av_parent_part_id a \<or>
     av_descriptor_id r = av_descriptor_id a \<and> av_descriptor_generation r = av_descriptor_generation a \<or>
     av_child_trigger_message_id r = av_child_trigger_message_id a"

definition insert_activation :: "ident \<Rightarrow> activation_row \<Rightarrow> ('a, 'o) rt \<Rightarrow> rt_error + ('a, 'o) rt" where
  "insert_activation aid a s =
     (if find_row (clashes a) (activations s) \<noteq> None then Inl RtIntegrityError
      else rbind (insert_row aid a (activations s)) (\<lambda>t. Inr (s\<lparr>activations := t\<rparr>)))"

definition insert_outbox :: "ident \<Rightarrow> outbox_row \<Rightarrow> ('a, 'o) rt \<Rightarrow> rt_error + ('a, 'o) rt" where
  "insert_outbox aid b s = rbind (insert_row aid b (outboxes s)) (\<lambda>t. Inr (s\<lparr>outboxes := t\<rparr>))"

definition new_session_row :: "ident \<Rightarrow> ident \<Rightarrow> ident \<Rightarrow> time \<Rightarrow> session_row" where
  "new_session_row user project workspace t = \<lparr>s_user_id = user, s_is_deleted = False, s_status = ''idle'',
     s_kind = ''normal'', s_project_id = Some project, s_workspace_id = workspace, s_updated_at = t\<rparr>"

definition insert_session :: "ident \<Rightarrow> session_row \<Rightarrow> ident \<Rightarrow> ('a, 'o) rt \<Rightarrow> rt_error + ('a, 'o) rt" where
  "insert_session sid row parent s =
     rbind (insert_row sid row (sessions (rbase s))) (\<lambda>t.
       Inr (s\<lparr>rbase := (rbase s)\<lparr>sessions := t\<rparr>, rparents := tput sid parent (rparents s)\<rparr>))"

definition text_part_data :: "ident \<Rightarrow> ident \<Rightarrow> ident \<Rightarrow> string \<Rightarrow> (string \<times> json) list" where
  "text_part_data part message session text =
     [(''type'', JStr ''text''), (''id'', JStr part), (''text'', JStr text), (''channel'', JNull),
      (''session_id'', JStr session), (''message_id'', JStr message), (''synthetic'', JBool False),
      (''ignored'', JBool False), (''origin'', JStr ''unknown''), (''origin_ref'', JDict [])]"

text \<open>
  \<^verbatim>\<open>_insert_user_message_locked\<close> as it is called here: with the session row, without a run fence, a client
  identifier or further parts.
\<close>

definition insert_user_message ::
  "'o runtime_ops \<Rightarrow> renv \<Rightarrow> ident \<Rightarrow> session_row \<Rightarrow> ident \<Rightarrow> string \<Rightarrow> string \<Rightarrow> composition option \<Rightarrow> time \<Rightarrow>
     ('a, 'o) rt \<Rightarrow> rt_error + ('a, 'o) rt" where
  "insert_user_message ops e sid row user text agent composition t s =
     (if s_user_id row \<noteq> user then Inl (SubagentValueError ''user message Session owner mismatch'')
      else if s_kind row = ''assistant'' \<and> agent \<noteq> ''assistant'' then Inl (SubagentValueError ''profile is immutable'')
      else if s_kind row \<noteq> ''assistant'' \<and> agent = ''assistant'' then Inl (SubagentValueError ''assistant is reserved'')
      else rbind (insert_row (new_message_id e)
             \<lparr>ms_session = sid, ms_user = user, ms_role = ''user'', ms_parent = None, ms_finish = None, ms_error = None,
              ms_structured = JNull, ms_agent = agent,
              ms_model = map_option sc_model composition,
              ms_variant = (case composition of None \<Rightarrow> None | Some c \<Rightarrow> sc_reasoning c),
              ms_format = (case composition of None \<Rightarrow> JNull | Some c \<Rightarrow> sc_output_schema c), ms_created = t\<rparr>
             (rmessages s)) (\<lambda>messages.
           rbind (insert_row (new_part_id e)
             \<lparr>pt_message = new_message_id e, pt_session = sid, pt_user = user, pt_type = ''text'', pt_canonical_tool_id = None,
              pt_data = text_part_data (new_part_id e) (new_message_id e) sid text, pt_created = t\<rparr> (rparts s)) (\<lambda>parts.
           rbind (user_message_hook ops (rother s) sid user (new_message_id e) (new_part_id e)) (\<lambda>o'.
             Inr (s\<lparr>rmessages := messages, rparts := parts, rother := o'\<rparr>)))))"

definition waiting_outbox :: "activation_row \<Rightarrow> time \<Rightarrow> outbox_row" where
  "waiting_outbox a t = \<lparr>ob_descriptor_id = av_descriptor_id a, ob_user_id = av_user_id a, ob_project_id = av_project_id a,
     ob_parent_session_id = av_parent_session_id a, ob_parent_message_id = av_parent_message_id a,
     ob_parent_part_id = av_parent_part_id a, ob_state = ObWaiting, ob_outcome = Waiting, ob_result = None,
     ob_created_at = t, ob_updated_at = t, ob_ready_at = None, ob_delivered_at = None\<rparr>"

definition accepted_activation ::
  "'p parent_call_scheme \<Rightarrow> ident \<Rightarrow> ident \<Rightarrow> int \<Rightarrow> activation_kind \<Rightarrow> ident \<Rightarrow> ident \<Rightarrow> string \<Rightarrow> time \<Rightarrow> activation_row" where
  "accepted_activation c did project generation kind child trigger title t =
     \<lparr>av_descriptor_id = did, av_user_id = pc_user c, av_project_id = project, av_parent_session_id = pc_session c,
      av_parent_message_id = pc_message c, av_parent_part_id = pc_part c, av_parent_run_id = pc_run c,
      av_parent_generation = pc_generation c, av_descriptor_generation = generation, av_kind = kind,
      av_child_session_id = child, av_child_trigger_message_id = trigger, av_child_run_id = None,
      av_child_generation = None, av_state = AvAccepted, av_claim_token = None, av_claim_owner = None,
      av_claim_expires_at = None, av_task_title = title, av_created_at = t, av_updated_at = t,
      av_completed_at = None\<rparr>"

text \<open>The pointer to the activation in the parent's tool part, with its event.\<close>

definition pointed_part :: "'o runtime_ops \<Rightarrow> part_row \<Rightarrow> (string \<times> json) list \<Rightarrow> rt_error + part_row" where
  "pointed_part ops p meta = rbind (dict_or_empty (dget (pt_data p) ''metadata'')) (\<lambda>metadata.
     Inr (p\<lparr>pt_data := public_part_data ops (tput ''metadata'' (JDict (dict_update metadata meta)) (pt_data p))\<rparr>))"

definition write_pointer ::
  "'o runtime_ops \<Rightarrow> 'p parent_call_scheme \<Rightarrow> part_row \<Rightarrow> (string \<times> json) list \<Rightarrow> ('a, 'o) rt \<Rightarrow> rt_error + ('a, 'o) rt" where
  "write_pointer ops c p meta s =
     rbind (pointed_part ops p meta) (\<lambda>p'.
     rbind (surface_seed ops (rother s) (pc_session c)) (\<lambda>o1.
     rbind (part_event ops o1 (pc_session c) (pc_part c) p' (pc_message c) (pc_run c, pc_generation c)) (\<lambda>o2.
       Inr (s\<lparr>rparts := tput (pc_part c) p' (rparts s), rother := o2\<rparr>))))"

section \<open>Spawn and fork\<close>

record spawn_call = parent_call +
  sp_title :: string
  sp_prompt :: string
  sp_type :: string
  sp_model :: string
  sp_lifecycle :: string
  sp_authority :: json
  sp_fork :: "fork_seed option"

definition lifecycle_of :: "string \<Rightarrow> lifecycle option" where
  "lifecycle_of text = (if text = ''one_shot'' then Some OneShot else if text = ''continuable'' then Some Continuable else None)"

definition prompt_fits :: "string \<Rightarrow> bool" where
  "prompt_fits prompt \<longleftrightarrow> prompt \<noteq> [] \<and> length prompt \<le> MAX_PROMPT_CHARS"

definition snapshot_composition :: "subagent_lib \<Rightarrow> json \<Rightarrow> composition option" where
  "snapshot_composition lib raw = (case parse_subagent_authority lib raw of Inl _ \<Rightarrow> None | Inr a \<Rightarrow> sa_composition a)"

text \<open>A repeated call for the same tool part: the first activation, unless the call differs.\<close>

definition replay_spawn ::
  "subagent_lib \<Rightarrow> 'p parent_call_scheme \<Rightarrow> json \<Rightarrow> ident \<Rightarrow> activation_row \<Rightarrow> ('a, 'o) rt \<Rightarrow> rt_error + activation_ref \<times> ('a, 'o) rt" where
  "replay_spawn lib c canonical_authority aid a s =
     (if av_user_id a \<noteq> pc_user c \<or> av_parent_session_id a \<noteq> pc_session c \<or> av_parent_message_id a \<noteq> pc_message c \<or>
         av_parent_run_id a \<noteq> pc_run c \<or> av_parent_generation a \<noteq> pc_generation c \<or> av_kind a \<noteq> SpawnKind
      then fence_error ''Task acceptance idempotency collision''
      else case tget (descriptors s) (av_descriptor_id a) of
        None \<Rightarrow> fence_error ''Task authority idempotency collision''
      | Some d \<Rightarrow>
          rbind (lift_authority (rbind (parse_subagent_authority lib (de_authority_snapshot d)) (authority_to_json lib))) (\<lambda>stored.
            if \<not> py_equal stored canonical_authority then fence_error ''Task authority idempotency collision''
            else Inr (ref_of aid a False, s)))"

text \<open>The stable prefix of the parent's transcript, for a fork.\<close>

definition copy_fork ::
  "'o runtime_ops \<Rightarrow> renv \<Rightarrow> spawn_call \<Rightarrow> ('a, 'o) rt \<Rightarrow> rt_error + time \<times> ('a, 'o) rt" where
  "copy_fork ops e c s = (case sp_fork c of
       None \<Rightarrow> Inr (rt_now e, s)
     | Some seed \<Rightarrow>
         if fs_session_id seed \<noteq> pc_session c then fence_error ''Task fork seed targets another parent''
         else rbind (clone_prefix ops (rother s) (pc_session c) (new_session_id e) seed (rt_now e)) (\<lambda>(ms, ps, o', t).
           rbind (insert_rows ms (rmessages s)) (\<lambda>messages.
           rbind (insert_rows ps (rparts s)) (\<lambda>parts.
             Inr (t, s\<lparr>rmessages := messages, rparts := parts, rother := o'\<rparr>)))))"

definition new_descriptor ::
  "renv \<Rightarrow> spawn_call \<Rightarrow> ident \<Rightarrow> ident \<times> ident option \<times> int \<Rightarrow> lifecycle \<Rightarrow> json \<Rightarrow> descriptor_row" where
  "new_descriptor e c project lineage life authority =
     \<lparr>de_child_session_id = new_session_id e, de_user_id = pc_user c, de_project_id = project,
      de_parent_session_id = pc_session c, de_authority_snapshot = authority,
      de_root_session_id = fst lineage, de_parent_descriptor_id = fst (snd lineage), de_depth = snd (snd lineage),
      de_subagent_type = sp_type c, de_lifecycle = life, de_state = DsActive, de_generation = 1,
      de_active_activation_id = Some (new_activation_id e), de_interrupt_requested = None, de_interrupt_applied = None,
      de_created_at = rt_now e, de_updated_at = rt_now e, de_settled_at = None\<rparr>"

definition insert_spawn ::
  "'o runtime_ops \<Rightarrow> renv \<Rightarrow> spawn_call \<Rightarrow> ident \<Rightarrow> descriptor_row \<Rightarrow> ('a, 'o) rt \<Rightarrow> rt_error + activation_row \<times> ('a, 'o) rt" where
  "insert_spawn ops e c project d s =
     (let a = accepted_activation c (new_descriptor_id e) project 1 SpawnKind (new_session_id e) (new_message_id e)
                (take 255 (sp_title c)) (rt_now e)
      in rbind (insert_descriptor (new_descriptor_id e) d s) (\<lambda>s1.
         rbind (insert_activation (new_activation_id e) a s1) (\<lambda>s2.
         rbind (insert_outbox (new_activation_id e) (waiting_outbox a (rt_now e)) s2) (\<lambda>s3. Inr (a, s3)))))"

text \<open>A first call: the child session, its trigger, the three rows of the protocol and the pointer.\<close>

definition spawn_new ::
  "'o runtime_ops \<Rightarrow> subagent_lib \<Rightarrow> renv \<Rightarrow> spawn_call \<Rightarrow> lifecycle \<Rightarrow> json \<Rightarrow> session_row \<Rightarrow> ident \<Rightarrow> part_row \<Rightarrow> ('a, 'o) rt \<Rightarrow>
     rt_error + activation_ref \<times> ('a, 'o) rt" where
  "spawn_new ops lib e c life authority parent project part s =
     rbind (parent_lineage s (pc_session c) (pc_user c) project) (\<lambda>lineage.
     let child = new_session_row (pc_user c) project (s_workspace_id parent) (rt_now e);
         d = new_descriptor e c project lineage life authority
     in rbind (insert_session (new_session_id e) child (pc_session c) s) (\<lambda>s1.
        rbind (copy_fork ops e c s1) (\<lambda>(t, s2).
        rbind (insert_user_message ops e (new_session_id e) child (pc_user c) (sp_prompt c) (sp_type c)
                 (snapshot_composition lib (sp_authority c)) t s2) (\<lambda>s3.
        rbind (spawn_trace ops (rother s3) (pc_session c) (new_session_id e) (new_activation_id e)) (\<lambda>o'.
        rbind (insert_spawn ops e c project d (s3\<lparr>rother := o'\<rparr>)) (\<lambda>(a, s4).
        rbind (write_pointer ops c part (activation_metadata (new_descriptor_id e) (new_activation_id e)
                 (new_session_id e) (sp_type c) 1) s4) (\<lambda>s5.
          Inr (ref_of (new_activation_id e) a True, s5))))))))"

definition accept_spawn ::
  "'o runtime_ops \<Rightarrow> subagent_lib \<Rightarrow> deployment \<Rightarrow> renv \<Rightarrow> spawn_call \<Rightarrow> ('a, 'o) rt \<Rightarrow> rt_error + activation_ref \<times> ('a, 'o) rt" where
  "accept_spawn ops lib cfg e c s = (case lifecycle_of (sp_lifecycle c) of
       None \<Rightarrow> Inl (SubagentValueError ''invalid subagent lifecycle'')
     | Some life \<Rightarrow>
         if \<not> prompt_fits (sp_prompt c) then Inl (SubagentValueError ''subagent prompt'')
         else if pc_run c = [] \<or> pc_generation c \<le> 0 then fence_error ''Task acceptance requires a parent run fence''
         else
           rbind (lift_authority (accept_authority lib cfg (sp_authority c) (sp_type c) (sp_model c) (sp_fork c \<noteq> None))) (\<lambda>authority.
           rbind (locked_parent_tool (rt_db_now e) c s) (\<lambda>(parent, project, part).
             case find_row (\<lambda>a. av_parent_part_id a = pc_part c) (activations s) of
               Some (aid, a) \<Rightarrow> replay_spawn lib c authority aid a s
             | None \<Rightarrow> spawn_new ops lib e c life authority parent project part s)))"

section \<open>Follow-up\<close>

record follow_up_call = parent_call +
  fu_descriptor_id :: ident
  fu_title :: string
  fu_prompt :: string
  fu_authority :: json
  fu_args :: task_args

definition replay_follow_up ::
  "follow_up_call \<Rightarrow> ident \<Rightarrow> activation_row \<Rightarrow> ('a, 'o) rt \<Rightarrow> rt_error + activation_ref \<times> ('a, 'o) rt" where
  "replay_follow_up c aid a s =
     (if av_descriptor_id a \<noteq> fu_descriptor_id c \<or> av_user_id a \<noteq> pc_user c \<or> av_parent_session_id a \<noteq> pc_session c \<or>
         av_parent_run_id a \<noteq> pc_run c \<or> av_parent_generation a \<noteq> pc_generation c \<or> av_kind a \<noteq> FollowUpKind
      then fence_error ''follow-up idempotency collision''
      else Inr (ref_of aid a False, s))"

definition live_child :: "('a, 'o) rt \<Rightarrow> ident \<Rightarrow> ident \<Rightarrow> ident \<Rightarrow> ident \<Rightarrow> session_row option" where
  "live_child s child user project parent = (case open_session (rbase s) child user of
       None \<Rightarrow> None
     | Some row \<Rightarrow> if s_project_id row = Some project \<and> tget (rparents s) child = Some parent then Some row else None)"

text \<open>The last activation of a child whose session ended in an error, if its outbox is terminal.\<close>

definition settled_previous :: "('a, 'o) rt \<Rightarrow> ident \<Rightarrow> descriptor_row \<Rightarrow> activation_row option" where
  "settled_previous s did d =
     map_option snd (find (\<lambda>(aid, a). av_descriptor_id a = did \<and> av_descriptor_generation a = de_generation d \<and>
         av_child_session_id a = de_child_session_id d \<and> av_state a = AvCompleted \<and>
         (case tget (outboxes s) aid of
            None \<Rightarrow> False
          | Some b \<Rightarrow> ob_state b \<in> {ObReady, ObDelivered} \<and> ob_outcome b \<noteq> Waiting)) (activations s))"

definition error_is_settled :: "('a, 'o) rt \<Rightarrow> ident \<Rightarrow> descriptor_row \<Rightarrow> ident \<Rightarrow> bool" where
  "error_is_settled s did d user =
     (case (settled_previous s did d, tget (drivers (rbase s)) (de_child_session_id d)) of
        (Some previous, Some r) \<Rightarrow>
          d_user_id r = user \<and> d_phase r = Idle \<and> d_run_id r = None \<and> d_owner_id r = None \<and> d_lease_expires_at r = None \<and>
          map_option fst (newest ms_created (\<lambda>m. ms_session m = de_child_session_id d \<and> ms_user m = user \<and> ms_role m = ''user'')
             (rmessages s)) = Some (av_child_trigger_message_id previous)
      | _ \<Rightarrow> False)"

text \<open>The child must be idle; an error that is already visible in the outbox is acknowledged and reset.\<close>

definition idle_child :: "time \<Rightarrow> ('a, 'o) rt \<Rightarrow> ident \<Rightarrow> descriptor_row \<Rightarrow> session_row \<Rightarrow> ident \<Rightarrow> rt_error + ('a, 'o) rt" where
  "idle_child t s did d child user =
     (if s_status child = ''error''
      then if error_is_settled s did d user
           then Inr (s\<lparr>rbase := set_status (de_child_session_id d) child ''idle'' t (rbase s)\<rparr>)
           else Inl (SubagentBusyError ''subagent child error is not settled'')
      else if s_status child \<noteq> ''idle'' then Inl (SubagentBusyError ''subagent child is not idle'')
      else Inr s)"

definition follow_up_title :: "follow_up_call \<Rightarrow> ident \<Rightarrow> string" where
  "follow_up_title c did = take 255 (if fu_title c = [] then ''Follow up '' @ did else fu_title c)"

definition insert_follow_up ::
  "renv \<Rightarrow> follow_up_call \<Rightarrow> descriptor_row \<Rightarrow> json \<Rightarrow> ('a, 'o) rt \<Rightarrow> rt_error + activation_row \<times> ('a, 'o) rt" where
  "insert_follow_up e c d authority s =
     (let did = fu_descriptor_id c;
          a = accepted_activation c did (de_project_id d) (de_generation d + 1) FollowUpKind (de_child_session_id d)
                (new_message_id e) (follow_up_title c did) (rt_now e);
          d' = d\<lparr>de_generation := de_generation d + 1, de_authority_snapshot := authority,
                 de_active_activation_id := Some (new_activation_id e), de_updated_at := rt_now e,
                 de_interrupt_requested := None, de_interrupt_applied := None\<rparr>
      in rbind (insert_activation (new_activation_id e) a s) (\<lambda>s1.
         rbind (insert_outbox (new_activation_id e) (waiting_outbox a (rt_now e)) s1) (\<lambda>s2.
           Inr (a, s2\<lparr>descriptors := tput did d' (descriptors s2)\<rparr>))))"

definition follow_up_new ::
  "'o runtime_ops \<Rightarrow> subagent_lib \<Rightarrow> renv \<Rightarrow> follow_up_call \<Rightarrow> descriptor_row \<Rightarrow> authority \<Rightarrow> ident \<Rightarrow> part_row \<Rightarrow> ('a, 'o) rt \<Rightarrow>
     rt_error + activation_ref \<times> ('a, 'o) rt" where
  "follow_up_new ops lib e c d narrowed project part s =
     (case live_child s (de_child_session_id d) (pc_user c) project (pc_session c) of
        None \<Rightarrow> Inl (SubagentBusyError ''subagent child is not idle'')
      | Some child \<Rightarrow>
          rbind (idle_child (rt_now e) s (fu_descriptor_id c) d child (pc_user c)) (\<lambda>s1.
          rbind (insert_user_message ops e (de_child_session_id d) child (pc_user c) (fu_prompt c) (de_subagent_type d)
                   (sa_composition narrowed) (rt_now e) s1) (\<lambda>s2.
          rbind (lift_authority (authority_to_json lib narrowed)) (\<lambda>authority.
          rbind (insert_follow_up e c d authority s2) (\<lambda>(a, s3).
          rbind (write_pointer ops c part (activation_metadata (fu_descriptor_id c) (new_activation_id e)
                   (de_child_session_id d) (de_subagent_type d) (de_generation d + 1)) s3) (\<lambda>s4.
            Inr (ref_of (new_activation_id e) a True, s4)))))))"

definition accept_follow_up ::
  "'o runtime_ops \<Rightarrow> subagent_lib \<Rightarrow> deployment \<Rightarrow> renv \<Rightarrow> follow_up_call \<Rightarrow> ('a, 'o) rt \<Rightarrow> rt_error + activation_ref \<times> ('a, 'o) rt" where
  "accept_follow_up ops lib cfg e c s =
     (if \<not> prompt_fits (fu_prompt c) then Inl (SubagentValueError ''subagent prompt'')
      else
        rbind (lift_authority (parse_subagent_authority lib (fu_authority c))) (\<lambda>_.
        rbind (locked_parent_tool (rt_db_now e) c s) (\<lambda>(parent, project, part).
          case find_row (\<lambda>a. av_parent_part_id a = pc_part c) (activations s) of
            Some (aid, a) \<Rightarrow> replay_follow_up c aid a s
          | None \<Rightarrow> (case tget (descriptors s) (fu_descriptor_id c) of
              None \<Rightarrow> Inl (SubagentLookupError ''subagent not found'')
            | Some d \<Rightarrow>
                if de_user_id d \<noteq> pc_user c \<or> de_project_id d \<noteq> project \<or> de_parent_session_id d \<noteq> pc_session c
                then fence_error ''subagent direct lineage or project mismatch''
                else if de_lifecycle d \<noteq> Continuable \<or> de_state d \<noteq> DsActive
                then fence_error ''subagent is not continuable and active''
                else
                  rbind (lift_authority (follow_up_authority lib cfg (de_authority_snapshot d) (fu_authority c) (fu_args c))) (\<lambda>narrowed.
                  if de_active_activation_id d \<noteq> None then Inl (SubagentBusyError ''subagent already has an active activation'')
                  else follow_up_new ops lib e c d narrowed project part s)))))"

end
