(* ===== verification/Subagent_Runtime.thy ===== *)
theory Subagent_Runtime
  imports Subagent_Acceptance
begin

text \<open>
  The life of an accepted activation in \<^verbatim>\<open>src/backend/agent/subagent_runtime.py\<close>: the short claim that lets one
  dispatcher reserve the child, the bind of the claim to the exact generation of the child's driver,
  completion into the outbox, and interrupts. Each operation is one transaction, with \<open>Inl\<close> the exception
  that rolled it back, unless it returns the state it left beside its result.
\<close>

section \<open>Results\<close>

record raw_result =
  rr_title :: string
  rr_output :: string
  rr_metadata :: "(string \<times> json) list"

definition task_output :: "ident \<Rightarrow> ident \<Rightarrow> string \<Rightarrow> string" where
  "task_output did child body = join nl [''task_id: '' @ did, ''child_session_id: '' @ child, [], ''<task_result>'', body, ''</task_result>'']"

definition outbox_metadata :: "ident \<Rightarrow> descriptor_row \<Rightarrow> ident \<Rightarrow> activation_row \<Rightarrow> run_outcome \<Rightarrow> (string \<times> json) list" where
  "outbox_metadata did d aid a oc =
     [(''subagent_id'', JStr did), (''subagent_activation_id'', JStr aid), (''child_session_id'', JStr (de_child_session_id d)),
      (''subagent_type'', JStr (de_subagent_type d)), (''subagent_generation'', JInt (av_descriptor_generation a)),
      (''subagent_outcome'', JStr (outcome_text oc)), (''subagent_outbox_completed'', JBool True),
      (''task_handoff_id'', JStr aid), (''task_outbox_completed'', JBool True)]"

definition error_result ::
  "ident \<Rightarrow> descriptor_row \<Rightarrow> ident \<Rightarrow> activation_row \<Rightarrow> run_outcome \<Rightarrow> string \<Rightarrow> string \<Rightarrow> raw_result" where
  "error_result did d aid a oc message code =
     \<lparr>rr_title = av_task_title a, rr_output = task_output did (de_child_session_id d) message,
      rr_metadata = outbox_metadata did d aid a oc @
        [(''error'', JBool True), (''recovery_code'', JStr code), (''truncated'', JBool False)]\<rparr>"

definition projected_strings :: "string list" where
  "projected_strings = [''subagent_id'', ''subagent_activation_id'', ''child_session_id'', ''subagent_type'',
     ''subagent_outcome'', ''recovery_code'', ''task_handoff_id'']"

definition projected_flags :: "string list" where
  "projected_flags = [''subagent_outbox_completed'', ''task_outbox_completed'', ''error'']"

definition keep_strings :: "(string \<times> json) list \<Rightarrow> (string \<times> json) list" where
  "keep_strings raw = concat (map (\<lambda>k. case dget raw k of JStr v \<Rightarrow> [(k, JStr (take 256 v))] | _ \<Rightarrow> []) projected_strings)"

definition keep_generation :: "(string \<times> json) list \<Rightarrow> (string \<times> json) list" where
  "keep_generation raw = (case dget raw ''subagent_generation'' of JInt n \<Rightarrow> [(''subagent_generation'', JInt n)] | _ \<Rightarrow> [])"

definition keep_flags :: "(string \<times> json) list \<Rightarrow> (string \<times> json) list" where
  "keep_flags raw = concat (map (\<lambda>k. case dget raw k of JBool b \<Rightarrow> [(k, JBool b)] | _ \<Rightarrow> []) projected_flags)"

text \<open>A structured result is kept in the canonical form it has after its round trip through bytes.\<close>

definition keep_structured :: "(string \<times> json) list \<Rightarrow> (string \<times> json) list" where
  "keep_structured raw = (case dget raw ''structured_result'' of
       JDict kvs \<Rightarrow> if length (json_dumps (JDict kvs)) \<le> MAX_STRUCTURED_RESULT_BYTES
         then [(''structured_result'', canonical (JDict kvs))] else []
     | _ \<Rightarrow> [])"

definition project_result :: "'o runtime_ops \<Rightarrow> raw_result \<Rightarrow> projection" where
  "project_result ops raw = (let (content, truncated) = truncate_output ops (rr_output raw)
     in \<lparr>pj_title = take 255 (rr_title raw), pj_output = content,
         pj_metadata = keep_strings (rr_metadata raw) @ keep_generation (rr_metadata raw) @ keep_flags (rr_metadata raw) @
           keep_structured (rr_metadata raw) @ [(''truncated'', JBool truncated)]\<rparr>)"

definition settled_state :: "run_outcome \<Rightarrow> descriptor_state" where
  "settled_state oc = (case oc of OutSucceeded \<Rightarrow> DsSettled | OutInterrupted \<Rightarrow> DsInterrupted | _ \<Rightarrow> DsError)"

section \<open>Completion\<close>

definition released_descriptor :: "ident \<Rightarrow> activation_row \<Rightarrow> run_outcome \<Rightarrow> time \<Rightarrow> descriptor_row \<Rightarrow> descriptor_row" where
  "released_descriptor aid a oc t d =
     (if de_active_activation_id d = Some aid \<and> de_generation d = av_descriptor_generation a
      then if de_lifecycle d = OneShot
           then d\<lparr>de_active_activation_id := None, de_state := settled_state oc, de_settled_at := Some t, de_updated_at := t\<rparr>
           else d\<lparr>de_active_activation_id := None, de_updated_at := t\<rparr>
      else d)"

definition complete_locked ::
  "'o runtime_ops \<Rightarrow> ident \<Rightarrow> activation_row \<Rightarrow> descriptor_row \<Rightarrow> run_outcome \<Rightarrow> raw_result \<Rightarrow> time \<Rightarrow>
     ('a, 'o) rt \<Rightarrow> rt_error + projection \<times> ('a, 'o) rt" where
  "complete_locked ops aid a d oc raw t s =
     (if oc = Waiting then Inl (SubagentValueError ''invalid terminal subagent outcome'')
      else case tget (outboxes s) aid of
        None \<Rightarrow> fence_error ''subagent outbox disappeared''
      | Some b \<Rightarrow>
          if ob_state b \<in> {ObReady, ObDelivered}
          then (case ob_result b of
                  Some p \<Rightarrow> if ob_outcome b \<noteq> oc then fence_error ''terminal subagent outcome changed'' else Inr (p, s)
                | None \<Rightarrow> fence_error ''terminal subagent outcome changed'')
          else
            let p = project_result ops raw
            in rbind (finish_trace ops (rother s) aid a oc (pj_output p)) (\<lambda>o'.
                 Inr (p, s\<lparr>outboxes := tput aid (b\<lparr>ob_state := ObReady, ob_outcome := oc, ob_result := Some p,
                                                    ob_ready_at := Some t, ob_updated_at := t\<rparr>) (outboxes s),
                           activations := tput aid (a\<lparr>av_state := AvCompleted, av_completed_at := Some t,
                                                      av_claim_expires_at := None, av_updated_at := t\<rparr>) (activations s),
                           descriptors := tput (av_descriptor_id a) (released_descriptor aid a oc t d) (descriptors s),
                           rother := o'\<rparr>)))"

text \<open>
  The completion with an interrupt that three operations write before the child has started, which also marks the
  interrupt as applied.
\<close>

definition mark_applied :: "ident \<Rightarrow> int \<Rightarrow> ('a, 'o) rt \<Rightarrow> ('a, 'o) rt" where
  "mark_applied did g s = (case tget (descriptors s) did of
       None \<Rightarrow> s
     | Some d \<Rightarrow> s\<lparr>descriptors := tput did (d\<lparr>de_interrupt_applied := Some g\<rparr>) (descriptors s)\<rparr>)"

definition complete_interrupted ::
  "'o runtime_ops \<Rightarrow> ident \<Rightarrow> activation_row \<Rightarrow> descriptor_row \<Rightarrow> string \<Rightarrow> string \<Rightarrow> time \<Rightarrow> ('a, 'o) rt \<Rightarrow> rt_error + ('a, 'o) rt" where
  "complete_interrupted ops aid a d message code t s =
     rbind (complete_locked ops aid a d OutInterrupted
              (error_result (av_descriptor_id a) d aid a OutInterrupted message code) t s) (\<lambda>(p, s').
       Inr (mark_applied (av_descriptor_id a) (av_descriptor_generation a) s'))"

section \<open>Claims\<close>

record activation_claim =
  cl_activation_id :: ident
  cl_descriptor_id :: ident
  cl_descriptor_generation :: int
  cl_user_id :: ident
  cl_child_session_id :: ident
  cl_child_trigger_message_id :: ident
  cl_token :: string
  cl_owner :: ident
  cl_local_deadline :: time

definition claimable :: "time \<Rightarrow> activation_row \<Rightarrow> bool" where
  "claimable t a \<longleftrightarrow> av_state a = AvAccepted \<or> av_state a = AvClaimed \<and> not_after (av_claim_expires_at a) t"

definition descriptor_matches :: "ident \<Rightarrow> activation_row \<Rightarrow> descriptor_row \<Rightarrow> bool" where
  "descriptor_matches aid a d \<longleftrightarrow> de_user_id d = av_user_id a \<and> de_project_id d = av_project_id a \<and>
     de_child_session_id d = av_child_session_id a \<and> de_parent_session_id d = av_parent_session_id a \<and>
     de_active_activation_id d = Some aid \<and> de_generation d = av_descriptor_generation a \<and> de_state d = DsActive"

definition interrupted_now :: "activation_row \<Rightarrow> descriptor_row \<Rightarrow> bool" where
  "interrupted_now a d \<longleftrightarrow> de_interrupt_requested d = Some (av_descriptor_generation a)"

definition claim_of :: "renv \<Rightarrow> ident \<Rightarrow> ident \<Rightarrow> activation_row \<Rightarrow> activation_claim" where
  "claim_of e owner aid a = \<lparr>cl_activation_id = aid, cl_descriptor_id = av_descriptor_id a,
     cl_descriptor_generation = av_descriptor_generation a, cl_user_id = av_user_id a,
     cl_child_session_id = av_child_session_id a, cl_child_trigger_message_id = av_child_trigger_message_id a,
     cl_token = new_token e, cl_owner = owner, cl_local_deadline = rt_monotonic e + seconds SUBAGENT_CLAIM_SECONDS\<rparr>"

definition claim_activation ::
  "'o runtime_ops \<Rightarrow> renv \<Rightarrow> ident \<Rightarrow> ident option \<Rightarrow> ident option \<Rightarrow> ('a, 'o) rt \<Rightarrow> rt_error + activation_claim option \<times> ('a, 'o) rt" where
  "claim_activation ops e aid user owner s = (case tget (activations s) aid of
       None \<Rightarrow> Inr (None, s)
     | Some a \<Rightarrow>
         if (case user of None \<Rightarrow> False | Some u \<Rightarrow> u \<noteq> [] \<and> av_user_id a \<noteq> u) then Inr (None, s)
         else case tget (descriptors s) (av_descriptor_id a) of
           None \<Rightarrow> Inr (None, s)
         | Some d \<Rightarrow>
             if \<not> claimable (rt_db_now e) a then Inr (None, s)
             else if \<not> descriptor_matches aid a d then fence_error ''activation descriptor identity mismatch''
             else if interrupted_now a d
             then rbind (complete_interrupted ops aid a d ''Subagent activation was interrupted before it started.''
                          ''subagent_interrupted_before_start'' (rt_db_now e) s) (\<lambda>s'. Inr (None, s'))
             else
               let actual_owner = (case owner of None \<Rightarrow> rt_worker e | Some w \<Rightarrow> if w = [] then rt_worker e else w);
                   a' = a\<lparr>av_state := AvClaimed, av_claim_token := Some (new_token e), av_claim_owner := Some actual_owner,
                          av_claim_expires_at := Some (rt_db_now e + seconds SUBAGENT_CLAIM_SECONDS),
                          av_updated_at := rt_db_now e\<rparr>
               in Inr (Some (claim_of e actual_owner aid a), s\<lparr>activations := tput aid a' (activations s)\<rparr>))"

definition exact_claim :: "activation_claim \<Rightarrow> time \<Rightarrow> activation_row \<Rightarrow> bool" where
  "exact_claim c t a \<longleftrightarrow> av_claim_token a = Some (cl_token c) \<and> av_claim_owner a = Some (cl_owner c) \<and>
     av_descriptor_generation a = cl_descriptor_generation c \<and> av_child_session_id a = cl_child_session_id c \<and>
     av_child_trigger_message_id a = cl_child_trigger_message_id c \<and> after_now (av_claim_expires_at a) t"

definition bind_claimed_activation ::
  "'o runtime_ops \<Rightarrow> renv \<Rightarrow> activation_claim \<Rightarrow> lease \<Rightarrow> ('a, 'o) rt \<Rightarrow> rt_error + bool \<times> ('a, 'o) rt" where
  "bind_claimed_activation ops e c l s =
     (if rt_monotonic e \<ge> cl_local_deadline c then Inr (False, s)
      else case tget (activations s) (cl_activation_id c) of
        None \<Rightarrow> Inr (False, s)
      | Some a \<Rightarrow>
          if av_user_id a \<noteq> cl_user_id c \<or> av_state a \<noteq> AvClaimed then Inr (False, s)
          else case tget (descriptors s) (av_descriptor_id a) of
            None \<Rightarrow> Inr (False, s)
          | Some d \<Rightarrow>
              if \<not> exact_claim c (rt_db_now e) a then Inr (False, s)
              else if interrupted_now a d
              then rbind (complete_interrupted ops (cl_activation_id c) a d ''Subagent activation was interrupted before wake.''
                           ''subagent_interrupted_before_wake'' (rt_now e) s) (\<lambda>s'. Inr (False, s'))
              else if \<not> (case tget (drivers (rbase s)) (cl_child_session_id c) of
                        None \<Rightarrow> False
                      | Some r \<Rightarrow> fence_row (cl_user_id c) (l_run_id l) (l_generation l) (rt_db_now e) r \<and>
                          d_owner_id r = Some (l_owner_id l) \<and> d_trigger_message_id r = Some (cl_child_trigger_message_id c))
              then fence_error ''child Driver no longer matches activation claim''
              else Inr (True, s\<lparr>activations := tput (cl_activation_id c)
                     (a\<lparr>av_child_run_id := Some (l_run_id l), av_child_generation := Some (l_generation l), av_state := AvBound,
                        av_claim_expires_at := None, av_updated_at := rt_now e\<rparr>) (activations s)\<rparr>))"

definition claim_is_dispatchable :: "renv \<Rightarrow> activation_claim \<Rightarrow> ('a, 'o) rt \<Rightarrow> bool" where
  "claim_is_dispatchable e c s \<longleftrightarrow> rt_monotonic e < cl_local_deadline c \<and>
     (case tget (activations s) (cl_activation_id c) of
        None \<Rightarrow> False
      | Some a \<Rightarrow> av_user_id a = cl_user_id c \<and> av_state a = AvClaimed \<and> av_claim_token a = Some (cl_token c) \<and>
          av_claim_owner a = Some (cl_owner c) \<and> after_now (av_claim_expires_at a) (rt_db_now e)) \<and>
     (case tget (descriptors s) (cl_descriptor_id c) of
        None \<Rightarrow> False
      | Some d \<Rightarrow> de_user_id d = cl_user_id c \<and> de_active_activation_id d = Some (cl_activation_id c) \<and>
          de_generation d = cl_descriptor_generation c \<and> de_state d = DsActive \<and>
          de_interrupt_requested d \<noteq> Some (cl_descriptor_generation c))"

definition abandon_claim :: "renv \<Rightarrow> activation_claim \<Rightarrow> ('a, 'o) rt \<Rightarrow> bool \<times> ('a, 'o) rt" where
  "abandon_claim e c s = (case tget (activations s) (cl_activation_id c) of
       None \<Rightarrow> (False, s)
     | Some a \<Rightarrow>
         if av_state a \<noteq> AvClaimed \<or> av_claim_token a \<noteq> Some (cl_token c) \<or> av_claim_owner a \<noteq> Some (cl_owner c)
         then (False, s)
         else (True, s\<lparr>activations := tput (cl_activation_id c)
                 (a\<lparr>av_state := AvAccepted, av_claim_token := None, av_claim_owner := None, av_claim_expires_at := None,
                    av_updated_at := rt_now e\<rparr>) (activations s)\<rparr>))"

definition claimable_activation_ids :: "time \<Rightarrow> ('a, 'o) rt \<Rightarrow> ident list" where
  "claimable_activation_ids t s = map fst (by_creation av_created_at (filter (claimable t \<circ> snd) (activations s)))"

end
