(* ===== verification/Subagent_Completion.thy ===== *)
theory Subagent_Completion
  imports Subagent_Runtime
begin

text \<open>
  The rest of \<^verbatim>\<open>src/backend/agent/subagent_runtime.py\<close>: rebinding after a takeover of the child's driver,
  completion from the child's transcript, interrupts, the recovery scan, reports, and the delivery of
  terminal outboxes into the parent's tool parts.
\<close>

section \<open>Recovered children\<close>

datatype recovered_binding = AbsentBinding | BoundBinding ident | TerminalBinding ident

definition triggered_by :: "ident \<Rightarrow> ident \<Rightarrow> ident option \<Rightarrow> activation_row \<Rightarrow> bool" where
  "triggered_by session user trigger a \<longleftrightarrow> av_child_session_id a = session \<and> av_user_id a = user \<and>
     trigger = Some (av_child_trigger_message_id a)"

definition bind_recovered_activation ::
  "renv \<Rightarrow> lease \<Rightarrow> recovered_driver \<Rightarrow> ('a, 'o) rt \<Rightarrow> rt_error + recovered_binding \<times> ('a, 'o) rt" where
  "bind_recovered_activation e l rec s =
     (case find_row (triggered_by (l_session_id l) (l_user_id l) (rec_trigger_message_id rec)) (activations s) of
        None \<Rightarrow> Inr (AbsentBinding, s)
      | Some (aid, a) \<Rightarrow> (case tget (descriptors s) (av_descriptor_id a) of
          None \<Rightarrow> fence_error ''recovered activation descriptor disappeared''
        | Some d \<Rightarrow>
            if rec_phase rec \<noteq> Reserved \<or> rec_run_id rec = None \<or> rec_run_id rec = Some [] \<or>
               rec_session_id rec \<noteq> av_child_session_id a \<or> rec_user_id rec \<noteq> av_user_id a \<or>
               rec_trigger_message_id rec \<noteq> Some (av_child_trigger_message_id a) \<or> l_generation l \<le> rec_generation rec
            then fence_error ''recovered activation marker mismatch''
            else if \<not> (case tget (drivers (rbase s)) (l_session_id l) of
                      None \<Rightarrow> False
                    | Some r \<Rightarrow> owned_row l (rt_db_now e) r \<and> d_phase r = Reserved \<and>
                        d_trigger_message_id r = rec_trigger_message_id rec)
            then fence_error ''recovered activation takeover lease mismatch''
            else if av_state a \<in> {AvCompleted, AvAbandoned} then Inr (TerminalBinding aid, s)
            else if de_active_activation_id d \<noteq> Some aid \<or> de_generation d \<noteq> av_descriptor_generation a \<or> de_state d \<noteq> DsActive
            then fence_error ''recovered activation descriptor mismatch''
            else if interrupted_now a d then fence_error ''recovered activation is interrupted''
            else if av_child_generation a \<noteq> None \<and>
                    (av_child_generation a \<noteq> Some (rec_generation rec) \<or> av_child_run_id a \<noteq> rec_run_id rec)
            then fence_error ''recovered activation old bind mismatch''
            else Inr (BoundBinding aid, s\<lparr>activations := tput aid
                   (a\<lparr>av_child_run_id := Some (l_run_id l), av_child_generation := Some (l_generation l), av_state := AvBound,
                      av_claim_token := Some (new_token e), av_claim_owner := Some (l_owner_id l),
                      av_claim_expires_at := None, av_updated_at := rt_now e\<rparr>) (activations s)\<rparr>)))"

definition unfinished :: "activation_row \<Rightarrow> bool" where
  "unfinished a \<longleftrightarrow> av_state a \<in> {AvAccepted, AvClaimed, AvBound}"

definition activation_interrupt_pending ::
  "'o runtime_ops \<Rightarrow> renv \<Rightarrow> recovered_driver \<Rightarrow> ('a, 'o) rt \<Rightarrow> rt_error + bool \<times> ('a, 'o) rt" where
  "activation_interrupt_pending ops e rec s =
     (case find_row (\<lambda>a. triggered_by (rec_session_id rec) (rec_user_id rec) (rec_trigger_message_id rec) a \<and> unfinished a)
             (activations s) of
        None \<Rightarrow> Inr (False, s)
      | Some (aid, a) \<Rightarrow> (case tget (descriptors s) (av_descriptor_id a) of
          None \<Rightarrow> Inr (False, s)
        | Some d \<Rightarrow>
            if \<not> interrupted_now a d then Inr (False, s)
            else if rec_phase rec = Reserved
            then rbind (complete_interrupted ops aid a d ''Subagent activation was interrupted before provider execution.''
                         ''subagent_interrupted_reserved'' (rt_now e) s) (\<lambda>s'. Inr (True, s'))
            else Inr (True, s)))"

definition activation_blocks_reserved_replay :: "recovered_driver \<Rightarrow> ('a, 'o) rt \<Rightarrow> bool" where
  "activation_blocks_reserved_replay rec s =
     (if rec_trigger_message_id rec = None \<or> rec_trigger_message_id rec = Some [] then False
      else case find_row (triggered_by (rec_session_id rec) (rec_user_id rec) (rec_trigger_message_id rec)) (activations s) of
        None \<Rightarrow> False
      | Some (aid, a) \<Rightarrow> av_state a \<in> {AvCompleted, AvAbandoned})"

section \<open>Completion of a bound activation\<close>

definition child_of :: "('a, 'o) rt \<Rightarrow> activation_row \<Rightarrow> session_row option" where
  "child_of s a = live_child s (av_child_session_id a) (av_user_id a) (av_project_id a) (av_parent_session_id a)"

definition complete_activation ::
  "'o runtime_ops \<Rightarrow> renv \<Rightarrow> ident \<Rightarrow> ident \<Rightarrow> int \<Rightarrow> run_outcome \<Rightarrow> raw_result \<Rightarrow> ('a, 'o) rt \<Rightarrow>
     rt_error + projection \<times> ('a, 'o) rt" where
  "complete_activation ops e aid run g oc raw s = (case tget (activations s) aid of
       None \<Rightarrow> fence_error ''subagent activation not found''
     | Some a \<Rightarrow> (case tget (descriptors s) (av_descriptor_id a) of
         None \<Rightarrow> fence_error ''subagent descriptor not found''
       | Some d \<Rightarrow>
           if av_child_run_id a \<noteq> Some run \<or> av_child_generation a \<noteq> Some g
           then fence_error ''stale child result rejected by activation fence''
           else if av_state a = AvCompleted
           then (case tget (outboxes s) aid of
                   None \<Rightarrow> fence_error ''completed activation outbox mismatch''
                 | Some b \<Rightarrow> (case ob_result b of
                     Some p \<Rightarrow> if ob_outcome b \<noteq> oc then fence_error ''completed activation outbox mismatch'' else Inr (p, s)
                   | None \<Rightarrow> fence_error ''completed activation outbox mismatch''))
           else if av_state a \<noteq> AvBound then fence_error ''cannot complete activation''
           else if child_of s a = None \<or>
             \<not> (case tget (drivers (rbase s)) (av_child_session_id a) of
                  None \<Rightarrow> False
                | Some r \<Rightarrow> d_user_id r = av_user_id a \<and> d_generation r = g \<and> (d_run_id r = None \<or> d_run_id r = Some run))
           then fence_error ''child completion identity mismatch''
           else complete_locked ops aid a d oc raw (rt_now e) s))"

definition text_of :: "'o runtime_ops \<Rightarrow> json \<Rightarrow> string" where
  "text_of ops v = (case v of JStr x \<Rightarrow> x | _ \<Rightarrow> py_str ops v)"

definition answer_text :: "'o runtime_ops \<Rightarrow> ('a, 'o) rt \<Rightarrow> activation_row \<Rightarrow> ident \<Rightarrow> string" where
  "answer_text ops s a message =
     (case find (\<lambda>(pid, p). \<not> falsy (dget (pt_data p) ''text''))
             (rev (by_creation pt_created (filter (\<lambda>(pid, p). pt_message p = message \<and> pt_session p = av_child_session_id a \<and>
                pt_user p = av_user_id a \<and> pt_type p = ''text'') (rparts s)))) of
        None \<Rightarrow> []
      | Some (pid, p) \<Rightarrow> text_of ops (dget (pt_data p) ''text''))"

definition terminal_answer :: "('a, 'o) rt \<Rightarrow> activation_row \<Rightarrow> (ident \<times> tmsg_row) option" where
  "terminal_answer s a =
     (if map_option s_status (child_of s a) = Some ''idle''
      then newest ms_created (\<lambda>m. ms_session m = av_child_session_id a \<and> ms_user m = av_user_id a \<and> ms_role m = ''assistant'' \<and>
             ms_parent m = Some (av_child_trigger_message_id a) \<and> ms_finish m = Some ''stop'' \<and>
             (ms_error m = None \<or> ms_error m = Some JNull)) (rmessages s)
      else None)"

text \<open>\<^verbatim>\<open>json.dumps\<close> with sorted keys and two spaces of indentation.\<close>

fun json_pretty :: "nat \<Rightarrow> json \<Rightarrow> string" where
  "json_pretty n (JList vs) = (if vs = [] then ''[]''
     else ''['' @ nl @ join ('','' @ nl) (map (\<lambda>v. replicate (n + 2) (CHR '' '') @ json_pretty (n + 2) v) vs) @
       nl @ replicate n (CHR '' '') @ '']'')"
| "json_pretty n (JDict kvs) = (if kvs = [] then [CHR 0x7B, CHR 0x7D]
     else CHR 0x7B # nl @ join ('','' @ nl) (map (\<lambda>(k, t). replicate (n + 2) (CHR '' '') @ quoted k @ '': '' @ t)
       (sort_key fst (map (\<lambda>(k, v). (k, json_pretty (n + 2) v)) kvs))) @ nl @ replicate n (CHR '' '') @ [CHR 0x7D])"
| "json_pretty n v = json_dumps v"

text \<open>The verdict on a terminal answer: outcome, structured result and recovery code.\<close>

definition judge_answer ::
  "subagent_lib \<Rightarrow> descriptor_row \<Rightarrow> tmsg_row \<Rightarrow> string option \<Rightarrow> rt_error + run_outcome \<times> json option \<times> string option" where
  "judge_answer lib d m code = (case parse_subagent_authority lib (de_authority_snapshot d) of
       Inl (SubagentAuthorityError x) \<Rightarrow> fence_error x
     | Inl other \<Rightarrow> Inl (Raised other)
     | Inr authority \<Rightarrow> (case sa_composition authority of
           None \<Rightarrow> Inr (OutSucceeded, None, code)
         | Some c \<Rightarrow> (case sc_output_schema c of
               JDict schema \<Rightarrow> (case validate_structured_result lib schema (ms_structured m) of
                   Inr v \<Rightarrow> Inr (OutSucceeded, Some v, code)
                 | Inl (SubagentCompositionError x) \<Rightarrow> Inr (OutError, None, Some ''subagent_structured_result_invalid'')
                 | Inl other \<Rightarrow> Inl (Raised (CompositionFailed other)))
             | JNull \<Rightarrow> Inr (OutSucceeded, None, code)
             | _ \<Rightarrow> Inr (OutError, None, Some ''subagent_structured_result_invalid''))))"

definition outcome_message :: "run_outcome \<Rightarrow> string option" where
  "outcome_message oc = (case oc of
       OutInterrupted \<Rightarrow> Some ''Subagent activation was interrupted and produced no successful terminal answer.''
     | OutUnknown \<Rightarrow> Some (''Subagent execution was interrupted after provider or tool execution may have started. '' @
         ''Its external outcome is unknown and was not replayed.'')
     | OutError \<Rightarrow> Some ''Subagent did not produce a terminal successful answer. Partial output was not reported as success.''
     | _ \<Rightarrow> None)"

definition success_result :: "ident \<Rightarrow> descriptor_row \<Rightarrow> ident \<Rightarrow> activation_row \<Rightarrow> string \<Rightarrow> json option \<Rightarrow> raw_result" where
  "success_result did d aid a text structured =
     (let body = (case structured of None \<Rightarrow> text | Some v \<Rightarrow> json_pretty 0 v)
      in \<lparr>rr_title = av_task_title a,
          rr_output = (if body \<noteq> [] then task_output did (de_child_session_id d) body
            else ''task_id: '' @ did @ nl @ nl @ ''Task completed with no text output.''),
          rr_metadata = outbox_metadata did d aid a OutSucceeded @
            (case structured of None \<Rightarrow> [] | Some v \<Rightarrow> [(''structured_result'', v)])\<rparr>)"

definition result_from_transcript ::
  "'o runtime_ops \<Rightarrow> subagent_lib \<Rightarrow> ident \<Rightarrow> run_outcome option \<Rightarrow> string option \<Rightarrow> ('a, 'o) rt \<Rightarrow> rt_error + run_outcome \<times> raw_result" where
  "result_from_transcript ops lib aid forced code s = (case tget (activations s) aid of
       None \<Rightarrow> fence_error ''subagent activation not found''
     | Some a \<Rightarrow> (case tget (descriptors s) (av_descriptor_id a) of
         None \<Rightarrow> fence_error ''subagent descriptor not found''
       | Some d \<Rightarrow>
           rbind (case forced of
                    Some oc \<Rightarrow> Inr (oc, [], None, code)
                  | None \<Rightarrow> (case terminal_answer s a of
                      None \<Rightarrow> Inr (OutError, [], None, Some (case code of
                          Some x \<Rightarrow> if x = [] then ''subagent_no_terminal_result'' else x
                        | None \<Rightarrow> ''subagent_no_terminal_result''))
                    | Some (mid, m) \<Rightarrow> rbind (judge_answer lib d m code) (\<lambda>(oc, structured, code').
                        Inr (oc, answer_text ops s a mid, structured, code')))) (\<lambda>(oc, text, structured, code').
             if oc = OutSucceeded then Inr (oc, success_result (av_descriptor_id a) d aid a text structured)
             else case outcome_message oc of
               None \<Rightarrow> Inl PyKeyError
             | Some message \<Rightarrow> Inr (oc, error_result (av_descriptor_id a) d aid a oc message
                 (case code' of Some x \<Rightarrow> if x = [] then ''subagent_'' @ outcome_text oc else x
                  | None \<Rightarrow> ''subagent_'' @ outcome_text oc)))))"

definition complete_activation_from_transcript ::
  "'o runtime_ops \<Rightarrow> subagent_lib \<Rightarrow> renv \<Rightarrow> ident \<Rightarrow> ident \<Rightarrow> int \<Rightarrow> run_outcome option \<Rightarrow> string option \<Rightarrow>
     ('a, 'o) rt \<Rightarrow> rt_error + projection \<times> ('a, 'o) rt" where
  "complete_activation_from_transcript ops lib e aid run g forced code s =
     rbind (result_from_transcript ops lib aid forced code s) (\<lambda>(oc, raw). complete_activation ops e aid run g oc raw s)"

definition complete_activation_for_child ::
  "'o runtime_ops \<Rightarrow> subagent_lib \<Rightarrow> renv \<Rightarrow> ident \<Rightarrow> ident \<Rightarrow> int \<Rightarrow> ('a, 'o) rt \<Rightarrow> rt_error + ident option \<times> ('a, 'o) rt" where
  "complete_activation_for_child ops lib e child run g s =
     (case find_row (\<lambda>a. av_child_session_id a = child \<and> av_child_run_id a = Some run \<and> av_child_generation a = Some g \<and>
             av_state a = AvBound) (activations s) of
        None \<Rightarrow> Inr (None, s)
      | Some (aid, a) \<Rightarrow> rbind (complete_activation_from_transcript ops lib e aid run g None None s) (\<lambda>(p, s'). Inr (Some aid, s')))"

datatype disposition = Wait | Terminal | Replay | Uncertain

definition activation_completion_disposition :: "ident \<Rightarrow> ident \<Rightarrow> int \<Rightarrow> ('a, 'o) rt \<Rightarrow> rt_error + disposition" where
  "activation_completion_disposition aid run g s = (case tget (activations s) aid of
       None \<Rightarrow> fence_error ''subagent activation not found''
     | Some a \<Rightarrow> Inr (
         if av_state a \<noteq> AvBound \<or> av_child_run_id a \<noteq> Some run \<or> av_child_generation a \<noteq> Some g then Wait
         else case tget (drivers (rbase s)) (av_child_session_id a) of
           None \<Rightarrow> Wait
         | Some r \<Rightarrow>
             if d_user_id r \<noteq> av_user_id a \<or> d_generation r \<noteq> g then Wait
             else if d_phase r = Idle \<and> d_run_id r = None then Terminal
             else if d_run_id r \<noteq> Some run then Wait
             else case d_phase r of Reserved \<Rightarrow> Replay | Running \<Rightarrow> Uncertain | Finalizing \<Rightarrow> Uncertain | Idle \<Rightarrow> Wait))"

end
