(* ===== verification/Subagent_Delivery.thy ===== *)
theory Subagent_Delivery
  imports Subagent_Completion
begin

text \<open>
  The last part of \<^verbatim>\<open>src/backend/agent/subagent_runtime.py\<close>: interrupts and their convergence, the recovery scan over
  children whose driver has expired or gone idle, status reports, and the delivery of terminal outboxes into
  the parent's tool parts. An operation of several transactions returns the state it left beside its result. A
  pointer that is read before the row is locked is an argument, so that it may be stale.
\<close>

section \<open>Interrupts\<close>

datatype interrupt_attempt = RetryAttempt | NoActivation descriptor_state int | Requested int "(ident \<times> ident \<times> int) option"

definition direct_parent :: "descriptor_row \<Rightarrow> ident \<Rightarrow> ident \<Rightarrow> ident \<Rightarrow> bool" where
  "direct_parent d user parent project \<longleftrightarrow> de_user_id d = user \<and> de_parent_session_id d = parent \<and> de_project_id d = project"

definition interrupt_txn ::
  "renv \<Rightarrow> ident \<Rightarrow> ident \<Rightarrow> ident \<Rightarrow> ident \<Rightarrow> ident option \<Rightarrow> ('a, 'o) rt \<Rightarrow> rt_error + interrupt_attempt \<times> ('a, 'o) rt" where
  "interrupt_txn e did user parent project pointer s = (case tget (descriptors s) did of
       None \<Rightarrow> Inl (SubagentLookupError ''subagent not found'')
     | Some d \<Rightarrow>
         if \<not> direct_parent d user parent project then fence_error ''subagent direct lineage or project mismatch''
         else if de_active_activation_id d \<noteq> pointer then Inr (RetryAttempt, s)
         else case pointer of
           None \<Rightarrow> Inr (NoActivation (de_state d) (de_generation d), s)
         | Some aid \<Rightarrow> (case tget (activations s) aid of
             None \<Rightarrow> fence_error ''interrupt activation identity mismatch''
           | Some a \<Rightarrow>
               if av_descriptor_id a \<noteq> did \<or> av_descriptor_generation a \<noteq> de_generation d
               then fence_error ''interrupt activation identity mismatch''
               else
                 let s' = s\<lparr>descriptors := tput did (d\<lparr>de_interrupt_requested := Some (de_generation d),
                              de_updated_at := rt_now e\<rparr>) (descriptors s)\<rparr>
                 in if av_state a = AvBound
                    then (case (av_child_run_id a, av_child_generation a) of
                            (Some run, Some g) \<Rightarrow> Inr (Requested (de_generation d) (Some (av_child_session_id a, run, g)), s')
                          | _ \<Rightarrow> fence_error ''bound activation has no exact child generation'')
                    else Inr (Requested (de_generation d) None, s')))"

definition mark_interrupt_applied :: "renv \<Rightarrow> ident \<Rightarrow> int \<Rightarrow> ('a, 'o) rt \<Rightarrow> ('a, 'o) rt" where
  "mark_interrupt_applied e did g s = (case tget (descriptors s) did of
       None \<Rightarrow> s
     | Some d \<Rightarrow> if de_interrupt_requested d = Some g
         then s\<lparr>descriptors := tput did (d\<lparr>de_interrupt_applied := Some g, de_updated_at := rt_now e\<rparr>) (descriptors s)\<rparr> else s)"

text \<open>The attempts of \<^verbatim>\<open>interrupt_subagent\<close>, each with the pointer it read.\<close>

fun interrupt_attempts ::
  "renv \<Rightarrow> ident \<Rightarrow> ident \<Rightarrow> ident \<Rightarrow> ident \<Rightarrow> ident option list \<Rightarrow> ('a, 'o) rt \<Rightarrow> rt_error + interrupt_attempt \<times> ('a, 'o) rt" where
  "interrupt_attempts e did user parent project [] s = Inl (SubagentBusyError ''subagent activation changed during interrupt'')"
| "interrupt_attempts e did user parent project (pointer # pointers) s =
     rbind (interrupt_txn e did user parent project pointer s) (\<lambda>(r, s').
       if r = RetryAttempt then interrupt_attempts e did user parent project pointers s' else Inr (r, s'))"

text \<open>The abort of the exact child generation, marked as applied when the driver took it.\<close>

definition abort_child ::
  "'a assistant_ops \<Rightarrow> env \<Rightarrow> renv \<Rightarrow> worker \<Rightarrow> ident \<Rightarrow> int \<Rightarrow> ident \<Rightarrow> ident \<Rightarrow> ident \<Rightarrow> int \<Rightarrow> ('a, 'o) rt \<Rightarrow>
     worker \<times> ('a, 'o) rt \<times> (rt_error + bool)" where
  "abort_child aops de e w did g child user run cg s =
     (let (w', db, r) = request_abort aops (rbase s) de w child user (Some run) (Some cg) False; s' = s\<lparr>rbase := db\<rparr>
      in case r of
           Inl err \<Rightarrow> (w', s', Inl (RtDriverError err))
         | Inr applied \<Rightarrow> (w', if applied then mark_interrupt_applied e did g s' else s', Inr applied))"

record interrupt_report =
  ir_task_id :: ident
  ir_state :: "descriptor_state option"
  ir_generation :: int
  ir_requested :: bool

text \<open>\<open>ir_state\<close> is \<^verbatim>\<open>interrupt_requested\<close> when it is \<open>None\<close>.\<close>

definition interrupt_subagent ::
  "'a assistant_ops \<Rightarrow> env \<Rightarrow> renv \<Rightarrow> worker \<Rightarrow> ident \<Rightarrow> ident \<Rightarrow> ident \<Rightarrow> ident \<Rightarrow> ident option list \<Rightarrow> ('a, 'o) rt \<Rightarrow>
     worker \<times> ('a, 'o) rt \<times> (rt_error + interrupt_report)" where
  "interrupt_subagent aops de e w did user parent project pointers s =
     (case interrupt_attempts e did user parent project (take 3 pointers) s of
        Inl err \<Rightarrow> (w, s, Inl err)
      | Inr (NoActivation st g, s') \<Rightarrow> (w, s', Inr \<lparr>ir_task_id = did, ir_state = Some st, ir_generation = g, ir_requested = False\<rparr>)
      | Inr (Requested g target, s') \<Rightarrow>
          (let report = \<lparr>ir_task_id = did, ir_state = None, ir_generation = g, ir_requested = True\<rparr>
           in case target of
                None \<Rightarrow> (w, s', Inr report)
              | Some (child, run, cg) \<Rightarrow>
                  (let (w', s'', r) = abort_child aops de e w did g child user run cg s'
                   in (w', s'', case r of Inl err \<Rightarrow> Inl err | Inr _ \<Rightarrow> Inr report)))
      | Inr (RetryAttempt, s') \<Rightarrow> (w, s', Inl (SubagentBusyError ''subagent activation changed during interrupt'')))"

section \<open>Convergence of interrupts\<close>

definition pending_interrupts :: "('a, 'o) rt \<Rightarrow> ident list" where
  "pending_interrupts s = map fst (sort_key fst (filter (\<lambda>(did, d). de_active_activation_id d \<noteq> None \<and>
     de_interrupt_requested d \<noteq> None \<and> de_interrupt_applied d \<noteq> de_interrupt_requested d) (descriptors s)))"

datatype consumed = Skipped | Changed | AbortTarget ident ident ident int int

definition consume_txn ::
  "'o runtime_ops \<Rightarrow> renv \<Rightarrow> ident \<Rightarrow> ident option \<Rightarrow> ('a, 'o) rt \<Rightarrow> rt_error + consumed \<times> ('a, 'o) rt" where
  "consume_txn ops e did pointer s = (case pointer of
       None \<Rightarrow> Inr (Skipped, s)
     | Some aid \<Rightarrow> (case tget (descriptors s) did of
         None \<Rightarrow> Inr (Skipped, s)
       | Some d \<Rightarrow>
           if de_interrupt_requested d \<noteq> Some (de_generation d) \<or> de_active_activation_id d \<noteq> Some aid then Inr (Skipped, s)
           else case tget (activations s) aid of
             None \<Rightarrow> fence_error ''interrupt activation identity mismatch''
           | Some a \<Rightarrow>
               if av_descriptor_generation a \<noteq> de_generation d then fence_error ''interrupt activation identity mismatch''
               else if av_state a \<in> {AvAccepted, AvClaimed}
               then rbind (complete_interrupted ops aid a d ''Subagent activation was interrupted before provider execution.''
                            ''subagent_interrupted_before_start'' (rt_now e) s) (\<lambda>s'. Inr (Changed, s'))
               else if av_state a = AvBound
               then (case (av_child_run_id a, av_child_generation a) of
                       (Some run, Some g) \<Rightarrow> Inr (AbortTarget (de_child_session_id d) (de_user_id d) run g (de_generation d), s)
                     | _ \<Rightarrow> fence_error ''bound interrupt activation has no child generation'')
               else Inr (Skipped, mark_applied did (de_generation d) s)))"

definition active_pointer :: "('a, 'o) rt \<Rightarrow> ident \<Rightarrow> ident option" where
  "active_pointer s did = (case tget (descriptors s) did of None \<Rightarrow> None | Some d \<Rightarrow> de_active_activation_id d)"

fun consume_loop ::
  "'o runtime_ops \<Rightarrow> 'a assistant_ops \<Rightarrow> env \<Rightarrow> renv \<Rightarrow> worker \<Rightarrow> nat \<Rightarrow> ident list \<Rightarrow> ('a, 'o) rt \<Rightarrow>
     worker \<times> ('a, 'o) rt \<times> (rt_error + nat)" where
  "consume_loop ops aops de e w changed [] s = (w, s, Inr changed)"
| "consume_loop ops aops de e w changed (did # dids) s =
     (case consume_txn ops e did (active_pointer s did) s of
        Inl err \<Rightarrow> (w, s, Inl err)
      | Inr (Skipped, s') \<Rightarrow> consume_loop ops aops de e w changed dids s'
      | Inr (Changed, s') \<Rightarrow> consume_loop ops aops de e w (Suc changed) dids s'
      | Inr (AbortTarget child user run cg g, s') \<Rightarrow>
          (case abort_child aops de e w did g child user run cg s' of
             (w', s'', Inl err) \<Rightarrow> (w', s'', Inl err)
           | (w', s'', Inr applied) \<Rightarrow> consume_loop ops aops de e w' (if applied then Suc changed else changed) dids s''))"

definition consume_interrupt_requests ::
  "'o runtime_ops \<Rightarrow> 'a assistant_ops \<Rightarrow> env \<Rightarrow> renv \<Rightarrow> worker \<Rightarrow> ('a, 'o) rt \<Rightarrow> worker \<times> ('a, 'o) rt \<times> (rt_error + nat)" where
  "consume_interrupt_requests ops aops de e w s = consume_loop ops aops de e w 0 (pending_interrupts s) s"

section \<open>The recovery scan\<close>

text \<open>The transaction that ties an uncertain activation to the run its driver died in.\<close>

definition bind_uncertain :: "recovered_driver \<Rightarrow> ('a, 'o) rt \<Rightarrow> (ident \<times> ident) option \<times> ('a, 'o) rt" where
  "bind_uncertain rec s = (case rec_run_id rec of
       None \<Rightarrow> (None, s)
     | Some run \<Rightarrow>
         if rec_phase rec \<notin> {Running, Finalizing} \<or> run = [] then (None, s)
         else case find_row (\<lambda>a. triggered_by (rec_session_id rec) (rec_user_id rec) (rec_trigger_message_id rec) a \<and>
                  av_state a \<in> {AvClaimed, AvBound}) (activations s) of
           None \<Rightarrow> (None, s)
         | Some (aid, a) \<Rightarrow>
             if av_child_generation a = None
             then (Some (aid, run), s\<lparr>activations := tput aid (a\<lparr>av_child_run_id := Some run,
                     av_child_generation := Some (rec_generation rec), av_state := AvBound\<rparr>) (activations s)\<rparr>)
             else if av_child_run_id a \<noteq> Some run \<or> av_child_generation a \<noteq> Some (rec_generation rec) then (None, s)
             else (Some (aid, run), s))"

fun recover_records ::
  "'o runtime_ops \<Rightarrow> subagent_lib \<Rightarrow> renv \<Rightarrow> recovered_driver list \<Rightarrow> nat \<Rightarrow> ('a, 'o) rt \<Rightarrow> ('a, 'o) rt \<times> (rt_error + nat)" where
  "recover_records ops lib e [] completed s = (s, Inr completed)"
| "recover_records ops lib e (rec # recs) completed s =
     (case bind_uncertain rec s of
        (None, s') \<Rightarrow> recover_records ops lib e recs completed s'
      | (Some (aid, run), s') \<Rightarrow>
          (case complete_activation_from_transcript ops lib e aid run (rec_generation rec) (Some OutUnknown)
                  (Some ''subagent_child_outcome_unknown'') s' of
             Inl err \<Rightarrow> (s', Inl err)
           | Inr (p, s'') \<Rightarrow> recover_records ops lib e recs (Suc completed) s''))"

text \<open>Bound activations whose child's driver is idle in the same generation, without an order.\<close>

definition idle_candidates :: "('a, 'o) rt \<Rightarrow> (ident \<times> ident \<times> ident \<times> int) list" where
  "idle_candidates s = concat (map (\<lambda>(aid, a). case (av_child_run_id a, av_child_generation a, tget (drivers (rbase s)) (av_child_session_id a)) of
       (Some run, Some g, Some r) \<Rightarrow>
         if av_state a = AvBound \<and> d_phase r = Idle \<and> d_generation r = g then [(aid, av_child_session_id a, run, g)] else []
     | _ \<Rightarrow> []) (activations s))"

fun recover_candidates ::
  "'o runtime_ops \<Rightarrow> subagent_lib \<Rightarrow> renv \<Rightarrow> ident set \<Rightarrow> (ident \<times> ident \<times> ident \<times> int) list \<Rightarrow> nat \<Rightarrow> ('a, 'o) rt \<Rightarrow>
     ('a, 'o) rt \<times> (rt_error + nat)" where
  "recover_candidates ops lib e reserved [] completed s = (s, Inr completed)"
| "recover_candidates ops lib e reserved ((aid, child, run, g) # rest) completed s =
     (if child \<in> reserved then recover_candidates ops lib e reserved rest completed s
      else case complete_activation_from_transcript ops lib e aid run g None None s of
             Inl err \<Rightarrow> (s, Inl err)
           | Inr (p, s') \<Rightarrow> recover_candidates ops lib e reserved rest (Suc completed) s')"

definition recover_subagent_outboxes ::
  "'o runtime_ops \<Rightarrow> subagent_lib \<Rightarrow> renv \<Rightarrow> recovered_driver list \<Rightarrow> ('a, 'o) rt \<Rightarrow> ('a, 'o) rt \<times> (rt_error + nat)" where
  "recover_subagent_outboxes ops lib e recs s =
     (case recover_records ops lib e recs 0 s of
        (s', Inl err) \<Rightarrow> (s', Inl err)
      | (s', Inr completed) \<Rightarrow>
          recover_candidates ops lib e (rec_session_id ` {rec \<in> set recs. rec_phase rec = Reserved}) (idle_candidates s') completed s')"

section \<open>Reports\<close>

record subagent_report =
  sr_task_id :: ident
  sr_child_session_id :: ident
  sr_subagent_type :: string
  sr_lifecycle :: lifecycle
  sr_state :: descriptor_state
  sr_generation :: int
  sr_activation_state :: "activation_state option"
  sr_outcome :: "run_outcome option"
  sr_result :: "projection option"

definition latest_activation :: "('a, 'o) rt \<Rightarrow> ident \<Rightarrow> (activation_row \<times> outbox_row) option" where
  "latest_activation s did =
     (case rev (sort_key (av_descriptor_generation \<circ> fst) (concat (map (\<lambda>(aid, a).
              if av_descriptor_id a = did then (case tget (outboxes s) aid of None \<Rightarrow> [] | Some b \<Rightarrow> [(a, b)]) else []) (activations s)))) of
        [] \<Rightarrow> None | x # _ \<Rightarrow> Some x)"

definition reported_result :: "outbox_row \<Rightarrow> projection option" where
  "reported_result b = (if ob_state b \<in> {ObReady, ObDelivered}
     then map_option (\<lambda>p. p\<lparr>pj_title := take 255 (pj_title p)\<rparr>) (ob_result b) else None)"

definition report_subagent :: "ident \<Rightarrow> ident \<Rightarrow> ident \<Rightarrow> ident \<Rightarrow> ('a, 'o) rt \<Rightarrow> rt_error + subagent_report" where
  "report_subagent did user parent project s = (case tget (descriptors s) did of
       None \<Rightarrow> Inl (SubagentLookupError ''subagent not found'')
     | Some d \<Rightarrow>
         if \<not> direct_parent d user parent project then fence_error ''subagent direct lineage or project mismatch''
         else Inr \<lparr>sr_task_id = did, sr_child_session_id = de_child_session_id d, sr_subagent_type = de_subagent_type d,
           sr_lifecycle = de_lifecycle d, sr_state = de_state d, sr_generation = de_generation d,
           sr_activation_state = map_option (av_state \<circ> fst) (latest_activation s did),
           sr_outcome = map_option (ob_outcome \<circ> snd) (latest_activation s did),
           sr_result = (case latest_activation s did of None \<Rightarrow> None | Some (a, b) \<Rightarrow> reported_result b)\<rparr>)"

record listed_subagent =
  ls_task_id :: ident
  ls_child_session_id :: ident
  ls_subagent_type :: string
  ls_lifecycle :: lifecycle
  ls_state :: descriptor_state
  ls_generation :: int
  ls_active :: bool

definition list_subagent_reports :: "ident \<Rightarrow> ident \<Rightarrow> ident \<Rightarrow> ('a, 'o) rt \<Rightarrow> listed_subagent list" where
  "list_subagent_reports user parent project s =
     map (\<lambda>(did, d). \<lparr>ls_task_id = did, ls_child_session_id = de_child_session_id d, ls_subagent_type = de_subagent_type d,
            ls_lifecycle = de_lifecycle d, ls_state = de_state d, ls_generation = de_generation d,
            ls_active = (de_active_activation_id d \<noteq> None)\<rparr>)
       (take MAX_LIST_RESULTS (rev (by_creation de_created_at
          (filter (\<lambda>(did, d). direct_parent d user parent project) (descriptors s)))))"

definition has_subagent_state :: "('a, 'o) rt \<Rightarrow> bool" where
  "has_subagent_state s \<longleftrightarrow> descriptors s \<noteq> []"

text \<open>One poll of \<^verbatim>\<open>wait_for_outbox\<close>; \<open>Inr None\<close> is another round.\<close>

definition poll_outbox :: "ident \<Rightarrow> ident \<Rightarrow> ('a, 'o) rt \<Rightarrow> rt_error + projection option" where
  "poll_outbox aid user s = (case tget (outboxes s) aid of
       None \<Rightarrow> Inl (SubagentLookupError ''subagent activation outbox not found'')
     | Some b \<Rightarrow>
         if ob_user_id b \<noteq> user then Inl (SubagentLookupError ''subagent activation outbox not found'')
         else if ob_state b \<in> {ObReady, ObDelivered}
         then (case ob_result b of None \<Rightarrow> fence_error ''terminal outbox has no payload'' | Some p \<Rightarrow> Inr (Some p))
         else Inr None)"

section \<open>Delivery\<close>

definition parent_tail_eligible :: "('a, 'o) rt \<Rightarrow> activation_row \<Rightarrow> bool" where
  "parent_tail_eligible s a \<longleftrightarrow>
     map_option fst (newest ms_created (\<lambda>m. ms_session m = av_parent_session_id a \<and> ms_user m = av_user_id a) (rmessages s))
       = Some (av_parent_message_id a) \<and>
     (case exact_tool_part s (av_parent_part_id a) (av_parent_message_id a) (av_parent_session_id a) (av_user_id a) of
        None \<Rightarrow> False | Some p \<Rightarrow> is_task_part p)"

definition exact_pointer :: "(string \<times> json) list \<Rightarrow> ident \<Rightarrow> ident \<Rightarrow> activation_row \<Rightarrow> bool" where
  "exact_pointer metadata did aid a \<longleftrightarrow>
     dget metadata ''subagent_id'' = JStr did \<and> dget metadata ''subagent_activation_id'' = JStr aid \<and>
       py_equal (dget metadata ''subagent_generation'') (JInt (av_descriptor_generation a)) \<or>
     dget metadata ''task_handoff_id'' = JStr aid"

definition delivery_marks :: "(string \<times> json) list \<Rightarrow> ident \<Rightarrow> outbox_row \<Rightarrow> bool" where
  "delivery_marks metadata aid b \<longleftrightarrow>
     dget metadata ''subagent_outbox_completed'' = JBool True \<and> dget metadata ''subagent_outcome'' = JStr (outcome_text (ob_outcome b)) \<or>
     dget metadata ''task_handoff_id'' = JStr aid \<and> dget metadata ''task_outbox_completed'' = JBool True"

definition part_has_exact_outbox_delivery ::
  "part_row \<Rightarrow> outbox_row \<Rightarrow> ident \<Rightarrow> activation_row \<Rightarrow> ident \<Rightarrow> rt_error + bool" where
  "part_has_exact_outbox_delivery p b aid a did =
     (if \<not> is_task_part p then Inr False
      else rbind (dict_or_empty (dget (pt_data p) ''metadata'')) (\<lambda>metadata.
        if exact_pointer metadata did aid a \<and> delivery_marks metadata aid b
        then string_in (dget (pt_data p) ''status'') [''completed'', ''error''] else Inr False))"

type_synonym delivery_row = "ident \<times> outbox_row \<times> activation_row \<times> descriptor_row"

text \<open>The join of ready outboxes with their activations and descriptors.\<close>

definition ready_rows :: "(outbox_row \<Rightarrow> bool) \<Rightarrow> ('a, 'o) rt \<Rightarrow> delivery_row list" where
  "ready_rows P s = concat (map (\<lambda>(aid, b). if ob_state b = ObReady \<and> P b
     then (case (tget (activations s) aid, tget (descriptors s) (ob_descriptor_id b)) of
             (Some a, Some d) \<Rightarrow> [(aid, b, a, d)] | _ \<Rightarrow> []) else []) (outboxes s))"

definition delivered_keys :: "string list" where
  "delivered_keys = [''subagent_id'', ''subagent_activation_id'', ''child_session_id'', ''subagent_type'', ''subagent_generation'',
     ''subagent_outcome'', ''subagent_outbox_completed'', ''truncated'', ''recovery_code'', ''task_handoff_id'',
     ''task_outbox_completed'']"

definition delivered_metadata :: "projection \<Rightarrow> delivery_row \<Rightarrow> (string \<times> json) list" where
  "delivered_metadata p row = (case row of (aid, b, a, d) \<Rightarrow>
     dict_update (dict_update (filter (\<lambda>(k, v). k \<in> set delivered_keys) (pj_metadata p))
       (activation_metadata (ob_descriptor_id b) aid (de_child_session_id d) (de_subagent_type d) (av_descriptor_generation a)))
       [(''subagent_outcome'', JStr (outcome_text (ob_outcome b))), (''subagent_outbox_completed'', JBool True),
        (''task_handoff_id'', JStr aid), (''task_outbox_completed'', JBool True)])"

definition delivered_data :: "'o runtime_ops \<Rightarrow> part_row \<Rightarrow> projection \<Rightarrow> delivery_row \<Rightarrow> (string \<times> json) list" where
  "delivered_data ops p pj row = (case row of (aid, b, a, d) \<Rightarrow>
     (let is_error = (ob_outcome b \<noteq> OutSucceeded) in
      public_part_data ops (dict_update (pt_data p)
        [(''status'', JStr (if is_error then ''error'' else ''completed'')), (''output'', JStr (pj_output pj)),
         (''title'', JStr (if pj_title pj = [] then av_task_title a else pj_title pj)),
         (''error'', if is_error then JStr (pj_output pj) else JNull),
         (''metadata'', JDict (delivered_metadata pj row))])))"

definition mark_delivered :: "ident \<Rightarrow> outbox_row \<Rightarrow> time \<Rightarrow> ('a, 'o) rt \<Rightarrow> ('a, 'o) rt" where
  "mark_delivered aid b t s = s\<lparr>outboxes := tput aid (b\<lparr>ob_state := ObDelivered, ob_delivered_at := Some t, ob_updated_at := t\<rparr>) (outboxes s)\<rparr>"

record apply_result =
  ap_rejoined :: nat
  ap_updates :: "(string \<times> json) list list"
  ap_message_ids :: "ident list"

text \<open>
  One row of the delivery loop: nothing, or the new state with the data written into the part (\<open>None\<close> when the
  parent had persisted this result itself).
\<close>

definition write_delivery ::
  "'o runtime_ops \<Rightarrow> ident \<Rightarrow> ident \<Rightarrow> ident \<times> int \<Rightarrow> part_row \<Rightarrow> projection \<Rightarrow> delivery_row \<Rightarrow> ('a, 'o) rt \<Rightarrow>
     rt_error + (string \<times> json) list \<times> ('a, 'o) rt" where
  "write_delivery ops session user fence p pj row s = (case row of (aid, b, a, d) \<Rightarrow>
     (let p' = p\<lparr>pt_data := delivered_data ops p pj row\<rparr>
      in if owned_message s (av_parent_message_id a) session user = None then fence_error ''parent Message disappeared during delivery''
         else rbind (part_event ops (rother s) session (av_parent_part_id a) p' (av_parent_message_id a) fence) (\<lambda>o'.
           Inr (pt_data p', s\<lparr>rparts := tput (av_parent_part_id a) p' (rparts s), rother := o'\<rparr>))))"

definition deliver_one ::
  "'o runtime_ops \<Rightarrow> renv \<Rightarrow> ident \<Rightarrow> ident \<Rightarrow> ident \<Rightarrow> int \<Rightarrow> delivery_row \<Rightarrow> ('a, 'o) rt \<Rightarrow>
     rt_error + ((string \<times> json) list option \<times> ('a, 'o) rt) option" where
  "deliver_one ops e session user run g row s = (case row of (aid, b, a, d) \<Rightarrow>
     (if av_parent_generation a \<ge> g then Inr None
      else if ob_project_id b \<noteq> av_project_id a \<or> ob_parent_part_id b \<noteq> av_parent_part_id a \<or> de_user_id d \<noteq> user \<or>
              de_project_id d \<noteq> av_project_id a \<or> de_parent_session_id d \<noteq> session
      then fence_error ''outbox lineage identity mismatch''
      else case exact_tool_part s (av_parent_part_id a) (av_parent_message_id a) session user of
        None \<Rightarrow> Inr None
      | Some p \<Rightarrow>
          if \<not> is_task_part p then Inr None
          else rbind (part_has_exact_outbox_delivery p b aid a (ob_descriptor_id b)) (\<lambda>already.
            if \<not> already \<and> \<not> parent_tail_eligible s a then Inr None
            else case ob_result b of
              None \<Rightarrow> Inr None
            | Some pj \<Rightarrow>
                rbind (dict_or_empty (dget (pt_data p) ''metadata'')) (\<lambda>metadata.
                  if \<not> exact_pointer metadata (ob_descriptor_id b) aid a then Inr None
                  else if already then Inr (Some (None, mark_delivered aid b (rt_now e) s))
                  else rbind (string_in (dget (pt_data p) ''status'') [''pending'', ''running'', ''error'']) (\<lambda>open.
                    if \<not> open then Inr None
                    else rbind (write_delivery ops session user (run, g) p pj row s) (\<lambda>(data, s').
                      Inr (Some (Some data, mark_delivered aid b (rt_now e) s'))))))))"

fun deliver_loop ::
  "'o runtime_ops \<Rightarrow> renv \<Rightarrow> ident \<Rightarrow> ident \<Rightarrow> ident \<Rightarrow> int \<Rightarrow> delivery_row list \<Rightarrow> apply_result \<Rightarrow> ('a, 'o) rt \<Rightarrow>
     rt_error + apply_result \<times> ('a, 'o) rt" where
  "deliver_loop ops e session user run g [] r s = Inr (r, s)"
| "deliver_loop ops e session user run g (row # rows) r s =
     rbind (deliver_one ops e session user run g row s) (\<lambda>step. case step of
         None \<Rightarrow> deliver_loop ops e session user run g rows r s
       | Some (data, s') \<Rightarrow> deliver_loop ops e session user run g rows
           (r\<lparr>ap_rejoined := Suc (ap_rejoined r), ap_updates := ap_updates r @ (case data of None \<Rightarrow> [] | Some x \<Rightarrow> [x]),
              ap_message_ids := ap_message_ids r @ [av_parent_message_id (fst (snd (snd row)))]\<rparr>) s')"

definition rows_by_activation :: "delivery_row list \<Rightarrow> delivery_row list" where
  "rows_by_activation rows = sort_key (\<lambda>(aid, b, a, d). av_created_at a) (sort_key fst rows)"

definition apply_ready_subagent_outboxes_locked ::
  "'o runtime_ops \<Rightarrow> renv \<Rightarrow> ident \<Rightarrow> ident \<Rightarrow> ident \<Rightarrow> int \<Rightarrow> ('a, 'o) rt \<Rightarrow> rt_error + apply_result \<times> ('a, 'o) rt" where
  "apply_ready_subagent_outboxes_locked ops e session user run g s =
     (let rows = rows_by_activation (ready_rows (\<lambda>b. ob_parent_session_id b = session \<and> ob_user_id b = user) s);
          none = \<lparr>ap_rejoined = 0, ap_updates = [], ap_message_ids = []\<rparr>
      in if rows = [] then Inr (none, s)
         else if open_session (rbase s) session user = None then fence_error ''parent Session disappeared during outbox delivery''
         else deliver_loop ops e session user run g rows none s)"

text \<open>\<^verbatim>\<open>ready_subagent_parent_sessions\<close>: parents without a live driver, noting what they have persisted themselves.\<close>

fun parent_loop ::
  "renv \<Rightarrow> delivery_row list \<Rightarrow> (ident \<times> ident, string) table \<Rightarrow> ('a, 'o) rt \<Rightarrow>
     rt_error + (ident \<times> ident, string) table \<times> ('a, 'o) rt" where
  "parent_loop e [] candidates s = Inr (candidates, s)"
| "parent_loop e ((aid, b, a, d) # rows) candidates s =
     (if (case tget (drivers (rbase s)) (av_parent_session_id a) of
            None \<Rightarrow> False
          | Some r \<Rightarrow> d_user_id r = av_user_id a \<and> d_phase r \<noteq> Idle \<and> after_now (d_lease_expires_at r) (rt_db_now e))
      then parent_loop e rows candidates s
      else rbind (case exact_tool_part s (av_parent_part_id a) (av_parent_message_id a) (av_parent_session_id a) (av_user_id a) of
                    None \<Rightarrow> Inr False
                  | Some p \<Rightarrow> part_has_exact_outbox_delivery p b aid a (ob_descriptor_id b)) (\<lambda>already.
        if already then parent_loop e rows candidates (mark_delivered aid b (rt_now e) s)
        else if \<not> parent_tail_eligible s a then parent_loop e rows candidates s
        else case owned_session (rbase s) (av_parent_session_id a) (av_user_id a) of
          None \<Rightarrow> parent_loop e rows candidates s
        | Some row \<Rightarrow> parent_loop e rows (tput (av_parent_session_id a, av_user_id a) (s_status row) candidates) s))"

definition ready_subagent_parent_sessions ::
  "renv \<Rightarrow> ('a, 'o) rt \<Rightarrow> rt_error + (ident \<times> ident, string) table \<times> ('a, 'o) rt" where
  "ready_subagent_parent_sessions e s =
     parent_loop e (sort_key (\<lambda>(aid, b, a, d). ob_created_at b) (sort_key fst (ready_rows (\<lambda>b. True) s))) [] s"

end
