(* ===== verification/Subagent_Narrowing.thy ===== *)
theory Subagent_Narrowing
  imports Subagent_Authority Permission_Theorems
begin

text \<open>
  The well-formedness of an authority, what the readers of a snapshot accept, and what each operation
  does to the tools, the rule planes and the composition.
\<close>

section \<open>Well-formed authorities\<close>

definition rule_ok :: "rule \<Rightarrow> bool" where
  "rule_ok r \<longleftrightarrow> bounded MAX_AUTHORITY_STRING False (permission r) \<and> bounded MAX_AUTHORITY_STRING False (rule_pattern r)"

definition plane_ok :: "rule list \<Rightarrow> bool" where
  "plane_ok plane \<longleftrightarrow> plane \<noteq> [] \<and> length plane \<le> MAX_AUTHORITY_RULES_PER_PLANE \<and> list_all rule_ok plane"

definition planes_ok :: "rule list list \<Rightarrow> bool" where
  "planes_ok planes \<longleftrightarrow> length planes \<le> MAX_AUTHORITY_PLANES \<and> list_all plane_ok planes"

definition version_ok :: "json \<Rightarrow> composition option \<Rightarrow> bool" where
  "version_ok v c \<longleftrightarrow> hashable v \<and> is_version v (if c = None then LEGACY_AUTHORITY_SNAPSHOT_VERSION else AUTHORITY_SNAPSHOT_VERSION)"

definition authority_ok :: "subagent_lib \<Rightarrow> authority \<Rightarrow> bool" where
  "authority_ok lib a \<longleftrightarrow> name_set_ok MAX_AUTHORITY_TOOLS None (sa_tool_ids a) \<and>
     sa_permission_planes a \<noteq> [] \<and> planes_ok (sa_permission_planes a) \<and> planes_ok (sa_guard_planes a) \<and>
     version_ok (sa_snapshot_version a) (sa_composition a) \<and>
     (case sa_composition a of None \<Rightarrow> True | Some c \<Rightarrow> composition_ok lib c \<and> sc_tool_allowlist c = sa_tool_ids a)"

definition authority_stable :: "subagent_lib \<Rightarrow> authority \<Rightarrow> bool" where
  "authority_stable lib a \<longleftrightarrow> list_all (rules_stable lib) (sa_permission_planes a) \<and> list_all (rules_stable lib) (sa_guard_planes a) \<and>
     (case sa_composition a of None \<Rightarrow> True | Some c \<Rightarrow> composition_stable lib c)"

definition authority_good :: "subagent_lib \<Rightarrow> authority \<Rightarrow> bool" where
  "authority_good lib a \<longleftrightarrow> authority_ok lib a \<and> authority_stable lib a"

text \<open>Documented behaviour of the libraries: pydantic reads back what it dumped, and a SHA-256 hex digest is 64 hex digits.\<close>

definition dumps_revalidate :: "subagent_lib \<Rightarrow> bool" where
  "dumps_revalidate lib \<longleftrightarrow> (\<forall>r. model_validate lib (rule_json r) = Some r)"

definition hex_digests :: "subagent_lib \<Rightarrow> bool" where
  "hex_digests lib \<longleftrightarrow> (\<forall>s. is_binding_digest (sha256_hex lib s))"

lemma rules_stable_all [simp]: "dumps_revalidate lib \<Longrightarrow> rules_stable lib rs"
  by (simp add: dumps_revalidate_def rules_stable_def list_all_iff)

section \<open>What the readers accept\<close>

lemma is_version_distinct: "is_version v 1 \<Longrightarrow> \<not> is_version v 2"
  by (auto simp: is_version_def py_equal_def int_text_def hex_digit_def)

lemma validated_rule_ok: "validated_rule lib raw = Inr r \<Longrightarrow> rule_ok r"
  by (auto simp: validated_rule_def rbind_Inr_iff rule_ok_def bounded_def split: if_splits)

lemma validated_rule_object: "rule_ok r \<Longrightarrow> validated_rule lib (RuleObject r) = Inr r"
  by (auto simp: validated_rule_def rule_ok_def bounded_def)

lemma validated_rule_dump:
  "rule_ok r \<Longrightarrow> model_validate lib (rule_json r) = Some r \<Longrightarrow> validated_rule lib (RuleValue (rule_json r)) = Inr r"
  by (auto simp: validated_rule_def rule_json_def rule_fields_def rule_ok_def bounded_def)

lemma validated_rules_ok: "validated_rules lib raws = Inr rs \<Longrightarrow> list_all rule_ok rs \<and> length rs = length raws"
  by (induction raws arbitrary: rs) (auto simp: rbind_Inr_iff validated_rule_ok)

lemma validated_rules_dump:
  "list_all rule_ok rs \<Longrightarrow> rules_stable lib rs \<Longrightarrow> validated_rules lib (map (RuleValue \<circ> rule_json) rs) = Inr rs"
  by (induction rs) (simp_all add: rules_stable_def validated_rule_dump)

lemma validated_plane_ok: "validated_plane lib raws = Inr plane \<Longrightarrow> plane_ok plane"
  using validated_rules_ok [of lib raws plane] by (auto simp: validated_plane_def plane_ok_def split: if_splits)

lemma validated_plane_value_ok: "validated_plane_value lib v = Inr plane \<Longrightarrow> plane_ok plane"
  by (auto simp: validated_plane_value_def validated_plane_ok split: json.splits)

lemma validated_plane_dump:
  "plane_ok plane \<Longrightarrow> rules_stable lib plane \<Longrightarrow> validated_plane_value lib (plane_json plane) = Inr plane"
  by (simp add: validated_plane_value_def plane_json_def validated_plane_def plane_ok_def validated_rules_dump)

lemma plane_values_ok: "plane_values lib vs = Inr planes \<Longrightarrow> list_all plane_ok planes \<and> length planes = length vs"
  by (induction vs arbitrary: planes) (auto simp: rbind_Inr_iff validated_plane_value_ok)

lemma plane_values_dump:
  "list_all plane_ok planes \<Longrightarrow> list_all (rules_stable lib) planes \<Longrightarrow> plane_values lib (map plane_json planes) = Inr planes"
  by (induction planes) (simp_all add: validated_plane_dump)

lemma validated_planes_ok:
  "validated_planes lib v required = Inr planes \<Longrightarrow> planes_ok planes \<and> (required \<longrightarrow> planes \<noteq> [])"
  using plane_values_ok [of lib _ planes] by (auto simp: validated_planes_def planes_ok_def split: json.splits if_splits)

lemma validated_planes_dump:
  "planes_ok planes \<Longrightarrow> list_all (rules_stable lib) planes \<Longrightarrow> required \<longrightarrow> planes \<noteq> [] \<Longrightarrow>
     validated_planes lib (JList (map plane_json planes)) required = Inr planes"
  by (simp add: validated_planes_def planes_ok_def plane_values_dump)

lemma tool_id_values_iff: "tool_id_values vs = Inr ids \<longleftrightarrow> vs = map JStr ids \<and> list_all (bounded 1024 False) ids"
proof (induction vs arbitrary: ids)
  case Nil
  then show ?case by auto
next
  case (Cons v vs)
  then show ?case
    by (cases ids; cases v) (auto simp: rbind_Inr_iff bounded_def MAX_AUTHORITY_STRING_def)
qed

lemma parse_tool_ids_iff:
  "parse_tool_ids v = Inr S \<longleftrightarrow> (\<exists>ids. v = strings_json ids \<and> names_ok MAX_AUTHORITY_TOOLS None ids \<and> S = set ids)"
proof (cases v)
  case (JList vs)
  then show ?thesis
    by (auto simp: parse_tool_ids_def strings_json_def names_ok_def rbind_Inr_iff tool_id_values_iff distinct_card
        card_distinct not_less split: if_splits) (metis distinct_card)
qed (simp_all add: parse_tool_ids_def strings_json_def)

lemma parse_tool_ids_ok: "parse_tool_ids v = Inr S \<Longrightarrow> name_set_ok MAX_AUTHORITY_TOOLS None S"
  by (auto simp: parse_tool_ids_iff names_ok_set)

lemma parse_tool_ids_dump:
  "name_set_ok MAX_AUTHORITY_TOOLS None S \<Longrightarrow> parse_tool_ids (strings_json (sorted_list_of_set S)) = Inr S"
  by (auto simp: parse_tool_ids_iff name_set_ok_sorted name_set_ok_def)

lemma wrapped_composition_iff [simp]: "wrapped_composition r = Inr c \<longleftrightarrow> r = Inr c"
  by (auto simp: wrapped_composition_def split: sum.splits composition_error.splits)

lemma lift_composition_iff [simp]: "lift_composition r = Inr c \<longleftrightarrow> r = Inr c"
  by (auto simp: lift_composition_def split: sum.splits)

lemma parse_authority_ok:
  assumes "parse_subagent_authority lib raw = Inr a"
  shows "authority_ok lib a"
proof -
  from assms obtain kvs where raw: "raw = JDict kvs"
    by (cases raw) (simp_all add: parse_subagent_authority_def)
  with assms show ?thesis
    by (auto simp: parse_subagent_authority_def Let_def rbind_Inr_iff authority_ok_def version_ok_def parsed_composition_def
        parse_tool_ids_ok parse_composition_ok dest!: validated_planes_ok split: if_splits)
qed

section \<open>Snapshots read back\<close>

definition snapshot :: "subagent_lib \<Rightarrow> authority \<Rightarrow> json" where
  "snapshot lib a = (case authority_to_json lib a of Inr j \<Rightarrow> j | Inl e \<Rightarrow> JNull)"

lemma to_json_total: "authority_ok lib a \<Longrightarrow> authority_to_json lib a = Inr (snapshot lib a)"
  by (auto simp: snapshot_def authority_to_json_def authority_ok_def version_ok_def Let_def
      LEGACY_AUTHORITY_SNAPSHOT_VERSION_def AUTHORITY_SNAPSHOT_VERSION_def dest: is_version_distinct split: option.splits if_splits)

lemma parse_authority_dump:
  assumes ok: "authority_ok lib a" and stable: "authority_stable lib a"
  shows "parse_subagent_authority lib (snapshot lib a) = Inr a"
proof -
  note lib_defs = LEGACY_AUTHORITY_SNAPSHOT_VERSION_def AUTHORITY_SNAPSHOT_VERSION_def
  have planes: "validated_planes lib (JList (map plane_json (sa_permission_planes a))) True = Inr (sa_permission_planes a)"
    "validated_planes lib (JList (map plane_json (sa_guard_planes a))) False = Inr (sa_guard_planes a)"
    using ok stable by (simp_all add: authority_ok_def authority_stable_def validated_planes_dump)
  have tools: "parse_tool_ids (strings_json (sorted_list_of_set (sa_tool_ids a))) = Inr (sa_tool_ids a)"
    using ok by (simp add: authority_ok_def parse_tool_ids_dump)
  show ?thesis
  proof (cases "sa_composition a")
    case None
    with ok have "is_version (sa_snapshot_version a) 1" "\<not> is_version (sa_snapshot_version a) 2" "hashable (sa_snapshot_version a)"
      by (auto simp: authority_ok_def version_ok_def lib_defs dest: is_version_distinct)
    with None planes tools show ?thesis
      by (simp add: snapshot_def authority_to_json_def Let_def lib_defs parse_subagent_authority_def authority_keys_def
          parsed_composition_def insert_commute)
  next
    case (Some c)
    with ok have v: "is_version (sa_snapshot_version a) 2" "hashable (sa_snapshot_version a)"
      and c: "composition_ok lib c" "sc_tool_allowlist c = sa_tool_ids a"
      by (auto simp: authority_ok_def version_ok_def lib_defs)
    have "parse_subagent_composition lib (composition_to_json lib c) = Inr c"
      using Some stable c by (simp add: authority_stable_def compositions.dec_enc)
    with Some v c planes tools show ?thesis
      by (simp add: snapshot_def authority_to_json_def Let_def lib_defs parse_subagent_authority_def authority_keys_def
          parsed_composition_def wrapped_composition_def insert_commute)
  qed
qed

interpretation authorities: codec "snapshot lib" "parse_subagent_authority lib" "authority_ok lib" "authority_stable lib"
  for lib
  by unfold_locales (simp_all add: parse_authority_ok parse_authority_dump)

section \<open>Narrowing a composition\<close>

text \<open>A composition with a smaller boundary and the digest that goes with it; everything else is as it was.\<close>

definition retooled :: "subagent_lib \<Rightarrow> composition \<Rightarrow> string set \<Rightarrow> composition" where
  "retooled lib c S = c\<lparr>sc_tool_allowlist := S,
     sc_digest := payload_digest lib (composition_payload (c\<lparr>sc_tool_allowlist := S\<rparr>))\<rparr>"

lemma payload_ignores_digest [simp]: "composition_payload (c\<lparr>sc_digest := d\<rparr>) = composition_payload c"
  by (simp add: composition_payload_def)

lemma to_json_ignores_digest [simp]: "composition_to_json lib (c\<lparr>sc_digest := d\<rparr>) = composition_to_json lib c"
  by (simp add: composition_to_json_def)

lemma composition_ok_digest [simp]: "composition_ok lib (c\<lparr>sc_digest := d\<rparr>) = composition_ok lib c"
  by (simp add: composition_ok_def)

lemma composition_ok_retool:
  "composition_ok lib c \<Longrightarrow> S \<subseteq> sc_tool_allowlist c \<Longrightarrow> composition_ok lib (c\<lparr>sc_tool_allowlist := S\<rparr>)"
  by (auto simp: composition_ok_def intro: name_set_ok_subset)

lemma parse_composition_size:
  "parse_subagent_composition lib raw = Inr c \<Longrightarrow> length (json_dumps raw) \<le> MAX_COMPOSITION_BYTES"
  by (auto simp: parse_subagent_composition_def simp del: json_dumps.simps split: option.splits if_splits)

lemma parse_composition_again:
  assumes "composition_ok lib c" and "rules_stable lib (fp_permission (sc_agent_preset c))"
    and "parse_subagent_composition lib (composition_to_json lib c) = Inr c'"
  shows "c' = c\<lparr>sc_digest := payload_digest lib (composition_payload c)\<rparr> \<and> composition_stable lib c'"
proof -
  note size = parse_composition_size [OF assms(3)]
  with parse_composition_dump [OF assms(1,2)] assms(3)
  have "c' = c\<lparr>sc_digest := payload_digest lib (composition_payload c)\<rparr>" by simp
  with size assms(2) show ?thesis by (simp add: composition_stable_def)
qed

lemma follow_up_tools_subset: "follow_up_tools c T ts = Inr S \<Longrightarrow> S \<subseteq> sc_tool_allowlist c \<inter> T"
  by (auto simp: follow_up_tools_def Let_def rbind_Inr_iff split: option.splits if_splits)

lemma narrow_retools:
  assumes ok: "composition_ok lib c" and rs: "rules_stable lib (fp_permission (sc_agent_preset c))"
    and narrow: "narrow_follow_up_composition lib c T m r p ts s = Inr c'"
  shows "\<exists>S. S \<subseteq> sc_tool_allowlist c \<inter> T \<and> (ts = None \<longrightarrow> S = sc_tool_allowlist c \<inter> T) \<and> c' = retooled lib c S \<and>
    composition_ok lib c' \<and> composition_stable lib c'"
proof -
  from narrow obtain S where S: "follow_up_tools c T ts = Inr S"
    and parse: "parse_subagent_composition lib (composition_to_json lib (c\<lparr>sc_tool_allowlist := S, sc_digest := []\<rparr>)) = Inr c'"
    by (auto simp: narrow_follow_up_composition_def rbind_Inr_iff split: if_splits)
  note sub = follow_up_tools_subset [OF S]
  have ok': "composition_ok lib (c\<lparr>sc_tool_allowlist := S\<rparr>)"
    using composition_ok_retool [OF ok] sub by auto
  have "c' = retooled lib c S \<and> composition_stable lib c'"
    unfolding retooled_def using parse_composition_again [OF ok', of c'] parse rs by auto
  moreover have "ts = None \<longrightarrow> S = sc_tool_allowlist c \<inter> T"
    using S by (auto simp: follow_up_tools_def Let_def)
  ultimately show ?thesis
    using sub parse_composition_ok [OF parse] by blast
qed

lemma quoted_digest: "is_binding_digest s \<Longrightarrow> length (quoted s) = 66"
proof -
  have plain: "length (escape_char ch) = 1" if "ch \<in> set ''0123456789abcdef''" for ch
    using that by (auto simp: escape_char_def)
  assume "is_binding_digest s"
  then have "\<forall>ch \<in> set s. length (escape_char ch) = 1" "length s = 64"
    using plain by (auto simp: is_binding_digest_def list_all_iff)
  then have "sum_list (map (length \<circ> escape_char) s) = 64"
    by (simp add: sum_list_triv cong: map_cong)
  then show ?thesis by (simp add: quoted_def length_concat comp_def)
qed

lemma retooled_size:
  assumes "hex_digests lib" and "S \<subseteq> sc_tool_allowlist c" and "finite (sc_tool_allowlist c)"
  shows "length (json_dumps (composition_to_json lib (c\<lparr>sc_tool_allowlist := S\<rparr>)))
    \<le> length (json_dumps (composition_to_json lib c))"
proof -
  have "length (quoted (payload_digest lib kvs)) = 66" for kvs
    using assms(1) by (simp add: payload_digest_def hex_digests_def quoted_digest)
  with length_names_mono [OF assms(2,3)] show ?thesis
    by (simp add: composition_to_json_def length_dict composition_payload_def del: json_dumps.simps(6,7))
qed

lemma narrow_total:
  assumes ok: "composition_ok lib c" and stable: "composition_stable lib c" and hex: "hex_digests lib"
  shows "narrow_follow_up_composition lib c T None None None None JNull = Inr (retooled lib c (sc_tool_allowlist c \<inter> T))"
proof -
  let ?S = "sc_tool_allowlist c \<inter> T"
  have ok': "composition_ok lib (c\<lparr>sc_tool_allowlist := ?S\<rparr>)"
    using ok by (rule composition_ok_retool) simp
  have "finite (sc_tool_allowlist c)" using ok by (simp add: composition_ok_def name_set_ok_def)
  with retooled_size [OF hex, of ?S c] stable
  have size: "length (json_dumps (composition_to_json lib (c\<lparr>sc_tool_allowlist := ?S\<rparr>))) \<le> MAX_COMPOSITION_BYTES"
    by (simp add: composition_stable_def)
  from parse_composition_dump [OF ok' _ size] stable show ?thesis
    by (simp add: narrow_follow_up_composition_def keeps_accepted_def follow_up_schema_def follow_up_tools_def
        composition_stable_def retooled_def)
qed

end
