(* ===== verification/Subagent_Theorems.thy ===== *)
theory Subagent_Theorems
  imports Subagent_Narrowing
begin

text \<open>
  Delegation as a step relation on the snapshots stored in descriptor rows, and the properties of a chain
  of delegations: every stored snapshot can be read back, a descendant never has more tools or fewer
  rule planes than an ancestor, and its permission decisions are at least as strict.
\<close>

section \<open>Rule planes\<close>

lemma plane_key_inj: "plane_key p = plane_key q \<longleftrightarrow> p = q"
proof -
  have "inj (\<lambda>r :: rule. (permission r, rule_pattern r, rule_action r))"
    by (auto intro!: injI rule.equality)
  then show ?thesis by (simp add: plane_key_def inj_map_eq_map)
qed

lemma dedup_planes_spec:
  assumes "distinct result" and "plane_key ` set result = seen"
  shows "set (dedup_planes planes seen result) = set result \<union> set planes \<and> distinct (dedup_planes planes seen result)"
  using assms
proof (induction planes seen result rule: dedup_planes.induct)
  case (2 plane planes seen result)
  show ?case
  proof (cases "plane_key plane \<in> seen")
    case True
    with "2.prems" have "plane \<in> set result" by (auto simp: plane_key_inj)
    with True 2 show ?thesis by auto
  next
    case False
    with "2.prems" have "plane \<notin> set result" by auto
    with False 2 show ?thesis by auto
  qed
qed simp

lemma deduplicated_planes_iff:
  "deduplicated_planes cs = Inr planes \<longleftrightarrow> planes = dedup_planes (concat cs) {} [] \<and> length planes \<le> MAX_AUTHORITY_PLANES"
  by (auto simp: deduplicated_planes_def Let_def)

lemma deduplicated_planes_set:
  "deduplicated_planes cs = Inr planes \<Longrightarrow> set planes = set (concat cs) \<and> distinct planes \<and> length planes \<le> MAX_AUTHORITY_PLANES"
  using dedup_planes_spec [of "[]" "{}" "concat cs"] by (auto simp: deduplicated_planes_iff)

lemma dedup_planes_length: "length (dedup_planes (concat cs) {} []) = card (set (concat cs))"
  using dedup_planes_spec [of "[]" "{}" "concat cs"] distinct_card [of "dedup_planes (concat cs) {} []"] by simp

section \<open>Each operation narrows\<close>

definition narrower :: "authority \<Rightarrow> authority \<Rightarrow> bool" where
  "narrower a b \<longleftrightarrow> sa_tool_ids b \<subseteq> sa_tool_ids a \<and> set (sa_permission_planes a) \<subseteq> set (sa_permission_planes b) \<and>
     set (sa_guard_planes a) \<subseteq> set (sa_guard_planes b)"

lemma narrower_refl [simp]: "narrower a a"
  by (simp add: narrower_def)

lemma narrower_trans: "narrower a b \<Longrightarrow> narrower b c \<Longrightarrow> narrower a c"
  by (auto simp: narrower_def)

lemma narrowed_tools_spec:
  assumes "narrowed_tools lib tools c version = Inr (tools', c', version')"
    and "case c of None \<Rightarrow> True | Some x \<Rightarrow> composition_ok lib x \<and> rules_stable lib (fp_permission (sc_agent_preset x))"
  shows "tools' \<subseteq> tools \<and>
    (case c of None \<Rightarrow> c' = None \<and> version' = version \<and> tools' = tools
     | Some x \<Rightarrow> c' = Some (retooled lib x tools') \<and> version' = JInt 2 \<and> tools' = sc_tool_allowlist x \<inter> tools \<and>
         composition_ok lib (retooled lib x tools') \<and> composition_stable lib (retooled lib x tools'))"
proof (cases c)
  case None
  with assms(1) show ?thesis by (auto simp: narrowed_tools_def)
next
  case (Some x)
  with assms(1) obtain y where y: "narrow_follow_up_composition lib x tools None None None None JNull = Inr y"
    and out: "tools' = sc_tool_allowlist y" "c' = Some y" "version' = JInt 2"
    by (auto simp: narrowed_tools_def rbind_Inr_iff AUTHORITY_SNAPSHOT_VERSION_def)
  from assms(2) Some have x: "composition_ok lib x" "rules_stable lib (fp_permission (sc_agent_preset x))" by simp_all
  from narrow_retools [OF x y] out Some show ?thesis by (auto simp: retooled_def)
qed

lemma version_ok_JInt: "version_ok (JInt 2) (Some c)"
  by (simp add: version_ok_def is_version_def py_equal_def hashable_def AUTHORITY_SNAPSHOT_VERSION_def)

text \<open>The composition of a well-formed authority meets what narrowing asks of it.\<close>

lemma composition_ready:
  "dumps_revalidate lib \<Longrightarrow> authority_ok lib a \<Longrightarrow>
     case sa_composition a of None \<Rightarrow> True | Some x \<Rightarrow> composition_ok lib x \<and> rules_stable lib (fp_permission (sc_agent_preset x))"
  by (auto simp: authority_ok_def split: option.splits)

lemma authority_stableI:
  "dumps_revalidate lib \<Longrightarrow> (\<And>c. sa_composition a = Some c \<Longrightarrow> composition_stable lib c) \<Longrightarrow> authority_stable lib a"
  by (auto simp: authority_stable_def list_all_iff split: option.splits)

lemma compose_narrows:
  assumes "compose_subagent_authority lib ts ps gs (Some a) = Inr b" and "dumps_revalidate lib" and "authority_ok lib a"
  shows "narrower a b \<and> finite (sa_tool_ids b)"
proof -
  from assms(1) have "narrowed_tools lib (set ts \<inter> sa_tool_ids a) (sa_composition a) (sa_snapshot_version a) =
      Inr (sa_tool_ids b, sa_composition b, sa_snapshot_version b)"
    and planes: "set (sa_permission_planes a) \<subseteq> set (sa_permission_planes b)" "set (sa_guard_planes a) \<subseteq> set (sa_guard_planes b)"
    by (auto simp: compose_subagent_authority_def Let_def rbind_Inr_iff inherited_planes_def split: if_splits)
  from narrowed_tools_spec [OF this(1) composition_ready [OF assms(2,3)]] planes show ?thesis
    by (auto simp: narrower_def intro: finite_subset)
qed

lemma intersect_spec:
  assumes "intersect_subagent_authorities lib a b = Inr n" and "dumps_revalidate lib" and ok: "authority_ok lib a"
  shows "sa_tool_ids n = sa_tool_ids a \<inter> sa_tool_ids b \<and>
    set (sa_permission_planes n) = set (sa_permission_planes a) \<union> set (sa_permission_planes b) \<and>
    set (sa_guard_planes n) = set (sa_guard_planes a) \<union> set (sa_guard_planes b) \<and>
    length (sa_permission_planes n) \<le> MAX_AUTHORITY_PLANES \<and> length (sa_guard_planes n) \<le> MAX_AUTHORITY_PLANES \<and>
    (case sa_composition a of None \<Rightarrow> sa_composition n = None \<and> sa_snapshot_version n = sa_snapshot_version a
     | Some x \<Rightarrow> sa_composition n = Some (retooled lib x (sa_tool_ids n)) \<and> sa_snapshot_version n = JInt 2 \<and>
         composition_ok lib (retooled lib x (sa_tool_ids n)) \<and> composition_stable lib (retooled lib x (sa_tool_ids n)))"
proof -
  from assms(1) have tools: "narrowed_tools lib (sa_tool_ids a \<inter> sa_tool_ids b) (sa_composition a) (sa_snapshot_version a) =
      Inr (sa_tool_ids n, sa_composition n, sa_snapshot_version n)"
    and planes: "deduplicated_planes [sa_permission_planes a, sa_permission_planes b] = Inr (sa_permission_planes n)"
      "deduplicated_planes [sa_guard_planes a, sa_guard_planes b] = Inr (sa_guard_planes n)"
    by (auto simp: intersect_subagent_authorities_def rbind_Inr_iff)
  have "sa_composition a = Some x \<Longrightarrow> sc_tool_allowlist x = sa_tool_ids a" for x
    using ok by (simp add: authority_ok_def)
  with narrowed_tools_spec [OF tools composition_ready [OF assms(2,3)]] planes [THEN deduplicated_planes_set]
  show ?thesis by (auto split: option.splits)
qed

lemma intersect_good:
  assumes "intersect_subagent_authorities lib a b = Inr n" and "dumps_revalidate lib" and "authority_ok lib a" "authority_ok lib b"
  shows "authority_good lib n"
proof -
  note spec = intersect_spec [OF assms(1-3)]
  have "name_set_ok MAX_AUTHORITY_TOOLS None (sa_tool_ids n)"
    using assms(3) spec by (auto simp: authority_ok_def intro: name_set_ok_subset)
  with spec assms(3,4) have "authority_ok lib n"
    by (auto simp: authority_ok_def planes_ok_def list_all_iff version_ok_JInt retooled_def split: option.splits)
  moreover have "authority_stable lib n"
    using assms(2) spec by (auto intro!: authority_stableI split: option.splits)
  ultimately show ?thesis by (simp add: authority_good_def)
qed

section \<open>Snapshots along a chain\<close>

text \<open>Re-reading what was written keeps the tools and the planes, whatever the composition's digest.\<close>

lemma validated_rules_again:
  "dumps_revalidate lib \<Longrightarrow> validated_rules lib (map (RuleValue \<circ> rule_json) rs) = Inr qs \<Longrightarrow> qs = rs"
proof (induction rs arbitrary: qs)
  case (Cons r rs)
  have "validated_rule lib (RuleValue (rule_json r)) = Inr q \<Longrightarrow> q = r" for q
    using Cons.prems(1) by (auto simp: validated_rule_def rule_json_def dumps_revalidate_def rbind_Inr_iff split: if_splits option.splits)
  with Cons show ?case by (auto simp: rbind_Inr_iff)
qed simp

lemma plane_values_again:
  "dumps_revalidate lib \<Longrightarrow> plane_values lib (map plane_json ps) = Inr qs \<Longrightarrow> qs = ps"
proof (induction ps arbitrary: qs)
  case (Cons p ps)
  have "validated_plane_value lib (plane_json p) = Inr q \<Longrightarrow> q = p" for q
    using validated_rules_again [OF Cons.prems(1), of p q]
    by (auto simp: validated_plane_value_def plane_json_def validated_plane_def split: if_splits)
  with Cons show ?case by (auto simp: rbind_Inr_iff)
qed simp

lemma validated_planes_again:
  "dumps_revalidate lib \<Longrightarrow> validated_planes lib (JList (map plane_json ps)) required = Inr qs \<Longrightarrow> qs = ps"
  by (auto simp: validated_planes_def plane_values_again split: if_splits)

lemma reading_keeps_boundary:
  assumes lib: "dumps_revalidate lib" and "finite (sa_tool_ids b)"
    and json: "authority_to_json lib b = Inr j" and parse: "parse_subagent_authority lib j = Inr p"
  shows "sa_tool_ids p = sa_tool_ids b \<and> sa_permission_planes p = sa_permission_planes b \<and> sa_guard_planes p = sa_guard_planes b"
proof -
  from json obtain kvs where j: "j = JDict kvs"
    and fields: "dget kvs ''tool_ids'' = strings_json (sorted_list_of_set (sa_tool_ids b))"
      "dget kvs ''permission_planes'' = JList (map plane_json (sa_permission_planes b))"
      "dget kvs ''guard_planes'' = JList (map plane_json (sa_guard_planes b))"
    by (auto simp: authority_to_json_def Let_def split: if_splits option.splits)
  from parse have "parse_tool_ids (dget kvs ''tool_ids'') = Inr (sa_tool_ids p)"
    "validated_planes lib (dget kvs ''permission_planes'') True = Inr (sa_permission_planes p)"
    "validated_planes lib (dget kvs ''guard_planes'') False = Inr (sa_guard_planes p)"
    unfolding j by (auto simp: parse_subagent_authority_def Let_def rbind_Inr_iff split: if_splits)
  with fields assms(2) validated_planes_again [OF lib] show ?thesis
    by (auto simp: parse_tool_ids_iff)
qed

lemma build_composition_ok:
  "build_subagent_composition lib d agent tools im m r p ts s mode = Inr c \<Longrightarrow> composition_ok lib c"
  by (auto simp: build_subagent_composition_def rbind_Inr_iff dest: parse_composition_ok)

text \<open>A child is offered tools of its parent and of its preset only, and never a build-only workflow tool.\<close>

lemma delegated_tools_sound:
  "delegated_tools r T p = Inr S \<Longrightarrow> S \<subseteq> T \<and> S \<subseteq> set (fp_tools p) \<and> S \<inter> set BUILD_ONLY_WORKFLOW_TOOLS = {}"
  by (auto simp: delegated_tools_def rbind_Inr_iff split: option.splits if_splits)

lemma parsed_allowlist:
  "parse_subagent_composition lib (composition_to_json lib c) = Inr c' \<Longrightarrow> sc_tool_allowlist c' \<subseteq> sc_tool_allowlist c"
  by (cases "finite (sc_tool_allowlist c)")
    (auto simp: parse_subagent_composition_def composition_to_json_def exact_dict_def parse_composition_fields_def
      composition_payload_def rbind_Inr_iff Let_def simp del: json_dumps.simps split: if_splits)

lemma build_tools_sound:
  assumes "build_subagent_composition lib d agent T im m r p ts s mode = Inr c"
  shows "sc_tool_allowlist c \<subseteq> T \<and> sc_tool_allowlist c \<inter> set BUILD_ONLY_WORKFLOW_TOOLS = {}"
proof -
  from assms obtain q fp S c0 where "delegated_tools q T fp = Inr S" "sc_tool_allowlist c0 = S"
    "parse_subagent_composition lib (composition_to_json lib c0) = Inr c"
    by (auto simp: build_subagent_composition_def rbind_Inr_iff) (metis composition.select_convs(5))
  with delegated_tools_sound [of q T fp S] parsed_allowlist [of lib c0 c] show ?thesis by blast
qed

lemma with_composition_good:
  assumes "with_subagent_composition lib a c = Inr b" and "composition_ok lib c" and "dumps_revalidate lib" and ok: "authority_ok lib a"
  shows "authority_good lib b \<and> narrower a b \<and> sa_permission_planes b = sa_permission_planes a \<and> sa_guard_planes b = sa_guard_planes a \<and>
    sa_tool_ids b = sc_tool_allowlist c \<and> sa_composition b \<noteq> None"
proof -
  from assms(1) obtain c' where parse: "parse_subagent_composition lib (composition_to_json lib c) = Inr c'"
    and sub: "sc_tool_allowlist c' \<subseteq> sa_tool_ids a"
    and b: "b = a\<lparr>sa_tool_ids := sc_tool_allowlist c', sa_composition := Some c', sa_snapshot_version := JInt 2\<rparr>"
    by (auto simp: with_subagent_composition_def rbind_Inr_iff AUTHORITY_SNAPSHOT_VERSION_def split: if_splits)
  have again: "c' = c\<lparr>sc_digest := payload_digest lib (composition_payload c)\<rparr>" "composition_stable lib c'"
    using parse_composition_again [OF assms(2) _ parse] assms(3) by auto
  have "name_set_ok MAX_AUTHORITY_TOOLS None (sc_tool_allowlist c')"
    using ok sub by (auto simp: authority_ok_def intro: name_set_ok_subset)
  then have "authority_ok lib b"
    using ok parse_composition_ok [OF parse] by (simp add: b authority_ok_def version_ok_JInt)
  moreover have "authority_stable lib b"
    using again(2) assms(3) by (auto simp: b intro!: authority_stableI)
  ultimately show ?thesis
    using sub again(1) by (simp add: b authority_good_def narrower_def)
qed

text \<open>A stored snapshot that its reader accepts and its writer reproduces.\<close>

definition loadable :: "subagent_lib \<Rightarrow> json \<Rightarrow> authority \<Rightarrow> bool" where
  "loadable lib raw a \<longleftrightarrow> parse_subagent_authority lib raw = Inr a \<and> authority_good lib a"

lemma loadable_snapshot: "authority_good lib a \<Longrightarrow> authority_to_json lib a = Inr j \<Longrightarrow> loadable lib j a"
  by (auto simp: authority_good_def loadable_def to_json_total parse_authority_dump)

lemma spawn_loadable:
  assumes "spawn_authority lib d agent im args snap = Inr j" and lib: "dumps_revalidate lib"
  shows "\<exists>parent b. parse_subagent_authority lib snap = Inr parent \<and> ''task'' \<in> sa_tool_ids parent \<and> loadable lib j b \<and>
    narrower parent b \<and> sa_permission_planes b = sa_permission_planes parent \<and> sa_guard_planes b = sa_guard_planes parent \<and>
    sa_composition b \<noteq> None \<and> sa_tool_ids b \<inter> set BUILD_ONLY_WORKFLOW_TOOLS = {}"
proof -
  from assms(1) obtain p0 raw parent c b where p0: "parse_subagent_authority lib snap = Inr p0" "''task'' \<in> sa_tool_ids p0"
    and raw: "authority_to_json lib p0 = Inr raw" "parse_subagent_authority lib raw = Inr parent"
    and build: "build_subagent_composition lib d agent (sa_tool_ids parent) im (ta_model args) (ta_reasoning args)
        (ta_persona args) (ta_tools args) (ta_output_schema args) (if ta_fork args then ''fork'' else ''fresh'') = Inr c"
    and b: "with_subagent_composition lib parent c = Inr b" and j: "authority_to_json lib b = Inr j"
    by (auto simp: spawn_authority_def authority_for_spawn_def rbind_Inr_iff split: if_splits)
  note c = build_composition_ok [OF build] build_tools_sound [OF build]
  have "finite (sa_tool_ids p0)"
    using parse_authority_ok [OF p0(1)] by (simp add: authority_ok_def name_set_ok_def)
  note same = reading_keeps_boundary [OF lib this raw]
  note good = with_composition_good [OF b c(1) lib parse_authority_ok [OF raw(2)]]
  have "loadable lib j b" using good j by (simp add: loadable_snapshot)
  with same good p0 c(2) show ?thesis by (intro exI [of _ p0] exI [of _ b]) (auto simp: narrower_def)
qed

lemma accept_loadable:
  "accept_authority lib d j kind model forked = Inr raw \<Longrightarrow> loadable lib j a \<Longrightarrow> loadable lib raw a"
  by (auto simp: accept_authority_def loadable_def authority_good_def to_json_total parse_authority_dump rbind_Inr_iff
      split: option.splits if_splits)

lemma follow_up_loadable:
  assumes up: "follow_up_authority lib d raw snap args = Inr b" and lib: "dumps_revalidate lib" and a: "loadable lib raw a"
  shows "authority_good lib b \<and> narrower a b \<and> (\<forall>p. parse_subagent_authority lib snap = Inr p \<longrightarrow> narrower p b)"
proof -
  from a have parse_a: "parse_subagent_authority lib raw = Inr a" and ok_a: "authority_ok lib a"
    by (simp_all add: loadable_def authority_good_def)
  from up parse_a obtain p n where p: "parse_subagent_authority lib snap = Inr p"
    and n: "intersect_subagent_authorities lib a p = Inr n"
    and rest: "case sa_composition a of None \<Rightarrow> b = n
      | Some c \<Rightarrow> \<exists>c'. narrow_follow_up_composition lib c (sa_tool_ids n) (ta_model args) (ta_reasoning args) (ta_persona args)
            (ta_tools args) (ta_output_schema args) = Inr c' \<and>
          b = n\<lparr>sa_tool_ids := sc_tool_allowlist c', sa_composition := Some c', sa_snapshot_version := JInt 2\<rparr>"
    by (cases "sa_composition a")
      (auto simp: follow_up_authority_def rbind_Inr_iff AUTHORITY_SNAPSHOT_VERSION_def split: if_splits)
  note good = intersect_good [OF n lib ok_a parse_authority_ok [OF p]]
  have nar: "narrower a n" "narrower p n"
    using intersect_spec [OF n lib ok_a] by (simp_all add: narrower_def)
  show ?thesis
  proof (cases "sa_composition a")
    case None
    with rest good nar p show ?thesis by simp
  next
    case (Some c)
    then have c: "composition_ok lib c" using ok_a by (simp add: authority_ok_def)
    from Some rest obtain c' where c': "narrow_follow_up_composition lib c (sa_tool_ids n) (ta_model args) (ta_reasoning args)
        (ta_persona args) (ta_tools args) (ta_output_schema args) = Inr c'"
      and b: "b = n\<lparr>sa_tool_ids := sc_tool_allowlist c', sa_composition := Some c', sa_snapshot_version := JInt 2\<rparr>"
      by auto
    from narrow_retools [OF c _ c'] lib have new: "sc_tool_allowlist c' \<subseteq> sa_tool_ids n" "composition_ok lib c'" "composition_stable lib c'"
      by (auto simp: retooled_def)
    have "name_set_ok MAX_AUTHORITY_TOOLS None (sc_tool_allowlist c')"
      using good new(1) by (auto simp: authority_good_def authority_ok_def intro: name_set_ok_subset)
    with good new have "authority_ok lib b"
      by (simp add: b authority_good_def authority_ok_def version_ok_JInt)
    moreover have "authority_stable lib b"
      using new(3) lib by (auto simp: b intro!: authority_stableI)
    ultimately show ?thesis
      using nar new(1) p by (auto simp: b authority_good_def narrower_def)
  qed
qed

section \<open>The step relation\<close>

text \<open>
  From the stored snapshot of an Agent to a snapshot derived from it: the run of the Agent composes the
  authority of its current step and spawns a child, or the Agent itself gets a follow-up from a parent
  whose step snapshot is arbitrary.
\<close>

inductive delegation :: "subagent_lib \<Rightarrow> json \<Rightarrow> json \<Rightarrow> bool" for lib where
  spawn: "parse_subagent_authority lib raw = Inr a \<Longrightarrow>
     compose_subagent_authority lib tools perms guards (Some a) = Inr step \<Longrightarrow> authority_to_json lib step = Inr snap \<Longrightarrow>
     spawn_authority lib d agent model args snap = Inr j \<Longrightarrow> accept_authority lib d' j kind child_model forked = Inr raw' \<Longrightarrow>
     delegation lib raw raw'"
| follow_up: "follow_up_authority lib d raw snap args = Inr b \<Longrightarrow> authority_to_json lib b = Inr raw' \<Longrightarrow> delegation lib raw raw'"

inductive_cases delegation_cases: "delegation lib raw raw'"

definition stored :: "subagent_lib \<Rightarrow> json \<Rightarrow> bool" where
  "stored lib raw \<longleftrightarrow> dumps_revalidate lib \<and> (\<exists>a. loadable lib raw a)"

definition boundary :: "subagent_lib \<Rightarrow> json \<Rightarrow> unit \<Rightarrow> authority option" where
  "boundary lib raw k = (case parse_subagent_authority lib raw of Inr a \<Rightarrow> Some a | Inl e \<Rightarrow> None)"

lemma delegation_narrows:
  assumes "delegation lib raw raw'" and lib: "dumps_revalidate lib" and a: "loadable lib raw a"
  shows "\<exists>b. loadable lib raw' b \<and> narrower a b"
  using assms(1)
proof (cases rule: delegation.cases)
  case (spawn a' tools perms guards b snap d agent model args j d' kind child_model forked)
  with a have a': "a' = a" "authority_ok lib a" by (simp_all add: loadable_def authority_good_def)
  note comp = compose_narrows [OF spawn(2) [unfolded a'] lib a'(2)]
  from spawn_loadable [OF spawn(4) lib] obtain parent c where parent: "parse_subagent_authority lib snap = Inr parent"
    and c: "loadable lib j c" "narrower parent c" by blast
  have "narrower b parent"
    using reading_keeps_boundary [OF lib _ spawn(3) parent] comp by (simp add: narrower_def)
  with comp c narrower_trans accept_loadable [OF spawn(5) c(1)] show ?thesis by blast
next
  case (follow_up d snap args b)
  from follow_up_loadable [OF follow_up(1) lib a] follow_up(2) show ?thesis
    using loadable_snapshot by blast
qed

interpretation chain: evolving_rows "delegation lib" "stored lib" "boundary lib" narrower
  for lib
proof unfold_locales
  show "stored lib raw \<Longrightarrow> delegation lib raw raw' \<Longrightarrow> stored lib raw'" for raw raw'
    by (meson delegation_narrows stored_def)
next
  fix raw raw' k a
  assume "stored lib raw" "delegation lib raw raw'" "boundary lib raw k = Some a"
  then have "dumps_revalidate lib" "loadable lib raw a"
    by (auto simp: stored_def boundary_def loadable_def split: sum.splits)
  with delegation_narrows [OF \<open>delegation lib raw raw'\<close>] show "\<exists>b. boundary lib raw' k = Some b \<and> narrower a b"
    by (fastforce simp: boundary_def loadable_def)
qed (auto intro: narrower_trans)

lemma chain_narrows:
  assumes "dumps_revalidate lib" and "(delegation lib)\<^sup>*\<^sup>* raw raw'" and "parse_subagent_authority lib raw = Inr a" and "authority_good lib a"
  shows "\<exists>b. parse_subagent_authority lib raw' = Inr b \<and> authority_good lib b \<and> narrower a b"
proof -
  have st: "stored lib raw" and row: "boundary lib raw () = Some a"
    using assms by (auto simp: stored_def loadable_def boundary_def)
  from chain.row_steps [OF assms(2) st row] chain.inv_steps [OF assms(2) st] show ?thesis
    by (auto simp: stored_def loadable_def boundary_def split: sum.splits)
qed

text \<open>The policies of a child's run: its own and, as further planes, those of its authority.\<close>

definition bound_by :: "authority \<Rightarrow> policies \<Rightarrow> policies" where
  "bound_by a p = p\<lparr>authority_rulesets := sa_permission_planes a, authority_guard_rulesets := sa_guard_planes a\<rparr>"

lemma decide_one_narrower:
  assumes "narrower a b"
  shows "strictness (decide_one (bound_by a p) u perm pat) \<le> strictness (decide_one (bound_by b p) u perm pat)"
  using assms
  by (auto simp: narrower_def decide_one_def Let_def trusted_actions_def guard_actions_def bound_by_def list_all_iff
      split: action.splits)

lemma decide_narrower:
  "narrower a b \<Longrightarrow> strictness (decide (bound_by a p) u perm pats needs) \<le> strictness (decide (bound_by b p) u perm pats needs)"
  by (rule decide_mono) (simp_all add: decide_one_narrower)

end
