(* ===== verification/Subagent_Protocol.thy ===== *)
theory Subagent_Protocol
  imports Subagent_Delivery Subagent_Theorems
begin

text \<open>
  The protocol that the operations of the subagent runtime implement, as a transition system over the three
  tables they own: an activation is accepted, claimed, bound to a generation of the child's driver and
  completed; its outbox waits, is ready and is delivered; the descriptor points to its one unfinished
  activation and carries the interrupt fence. The invariant of the tables and the way each row evolves are
  proved here, once, for the abstract steps.
\<close>

section \<open>Steps\<close>

record prot =
  p_descriptors :: "(ident, descriptor_row) table"
  p_activations :: "(ident, activation_row) table"
  p_outboxes :: "(ident, outbox_row) table"

definition ptables :: "('a, 'o) rt \<Rightarrow> prot" where
  "ptables s = \<lparr>p_descriptors = descriptors s, p_activations = activations s, p_outboxes = outboxes s\<rparr>"

text \<open>The columns of an activation that its acceptance fixes.\<close>

definition same_work :: "activation_row \<Rightarrow> activation_row \<Rightarrow> bool" where
  "same_work a a' \<longleftrightarrow> a' = a\<lparr>av_child_run_id := av_child_run_id a', av_child_generation := av_child_generation a',
     av_state := av_state a', av_claim_token := av_claim_token a', av_claim_owner := av_claim_owner a',
     av_claim_expires_at := av_claim_expires_at a', av_updated_at := av_updated_at a', av_completed_at := av_completed_at a'\<rparr>"

definition unbound :: "activation_row \<Rightarrow> bool" where
  "unbound a \<longleftrightarrow> av_child_run_id a = None \<and> av_child_generation a = None"

definition bound_run :: "activation_row \<Rightarrow> bool" where
  "bound_run a \<longleftrightarrow> av_child_run_id a \<noteq> None \<and> av_child_generation a \<noteq> None"

definition describes :: "descriptor_row \<Rightarrow> activation_row \<Rightarrow> bool" where
  "describes d a \<longleftrightarrow> av_user_id a = de_user_id d \<and> av_project_id a = de_project_id d \<and>
     av_child_session_id a = de_child_session_id d \<and> av_parent_session_id a = de_parent_session_id d"

definition outbox_of :: "activation_row \<Rightarrow> outbox_row \<Rightarrow> bool" where
  "outbox_of a b \<longleftrightarrow> ob_descriptor_id b = av_descriptor_id a \<and> ob_user_id b = av_user_id a \<and> ob_project_id b = av_project_id a \<and>
     ob_parent_session_id b = av_parent_session_id a \<and> ob_parent_message_id b = av_parent_message_id a \<and>
     ob_parent_part_id b = av_parent_part_id a"

text \<open>
  One rule per transition: a first acceptance, a follow-up, a claim, its return, a bind, the bind of an
  uncertain run by recovery, completion, an interrupt request, its note, and delivery. \<open>a\<close> and \<open>d\<close> are the rows
  found under \<open>aid\<close> and its descriptor; an activation with a pending interrupt is neither claimed nor
  bound by a dispatcher.
\<close>

inductive pstep :: "subagent_lib \<Rightarrow> prot \<Rightarrow> prot \<Rightarrow> bool" for lib where
  accept: "tget (p_descriptors p) did = None \<Longrightarrow> tget (p_activations p) aid = None \<Longrightarrow> tget (p_outboxes p) aid = None \<Longrightarrow>
     find_row (clashes a) (p_activations p) = None \<Longrightarrow>
     find_row (\<lambda>r. de_child_session_id r = de_child_session_id d) (p_descriptors p) = None \<Longrightarrow>
     av_descriptor_id a = did \<Longrightarrow> describes d a \<Longrightarrow> av_descriptor_generation a = 1 \<Longrightarrow> de_generation d = 1 \<Longrightarrow>
     de_active_activation_id d = Some aid \<Longrightarrow> de_state d = DsActive \<Longrightarrow> 1 \<le> de_depth d \<Longrightarrow> de_depth d \<le> MAX_SUBAGENT_DEPTH \<Longrightarrow>
     av_state a = AvAccepted \<Longrightarrow> unbound a \<Longrightarrow> b = waiting_outbox a t \<Longrightarrow>
     pstep lib p \<lparr>p_descriptors = tput did d (p_descriptors p), p_activations = tput aid a (p_activations p),
       p_outboxes = tput aid b (p_outboxes p)\<rparr>"
| follow_up: "tget (p_descriptors p) did = Some d \<Longrightarrow> tget (p_activations p) aid = None \<Longrightarrow> tget (p_outboxes p) aid = None \<Longrightarrow>
     find_row (clashes a) (p_activations p) = None \<Longrightarrow>
     de_active_activation_id d = None \<Longrightarrow> de_state d = DsActive \<Longrightarrow> de_lifecycle d = Continuable \<Longrightarrow>
     delegation lib (de_authority_snapshot d) raw \<Longrightarrow>
     d' = d\<lparr>de_generation := de_generation d + 1, de_authority_snapshot := raw, de_active_activation_id := Some aid,
            de_updated_at := t, de_interrupt_requested := None, de_interrupt_applied := None\<rparr> \<Longrightarrow>
     av_descriptor_id a = did \<Longrightarrow> describes d a \<Longrightarrow> av_descriptor_generation a = de_generation d + 1 \<Longrightarrow>
     av_state a = AvAccepted \<Longrightarrow> unbound a \<Longrightarrow> b = waiting_outbox a t \<Longrightarrow>
     pstep lib p \<lparr>p_descriptors = tput did d' (p_descriptors p), p_activations = tput aid a (p_activations p),
       p_outboxes = tput aid b (p_outboxes p)\<rparr>"
| claim: "tget (p_activations p) aid = Some a \<Longrightarrow> tget (p_descriptors p) (av_descriptor_id a) = Some d \<Longrightarrow>
     av_state a \<in> {AvAccepted, AvClaimed} \<Longrightarrow> \<not> interrupted_now a d \<Longrightarrow>
     a' = a\<lparr>av_state := AvClaimed, av_claim_token := Some token, av_claim_owner := Some owner, av_claim_expires_at := Some x,
            av_updated_at := t\<rparr> \<Longrightarrow>
     pstep lib p (p\<lparr>p_activations := tput aid a' (p_activations p)\<rparr>)"
| yield: "tget (p_activations p) aid = Some a \<Longrightarrow> av_state a = AvClaimed \<Longrightarrow>
     a' = a\<lparr>av_state := AvAccepted, av_claim_token := None, av_claim_owner := None, av_claim_expires_at := None,
            av_updated_at := t\<rparr> \<Longrightarrow>
     pstep lib p (p\<lparr>p_activations := tput aid a' (p_activations p)\<rparr>)"
| bind: "tget (p_activations p) aid = Some a \<Longrightarrow> tget (p_descriptors p) (av_descriptor_id a) = Some d \<Longrightarrow>
     unfinished a \<Longrightarrow> \<not> interrupted_now a d \<Longrightarrow>
     a' = a\<lparr>av_child_run_id := Some run, av_child_generation := Some g, av_state := AvBound, av_claim_token := token,
            av_claim_owner := owner, av_claim_expires_at := None, av_updated_at := t\<rparr> \<Longrightarrow>
     pstep lib p (p\<lparr>p_activations := tput aid a' (p_activations p)\<rparr>)"
| uncertain: "tget (p_activations p) aid = Some a \<Longrightarrow> av_state a \<in> {AvClaimed, AvBound} \<Longrightarrow> av_child_generation a = None \<Longrightarrow>
     a' = a\<lparr>av_child_run_id := Some run, av_child_generation := Some g, av_state := AvBound\<rparr> \<Longrightarrow>
     pstep lib p (p\<lparr>p_activations := tput aid a' (p_activations p)\<rparr>)"
| complete: "tget (p_activations p) aid = Some a \<Longrightarrow> tget (p_descriptors p) (av_descriptor_id a) = Some d \<Longrightarrow>
     tget (p_outboxes p) aid = Some b \<Longrightarrow> ob_state b = ObWaiting \<Longrightarrow> oc \<noteq> Waiting \<Longrightarrow>
     (av_state a \<in> {AvAccepted, AvClaimed} \<Longrightarrow> oc = OutInterrupted) \<Longrightarrow>
     a' = a\<lparr>av_state := AvCompleted, av_completed_at := Some t, av_claim_expires_at := None, av_updated_at := t\<rparr> \<Longrightarrow>
     b' = b\<lparr>ob_state := ObReady, ob_outcome := oc, ob_result := Some r, ob_ready_at := Some t, ob_updated_at := t\<rparr> \<Longrightarrow>
     d' = released_descriptor aid a oc t d \<Longrightarrow>
     pstep lib p \<lparr>p_descriptors = tput (av_descriptor_id a) d' (p_descriptors p), p_activations = tput aid a' (p_activations p),
       p_outboxes = tput aid b' (p_outboxes p)\<rparr>"
| interrupt: "tget (p_descriptors p) did = Some d \<Longrightarrow> de_active_activation_id d \<noteq> None \<Longrightarrow>
     d' = d\<lparr>de_interrupt_requested := Some (de_generation d), de_updated_at := t\<rparr> \<Longrightarrow>
     pstep lib p (p\<lparr>p_descriptors := tput did d' (p_descriptors p)\<rparr>)"
| noted: "tget (p_descriptors p) did = Some d \<Longrightarrow> d' = d\<lparr>de_interrupt_applied := Some g, de_updated_at := t\<rparr> \<Longrightarrow>
     pstep lib p (p\<lparr>p_descriptors := tput did d' (p_descriptors p)\<rparr>)"
| deliver: "tget (p_outboxes p) aid = Some b \<Longrightarrow> ob_state b = ObReady \<Longrightarrow>
     b' = b\<lparr>ob_state := ObDelivered, ob_delivered_at := Some t, ob_updated_at := t\<rparr> \<Longrightarrow>
     pstep lib p (p\<lparr>p_outboxes := tput aid b' (p_outboxes p)\<rparr>)"

inductive_cases pstep_cases: "pstep lib p p'"

section \<open>The invariant\<close>

definition descriptor_ok :: "prot \<Rightarrow> ident \<Rightarrow> descriptor_row \<Rightarrow> bool" where
  "descriptor_ok p did d \<longleftrightarrow> 1 \<le> de_depth d \<and> de_depth d \<le> MAX_SUBAGENT_DEPTH \<and>
     (\<forall>aid. de_active_activation_id d = Some aid \<longrightarrow> de_state d = DsActive \<and>
        (\<exists>a. tget (p_activations p) aid = Some a \<and> av_descriptor_id a = did \<and>
             av_descriptor_generation a = de_generation d \<and> unfinished a))"

definition outbox_ok :: "activation_row \<Rightarrow> outbox_row \<Rightarrow> bool" where
  "outbox_ok a b \<longleftrightarrow> outbox_of a b \<and> (ob_state b = ObWaiting \<longleftrightarrow> unfinished a) \<and>
     (ob_state b = ObWaiting \<longleftrightarrow> ob_outcome b = Waiting) \<and> (ob_state b = ObWaiting \<longleftrightarrow> ob_result b = None)"

definition activation_ok :: "prot \<Rightarrow> ident \<Rightarrow> activation_row \<Rightarrow> bool" where
  "activation_ok p aid a \<longleftrightarrow>
     (av_state a \<in> {AvAccepted, AvClaimed} \<longrightarrow> unbound a) \<and> (av_state a = AvBound \<longrightarrow> bound_run a) \<and> av_state a \<noteq> AvAbandoned \<and>
     (\<exists>d. tget (p_descriptors p) (av_descriptor_id a) = Some d \<and> describes d a \<and> av_descriptor_generation a \<le> de_generation d \<and>
        (unfinished a \<longrightarrow> de_active_activation_id d = Some aid)) \<and>
     (\<exists>b. tget (p_outboxes p) aid = Some b \<and> outbox_ok a b)"

definition unique_work :: "prot \<Rightarrow> bool" where
  "unique_work p \<longleftrightarrow> (\<forall>aid a aid' a'. tget (p_activations p) aid = Some a \<longrightarrow> tget (p_activations p) aid' = Some a' \<longrightarrow>
     clashes a a' \<longrightarrow> aid = aid')"

definition prot_ok :: "prot \<Rightarrow> bool" where
  "prot_ok p \<longleftrightarrow> twf (p_descriptors p) \<and> twf (p_activations p) \<and> twf (p_outboxes p) \<and> unique_work p \<and>
     (\<forall>did d. tget (p_descriptors p) did = Some d \<longrightarrow> descriptor_ok p did d) \<and>
     (\<forall>aid a. tget (p_activations p) aid = Some a \<longrightarrow> activation_ok p aid a) \<and>
     (\<forall>aid b. tget (p_outboxes p) aid = Some b \<longrightarrow> tget (p_activations p) aid \<noteq> None)"

section \<open>Preservation\<close>

lemma prot_okD:
  assumes "prot_ok p"
  shows "tget (p_descriptors p) did = Some d \<Longrightarrow> descriptor_ok p did d"
    and "tget (p_activations p) aid = Some a \<Longrightarrow> activation_ok p aid a"
    and "tget (p_outboxes p) aid = Some b \<Longrightarrow> \<exists>a. tget (p_activations p) aid = Some a"
    and "twf (p_descriptors p)" "twf (p_activations p)" "twf (p_outboxes p)" "unique_work p"
  using assms by (auto simp: prot_ok_def)

lemma unfinished_outbox:
  "prot_ok p \<Longrightarrow> tget (p_activations p) aid = Some a \<Longrightarrow> tget (p_outboxes p) aid = Some b \<Longrightarrow> ob_state b = ObWaiting \<longleftrightarrow> unfinished a"
  by (fastforce dest: prot_okD(2) simp: activation_ok_def outbox_ok_def)

lemma unfinished_active:
  assumes "prot_ok p" and "tget (p_activations p) aid = Some a" and "unfinished a" and "tget (p_descriptors p) (av_descriptor_id a) = Some d"
  shows "de_active_activation_id d = Some aid" and "av_descriptor_generation a = de_generation d" and "de_state d = DsActive"
proof -
  show act: "de_active_activation_id d = Some aid"
    using prot_okD(2) [OF assms(1,2)] assms(3,4) by (auto simp: activation_ok_def)
  with prot_okD(1) [OF assms(1,4)] assms(2) show "av_descriptor_generation a = de_generation d" "de_state d = DsActive"
    by (auto simp: descriptor_ok_def)
qed

lemma same_work_fields:
  assumes "same_work a a'"
  shows "av_descriptor_id a' = av_descriptor_id a" "av_descriptor_generation a' = av_descriptor_generation a"
    "describes d a' = describes d a" "outbox_of a' b = outbox_of a b" "av_kind a' = av_kind a"
    "av_child_trigger_message_id a' = av_child_trigger_message_id a" "av_parent_part_id a' = av_parent_part_id a"
  using assms unfolding same_work_def describes_def outbox_of_def by (cases a; cases a'; simp; fail)+

lemma clashes_same_work: "same_work a a' \<Longrightarrow> clashes a' r = clashes a r \<and> clashes r a' = clashes r a"
  by (simp add: clashes_def same_work_fields)

lemma unique_work_move:
  assumes "unique_work p" and "tget (p_activations p) aid = Some a" and "same_work a a'"
  shows "unique_work (p\<lparr>p_activations := tput aid a' (p_activations p)\<rparr>)"
  using assms clashes_same_work [OF assms(3)] by (auto simp: unique_work_def tget_tput split: if_splits)

lemma move_ok:
  assumes ok: "prot_ok p" and a: "tget (p_activations p) aid = Some a" and same: "same_work a a'"
    and unf: "unfinished a" "unfinished a'"
    and shape: "av_state a' \<in> {AvAccepted, AvClaimed} \<longrightarrow> unbound a'" "av_state a' = AvBound \<longrightarrow> bound_run a'"
  shows "prot_ok (p\<lparr>p_activations := tput aid a' (p_activations p)\<rparr>)" (is "prot_ok ?q")
proof -
  have acts: "activation_ok ?q k r" if "tget (p_activations ?q) k = Some r" for k r
  proof (cases "k = aid")
    case True
    with that have r: "r = a'" by (simp add: tget_tput)
    have "av_state a' \<noteq> AvAbandoned" using unf(2) by (auto simp: unfinished_def)
    with prot_okD(2) [OF ok a] True shape unf show ?thesis
      by (auto simp: activation_ok_def r same_work_fields [OF same] outbox_ok_def)
  next
    case False
    with that prot_okD(2) [OF ok, of k r] show ?thesis by (simp add: tget_tput activation_ok_def)
  qed
  have descs: "descriptor_ok ?q did d" if "tget (p_descriptors ?q) did = Some d" for did d
    using that prot_okD(1) [OF ok, of did d] a unf(2) by (auto simp: descriptor_ok_def tget_tput same_work_fields [OF same])
  show ?thesis
    using acts descs unique_work_move [OF prot_okD(7) [OF ok] a same] prot_okD(3-6) [OF ok]
    unfolding prot_ok_def by (fastforce simp: tget_tput twf_tput)
qed

text \<open>A descriptor whose lineage, pointer, generation and state stay.\<close>

definition same_standing :: "descriptor_row \<Rightarrow> descriptor_row \<Rightarrow> bool" where
  "same_standing d d' \<longleftrightarrow> d' = d\<lparr>de_interrupt_requested := de_interrupt_requested d',
     de_interrupt_applied := de_interrupt_applied d', de_updated_at := de_updated_at d'\<rparr>"

lemma same_standing_fields:
  assumes "same_standing d d'"
  shows "de_active_activation_id d' = de_active_activation_id d" "de_generation d' = de_generation d" "de_state d' = de_state d"
    "describes d' a = describes d a" "de_depth d' = de_depth d" "de_authority_snapshot d' = de_authority_snapshot d"
    "de_child_session_id d' = de_child_session_id d"
  using assms unfolding same_standing_def describes_def by (cases d; cases d'; simp; fail)+

lemma standing_ok:
  assumes ok: "prot_ok p" and d: "tget (p_descriptors p) did = Some d" and same: "same_standing d d'"
  shows "prot_ok (p\<lparr>p_descriptors := tput did d' (p_descriptors p)\<rparr>)" (is "prot_ok ?q")
proof -
  have "activation_ok ?q k r" if "tget (p_activations ?q) k = Some r" for k r
    using that prot_okD(2) [OF ok, of k r] d by (auto simp: activation_ok_def tget_tput same_standing_fields [OF same])
  moreover have "descriptor_ok ?q k r" if "tget (p_descriptors ?q) k = Some r" for k r
  proof (cases "k = did")
    case True
    with that have "r = d'" by (simp add: tget_tput)
    with True prot_okD(1) [OF ok d] show ?thesis by (simp add: descriptor_ok_def same_standing_fields [OF same])
  next
    case False
    with that prot_okD(1) [OF ok, of k r] show ?thesis by (simp add: tget_tput descriptor_ok_def)
  qed
  ultimately show ?thesis
    using prot_okD(3-7) [OF ok] unfolding prot_ok_def by (auto simp: twf_tput unique_work_def)
qed

lemma deliver_ok:
  assumes ok: "prot_ok p" and b: "tget (p_outboxes p) aid = Some b" "ob_state b = ObReady"
  shows "prot_ok (p\<lparr>p_outboxes := tput aid (b\<lparr>ob_state := ObDelivered, ob_delivered_at := x, ob_updated_at := t\<rparr>) (p_outboxes p)\<rparr>)"
    (is "prot_ok ?q")
proof -
  have "activation_ok ?q k r" if "tget (p_activations ?q) k = Some r" for k r
    using that prot_okD(2) [OF ok, of k r] b by (auto simp: activation_ok_def tget_tput outbox_ok_def outbox_of_def)
  moreover have "descriptor_ok ?q k r" if "tget (p_descriptors ?q) k = Some r" for k r
    using that prot_okD(1) [OF ok, of k r] by (simp add: descriptor_ok_def)
  ultimately show ?thesis
    using prot_okD(3-7) [OF ok] b unfolding prot_ok_def by (auto simp: tget_tput twf_tput unique_work_def)
qed

lemma find_row_NoneD: "find_row P t = None \<Longrightarrow> tget t k = Some r \<Longrightarrow> \<not> P r"
  by (auto simp: find_row_def find_None_iff dest: tget_in)

lemma find_row_SomeD: "find_row P t = Some (k, r) \<Longrightarrow> twf t \<Longrightarrow> tget t k = Some r \<and> P r"
  by (auto simp: find_row_def find_Some_iff tget_iff_in) (metis nth_mem)

lemma released_simps:
  "describes (released_descriptor aid a oc t d) r = describes d r"
  "de_generation (released_descriptor aid a oc t d) = de_generation d" "de_depth (released_descriptor aid a oc t d) = de_depth d"
  "de_authority_snapshot (released_descriptor aid a oc t d) = de_authority_snapshot d"
  "de_child_session_id (released_descriptor aid a oc t d) = de_child_session_id d"
  by (simp_all add: released_descriptor_def describes_def)

lemma complete_ok:
  assumes ok: "prot_ok p" and a: "tget (p_activations p) aid = Some a" and d: "tget (p_descriptors p) (av_descriptor_id a) = Some d"
    and b: "tget (p_outboxes p) aid = Some b" "ob_state b = ObWaiting" and oc: "oc \<noteq> Waiting"
    and a': "a' = a\<lparr>av_state := AvCompleted, av_completed_at := x, av_claim_expires_at := None, av_updated_at := t\<rparr>"
    and b': "b' = b\<lparr>ob_state := ObReady, ob_outcome := oc, ob_result := Some r, ob_ready_at := x, ob_updated_at := t\<rparr>"
  shows "prot_ok \<lparr>p_descriptors = tput (av_descriptor_id a) (released_descriptor aid a oc t d) (p_descriptors p),
      p_activations = tput aid a' (p_activations p), p_outboxes = tput aid b' (p_outboxes p)\<rparr>" (is "prot_ok ?q")
proof -
  have unf: "unfinished a" using unfinished_outbox [OF ok a b(1)] b(2) by simp
  note act = unfinished_active [OF ok a unf d]
  have none: "de_active_activation_id (released_descriptor aid a oc t d) = None"
    using act by (simp add: released_descriptor_def)
  have same: "same_work a a'" by (simp add: a' same_work_def)
  have acts: "activation_ok ?q k r" if k: "tget (p_activations ?q) k = Some r" for k r
  proof (cases "k = aid")
    case True
    with k have r: "r = a'" by (simp add: tget_tput)
    from prot_okD(2) [OF ok a] d b oc True show ?thesis
      by (auto simp: activation_ok_def r same_work_fields [OF same] tget_tput released_simps outbox_ok_def b')
        (simp_all add: a' b' unfinished_def outbox_of_def)
  next
    case False
    with k have k': "tget (p_activations p) k = Some r" by (simp add: tget_tput)
    have "\<not> unfinished r" if "av_descriptor_id r = av_descriptor_id a"
      using unfinished_active(1) [OF ok k', of d] that d act(1) False by auto
    with False prot_okD(2) [OF ok k'] d show ?thesis by (auto simp: activation_ok_def tget_tput released_simps)
  qed
  have descs: "descriptor_ok ?q k r" if k: "tget (p_descriptors ?q) k = Some r" for k r
  proof (cases "k = av_descriptor_id a")
    case True
    with k have "r = released_descriptor aid a oc t d" by (simp add: tget_tput)
    with prot_okD(1) [OF ok d] none show ?thesis by (simp add: descriptor_ok_def released_simps)
  next
    case False
    with k prot_okD(1) [OF ok, of k r] a show ?thesis by (auto simp: descriptor_ok_def tget_tput)
  qed
  have "unique_work ?q"
    using unique_work_move [OF prot_okD(7) [OF ok] a same] by (simp add: unique_work_def)
  with acts descs prot_okD(3-6) [OF ok] show ?thesis
    unfolding prot_ok_def by (auto simp: tget_tput twf_tput)
qed

text \<open>A new activation with its waiting outbox, which its descriptor now points to.\<close>

lemma insert_ok:
  assumes ok: "prot_ok p" and fresh: "tget (p_activations p) aid = None" "find_row (clashes a) (p_activations p) = None"
    and old: "\<And>d0. tget (p_descriptors p) did = Some d0 \<Longrightarrow> de_active_activation_id d0 = None \<and> de_generation d0 \<le> de_generation d \<and>
        (\<forall>r. describes d r = describes d0 r)"
    and d: "de_active_activation_id d = Some aid" "de_state d = DsActive" "1 \<le> de_depth d" "de_depth d \<le> MAX_SUBAGENT_DEPTH"
    and a: "av_descriptor_id a = did" "describes d a" "av_descriptor_generation a = de_generation d" "av_state a = AvAccepted" "unbound a"
  shows "prot_ok \<lparr>p_descriptors = tput did d (p_descriptors p), p_activations = tput aid a (p_activations p),
       p_outboxes = tput aid (waiting_outbox a t) (p_outboxes p)\<rparr>" (is "prot_ok ?q")
proof -
  have acts: "activation_ok ?q k r" if k: "tget (p_activations ?q) k = Some r" for k r
  proof (cases "k = aid")
    case True
    with k have "r = a" by (simp add: tget_tput)
    with True a d show ?thesis
      by (simp add: activation_ok_def tget_tput outbox_ok_def outbox_of_def waiting_outbox_def unfinished_def)
  next
    case False
    with k have k': "tget (p_activations p) k = Some r" by (simp add: tget_tput)
    from prot_okD(2) [OF ok k'] obtain d0 where d0: "tget (p_descriptors p) (av_descriptor_id r) = Some d0"
      by (auto simp: activation_ok_def)
    have "\<not> unfinished r" if "av_descriptor_id r = did"
      using unfinished_active(1) [OF ok k' _ d0] old that d0 by auto
    with False prot_okD(2) [OF ok k'] d0 old show ?thesis by (fastforce simp: activation_ok_def tget_tput)
  qed
  have descs: "descriptor_ok ?q k r" if k: "tget (p_descriptors ?q) k = Some r" for k r
  proof (cases "k = did")
    case True
    with k have "r = d" by (simp add: tget_tput)
    with True a d show ?thesis by (simp add: descriptor_ok_def tget_tput unfinished_def)
  next
    case False
    with k prot_okD(1) [OF ok, of k r] fresh(1) show ?thesis by (fastforce simp: descriptor_ok_def tget_tput)
  qed
  have sym: "clashes x y = clashes y x" for x y by (auto simp: clashes_def)
  have "unique_work ?q"
    using prot_okD(7) [OF ok] find_row_NoneD [OF fresh(2)] sym unfolding unique_work_def by (auto simp: tget_tput)
  with acts descs prot_okD(3-6) [OF ok] show ?thesis
    unfolding prot_ok_def by (auto simp: tget_tput twf_tput)
qed

lemmas move_rows = same_work_def unfinished_def unbound_def bound_run_def

lemma pstep_ok:
  assumes ok: "prot_ok p" and "pstep lib p p'"
  shows "prot_ok p'"
  using assms(2)
proof (cases rule: pstep.cases)
  case (accept did aid a d b t)
  then show ?thesis using insert_ok [OF ok, of aid a did d t] by simp
next
  case (follow_up did d aid a raw d' t b)
  then have "1 \<le> de_depth d \<and> de_depth d \<le> MAX_SUBAGENT_DEPTH"
    using prot_okD(1) [OF ok, of did d] by (simp add: descriptor_ok_def)
  with follow_up show ?thesis using insert_ok [OF ok, of aid a did d' t] by (simp add: describes_def)
next
  case (claim aid a d a' token owner x t)
  with prot_okD(2) [OF ok, of aid a] show ?thesis by (auto intro!: move_ok [OF ok] simp: activation_ok_def move_rows)
next
  case (yield aid a a' t)
  with prot_okD(2) [OF ok, of aid a] show ?thesis by (auto intro!: move_ok [OF ok] simp: activation_ok_def move_rows)
next
  case (bind aid a d a' run g token owner t)
  then show ?thesis by (auto intro!: move_ok [OF ok] simp: move_rows)
next
  case (uncertain aid a a' run g)
  then show ?thesis by (auto intro!: move_ok [OF ok] simp: move_rows)
next
  case (complete aid a d b oc a' t b' r d')
  then show ?thesis using complete_ok [OF ok, where x = "Some t" and t = t] by simp
next
  case (interrupt did d d' t)
  then show ?thesis by (auto intro!: standing_ok [OF ok] simp: same_standing_def)
next
  case (noted did d d' g t)
  then show ?thesis by (auto intro!: standing_ok [OF ok] simp: same_standing_def)
next
  case (deliver aid b b' t)
  then show ?thesis using deliver_ok [OF ok, where x = "Some t" and t = t] by simp
qed

section \<open>How rows evolve\<close>

text \<open>A terminal outbox keeps its outcome and result, and a delivered one does not change at all.\<close>

definition outbox_evolves :: "outbox_row \<Rightarrow> outbox_row \<Rightarrow> bool" where
  "outbox_evolves b b' \<longleftrightarrow> (ob_state b \<noteq> ObWaiting \<longrightarrow> ob_state b' \<noteq> ObWaiting \<and> ob_outcome b' = ob_outcome b \<and>
       ob_result b' = ob_result b \<and> ob_ready_at b' = ob_ready_at b) \<and>
     (ob_state b = ObDelivered \<longrightarrow> b' = b) \<and> ob_parent_part_id b' = ob_parent_part_id b"

text \<open>
  A completed activation does not change, one that is bound stays bound until it is completed, and no change touches
  what acceptance has fixed.
\<close>

definition activation_evolves :: "activation_row \<Rightarrow> activation_row \<Rightarrow> bool" where
  "activation_evolves a a' \<longleftrightarrow> same_work a a' \<and> (av_state a = AvCompleted \<longrightarrow> a' = a) \<and>
     (av_state a = AvBound \<longrightarrow> av_state a' \<in> {AvBound, AvCompleted})"

text \<open>A descriptor keeps its child, its generation grows, and its authority only moves along delegations.\<close>

definition descriptor_evolves :: "subagent_lib \<Rightarrow> descriptor_row \<Rightarrow> descriptor_row \<Rightarrow> bool" where
  "descriptor_evolves lib d d' \<longleftrightarrow> (\<forall>a. describes d' a = describes d a) \<and> de_child_session_id d' = de_child_session_id d \<and> de_depth d' = de_depth d \<and>
     de_generation d \<le> de_generation d' \<and> (delegation lib)\<^sup>*\<^sup>* (de_authority_snapshot d) (de_authority_snapshot d') \<and>
     (de_state d \<noteq> DsActive \<longrightarrow> de_state d' = de_state d \<and> de_generation d' = de_generation d)"

lemma same_work_refl [simp]: "same_work a a"
  by (simp add: same_work_def)

lemma same_work_trans: "same_work a b \<Longrightarrow> same_work b c \<Longrightarrow> same_work a c"
  unfolding same_work_def by (cases a; cases b; cases c; simp)

lemma outbox_step:
  assumes "prot_ok p" and "pstep lib p p'" and "tget (p_outboxes p) k = Some b"
  shows "\<exists>b'. tget (p_outboxes p') k = Some b' \<and> outbox_evolves b b'"
  using assms(2,1,3) by (cases rule: pstep.cases) (auto simp: tget_tput outbox_evolves_def)

text \<open>A step changes at most one activation that was there, one that was not completed.\<close>

lemma activation_change:
  assumes ok: "prot_ok p" and "pstep lib p p'"
  shows "\<exists>aid a'. p_activations p' = tput aid a' (p_activations p) \<and>
      (case tget (p_activations p) aid of None \<Rightarrow> True | Some a \<Rightarrow> same_work a a' \<and> unfinished a \<and>
         (av_state a = AvBound \<longrightarrow> av_state a' \<in> {AvBound, AvCompleted})) \<or> p_activations p' = p_activations p"
  using assms(2)
proof (cases rule: pstep.cases)
  case (complete aid a d b oc a' t b' r d')
  then have "unfinished a" using unfinished_outbox [OF ok] by simp
  with complete show ?thesis by (intro exI [of _ aid] exI [of _ a']) (simp add: same_work_def)
next
  case (claim aid a d a' token owner x t)
  then have "unfinished a \<and> av_state a \<noteq> AvBound" by (auto simp: unfinished_def)
  with claim show ?thesis by (intro exI [of _ aid] exI [of _ a']) (simp add: same_work_def)
next
  case (yield aid a a' t)
  then show ?thesis by (intro exI [of _ aid] exI [of _ a']) (simp add: same_work_def unfinished_def)
next
  case (bind aid a d a' run g token owner t)
  then show ?thesis by (intro exI [of _ aid] exI [of _ a']) (simp add: same_work_def)
next
  case (uncertain aid a a' run g)
  then have "unfinished a" by (auto simp: unfinished_def)
  with uncertain show ?thesis by (intro exI [of _ aid] exI [of _ a']) (simp add: same_work_def)
next
  case (accept did aid a d b t)
  then show ?thesis by (intro exI [of _ aid] exI [of _ a]) simp
next
  case (follow_up did d aid a raw d' t b)
  then show ?thesis by (intro exI [of _ aid] exI [of _ a]) simp
qed simp_all

lemma activation_step:
  assumes "prot_ok p" and "pstep lib p p'" and "tget (p_activations p) k = Some a"
  shows "\<exists>a'. tget (p_activations p') k = Some a' \<and> activation_evolves a a'"
  using activation_change [OF assms(1,2)] assms(3)
  by (auto simp: tget_tput activation_evolves_def unfinished_def)

lemma descriptor_evolves_standing: "same_standing d d' \<Longrightarrow> descriptor_evolves lib d d'"
  by (simp add: descriptor_evolves_def same_standing_fields)

lemma descriptor_evolves_refl [simp]: "descriptor_evolves lib d d"
  by (simp add: descriptor_evolves_def)

lemma descriptor_step:
  assumes ok: "prot_ok p" and "pstep lib p p'" and k: "tget (p_descriptors p) k = Some d"
  shows "\<exists>d'. tget (p_descriptors p') k = Some d' \<and> descriptor_evolves lib d d'"
  using assms(2)
proof (cases rule: pstep.cases)
  case (complete aid a d0 b oc a' t b' r d')
  then have "unfinished a" using unfinished_outbox [OF ok] by simp
  from unfinished_active(3) [OF ok complete(2) this complete(3)] have "descriptor_evolves lib d0 d'"
    by (simp add: complete(10) descriptor_evolves_def released_simps)
  with complete k show ?thesis by (auto simp: tget_tput)
next
  case (follow_up did d0 aid a raw d' t b)
  then have "descriptor_evolves lib d0 d'" by (auto simp: descriptor_evolves_def describes_def)
  with follow_up k show ?thesis by (auto simp: tget_tput)
next
  case (interrupt did d0 d' t)
  then have "descriptor_evolves lib d0 d'" by (auto intro!: descriptor_evolves_standing simp: same_standing_def)
  with interrupt k show ?thesis by (auto simp: tget_tput)
next
  case (noted did d0 d' g t)
  then have "descriptor_evolves lib d0 d'" by (auto intro!: descriptor_evolves_standing simp: same_standing_def)
  with noted k show ?thesis by (auto simp: tget_tput)
qed (use k in \<open>auto simp: tget_tput\<close>)

interpretation outbox_rows: evolving_rows "pstep lib" prot_ok "\<lambda>p. tget (p_outboxes p)" outbox_evolves
  by unfold_locales (auto simp: outbox_evolves_def intro: pstep_ok dest: outbox_step)

interpretation activation_rows: evolving_rows "pstep lib" prot_ok "\<lambda>p. tget (p_activations p)" activation_evolves
  by unfold_locales (auto simp: activation_evolves_def intro: same_work_trans dest: activation_step)

interpretation descriptor_rows: evolving_rows "pstep lib" prot_ok "\<lambda>p. tget (p_descriptors p)" "descriptor_evolves lib"
  by unfold_locales (auto simp: descriptor_evolves_def intro: rtranclp_trans dest: descriptor_step)

section \<open>Interrupts before the start\<close>

text \<open>
  An activation that nobody has claimed, with an interrupt of its generation; or what it may become: completed as
  interrupted, without ever having been bound to a run.
\<close>

definition stopped :: "prot \<Rightarrow> ident \<Rightarrow> bool" where
  "stopped p aid \<longleftrightarrow> (\<exists>a d b. tget (p_activations p) aid = Some a \<and> tget (p_descriptors p) (av_descriptor_id a) = Some d \<and>
     tget (p_outboxes p) aid = Some b \<and> unbound a \<and>
     (av_state a = AvAccepted \<and> interrupted_now a d \<or> av_state a = AvCompleted \<and> ob_outcome b = OutInterrupted))"

lemma stoppedI:
  "tget (p_activations p) aid = Some a \<Longrightarrow> tget (p_descriptors p) (av_descriptor_id a) = Some d \<Longrightarrow> tget (p_outboxes p) aid = Some b \<Longrightarrow>
   unbound a \<Longrightarrow> av_state a = AvAccepted \<and> interrupted_now a d \<or> av_state a = AvCompleted \<and> ob_outcome b = OutInterrupted \<Longrightarrow>
   stopped p aid"
  unfolding stopped_def by blast

lemma stopped_completed:
  assumes ok: "prot_ok p" and "pstep lib p p'" and a: "tget (p_activations p) aid = Some a" "av_state a = AvCompleted" "unbound a"
    and b: "tget (p_outboxes p) aid = Some b" "ob_outcome b = OutInterrupted"
  shows "stopped p' aid"
proof -
  have "\<not> unfinished a" using a(2) by (simp add: unfinished_def)
  then have ready: "ob_state b \<noteq> ObWaiting" using unfinished_outbox [OF ok a(1) b(1)] by simp
  from activation_step [OF assms(1,2) a(1)] a(2) have a': "tget (p_activations p') aid = Some a"
    by (auto simp: activation_evolves_def)
  from outbox_step [OF assms(1,2) b(1)] obtain b' where "tget (p_outboxes p') aid = Some b'" "ob_outcome b' = OutInterrupted"
    using ready b(2) by (auto simp: outbox_evolves_def)
  moreover obtain d where "tget (p_descriptors p') (av_descriptor_id a) = Some d"
    using prot_okD(2) [OF pstep_ok [OF assms(1,2)] a'] by (auto simp: activation_ok_def)
  ultimately show ?thesis using a a' by (auto simp: stopped_def)
qed

lemma stopped_accepted:
  assumes ok: "prot_ok p" and step: "pstep lib p p'" and a: "tget (p_activations p) aid = Some a" "av_state a = AvAccepted" "unbound a"
    and d: "tget (p_descriptors p) (av_descriptor_id a) = Some d" "interrupted_now a d" and b: "tget (p_outboxes p) aid = Some b"
  shows "stopped p' aid"
proof -
  have act: "de_active_activation_id d = Some aid" and gen: "av_descriptor_generation a = de_generation d"
    using unfinished_active [OF ok a(1) _ d(1)] a(2) by (auto simp: unfinished_def)
  from step show ?thesis
  proof (cases rule: pstep.cases)
    case (accept did k r d0 b0 t)
    then show ?thesis using a d b by (auto simp: stopped_def tget_tput)
  next
    case (follow_up did d0 k r raw d' t b0)
    then show ?thesis using a d b act by (auto simp: stopped_def tget_tput)
  next
    case (complete k r d0 b0 oc a' t b' p0 d')
    show ?thesis
    proof (cases "k = aid")
      case True
      with complete a b have "oc = OutInterrupted" "unbound a'" "av_state a' = AvCompleted" "ob_outcome b' = oc"
        "av_descriptor_id a' = av_descriptor_id r" by (auto simp: unbound_def)
      then show ?thesis using complete(1) True by (intro stoppedI [of _ _ a' d' b']) (simp_all add: tget_tput)
    next
      case False
      have "unfinished r" using unfinished_outbox [OF ok complete(2,4)] complete(5) by simp
      then have "av_descriptor_id r \<noteq> av_descriptor_id a"
        using unfinished_active(1) [OF ok complete(2) _ complete(3)] False d(1) complete(3) act by auto
      then show ?thesis using complete(1) False a d b by (intro stoppedI [of _ _ a d b]) (simp_all add: tget_tput)
    qed
  next
    case (interrupt did d0 d' t)
    then show ?thesis using a d b gen by (auto simp: stopped_def tget_tput interrupted_now_def)
  next
    case (noted did d0 d' g t)
    then show ?thesis using a d b by (auto simp: stopped_def tget_tput interrupted_now_def)
  qed (use a d b in \<open>auto simp: stopped_def tget_tput split: if_splits\<close>)
qed

lemma stopped_step: "prot_ok p \<and> stopped p aid \<Longrightarrow> pstep lib p p' \<Longrightarrow> prot_ok p' \<and> stopped p' aid"
  by (auto simp: stopped_def [of p] intro: pstep_ok stopped_accepted stopped_completed)

interpretation stopping: invariant_system "pstep lib" "\<lambda>p. prot_ok p \<and> stopped p aid"
  by unfold_locales (rule stopped_step)

end
