(* ===== verification/Subagent_Refinement.thy ===== *)
theory Subagent_Refinement
  imports Subagent_Protocol
begin

text \<open>
  Every transaction of the subagent runtime is a short sequence of steps of the protocol. \<open>runtime_step\<close>
  interleaves the transactions of any number of workers with each other and with everybody else's writes to the
  tables the protocol does not own (sessions, drivers, messages, parts).
\<close>

section \<open>Frames\<close>

lemma ptables_sel [simp]:
  "p_descriptors (ptables s) = descriptors s" "p_activations (ptables s) = activations s" "p_outboxes (ptables s) = outboxes s"
  by (simp_all add: ptables_def)

lemma ptables_frame [simp]:
  "ptables (s\<lparr>rbase := x1\<rparr>) = ptables s" "ptables (s\<lparr>rparents := x2\<rparr>) = ptables s" "ptables (s\<lparr>rprojects := x3\<rparr>) = ptables s"
  "ptables (s\<lparr>rmessages := x4\<rparr>) = ptables s" "ptables (s\<lparr>rparts := x5\<rparr>) = ptables s" "ptables (s\<lparr>rother := x6\<rparr>) = ptables s"
  by (simp_all add: ptables_def)

lemma ptables_update [simp]:
  "ptables (s\<lparr>descriptors := t1\<rparr>) = (ptables s)\<lparr>p_descriptors := t1\<rparr>"
  "ptables (s\<lparr>activations := t2\<rparr>) = (ptables s)\<lparr>p_activations := t2\<rparr>"
  "ptables (s\<lparr>outboxes := t3\<rparr>) = (ptables s)\<lparr>p_outboxes := t3\<rparr>"
  by (simp_all add: ptables_def)

lemma ptables_eq: "ptables s = ptables s' \<longleftrightarrow> descriptors s = descriptors s' \<and> activations s = activations s' \<and> outboxes s = outboxes s'"
  by (auto simp: ptables_def)

text \<open>What acceptance does outside the protocol's tables.\<close>

lemma insert_row_Inr: "insert_row k r t = Inr t' \<longleftrightarrow> tget t k = None \<and> t' = tput k r t"
  by (auto simp: insert_row_def)

lemma session_frame: "insert_session sid row parent s = Inr s' \<Longrightarrow> ptables s' = ptables s"
  by (auto simp: insert_session_def rbind_Inr_iff)

lemma fork_frame: "copy_fork ops e c s = Inr (t, s') \<Longrightarrow> ptables s' = ptables s"
  by (auto simp: copy_fork_def rbind_Inr_iff split: option.splits if_splits prod.splits)

lemma message_frame: "insert_user_message ops e sid row user text agent c t s = Inr s' \<Longrightarrow> ptables s' = ptables s"
  by (auto simp: insert_user_message_def rbind_Inr_iff split: if_splits)

lemma pointer_frame: "write_pointer ops c part meta s = Inr s' \<Longrightarrow> ptables s' = ptables s"
  by (auto simp: write_pointer_def rbind_Inr_iff)

lemma idle_frame: "idle_child t s did d child user = Inr s' \<Longrightarrow> ptables s' = ptables s"
  by (auto simp: idle_child_def split: if_splits)

section \<open>Acceptance\<close>

lemma lift_authority_Inr [simp]: "lift_authority r = Inr x \<longleftrightarrow> r = Inr x"
  by (cases r) (simp_all add: lift_authority_def)

lemma lineage_depth:
  assumes "prot_ok (ptables s)" and "parent_lineage s session user project = Inr (root, up, depth)"
  shows "1 \<le> depth \<and> depth \<le> MAX_SUBAGENT_DEPTH"
proof (cases "find_row (\<lambda>d. de_child_session_id d = session \<and> de_user_id d = user \<and> de_project_id d = project) (descriptors s)")
  case None
  with assms(2) show ?thesis by (simp add: parent_lineage_def MAX_SUBAGENT_DEPTH_def)
next
  case (Some x)
  then obtain did d where x: "x = (did, d)" by (cases x)
  with Some prot_okD(4) [OF assms(1)] have "tget (descriptors s) did = Some d"
    using find_row_SomeD by fastforce
  then have "1 \<le> de_depth d" using prot_okD(1) [OF assms(1), of did d] by (simp add: descriptor_ok_def)
  with Some x assms(2) show ?thesis by (auto simp: parent_lineage_def split: if_splits)
qed

lemma accepted_simps [simp]:
  "av_descriptor_id (accepted_activation c did project g kind child trigger title t) = did"
  "av_descriptor_generation (accepted_activation c did project g kind child trigger title t) = g"
  "av_state (accepted_activation c did project g kind child trigger title t) = AvAccepted"
  "unbound (accepted_activation c did project g kind child trigger title t)"
  "av_parent_part_id (accepted_activation c did project g kind child trigger title t) = pc_part c"
  by (simp_all add: accepted_activation_def unbound_def)

lemma insert_spawn_step:
  assumes "insert_spawn ops e c project d s = Inr (a, s')" and d: "d = new_descriptor e c project lineage life authority"
    and depth: "1 \<le> snd (snd lineage)" "snd (snd lineage) \<le> MAX_SUBAGENT_DEPTH"
  shows "pstep lib (ptables s) (ptables s')"
proof -
  let ?did = "new_descriptor_id e" and ?aid = "new_activation_id e"
  let ?a = "accepted_activation c ?did project 1 SpawnKind (new_session_id e) (new_message_id e) (take 255 (sp_title c)) (rt_now e)"
  from assms(1) have fresh: "tget (descriptors s) ?did = None" "tget (activations s) ?aid = None" "tget (outboxes s) ?aid = None"
      "find_row (clashes ?a) (activations s) = None"
      "find_row (\<lambda>r. de_child_session_id r = de_child_session_id d) (descriptors s) = None"
    and s': "ptables s' = \<lparr>p_descriptors = tput ?did d (descriptors s), p_activations = tput ?aid ?a (activations s),
        p_outboxes = tput ?aid (waiting_outbox ?a (rt_now e)) (outboxes s)\<rparr>"
    by (auto simp: insert_spawn_def insert_descriptor_def insert_activation_def insert_outbox_def insert_row_Inr rbind_Inr_iff Let_def ptables_def
        simp del: not_None_eq split: if_splits)
  have "describes d ?a" by (simp add: d describes_def new_descriptor_def accepted_activation_def)
  with fresh depth show ?thesis unfolding s'
    by (intro pstep.accept [where p = "ptables s", simplified]) (simp_all add: d new_descriptor_def)
qed

lemma replayed_spawn: "replay_spawn lib c authority aid a s = Inr (r, s') \<Longrightarrow> s' = s \<and> r = ref_of aid a False"
  by (auto simp: replay_spawn_def rbind_Inr_iff split: option.splits if_splits)

lemma spawn_new_cases:
  assumes "spawn_new ops lib e c life authority parent project part s = Inr (r, s')"
  obtains lineage t a s1 s2 s3 s4 o' row where
      "parent_lineage s (pc_session c) (pc_user c) project = Inr lineage"
      "insert_session (new_session_id e) row (pc_session c) s = Inr s1"
      "copy_fork ops e c s1 = Inr (t, s2)"
      "insert_user_message ops e (new_session_id e) row (pc_user c) (sp_prompt c) (sp_type c) (snapshot_composition lib (sp_authority c)) t s2 = Inr s3"
      "insert_spawn ops e c project (new_descriptor e c project lineage life authority) (s3\<lparr>rother := o'\<rparr>) = Inr (a, s4)"
      "write_pointer ops c part (activation_metadata (new_descriptor_id e) (new_activation_id e) (new_session_id e) (sp_type c) 1) s4 = Inr s'"
      "r = ref_of (new_activation_id e) a True"
  using assms unfolding spawn_new_def Let_def by (auto simp: rbind_Inr_iff split: prod.splits)

text \<open>A successful acceptance is a replay, which changes nothing, or brings a new activation into being.\<close>

lemma accept_spawn_cases:
  assumes "accept_spawn ops lib cfg e c s = Inr (r, s')"
  obtains life authority parent project part where
      "lifecycle_of (sp_lifecycle c) = Some life"
      "lift_authority (accept_authority lib cfg (sp_authority c) (sp_type c) (sp_model c) (sp_fork c \<noteq> None)) = Inr authority"
      "locked_parent_tool (rt_db_now e) c s = Inr (parent, project, part)"
      "case find_row (\<lambda>a. av_parent_part_id a = pc_part c) (activations s) of
         Some (aid, a) \<Rightarrow> replay_spawn lib c authority aid a s = Inr (r, s')
       | None \<Rightarrow> spawn_new ops lib e c life authority parent project part s = Inr (r, s')"
  using assms unfolding accept_spawn_def by (auto simp: rbind_Inr_iff split: option.splits if_splits prod.splits)

lemma spawn_new_step:
  assumes ok: "prot_ok (ptables s)" and "spawn_new ops lib e c life authority parent project part s = Inr (r, s')"
  shows "pstep lib (ptables s) (ptables s')"
  using assms(2)
proof (cases rule: spawn_new_cases)
  case (1 lineage t a s1 s2 s3 s4 o' row)
  have "ptables (s3\<lparr>rother := o'\<rparr>) = ptables s"
    using session_frame [OF 1(2)] fork_frame [OF 1(3)] message_frame [OF 1(4)] by simp
  moreover have "1 \<le> snd (snd lineage) \<and> snd (snd lineage) \<le> MAX_SUBAGENT_DEPTH"
    using lineage_depth [OF ok, of "pc_session c" "pc_user c" project] 1(1) by (cases lineage) auto
  then have "pstep lib (ptables (s3\<lparr>rother := o'\<rparr>)) (ptables s4)"
    by (intro insert_spawn_step [OF 1(5) refl]) simp_all
  ultimately show ?thesis using pointer_frame [OF 1(6)] by simp
qed

lemma spawn_refines:
  assumes ok: "prot_ok (ptables s)" and "accept_spawn ops lib cfg e c s = Inr (r, s')"
  shows "(pstep lib)\<^sup>=\<^sup>= (ptables s) (ptables s')"
  using assms(2)
proof (cases rule: accept_spawn_cases)
  case (1 life authority parent project part)
  then show ?thesis
    using replayed_spawn spawn_new_step [OF ok] by (fastforce split: option.splits prod.splits)
qed

lemma replayed_follow_up: "replay_follow_up c aid a s = Inr (r, s') \<Longrightarrow> s' = s \<and> r = ref_of aid a False"
  by (auto simp: replay_follow_up_def split: if_splits)

lemma insert_follow_up_step:
  assumes "insert_follow_up e c d authority s = Inr (a, s')" and d: "tget (descriptors s) (fu_descriptor_id c) = Some d"
    and "de_active_activation_id d = None" "de_state d = DsActive" "de_lifecycle d = Continuable"
    and "de_user_id d = pc_user c" "de_parent_session_id d = pc_session c"
    and "delegation lib (de_authority_snapshot d) authority"
  shows "pstep lib (ptables s) (ptables s')"
proof -
  let ?did = "fu_descriptor_id c" and ?aid = "new_activation_id e"
  let ?a = "accepted_activation c ?did (de_project_id d) (de_generation d + 1) FollowUpKind (de_child_session_id d)
      (new_message_id e) (follow_up_title c ?did) (rt_now e)"
  let ?d = "d\<lparr>de_generation := de_generation d + 1, de_authority_snapshot := authority, de_active_activation_id := Some ?aid,
      de_updated_at := rt_now e, de_interrupt_requested := None, de_interrupt_applied := None\<rparr>"
  from assms(1) have fresh: "tget (activations s) ?aid = None" "tget (outboxes s) ?aid = None" "find_row (clashes ?a) (activations s) = None"
    and s': "ptables s' = \<lparr>p_descriptors = tput ?did ?d (descriptors s), p_activations = tput ?aid ?a (activations s),
        p_outboxes = tput ?aid (waiting_outbox ?a (rt_now e)) (outboxes s)\<rparr>"
    by (auto simp: insert_follow_up_def insert_activation_def insert_outbox_def insert_row_Inr rbind_Inr_iff Let_def ptables_def
        simp del: not_None_eq split: if_splits)
  have "describes d ?a" using assms(6,7) by (simp add: describes_def accepted_activation_def)
  with fresh assms(2-8) show ?thesis unfolding s'
    by (intro pstep.follow_up [where p = "ptables s", simplified]) simp_all
qed

lemma follow_up_cases:
  assumes "accept_follow_up ops lib cfg e c s = Inr (r, s')"
  obtains (replay) parent project part aid a where
      "locked_parent_tool (rt_db_now e) c s = Inr (parent, project, part)"
      "find_row (\<lambda>a. av_parent_part_id a = pc_part c) (activations s) = Some (aid, a)" "replay_follow_up c aid a s = Inr (r, s')"
  | (accepted) parent project part d narrowed where
      "locked_parent_tool (rt_db_now e) c s = Inr (parent, project, part)"
      "find_row (\<lambda>a. av_parent_part_id a = pc_part c) (activations s) = None"
      "tget (descriptors s) (fu_descriptor_id c) = Some d" "de_user_id d = pc_user c" "de_parent_session_id d = pc_session c"
      "de_lifecycle d = Continuable" "de_state d = DsActive" "de_active_activation_id d = None"
      "follow_up_authority lib cfg (de_authority_snapshot d) (fu_authority c) (fu_args c) = Inr narrowed"
      "follow_up_new ops lib e c d narrowed project part s = Inr (r, s')"
proof (cases "find_row (\<lambda>a. av_parent_part_id a = pc_part c) (activations s)")
  case None
  with assms obtain d where d: "tget (descriptors s) (fu_descriptor_id c) = Some d"
    unfolding accept_follow_up_def by (auto simp: rbind_Inr_iff split: option.splits if_splits)
  with None assms show thesis
    unfolding accept_follow_up_def by (auto simp: rbind_Inr_iff split: if_splits intro!: accepted)
next
  case (Some x)
  with assms replay show thesis
    unfolding accept_follow_up_def by (cases x) (auto simp: rbind_Inr_iff split: if_splits)
qed

lemma follow_up_new_cases:
  assumes "follow_up_new ops lib e c d narrowed project part s = Inr (r, s')"
  obtains child authority a s1 s2 s3 where
      "idle_child (rt_now e) s (fu_descriptor_id c) d child (pc_user c) = Inr s1"
      "insert_user_message ops e (de_child_session_id d) child (pc_user c) (fu_prompt c) (de_subagent_type d)
         (sa_composition narrowed) (rt_now e) s1 = Inr s2"
      "authority_to_json lib narrowed = Inr authority" "insert_follow_up e c d authority s2 = Inr (a, s3)"
      "write_pointer ops c part (activation_metadata (fu_descriptor_id c) (new_activation_id e) (de_child_session_id d)
         (de_subagent_type d) (de_generation d + 1)) s3 = Inr s'"
      "r = ref_of (new_activation_id e) a True"
  using assms unfolding follow_up_new_def
  by (auto simp: rbind_Inr_iff split: option.splits prod.splits)

lemma follow_up_refines:
  assumes "accept_follow_up ops lib cfg e c s = Inr (r, s')"
  shows "(pstep lib)\<^sup>=\<^sup>= (ptables s) (ptables s')"
  using assms
proof (cases rule: follow_up_cases)
  case (replay parent project part aid a)
  with replayed_follow_up show ?thesis by fastforce
next
  case (accepted parent project part d narrowed)
  from accepted(10) show ?thesis
  proof (cases rule: follow_up_new_cases)
    case (1 child authority a s1 s2 s3)
    have same: "ptables s2 = ptables s" using idle_frame [OF 1(1)] message_frame [OF 1(2)] by simp
    have "delegation lib (de_authority_snapshot d) authority"
      by (rule delegation.follow_up [OF accepted(9) 1(3)])
    moreover have "tget (descriptors s2) (fu_descriptor_id c) = Some d"
      using same accepted(3) by (simp add: ptables_eq)
    ultimately have "pstep lib (ptables s2) (ptables s3)"
      using accepted by (intro insert_follow_up_step [OF 1(4)]) simp_all
    with same pointer_frame [OF 1(5)] show ?thesis by simp
  qed
qed

section \<open>Claims, binds, completion\<close>

lemma complete_locked_refines:
  assumes "complete_locked ops aid a d oc raw t s = Inr (p, s')"
    and "tget (activations s) aid = Some a" "tget (descriptors s) (av_descriptor_id a) = Some d"
    and "av_state a \<in> {AvAccepted, AvClaimed} \<Longrightarrow> oc = OutInterrupted"
  shows "(pstep lib)\<^sup>=\<^sup>= (ptables s) (ptables s')"
proof -
  from assms(1) obtain b where oc: "oc \<noteq> Waiting" and b: "tget (outboxes s) aid = Some b"
    by (auto simp: complete_locked_def split: if_splits option.splits)
  show ?thesis
  proof (cases "ob_state b")
    case ObWaiting
    with assms(1) oc b obtain o' where s': "s' = s\<lparr>outboxes := tput aid (b\<lparr>ob_state := ObReady, ob_outcome := oc, ob_result := Some p,
          ob_ready_at := Some t, ob_updated_at := t\<rparr>) (outboxes s),
        activations := tput aid (a\<lparr>av_state := AvCompleted, av_completed_at := Some t, av_claim_expires_at := None,
          av_updated_at := t\<rparr>) (activations s),
        descriptors := tput (av_descriptor_id a) (released_descriptor aid a oc t d) (descriptors s), rother := o'\<rparr>"
      by (auto simp: complete_locked_def Let_def rbind_Inr_iff)
    have "pstep lib (ptables s) (ptables s')"
      using pstep.complete [where p = "ptables s" and lib = lib and aid = aid and a = a and d = d and t = t and r = p,
          OF _ _ _ ObWaiting oc assms(4) refl refl refl] assms(2,3) b
      by (simp add: s' ptables_def)
    then show ?thesis by simp
  qed (use assms(1) oc b in \<open>auto simp: complete_locked_def split: option.splits if_splits\<close>)
qed

lemma noted_refines: "tget (descriptors s) did = Some d \<Longrightarrow>
   pstep lib (ptables s) (ptables (s\<lparr>descriptors := tput did (d\<lparr>de_interrupt_applied := Some g, de_updated_at := t\<rparr>) (descriptors s)\<rparr>))"
  using pstep.noted [where p = "ptables s"] by simp

lemma mark_applied_refines: "(pstep lib)\<^sup>=\<^sup>= (ptables s) (ptables (mark_applied did g s))"
proof (cases "tget (descriptors s) did")
  case (Some d)
  then show ?thesis using noted_refines [OF Some, where g = g and t = "de_updated_at d"] by (simp add: mark_applied_def)
qed (simp add: mark_applied_def)

lemma reflclp_trans: "r\<^sup>=\<^sup>= a b \<Longrightarrow> r\<^sup>=\<^sup>= b c \<Longrightarrow> r\<^sup>*\<^sup>* a c"
  by (auto intro: rtranclp.rtrancl_into_rtrancl)

lemma interrupted_refines:
  assumes "complete_interrupted ops aid a d message code t s = Inr s'"
    and "tget (activations s) aid = Some a" "tget (descriptors s) (av_descriptor_id a) = Some d"
  shows "(pstep lib)\<^sup>*\<^sup>* (ptables s) (ptables s')"
proof -
  from assms(1) obtain p s1 raw where "complete_locked ops aid a d OutInterrupted raw t s = Inr (p, s1)"
    and s': "s' = mark_applied (av_descriptor_id a) (av_descriptor_generation a) s1"
    by (auto simp: complete_interrupted_def rbind_Inr_iff)
  from complete_locked_refines [OF this(1) assms(2,3)] mark_applied_refines show ?thesis
    unfolding s' by (blast intro: reflclp_trans)
qed

lemma one_step: "pstep lib (ptables s) (ptables s') \<Longrightarrow> (pstep lib)\<^sup>*\<^sup>* (ptables s) (ptables s')"
  by (rule r_into_rtranclp)

lemma at_most_one: "(pstep lib)\<^sup>=\<^sup>= (ptables s) (ptables s') \<Longrightarrow> (pstep lib)\<^sup>*\<^sup>* (ptables s) (ptables s')"
  by auto

lemma claim_refines:
  assumes "claim_activation ops e aid user owner s = Inr (r, s')"
  shows "(pstep lib)\<^sup>*\<^sup>* (ptables s) (ptables s')"
proof (cases "s' = s")
  case False
  with assms obtain a d where a: "tget (activations s) aid = Some a" and d: "tget (descriptors s) (av_descriptor_id a) = Some d"
    by (auto simp: claim_activation_def split: option.splits if_splits)
  show ?thesis
  proof (cases "interrupted_now a d")
    case True
    with assms False a d show ?thesis
      by (auto simp: claim_activation_def rbind_Inr_iff split: if_splits intro: interrupted_refines)
  next
    case int: False
    from assms False a d int obtain w where st: "av_state a \<in> {AvAccepted, AvClaimed}"
      and s': "s' = s\<lparr>activations := tput aid (a\<lparr>av_state := AvClaimed, av_claim_token := Some (new_token e), av_claim_owner := Some w,
          av_claim_expires_at := Some (rt_db_now e + seconds SUBAGENT_CLAIM_SECONDS), av_updated_at := rt_db_now e\<rparr>) (activations s)\<rparr>"
      by (auto simp: claim_activation_def claimable_def Let_def split: if_splits)
    show ?thesis unfolding s' ptables_update
      using a d st int by (intro r_into_rtranclp pstep.claim [where p = "ptables s", simplified]) auto
  qed
qed simp

lemma bind_claimed_refines:
  assumes "bind_claimed_activation ops e c l s = Inr (r, s')"
  shows "(pstep lib)\<^sup>*\<^sup>* (ptables s) (ptables s')"
proof (cases "s' = s")
  case False
  with assms obtain a d where a: "tget (activations s) (cl_activation_id c) = Some a"
    and d: "tget (descriptors s) (av_descriptor_id a) = Some d" and st: "av_state a = AvClaimed"
    by (auto simp: bind_claimed_activation_def split: option.splits if_splits)
  show ?thesis
  proof (cases "interrupted_now a d")
    case True
    with assms False a d show ?thesis
      by (auto simp: bind_claimed_activation_def rbind_Inr_iff split: if_splits intro: interrupted_refines)
  next
    case int: False
    from assms False a d int have
      s': "s' = s\<lparr>activations := tput (cl_activation_id c) (a\<lparr>av_child_run_id := Some (l_run_id l),
          av_child_generation := Some (l_generation l), av_state := AvBound, av_claim_expires_at := None, av_updated_at := rt_now e\<rparr>)
          (activations s)\<rparr>"
      by (auto simp: bind_claimed_activation_def split: if_splits)
    have "pstep lib (ptables s) (ptables s')"
      using pstep.bind [where p = "ptables s" and token = "av_claim_token a" and owner = "av_claim_owner a", OF _ _ _ int refl] a d st
      by (simp add: s' unfinished_def)
    then show ?thesis ..
  qed
qed simp

lemma bind_recovered_refines:
  assumes ok: "prot_ok (ptables s)" and "bind_recovered_activation e l rec s = Inr (r, s')"
  shows "(pstep lib)\<^sup>*\<^sup>* (ptables s) (ptables s')"
proof (cases "s' = s")
  case False
  with assms(2) obtain aid a where
    f: "find_row (triggered_by (l_session_id l) (l_user_id l) (rec_trigger_message_id rec)) (activations s) = Some (aid, a)"
    by (auto simp: bind_recovered_activation_def split: option.splits)
  then have a: "tget (activations s) aid = Some a" using find_row_SomeD prot_okD(5) [OF ok] by fastforce
  from assms(2) False f obtain d where d: "tget (descriptors s) (av_descriptor_id a) = Some d"
    by (auto simp: bind_recovered_activation_def split: option.splits)
  from assms(2) False f d have st: "av_state a \<notin> {AvCompleted, AvAbandoned}" and int: "\<not> interrupted_now a d"
    and s': "s' = s\<lparr>activations := tput aid (a\<lparr>av_child_run_id := Some (l_run_id l), av_child_generation := Some (l_generation l),
        av_state := AvBound, av_claim_token := Some (new_token e), av_claim_owner := Some (l_owner_id l),
        av_claim_expires_at := None, av_updated_at := rt_now e\<rparr>) (activations s)\<rparr>"
    by (auto simp: bind_recovered_activation_def split: if_splits)
  have "unfinished a" using st by (cases "av_state a") (auto simp: unfinished_def)
  with a d int show ?thesis unfolding s' ptables_update
    by (intro r_into_rtranclp pstep.bind [where p = "ptables s", simplified]) auto
qed simp

lemma interrupt_pending_refines:
  assumes ok: "prot_ok (ptables s)" and "activation_interrupt_pending ops e rec s = Inr (r, s')"
  shows "(pstep lib)\<^sup>*\<^sup>* (ptables s) (ptables s')"
proof (cases "s' = s")
  case False
  with assms(2) obtain aid a d P message code t where f: "find_row P (activations s) = Some (aid, a)"
    and d: "tget (descriptors s) (av_descriptor_id a) = Some d" and c: "complete_interrupted ops aid a d message code t s = Inr s'"
    by (auto simp: activation_interrupt_pending_def rbind_Inr_iff split: option.splits if_splits)
  from f have "tget (activations s) aid = Some a" using find_row_SomeD prot_okD(5) [OF ok] by fastforce
  from interrupted_refines [OF c this d] show ?thesis .
qed simp

lemma abandon_refines: "abandon_claim e c s = (r, s') \<Longrightarrow> (pstep lib)\<^sup>=\<^sup>= (ptables s) (ptables s')"
  using pstep.yield [where p = "ptables s"] by (auto simp: abandon_claim_def split: option.splits if_splits)

lemma complete_activation_refines:
  assumes "complete_activation ops e aid run g oc raw s = Inr (p, s')"
  shows "(pstep lib)\<^sup>=\<^sup>= (ptables s) (ptables s')"
proof (cases "s' = s")
  case False
  with assms obtain a d where "tget (activations s) aid = Some a" "tget (descriptors s) (av_descriptor_id a) = Some d"
      "av_state a = AvBound" "complete_locked ops aid a d oc raw (rt_now e) s = Inr (p, s')"
    by (auto simp: complete_activation_def split: option.splits if_splits)
  then show ?thesis using complete_locked_refines by fastforce
qed simp

section \<open>Interrupts, recovery, delivery\<close>

lemma interrupt_refines:
  assumes "interrupt_txn e did user parent project pointer s = Inr (r, s')"
  shows "(pstep lib)\<^sup>=\<^sup>= (ptables s) (ptables s')"
proof (cases "s' = s")
  case False
  with assms obtain d where d: "tget (descriptors s) did = Some d" "de_active_activation_id d \<noteq> None"
    and s': "s' = s\<lparr>descriptors := tput did (d\<lparr>de_interrupt_requested := Some (de_generation d), de_updated_at := rt_now e\<rparr>) (descriptors s)\<rparr>"
    by (auto simp: interrupt_txn_def Let_def split: option.splits if_splits)
  then show ?thesis using pstep.interrupt [where p = "ptables s"] by simp
qed simp

lemma mark_interrupt_refines: "(pstep lib)\<^sup>=\<^sup>= (ptables s) (ptables (mark_interrupt_applied e did g s))"
  using noted_refines by (auto simp: mark_interrupt_applied_def split: option.splits)

lemma consume_refines:
  assumes "consume_txn ops e did pointer s = Inr (r, s')" and ok: "prot_ok (ptables s)"
  shows "(pstep lib)\<^sup>*\<^sup>* (ptables s) (ptables s')"
proof (cases "s' = s")
  case False
  with assms obtain aid a d where d: "tget (descriptors s) did = Some d" "de_active_activation_id d = Some aid"
    and a: "tget (activations s) aid = Some a"
    and s': "(\<exists>message code t. complete_interrupted ops aid a d message code t s = Inr s') \<or> s' = mark_applied did (de_generation d) s"
    by (auto simp: consume_txn_def rbind_Inr_iff split: option.splits if_splits) blast+
  from prot_okD(1) [OF ok, of did d] d a have "av_descriptor_id a = did" by (auto simp: descriptor_ok_def)
  with s' d(1) show ?thesis using interrupted_refines [OF _ a] at_most_one [OF mark_applied_refines] by blast
qed simp

lemma uncertain_refines:
  assumes "bind_uncertain rec s = (r, s')" and ok: "prot_ok (ptables s)"
  shows "(pstep lib)\<^sup>=\<^sup>= (ptables s) (ptables s')"
proof (cases "s' = s")
  case False
  with assms(1) obtain aid a run P where f: "find_row (\<lambda>a. P a \<and> av_state a \<in> {AvClaimed, AvBound}) (activations s) = Some (aid, a)"
    and g: "av_child_generation a = None" and s': "s' = s\<lparr>activations := tput aid (a\<lparr>av_child_run_id := Some run,
        av_child_generation := Some (rec_generation rec), av_state := AvBound\<rparr>) (activations s)\<rparr>"
    by (auto simp: bind_uncertain_def split: option.splits if_splits)
  from find_row_SomeD [OF f] prot_okD(5) [OF ok] have "tget (activations s) aid = Some a" "av_state a \<in> {AvClaimed, AvBound}" by auto
  with g have "pstep lib (ptables s) (ptables s')"
    unfolding s' ptables_update by (intro pstep.uncertain [where p = "ptables s", simplified]) auto
  then show ?thesis by simp
qed simp

lemma mark_delivered_refines:
  "tget (outboxes s) aid = Some b \<Longrightarrow> ob_state b = ObReady \<Longrightarrow> pstep lib (ptables s) (ptables (mark_delivered aid b t s))"
  using pstep.deliver [where p = "ptables s"] by (simp add: mark_delivered_def)

lemma write_delivery_frame: "write_delivery ops session user fence p pj row s = Inr (data, s') \<Longrightarrow> ptables s' = ptables s"
  by (auto simp: write_delivery_def Let_def rbind_Inr_iff split: prod.splits if_splits)

lemma deliver_one_cases:
  assumes "deliver_one ops e session user run g (aid, b, a, d) s = Inr (Some (data, s'))"
  shows "\<exists>s1. ptables s1 = ptables s \<and> s' = mark_delivered aid b (rt_now e) s1"
  using assms write_delivery_frame
  by (fastforce simp: deliver_one_def rbind_Inr_iff split: option.splits if_splits)

text \<open>The rows that a delivery loop still has ahead of it are ready, and no two of them are for one activation.\<close>

definition awaiting :: "('a, 'o) rt \<Rightarrow> delivery_row list \<Rightarrow> bool" where
  "awaiting s rows \<longleftrightarrow> distinct (map fst rows) \<and> (\<forall>(aid, b, a, d) \<in> set rows. tget (outboxes s) aid = Some b \<and> ob_state b = ObReady)"

lemma awaiting_mark:
  assumes "awaiting s ((aid, b, a, d) # rows)" and "ptables s1 = ptables s"
  shows "pstep lib (ptables s) (ptables (mark_delivered aid b t s1))" and "awaiting (mark_delivered aid b t s1) rows"
proof -
  from assms(1) have b: "tget (outboxes s) aid = Some b" "ob_state b = ObReady" by (auto simp: awaiting_def)
  with mark_delivered_refines [of s1 aid b lib t] assms(2) show "pstep lib (ptables s) (ptables (mark_delivered aid b t s1))"
    by (simp add: ptables_eq)
  show "awaiting (mark_delivered aid b t s1) rows"
    using assms by (force simp: awaiting_def mark_delivered_def tget_tput ptables_eq)
qed

lemma deliver_loop_refines:
  "awaiting s rows \<Longrightarrow> deliver_loop ops e session user run g rows r s = Inr (r', s') \<Longrightarrow> (pstep lib)\<^sup>*\<^sup>* (ptables s) (ptables s')"
proof (induction rows arbitrary: r s)
  case (Cons row rows)
  obtain aid b a d where row: "row = (aid, b, a, d)" by (cases row)
  from Cons.prems(2) obtain step where step: "deliver_one ops e session user run g row s = Inr step"
    by (auto simp: rbind_Inr_iff)
  show ?case
  proof (cases step)
    case None
    have "awaiting s rows" using Cons.prems(1) by (auto simp: awaiting_def)
    with Cons None step show ?thesis by simp
  next
    case (Some x)
    then obtain data s2 where x: "step = Some (data, s2)" by (cases x) auto
    with step row deliver_one_cases obtain s1 where s1: "ptables s1 = ptables s" "s2 = mark_delivered aid b (rt_now e) s1" by metis
    note next_row = awaiting_mark [OF Cons.prems(1) [unfolded row] s1(1)]
    have "(pstep lib)\<^sup>*\<^sup>* (ptables s2) (ptables s')"
      using Cons.prems(2) step x by (intro Cons.IH) (auto simp: s1(2) next_row(2))
    with next_row(1) [of lib "rt_now e"] show ?thesis by (simp add: s1(2) converse_rtranclp_into_rtranclp)
  qed
qed simp

lemma parent_loop_refines:
  "awaiting s rows \<Longrightarrow> parent_loop e rows c s = Inr (c', s') \<Longrightarrow> (pstep lib)\<^sup>*\<^sup>* (ptables s) (ptables s')"
proof (induction rows arbitrary: c s)
  case (Cons row rows)
  obtain aid b a d where row: "row = (aid, b, a, d)" by (cases row)
  have rest: "awaiting s rows" using Cons.prems(1) by (auto simp: awaiting_def)
  note mark = awaiting_mark [OF Cons.prems(1) [unfolded row] refl, where t = "rt_now e"]
  have "(\<exists>c1. parent_loop e rows c1 s = Inr (c', s')) \<or> (\<exists>c1. parent_loop e rows c1 (mark_delivered aid b (rt_now e) s) = Inr (c', s'))"
    using Cons.prems(2) by (auto simp: row rbind_Inr_iff split: if_splits option.splits)
  then show ?case
    using Cons.IH [OF rest] Cons.IH [OF mark(2)] mark(1) [of lib] by (meson converse_rtranclp_into_rtranclp)
qed simp

lemma keyed_concat:
  assumes "\<And>x. f x = [] \<or> (\<exists>r. f x = [(fst x, r)])"
  shows "set (map fst (concat (map f t))) \<subseteq> set (map fst t) \<and> (distinct (map fst t) \<longrightarrow> distinct (map fst (concat (map f t))))"
proof (induction t)
  case (Cons x t)
  with assms [of x] show ?case by (elim disjE exE) auto
qed simp

lemma ready_rows_awaiting:
  assumes "twf (outboxes s)"
  shows "distinct (map fst (ready_rows P s)) \<and> (\<forall>(aid, b, a, d) \<in> set (ready_rows P s). tget (outboxes s) aid = Some b \<and> ob_state b = ObReady \<and> P b \<and>
    tget (activations s) aid = Some a \<and> tget (descriptors s) (ob_descriptor_id b) = Some d)"
proof -
  let ?f = "\<lambda>(aid, b). if ob_state b = ObReady \<and> P b
     then (case (tget (activations s) aid, tget (descriptors s) (ob_descriptor_id b)) of
             (Some a, Some d) \<Rightarrow> [(aid, b, a, d)] | _ \<Rightarrow> []) else []"
  have f: "?f x = [] \<or> ob_state (snd x) = ObReady \<and> P (snd x) \<and> (\<exists>a d. ?f x = [(fst x, snd x, a, d)] \<and>
      tget (activations s) (fst x) = Some a \<and> tget (descriptors s) (ob_descriptor_id (snd x)) = Some d)" for x
    by (cases x; cases "tget (activations s) (fst x)"; cases "tget (descriptors s) (ob_descriptor_id (snd x))") simp_all
  then have "?f x = [] \<or> (\<exists>r. ?f x = [(fst x, r)])" for x by blast
  from keyed_concat [of ?f, OF this] assms have "distinct (map fst (ready_rows P s))"
    unfolding ready_rows_def twf_def by blast
  moreover have "(aid, b) \<in> set (outboxes s) \<and> ob_state b = ObReady \<and> P b \<and>
      tget (activations s) aid = Some a \<and> tget (descriptors s) (ob_descriptor_id b) = Some d" if "(aid, b, a, d) \<in> set (ready_rows P s)" for aid b a d
  proof -
    from that obtain y where y: "y \<in> set (outboxes s)" "(aid, b, a, d) \<in> set (?f y)"
      unfolding ready_rows_def set_concat set_map by blast
    from f [of y] y(2) have "ob_state (snd y) = ObReady \<and> P (snd y) \<and> aid = fst y \<and> b = snd y \<and>
        tget (activations s) (fst y) = Some a \<and> tget (descriptors s) (ob_descriptor_id (snd y)) = Some d"
      by (elim disjE conjE exE) (simp_all only: list.set prod.inject empty_iff insert_iff simp_thms)
    with y(1) show ?thesis by simp
  qed
  ultimately show ?thesis by (auto simp: tget_iff_in [OF assms])
qed

lemma ready_sorted:
  assumes "twf (outboxes s)" and "mset rows = mset (ready_rows P s)"
  shows "awaiting s rows"
proof -
  note r = ready_rows_awaiting [OF assms(1), of P]
  have "set rows = set (ready_rows P s)" using assms(2) by (rule mset_eq_setD)
  moreover have "mset (map fst rows) = mset (map fst (ready_rows P s))" using assms(2) by simp
  then have "distinct (map fst rows)" using r mset_eq_imp_distinct_iff by blast
  ultimately show ?thesis using r unfolding awaiting_def by fastforce
qed

lemma apply_refines:
  assumes ok: "prot_ok (ptables s)" and "apply_ready_subagent_outboxes_locked ops e session user run g s = Inr (r, s')"
  shows "(pstep lib)\<^sup>*\<^sup>* (ptables s) (ptables s')"
proof -
  have "awaiting s (rows_by_activation (ready_rows (\<lambda>b. ob_parent_session_id b = session \<and> ob_user_id b = user) s))"
    by (rule ready_sorted [OF prot_okD(6) [OF ok, simplified]]) (simp add: rows_by_activation_def)
  from deliver_loop_refines [OF this] assms(2) show ?thesis
    by (auto simp: apply_ready_subagent_outboxes_locked_def Let_def split: if_splits)
qed

lemma ready_parents_refines:
  assumes ok: "prot_ok (ptables s)" and "ready_subagent_parent_sessions e s = Inr (r, s')"
  shows "(pstep lib)\<^sup>*\<^sup>* (ptables s) (ptables s')"
proof -
  have "awaiting s (sort_key (\<lambda>(aid, b, a, d). ob_created_at b) (sort_key fst (ready_rows (\<lambda>b. True) s)))"
    by (rule ready_sorted [OF prot_okD(6) [OF ok, simplified]]) simp
  from parent_loop_refines [OF this] assms(2) show ?thesis by (simp add: ready_subagent_parent_sessions_def)
qed

section \<open>The runtime as a transition system\<close>

text \<open>
  One rule per transaction, with any arguments, clocks and fresh identifiers. \<open>elsewhere\<close> is a transaction of another
  component: it leaves the three tables alone and may change everything else.
\<close>

inductive runtime_step :: "'o runtime_ops \<Rightarrow> subagent_lib \<Rightarrow> ('a, 'o) rt \<Rightarrow> ('a, 'o) rt \<Rightarrow> bool" for ops lib where
  spawning: "accept_spawn ops lib cfg e c s = Inr (r, s') \<Longrightarrow> runtime_step ops lib s s'"
| following: "accept_follow_up ops lib cfg e f s = Inr (r, s') \<Longrightarrow> runtime_step ops lib s s'"
| claiming: "claim_activation ops e aid user owner s = Inr (k, s') \<Longrightarrow> runtime_step ops lib s s'"
| abandoning: "abandon_claim e k s = (r, s') \<Longrightarrow> runtime_step ops lib s s'"
| binding: "bind_claimed_activation ops e k l s = Inr (r, s') \<Longrightarrow> runtime_step ops lib s s'"
| rebinding: "bind_recovered_activation e l rec s = Inr (r, s') \<Longrightarrow> runtime_step ops lib s s'"
| probing: "activation_interrupt_pending ops e rec s = Inr (r, s') \<Longrightarrow> runtime_step ops lib s s'"
| completing: "complete_activation ops e aid run g oc raw s = Inr (p, s') \<Longrightarrow> runtime_step ops lib s s'"
| interrupting: "interrupt_txn e did user parent project pointer s = Inr (r, s') \<Longrightarrow> runtime_step ops lib s s'"
| marking: "s' = mark_interrupt_applied e did g s \<Longrightarrow> runtime_step ops lib s s'"
| consuming: "consume_txn ops e did pointer s = Inr (r, s') \<Longrightarrow> runtime_step ops lib s s'"
| tying: "bind_uncertain rec s = (r, s') \<Longrightarrow> runtime_step ops lib s s'"
| applying: "apply_ready_subagent_outboxes_locked ops e session user run g s = Inr (r, s') \<Longrightarrow> runtime_step ops lib s s'"
| scanning: "ready_subagent_parent_sessions e s = Inr (r, s') \<Longrightarrow> runtime_step ops lib s s'"
| elsewhere: "ptables s' = ptables s \<Longrightarrow> runtime_step ops lib s s'"

lemma runtime_step_refines:
  assumes "prot_ok (ptables s)" and "runtime_step ops lib s s'"
  shows "(pstep lib)\<^sup>*\<^sup>* (ptables s) (ptables s')"
  using assms(2)
proof (cases rule: runtime_step.cases)
  case spawning
  then show ?thesis by (rule at_most_one [OF spawn_refines [OF assms(1)]])
next
  case following
  then show ?thesis by (rule at_most_one [OF follow_up_refines])
next
  case claiming
  then show ?thesis by (rule claim_refines)
next
  case abandoning
  then show ?thesis by (rule at_most_one [OF abandon_refines])
next
  case binding
  then show ?thesis by (rule bind_claimed_refines)
next
  case rebinding
  then show ?thesis by (rule bind_recovered_refines [OF assms(1)])
next
  case probing
  then show ?thesis by (rule interrupt_pending_refines [OF assms(1)])
next
  case completing
  then show ?thesis by (rule at_most_one [OF complete_activation_refines])
next
  case interrupting
  then show ?thesis by (rule at_most_one [OF interrupt_refines])
next
  case marking
  then show ?thesis using at_most_one [OF mark_interrupt_refines] by simp
next
  case consuming
  then show ?thesis by (rule consume_refines [OF _ assms(1)])
next
  case tying
  then show ?thesis by (rule at_most_one [OF uncertain_refines [OF _ assms(1)]])
next
  case applying
  then show ?thesis by (rule apply_refines [OF assms(1)])
next
  case scanning
  then show ?thesis by (rule ready_parents_refines [OF assms(1)])
qed simp

lemma runtime_ok: "prot_ok (ptables s) \<Longrightarrow> runtime_step ops lib s s' \<Longrightarrow> prot_ok (ptables s')"
  using runtime_step_refines outbox_rows.inv_steps by blast

lemma runtime_steps_refine:
  assumes "(runtime_step ops lib)\<^sup>*\<^sup>* s s'" and "prot_ok (ptables s)"
  shows "(pstep lib)\<^sup>*\<^sup>* (ptables s) (ptables s') \<and> prot_ok (ptables s')"
  using assms(1)
proof (induction rule: rtranclp_induct)
  case (step t u)
  then show ?case using runtime_step_refines runtime_ok by (blast intro: rtranclp_trans)
qed (simp add: assms(2))

interpretation runtime: invariant_system "runtime_step ops lib" "\<lambda>s. prot_ok (ptables s)"
  by unfold_locales (rule runtime_ok)

end
