(* ===== verification/Subagent_Safety.thy ===== *)
theory Subagent_Safety
  imports Subagent_Refinement
begin

text \<open>
  What the facts about the protocol mean for the operations of the subagent runtime, in every interleaving: what
  later calls return on a terminal outbox, on an interrupted and on a bound activation, that a repeated acceptance
  finds the first one, and what a delivered part looks like.
\<close>

section \<open>Terminal outboxes and bound activations\<close>

lemma outbox_after:
  assumes "(runtime_step ops lib)\<^sup>*\<^sup>* s s'" and "prot_ok (ptables s)" and "tget (outboxes s) aid = Some b"
  obtains b' where "tget (outboxes s') aid = Some b'" and "outbox_evolves b b'"
  using outbox_rows.row_steps [OF conjunct1 [OF runtime_steps_refine [OF assms(1,2)]] assms(2), of aid b] assms(3) by auto

lemma activation_after:
  assumes "(runtime_step ops lib)\<^sup>*\<^sup>* s s'" and "prot_ok (ptables s)" and "tget (activations s) aid = Some a"
  obtains a' where "tget (activations s') aid = Some a'" and "activation_evolves a a'"
  using activation_rows.row_steps [OF conjunct1 [OF runtime_steps_refine [OF assms(1,2)]] assms(2), of aid a] assms(3) by auto

lemma descriptor_after:
  assumes "(runtime_step ops lib)\<^sup>*\<^sup>* s s'" and "prot_ok (ptables s)" and "tget (descriptors s) did = Some d"
  obtains d' where "tget (descriptors s') did = Some d'" and "descriptor_evolves lib d d'"
  using descriptor_rows.row_steps [OF conjunct1 [OF runtime_steps_refine [OF assms(1,2)]] assms(2), of did d] assms(3) by auto

lemma completion_of_terminal:
  assumes ok: "prot_ok (ptables s)" and b: "tget (outboxes s) aid = Some b" "ob_state b \<noteq> ObWaiting"
    and c: "complete_activation ops e aid run g oc raw s = Inr (p, s')"
  shows "oc = ob_outcome b \<and> ob_result b = Some p \<and> s' = s"
proof -
  from c obtain a where a: "tget (activations s) aid = Some a" by (auto simp: complete_activation_def split: option.splits)
  have "\<not> unfinished a" using unfinished_outbox [OF ok, of aid a b] a b by simp
  then have "av_state a \<noteq> AvBound" by (auto simp: unfinished_def)
  with c a b show ?thesis by (auto simp: complete_activation_def split: option.splits if_splits)
qed

lemma no_claim_of_bound:
  assumes "tget (activations s) aid = Some a" and "av_state a \<in> {AvBound, AvCompleted}"
  shows "claim_activation ops e aid user owner s = Inr (k, s') \<Longrightarrow> k = None \<and> s' = s"
    and "cl_activation_id c = aid \<Longrightarrow> bind_claimed_activation ops e c l s = Inr (r, s') \<Longrightarrow> \<not> r \<and> s' = s"
    and "cl_activation_id c = aid \<Longrightarrow> \<not> claim_is_dispatchable e c s"
  using assms
  by (auto simp: claim_activation_def claimable_def bind_claimed_activation_def claim_is_dispatchable_def split: option.splits if_splits)

lemma bound_by_claim:
  assumes "bind_claimed_activation ops e c l s = Inr (True, s')"
  shows "\<exists>a. tget (activations s') (cl_activation_id c) = Some a \<and> av_state a = AvBound \<and>
    av_child_run_id a = Some (l_run_id l) \<and> av_child_generation a = Some (l_generation l)"
  using assms by (auto simp: bind_claimed_activation_def rbind_Inr_iff tget_tput split: option.splits if_splits)

section \<open>Interrupts\<close>

lemma interrupt_stops:
  assumes ok: "prot_ok (ptables s)" and "interrupt_txn e did user parent project (Some aid) s = Inr (Requested g target, s')"
    and a: "tget (activations s) aid = Some a" "av_state a = AvAccepted"
  shows "stopped (ptables s') aid"
proof -
  from assms(2) a obtain d where d: "tget (descriptors s) did = Some d" "de_active_activation_id d = Some aid"
      "av_descriptor_id a = did" "av_descriptor_generation a = de_generation d"
    and s': "s' = s\<lparr>descriptors := tput did (d\<lparr>de_interrupt_requested := Some (de_generation d), de_updated_at := rt_now e\<rparr>) (descriptors s)\<rparr>"
    by (auto simp: interrupt_txn_def Let_def split: option.splits if_splits)
  from prot_okD(2) [OF ok, of aid a] a obtain b where "tget (outboxes s) aid = Some b" "unbound a"
    by (auto simp: activation_ok_def)
  with a d show ?thesis
    unfolding s'
    by (intro stoppedI [where a = a and b = b and d = "d\<lparr>de_interrupt_requested := Some (de_generation d), de_updated_at := rt_now e\<rparr>"]) (simp_all add: tget_tput interrupted_now_def)
qed

lemma stopped_operations:
  assumes "stopped (ptables s) aid"
  shows "claim_activation ops e aid user owner s = Inr (k, s') \<Longrightarrow> k = None"
    and "cl_activation_id c = aid \<Longrightarrow> bind_claimed_activation ops e c l s = Inr (r, s') \<Longrightarrow> \<not> r"
    and "cl_activation_id c = aid \<Longrightarrow> \<not> claim_is_dispatchable e c s"
  using assms
  by (auto simp: stopped_def claim_activation_def claimable_def bind_claimed_activation_def claim_is_dispatchable_def rbind_Inr_iff Let_def
      split: option.splits if_splits)

lemma stopped_after:
  assumes "(runtime_step ops lib)\<^sup>*\<^sup>* s s'" and "prot_ok (ptables s)" and "stopped (ptables s) aid"
  shows "stopped (ptables s') aid"
  using stopping.inv_steps [OF conjunct1 [OF runtime_steps_refine [OF assms(1,2)]]] assms(2,3) by blast

section \<open>Delivered parts\<close>

lemma tget_filter: "tget (filter (\<lambda>(k, v). Q k) t) k = (if Q k then tget t k else None)"
  by (induction t) (auto simp: tget_def)

lemma dget_tput: "dget (tput k v kvs) k' = (if k' = k then v else dget kvs k')"
  by (simp add: dget_def tget_tput)

lemma dict_update_simps [simp]: "dict_update kvs [] = kvs" "dict_update kvs ((k, v) # new) = dict_update (tput k v kvs) new"
  by (simp_all add: dict_update_def)

text \<open>Public projection touches neither the keys that the protocol writes nor those that identify a Task part.\<close>

lemma public_keeps:
  assumes "k \<notin> set PRIVATE_TOOL_PART_FIELDS" and "k \<noteq> ''files''" and "k \<noteq> ''path_encoding''"
  shows "dget (public_part_data ops data) k = dget data k"
  using assms tget_filter [of "\<lambda>k. k \<notin> set PRIVATE_TOOL_PART_FIELDS" data k]
  by (simp add: public_part_data_def Let_def dget_def tget_tput)

lemma public_keys:
  "dget (public_part_data ops data) ''status'' = dget data ''status''" "dget (public_part_data ops data) ''metadata'' = dget data ''metadata''"
  "dget (public_part_data ops data) ''tool'' = dget data ''tool''" "dget (public_part_data ops data) ''output'' = dget data ''output''"
  by (rule public_keeps; simp add: PRIVATE_TOOL_PART_FIELDS_def)+

lemma delivered_part:
  assumes "is_task_part p"
  shows "part_has_exact_outbox_delivery (p\<lparr>pt_data := delivered_data ops p pj (aid, b, a, d)\<rparr>) b' aid a (ob_descriptor_id b) = Inr True"
    and "dget (delivered_data ops p pj (aid, b, a, d)) ''output'' = JStr (pj_output pj)"
    and "dget (delivered_data ops p pj (aid, b, a, d)) ''status'' = JStr (if ob_outcome b = OutSucceeded then ''completed'' else ''error'')"
proof -
  let ?m = "delivered_metadata pj (aid, b, a, d)"
  have data: "dget (delivered_data ops p pj (aid, b, a, d)) ''metadata'' = JDict ?m"
    "dget (delivered_data ops p pj (aid, b, a, d)) ''tool'' = dget (pt_data p) ''tool''"
    by (simp_all add: delivered_data_def Let_def public_keys dget_tput)
  show out: "dget (delivered_data ops p pj (aid, b, a, d)) ''output'' = JStr (pj_output pj)"
    and st: "dget (delivered_data ops p pj (aid, b, a, d)) ''status'' = JStr (if ob_outcome b = OutSucceeded then ''completed'' else ''error'')"
    by (simp_all add: delivered_data_def Let_def public_keys dget_tput)
  have "dget ?m ''task_handoff_id'' = JStr aid" "dget ?m ''task_outbox_completed'' = JBool True"
    by (simp_all add: delivered_metadata_def dget_tput)
  moreover have "is_task_part (p\<lparr>pt_data := delivered_data ops p pj (aid, b, a, d)\<rparr>)"
    using assms by (simp add: is_task_part_def data split: option.splits)
  ultimately show "part_has_exact_outbox_delivery (p\<lparr>pt_data := delivered_data ops p pj (aid, b, a, d)\<rparr>) b' aid a (ob_descriptor_id b) = Inr True"
    by (simp add: part_has_exact_outbox_delivery_def data st dict_or_empty_def exact_pointer_def delivery_marks_def string_in_def hashable_def)
qed

definition delivered_exactly :: "('a, 'o) rt \<Rightarrow> ident \<Rightarrow> bool" where
  "delivered_exactly s aid \<longleftrightarrow> (\<exists>b a p. tget (outboxes s) aid = Some b \<and> ob_state b = ObDelivered \<and> tget (activations s) aid = Some a \<and>
     tget (rparts s) (av_parent_part_id a) = Some p \<and> part_has_exact_outbox_delivery p b aid a (av_descriptor_id a) = Inr True)"

lemma delivery_ignores_state: "ob_outcome b' = ob_outcome b \<Longrightarrow>
   part_has_exact_outbox_delivery p b' aid a did = part_has_exact_outbox_delivery p b aid a did"
  by (simp add: part_has_exact_outbox_delivery_def delivery_marks_def)

lemma delivered_exactlyI:
  "tget (outboxes s) aid = Some b' \<Longrightarrow> ob_state b' = ObDelivered \<Longrightarrow> ob_outcome b' = ob_outcome b \<Longrightarrow> tget (activations s) aid = Some a \<Longrightarrow>
   tget (rparts s) (av_parent_part_id a) = Some p \<Longrightarrow> part_has_exact_outbox_delivery p b aid a (av_descriptor_id a) = Inr True \<Longrightarrow>
   delivered_exactly s aid"
  using delivery_ignores_state [of b' b] unfolding delivered_exactly_def by fastforce

lemma exact_part_get: "exact_tool_part s k m ss u = Some p \<Longrightarrow> tget (rparts s) k = Some p"
  by (auto simp: exact_tool_part_def split: option.splits if_splits)

lemma deliver_one_effect:
  assumes one: "deliver_one ops e session user run g (aid, b, a, d) s = Inr (Some (data, s'))"
    and a: "tget (activations s) aid = Some a" "av_descriptor_id a = ob_descriptor_id b"
  shows "activations s' = activations s" and "k \<noteq> av_parent_part_id a \<Longrightarrow> tget (rparts s') k = tget (rparts s) k"
    and "k \<noteq> aid \<Longrightarrow> tget (outboxes s') k = tget (outboxes s) k" and "delivered_exactly s' aid"
proof -
  from one obtain p already where p: "exact_tool_part s (av_parent_part_id a) (av_parent_message_id a) session user = Some p" "is_task_part p"
    and already: "part_has_exact_outbox_delivery p b aid a (ob_descriptor_id b) = Inr already"
    by (auto simp: deliver_one_def rbind_Inr_iff split: option.splits if_splits)
  have "activations s' = activations s \<and> (k \<noteq> av_parent_part_id a \<longrightarrow> tget (rparts s') k = tget (rparts s) k) \<and>
    (k \<noteq> aid \<longrightarrow> tget (outboxes s') k = tget (outboxes s) k) \<and> delivered_exactly s' aid" for k
  proof (cases already)
    case True
    with one p already have "s' = mark_delivered aid b (rt_now e) s"
      by (auto simp: deliver_one_def rbind_Inr_iff split: option.splits if_splits)
    with a already True exact_part_get [OF p(1)] show ?thesis by (auto simp: mark_delivered_def tget_tput intro: delivered_exactlyI)
  next
    case False
    with one p already obtain pj s1 where w: "write_delivery ops session user (run, g) p pj (aid, b, a, d) s = Inr (the data, s1)"
      and s': "s' = mark_delivered aid b (rt_now e) s1"
      by (auto simp: deliver_one_def rbind_Inr_iff split: option.splits if_splits)
    from w obtain o' where s1: "s1 = s\<lparr>rparts := tput (av_parent_part_id a) (p\<lparr>pt_data := delivered_data ops p pj (aid, b, a, d)\<rparr>) (rparts s), rother := o'\<rparr>"
      by (auto simp: write_delivery_def Let_def rbind_Inr_iff split: if_splits)
    from a delivered_part(1) [OF p(2)] show ?thesis
      by (auto simp: s' s1 mark_delivered_def tget_tput intro!: delivered_exactlyI [of _ _ _ b])
  qed
  then show "activations s' = activations s" and "k \<noteq> av_parent_part_id a \<Longrightarrow> tget (rparts s') k = tget (rparts s) k"
    and "k \<noteq> aid \<Longrightarrow> tget (outboxes s') k = tget (outboxes s) k" and "delivered_exactly s' aid" by blast+
qed

text \<open>Rows of one delivery pass, for different parts.\<close>

definition deliverable :: "('a, 'o) rt \<Rightarrow> delivery_row list \<Rightarrow> bool" where
  "deliverable s rows \<longleftrightarrow> awaiting s rows \<and> distinct (map (\<lambda>(aid, b, a, d). av_parent_part_id a) rows) \<and>
     (\<forall>(aid, b, a, d) \<in> set rows. tget (activations s) aid = Some a \<and> av_descriptor_id a = ob_descriptor_id b)"

lemma deliver_loop_effect:
  "deliverable s rows \<Longrightarrow> deliver_loop ops e session user run g rows r s = Inr (r', s') \<Longrightarrow>
     activations s' = activations s \<and>
     (\<forall>k. k \<notin> (\<lambda>(aid, b, a, d). av_parent_part_id a) ` set rows \<longrightarrow> tget (rparts s') k = tget (rparts s) k) \<and>
     (\<forall>k. k \<notin> fst ` set rows \<longrightarrow> tget (outboxes s') k = tget (outboxes s) k) \<and>
     (\<forall>(aid, b, a, d) \<in> set rows. tget (outboxes s') aid = Some b \<or> delivered_exactly s' aid)"
proof (induction rows arbitrary: r s)
  case (Cons row rows)
  obtain aid b a d where row: "row = (aid, b, a, d)" by (cases row)
  from Cons.prems(2) obtain step where step: "deliver_one ops e session user run g row s = Inr step"
    by (auto simp: rbind_Inr_iff)
  from Cons.prems(1) have ready: "tget (outboxes s) aid = Some b" and act: "tget (activations s) aid = Some a" "av_descriptor_id a = ob_descriptor_id b"
    and fresh: "aid \<notin> fst ` set rows" "av_parent_part_id a \<notin> (\<lambda>(aid, b, a, d). av_parent_part_id a) ` set rows"
    by (auto simp: deliverable_def awaiting_def row)
  show ?case
  proof (cases step)
    case None
    have "deliverable s rows" using Cons.prems(1) by (auto simp: deliverable_def awaiting_def)
    from Cons.IH [OF this, of r] Cons.prems(2) step None fresh ready show ?thesis by (auto simp: row)
  next
    case (Some x)
    then obtain data s2 where x: "step = Some (data, s2)" by (cases x) auto
    note effect = deliver_one_effect [OF step [unfolded row x] act]
    have "tget (outboxes s2) (fst x) = tget (outboxes s) (fst x)" if "x \<in> set rows" for x
      using effect(3) fresh(1) that by (metis image_eqI)
    with Cons.prems(1) have next_rows: "deliverable s2 rows"
      unfolding deliverable_def awaiting_def effect(1) by (simp add: split_beta)
    from Cons.prems(2) step x obtain r2 where "deliver_loop ops e session user run g rows r2 s2 = Inr (r', s')" by auto
    note rest = Cons.IH [OF next_rows this]
    have "delivered_exactly s' aid"
      using effect(1,4) rest fresh act(1) by (auto simp: delivered_exactly_def)
    with rest effect fresh show ?thesis by (auto simp: row)
  qed
qed simp

lemma ready_rows_deliverable:
  assumes ok: "prot_ok (ptables s)"
  shows "deliverable s (rows_by_activation (ready_rows P s))"
proof -
  let ?rows = "rows_by_activation (ready_rows P s)" and ?part = "\<lambda>(aid, b, a, d). av_parent_part_id a"
  have set: "set ?rows = set (ready_rows P s)" by (simp add: rows_by_activation_def)
  note rows = ready_rows_awaiting [of s P, OF prot_okD(6) [OF ok, simplified]]
  have await: "awaiting s ?rows"
    by (rule ready_sorted [OF prot_okD(6) [OF ok, simplified]]) (simp add: rows_by_activation_def)
  have act: "tget (activations s) aid = Some a \<and> av_descriptor_id a = ob_descriptor_id b" if "(aid, b, a, d) \<in> set ?rows" for aid b a d
  proof -
    from that set rows have "tget (outboxes s) aid = Some b" "tget (activations s) aid = Some a" by auto
    with prot_okD(2) [OF ok, of aid a] show ?thesis by (auto simp: activation_ok_def outbox_ok_def outbox_of_def)
  qed
  have "inj_on ?part (set ?rows)"
  proof (rule inj_onI)
    fix x y assume x: "x \<in> set ?rows" "y \<in> set ?rows" "?part x = ?part y"
    obtain aid b a d aid' b' a' d' where xy: "x = (aid, b, a, d)" "y = (aid', b', a', d')" by (cases x; cases y)
    with x act have "tget (activations s) aid = Some a" "tget (activations s) aid' = Some a'" "clashes a a'"
      by (auto simp: clashes_def)
    with prot_okD(7) [OF ok] have "fst x = fst y" unfolding xy unique_work_def by simp
    moreover have "inj_on fst (set ?rows)" using await by (simp add: awaiting_def distinct_map)
    ultimately show "x = y" using x(1,2) by (meson inj_onD)
  qed
  moreover have "distinct ?rows" using await by (simp add: awaiting_def distinct_map)
  ultimately show ?thesis
    using await act by (auto simp: deliverable_def distinct_map)
qed

section \<open>Repeated acceptance\<close>

lemma insert_rows_keep: "insert_rows rows t = Inr t' \<Longrightarrow> tget t k = Some r \<Longrightarrow> tget t' k = Some r"
proof (induction rows t rule: insert_rows.induct)
  case (2 k' r' rows t)
  then obtain t1 where t1: "insert_row k' r' t = Inr t1" "insert_rows rows t1 = Inr t'" by (auto simp: rbind_Inr_iff)
  have "tget t1 k = Some r" using t1(1) 2(3) by (auto simp: insert_row_Inr tget_tput)
  with 2(1) t1 show ?case by simp
qed simp

lemma insert_row_keep: "insert_row k' r' t = Inr t' \<Longrightarrow> tget t k = Some r \<Longrightarrow> tget t' k = Some r"
  by (auto simp: insert_row_Inr tget_tput)

lemma find_row_tput: "tget t k = None \<Longrightarrow> find_row P t = None \<Longrightarrow> P r \<Longrightarrow> find_row P (tput k r t) = Some (k, r)"
  by (induction t) (auto simp: find_row_def tput_def tget_def split: if_splits)

text \<open>What acceptance keeps of the transcript, the drivers, the projects and the sessions.\<close>

definition keeps :: "('a, 'o) rt \<Rightarrow> ('a, 'o) rt \<Rightarrow> bool" where
  "keeps s s' \<longleftrightarrow> drivers (rbase s') = drivers (rbase s) \<and> rprojects s' = rprojects s \<and>
     (\<forall>k r. tget (sessions (rbase s)) k = Some r \<longrightarrow> tget (sessions (rbase s')) k = Some r) \<and>
     (\<forall>k r. tget (rmessages s) k = Some r \<longrightarrow> tget (rmessages s') k = Some r) \<and>
     (\<forall>k r. tget (rparts s) k = Some r \<longrightarrow> tget (rparts s') k = Some r)"

lemma keeps_trans: "keeps s t \<Longrightarrow> keeps t u \<Longrightarrow> keeps s u"
  by (simp add: keeps_def)

lemma keeps_session: "insert_session sid row parent s = Inr s' \<Longrightarrow> keeps s s'"
  by (auto simp: insert_session_def rbind_Inr_iff keeps_def intro: insert_row_keep)

lemma keeps_fork: "copy_fork ops e c s = Inr (t, s') \<Longrightarrow> keeps s s'"
  by (auto simp: copy_fork_def rbind_Inr_iff keeps_def intro: insert_rows_keep split: option.splits if_splits)

lemma keeps_message: "insert_user_message ops e sid row user text agent c t s = Inr s' \<Longrightarrow> keeps s s'"
  by (auto simp: insert_user_message_def rbind_Inr_iff keeps_def intro: insert_row_keep split: if_splits)

lemma keeps_spawn: "insert_spawn ops e c project d s = Inr (a, s') \<Longrightarrow> keeps s s'"
  by (auto simp: insert_spawn_def insert_descriptor_def insert_activation_def insert_outbox_def rbind_Inr_iff keeps_def Let_def
      split: if_splits)

lemma locked_after:
  assumes locked: "locked_parent_tool t c s = Inr (parent, project, part)" and keep: "keeps s s1"
    and ptr: "write_pointer ops c part meta s1 = Inr s2"
    and live: "tget (drivers (rbase s)) (pc_session c) = Some r" "after_now (d_lease_expires_at r) t'"
  shows "\<exists>part'. locked_parent_tool t' c s2 = Inr (parent, project, part')"
proof -
  from locked obtain m where open_s: "open_session (rbase s) (pc_session c) (pc_user c) = Some parent"
    and fence: "fence_row (pc_user c) (pc_run c) (pc_generation c) t r"
    and pr: "live_project s parent = Some project" and m: "owned_message s (pc_message c) (pc_session c) (pc_user c) = Some m"
    and p: "exact_tool_part s (pc_part c) (pc_message c) (pc_session c) (pc_user c) = Some part"
    and role: "ms_role m = ''assistant''" "is_task_part part" and st: "string_in (dget (pt_data part) ''status'') [''pending'', ''running''] = Inr True"
    using live(1) by (auto simp: locked_parent_tool_def rbind_Inr_iff split: option.splits if_splits)
  from ptr obtain metadata p' where p': "p' = part\<lparr>pt_data := public_part_data ops (tput ''metadata'' (JDict (dict_update metadata meta)) (pt_data part))\<rparr>"
    and s2: "rbase s2 = rbase s1" "rprojects s2 = rprojects s1" "rmessages s2 = rmessages s1" "rparts s2 = tput (pc_part c) p' (rparts s1)"
    by (auto simp: write_pointer_def pointed_part_def rbind_Inr_iff)
  have task: "is_task_part p'" using role(2) by (simp add: is_task_part_def p' public_keys dget_tput split: option.splits)
  have status: "string_in (dget (pt_data p') ''status'') [''pending'', ''running''] = Inr True"
    using st by (simp add: p' public_keys dget_tput)
  have part2: "exact_tool_part s2 (pc_part c) (pc_message c) (pc_session c) (pc_user c) = Some p'"
    using p by (auto simp: exact_tool_part_def s2 tget_tput p' split: option.splits if_splits)
  have open2: "open_session (rbase s2) (pc_session c) (pc_user c) = Some parent"
    using open_s keep by (auto simp: s2 open_session_def owned_session_def keeps_def split: option.splits if_splits)
  have m2: "owned_message s2 (pc_message c) (pc_session c) (pc_user c) = Some m"
    using m keep by (auto simp: owned_message_def s2 keeps_def split: option.splits if_splits)
  have pr2: "live_project s2 parent = Some project"
    using pr keep by (auto simp: live_project_def s2 keeps_def split: option.splits if_splits)
  have "fence_row (pc_user c) (pc_run c) (pc_generation c) t' r" using fence live(2) by (simp add: fence_row_def)
  with live(1) keep have d2: "\<exists>r. tget (drivers (rbase s2)) (pc_session c) = Some r \<and> fence_row (pc_user c) (pc_run c) (pc_generation c) t' r"
    by (simp add: s2 keeps_def)
  then show ?thesis using open2 m2 pr2 part2 task status role(1) by (auto simp: locked_parent_tool_def)
qed

lemma py_equal_refl [simp]: "py_equal v v"
  by (simp add: py_equal_def)

lemma loadable_rewrites:
  "accept_authority lib cfg raw kind model forked = Inr authority \<Longrightarrow> parse_subagent_authority lib raw = Inr x \<Longrightarrow> authority_good lib x \<Longrightarrow>
   rbind (parse_subagent_authority lib authority) (authority_to_json lib) = Inr authority"
  using accept_loadable [of lib cfg raw kind model forked authority x]
  by (auto simp: loadable_def accept_authority_def rbind_Inr_iff split: option.splits if_splits)

text \<open>The second call finds the activation the first one has inserted, and nothing that differs.\<close>

lemma spawn_new_replays:
  assumes new: "spawn_new ops lib e c life authority parent project part s = Inr (r, s')"
    and none: "find_row (\<lambda>a. av_parent_part_id a = pc_part c) (activations s) = None"
    and good: "rbind (parse_subagent_authority lib authority) (authority_to_json lib) = Inr authority"
  shows "\<exists>aid a. find_row (\<lambda>a. av_parent_part_id a = pc_part c) (activations s') = Some (aid, a) \<and>
    replay_spawn lib c authority aid a s' = Inr (r\<lparr>rf_created := False\<rparr>, s')"
  using new
proof (cases rule: spawn_new_cases)
  case (1 lineage t a s1 s2 s3 s4 o' row)
  have same: "ptables (s3\<lparr>rother := o'\<rparr>) = ptables s"
    using session_frame [OF 1(2)] fork_frame [OF 1(3)] message_frame [OF 1(4)] by simp
  let ?a = "accepted_activation c (new_descriptor_id e) project 1 SpawnKind (new_session_id e) (new_message_id e) (take 255 (sp_title c)) (rt_now e)"
  let ?d = "new_descriptor e c project lineage life authority"
  from 1(5) have a: "a = ?a" and fresh: "tget (activations s) (new_activation_id e) = None"
    and acts: "activations s4 = tput (new_activation_id e) a (activations s)" and descs: "descriptors s4 = tput (new_descriptor_id e) ?d (descriptors s)"
    using same by (auto simp: insert_spawn_def insert_descriptor_def insert_activation_def insert_outbox_def insert_row_Inr rbind_Inr_iff Let_def
        ptables_eq split: if_splits)
  have "find_row (\<lambda>a. av_parent_part_id a = pc_part c) (activations s') = Some (new_activation_id e, a)"
    using find_row_tput [OF fresh none, of a] pointer_frame [OF 1(6)] by (simp add: acts a ptables_eq)
  moreover have "tget (descriptors s') (av_descriptor_id a) = Some ?d"
    using pointer_frame [OF 1(6)] by (simp add: descs ptables_eq tget_tput a)
  then have "replay_spawn lib c authority (new_activation_id e) a s' = Inr (r\<lparr>rf_created := False\<rparr>, s')"
    using good by (simp add: replay_spawn_def lift_authority_def new_descriptor_def 1(7) ref_of_def a accepted_activation_def)
  ultimately show ?thesis by blast
qed

lemma spawn_new_after:
  assumes "locked_parent_tool t c s = Inr (parent, project, part)" and "spawn_new ops lib e c life authority parent project part s = Inr (r, s')"
    and "tget (drivers (rbase s)) (pc_session c) = Some row" "after_now (d_lease_expires_at row) t'"
  shows "\<exists>part'. locked_parent_tool t' c s' = Inr (parent, project, part')"
  using assms(2)
proof (cases rule: spawn_new_cases)
  case (1 lineage tm a s1 s2 s3 s4 o' child)
  have "keeps s3 (s3\<lparr>rother := o'\<rparr>)" by (simp add: keeps_def)
  then have "keeps s s4"
    using keeps_session [OF 1(2)] keeps_fork [OF 1(3)] keeps_message [OF 1(4)] keeps_spawn [OF 1(5)] by (blast intro: keeps_trans)
  from locked_after [OF assms(1) this 1(6) assms(3,4)] show ?thesis .
qed

section \<open>A child that was deleted\<close>

lemma completion_needs_child:
  assumes "tget (activations s) aid = Some a" and "av_state a = AvBound" and "child_of s a = None"
  shows "\<exists>err. complete_activation_from_transcript ops lib e aid run g forced code s = Inl err"
proof -
  have "\<exists>err. complete_activation ops e aid run g oc raw s = Inl err" for oc raw
    using assms by (simp add: complete_activation_def split: option.splits)
  then show ?thesis
    unfolding complete_activation_from_transcript_def by (cases "result_from_transcript ops lib aid forced code s") (auto simp: split_beta)
qed

text \<open>A candidate is still there, unchanged, after the completion of another one.\<close>

lemma complete_locked_frame:
  "complete_locked ops aid a d oc raw t s = Inr (p, s') \<Longrightarrow>
   rbase s' = rbase s \<and> rparents s' = rparents s \<and> (k \<noteq> aid \<longrightarrow> tget (activations s') k = tget (activations s) k)"
  by (auto simp: complete_locked_def rbind_Inr_iff Let_def tget_tput split: option.splits if_splits)

lemma complete_activation_frame:
  assumes "complete_activation ops e aid run g oc raw s = Inr (p, s')"
  shows "rbase s' = rbase s \<and> rparents s' = rparents s \<and> (k \<noteq> aid \<longrightarrow> tget (activations s') k = tget (activations s) k)"
proof (cases "s' = s")
  case False
  with assms obtain a d where "complete_locked ops aid a d oc raw (rt_now e) s = Inr (p, s')"
    by (auto simp: complete_activation_def split: option.splits if_splits)
  then show ?thesis by (rule complete_locked_frame)
qed simp

lemma complete_other:
  assumes "complete_activation_from_transcript ops lib e k run g forced code s = Inr (p, s')" and "k \<noteq> aid"
  shows "tget (activations s') aid = tget (activations s) aid" and "rbase s' = rbase s" and "rparents s' = rparents s"
  using assms complete_activation_frame [of ops e k run g _ _ s p s' aid]
  by (auto simp: complete_activation_from_transcript_def rbind_Inr_iff)

lemma child_of_frame: "rbase s' = rbase s \<Longrightarrow> rparents s' = rparents s \<Longrightarrow> child_of s' a = child_of s a"
  by (simp add: child_of_def live_child_def cong: option.case_cong)

lemma complete_transcript_ok:
  assumes "prot_ok (ptables s)" and "complete_activation_from_transcript ops lib e k run g forced code s = Inr (p, s')"
  shows "prot_ok (ptables s')"
  using assms runtime_ok [OF assms(1) runtime_step.completing, of ops]
  by (auto simp: complete_activation_from_transcript_def rbind_Inr_iff)

lemma idle_candidates_distinct: "twf (activations s) \<Longrightarrow> distinct (map fst (idle_candidates s))"
  using keyed_concat [where t = "activations s" and f = "\<lambda>(aid, a). case (av_child_run_id a, av_child_generation a, tget (drivers (rbase s)) (av_child_session_id a)) of
       (Some run, Some g, Some r) \<Rightarrow>
         if av_state a = AvBound \<and> d_phase r = Idle \<and> d_generation r = g then [(aid, av_child_session_id a, run, g)] else []
     | _ \<Rightarrow> []"]
  unfolding idle_candidates_def twf_def by (auto split: option.splits)

lemma candidate_listed:
  assumes "tget (activations s) aid = Some a" and "av_state a = AvBound" and "av_child_run_id a = Some run"
    and "av_child_generation a = Some (d_generation r)" and "tget (drivers (rbase s)) (av_child_session_id a) = Some r" and "d_phase r = Idle"
  shows "twf (activations s) \<Longrightarrow> (aid, av_child_session_id a, run, d_generation r) \<in> set (idle_candidates s)"
  using assms tget_in [OF assms(1)] by (force simp: idle_candidates_def)

text \<open>A scan that meets a bound activation without its child raises, and leaves it as it is.\<close>

lemma candidates_stuck:
  "(aid, child, run, g) \<in> set cands \<Longrightarrow> distinct (map fst cands) \<Longrightarrow> child \<notin> reserved \<Longrightarrow> prot_ok (ptables s) \<Longrightarrow>
   tget (activations s) aid = Some a \<Longrightarrow> av_state a = AvBound \<Longrightarrow> child_of s a = None \<Longrightarrow>
   \<exists>s' err. recover_candidates ops lib e reserved cands n s = (s', Inl err) \<and> prot_ok (ptables s') \<and>
     tget (activations s') aid = Some a \<and> rbase s' = rbase s \<and> child_of s' a = None"
proof (induction cands arbitrary: n s)
  case (Cons c cands)
  obtain k child' run' g' where c: "c = (k, child', run', g')" by (cases c)
  show ?case
  proof (cases "k = aid")
    case True
    with Cons.prems(1,2) c have "child' = child" by (auto simp: image_iff)
    with True Cons.prems completion_needs_child [of s aid a ops lib e run' g' None None] show ?thesis by (auto simp: c)
  next
    case False
    show ?thesis
    proof (cases "complete_activation_from_transcript ops lib e k run' g' None None s")
      case (Inl err)
      with Cons False c show ?thesis by auto
    next
      case (Inr x)
      then obtain p s1 where s1: "complete_activation_from_transcript ops lib e k run' g' None None s = Inr (p, s1)" by (cases x) auto
      note other = complete_other [OF s1 False]
      have "\<exists>s' err. recover_candidates ops lib e reserved cands m s1 = (s', Inl err) \<and> prot_ok (ptables s') \<and>
          tget (activations s') aid = Some a \<and> rbase s' = rbase s1 \<and> child_of s' a = None" for m
        using Cons.prems False other complete_transcript_ok [OF Cons.prems(4) s1] child_of_frame [of s1 s a]
        by (intro Cons.IH) (auto simp: c)
      with Cons False s1 other(2) show ?thesis by (auto simp: c)
    qed
  qed
qed simp

end
