(* ===== verification/Subagent_Guarantees.thy ===== *)
theory Subagent_Guarantees
  imports Subagent_Theorems "HOL-Library.Code_Target_Nat"
begin

text \<open>
  The properties of delegated authority, each with a concrete delegation: a step of a parent Agent that
  spawns a child, over a library whose digests are constant and whose rule reader inverts the dump.
\<close>

section \<open>A concrete delegation\<close>

definition read_rule :: "json \<Rightarrow> rule option" where
  "read_rule v = (case v of
       JDict [(a, JStr p), (b, JStr q), (c, JStr act)] \<Rightarrow>
         if a = ''permission'' \<and> b = ''pattern'' \<and> c = ''action'' \<and> act \<in> {''allow'', ''deny'', ''ask''}
         then Some \<lparr>permission = p, rule_pattern = q,
                    rule_action = (if act = ''allow'' then Allow else if act = ''deny'' then Deny else Ask)\<rparr>
         else None
     | _ \<Rightarrow> None)"

definition demo_lib :: subagent_lib where
  "demo_lib = \<lparr>sha256_hex = (\<lambda>s. replicate 64 (CHR ''0'')), urlsplit = (\<lambda>s. None), model_validate = read_rule,
     check_schema = (\<lambda>s. True), schema_accepts = (\<lambda>s v. True), float_of_int = (\<lambda>n. Some (int_text n @ ''.0''))\<rparr>"

definition allow_all :: rule where
  "allow_all = \<lparr>permission = ''*'', rule_pattern = ''*'', rule_action = Allow\<rparr>"

definition deny_edit :: rule where
  "deny_edit = \<lparr>permission = ''edit'', rule_pattern = ''*'', rule_action = Deny\<rparr>"

definition demo_parent :: authority where
  "demo_parent = \<lparr>sa_tool_ids = {''task'', ''read'', ''bash''}, sa_permission_planes = [[allow_all]], sa_guard_planes = [],
     sa_composition = None, sa_snapshot_version = JInt 1\<rparr>"

definition demo_agent :: agent_def where
  "demo_agent = \<lparr>ad_name = ''explore'', ad_tools = [''read'', ''grep''], ad_max_steps = 20, ad_model = None,
     ad_temperature = ''0.0'', ad_prompt = None, ad_mode = ''subagent'', ad_hidden = False,
     ad_permission = [rule_json deny_edit], ad_portable_opt_in = False,
     ad_capabilities = {''model'', ''agent_preset'', ''tool_filter''}\<rparr>"

definition demo_deployment :: deployment where
  "demo_deployment = \<lparr>d_default_model = ''m'', d_model_ids = [''m''],
     d_binding = (\<lambda>m. \<lparr>pb_declaration_consistent = True, pb_readiness = JDict [(''ready'', JBool True)], pb_provider_id = ''p'',
       pb_capabilities = [''model'', ''tool_filter''], pb_variants = [], pb_api_base = None, pb_configured = True\<rparr>)\<rparr>"

definition demo_args :: task_args where
  "demo_args = \<lparr>ta_model = None, ta_reasoning = None, ta_persona = None, ta_tools = None, ta_output_schema = JNull, ta_fork = False\<rparr>"

definition demo_step :: authority where
  "demo_step = \<lparr>sa_tool_ids = {''task'', ''read''}, sa_permission_planes = [[allow_all], [allow_all, deny_edit]],
     sa_guard_planes = [], sa_composition = None, sa_snapshot_version = JInt 1\<rparr>"

definition demo_composition :: composition where
  "demo_composition = \<lparr>sc_model = ''m'', sc_reasoning = None,
     sc_agent_preset = \<lparr>fp_name = ''explore'', fp_mode = ''subagent'', fp_tools = [''read'', ''grep''], fp_max_steps = 20,
       fp_model = None, fp_temperature = ''0.0'', fp_prompt = None, fp_permission = [deny_edit], fp_portable_opt_in = False,
       fp_capabilities = {''model'', ''agent_preset'', ''tool_filter''}\<rparr>,
     sc_persona = [], sc_tool_allowlist = {''read''}, sc_output_schema = JNull,
     sc_provider = \<lparr>pc_provider_id = ''p'', pc_capabilities = {''model'', ''tool_filter''}, pc_variants = {},
       pc_binding_digest = replicate 64 (CHR ''0'')\<rparr>,
     sc_seed_mode = ''fresh'', sc_digest = replicate 64 (CHR ''0'')\<rparr>"

definition demo_child :: authority where
  "demo_child = \<lparr>sa_tool_ids = {''read''}, sa_permission_planes = [[allow_all], [allow_all, deny_edit]],
     sa_guard_planes = [], sa_composition = Some demo_composition, sa_snapshot_version = JInt 2\<rparr>"

lemma demo_dumps: "dumps_revalidate demo_lib"
proof -
  have "read_rule (rule_json r) = Some r" for r
    by (cases r; cases "rule_action r") (simp_all add: read_rule_def rule_json_def action_text_def)
  then show ?thesis by (simp add: dumps_revalidate_def demo_lib_def)
qed

lemma demo_digests: "hex_digests demo_lib"
  by (simp add: hex_digests_def demo_lib_def is_binding_digest_def list_all_iff)

lemma demo_parent_good: "authority_good demo_lib demo_parent"
  using demo_dumps
  by (simp add: authority_good_def authority_ok_def authority_stable_def demo_parent_def name_set_ok_def bounded_def
      planes_ok_def plane_ok_def rule_ok_def allow_all_def version_ok_def hashable_def is_version_def py_equal_def
      MAX_AUTHORITY_TOOLS_def MAX_AUTHORITY_PLANES_def MAX_AUTHORITY_RULES_PER_PLANE_def MAX_AUTHORITY_STRING_def
      LEGACY_AUTHORITY_SNAPSHOT_VERSION_def)

lemma demo_composes:
  "compose_subagent_authority demo_lib [''task'', ''read'', ''write''] [RuleObject allow_all, RuleObject deny_edit] []
     (Some demo_parent) = Inr demo_step"
  by code_simp

lemma demo_step_reads: "parse_subagent_authority demo_lib (snapshot demo_lib demo_step) = Inr demo_step"
  by code_simp

lemma demo_step_writes: "authority_to_json demo_lib demo_step = Inr (snapshot demo_lib demo_step)"
  by code_simp

lemma demo_builds:
  "build_subagent_composition demo_lib demo_deployment demo_agent (sa_tool_ids demo_step) None None None None None JNull ''fresh'' =
     Inr demo_composition"
  by code_simp

lemma demo_upgrades: "with_subagent_composition demo_lib demo_step demo_composition = Inr demo_child"
  by code_simp

lemma demo_child_writes: "authority_to_json demo_lib demo_child = Inr (snapshot demo_lib demo_child)"
  by code_simp

lemma demo_spawns:
  "spawn_authority demo_lib demo_deployment demo_agent None demo_args (snapshot demo_lib demo_step) = Inr (snapshot demo_lib demo_child)"
  using demo_builds
  by (simp add: spawn_authority_def authority_for_spawn_def demo_step_reads demo_step_writes demo_upgrades demo_child_writes
      demo_args_def lift_composition_def) (simp add: demo_step_def)

lemma demo_accepts:
  "accept_authority demo_lib demo_deployment (snapshot demo_lib demo_child) ''explore'' ''m'' False = Inr (snapshot demo_lib demo_child)"
  by code_simp

lemma demo_loads: "parse_subagent_authority demo_lib (snapshot demo_lib demo_child) = Inr demo_child"
  by code_simp

lemma demo_child_good: "authority_good demo_lib demo_child"
  using spawn_loadable [OF demo_spawns demo_dumps] demo_loads by (auto simp: loadable_def)

lemma demo_parent_reads: "parse_subagent_authority demo_lib (snapshot demo_lib demo_parent) = Inr demo_parent"
  using demo_parent_good by (simp add: authority_good_def parse_authority_dump)

definition demo_policies :: policies where
  "demo_policies = \<lparr>config_rules = [allow_all], guard_rules = [], authority_rulesets = [], authority_guard_rulesets = []\<rparr>"

lemma demo_delegates: "delegation demo_lib (snapshot demo_lib demo_parent) (snapshot demo_lib demo_child)"
  by (rule delegation.spawn [OF demo_parent_reads demo_composes demo_step_writes demo_spawns demo_accepts])

section \<open>Delegation\<close>

text \<open>
  C7. Authority only narrows. Along any chain of spawned children and follow-ups, from a stored snapshot to one
  derived from it however many generations later: the descendant's snapshot can be read, its tools are
  among the ancestor's, every rule plane and guard plane of the ancestor is still one of its planes, and
  the permission decision on any call, under any own policies and approvals, is at least as strict (in
  the order granted, prompt, denied) as under the ancestor's boundary.
\<close>

theorem delegation_only_narrows:
  assumes "dumps_revalidate lib" and "(delegation lib)\<^sup>*\<^sup>* raw raw'"
    and "parse_subagent_authority lib raw = Inr a" and "authority_good lib a"
  shows "\<exists>b. parse_subagent_authority lib raw' = Inr b \<and> authority_good lib b \<and> sa_tool_ids b \<subseteq> sa_tool_ids a \<and>
    set (sa_permission_planes a) \<subseteq> set (sa_permission_planes b) \<and> set (sa_guard_planes a) \<subseteq> set (sa_guard_planes b) \<and>
    (\<forall>p u perm patterns. strictness (decide (bound_by a p) u perm patterns False)
       \<le> strictness (decide (bound_by b p) u perm patterns False))"
proof -
  from chain_narrows [OF assms] obtain b where "parse_subagent_authority lib raw' = Inr b" "authority_good lib b" "narrower a b" by blast
  with decide_narrower [of a b] show ?thesis by (auto simp: narrower_def)
qed

text \<open>A parent with three tools spawns a child that keeps one of them and gains a plane that denies edits.\<close>

theorem delegation_only_narrows_witness:
  "sa_tool_ids demo_child \<subseteq> sa_tool_ids demo_parent \<and>
   strictness (decide (bound_by demo_parent demo_policies) [] ''edit'' [''x''] False)
     \<le> strictness (decide (bound_by demo_child demo_policies) [] ''edit'' [''x''] False)"
  using delegation_only_narrows [OF demo_dumps r_into_rtranclp [of "delegation demo_lib", OF demo_delegates]
      demo_parent_reads demo_parent_good] demo_loads by (auto simp del: decide.simps)

section \<open>Snapshots\<close>

text \<open>
  C35. Snapshots round-trip. An authority within its bounds, with a composition whose digest is current and which
  fits its byte budget, can always be written, and reading the written snapshot gives exactly this
  authority: tools, planes in their order, composition, version.
\<close>

theorem authority_snapshot_round_trip:
  assumes "authority_good lib a"
  shows "\<exists>j. authority_to_json lib a = Inr j \<and> parse_subagent_authority lib j = Inr a"
  using assms by (simp add: authority_good_def to_json_total parse_authority_dump)

theorem authority_snapshot_round_trip_witness:
  "\<exists>j. authority_to_json demo_lib demo_child = Inr j \<and> parse_subagent_authority demo_lib j = Inr demo_child"
  by (rule authority_snapshot_round_trip [OF demo_child_good])

text \<open>
  C36. What an accepted child is stored with is well formed. When the Task tool has computed a child's authority
  from the snapshot of its parent's step and \<^verbatim>\<open>accept_spawn\<close> stores it, the stored value reads back as an
  authority with every bound respected that is written as exactly this value; the parent had the Task
  tool; the child's tools are tools of the parent and of its frozen preset, equal the allow list of its
  composition, and contain no build-only workflow tool; and its rule planes are those of the parent's step.
\<close>

theorem stored_authority_is_well_formed:
  assumes "dumps_revalidate lib" and "spawn_authority lib d agent model args snap = Inr j"
    and "accept_authority lib d' j kind child_model forked = Inr raw"
  shows "\<exists>parent a c. parse_subagent_authority lib snap = Inr parent \<and> ''task'' \<in> sa_tool_ids parent \<and>
    parse_subagent_authority lib raw = Inr a \<and> authority_ok lib a \<and> authority_to_json lib a = Inr raw \<and>
    sa_composition a = Some c \<and> sa_tool_ids a = sc_tool_allowlist c \<and>
    sa_tool_ids a \<subseteq> sa_tool_ids parent \<inter> set (fp_tools (sc_agent_preset c)) - set BUILD_ONLY_WORKFLOW_TOOLS \<and>
    sa_permission_planes a = sa_permission_planes parent \<and> sa_guard_planes a = sa_guard_planes parent"
proof -
  from spawn_loadable [OF assms(2,1)] obtain parent a where
    parent: "parse_subagent_authority lib snap = Inr parent" "''task'' \<in> sa_tool_ids parent"
    and a: "loadable lib j a" "narrower parent a" "sa_composition a \<noteq> None" "sa_tool_ids a \<inter> set BUILD_ONLY_WORKFLOW_TOOLS = {}"
      "sa_permission_planes a = sa_permission_planes parent" "sa_guard_planes a = sa_guard_planes parent"
    by blast
  then obtain c where c: "sa_composition a = Some c" by blast
  have ok: "authority_ok lib a" using a(1) by (simp add: loadable_def authority_good_def)
  with c have tools: "composition_ok lib c" "sc_tool_allowlist c = sa_tool_ids a" by (simp_all add: authority_ok_def)
  have "authority_to_json lib a = Inr raw"
    using a(1) assms(3) by (auto simp: loadable_def accept_authority_def rbind_Inr_iff split: option.splits if_splits)
  with accept_loadable [OF assms(3) a(1)] parent a c ok tools show ?thesis
    by (intro exI [of _ parent] exI [of _ a] exI [of _ c]) (auto simp: loadable_def narrower_def composition_ok_def)
qed

theorem stored_authority_is_well_formed_witness:
  "\<exists>parent a c. parse_subagent_authority demo_lib (snapshot demo_lib demo_step) = Inr parent \<and> ''task'' \<in> sa_tool_ids parent \<and>
    parse_subagent_authority demo_lib (snapshot demo_lib demo_child) = Inr a \<and> authority_ok demo_lib a \<and>
    authority_to_json demo_lib a = Inr (snapshot demo_lib demo_child) \<and>
    sa_composition a = Some c \<and> sa_tool_ids a = sc_tool_allowlist c \<and>
    sa_tool_ids a \<subseteq> sa_tool_ids parent \<inter> set (fp_tools (sc_agent_preset c)) - set BUILD_ONLY_WORKFLOW_TOOLS \<and>
    sa_permission_planes a = sa_permission_planes parent \<and> sa_guard_planes a = sa_guard_planes parent"
  by (rule stored_authority_is_well_formed [OF demo_dumps demo_spawns demo_accepts])

section \<open>Follow-ups\<close>

text \<open>
  The abstract boundary: which tools, and which rule planes must all pass. Two boundaries meet in the common
  tools and all planes of both.
\<close>

type_synonym abstract_boundary = "string set \<times> rule list set \<times> rule list set"

definition abs_authority :: "authority \<Rightarrow> abstract_boundary" where
  "abs_authority a = (sa_tool_ids a, set (sa_permission_planes a), set (sa_guard_planes a))"

fun meet :: "abstract_boundary \<Rightarrow> abstract_boundary \<Rightarrow> abstract_boundary" where
  "meet (t, p, g) (t', p', g') = (t \<inter> t', p \<union> p', g \<union> g')"

fun fits :: "abstract_boundary \<Rightarrow> bool" where
  "fits (t, p, g) \<longleftrightarrow> card p \<le> MAX_AUTHORITY_PLANES \<and> card g \<le> MAX_AUTHORITY_PLANES"

lemma intersect_succeeds_iff:
  assumes "dumps_revalidate lib" and "hex_digests lib" and good: "authority_good lib a"
  shows "(\<exists>n. intersect_subagent_authorities lib a b = Inr n) \<longleftrightarrow> fits (meet (abs_authority a) (abs_authority b))"
proof -
  obtain t c v where narrow: "narrowed_tools lib (sa_tool_ids a \<inter> sa_tool_ids b) (sa_composition a) (sa_snapshot_version a) = Inr (t, c, v)"
    using good narrow_total [OF _ _ assms(2)]
    by (cases "sa_composition a")
      (auto simp: narrowed_tools_def authority_good_def authority_ok_def authority_stable_def lift_composition_def)
  have "(\<exists>planes. deduplicated_planes [ps, qs] = Inr planes) \<longleftrightarrow> card (set ps \<union> set qs) \<le> MAX_AUTHORITY_PLANES" for ps qs
    using dedup_planes_length [of "[ps, qs]"] by (simp add: deduplicated_planes_iff)
  moreover have "(\<exists>n. intersect_subagent_authorities lib a b = Inr n) \<longleftrightarrow>
    (\<exists>planes. deduplicated_planes [sa_permission_planes a, sa_permission_planes b] = Inr planes) \<and>
    (\<exists>planes. deduplicated_planes [sa_guard_planes a, sa_guard_planes b] = Inr planes)"
    using narrow by (auto simp: intersect_subagent_authorities_def rbind_Inr_iff)
  ultimately show ?thesis by (simp add: abs_authority_def)
qed

text \<open>
  C34. A follow-up intersects. Narrowing a child by the authority of its delegator refines the meet of the two boundaries: it succeeds
  exactly when the meet has at most sixteen planes of each kind, nothing else can make it fail, and the
  result stands for the meet; the child's composition keeps every field but its tools and digest.
\<close>

theorem follow_up_refines_the_meet:
  assumes "dumps_revalidate lib" and "hex_digests lib" and "authority_good lib a" and "authority_ok lib b"
  shows "((\<exists>n. intersect_subagent_authorities lib a b = Inr n) \<longleftrightarrow> fits (meet (abs_authority a) (abs_authority b))) \<and>
    (\<forall>n. intersect_subagent_authorities lib a b = Inr n \<longrightarrow>
      abs_authority n = meet (abs_authority a) (abs_authority b) \<and> authority_good lib n \<and>
      map_option (\<lambda>c. c\<lparr>sc_tool_allowlist := {}, sc_digest := []\<rparr>) (sa_composition n) =
        map_option (\<lambda>c. c\<lparr>sc_tool_allowlist := {}, sc_digest := []\<rparr>) (sa_composition a))"
proof (intro conjI allI impI)
  show "(\<exists>n. intersect_subagent_authorities lib a b = Inr n) \<longleftrightarrow> fits (meet (abs_authority a) (abs_authority b))"
    by (rule intersect_succeeds_iff [OF assms(1-3)])
next
  fix n
  assume n: "intersect_subagent_authorities lib a b = Inr n"
  have ok: "authority_ok lib a" using assms(3) by (simp add: authority_good_def)
  note spec = intersect_spec [OF n assms(1) ok]
  show "abs_authority n = meet (abs_authority a) (abs_authority b)"
    using spec by (simp add: abs_authority_def)
  show "authority_good lib n"
    by (rule intersect_good [OF n assms(1) ok assms(4)])
  show "map_option (\<lambda>c. c\<lparr>sc_tool_allowlist := {}, sc_digest := []\<rparr>) (sa_composition n) =
      map_option (\<lambda>c. c\<lparr>sc_tool_allowlist := {}, sc_digest := []\<rparr>) (sa_composition a)"
    using spec by (cases "sa_composition a") (simp_all add: retooled_def)
qed

theorem follow_up_refines_the_meet_witness:
  "\<exists>n. intersect_subagent_authorities demo_lib demo_child demo_parent = Inr n \<and>
     abs_authority n = ({''read''}, {[allow_all], [allow_all, deny_edit]}, {})"
proof -
  have ok: "authority_ok demo_lib demo_parent" using demo_parent_good by (simp add: authority_good_def)
  have "meet (abs_authority demo_child) (abs_authority demo_parent) = ({''read''}, {[allow_all], [allow_all, deny_edit]}, {})"
    by (auto simp: abs_authority_def demo_child_def demo_parent_def)
  with follow_up_refines_the_meet [OF demo_dumps demo_digests demo_child_good ok] show ?thesis
    by (auto simp: MAX_AUTHORITY_PLANES_def card_insert_if)
qed

section \<open>Loading\<close>

text \<open>
  A child fails closed. A session with a parent that is not a cron transcript runs only inside an authority: loading returns one
  exactly when there is a descriptor of this child, user and project that names this parent, its snapshot
  is well formed, and a composition it has is still available; it never returns none, and the frozen
  Agent of the composition is bound if and only if loading succeeded with one. Whenever loading raises,
  nothing is bound, so that no Agent of an earlier load remains.
\<close>

lemma child_load_fails_closed:
  assumes "cs_parent_id s \<noteq> []" and "cs_kind s \<noteq> ''cron''"
  shows "(case load_subagent_authority lib d rows s of
      (Inl e, agent) \<Rightarrow> agent = None
    | (Inr None, agent) \<Rightarrow> False
    | (Inr (Some a), agent) \<Rightarrow> authority_ok lib a \<and>
        (\<exists>r \<in> set rows. de_child_session_id r = cs_id s \<and> de_user_id r = cs_user_id s \<and> de_project_id r = cs_project_id s \<and>
           de_parent_session_id r = cs_parent_id s \<and> parse_subagent_authority lib (de_authority_snapshot r) = Inr a) \<and>
        (case sa_composition a of None \<Rightarrow> agent = None
         | Some c \<Rightarrow> validate_composition_availability lib c d = Inr () \<and> agent = Some (frozen_agent c)))"
proof -
  have found: "find P rows = Some r \<Longrightarrow> r \<in> set rows \<and> P r" for P r
    by (auto simp: find_Some_iff)
  show ?thesis
    using assms parse_authority_ok
    by (auto simp: load_subagent_authority_def Let_def split: option.splits sum.splits dest!: found)
qed

definition demo_session :: child_session where
  "demo_session = \<lparr>cs_id = ''c'', cs_parent_id = ''s'', cs_kind = ''normal'', cs_user_id = ''u'', cs_project_id = ''p''\<rparr>"

definition demo_row :: descriptor where
  "demo_row = \<lparr>de_child_session_id = ''c'', de_user_id = ''u'', de_project_id = ''p'', de_parent_session_id = ''s'',
     de_authority_snapshot = snapshot demo_lib demo_parent\<rparr>"

lemma child_load_fails_closed_witness:
  "load_subagent_authority demo_lib demo_deployment [demo_row] demo_session = (Inr (Some demo_parent), None) \<and>
   authority_ok demo_lib demo_parent"
proof -
  have load: "load_subagent_authority demo_lib demo_deployment [demo_row] demo_session = (Inr (Some demo_parent), None)"
    using demo_parent_reads by (simp add: load_subagent_authority_def demo_session_def demo_row_def) (simp add: demo_parent_def)
  with child_load_fails_closed [where s = demo_session and lib = demo_lib and d = demo_deployment and rows = "[demo_row]"] show ?thesis
    by (simp add: demo_session_def)
qed

section \<open>Two edges\<close>

text \<open>
  \<^verbatim>\<open>compose_subagent_authority\<close> does not bound the length of a tool id, so that a step with a longer id has an authority
  that no Task call can use: its snapshot is not readable.
\<close>

lemma overlong_tool_cannot_be_delegated:
  assumes "MAX_AUTHORITY_STRING < length t"
  shows "\<exists>a. compose_subagent_authority lib [t] [RuleObject allow_all] [] None = Inr a \<and>
    (\<forall>b. parse_subagent_authority lib (snapshot lib a) \<noteq> Inr b)"
proof -
  define a where "a = \<lparr>sa_tool_ids = {t}, sa_permission_planes = [[allow_all]], sa_guard_planes = [],
    sa_composition = None, sa_snapshot_version = JInt LEGACY_AUTHORITY_SNAPSHOT_VERSION\<rparr>"
  have "t \<noteq> []" using assms by auto
  then have "compose_subagent_authority lib [t] [RuleObject allow_all] [] None = Inr a"
    by (simp add: compose_subagent_authority_def a_def validated_plane_def validated_rule_object rule_ok_def allow_all_def
        bounded_def inherited_planes_def narrowed_tools_def MAX_AUTHORITY_TOOLS_def MAX_AUTHORITY_PLANES_def
        MAX_AUTHORITY_RULES_PER_PLANE_def MAX_AUTHORITY_STRING_def)
  moreover have "parse_subagent_authority lib (snapshot lib a) \<noteq> Inr b" for b
  proof
    assume parse: "parse_subagent_authority lib (snapshot lib a) = Inr b"
    have "\<not> is_version (JInt 1) 2" by code_simp
    with parse assms show False
      by (auto simp: a_def snapshot_def authority_to_json_def parse_subagent_authority_def Let_def rbind_Inr_iff
          parse_tool_ids_iff names_ok_def bounded_def MAX_AUTHORITY_STRING_def AUTHORITY_SNAPSHOT_VERSION_def
          LEGACY_AUTHORITY_SNAPSHOT_VERSION_def split: if_splits)
  qed
  ultimately show ?thesis by blast
qed

text \<open>A snapshot whose version is a list raises \<^verbatim>\<open>TypeError\<close> instead of \<^verbatim>\<open>SubagentAuthorityError\<close>.\<close>

lemma list_version_raises_type_error:
  "parse_subagent_authority lib (JDict [(''version'', JList []), (''tool_ids'', t), (''permission_planes'', p), (''guard_planes'', g)])
     = Inl UnhashableVersion"
  by (auto simp: parse_subagent_authority_def is_version_def py_equal_def authority_keys_def hashable_def)

end
