(* ===== verification/Subagent_Examples.thy ===== *)
theory Subagent_Examples
  imports Subagent_Safety Subagent_Guarantees
begin

text \<open>
  A concrete history of the subagent runtime, used by the witnesses: a parent's tool call spawns a child, which is
  interrupted before it starts, completed and delivered; and, on another branch, claimed and bound, after which its
  session is deleted.
\<close>

definition demo_ops :: "unit runtime_ops" where
  "demo_ops = \<lparr>truncate_output = (\<lambda>s. (s, False)), py_str = (\<lambda>v. []), literal_files = (\<lambda>v. v), surface_seed = (\<lambda>o' k. Inr o'),
     part_event = (\<lambda>o' a b c d f. Inr o'), user_message_hook = (\<lambda>o' a b c d. Inr o'),
     clone_prefix = (\<lambda>o' p c f t. Inr ([], [], o', t)), spawn_trace = (\<lambda>o' a b c. Inr o'),
     finish_trace = (\<lambda>o' k a oc t. Inr o')\<rparr>"

definition demo_renv :: renv where
  "demo_renv = \<lparr>rt_db_now = 10, rt_now = 11, rt_monotonic = 12, new_session_id = ''c'', new_descriptor_id = ''d'',
     new_activation_id = ''a'', new_message_id = ''n'', new_part_id = ''x'', new_token = ''k'', rt_worker = ''w''\<rparr>"

definition driver_of :: "phase \<Rightarrow> ident option \<Rightarrow> int \<Rightarrow> ident option \<Rightarrow> time option \<Rightarrow> driver_row" where
  "driver_of p run g trigger expiry = \<lparr>d_user_id = ''u'', d_generation = g, d_run_id = run, d_owner_id = map_option (\<lambda>_. ''w'') run,
     d_phase = p, d_trigger_message_id = trigger, d_lease_expires_at = expiry, d_abort_requested_at = None, d_started_at = None,
     d_updated_at = 0\<rparr>"

definition demo_start :: "(unit, unit) rt" where
  "demo_start = \<lparr>
     rbase = \<lparr>sessions = [(''p'', new_session_row ''u'' ''j'' ''w'' 0)],
       drivers = [(''p'', driver_of Running (Some ''r'') 1 None (Some 100))], assistant = ()\<rparr>,
     rparents = [], rprojects = [(''j'', \<lparr>pr_workspace_id = ''w'', pr_is_deleted = False\<rparr>)],
     rmessages = [(''m'', \<lparr>ms_session = ''p'', ms_user = ''u'', ms_role = ''assistant'', ms_parent = None, ms_finish = None,
       ms_error = None, ms_structured = JNull, ms_agent = ''build'', ms_model = None, ms_variant = None, ms_format = JNull,
       ms_created = 1\<rparr>)],
     rparts = [(''t'', \<lparr>pt_message = ''m'', pt_session = ''p'', pt_user = ''u'', pt_type = ''tool'',
       pt_canonical_tool_id = Some ''task'', pt_data = [(''status'', JStr ''running'')], pt_created = 1\<rparr>)],
     descriptors = [], activations = [], outboxes = [], rother = ()\<rparr>"

definition demo_call :: spawn_call where
  "demo_call = \<lparr>pc_user = ''u'', pc_session = ''p'', pc_message = ''m'', pc_part = ''t'', pc_run = ''r'', pc_generation = 1,
     sp_title = ''look'', sp_prompt = ''look around'', sp_type = ''explore'', sp_model = ''m'', sp_lifecycle = ''continuable'',
     sp_authority = snapshot demo_lib demo_parent, sp_fork = None\<rparr>"

definition result_state :: "'e + 'r \<times> ('a, 'o) rt \<Rightarrow> ('a, 'o) rt \<Rightarrow> ('a, 'o) rt" where
  "result_state r s = (case r of Inl _ \<Rightarrow> s | Inr (x, s') \<Rightarrow> s')"

definition returned :: "'e + 'r \<times> 's \<Rightarrow> ('r \<Rightarrow> bool) \<Rightarrow> bool" where
  "returned r P = (case r of Inl _ \<Rightarrow> False | Inr (x, s) \<Rightarrow> P x)"

lemma returnedD: "returned r P \<Longrightarrow> \<exists>x. r = Inr (x, result_state r s) \<and> P x"
  by (auto simp: returned_def result_state_def split: sum.splits)

definition row_is :: "('k, 'r) table \<Rightarrow> 'k \<Rightarrow> ('r \<Rightarrow> bool) \<Rightarrow> bool" where
  "row_is t k P = (case tget t k of None \<Rightarrow> False | Some r \<Rightarrow> P r)"

lemma row_isD: "row_is t k P \<Longrightarrow> \<exists>r. tget t k = Some r \<and> P r"
  by (auto simp: row_is_def split: option.splits)

section \<open>Spawned, interrupted, delivered\<close>

definition demo_spawned :: "(unit, unit) rt" where
  "demo_spawned = result_state (accept_spawn demo_ops demo_lib demo_deployment demo_renv demo_call demo_start) demo_start"

definition demo_interrupted :: "(unit, unit) rt" where
  "demo_interrupted = result_state (interrupt_txn demo_renv ''d'' ''u'' ''p'' ''j'' (Some ''a'') demo_spawned) demo_spawned"

definition demo_completed :: "(unit, unit) rt" where
  "demo_completed = result_state (claim_activation demo_ops demo_renv ''a'' None None demo_interrupted) demo_interrupted"

definition demo_delivered :: "(unit, unit) rt" where
  "demo_delivered = result_state (apply_ready_subagent_outboxes_locked demo_ops demo_renv ''p'' ''u'' ''q'' 2 demo_completed) demo_completed"

lemma demo_start_ok: "prot_ok (ptables demo_start)"
  by (simp add: demo_start_def ptables_def prot_ok_def unique_work_def)

lemma demo_spawns_child:
  "\<exists>r. accept_spawn demo_ops demo_lib demo_deployment demo_renv demo_call demo_start = Inr (r, demo_spawned)"
proof -
  have "returned (accept_spawn demo_ops demo_lib demo_deployment demo_renv demo_call demo_start) (\<lambda>r. True)" by code_simp
  from returnedD [OF this, of demo_start] show ?thesis by (simp add: demo_spawned_def)
qed

lemma demo_interrupts:
  "\<exists>target. interrupt_txn demo_renv ''d'' ''u'' ''p'' ''j'' (Some ''a'') demo_spawned = Inr (Requested 1 target, demo_interrupted)"
proof -
  have "returned (interrupt_txn demo_renv ''d'' ''u'' ''p'' ''j'' (Some ''a'') demo_spawned) (\<lambda>r. r = Requested 1 None)" by code_simp
  from returnedD [OF this, of demo_spawned] show ?thesis by (auto simp: demo_interrupted_def)
qed

lemma demo_completes: "\<exists>k. claim_activation demo_ops demo_renv ''a'' None None demo_interrupted = Inr (k, demo_completed)"
proof -
  have "returned (claim_activation demo_ops demo_renv ''a'' None None demo_interrupted) (\<lambda>k. k = None)" by code_simp
  from returnedD [OF this, of demo_interrupted] show ?thesis by (auto simp: demo_completed_def)
qed

lemma demo_delivers:
  "\<exists>r. apply_ready_subagent_outboxes_locked demo_ops demo_renv ''p'' ''u'' ''q'' 2 demo_completed = Inr (r, demo_delivered)"
proof -
  have "returned (apply_ready_subagent_outboxes_locked demo_ops demo_renv ''p'' ''u'' ''q'' 2 demo_completed) (\<lambda>r. ap_rejoined r = 1)" by code_simp
  from returnedD [OF this, of demo_completed] show ?thesis by (auto simp: demo_delivered_def)
qed

lemma demo_run:
  "runtime_step demo_ops demo_lib demo_start demo_spawned" "runtime_step demo_ops demo_lib demo_spawned demo_interrupted"
  "runtime_step demo_ops demo_lib demo_interrupted demo_completed" "runtime_step demo_ops demo_lib demo_completed demo_delivered"
  using demo_spawns_child demo_interrupts demo_completes demo_delivers
  by (auto intro: runtime_step.spawning runtime_step.interrupting runtime_step.claiming runtime_step.applying)

lemma demo_oks:
  "prot_ok (ptables demo_spawned)" "prot_ok (ptables demo_interrupted)" "prot_ok (ptables demo_completed)"
  using demo_start_ok demo_run runtime_ok by blast+

section \<open>Claimed, bound, deleted\<close>

definition demo_claim :: activation_claim where
  "demo_claim = \<lparr>cl_activation_id = ''a'', cl_descriptor_id = ''d'', cl_descriptor_generation = 1, cl_user_id = ''u'',
     cl_child_session_id = ''c'', cl_child_trigger_message_id = ''n'', cl_token = ''k'', cl_owner = ''w'',
     cl_local_deadline = 12 + seconds SUBAGENT_CLAIM_SECONDS\<rparr>"

definition demo_lease :: lease where
  "demo_lease = \<lparr>l_session_id = ''c'', l_user_id = ''u'', l_run_id = ''s'', l_generation = 1, l_owner_id = ''w'', l_abort = 0,
     l_monitor = False, l_closed = False, l_lost = False, l_transport_revoked = False, l_lease_expires_at = None\<rparr>"

definition demo_claimed :: "(unit, unit) rt" where
  "demo_claimed = result_state (claim_activation demo_ops demo_renv ''a'' None None demo_spawned) demo_spawned"

definition with_driver :: "driver_row \<Rightarrow> ('a, 'o) rt \<Rightarrow> ('a, 'o) rt" where
  "with_driver r s = s\<lparr>rbase := (rbase s)\<lparr>drivers := tput ''c'' r (drivers (rbase s))\<rparr>\<rparr>"

definition demo_reserved :: "(unit, unit) rt" where
  "demo_reserved = with_driver (driver_of Reserved (Some ''s'') 1 (Some ''n'') (Some 100)) demo_claimed"

definition demo_bound :: "(unit, unit) rt" where
  "demo_bound = result_state (bind_claimed_activation demo_ops demo_renv demo_claim demo_lease demo_reserved) demo_reserved"

definition demo_deleted :: "(unit, unit) rt" where
  "demo_deleted = (with_driver (driver_of Idle None 1 None None) demo_bound)\<lparr>rbase :=
     (rbase (with_driver (driver_of Idle None 1 None None) demo_bound))\<lparr>sessions :=
       tput ''c'' ((new_session_row ''u'' ''j'' ''w'' 11)\<lparr>s_is_deleted := True\<rparr>) (sessions (rbase demo_bound))\<rparr>\<rparr>"

lemma demo_claims: "\<exists>k. claim_activation demo_ops demo_renv ''a'' None None demo_spawned = Inr (k, demo_claimed)"
proof -
  have "returned (claim_activation demo_ops demo_renv ''a'' None None demo_spawned) (\<lambda>k. k = Some demo_claim)" by code_simp
  from returnedD [OF this, of demo_spawned] show ?thesis by (auto simp: demo_claimed_def)
qed

lemma demo_binds: "bind_claimed_activation demo_ops demo_renv demo_claim demo_lease demo_reserved = Inr (True, demo_bound)"
proof -
  have "returned (bind_claimed_activation demo_ops demo_renv demo_claim demo_lease demo_reserved) (\<lambda>r. r)" by code_simp
  from returnedD [OF this, of demo_reserved] show ?thesis by (auto simp: demo_bound_def)
qed

lemma demo_reserved_ok: "prot_ok (ptables demo_reserved)"
proof -
  have "prot_ok (ptables demo_claimed)" using demo_claims runtime_ok [OF demo_oks(1) runtime_step.claiming, of demo_ops] by blast
  then show ?thesis by (simp add: demo_reserved_def with_driver_def)
qed

lemma demo_bound_ok: "prot_ok (ptables demo_bound)"
  by (rule runtime_ok [OF demo_reserved_ok runtime_step.binding [OF demo_binds]])

lemma demo_deleted_ok: "prot_ok (ptables demo_deleted)"
  using demo_bound_ok by (simp add: demo_deleted_def with_driver_def)

end
