(* ===== verification/Subagent_Properties.thy ===== *)
theory Subagent_Properties
  imports Subagent_Examples
begin

text \<open>
  The properties of the subagent runtime, each for every interleaving of its transactions by any workers with any
  writes of other components to sessions, drivers, messages and parts; with their witnesses.
\<close>

section \<open>The protocol\<close>



text \<open>
  C9. One unfinished activation per subagent. In every state reached from a database without subagents, an activation
  that is accepted, claimed or bound is the one its descriptor points to and has the descriptor's generation, the
  descriptor is active, and the activation's outbox is waiting without a result; two unfinished activations
  of one descriptor are the same; an activation that is finished has a terminal outbox with a result; and no
  subagent is nested deeper than three.
\<close>

theorem one_unfinished_activation:
  assumes "(runtime_step ops lib)\<^sup>*\<^sup>* s s'" and "descriptors s = [] \<and> activations s = [] \<and> outboxes s = []"
    and "tget (activations s') aid = Some a"
  shows "\<exists>d b. tget (descriptors s') (av_descriptor_id a) = Some d \<and> tget (outboxes s') aid = Some b \<and> 1 \<le> de_depth d \<and> de_depth d \<le> 3 \<and>
    (if unfinished a
     then de_active_activation_id d = Some aid \<and> de_generation d = av_descriptor_generation a \<and> de_state d = DsActive \<and>
       ob_state b = ObWaiting \<and> ob_result b = None \<and>
       (\<forall>aid' a'. tget (activations s') aid' = Some a' \<and> unfinished a' \<and> av_descriptor_id a' = av_descriptor_id a \<longrightarrow> aid' = aid)
     else av_state a = AvCompleted \<and> ob_state b \<noteq> ObWaiting \<and> ob_outcome b \<noteq> Waiting \<and> ob_result b \<noteq> None)"
proof -
  have "prot_ok (ptables s)" using assms(2) by (simp add: prot_ok_def unique_work_def)
  with assms(1) have ok: "prot_ok (ptables s')" by (rule runtime.inv_steps)
  from prot_okD(2) [OF ok, of aid a] assms(3) obtain d b where d: "tget (descriptors s') (av_descriptor_id a) = Some d"
    and b: "tget (outboxes s') aid = Some b" "outbox_ok a b" and st: "av_state a \<noteq> AvAbandoned"
    by (auto simp: activation_ok_def)
  have depth: "1 \<le> de_depth d \<and> de_depth d \<le> 3"
    using prot_okD(1) [OF ok, of "av_descriptor_id a" d] d by (simp add: descriptor_ok_def MAX_SUBAGENT_DEPTH_def)
  have "\<not> unfinished a \<Longrightarrow> av_state a = AvCompleted" using st by (cases "av_state a") (simp_all add: unfinished_def)
  moreover have "de_active_activation_id d = Some aid' \<and> de_generation d = av_descriptor_generation a' \<and> de_state d = DsActive"
    if "tget (activations s') aid' = Some a'" "unfinished a'" "av_descriptor_id a' = av_descriptor_id a" for aid' a'
    using unfinished_active [OF ok, of aid' a' d] that d by simp
  then have "unfinished a \<Longrightarrow> de_active_activation_id d = Some aid \<and> de_generation d = av_descriptor_generation a \<and> de_state d = DsActive \<and>
      (\<forall>aid' a'. tget (activations s') aid' = Some a' \<and> unfinished a' \<and> av_descriptor_id a' = av_descriptor_id a \<longrightarrow> aid' = aid)"
    using assms(3) by (metis option.inject)
  ultimately show ?thesis
    using depth d b by (intro exI [of _ d] exI [of _ b]) (cases "unfinished a"; auto simp: outbox_ok_def)
qed

lemma demo_spawned_row: "\<exists>a. tget (activations demo_spawned) ''a'' = Some a \<and> av_state a = AvAccepted \<and> av_descriptor_id a = ''d''"
proof -
  have "row_is (activations demo_spawned) ''a'' (\<lambda>a. av_state a = AvAccepted \<and> av_descriptor_id a = ''d'')" by code_simp
  then show ?thesis by (rule row_isD)
qed

theorem one_unfinished_activation_witness:
  "\<exists>d b. tget (descriptors demo_spawned) ''d'' = Some d \<and> tget (outboxes demo_spawned) ''a'' = Some b \<and>
     de_active_activation_id d = Some ''a'' \<and> ob_state b = ObWaiting \<and> de_depth d \<le> 3"
proof -
  from demo_spawned_row obtain a where a: "tget (activations demo_spawned) ''a'' = Some a" "av_state a = AvAccepted" "av_descriptor_id a = ''d''" by blast
  have none: "descriptors demo_start = [] \<and> activations demo_start = [] \<and> outboxes demo_start = []" by (simp add: demo_start_def)
  show ?thesis
    using one_unfinished_activation [OF r_into_rtranclp [of "runtime_step demo_ops demo_lib", OF demo_run(1)] none a(1)] a(2,3)
    by (auto simp: unfinished_def)
qed

section \<open>Finality\<close>


lemma demo_completed_row: "\<exists>b. tget (outboxes demo_completed) ''a'' = Some b \<and> ob_state b = ObReady \<and> ob_outcome b = OutInterrupted"
proof -
  have "row_is (outboxes demo_completed) ''a'' (\<lambda>b. ob_state b = ObReady \<and> ob_outcome b = OutInterrupted)" by code_simp
  then show ?thesis by (rule row_isD)
qed


text \<open>
  C11. A claim wins at most once. When a dispatcher has bound its claim to a run of the child, no later call claims this
  activation again, finds any claim on it dispatchable, or binds one: the child is woken for it by no other
  dispatcher, ever.
\<close>

theorem claim_wins_once:
  assumes "bind_claimed_activation ops e c l s = Inr (True, s1)" and "prot_ok (ptables s)" and "(runtime_step ops lib)\<^sup>*\<^sup>* s1 s'"
  shows "\<exists>a. tget (activations s') (cl_activation_id c) = Some a \<and> av_state a \<in> {AvBound, AvCompleted} \<and>
    (\<forall>e user owner k s2. claim_activation ops e (cl_activation_id c) user owner s' = Inr (k, s2) \<longrightarrow> k = None) \<and>
    (\<forall>e c' l r s2. cl_activation_id c' = cl_activation_id c \<longrightarrow>
       \<not> claim_is_dispatchable e c' s' \<and> (bind_claimed_activation ops e c' l s' = Inr (r, s2) \<longrightarrow> \<not> r))"
proof -
  from bound_by_claim [OF assms(1)] obtain a where a: "tget (activations s1) (cl_activation_id c) = Some a" "av_state a = AvBound" by blast
  have "prot_ok (ptables s1)" by (rule runtime_ok [OF assms(2) runtime_step.binding [OF assms(1)]])
  from activation_after [OF assms(3) this a(1)] obtain a' where
    a': "tget (activations s') (cl_activation_id c) = Some a'" "activation_evolves a a'" .
  then have "av_state a' \<in> {AvBound, AvCompleted}" using a(2) by (simp add: activation_evolves_def)
  with a'(1) no_claim_of_bound [OF a'(1) this] show ?thesis by blast
qed

theorem claim_wins_once_witness:
  "\<exists>a. tget (activations demo_deleted) ''a'' = Some a \<and> av_state a \<in> {AvBound, AvCompleted}"
proof -
  have "runtime_step demo_ops demo_lib demo_bound demo_deleted"
    by (rule runtime_step.elsewhere) (simp add: demo_deleted_def with_driver_def)
  from claim_wins_once [OF demo_binds demo_reserved_ok r_into_rtranclp [of "runtime_step demo_ops demo_lib", OF this]]
  show ?thesis by (auto simp: demo_claim_def)
qed

text \<open>
  C12. An interrupt that is committed before the start prevents the start. When the interrupt transaction has found the activation
  of its generation accepted, then in every later state this activation has never been bound to a run and is either still
  accepted or completed as interrupted; no claim of it is handed out, dispatchable or bound.
\<close>

theorem interrupt_prevents_start:
  assumes "interrupt_txn e did user parent project (Some aid) s = Inr (Requested g target, s1)" and "prot_ok (ptables s)"
    and "tget (activations s) aid = Some a" and "av_state a = AvAccepted" and "(runtime_step ops lib)\<^sup>*\<^sup>* s1 s'"
  shows "\<exists>a' b. tget (activations s') aid = Some a' \<and> tget (outboxes s') aid = Some b \<and> av_child_run_id a' = None \<and>
    (av_state a' = AvAccepted \<or> av_state a' = AvCompleted \<and> ob_outcome b = OutInterrupted) \<and>
    (\<forall>e user owner k s2. claim_activation ops e aid user owner s' = Inr (k, s2) \<longrightarrow> k = None) \<and>
    (\<forall>e c l r s2. cl_activation_id c = aid \<longrightarrow>
       \<not> claim_is_dispatchable e c s' \<and> (bind_claimed_activation ops e c l s' = Inr (r, s2) \<longrightarrow> \<not> r))"
proof -
  have ok: "prot_ok (ptables s1)" by (rule runtime_ok [OF assms(2) runtime_step.interrupting [OF assms(1)]])
  from stopped_after [OF assms(5) ok interrupt_stops [OF assms(2,1,3,4)]] have stop: "stopped (ptables s') aid" .
  from stop obtain a' b where "tget (activations s') aid = Some a'" "tget (outboxes s') aid = Some b" "unbound a'"
      "av_state a' = AvAccepted \<or> av_state a' = AvCompleted \<and> ob_outcome b = OutInterrupted"
    by (auto simp: stopped_def)
  with stopped_operations [OF stop] show ?thesis unfolding unbound_def by blast
qed

theorem interrupt_prevents_start_witness:
  "\<exists>a' b. tget (activations demo_completed) ''a'' = Some a' \<and> tget (outboxes demo_completed) ''a'' = Some b \<and> av_child_run_id a' = None"
proof -
  from demo_spawned_row obtain a where a: "tget (activations demo_spawned) ''a'' = Some a" "av_state a = AvAccepted" by blast
  from demo_interrupts obtain target where t: "interrupt_txn demo_renv ''d'' ''u'' ''p'' ''j'' (Some ''a'') demo_spawned
      = Inr (Requested 1 target, demo_interrupted)" by blast
  from interrupt_prevents_start [OF t demo_oks(1) a r_into_rtranclp [of "runtime_step demo_ops demo_lib", OF demo_run(3)]]
  show ?thesis by blast
qed

section \<open>Acceptance and delivery\<close>

text \<open>
  Acceptance is idempotent. When a spawn was accepted for a tool part, repeating the same call, with other clocks and
  other fresh identifiers, while the parent's lease is still live, returns the same activation, marked as not created, and changes
  nothing: no second child, trigger, activation or outbox.
\<close>

lemma spawn_is_idempotent:
  assumes "accept_spawn ops lib cfg e c s = Inr (r, s')"
    and "parse_subagent_authority lib (sp_authority c) = Inr x" and "authority_good lib x"
    and "tget (drivers (rbase s)) (pc_session c) = Some row" and "after_now (d_lease_expires_at row) (rt_db_now e')"
  shows "accept_spawn ops lib cfg e' c s' = Inr (r\<lparr>rf_created := False\<rparr>, s')"
  using assms(1)
proof (cases rule: accept_spawn_cases)
  case (1 life authority parent project part)
  have fits: "prompt_fits (sp_prompt c)" "pc_run c \<noteq> []" "0 < pc_generation c"
    using assms(1) by (auto simp: accept_spawn_def split: option.splits if_splits)
  have good: "rbind (parse_subagent_authority lib authority) (authority_to_json lib) = Inr authority"
    using 1(2) loadable_rewrites assms(2,3) by simp
  have "\<exists>part' aid a. locked_parent_tool (rt_db_now e') c s' = Inr (parent, project, part') \<and>
    find_row (\<lambda>a. av_parent_part_id a = pc_part c) (activations s') = Some (aid, a) \<and>
    replay_spawn lib c authority aid a s' = Inr (r\<lparr>rf_created := False\<rparr>, s')"
  proof (cases "find_row (\<lambda>a. av_parent_part_id a = pc_part c) (activations s)")
    case None
    with 1(4) have new: "spawn_new ops lib e c life authority parent project part s = Inr (r, s')" by simp
    from spawn_new_replays [OF new None good] spawn_new_after [OF 1(3) new assms(4,5)] show ?thesis by blast
  next
    case (Some y)
    obtain aid a where y: "y = (aid, a)" by (cases y)
    with Some 1(4) have rep: "replay_spawn lib c authority aid a s = Inr (r, s')" by simp
    then have same: "s' = s" "r\<lparr>rf_created := False\<rparr> = r" using replayed_spawn [OF rep] by (auto simp: ref_of_def)
    from 1(3) assms(4,5) have "locked_parent_tool (rt_db_now e') c s = Inr (parent, project, part)"
      by (auto simp: locked_parent_tool_def fence_row_def split: option.splits if_splits)
    with same rep Some y show ?thesis by auto
  qed
  with 1(1,2) fits show ?thesis by (auto simp: accept_spawn_def lift_authority_def)
qed

lemma spawn_is_idempotent_witness:
  "\<exists>r. accept_spawn demo_ops demo_lib demo_deployment (demo_renv\<lparr>rt_db_now := 20, new_activation_id := ''b''\<rparr>) demo_call demo_spawned
     = Inr (r, demo_spawned) \<and> \<not> rf_created r"
proof -
  from demo_spawns_child obtain r where r: "accept_spawn demo_ops demo_lib demo_deployment demo_renv demo_call demo_start = Inr (r, demo_spawned)"
    by blast
  have a: "parse_subagent_authority demo_lib (sp_authority demo_call) = Inr demo_parent" using demo_parent_reads by (simp add: demo_call_def)
  have d: "tget (drivers (rbase demo_start)) (pc_session demo_call) = Some (driver_of Running (Some ''r'') 1 None (Some 100))"
    by (simp add: demo_start_def demo_call_def tget_def)
  have l: "after_now (d_lease_expires_at (driver_of Running (Some ''r'') 1 None (Some 100)))
      (rt_db_now (demo_renv\<lparr>rt_db_now := 20, new_activation_id := ''b''\<rparr>))" by (simp add: driver_of_def)
  from spawn_is_idempotent [OF r a demo_parent_good d l] show ?thesis by auto
qed


lemma demo_delivered_row: "\<exists>b. tget (outboxes demo_delivered) ''a'' = Some b \<and> ob_state b = ObDelivered"
proof -
  have "row_is (outboxes demo_delivered) ''a'' (\<lambda>b. ob_state b = ObDelivered)" by code_simp
  then show ?thesis by (rule row_isD)
qed




section \<open>Authority\<close>

text \<open>
  C13. A running subagent never gains authority. Over any run of the system, follow-ups by its parent included, a subagent keeps its
  descriptor; the authority stored in it can be read, allows no tool it did not allow before, keeps every rule plane and guard plane, and
  decides every permission at least as strictly, under any policies and approvals.
\<close>

theorem subagent_never_gains_authority:
  assumes "(runtime_step ops lib)\<^sup>*\<^sup>* s s'" and "prot_ok (ptables s)" and "dumps_revalidate lib"
    and "tget (descriptors s) did = Some d" and "parse_subagent_authority lib (de_authority_snapshot d) = Inr a" and "authority_good lib a"
  shows "\<exists>d' b. tget (descriptors s') did = Some d' \<and> de_child_session_id d' = de_child_session_id d \<and>
    parse_subagent_authority lib (de_authority_snapshot d') = Inr b \<and> sa_tool_ids b \<subseteq> sa_tool_ids a \<and>
    set (sa_permission_planes a) \<subseteq> set (sa_permission_planes b) \<and> set (sa_guard_planes a) \<subseteq> set (sa_guard_planes b) \<and>
    (\<forall>p u perm patterns. strictness (decide (bound_by a p) u perm patterns False)
       \<le> strictness (decide (bound_by b p) u perm patterns False))"
proof -
  from assms(1,2,4) obtain d' where d': "tget (descriptors s') did = Some d'" "descriptor_evolves lib d d'" by (rule descriptor_after)
  then have "(delegation lib)\<^sup>*\<^sup>* (de_authority_snapshot d) (de_authority_snapshot d')" by (simp add: descriptor_evolves_def)
  from chain_narrows [OF assms(3) this assms(5,6)] obtain b where b: "parse_subagent_authority lib (de_authority_snapshot d') = Inr b" "narrower a b"
    by blast
  have "de_child_session_id d' = de_child_session_id d" using d'(2) by (simp add: descriptor_evolves_def)
  with d'(1) b decide_narrower [OF b(2)] show ?thesis by (auto simp: narrower_def)
qed

theorem subagent_never_gains_authority_witness:
  "\<exists>d' b. tget (descriptors demo_completed) ''d'' = Some d' \<and> parse_subagent_authority demo_lib (de_authority_snapshot d') = Inr b \<and>
     sa_tool_ids b \<subseteq> sa_tool_ids demo_parent"
proof -
  have "row_is (descriptors demo_interrupted) ''d'' (\<lambda>d. parse_subagent_authority demo_lib (de_authority_snapshot d) = Inr demo_parent)" by code_simp
  from row_isD [OF this] obtain d where d: "tget (descriptors demo_interrupted) ''d'' = Some d"
      "parse_subagent_authority demo_lib (de_authority_snapshot d) = Inr demo_parent" by blast
  from subagent_never_gains_authority [OF r_into_rtranclp [of "runtime_step demo_ops demo_lib", OF demo_run(3)] demo_oks(2) demo_dumps d demo_parent_good]
  show ?thesis by blast
qed

end
