(* ===== verification/Text_Lines.thy ===== *)
theory Text_Lines
  imports Evidence
begin

text \<open>
  The string operations of Python that the file tools are written with: splitting and joining lines, searching and
  replacing substrings, whitespace. Each is a function on lists of characters; the lemmas say what it computes
  in terms of \<open>occurs_at\<close>, the positions at which a pattern stands in a text.
\<close>

lemma find_append: "find P (xs @ ys) = (case find P xs of None \<Rightarrow> find P ys | Some x \<Rightarrow> Some x)"
  by (induction xs) auto

section \<open>Lines\<close>

declare nat_text.simps [simp del]

definition newline :: char where "newline = CHR 0x0A"
definition tabulator :: char where "tabulator = CHR 0x09"

text \<open>\<^verbatim>\<open>s.split(c)\<close> for a single character, which is never empty, and \<^verbatim>\<open>"\n".join(ls)\<close>.\<close>

fun split_on :: "char \<Rightarrow> string \<Rightarrow> string list" where
  "split_on c [] = [[]]"
| "split_on c (x # xs) = (if x = c then [] # split_on c xs
     else case split_on c xs of [] \<Rightarrow> [[x]] | l # ls \<Rightarrow> (x # l) # ls)"

definition lines_of :: "string \<Rightarrow> string list" where "lines_of s = split_on newline s"
definition unlines :: "string list \<Rightarrow> string" where "unlines ls = join [newline] ls"

text \<open>A list of lines as splitting produces it.\<close>

definition wf_lines :: "string list \<Rightarrow> bool" where
  "wf_lines ls \<longleftrightarrow> ls \<noteq> [] \<and> list_all (\<lambda>l. newline \<notin> set l) ls"

lemma split_on_ne [simp]: "split_on c s \<noteq> []"
  by (induction s) (auto split: list.splits)

lemma join_Cons: "join sep (x # xs) = (if xs = [] then x else x @ sep @ join sep xs)"
  by (cases xs) auto

lemma join_split_on: "join [c] (split_on c s) = s"
proof (induction s)
  case (Cons x s)
  obtain l ls where s: "split_on c s = l # ls" by (cases "split_on c s") simp_all
  with Cons show ?case by (cases ls) (auto simp: join_Cons)
qed simp

lemma split_on_no_sep: "l \<in> set (split_on c s) \<Longrightarrow> c \<notin> set l"
proof (induction s arbitrary: l)
  case (Cons x s)
  then show ?case by (cases "split_on c s") (auto split: if_splits)
qed simp

lemma split_on_append: "c \<notin> set l \<Longrightarrow> split_on c (l @ c # s) = l # split_on c s"
  by (induction l) auto

lemma split_on_single: "c \<notin> set l \<Longrightarrow> split_on c l = [l]"
  by (induction l) auto

lemma split_on_join: "ls \<noteq> [] \<Longrightarrow> list_all (\<lambda>l. c \<notin> set l) ls \<Longrightarrow> split_on c (join [c] ls) = ls"
proof (induction ls)
  case (Cons l ls)
  then show ?case by (cases "ls = []") (auto simp: join_Cons split_on_append split_on_single)
qed simp

lemma unlines_lines [simp]: "unlines (lines_of s) = s"
  by (simp add: unlines_def lines_of_def join_split_on)

lemma lines_unlines [simp]: "wf_lines ls \<Longrightarrow> lines_of (unlines ls) = ls"
  by (simp add: unlines_def lines_of_def split_on_join wf_lines_def)

lemma wf_lines_of [simp]: "wf_lines (lines_of s)"
  by (auto simp: wf_lines_def lines_of_def list_all_iff dest: split_on_no_sep)

lemma lines_of_inject [simp]: "lines_of s = lines_of t \<longleftrightarrow> s = t"
  by (metis unlines_lines)

lemma unlines_inject: "wf_lines ls \<Longrightarrow> wf_lines ls' \<Longrightarrow> unlines ls = unlines ls' \<longleftrightarrow> ls = ls'"
  by (metis lines_unlines)

lemma lines_of_Nil [simp]: "lines_of [] = [[]]"
  by (simp add: lines_of_def)

lemma lines_of_Cons: "lines_of (l @ newline # s) = l # lines_of s" if "newline \<notin> set l"
  using that by (simp add: lines_of_def split_on_append)

text \<open>The length of a string in UTF-8, for code points below 256.\<close>

definition utf8_length :: "string \<Rightarrow> nat" where
  "utf8_length s = sum_list (map (\<lambda>c. if (of_char c :: nat) < 128 then 1 else 2) s)"

section \<open>Occurrences\<close>

definition occurs_at :: "string \<Rightarrow> string \<Rightarrow> nat \<Rightarrow> bool" where
  "occurs_at p s i \<longleftrightarrow> (\<exists>pre post. s = pre @ p @ post \<and> length pre = i)"

text \<open>\<^verbatim>\<open>s.find(p)\<close>, \<^verbatim>\<open>s.find(p, start)\<close>, \<^verbatim>\<open>s.rfind(p)\<close>; \<open>None\<close> is the result -1.\<close>

fun str_find :: "string \<Rightarrow> string \<Rightarrow> nat option" where
  "str_find p [] = (if p = [] then Some 0 else None)"
| "str_find p (c # cs) = (if starts_with p (c # cs) then Some 0 else map_option Suc (str_find p cs))"

definition find_at :: "string \<Rightarrow> string \<Rightarrow> nat \<Rightarrow> nat option" where
  "find_at p s start = (if start > length s then None else map_option (\<lambda>i. start + i) (str_find p (drop start s)))"

fun str_rfind :: "string \<Rightarrow> string \<Rightarrow> nat option" where
  "str_rfind p [] = (if p = [] then Some 0 else None)"
| "str_rfind p (c # cs) = (case str_rfind p cs of Some i \<Rightarrow> Some (Suc i)
     | None \<Rightarrow> if starts_with p (c # cs) then Some 0 else None)"

lemma starts_with_iff: "starts_with p s \<longleftrightarrow> (\<exists>t. s = p @ t)"
  by (induction p s rule: starts_with.induct) auto

lemma occurs_at_iff: "occurs_at p s i \<longleftrightarrow> i + length p \<le> length s \<and> take (length p) (drop i s) = p"
proof
  assume "i + length p \<le> length s \<and> take (length p) (drop i s) = p"
  then have "s = take i s @ p @ drop (i + length p) s" "length (take i s) = i"
    by (auto simp: min_absorb2) (metis add.commute append_take_drop_id drop_drop)
  then show "occurs_at p s i" unfolding occurs_at_def by blast
qed (auto simp: occurs_at_def)

lemma occurs_at_0: "occurs_at p s 0 \<longleftrightarrow> starts_with p s"
  by (auto simp: occurs_at_def starts_with_iff)

lemma occurs_at_Nil: "occurs_at p [] i \<longleftrightarrow> p = [] \<and> i = 0"
  by (auto simp: occurs_at_def)

lemma occurs_at_Suc [simp]: "occurs_at p (c # cs) (Suc i) \<longleftrightarrow> occurs_at p cs i"
  by (simp add: occurs_at_iff)

lemma occurs_at_empty [simp]: "occurs_at [] s i \<longleftrightarrow> i \<le> length s"
  by (simp add: occurs_at_iff)

lemma ex_occurs_Cons: "(\<exists>i. occurs_at p (c # cs) i) \<longleftrightarrow> starts_with p (c # cs) \<or> (\<exists>i. occurs_at p cs i)"
  by (metis not0_implies_Suc occurs_at_0 occurs_at_Suc)

lemma contains_iff: "contains p s \<longleftrightarrow> (\<exists>i. occurs_at p s i)"
  by (induction p s rule: contains.induct) (simp_all add: occurs_at_Nil ex_occurs_Cons)

lemma str_find_Some: "str_find p s = Some i \<longleftrightarrow> occurs_at p s i \<and> (\<forall>j<i. \<not> occurs_at p s j)"
proof (induction p s arbitrary: i rule: str_find.induct)
  case (2 p c cs)
  then show ?case by (cases i) (auto simp: occurs_at_0 less_Suc_eq_0_disj)
qed (auto simp: occurs_at_Nil)

lemma str_find_None: "str_find p s = None \<longleftrightarrow> (\<forall>i. \<not> occurs_at p s i)"
proof (induction p s rule: str_find.induct)
  case (2 p c cs)
  have "(\<forall>i. \<not> occurs_at p (c # cs) i) \<longleftrightarrow> \<not> starts_with p (c # cs) \<and> (\<forall>i. \<not> occurs_at p cs i)"
    using ex_occurs_Cons by blast
  with 2 show ?case by auto
qed (auto simp: occurs_at_Nil)

lemma str_rfind_None: "str_rfind p s = None \<longleftrightarrow> (\<forall>i. \<not> occurs_at p s i)"
proof (induction p s rule: str_rfind.induct)
  case (2 p c cs)
  have "(\<forall>i. \<not> occurs_at p (c # cs) i) \<longleftrightarrow> \<not> starts_with p (c # cs) \<and> (\<forall>i. \<not> occurs_at p cs i)"
    using ex_occurs_Cons by blast
  with 2 show ?case by (auto split: option.splits)
qed (auto simp: occurs_at_Nil)

lemma str_rfind_Some: "str_rfind p s = Some i \<longleftrightarrow> occurs_at p s i \<and> (\<forall>j>i. \<not> occurs_at p s j)"
proof (induction p s arbitrary: i rule: str_rfind.induct)
  case (2 p c cs)
  show ?case
  proof (cases "str_rfind p cs")
    case None
    then have none: "\<not> occurs_at p cs j" for j by (simp add: str_rfind_None)
    have "\<not> occurs_at p (c # cs) j" if "0 < j" for j using that none by (cases j) auto
    with None none show ?thesis by (cases i) (auto simp: occurs_at_0)
  next
    case (Some k)
    with 2 have k: "occurs_at p cs k" "\<forall>j>k. \<not> occurs_at p cs j" by auto
    then have "occurs_at p (c # cs) (Suc k)" "\<forall>j>Suc k. \<not> occurs_at p (c # cs) j"
      by (auto simp: Suc_less_eq2)
    then have "occurs_at p (c # cs) i \<and> (\<forall>j>i. \<not> occurs_at p (c # cs) j) \<longleftrightarrow> i = Suc k"
      by (metis linorder_neqE_nat)
    with Some show ?thesis by auto
  qed
qed (auto simp: occurs_at_Nil)

lemma contains_find: "contains p s \<longleftrightarrow> str_find p s \<noteq> None"
  by (simp add: contains_iff str_find_None)

text \<open>A pattern with exactly one occurrence, overlapping ones included.\<close>

definition occurs_once :: "string \<Rightarrow> string \<Rightarrow> nat \<Rightarrow> bool" where
  "occurs_once p s i \<longleftrightarrow> (\<forall>j. occurs_at p s j \<longleftrightarrow> j = i)"

lemma occurs_once_iff: "occurs_once p s i \<longleftrightarrow> str_find p s = Some i \<and> str_rfind p s = Some i"
proof
  assume "str_find p s = Some i \<and> str_rfind p s = Some i"
  then have "occurs_at p s i" "\<And>j. j < i \<Longrightarrow> \<not> occurs_at p s j" "\<And>j. i < j \<Longrightarrow> \<not> occurs_at p s j"
    by (auto simp: str_find_Some str_rfind_Some)
  then show "occurs_once p s i" unfolding occurs_once_def by (metis linorder_neqE_nat)
qed (simp add: occurs_once_def str_find_Some str_rfind_Some)

lemma occurs_at_split: "occurs_at p s i \<Longrightarrow> s = take i s @ p @ drop (i + length p) s"
  by (auto simp: occurs_at_def)

lemma find_at_Some: "find_at p s start = Some i \<Longrightarrow> start \<le> i \<and> occurs_at p s i"
  by (auto simp: find_at_def str_find_Some occurs_at_iff add.commute split: if_splits)

lemma find_at_bound: "find_at p s start = Some i \<Longrightarrow> i + length p \<le> length s"
  using find_at_Some occurs_at_iff by blast

lemma find_at_0 [simp]: "find_at p s 0 = str_find p s"
  by (cases "str_find p s") (simp_all add: find_at_def)

section \<open>Replacing\<close>

text \<open>\<^verbatim>\<open>s.replace(p, new)\<close>: the leftmost occurrences that do not overlap; an empty pattern stands before every character and at the end.\<close>

function str_replace :: "string \<Rightarrow> string \<Rightarrow> string \<Rightarrow> string" where
  "str_replace p new s =
     (if p = [] then new @ concat (map (\<lambda>c. c # new) s)
      else if starts_with p s then new @ str_replace p new (drop (length p) s)
      else case s of [] \<Rightarrow> [] | c # cs \<Rightarrow> c # str_replace p new cs)"
  by pat_completeness auto
termination
  by (relation "measure (\<lambda>(p, new, s). length s)") (auto simp: starts_with_iff)

declare str_replace.simps [simp del]

lemma str_replace_absent: "p \<noteq> [] \<Longrightarrow> str_find p s = None \<Longrightarrow> str_replace p new s = s"
proof (induction s)
  case Nil
  then show ?case by (cases p) (simp_all add: str_replace.simps [of _ _ "[]"])
next
  case (Cons c s)
  then show ?case by (simp add: str_replace.simps [of _ _ "c # s"] split: if_splits)
qed

section \<open>Whitespace\<close>

definition lstrip :: "string \<Rightarrow> string" where "lstrip s = dropWhile is_space s"
definition rstrip :: "string \<Rightarrow> string" where "rstrip s = rev (dropWhile is_space (rev s))"

text \<open>\<^verbatim>\<open>re.sub(r"\s+", " ", s)\<close> and \<^verbatim>\<open>s.split()\<close>.\<close>

function squash :: "string \<Rightarrow> string" where
  "squash [] = []"
| "squash (c # cs) = (if is_space c then CHR '' '' # squash (dropWhile is_space cs) else c # squash cs)"
  by pat_completeness auto
termination
  by (relation "measure length") (auto simp: le_imp_less_Suc length_dropWhile_le)

function words_of :: "string \<Rightarrow> string list" where
  "words_of s = (case dropWhile is_space s of [] \<Rightarrow> []
     | c # cs \<Rightarrow> (c # takeWhile (\<lambda>x. \<not> is_space x) cs) # words_of (dropWhile (\<lambda>x. \<not> is_space x) cs))"
  by pat_completeness auto
termination
proof (relation "measure length")
  fix s c cs
  assume "dropWhile is_space s = c # cs"
  then have "length cs < length s" using length_dropWhile_le [of is_space s] by simp
  then show "(dropWhile (\<lambda>x. \<not> is_space x) cs, s) \<in> measure length"
    using length_dropWhile_le [of "\<lambda>x. \<not> is_space x" cs] by simp
qed simp

declare words_of.simps [simp del]

lemma strip_eq: "strip s = rstrip (lstrip s)"
  by (simp add: strip_def rstrip_def lstrip_def)

lemma rstrip_Nil_iff [simp]: "rstrip s = [] \<longleftrightarrow> list_all is_space s"
  by (simp add: rstrip_def list_all_iff)

lemma strip_Nil_iff: "strip s = [] \<longleftrightarrow> list_all is_space s"
proof -
  have "list_all is_space (dropWhile is_space s) \<longleftrightarrow> list_all is_space s"
    by (induction s) auto
  then show ?thesis by (simp add: strip_eq lstrip_def)
qed

end
