(* ===== verification/Edit_Distance.thy ===== *)
theory Edit_Distance
  imports Text_Lines Complex_Main
begin

text \<open>
  \<^verbatim>\<open>_levenshtein\<close> and \<^verbatim>\<open>_similarity\<close> of \<^verbatim>\<open>src/backend/tool/edit.py\<close>. The routine keeps two rows of the dynamic-programming
  table and swaps its arguments so that the rows follow the shorter string; the reference is the least number
  of single-character insertions, deletions and substitutions that turn one string into the other.

  A similarity is a rational number. Python computes it in double precision; the comparisons in which it is used
  have the same result there, since two different ratios of lengths below ten million differ by more than the rounding
  errors, and equal ratios round alike.
\<close>

section \<open>The routine\<close>

text \<open>\<open>lev_row c1 left prev s2\<close> is the inner loop from a position on: \<open>left\<close> is the last entry of the new row, \<open>prev\<close> the old row from that position.\<close>

fun lev_row :: "char \<Rightarrow> nat \<Rightarrow> nat list \<Rightarrow> string \<Rightarrow> nat list" where
  "lev_row c1 left (p # p' # prev) (c2 # s2) =
     (let entry = min (p' + 1) (min (left + 1) (p + (if c1 = c2 then 0 else 1)))
      in entry # lev_row c1 entry (p' # prev) s2)"
| "lev_row c1 left prev s2 = []"

fun lev_rows :: "string \<Rightarrow> nat \<Rightarrow> nat list \<Rightarrow> string \<Rightarrow> nat list" where
  "lev_rows [] i prev s2 = prev"
| "lev_rows (c1 # s1) i prev s2 = lev_rows s1 (Suc i) ((i + 1) # lev_row c1 (i + 1) prev s2) s2"

definition levenshtein_sorted :: "string \<Rightarrow> string \<Rightarrow> nat" where
  "levenshtein_sorted s1 s2 = (if s2 = [] then length s1 else last (lev_rows s1 0 [0..<length s2 + 1] s2))"

definition levenshtein :: "string \<Rightarrow> string \<Rightarrow> nat" where
  "levenshtein s1 s2 = (if length s1 < length s2 then levenshtein_sorted s2 s1 else levenshtein_sorted s1 s2)"

definition similarity :: "string \<Rightarrow> string \<Rightarrow> rat" where
  "similarity s1 s2 = (let max_len = max (length s1) (length s2)
     in if max_len = 0 then 1 else 1 - of_nat (levenshtein s1 s2) / of_nat max_len)"

section \<open>Distance by recursion from the end\<close>

text \<open>The recursion on reversed strings, so that the table's rows are its values on prefixes.\<close>

fun edit_dist :: "string \<Rightarrow> string \<Rightarrow> nat" where
  "edit_dist [] t = length t"
| "edit_dist s [] = length s"
| "edit_dist (a # s) (b # t) = min (edit_dist s (b # t) + 1) (min (edit_dist (a # s) t + 1) (edit_dist s t + (if a = b then 0 else 1)))"

lemma dist_Nil2 [simp]: "edit_dist s [] = length s"
  by (cases s) auto

lemma dist_sym: "edit_dist s t = edit_dist t s"
  by (induction s t rule: edit_dist.induct) (auto simp: min.commute min.left_commute)

text \<open>Row \<open>s\<close> of the table from column \<open>u\<close> on: the distances of \<open>s\<close> to the prefixes of the other string, both reversed.\<close>

fun table_row :: "string \<Rightarrow> string \<Rightarrow> string \<Rightarrow> nat list" where
  "table_row s u [] = [edit_dist s u]"
| "table_row s u (c # t) = edit_dist s u # table_row s (c # u) t"

lemma table_row_Nil: "table_row [] u t = [length u..<length u + length t + 1]"
  by (induction t arbitrary: u) (auto simp: upt_rec)

lemma table_row_Cons: "\<exists>rest. table_row s u t = edit_dist s u # rest"
  by (cases t) auto

lemma lev_row_table:
  "lev_row c (edit_dist (c # s) u) (table_row s u t) t = tl (table_row (c # s) u t)"
proof (induction t arbitrary: u)
  case (Cons b t)
  obtain rest where rest: "table_row s (b # u) t = edit_dist s (b # u) # rest" using table_row_Cons by blast
  obtain rest' where rest': "table_row (c # s) (b # u) t = edit_dist (c # s) (b # u) # rest'" using table_row_Cons by blast
  have "min (edit_dist s (b # u) + 1) (min (edit_dist (c # s) u + 1) (edit_dist s u + (if c = b then 0 else 1))) = edit_dist (c # s) (b # u)"
    by simp
  with Cons [of "b # u"] rest rest' show ?case by (simp add: Let_def)
qed simp

lemma lev_rows_table:
  "length s = i \<Longrightarrow> lev_rows s1 i (table_row s [] t) t = table_row (rev s1 @ s) [] t"
proof (induction s1 arbitrary: s i)
  case (Cons c s1)
  obtain rest where rest: "table_row (c # s) [] t = edit_dist (c # s) [] # rest" using table_row_Cons by blast
  with lev_row_table [of c s "[]" t] Cons.prems have "(i + 1) # lev_row c (i + 1) (table_row s [] t) t = table_row (c # s) [] t"
    by simp
  with Cons.IH [of "c # s" "Suc i"] Cons.prems show ?case by simp
qed simp

lemma last_table_row: "last (table_row s u t) = edit_dist s (rev t @ u)"
proof (induction t arbitrary: u)
  case (Cons c t)
  with table_row_Cons [of s "c # u" t] show ?case by auto
qed simp

lemma levenshtein_sorted_dist: "levenshtein_sorted s1 s2 = edit_dist (rev s1) (rev s2)"
  using lev_rows_table [of "[]" 0 s1 s2] table_row_Nil [of "[]" s2]
  by (auto simp: levenshtein_sorted_def last_table_row)

lemma levenshtein_dist: "levenshtein s1 s2 = edit_dist (rev s1) (rev s2)"
  by (simp add: levenshtein_def levenshtein_sorted_dist dist_sym)

section \<open>Distance as the least number of edits\<close>

inductive edit_step :: "string \<Rightarrow> string \<Rightarrow> bool" where
  insert_char: "edit_step (u @ v) (u @ c # v)"
| delete_char: "edit_step (u @ c # v) (u @ v)"
| change_char: "edit_step (u @ b # v) (u @ c # v)"

lemma dist_same [simp]: "edit_dist s s = 0"
  by (induction s) auto

lemma dist_Cons_left: "edit_dist s t \<le> Suc (edit_dist (c # s) t) \<and> edit_dist (c # s) t \<le> Suc (edit_dist s t)"
proof (induction s t arbitrary: c rule: edit_dist.induct)
  case (1 t)
  then show ?case by (induction t arbitrary: c) (auto simp: min_def)
next
  case (2 v va)
  then show ?case by simp
next
  case (3 a s b t)
  have "edit_dist (a # s) (b # t) \<le> edit_dist (a # s) t + 1" by simp
  moreover have "edit_dist (a # s) t \<le> Suc (edit_dist (c # a # s) t)" using 3(2) by blast
  ultimately have "edit_dist (a # s) (b # t) \<le> min (edit_dist (a # s) (b # t) + 1) (min (edit_dist (c # a # s) t + 1) (edit_dist (a # s) t + (if c = b then 0 else 1))) + 1"
    by auto
  then show ?case by simp
qed

lemma dist_change: "edit_dist (b # v) t \<le> Suc (edit_dist (c # v) t)"
  by (induction t) (auto simp: min_def)

lemma dist_Cons_mono:
  assumes "\<And>t. edit_dist s t \<le> Suc (edit_dist s' t)"
  shows "edit_dist (c # s) t \<le> Suc (edit_dist (c # s') t)"
proof (induction t)
  case Nil
  from assms [of "[]"] show ?case by simp
next
  case (Cons b t)
  with assms [of t] assms [of "b # t"] show ?case by (auto simp: min_def)
qed

lemma edit_step_dist: "edit_step s s' \<Longrightarrow> edit_dist s t \<le> Suc (edit_dist s' t)"
proof (induction arbitrary: t rule: edit_step.induct)
  case (insert_char u v c)
  show ?case by (induction u arbitrary: t) (auto intro: dist_Cons_mono simp: dist_Cons_left)
next
  case (delete_char u c v)
  show ?case by (induction u arbitrary: t) (auto intro: dist_Cons_mono simp: dist_Cons_left)
next
  case (change_char u b v c)
  show ?case by (induction u arbitrary: t) (auto intro: dist_Cons_mono simp: dist_change)
qed

lemma edits_bound_dist: "(edit_step ^^ n) s t \<Longrightarrow> edit_dist s t \<le> n"
proof (induction n arbitrary: s)
  case (Suc n)
  then obtain s' where "edit_step s s'" "(edit_step ^^ n) s' t" by (blast elim: relpowp_Suc_E2)
  with edit_step_dist [of s s' t] Suc.IH [of s'] show ?case by simp
qed simp

lemma edit_step_Cons: "edit_step s t \<Longrightarrow> edit_step (c # s) (c # t)"
  by (induction rule: edit_step.induct) (metis append_Cons edit_step.intros)+

lemma edits_Cons: "(edit_step ^^ n) s t \<Longrightarrow> (edit_step ^^ n) (c # s) (c # t)"
proof (induction n arbitrary: s)
  case (Suc n)
  then obtain s' where "edit_step s s'" "(edit_step ^^ n) s' t" by (blast elim: relpowp_Suc_E2)
  with Suc.IH show ?case by (blast intro: relpowp_Suc_I2 edit_step_Cons)
qed simp

lemma edit_first: "edit_step s (c # s)" "edit_step (c # s) s" "edit_step (b # s) (c # s)"
  using edit_step.intros [of "[]"] by simp_all

lemma insert_all: "(edit_step ^^ length t) [] t"
proof (induction t)
  case (Cons c t)
  then show ?case using edit_first(1) [of "[]" c] by (simp only: list.size add_0_right add_Suc_right) (blast intro: relpowp_Suc_I2 edits_Cons)
qed simp

lemma delete_all: "(edit_step ^^ length s) s []"
proof (induction s)
  case (Cons c s)
  then show ?case by (simp only: list.size add_0_right add_Suc_right) (blast intro: relpowp_Suc_I2 edit_first)
qed simp

lemma edits_dist: "(edit_step ^^ edit_dist s t) s t"
proof (induction s t rule: edit_dist.induct)
  case (3 a s b t)
  have "(edit_step ^^ Suc (edit_dist s (b # t))) (a # s) (b # t)" using 3(1) by (blast intro: relpowp_Suc_I2 edit_first)
  moreover have "(edit_step ^^ Suc (edit_dist (a # s) t)) (a # s) (b # t)"
    using 3(2) by (blast intro: relpowp_Suc_I2 edit_first edits_Cons)
  moreover have "(edit_step ^^ (edit_dist s t + (if a = b then 0 else 1))) (a # s) (b # t)"
    using edits_Cons [OF 3(3), of b] relpowp_Suc_I2 [of edit_step, OF edit_first(3) [of a s b]] by (cases "a = b") (simp_all del: relpowp.simps)
  ultimately show ?case unfolding edit_dist.simps min_def by (simp del: relpowp.simps)
next
  case (2 v va)
  show ?case using delete_all [of "v # va"] by (simp del: relpowp.simps)
qed (simp add: insert_all)

lemma edit_step_rev: "edit_step s t \<Longrightarrow> edit_step (rev s) (rev t)"
  by (induction rule: edit_step.induct) (simp_all add: edit_step.intros)

lemma edits_rev: "(edit_step ^^ n) s t \<Longrightarrow> (edit_step ^^ n) (rev s) (rev t)"
proof (induction n arbitrary: s)
  case (Suc n)
  then obtain s' where "edit_step s s'" "(edit_step ^^ n) s' t" by (blast elim: relpowp_Suc_E2)
  with Suc.IH show ?case by (blast intro: relpowp_Suc_I2 edit_step_rev)
qed simp

lemma levenshtein_reaches: "(edit_step ^^ levenshtein s t) s t"
  using edits_rev [OF edits_dist [of "rev s" "rev t"]] by (simp add: levenshtein_dist)

lemma levenshtein_least: "(edit_step ^^ n) s t \<Longrightarrow> levenshtein s t \<le> n"
  using edits_bound_dist [OF edits_rev] by (simp add: levenshtein_dist)

lemma dist_le: "edit_dist s t \<le> max (length s) (length t)"
  by (induction s t rule: edit_dist.induct) (auto simp: min_def max_def)

lemma levenshtein_le: "levenshtein s t \<le> max (length s) (length t)"
  using dist_le [of "rev s" "rev t"] by (simp add: levenshtein_dist)

lemma similarity_range: "0 \<le> similarity s t" "similarity s t \<le> 1"
proof -
  have "of_nat (levenshtein s t) \<le> (of_nat (max (length s) (length t)) :: rat)"
    using levenshtein_le by (metis of_nat_le_iff)
  then show "0 \<le> similarity s t" "similarity s t \<le> 1" by (auto simp: similarity_def Let_def divide_le_eq)
qed

lemma dist_0: "edit_dist s t = 0 \<longleftrightarrow> s = t"
  by (induction s t rule: edit_dist.induct) (auto simp: min_def)

lemma similarity_1: "similarity s t = 1 \<longleftrightarrow> s = t"
  by (auto simp: similarity_def Let_def levenshtein_dist dist_0)

end
