(* ===== verification/Edit_Replace.thy ===== *)
theory Edit_Replace
  imports Edit_Distance
begin

text \<open>
  The nine replacer strategies and \<^verbatim>\<open>replace\<close> of \<^verbatim>\<open>src/backend/tool/edit.py\<close>. A strategy is a generator in Python; eight of them
  end on every input and are functions to the list of what they yield. The ninth, \<^verbatim>\<open>multi_occurrence_replacer\<close>, is
  consumed lazily by \<open>replace\<close> and need not end, so the loop over it is \<open>multi_loop\<close>, in which \<open>None\<close> is a loop that never
  returns.
\<close>

section \<open>Blocks of lines\<close>

text \<open>\<^verbatim>\<open>lines[i:i + n]\<close> for \<^verbatim>\<open>i in range(len(lines) - n + 1)\<close>.\<close>

definition blocks :: "nat \<Rightarrow> string list \<Rightarrow> string list list" where
  "blocks n ls = map (\<lambda>i. take n (drop i ls)) [0..<Suc (length ls) - n]"

text \<open>\<^verbatim>\<open>"\n".join(lines[i:j + 1])\<close>.\<close>

definition line_span :: "string list \<Rightarrow> nat \<Rightarrow> nat \<Rightarrow> string list" where
  "line_span ls i j = take (Suc j - i) (drop i ls)"

section \<open>Strategies\<close>

definition simple_replacer :: "string \<Rightarrow> string \<Rightarrow> string list" where
  "simple_replacer content old = (if contains old content then [old] else [])"

definition line_trimmed_replacer :: "string \<Rightarrow> string \<Rightarrow> string list" where
  "line_trimmed_replacer content old =
     map unlines (filter (\<lambda>block. map strip block = map strip (lines_of old)) (blocks (length (lines_of old)) (lines_of content)))"

text \<open>Every line that reads as the first anchor, with the first line at least two further that reads as the last.\<close>

definition first_end :: "string list \<Rightarrow> string \<Rightarrow> nat \<Rightarrow> nat option" where
  "first_end ls last_anchor i = find (\<lambda>j. strip (ls ! j) = last_anchor) [i + 2..<length ls]"

definition anchored :: "string list \<Rightarrow> string \<Rightarrow> string \<Rightarrow> (nat \<times> nat) list" where
  "anchored ls first_anchor last_anchor =
     concat (map (\<lambda>i. if strip (ls ! i) \<noteq> first_anchor then []
       else case first_end ls last_anchor i of None \<Rightarrow> [] | Some j \<Rightarrow> [(i, j)]) [0..<length ls])"

definition SINGLE_CANDIDATE_SIMILARITY :: rat where "SINGLE_CANDIDATE_SIMILARITY = 0"
definition MULTIPLE_CANDIDATES_SIMILARITY :: rat where "MULTIPLE_CANDIDATES_SIMILARITY = 3 / 10"

definition middle :: "string list \<Rightarrow> string" where
  "middle ls = unlines (butlast (tl ls))"

fun best_candidate :: "string list \<Rightarrow> string \<Rightarrow> (nat \<times> nat) list \<Rightarrow> rat \<Rightarrow> string option \<Rightarrow> rat \<times> string option" where
  "best_candidate ls middle_find [] best_sim best_block = (best_sim, best_block)"
| "best_candidate ls middle_find ((i, j) # candidates) best_sim best_block =
     (let sim = similarity middle_find (middle (line_span ls i j))
      in if sim > best_sim then best_candidate ls middle_find candidates sim (Some (unlines (line_span ls i j)))
         else best_candidate ls middle_find candidates best_sim best_block)"

definition block_anchor_replacer :: "string \<Rightarrow> string \<Rightarrow> string list" where
  "block_anchor_replacer content old =
     (let find_lines = lines_of old; ls = lines_of content
      in if length find_lines < 3 then []
         else case anchored ls (strip (hd find_lines)) (strip (last find_lines)) of
           [] \<Rightarrow> []
         | [(i, j)] \<Rightarrow> if similarity old (unlines (line_span ls i j)) \<ge> SINGLE_CANDIDATE_SIMILARITY then [unlines (line_span ls i j)] else []
         | candidates \<Rightarrow>
             (case best_candidate ls (middle find_lines) candidates 0 None of
                (best_sim, None) \<Rightarrow> []
              | (best_sim, Some block) \<Rightarrow> if best_sim \<ge> MULTIPLE_CANDIDATES_SIMILARITY \<and> block \<noteq> [] then [block] else []))"

definition normalize_ws :: "string \<Rightarrow> string" where
  "normalize_ws s = strip (squash s)"

text \<open>
  The regular expression made of the words of the text with \<^verbatim>\<open>\s+\<close> between them. A word starts with a character that is no space, so the
  greedy run of spaces before it is all of them.
\<close>

fun match_words :: "string list \<Rightarrow> string \<Rightarrow> string option" where
  "match_words [] s = Some []"
| "match_words [w] s = (if starts_with w s then Some w else None)"
| "match_words (w # v # ws) s =
     (if \<not> starts_with w s then None
      else let rest = drop (length w) s; gap = takeWhile is_space rest
        in if gap = [] then None
           else map_option (\<lambda>m. w @ gap @ m) (match_words (v # ws) (drop (length gap) rest)))"

fun search_words :: "string list \<Rightarrow> string \<Rightarrow> string option" where
  "search_words ws [] = match_words ws []"
| "search_words ws (c # cs) = (case match_words ws (c # cs) of Some m \<Rightarrow> Some m | None \<Rightarrow> search_words ws cs)"

definition normalized_in_line :: "string \<Rightarrow> string \<Rightarrow> string list" where
  "normalized_in_line old line =
     (if normalize_ws line = normalize_ws old then [line]
      else if contains (normalize_ws old) (normalize_ws line) \<and> words_of (strip old) \<noteq> []
      then (case search_words (words_of (strip old)) line of None \<Rightarrow> [] | Some m \<Rightarrow> [m]) else [])"

definition whitespace_normalized_replacer :: "string \<Rightarrow> string \<Rightarrow> string list" where
  "whitespace_normalized_replacer content old =
     concat (map (normalized_in_line old) (lines_of content)) @
     (if length (lines_of old) > 1
      then map unlines (filter (\<lambda>block. normalize_ws (unlines block) = normalize_ws old) (blocks (length (lines_of old)) (lines_of content)))
      else [])"

definition indent_of :: "string \<Rightarrow> nat" where
  "indent_of l = length l - length (lstrip l)"

definition remove_indent :: "string \<Rightarrow> string" where
  "remove_indent text =
     (let non_empty = filter (\<lambda>l. strip l \<noteq> []) (lines_of text)
      in if non_empty = [] then text
         else let min_indent = Min (set (map indent_of non_empty))
           in unlines (map (\<lambda>l. if strip l = [] then l else drop min_indent l) (lines_of text)))"

definition indentation_flexible_replacer :: "string \<Rightarrow> string \<Rightarrow> string list" where
  "indentation_flexible_replacer content old =
     filter (\<lambda>block. remove_indent block = remove_indent old) (map unlines (blocks (length (lines_of old)) (lines_of content)))"

definition escaped_char :: "char \<Rightarrow> char option" where
  "escaped_char c = (if c = CHR ''n'' then Some newline else if c = CHR ''t'' then Some tabulator else if c = CHR ''r'' then Some (CHR 0x0D)
     else if c \<in> {CHR 0x27, CHR 0x22, CHR 0x60, CHR 0x5C, newline, CHR ''$''} then Some c else None)"

fun unescape :: "string \<Rightarrow> string" where
  "unescape (c # d # s) = (if c = CHR 0x5C
     then (case escaped_char d of Some x \<Rightarrow> x # unescape s | None \<Rightarrow> c # unescape (d # s))
     else c # unescape (d # s))"
| "unescape s = s"

definition escape_normalized_replacer :: "string \<Rightarrow> string \<Rightarrow> string list" where
  "escape_normalized_replacer content old =
     (if contains (unescape old) content then [unescape old] else []) @
     filter (\<lambda>block. unescape block = unescape old) (map unlines (blocks (length (lines_of (unescape old))) (lines_of content)))"

definition trimmed_boundary_replacer :: "string \<Rightarrow> string \<Rightarrow> string list" where
  "trimmed_boundary_replacer content old =
     (if strip old = old then []
      else (if contains (strip old) content then [strip old] else []) @
        filter (\<lambda>block. strip block = strip old) (map unlines (blocks (length (lines_of old)) (lines_of content))))"

text \<open>At least half of the lines between the anchors that are not blank in both texts read the same.\<close>

definition half_matches :: "string list \<Rightarrow> string list \<Rightarrow> bool" where
  "half_matches block find_lines =
     (let pairs = filter (\<lambda>(b, f). b \<noteq> [] \<or> f \<noteq> []) (map (\<lambda>k. (strip (block ! k), strip (find_lines ! k))) [1..<length block - 1])
      in pairs = [] \<or> 2 * length (filter (\<lambda>(b, f). b = f) pairs) \<ge> length pairs)"

definition context_aware_replacer :: "string \<Rightarrow> string \<Rightarrow> string list" where
  "context_aware_replacer content old =
     (if length (lines_of old) < 3 then []
      else let find_lines = (if last (lines_of old) = [] then butlast (lines_of old) else lines_of old); ls = lines_of content
        in case find (\<lambda>(i, j). length (line_span ls i j) = length find_lines \<and> half_matches (line_span ls i j) find_lines)
                  (anchored ls (strip (hd find_lines)) (strip (last find_lines))) of
             None \<Rightarrow> [] | Some (i, j) \<Rightarrow> [unlines (line_span ls i j)])"

section \<open>Replacing\<close>

datatype edit_error = NoChanges | NotFound | MultipleMatches

datatype attempt = Absent | Ambiguous | Replaced string

definition try_search :: "string \<Rightarrow> string \<Rightarrow> bool \<Rightarrow> string \<Rightarrow> attempt" where
  "try_search content new replace_all search = (case str_find search content of
       None \<Rightarrow> Absent
     | Some idx \<Rightarrow>
         if replace_all then Replaced (str_replace search new content)
         else if str_rfind search content \<noteq> Some idx then Ambiguous
         else Replaced (take idx content @ new @ drop (idx + length search) content))"

text \<open>The loop over what the strategies yield, with the flag \<^verbatim>\<open>not_found\<close>.\<close>

fun try_each :: "string \<Rightarrow> string \<Rightarrow> bool \<Rightarrow> string list \<Rightarrow> bool \<Rightarrow> bool \<times> string option" where
  "try_each content new replace_all [] not_found = (not_found, None)"
| "try_each content new replace_all (search # searches) not_found = (case try_search content new replace_all search of
       Absent \<Rightarrow> try_each content new replace_all searches not_found
     | Ambiguous \<Rightarrow> try_each content new replace_all searches False
     | Replaced r \<Rightarrow> (False, Some r))"

partial_function (option) multi_loop :: "string \<Rightarrow> string \<Rightarrow> string \<Rightarrow> bool \<Rightarrow> nat \<Rightarrow> bool \<Rightarrow> (bool \<times> string option) option" where
  "multi_loop content old new replace_all start not_found = (case find_at old content start of
       None \<Rightarrow> Some (not_found, None)
     | Some idx \<Rightarrow> (case try_search content new replace_all old of
           Absent \<Rightarrow> multi_loop content old new replace_all (idx + length old) not_found
         | Ambiguous \<Rightarrow> multi_loop content old new replace_all (idx + length old) False
         | Replaced r \<Rightarrow> Some (False, Some r)))"

declare multi_loop.simps [code]

definition candidates :: "string \<Rightarrow> string \<Rightarrow> string list" where
  "candidates content old = concat (map (\<lambda>replacer. replacer content old)
     [simple_replacer, line_trimmed_replacer, block_anchor_replacer, whitespace_normalized_replacer,
      indentation_flexible_replacer, escape_normalized_replacer, trimmed_boundary_replacer, context_aware_replacer])"

definition replace :: "string \<Rightarrow> string \<Rightarrow> string \<Rightarrow> bool \<Rightarrow> (edit_error + string) option" where
  "replace content old new replace_all =
     (if old = new then Some (Inl NoChanges)
      else case try_each content new replace_all (candidates content old) True of
        (not_found, Some r) \<Rightarrow> Some (Inr r)
      | (not_found, None) \<Rightarrow>
          (case multi_loop content old new replace_all 0 not_found of
             None \<Rightarrow> None
           | Some (absent, Some r) \<Rightarrow> Some (Inr r)
           | Some (absent, None) \<Rightarrow> Some (Inl (if absent then NotFound else MultipleMatches))))"

end
