(* ===== verification/Edit_Theorems.thy ===== *)
theory Edit_Theorems
  imports Edit_Replace
begin

text \<open>
  Lemmas on the replacers: what the words of a text are under every normalisation they use, when the search loops end, and
  that each strategy yields only text that reads like the text asked for.
\<close>

section \<open>Words\<close>

lemma words_of_dropWhile [simp]: "words_of (dropWhile is_space s) = words_of s"
  by (subst (1 2) words_of.simps) simp

lemma words_of_Nil [simp]: "words_of [] = []"
  by (simp add: words_of.simps)

lemma words_of_space [simp]: "is_space c \<Longrightarrow> words_of (c # s) = words_of s"
  by (metis dropWhile.simps(2) words_of_dropWhile)

lemma words_of_nonspace: "\<not> is_space c \<Longrightarrow> words_of (c # s) = (c # takeWhile (\<lambda>x. \<not> is_space x) s) # words_of (dropWhile (\<lambda>x. \<not> is_space x) s)"
  by (simp add: words_of.simps [of "c # s"])

lemma words_of_spaces: "list_all is_space s \<Longrightarrow> words_of s = []"
  by (induction s) auto

lemma words_of_spaces_append: "list_all is_space s \<Longrightarrow> words_of (s @ t) = words_of t"
  by (induction s) auto

text \<open>A space separates words.\<close>

lemma words_of_append_space: "is_space c \<Longrightarrow> words_of (s @ c # t) = words_of s @ words_of t"
proof (induction s rule: length_induct)
  case (1 s)
  show ?case
  proof (cases s)
    case Nil
    with 1 show ?thesis by simp
  next
    case (Cons d ds)
    show ?thesis
    proof (cases "is_space d")
      case True
      with 1 Cons show ?thesis by simp
    next
      case False
      have take: "takeWhile (\<lambda>x. \<not> is_space x) (ds @ c # t) = takeWhile (\<lambda>x. \<not> is_space x) ds"
        using \<open>is_space c\<close> by (induction ds) auto
      have drop: "dropWhile (\<lambda>x. \<not> is_space x) (ds @ c # t) = dropWhile (\<lambda>x. \<not> is_space x) ds @ c # t"
        using \<open>is_space c\<close> by (induction ds) auto
      have "length (dropWhile (\<lambda>x. \<not> is_space x) ds) < length s" using Cons length_dropWhile_le [of _ ds] by (simp add: less_Suc_eq_le)
      with 1 have "words_of (dropWhile (\<lambda>x. \<not> is_space x) ds @ c # t) = words_of (dropWhile (\<lambda>x. \<not> is_space x) ds) @ words_of t" by blast
      with Cons False take drop show ?thesis by (simp add: words_of_nonspace)
    qed
  qed
qed

lemma words_of_gap: "list_all is_space g \<Longrightarrow> g \<noteq> [] \<Longrightarrow> words_of (s @ g @ t) = words_of s @ words_of t"
  by (cases g) (simp_all add: words_of_append_space words_of_spaces_append)

lemma words_of_append_spaces: "list_all is_space g \<Longrightarrow> words_of (s @ g) = words_of s"
  using words_of_gap [of g s "[]"] by (cases "g = []") simp_all

definition is_word :: "string \<Rightarrow> bool" where
  "is_word w \<longleftrightarrow> w \<noteq> [] \<and> list_all (\<lambda>c. \<not> is_space c) w"

lemma words_of_word: "is_word w \<Longrightarrow> words_of w = [w]"
proof -
  assume w: "is_word w"
  then obtain c cs where cs: "w = c # cs" "\<not> is_space c" "\<forall>x\<in>set cs. \<not> is_space x"
    by (cases w) (auto simp: is_word_def list_all_iff)
  then have "takeWhile (\<lambda>x. \<not> is_space x) cs = cs" "dropWhile (\<lambda>x. \<not> is_space x) cs = []" by simp_all
  with cs words_of_nonspace [OF cs(2), of cs] show ?thesis by simp
qed

lemma words_are_words: "w \<in> set (words_of s) \<Longrightarrow> is_word w"
proof (induction s rule: length_induct)
  case (1 s)
  show ?case
  proof (cases s)
    case (Cons d ds)
    have "length (dropWhile (\<lambda>x. \<not> is_space x) ds) < length s" using Cons length_dropWhile_le [of _ ds] by (simp add: less_Suc_eq_le)
    with 1(1) have IH: "w \<in> set (words_of (dropWhile (\<lambda>x. \<not> is_space x) ds)) \<Longrightarrow> is_word w" by blast
    from 1(1) Cons have IH': "w \<in> set (words_of ds) \<Longrightarrow> is_word w" by auto
    have "\<not> is_space d \<Longrightarrow> is_word (d # takeWhile (\<lambda>x. \<not> is_space x) ds)" by (auto simp: is_word_def list_all_iff dest: set_takeWhileD)
    with 1(2) Cons IH IH' show ?thesis by (cases "is_space d") (auto simp: words_of_nonspace)
  qed (use 1 in simp)
qed

subsection \<open>Normalisations keep the words\<close>

lemma rstrip_split: "\<exists>g. s = rstrip s @ g \<and> list_all is_space g"
proof -
  have "rev s = takeWhile is_space (rev s) @ dropWhile is_space (rev s)" by simp
  then have "s = rstrip s @ rev (takeWhile is_space (rev s))" unfolding rstrip_def by (metis rev_append rev_rev_ident)
  then show ?thesis by (metis list_all_iff set_rev set_takeWhileD)
qed

lemma words_of_rstrip [simp]: "words_of (rstrip s) = words_of s"
  using rstrip_split [of s] by (metis words_of_append_spaces)

lemma words_of_strip [simp]: "words_of (strip s) = words_of s"
  by (simp add: strip_eq lstrip_def)

lemma squash_takeWhile: "takeWhile (\<lambda>x. \<not> is_space x) (squash s) = takeWhile (\<lambda>x. \<not> is_space x) s"
  by (induction s rule: squash.induct) (auto simp: is_space_def)

lemma squash_dropWhile: "dropWhile (\<lambda>x. \<not> is_space x) (squash s) = squash (dropWhile (\<lambda>x. \<not> is_space x) s)"
  by (induction s rule: squash.induct) (auto simp: is_space_def)

lemma words_of_squash [simp]: "words_of (squash s) = words_of s"
proof (induction s rule: length_induct)
  case (1 s)
  show ?case
  proof (cases s)
    case (Cons d ds)
    show ?thesis
    proof (cases "is_space d")
      case True
      have "length (dropWhile is_space ds) < length s" using Cons length_dropWhile_le [of is_space ds] by (simp add: less_Suc_eq_le)
      with 1 have "words_of (squash (dropWhile is_space ds)) = words_of (dropWhile is_space ds)" by blast
      with Cons True show ?thesis by (simp add: is_space_def)
    next
      case False
      have "length (dropWhile (\<lambda>x. \<not> is_space x) ds) < length s" using Cons length_dropWhile_le [of _ ds] by (simp add: less_Suc_eq_le)
      with 1 have "words_of (squash (dropWhile (\<lambda>x. \<not> is_space x) ds)) = words_of (dropWhile (\<lambda>x. \<not> is_space x) ds)" by blast
      with Cons False show ?thesis by (simp add: words_of_nonspace squash_takeWhile squash_dropWhile)
    qed
  qed simp
qed

lemma newline_space [simp]: "is_space newline"
  by (simp add: is_space_def newline_def)

lemma words_of_unlines: "words_of (unlines ls) = concat (map words_of ls)"
  by (induction ls) (auto simp: unlines_def join_Cons words_of_append_space)

lemma words_of_lines: "concat (map words_of (lines_of s)) = words_of s"
  using words_of_unlines [of "lines_of s"] by simp

lemma words_of_drop_indent: "n \<le> indent_of l \<Longrightarrow> words_of (drop n l) = words_of l"
proof -
  assume n: "n \<le> indent_of l"
  have l: "l = takeWhile is_space l @ lstrip l" by (simp add: lstrip_def)
  then have "indent_of l = length (takeWhile is_space l)"
    unfolding indent_of_def by (metis add_diff_cancel_right' length_append)
  with n l have "drop n l = drop n (takeWhile is_space l) @ lstrip l" by (metis diff_is_0_eq drop_0 drop_append)
  moreover have "list_all is_space (drop n (takeWhile is_space l))" by (auto simp: list_all_iff dest!: in_set_dropD set_takeWhileD)
  ultimately show ?thesis by (simp add: words_of_spaces_append lstrip_def)
qed

lemma words_of_remove_indent [simp]: "words_of (remove_indent s) = words_of s"
proof (cases "filter (\<lambda>l. strip l \<noteq> []) (lines_of s) = []")
  case False
  let ?n = "Min (set (map indent_of (filter (\<lambda>l. strip l \<noteq> []) (lines_of s))))"
  have "words_of (if strip l = [] then l else drop ?n l) = words_of l" if "l \<in> set (lines_of s)" for l
    using that by (auto intro: words_of_drop_indent Min_le)
  then have "map words_of (map (\<lambda>l. if strip l = [] then l else drop ?n l) (lines_of s)) = map words_of (lines_of s)"
    unfolding map_map by (intro map_cong) simp_all
  then have "words_of (unlines (map (\<lambda>l. if strip l = [] then l else drop ?n l) (lines_of s))) = words_of s"
    by (simp only: words_of_unlines words_of_lines)
  with False show ?thesis by (simp only: remove_indent_def Let_def if_False)
qed (simp add: remove_indent_def)

lemma match_words_reads: "match_words ws s = Some m \<Longrightarrow> list_all is_word ws \<Longrightarrow> words_of m = ws"
proof (induction ws s arbitrary: m rule: match_words.induct)
  case (3 w v ws s)
  let ?rest = "drop (length w) s"
  let ?gap = "takeWhile is_space ?rest"
  from 3(2) obtain m' where m: "match_words (v # ws) (drop (length ?gap) ?rest) = Some m'" "m = w @ ?gap @ m'"
    and gap: "?gap \<noteq> []" and st: "starts_with w s"
    by (auto simp: Let_def split: if_splits)
  have "words_of m' = v # ws" using 3(1) [OF _ refl refl gap m(1)] st 3(3) by simp
  moreover have "list_all is_space ?gap" by (auto simp: list_all_iff dest: set_takeWhileD)
  ultimately show ?case using m(2) gap 3(3) by (simp add: words_of_gap words_of_word)
qed (auto simp: words_of_word split: if_splits)

lemma search_words_reads: "search_words ws s = Some m \<Longrightarrow> list_all is_word ws \<Longrightarrow> words_of m = ws"
  by (induction s) (auto split: option.splits intro: match_words_reads)

section \<open>What a strategy may yield\<close>

text \<open>
  A found text reads like the one asked for when it has the same words (it differs in whitespace only), when one is the other
  unescaped, or when both have at least three lines and begin and end with the same lines up to whitespace.
\<close>

definition same_anchors :: "string \<Rightarrow> string \<Rightarrow> bool" where
  "same_anchors old found \<longleftrightarrow> length (lines_of old) \<ge> 3 \<and> length (lines_of found) \<ge> 3 \<and>
     words_of (hd (lines_of found)) = words_of (hd (lines_of old)) \<and>
     (words_of (last (lines_of found)) = words_of (last (lines_of old)) \<or>
      last (lines_of old) = [] \<and> words_of (last (lines_of found)) = words_of (last (butlast (lines_of old))))"

definition reads_like :: "string \<Rightarrow> string \<Rightarrow> bool" where
  "reads_like old found \<longleftrightarrow> words_of found = words_of old \<or> unescape found = unescape old \<or> found = unescape old \<or> same_anchors old found"

lemma blocks_wf: "block \<in> set (blocks n (lines_of s)) \<Longrightarrow> n > 0 \<Longrightarrow> wf_lines block \<and> length block = n"
proof -
  assume "block \<in> set (blocks n (lines_of s))" "n > 0"
  then obtain i where i: "block = take n (drop i (lines_of s))" "i < Suc (length (lines_of s)) - n" by (auto simp: blocks_def)
  then have len: "length block = n" by simp
  moreover have "list_all (\<lambda>l. newline \<notin> set l) block"
    using wf_lines_of [of s] i(1) by (auto simp: wf_lines_def list_all_iff dest: in_set_takeD in_set_dropD)
  ultimately show ?thesis using \<open>n > 0\<close> by (auto simp: wf_lines_def)
qed

lemma words_of_map_strip: "map strip ls = map strip ls' \<Longrightarrow> words_of (unlines ls) = words_of (unlines ls')"
proof -
  assume "map strip ls = map strip ls'"
  then have "map words_of (map strip ls) = map words_of (map strip ls')" by simp
  then show ?thesis by (simp add: words_of_unlines comp_def)
qed

lemma line_trimmed_reads: "found \<in> set (line_trimmed_replacer content old) \<Longrightarrow> words_of found = words_of old"
  unfolding line_trimmed_replacer_def using words_of_map_strip [of _ "lines_of old"] by auto

lemma normalize_reads: "normalize_ws s = normalize_ws t \<Longrightarrow> words_of s = words_of t"
  unfolding normalize_ws_def by (metis words_of_squash words_of_strip)

lemma whitespace_normalized_reads: "found \<in> set (whitespace_normalized_replacer content old) \<Longrightarrow> words_of found = words_of old"
proof -
  have "words_of m = words_of old" if "search_words (words_of (strip old)) l = Some m" for l m
    using search_words_reads [OF that] words_are_words [of _ old] by (simp add: list_all_iff)
  then show "found \<in> set (whitespace_normalized_replacer content old) \<Longrightarrow> ?thesis"
    unfolding whitespace_normalized_replacer_def normalized_in_line_def
    by (auto split: if_splits option.splits dest: normalize_reads)
qed

lemma indentation_flexible_reads: "found \<in> set (indentation_flexible_replacer content old) \<Longrightarrow> words_of found = words_of old"
  unfolding indentation_flexible_replacer_def by (auto dest!: arg_cong [of "remove_indent _" _ words_of])

lemma trimmed_boundary_reads: "found \<in> set (trimmed_boundary_replacer content old) \<Longrightarrow> words_of found = words_of old"
  unfolding trimmed_boundary_replacer_def by (auto split: if_splits dest!: arg_cong [of "strip _" _ words_of])

lemma escape_normalized_reads: "found \<in> set (escape_normalized_replacer content old) \<Longrightarrow> unescape found = unescape old \<or> found = unescape old"
  unfolding escape_normalized_replacer_def by (auto split: if_splits)

subsection \<open>Anchored blocks\<close>

lemma find_in: "find P xs = Some x \<Longrightarrow> x \<in> set xs \<and> P x"
  by (induction xs) (auto split: if_splits)

lemma anchoredD:
  assumes "(i, j) \<in> set (anchored ls a z)"
  shows "i + 2 \<le> j \<and> j < length ls \<and> strip (ls ! i) = a \<and> strip (ls ! j) = z"
  using assms by (auto simp: anchored_def first_end_def find_Some_iff find_Some_iff2 split: if_splits option.splits)

lemma span_anchors:
  assumes "(i, j) \<in> set (anchored (lines_of content) a z)"
  shows "wf_lines (line_span (lines_of content) i j) \<and> length (line_span (lines_of content) i j) \<ge> 3 \<and>
    strip (hd (line_span (lines_of content) i j)) = a \<and> strip (last (line_span (lines_of content) i j)) = z"
proof -
  let ?ls = "lines_of content" let ?b = "line_span ?ls i j"
  note ij = anchoredD [OF assms]
  then have len: "length ?b = Suc j - i" by (auto simp: line_span_def min_def)
  from ij obtain k where "j = i + k" using le_iff_add [of i j] by auto
  with ij have "?b ! 0 = ?ls ! i" "?b ! (j - i) = ?ls ! j" by (simp_all add: line_span_def)
  then have "hd ?b = ?ls ! i" "last ?b = ?ls ! j" using len ij by (simp_all add: hd_conv_nth last_conv_nth flip: length_greater_0_conv)
  moreover have "list_all (\<lambda>l. newline \<notin> set l) ?b"
    using wf_lines_of [of content] by (auto simp: line_span_def wf_lines_def list_all_iff dest: in_set_takeD in_set_dropD)
  ultimately show ?thesis using len ij by (auto simp: wf_lines_def)
qed

lemma same_anchors_span:
  assumes "(i, j) \<in> set (anchored (lines_of content) (strip f) (strip l))" and "length (lines_of old) \<ge> 3" and "f = hd (lines_of old)"
    and "l = last (lines_of old) \<or> last (lines_of old) = [] \<and> l = last (butlast (lines_of old))"
  shows "same_anchors old (unlines (line_span (lines_of content) i j))"
proof -
  note b = span_anchors [OF assms(1)]
  have "words_of (hd (line_span (lines_of content) i j)) = words_of f" "words_of (last (line_span (lines_of content) i j)) = words_of l"
    using b words_of_strip by metis+
  with b assms(2-4) show ?thesis by (auto simp: same_anchors_def)
qed

lemma best_candidate_from:
  "best_candidate ls m cs best_sim blk = (sim, Some b) \<Longrightarrow> blk = Some b \<or> (\<exists>(i, j)\<in>set cs. b = unlines (line_span ls i j))"
  by (induction ls m cs best_sim blk rule: best_candidate.induct) (auto simp: Let_def split: if_splits)

lemma block_anchor_reads: "found \<in> set (block_anchor_replacer content old) \<Longrightarrow> same_anchors old found"
proof -
  assume found: "found \<in> set (block_anchor_replacer content old)"
  let ?cs = "anchored (lines_of content) (strip (hd (lines_of old))) (strip (last (lines_of old)))"
  from found have len: "length (lines_of old) \<ge> 3" by (simp add: block_anchor_replacer_def Let_def split: if_splits)
  have "\<exists>i j. (i, j) \<in> set ?cs \<and> found = unlines (line_span (lines_of content) i j)"
  proof (cases ?cs rule: remdups_adj.cases)
    case (3 x y cs)
    have ne: "block_anchor_replacer content old = (case best_candidate (lines_of content) (middle (lines_of old)) ?cs 0 None of
        (best_sim, None) \<Rightarrow> []
      | (best_sim, Some block) \<Rightarrow> if best_sim \<ge> MULTIPLE_CANDIDATES_SIMILARITY \<and> block \<noteq> [] then [block] else [])"
      using len 3 unfolding block_anchor_replacer_def Let_def by (cases x) simp
    obtain sim where "best_candidate (lines_of content) (middle (lines_of old)) ?cs 0 None = (sim, Some found)"
      using found unfolding ne by (cases "best_candidate (lines_of content) (middle (lines_of old)) ?cs 0 None")
        (auto split: option.splits if_splits)
    from best_candidate_from [OF this] show ?thesis by auto
  qed (use found len in \<open>auto simp: block_anchor_replacer_def Let_def split: if_splits\<close>)
  then show ?thesis using same_anchors_span [OF _ len refl] by blast
qed

lemma context_aware_reads: "found \<in> set (context_aware_replacer content old) \<Longrightarrow> same_anchors old found"
proof -
  assume found: "found \<in> set (context_aware_replacer content old)"
  let ?f = "if last (lines_of old) = [] then butlast (lines_of old) else lines_of old"
  from found have len: "length (lines_of old) \<ge> 3" by (simp add: context_aware_replacer_def Let_def split: if_splits)
  then have hd: "hd ?f = hd (lines_of old)" by (cases "lines_of old") auto
  from found obtain i j where ij: "(i, j) \<in> set (anchored (lines_of content) (strip (hd ?f)) (strip (last ?f)))"
      "found = unlines (line_span (lines_of content) i j)"
    using len by (auto simp: context_aware_replacer_def Let_def simp del: split_paired_Ex split: if_splits option.splits dest!: find_in find_in [OF sym])
  from same_anchors_span [OF ij(1) len hd] ij(2) show ?thesis by auto
qed

section \<open>The search loops\<close>

lemma try_search_once: "occurs_once p content i \<Longrightarrow> try_search content new False p = Replaced (take i content @ new @ drop (i + length p) content)"
  by (simp add: try_search_def occurs_once_iff)

lemma try_search_Replaced:
  "try_search content new False p = Replaced r \<longleftrightarrow> (\<exists>i. occurs_once p content i \<and> r = take i content @ new @ drop (i + length p) content)"
  by (auto simp: try_search_def occurs_once_iff split: option.splits if_splits)

lemma try_search_all: "try_search content new True p = (if contains p content then Replaced (str_replace p new content) else Absent)"
  by (auto simp: try_search_def contains_find split: option.splits)

lemma try_each_Replaced: "try_each content new ra searches nf = (nf', Some r) \<Longrightarrow> \<exists>p\<in>set searches. try_search content new ra p = Replaced r"
  by (induction searches arbitrary: nf) (auto split: attempt.splits)

lemma try_each_None: "try_each content new ra searches nf = (nf', None) \<Longrightarrow> p \<in> set searches \<Longrightarrow> \<exists>q. try_search content new ra p = q \<and> q \<in> {Absent, Ambiguous}"
  by (induction searches arbitrary: nf) (auto split: attempt.splits)

text \<open>The contract of a strategy, which all eight and their concatenation keep.\<close>

locale replacer =
  fixes yields :: "string \<Rightarrow> string \<Rightarrow> string list"
  assumes yields_reads: "found \<in> set (yields content old) \<Longrightarrow> reads_like old found"
begin

lemma replaced_reads:
  assumes "try_each content new False (yields content old) nf = (nf', Some r)"
  shows "\<exists>i found. occurs_once found content i \<and> r = take i content @ new @ drop (i + length found) content \<and> reads_like old found"
  using try_each_Replaced [OF assms] unfolding try_search_Replaced by (blast dest: yields_reads)

end

interpretation simple: replacer simple_replacer
  by unfold_locales (auto simp: simple_replacer_def reads_like_def split: if_splits)

interpretation line_trimmed: replacer line_trimmed_replacer
  by unfold_locales (auto simp: reads_like_def dest: line_trimmed_reads)

interpretation block_anchor: replacer block_anchor_replacer
  by unfold_locales (auto simp: reads_like_def dest: block_anchor_reads)

interpretation whitespace_normalized: replacer whitespace_normalized_replacer
  by unfold_locales (auto simp: reads_like_def dest: whitespace_normalized_reads)

interpretation indentation_flexible: replacer indentation_flexible_replacer
  by unfold_locales (auto simp: reads_like_def dest: indentation_flexible_reads)

interpretation escape_normalized: replacer escape_normalized_replacer
  by unfold_locales (auto simp: reads_like_def dest: escape_normalized_reads)

interpretation trimmed_boundary: replacer trimmed_boundary_replacer
  by unfold_locales (auto simp: reads_like_def dest: trimmed_boundary_reads)

interpretation context_aware: replacer context_aware_replacer
  by unfold_locales (auto simp: reads_like_def dest: context_aware_reads)

interpretation strategies: replacer candidates
  by unfold_locales (auto simp: candidates_def dest: simple.yields_reads line_trimmed.yields_reads block_anchor.yields_reads
      whitespace_normalized.yields_reads indentation_flexible.yields_reads escape_normalized.yields_reads
      trimmed_boundary.yields_reads context_aware.yields_reads)

section \<open>The loop over all occurrences\<close>

lemma multi_loop_returns: "old \<noteq> [] \<Longrightarrow> \<exists>r. multi_loop content old new ra start nf = Some r"
proof (induction "Suc (length content) - start" arbitrary: start nf rule: less_induct)
  case less
  show ?case
  proof (cases "find_at old content start")
    case None
    then show ?thesis by (simp add: multi_loop.simps)
  next
    case (Some idx)
    with find_at_Some [OF Some] find_at_bound [OF Some] less.prems
    have "Suc (length content) - (idx + length old) < Suc (length content) - start"
      using length_greater_0_conv [of old] by linarith
    from less.hyps [OF this less.prems] Some show ?thesis
      by (subst multi_loop.simps) (auto split: attempt.splits)
  qed
qed

lemma multi_loop_result:
  assumes ret: "multi_loop content old new ra start nf = Some res"
  shows "\<forall>b r. res = (b, Some r) \<longrightarrow> try_search content new ra old = Replaced r"
proof (rule multi_loop.raw_induct [where P = "\<lambda>content old new ra start nf res. \<forall>b r. res = (b, Some r) \<longrightarrow>
      try_search content new ra old = Replaced r", OF _ ret])
  fix loop content old new ra start nf res
  assume IH: "\<And>content old new ra start nf res. loop content old new ra start nf = Some res \<Longrightarrow>
      \<forall>b r. res = (b, Some r) \<longrightarrow> try_search content new ra old = Replaced r"
    and eq: "(case find_at old content start of None \<Rightarrow> Some (nf, None)
      | Some idx \<Rightarrow> (case try_search content new ra old of Absent \<Rightarrow> loop content old new ra (idx + length old) nf
          | Ambiguous \<Rightarrow> loop content old new ra (idx + length old) False | Replaced r \<Rightarrow> Some (False, Some r))) = Some res"
  then show "\<forall>b r. res = (b, Some r) \<longrightarrow> try_search content new ra old = Replaced r"
    by (auto split: option.splits attempt.splits dest!: IH)
qed

lemma multi_loop_Replaced: "multi_loop content old new ra start nf = Some (b, Some r) \<Longrightarrow> try_search content new ra old = Replaced r"
  using multi_loop_result by blast

text \<open>An empty text is found again at the position where it was found before.\<close>

lemma find_at_empty: "start \<le> length content \<Longrightarrow> find_at [] content start = Some start"
  by (cases "drop start content") (simp_all add: find_at_def)

lemma multi_loop_hangs:
  assumes "try_search content new ra [] = Ambiguous" and "start \<le> length content"
  shows "multi_loop content [] new ra start nf = None"
proof (rule ccontr)
  assume "multi_loop content [] new ra start nf \<noteq> None"
  then obtain res where res: "multi_loop content [] new ra start nf = Some res" by blast
  have "\<not> (try_search content new ra [] = Ambiguous \<and> start \<le> length content \<and> [] = ([] :: string))"
  proof (rule multi_loop.raw_induct [where P = "\<lambda>content old new ra start nf res.
        \<not> (try_search content new ra old = Ambiguous \<and> start \<le> length content \<and> old = [])", OF _ res])
    fix loop content old new ra start nf res
    assume IH: "\<And>content old new ra start nf res. loop content old new ra start nf = Some res \<Longrightarrow>
        \<not> (try_search content new ra old = Ambiguous \<and> start \<le> length content \<and> old = [])"
      and eq: "(case find_at old content start of None \<Rightarrow> Some (nf, None)
        | Some idx \<Rightarrow> (case try_search content new ra old of Absent \<Rightarrow> loop content old new ra (idx + length old) nf
            | Ambiguous \<Rightarrow> loop content old new ra (idx + length old) False | Replaced r \<Rightarrow> Some (False, Some r))) = Some res"
    then show "\<not> (try_search content new ra old = Ambiguous \<and> start \<le> length content \<and> old = [])"
      by (auto simp: find_at_empty dest: IH)
  qed
  with assms show False by simp
qed

lemma empty_ambiguous: "content \<noteq> [] \<Longrightarrow> try_search content new False [] = Ambiguous"
proof -
  assume "content \<noteq> []"
  moreover have "str_rfind [] content = Some (length content)" by (simp add: str_rfind_Some)
  ultimately show ?thesis by (cases content) (simp_all add: try_search_def)
qed

text \<open>Searching for nothing finds nothing but blank lines.\<close>

lemma blank_candidates:
  assumes "p \<in> set (candidates content [])"
  shows "p = [] \<or> p \<in> set (lines_of content) \<and> strip p = []"
proof -
  have one: "blocks (Suc 0) ls = map (\<lambda>l. [l]) ls" for ls :: "string list"
    by (auto simp: blocks_def take_Suc_conv_app_nth intro!: nth_equalityI)
  have ri: "remove_indent s = [] \<Longrightarrow> words_of s = []" for s by (metis words_of_Nil words_of_remove_indent)
  have ws: "words_of s = [] \<Longrightarrow> list_all is_space s" for s
  proof (induction s)
    case (Cons c s) then show ?case by (cases "is_space c") (simp_all add: words_of_nonspace)
  qed simp
  have un: "unescape s = [] \<Longrightarrow> s = []" for s by (cases s rule: unescape.cases) (auto split: if_splits option.splits)
  have strip_nil: "strip [] = []" by (simp add: strip_def)
  have norm: "normalize_ws s = [] \<Longrightarrow> strip s = []" for s
    using normalize_reads [of s "[]"] ws [of s] by (simp add: strip_Nil_iff normalize_ws_def strip_nil)
  have nil: "words_of (strip []) = []" by simp
  from assms show ?thesis
    by (auto simp: candidates_def simple_replacer_def line_trimmed_replacer_def block_anchor_replacer_def
        whitespace_normalized_replacer_def normalized_in_line_def indentation_flexible_replacer_def
        escape_normalized_replacer_def trimmed_boundary_replacer_def context_aware_replacer_def one strip_nil unlines_def
        normalize_ws_def [of "[]"] remove_indent_def [of "[]"] strip_Nil_iff
        split: if_splits dest!: un ri ws norm)
qed

lemma replace_cases:
  assumes "replace content old new ra = Some (Inr r)"
  obtains p where "p \<in> insert old (set (candidates content old))" "try_search content new ra p = Replaced r"
  using assms by (auto simp: replace_def dest!: try_each_Replaced multi_loop_Replaced split: if_splits prod.splits option.splits)

lemma replace_once:
  assumes "occurs_once old content i"
  shows "replace content old new False =
    (if old = new then Some (Inl NoChanges) else Some (Inr (take i content @ new @ drop (i + length old) content)))"
proof -
  have "contains old content" using assms by (auto simp: contains_iff occurs_once_def)
  then obtain rest where rest: "candidates content old = old # rest" by (simp add: candidates_def simple_replacer_def)
  have "try_each content new False (candidates content old) True = (False, Some (take i content @ new @ drop (i + length old) content))"
    unfolding rest using try_search_once [OF assms, of new] by simp
  then show ?thesis by (simp add: replace_def)
qed

text \<open>The flag stays set exactly when nothing was found.\<close>

lemma try_each_flag:
  "try_each content new False searches nf = (nf', None) \<Longrightarrow>
    (nf' \<longleftrightarrow> nf \<and> (\<forall>p\<in>set searches. \<not> contains p content)) \<and> (\<forall>p\<in>set searches. \<forall>i. \<not> occurs_once p content i)"
proof (induction searches arbitrary: nf)
  case (Cons p searches)
  have absent: "try_search content new False p = Absent \<longleftrightarrow> \<not> contains p content"
    by (auto simp: try_search_def contains_find split: option.splits if_splits)
  have once: "(\<exists>r. try_search content new False p = Replaced r) \<longleftrightarrow> (\<exists>i. occurs_once p content i)"
    by (auto simp: try_search_Replaced)
  from Cons show ?case using absent once by (cases "try_search content new False p") auto
qed simp

lemma multi_loop_flag:
  assumes ret: "multi_loop content old new ra start nf = Some res"
  shows "\<forall>nf'. res = (nf', None) \<longrightarrow> (nf' \<longrightarrow> nf) \<and> (\<not> contains old content \<longrightarrow> nf' = nf)"
proof (rule multi_loop.raw_induct [where P = "\<lambda>content old new ra start nf res. \<forall>nf'. res = (nf', None) \<longrightarrow>
      (nf' \<longrightarrow> nf) \<and> (\<not> contains old content \<longrightarrow> nf' = nf)", OF _ ret])
  fix loop content old new ra start nf res
  assume IH: "\<And>content old new ra start nf res. loop content old new ra start nf = Some res \<Longrightarrow>
      \<forall>nf'. res = (nf', None) \<longrightarrow> (nf' \<longrightarrow> nf) \<and> (\<not> contains old content \<longrightarrow> nf' = nf)"
    and eq: "(case find_at old content start of None \<Rightarrow> Some (nf, None)
      | Some idx \<Rightarrow> (case try_search content new ra old of Absent \<Rightarrow> loop content old new ra (idx + length old) nf
          | Ambiguous \<Rightarrow> loop content old new ra (idx + length old) False | Replaced r \<Rightarrow> Some (False, Some r))) = Some res"
  show "\<forall>nf'. res = (nf', None) \<longrightarrow> (nf' \<longrightarrow> nf) \<and> (\<not> contains old content \<longrightarrow> nf' = nf)"
  proof (cases "find_at old content start")
    case (Some idx)
    then have "contains old content" using find_at_Some contains_iff by blast
    with Some eq show ?thesis by (auto split: attempt.splits dest!: IH)
  qed (use eq in auto)
qed

lemma candidates_old: "contains old content \<Longrightarrow> old \<in> set (candidates content old)"
  by (simp add: candidates_def simple_replacer_def)

lemma replace_refused:
  assumes "replace content old new False = Some (Inl e)" and "old \<noteq> new"
  shows "(\<forall>found\<in>insert old (set (candidates content old)). (\<forall>i. \<not> occurs_once found content i) \<and> (e = NotFound \<longrightarrow> \<not> contains found content)) \<and>
    (e = NotFound \<or> e = MultipleMatches)"
proof -
  obtain nf res where each: "try_each content new False (candidates content old) True = (nf, res)" by fastforce
  with assms have "res = None" by (cases res) (simp_all add: replace_def)
  with each assms obtain nf' res' where loop: "multi_loop content old new False 0 nf = Some (nf', res')"
    by (cases "multi_loop content old new False 0 nf") (auto simp: replace_def)
  with each assms \<open>res = None\<close> have "res' = None" and e: "e = (if nf' then NotFound else MultipleMatches)"
    by (auto simp: replace_def split: option.splits)
  note each = each [unfolded \<open>res = None\<close>] and loop = loop [unfolded \<open>res' = None\<close>]
  note flag = try_each_flag [OF each]
  have "nf' \<Longrightarrow> nf" using multi_loop_flag [OF loop] by blast
  moreover have "occurs_once old content i \<Longrightarrow> old \<in> set (candidates content old)" for i
    using candidates_old by (auto simp: occurs_once_def contains_iff)
  moreover have "contains old content \<Longrightarrow> \<not> nf" using flag candidates_old by blast
  ultimately show ?thesis using flag e by (cases nf') (auto simp: split: if_splits)
qed

end
