(* ===== verification/File_Tools.thy ===== *)
theory File_Tools
  imports Edit_Replace
begin

text \<open>
  The file tools around \<open>replace\<close>: paths (\<^verbatim>\<open>ToolContext.resolve_file_path\<close> of \<^verbatim>\<open>src/backend/tool/tool.py\<close>), the file server of the
  sandbox (\<^verbatim>\<open>read_file\<close> and \<^verbatim>\<open>write_file\<close> of \<^verbatim>\<open>src/container/action_server.py\<close>), the stale-edit tracker
  (\<^verbatim>\<open>src/backend/tool/filetime.py\<close>), and the tools \<^verbatim>\<open>write.py\<close>, \<^verbatim>\<open>edit.py\<close>, \<^verbatim>\<open>multiedit.py\<close> and \<^verbatim>\<open>apply_patch.py\<close>.

  The state is the table of the sandbox's files and the tracker's table of modification times. The formatter and the
  linter run in the sandbox are fields of \<open>tool_env\<close>, as are the faults of the transport. The recording of a change in the
  trajectory is not modelled, only the extra read it makes; the wording of a transport error is abbreviated
  and a dash stands for the long one of a message.
\<close>

section \<open>Paths\<close>

text \<open>\<^verbatim>\<open>posixpath.normpath\<close>: empty and dot components go, a double dot removes the component before it; two leading slashes stay.\<close>

fun norm_components :: "bool \<Rightarrow> string list \<Rightarrow> string list \<Rightarrow> string list" where
  "norm_components absolute [] out = rev out"
| "norm_components absolute (c # cs) out =
     (if c = [] \<or> c = ''.'' then norm_components absolute cs out
      else if c \<noteq> ''..'' \<or> (\<not> absolute \<and> out = []) \<or> (out \<noteq> [] \<and> hd out = ''..'') then norm_components absolute cs (c # out)
      else norm_components absolute cs (tl out))"

definition initial_slashes :: "string \<Rightarrow> nat" where
  "initial_slashes p = (if starts_with ''//'' p \<and> \<not> starts_with ''///'' p then 2 else if starts_with ''/'' p then 1 else 0)"

definition normpath :: "string \<Rightarrow> string" where
  "normpath p = (if p = [] then ''.''
     else let n = initial_slashes p;
              path = replicate n (CHR ''/'') @ join ''/'' (norm_components (n > 0) (split_on (CHR ''/'') p) [])
       in if path = [] then ''.'' else path)"

definition path_join :: "string \<Rightarrow> string \<Rightarrow> string" where
  "path_join a b = (if starts_with ''/'' b then b else if a = [] \<or> last a = CHR ''/'' then a @ b else a @ ''/'' @ b)"

datatype path_error = InvalidPath | WorkdirNotAbsolute

definition resolve_file_path :: "string \<Rightarrow> string \<Rightarrow> path_error + string" where
  "resolve_file_path workdir value =
     (if value = [] \<or> CHR 0x00 \<in> set value then Inl InvalidPath
      else let dir = normpath (if workdir = [] then ''/workspace'' else workdir)
        in if \<not> starts_with ''/'' dir then Inl WorkdirNotAbsolute
           else Inr (normpath (if starts_with ''/'' value then normpath value else path_join dir value)))"

section \<open>The file server\<close>

record file_row =
  fl_text :: string
  fl_mtime :: int

record desk =
  files :: "(string, file_row) table"
  mtimes :: "(ident \<times> string, int) table"

record tool_env =
  te_session :: ident
  te_workdir :: string
  te_server_cwd :: string
  te_clock :: int
  te_read_fails :: bool
  te_write_fails :: bool
  te_stat_fails :: bool
  te_formatter :: "(string \<Rightarrow> string \<Rightarrow> (string \<times> string) option) option"
  te_linter :: "(string \<Rightarrow> string \<Rightarrow> string) option"
  te_traced :: bool

datatype sandbox_error = FileMissing | TransportFailed

text \<open>A path as the server opens it: relative ones against its own working directory.\<close>

definition server_path :: "tool_env \<Rightarrow> string \<Rightarrow> string" where
  "server_path env p = normpath (path_join (te_server_cwd env) p)"

text \<open>Text mode: \<^verbatim>\<open>"\r\n"\<close> and \<^verbatim>\<open>"\r"\<close> are read as a newline.\<close>

fun universal_newlines :: "string \<Rightarrow> string" where
  "universal_newlines [] = []"
| "universal_newlines [c] = [if c = CHR 0x0D then newline else c]"
| "universal_newlines (c # d # s) =
     (if c = CHR 0x0D then newline # (if d = newline then universal_newlines s else universal_newlines (d # s))
      else c # universal_newlines (d # s))"

definition MAX_LINE_CHARS :: nat where "MAX_LINE_CHARS = 2000"

definition clip_line :: "string \<Rightarrow> string" where
  "clip_line line = (if length line > MAX_LINE_CHARS then take MAX_LINE_CHARS line @ ''... (truncated)'' else line)"

definition numbered :: "nat \<Rightarrow> string \<Rightarrow> string" where
  "numbered i line = ''     '' @ nat_text i @ [tabulator] @ clip_line line"

definition read_file :: "tool_env \<Rightarrow> string \<Rightarrow> int \<Rightarrow> nat \<Rightarrow> desk \<Rightarrow> sandbox_error + string" where
  "read_file env path offset limit s =
     (if te_read_fails env then Inl TransportFailed
      else case tget (files s) (server_path env path) of
        None \<Rightarrow> Inl FileMissing
      | Some f \<Rightarrow>
          let ls = lines_of (universal_newlines (fl_text f)); start = nat (max 0 offset)
          in Inr (unlines (map (\<lambda>(i, l). numbered i l) (enumerate (start + 1) (take limit (drop start ls))))))"

definition write_file :: "tool_env \<Rightarrow> string \<Rightarrow> string \<Rightarrow> desk \<Rightarrow> sandbox_error + desk" where
  "write_file env path text s =
     (if te_write_fails env then Inl TransportFailed
      else Inr (s\<lparr>files := tput (server_path env path) \<lparr>fl_text = text, fl_mtime = te_clock env\<rparr> (files s)\<rparr>))"

definition stat_mtime :: "tool_env \<Rightarrow> string \<Rightarrow> desk \<Rightarrow> int option" where
  "stat_mtime env path s = (if te_stat_fails env then None else map_option fl_mtime (tget (files s) (server_path env path)))"

section \<open>The tracker\<close>

definition tracked :: "tool_env \<Rightarrow> string \<Rightarrow> desk \<Rightarrow> int option" where
  "tracked env path s = tget (mtimes s) (te_session env, path)"

definition record_mtime :: "tool_env \<Rightarrow> string \<Rightarrow> desk \<Rightarrow> desk" where
  "record_mtime env path s = (case stat_mtime env path s of
       None \<Rightarrow> s | Some m \<Rightarrow> s\<lparr>mtimes := tput (te_session env, path) m (mtimes s)\<rparr>)"

definition stale_warning :: "tool_env \<Rightarrow> string \<Rightarrow> string \<Rightarrow> desk \<Rightarrow> string" where
  "stale_warning env warning path s = (case tracked env path s of
       None \<Rightarrow> []
     | Some recorded \<Rightarrow> (case stat_mtime env path s of
           None \<Rightarrow> [] | Some current_mtime \<Rightarrow> if current_mtime \<noteq> recorded then warning @ [newline] else []))"

section \<open>Tools\<close>

record tool_result =
  tr_title :: string
  tr_output :: string
  tr_error :: bool

definition path_message :: "path_error \<Rightarrow> string" where
  "path_message e = (case e of InvalidPath \<Rightarrow> ''file path is empty or invalid'' | WorkdirNotAbsolute \<Rightarrow> ''Session workdir is not absolute'')"

definition edit_message :: "edit_error \<Rightarrow> string" where
  "edit_message e = (case e of
       NoChanges \<Rightarrow> ''No changes to apply: oldString and newString are identical.''
     | NotFound \<Rightarrow> ''Could not find oldString in the file. It must match exactly, including whitespace, indentation, and line endings.''
     | MultipleMatches \<Rightarrow> ''Found multiple matches for oldString. Provide more surrounding context to make the match unique.'')"

definition sandbox_message :: "sandbox_error \<Rightarrow> string" where
  "sandbox_message e = (case e of FileMissing \<Rightarrow> ''File not found'' | TransportFailed \<Rightarrow> ''Sandbox unavailable'')"

definition error_outcome :: "string \<Rightarrow> string \<Rightarrow> tool_result" where
  "error_outcome title output = \<lparr>tr_title = title, tr_output = output, tr_error = True\<rparr>"

definition plain_outcome :: "string \<Rightarrow> string \<Rightarrow> tool_result" where
  "plain_outcome title output = \<lparr>tr_title = title, tr_output = output, tr_error = False\<rparr>"

fun strip_line_number :: "string \<Rightarrow> string" where
  "strip_line_number line = (case str_find [tabulator] line of None \<Rightarrow> line | Some i \<Rightarrow> drop (i + 1) line)"

definition strip_line_numbers :: "string \<Rightarrow> string" where
  "strip_line_numbers raw = unlines (map strip_line_number (lines_of raw))"

definition READ_LIMIT :: nat where "READ_LIMIT = 100000"

text \<open>What a tool sees of a file before it edits it.\<close>

definition current_text :: "tool_env \<Rightarrow> string \<Rightarrow> desk \<Rightarrow> sandbox_error + string" where
  "current_text env path s = rbind (read_file env path 0 READ_LIMIT s) (\<lambda>raw. Inr (strip_line_numbers raw))"

text \<open>The formatter rewrites the file in place and is named in the output.\<close>

definition auto_format :: "tool_env \<Rightarrow> string \<Rightarrow> desk \<Rightarrow> string option \<times> desk" where
  "auto_format env path s = (case (te_formatter env, tget (files s) (server_path env path)) of
       (Some format, Some f) \<Rightarrow> (case format path (fl_text f) of
           None \<Rightarrow> (None, s)
         | Some (name, text) \<Rightarrow> (Some name, s\<lparr>files := tput (server_path env path) \<lparr>fl_text = text, fl_mtime = te_clock env\<rparr> (files s)\<rparr>))
     | _ \<Rightarrow> (None, s))"

text \<open>
  What all three writing tools do after the write. With tracing on, a formatted file is read back under the path as the model gave
  it, outside any handler.
\<close>

definition after_write :: "tool_env \<Rightarrow> string \<Rightarrow> string \<Rightarrow> string \<Rightarrow> string \<Rightarrow> desk \<Rightarrow> (sandbox_error + tool_result) \<times> desk" where
  "after_write env raw_path path title output s =
     (let (formatter, s1) = auto_format env path s;
          output1 = output @ (case formatter of None \<Rightarrow> [] | Some name \<Rightarrow> [newline] @ ''(auto-formatted with '' @ name @ '')'')
      in case (if formatter \<noteq> None \<and> te_traced env then read_file env raw_path 0 READ_LIMIT s1 else Inr []) of
           Inl err \<Rightarrow> (Inl err, s1)
         | Inr _ \<Rightarrow>
             let findings = (case (te_linter env, tget (files s1) (server_path env path)) of
                               (Some lint, Some f) \<Rightarrow> lint path (fl_text f) | _ \<Rightarrow> [])
             in (Inr (plain_outcome title (output1 @ findings)), record_mtime env path s1))"

definition write_tool :: "tool_env \<Rightarrow> string \<Rightarrow> string \<Rightarrow> desk \<Rightarrow> (sandbox_error + tool_result) \<times> desk" where
  "write_tool env raw_path text s = (case resolve_file_path (te_workdir env) raw_path of
       Inl e \<Rightarrow> (Inr (plain_outcome (''Error writing '' @ raw_path) (path_message e)), s)
     | Inr path \<Rightarrow>
         let warning = stale_warning env ''WARNING: File has been modified since last read. The file was overwritten. Re-read to verify.'' path s
         in case write_file env path text s of
              Inl e \<Rightarrow> (Inr (error_outcome (''Error writing '' @ raw_path) (sandbox_message e)), s)
            | Inr s1 \<Rightarrow> after_write env raw_path path (''Wrote '' @ raw_path)
                (warning @ ''File written successfully: '' @ path @ '' ('' @ nat_text (utf8_length text) @ '' UTF-8 bytes)'') s1)"

text \<open>\<^verbatim>\<open>content.count(old)\<close>: occurrences that do not overlap.\<close>

function str_count :: "string \<Rightarrow> string \<Rightarrow> nat" where
  "str_count p s = (if p = [] then length s + 1
     else if starts_with p s then Suc (str_count p (drop (length p) s))
     else case s of [] \<Rightarrow> 0 | c # cs \<Rightarrow> str_count p cs)"
  by pat_completeness auto
termination
  by (relation "measure (\<lambda>(p, s). length s)") (auto simp: starts_with_iff)

declare str_count.simps [simp del]

text \<open>The outer option is \<open>None\<close> when \<open>replace\<close> does not return.\<close>

definition edit_tool :: "tool_env \<Rightarrow> string \<Rightarrow> string \<Rightarrow> string \<Rightarrow> bool \<Rightarrow> desk \<Rightarrow> ((sandbox_error + tool_result) \<times> desk) option" where
  "edit_tool env raw_path old new replace_all s = (case resolve_file_path (te_workdir env) raw_path of
       Inl e \<Rightarrow> Some (Inr (plain_outcome (''Error editing '' @ raw_path) (path_message e)), s)
     | Inr path \<Rightarrow>
         let warning = stale_warning env ''WARNING: File has been modified since last read. The edit was applied, but you should re-read the file to verify.'' path s
         in case current_text env path s of
              Inl e \<Rightarrow> Some (Inr (error_outcome (''Error reading '' @ raw_path) (sandbox_message e)), s)
            | Inr content \<Rightarrow> (case replace content old new replace_all of
                None \<Rightarrow> None
              | Some (Inl e) \<Rightarrow> Some (Inr (error_outcome ''Edit failed'' (edit_message e @ '' (file: '' @ raw_path @ '')'')), s)
              | Some (Inr new_content) \<Rightarrow>
                  let count = (if replace_all \<and> str_count old content \<noteq> 0 then str_count old content else 1)
                  in Some (case write_file env path new_content s of
                       Inl e \<Rightarrow> (Inr (error_outcome (''Error writing '' @ raw_path) (sandbox_message e)), s)
                     | Inr s1 \<Rightarrow> after_write env raw_path path (''Edited '' @ raw_path)
                         (warning @ ''Replaced '' @ nat_text count @ '' occurrence(s)'') s1)))"

definition MAX_EDITS :: nat where "MAX_EDITS = 50"

text \<open>The edits one after the other: the lines of the report, and the error or the resulting text.\<close>

fun apply_edits :: "(string \<times> string) list \<Rightarrow> nat \<Rightarrow> string \<Rightarrow> string list \<Rightarrow> (string list \<times> (nat + string)) option" where
  "apply_edits [] i content results = Some (results, Inr content)"
| "apply_edits ((old, new) # edits) i content results = (case replace content old new False of
       None \<Rightarrow> None
     | Some (Inl e) \<Rightarrow> Some (results @ [''Edit '' @ nat_text (i + 1) @ '': FAILED - '' @ edit_message e], Inl i)
     | Some (Inr content') \<Rightarrow> apply_edits edits (Suc i) content' (results @ [''Edit '' @ nat_text (i + 1) @ '': OK'']))"

definition multiedit_tool :: "tool_env \<Rightarrow> string \<Rightarrow> (string \<times> string) list \<Rightarrow> desk \<Rightarrow> ((sandbox_error + tool_result) \<times> desk) option" where
  "multiedit_tool env raw_path edits s =
     (if edits = [] then Some (Inr (plain_outcome ''MultiEdit: no edits'' ''No edits provided''), s)
      else if length edits > MAX_EDITS then Some (Inr (plain_outcome ''MultiEdit: too many edits'' ''Maximum 50 edits per call''), s)
      else case resolve_file_path (te_workdir env) raw_path of
        Inl e \<Rightarrow> Some (Inr (plain_outcome (''Error editing '' @ raw_path) (path_message e)), s)
      | Inr path \<Rightarrow>
          let warning = stale_warning env ''WARNING: File modified since last read. Edits applied but re-read to verify.'' path s
          in case current_text env path s of
               Inl e \<Rightarrow> Some (Inr (error_outcome (''Error reading '' @ raw_path) (sandbox_message e)), s)
             | Inr content \<Rightarrow> (case apply_edits edits 0 content [] of
                 None \<Rightarrow> None
               | Some (results, Inl i) \<Rightarrow> Some (Inr (error_outcome (''MultiEdit failed at edit '' @ nat_text (i + 1)) (warning @ unlines results)), s)
               | Some (results, Inr new_content) \<Rightarrow> Some (case write_file env path new_content s of
                     Inl e \<Rightarrow> (Inr (error_outcome (''Error writing '' @ raw_path) (sandbox_message e)), s)
                   | Inr s1 \<Rightarrow> after_write env raw_path path
                       (''MultiEdit '' @ raw_path @ '' ('' @ nat_text (length edits) @ '' edits)'') (warning @ unlines results) s1)))"

end
