(* ===== verification/Edit_Properties.thy ===== *)
theory Edit_Properties
  imports Edit_Theorems File_Tools
begin

text \<open>
  The properties of the edit tool: the edit distance it uses, what a successful edit does to the text, when it returns at all, and
  what it reads of the file.
\<close>

section \<open>Edit distance\<close>

text \<open>
  C25. The two-row routine computes the edit distance: it reaches the second string from the first in that many insertions,
  deletions and substitutions of single characters, and in no fewer; the similarity it gives lies between nought and one and is
  one exactly on equal strings.
\<close>

theorem levenshtein_is_edit_distance:
  "levenshtein s t = (LEAST n. (edit_step ^^ n) s t) \<and> (edit_step ^^ levenshtein s t) s t \<and>
   0 \<le> similarity s t \<and> similarity s t \<le> 1 \<and> (similarity s t = 1 \<longleftrightarrow> s = t)"
  using levenshtein_reaches levenshtein_least by (auto intro!: Least_equality [symmetric] similarity_range simp: similarity_1)

section \<open>What an edit does\<close>

text \<open>
  C23. A successful edit without \<^verbatim>\<open>replace_all\<close> changes one place. It replaces a text that occurs exactly once in the file, and leaves everything
  before and after it; that text reads like the one asked for (the same words, the same after unescaping, or at least three lines between
  the same first and last line), and is the text itself when that occurs exactly once.
\<close>

theorem edit_changes_one_place:
  assumes "replace content old new False = Some (Inr r)"
  shows "\<exists>i found. occurs_once found content i \<and> r = take i content @ new @ drop (i + length found) content \<and> reads_like old found \<and>
    (\<forall>j. occurs_once old content j \<longrightarrow> found = old)"
proof (cases "\<exists>j. occurs_once old content j")
  case True
  then obtain j where j: "occurs_once old content j" by blast
  have "r = take j content @ new @ drop (j + length old) content"
    using assms by (simp add: replace_once [OF j] split: if_splits)
  with j show ?thesis by (intro exI [of _ j] exI [of _ old]) (simp add: reads_like_def)
next
  case False
  from assms obtain p where p: "p \<in> insert old (set (candidates content old))" "try_search content new False p = Replaced r"
    by (rule replace_cases)
  from p(2) obtain i where i: "occurs_once p content i" "r = take i content @ new @ drop (i + length p) content"
    by (auto simp: try_search_Replaced)
  moreover have "reads_like old p" using p(1) strategies.yields_reads by (auto simp: reads_like_def)
  ultimately show ?thesis using False by blast
qed

theorem edit_changes_one_place_witness:
  "\<exists>i found. occurs_once found ''a  b, c'' i \<and> ''x, c'' = take i ''a  b, c'' @ ''x'' @ drop (i + length found) ''a  b, c'' \<and> reads_like ''a b'' found"
proof -
  have "replace ''a  b, c'' ''a b'' ''x'' False = Some (Inr ''x, c'')" by code_simp
  from edit_changes_one_place [OF this] show ?thesis by blast
qed

text \<open>
  An exact edit can be undone. When the old text occurs exactly once, the edit puts the new text in its place; when the new text then occurs
  only there, the reverse edit restores the file.
\<close>

lemma edit_round_trip:
  assumes "occurs_once old content i" and "old \<noteq> new"
    and "occurs_once new (take i content @ new @ drop (i + length old) content) i"
  shows "replace content old new False = Some (Inr (take i content @ new @ drop (i + length old) content)) \<and>
    replace (take i content @ new @ drop (i + length old) content) new old False = Some (Inr content)"
proof -
  have content: "content = take i content @ old @ drop (i + length old) content"
    using assms(1) by (intro occurs_at_split) (simp add: occurs_once_def)
  have i: "i \<le> length content" using assms(1) by (auto simp: occurs_once_def occurs_at_iff)
  let ?r = "take i content @ new @ drop (i + length old) content"
  have "take i ?r @ old @ drop (i + length new) ?r = content" using i by (subst (4) content) (simp add: min_absorb2)
  with replace_once [OF assms(1)] replace_once [OF assms(3), of old] assms(2) show ?thesis by simp
qed

lemma edit_round_trip_witness:
  "replace ''hello world'' ''world'' ''moon'' False = Some (Inr ''hello moon'') \<and> replace ''hello moon'' ''moon'' ''world'' False = Some (Inr ''hello world'')"
proof -
  have 1: "occurs_once ''world'' ''hello world'' 6" unfolding occurs_once_iff by code_simp
  have 2: "occurs_once ''moon'' (take 6 ''hello world'' @ ''moon'' @ drop (6 + length ''world'') ''hello world'') 6" unfolding occurs_once_iff by code_simp
  from edit_round_trip [OF 1 _ 2] show ?thesis by simp
qed

text \<open>
  A refused edit had nothing to do. When the edit returns an error although old and new text differ, no text that a strategy found occurs exactly once in the file;
  the error says that there was no match only when none of these texts, nor the old one, occurs at all.
\<close>

lemma refused_edit_has_no_unique_match:
  assumes "replace content old new False = Some (Inl e)" and "old \<noteq> new" and "found \<in> insert old (set (candidates content old))"
  shows "\<not> occurs_once found content i \<and> (e = NotFound \<longrightarrow> \<not> contains found content) \<and> (e \<noteq> NotFound \<longrightarrow> e = MultipleMatches)"
  using replace_refused [OF assms(1,2)] assms(3) by (auto simp: occurs_once_def contains_iff)

lemma refused_edit_has_no_unique_match_witness:
  "\<not> occurs_once ''ab'' ''ab ab'' 0 \<and> (MultipleMatches = NotFound \<longrightarrow> \<not> contains ''ab'' ''ab ab'') \<and> (MultipleMatches \<noteq> NotFound \<longrightarrow> MultipleMatches = MultipleMatches)"
proof -
  have "replace ''ab ab'' ''ab'' ''c'' False = Some (Inl MultipleMatches)"
    by code_simp
  from refused_edit_has_no_unique_match [OF this, of "''ab''" 0] show ?thesis by simp
qed

end
