(* ===== verification/Patch_Tool.thy ===== *)
theory Patch_Tool
  imports File_Tools
begin

text \<open>
  \<^verbatim>\<open>src/backend/tool/apply_patch.py\<close>: the parser of the patch format, the application of hunks to the lines of a file, and the tool
  that runs the operations of a patch in order.
\<close>

section \<open>Parsing\<close>

text \<open>\<^verbatim>\<open>str.splitlines\<close> on the ASCII repertoire.\<close>

definition is_break :: "char \<Rightarrow> bool" where
  "is_break c \<longleftrightarrow> (let n = (of_char c :: nat) in 10 \<le> n \<and> n \<le> 13 \<or> 28 \<le> n \<and> n \<le> 30)"

fun splitlines :: "string \<Rightarrow> string list" where
  "splitlines [] = []"
| "splitlines [c] = (if is_break c then [[]] else [[c]])"
| "splitlines (c # d # s) =
     (if c = CHR 0x0D \<and> d = newline then [] # splitlines s
      else if is_break c then [] # splitlines (d # s)
      else case splitlines (d # s) of [] \<Rightarrow> [[c]] | l # ls \<Rightarrow> (c # l) # ls)"

datatype patch_kind = UpdateFile | AddFile | DeleteFile

record patch_op =
  po_kind :: patch_kind
  po_path :: string
  po_content :: string

datatype patch_error = MissingMarkers | UnsupportedDirective | MissingHeader | EmptyPath

definition BEGIN_PATCH :: string where "BEGIN_PATCH = ''*** Begin Patch''"
definition END_PATCH :: string where "END_PATCH = ''*** End Patch''"
definition UPDATE_HEADER :: string where "UPDATE_HEADER = ''*** Update File: ''"
definition ADD_HEADER :: string where "ADD_HEADER = ''*** Add File: ''"
definition DELETE_HEADER :: string where "DELETE_HEADER = ''*** Delete File: ''"

lemmas patch_markers = BEGIN_PATCH_def END_PATCH_def UPDATE_HEADER_def ADD_HEADER_def DELETE_HEADER_def

text \<open>The operation in progress with its content so far.\<close>

definition flush :: "(patch_kind \<times> string) option \<Rightarrow> string list \<Rightarrow> patch_op list" where
  "flush current_op content = (case current_op of
       None \<Rightarrow> [] | Some (kind, path) \<Rightarrow> [\<lparr>po_kind = kind, po_path = path, po_content = unlines content\<rparr>])"

fun parse_lines :: "string list \<Rightarrow> patch_op list \<Rightarrow> (patch_kind \<times> string) option \<Rightarrow> string list \<Rightarrow> patch_error + patch_op list" where
  "parse_lines [] operations current_op content = Inr (operations @ flush current_op content)"
| "parse_lines (line # ls) operations current_op content =
     (if starts_with UPDATE_HEADER line
      then parse_lines ls (operations @ flush current_op content) (Some (UpdateFile, strip (drop 17 line))) []
      else if starts_with ADD_HEADER line
      then parse_lines ls (operations @ flush current_op content) (Some (AddFile, strip (drop 14 line))) []
      else if starts_with DELETE_HEADER line
      then parse_lines ls (operations @ flush current_op content @ [\<lparr>po_kind = DeleteFile, po_path = strip (drop 17 line), po_content = []\<rparr>]) None []
      else if starts_with ''*** '' line then Inl UnsupportedDirective
      else if current_op = None \<and> strip line \<noteq> [] then Inl MissingHeader
      else parse_lines ls operations current_op (content @ [line]))"

definition parse_patch :: "string \<Rightarrow> patch_error + patch_op list" where
  "parse_patch patch =
     (let ls = splitlines (strip patch)
      in if ls = [] \<or> hd ls \<noteq> BEGIN_PATCH \<or> last ls \<noteq> END_PATCH then Inl MissingMarkers
         else rbind (parse_lines (butlast (tl ls)) [] None []) (\<lambda>operations.
           if operations = [] \<or> list_ex (\<lambda>op. po_path op = [] \<or> CHR 0x00 \<in> set (po_path op)) operations then Inl EmptyPath
           else Inr operations))"

section \<open>Hunks\<close>

text \<open>The first line from the offset on that reads the same up to trailing whitespace.\<close>

definition find_line :: "string \<Rightarrow> nat \<Rightarrow> string list \<Rightarrow> nat option" where
  "find_line line offset result = find (\<lambda>j. rstrip (result ! j) = rstrip line) [offset..<length result]"

fun hunk_lines :: "string list \<Rightarrow> string list \<Rightarrow> nat \<Rightarrow> string list" where
  "hunk_lines [] result offset = result"
| "hunk_lines (line # patch_lines) result offset =
     (if starts_with ''@@@'' line then hunk_lines patch_lines result offset
      else if starts_with ''-'' line then
        (case find_line (drop 1 line) offset result of
           None \<Rightarrow> hunk_lines patch_lines result offset
         | Some j \<Rightarrow> hunk_lines patch_lines (take j result @ drop (Suc j) result) j)
      else if starts_with ''+'' line then hunk_lines patch_lines (take offset result @ [drop 1 line] @ drop offset result) (Suc offset)
      else (case find_line line offset result of
              None \<Rightarrow> hunk_lines patch_lines result offset
            | Some j \<Rightarrow> hunk_lines patch_lines result (Suc j)))"

definition apply_patch_hunks :: "string \<Rightarrow> string \<Rightarrow> string" where
  "apply_patch_hunks content patch_text = unlines (hunk_lines (lines_of patch_text) (lines_of content) 0)"

section \<open>The tool\<close>

text \<open>The content of an added file: the lines that are not removals, without their plus sign.\<close>

definition added_content :: "string \<Rightarrow> string" where
  "added_content text = unlines (map (\<lambda>l. if starts_with ''+'' l then drop 1 l else l) (filter (\<lambda>l. \<not> starts_with ''-'' l) (lines_of text)))"

text \<open>One operation: its line in the report, and the state it leaves; \<open>rm -f\<close> succeeds on a file that does not exist.\<close>

definition run_op :: "tool_env \<Rightarrow> patch_op \<Rightarrow> desk \<Rightarrow> sandbox_error + string \<times> desk" where
  "run_op env op s = (case po_kind op of
       AddFile \<Rightarrow> rbind (write_file env (po_path op) (added_content (po_content op)) s) (\<lambda>s1. Inr (''Added '' @ po_path op, s1))
     | DeleteFile \<Rightarrow> if te_write_fails env then Inl TransportFailed
         else Inr (''Deleted '' @ po_path op, s\<lparr>files := tdel (server_path env (po_path op)) (files s)\<rparr>)
     | UpdateFile \<Rightarrow> rbind (current_text env (po_path op) s) (\<lambda>current_content.
         rbind (write_file env (po_path op) (apply_patch_hunks current_content (po_content op)) s) (\<lambda>s1.
           Inr (''Updated '' @ po_path op, s1))))"

fun run_ops :: "tool_env \<Rightarrow> patch_op list \<Rightarrow> string list \<Rightarrow> nat \<Rightarrow> desk \<Rightarrow> string list \<times> nat \<times> desk" where
  "run_ops env [] results errors s = (results, errors, s)"
| "run_ops env (op # ops) results errors s = (case run_op env op s of
       Inl e \<Rightarrow> run_ops env ops (results @ [''Error on '' @ po_path op @ '': '' @ sandbox_message e]) (Suc errors) s
     | Inr (report, s1) \<Rightarrow> run_ops env ops (results @ [report]) errors s1)"

fun resolve_ops :: "tool_env \<Rightarrow> patch_op list \<Rightarrow> path_error + patch_op list" where
  "resolve_ops env [] = Inr []"
| "resolve_ops env (op # ops) = rbind (resolve_file_path (te_workdir env) (po_path op)) (\<lambda>path.
     rbind (resolve_ops env ops) (\<lambda>resolved. Inr (op\<lparr>po_path := path\<rparr> # resolved)))"

definition patch_message :: "patch_error \<Rightarrow> string" where
  "patch_message e = (case e of
       MissingMarkers \<Rightarrow> ''Patch requires Begin Patch and End Patch markers''
     | UnsupportedDirective \<Rightarrow> ''Unsupported patch directive''
     | MissingHeader \<Rightarrow> ''Patch content requires a file header''
     | EmptyPath \<Rightarrow> ''Patch requires non-empty file paths'')"

definition apply_patch_tool :: "tool_env \<Rightarrow> string \<Rightarrow> desk \<Rightarrow> tool_result \<times> desk" where
  "apply_patch_tool env patch s = (case parse_patch patch of
       Inl e \<Rightarrow> (error_outcome ''Invalid patch'' (patch_message e), s)
     | Inr ops \<Rightarrow> (case resolve_ops env ops of
           Inl e \<Rightarrow> (error_outcome ''Invalid patch'' (path_message e), s)
         | Inr resolved \<Rightarrow>
             let (results, errors, s1) = run_ops env resolved [] 0 s
             in (\<lparr>tr_title = ''Applied patch ('' @ nat_text (length resolved) @ '' files)'', tr_output = unlines results, tr_error = (errors > 0)\<rparr>, s1)))"

end
