(* ===== verification/File_Theorems.thy ===== *)
theory File_Theorems
  imports Edit_Theorems Patch_Tool
begin

text \<open>
  Lemmas on the file tools: what a tool sees of a file through the numbered view of the server, what it writes, the shape of
  resolved paths, and the parser and the hunks of patches.
\<close>

section \<open>The numbered view\<close>

lemma digit_chars: "c \<in> set (nat_text n) \<Longrightarrow> c \<in> set ''0123456789''"
proof (induction n rule: nat_text.induct)
  case (1 n)
  have digit: "hex_digit m \<in> set ''0123456789''" if "m < 10" for m
    using that by (auto simp: hex_digit_def numeral_eq_Suc less_Suc_eq)
  show ?case
  proof (cases "n < 10")
    case True
    with 1(2) digit [OF True] show ?thesis by (subst (asm) nat_text.simps) auto
  next
    case False
    with 1(2) have "c \<in> set (nat_text (n div 10)) \<or> c = hex_digit (n mod 10)" by (subst (asm) nat_text.simps) auto
    with 1(1) [OF False] digit [of "n mod 10"] show ?thesis by auto
  qed
qed

lemma nat_text_plain: "tabulator \<notin> set (nat_text n)" "newline \<notin> set (nat_text n)"
  using digit_chars [of _ n] by (auto simp: tabulator_def newline_def)

lemma str_find_char: "c \<notin> set p \<Longrightarrow> str_find [c] (p @ c # s) = Some (length p)"
  by (induction p) (auto simp: starts_with.simps)

lemma strip_numbered: "strip_line_number (numbered i l) = clip_line l"
proof -
  have "tabulator \<notin> set (''     '' @ nat_text i)" using nat_text_plain by (auto simp: tabulator_def)
  from str_find_char [OF this, of "clip_line l"] show ?thesis by (simp add: numbered_def)
qed

lemma clip_no_newline: "newline \<notin> set l \<Longrightarrow> newline \<notin> set (clip_line l)"
  by (auto simp: clip_line_def newline_def dest: in_set_takeD)

lemma clip_id: "clip_line l = l \<longleftrightarrow> length l \<le> 2000 \<or> drop 2000 l = ''... (truncated)''"
proof (cases "length l \<le> 2000")
  case False
  have "take 2000 l @ ''... (truncated)'' = l \<longleftrightarrow> drop 2000 l = ''... (truncated)''"
    by (metis append_take_drop_id same_append_eq)
  with False show ?thesis by (simp add: clip_line_def MAX_LINE_CHARS_def)
qed (simp add: clip_line_def MAX_LINE_CHARS_def)

lemma clip_bound: "length (clip_line l) \<le> 2015"
  by (simp add: clip_line_def MAX_LINE_CHARS_def)

lemma numbered_wf: "wf_lines ls \<Longrightarrow> wf_lines (map (\<lambda>(i, l). numbered i l) (enumerate n ls))"
proof -
  assume "wf_lines ls"
  then have "newline \<notin> set (numbered i l)" if "l \<in> set ls" for i l
    using that clip_no_newline [of l] nat_text_plain(2) [of i]
    by (auto simp: wf_lines_def list_all_iff numbered_def newline_def tabulator_def)
  with \<open>wf_lines ls\<close> show ?thesis
    by (auto simp: wf_lines_def list_all_iff enumerate_eq_zip dest!: set_zip_rightD)
qed

lemma strip_all_numbered: "map strip_line_number (map (\<lambda>(i, l). numbered i l) (enumerate n ls)) = map clip_line ls"
  by (induction ls arbitrary: n) (simp_all only: enumerate_simps list.map prod.case strip_numbered)

lemma take_wf_lines: "wf_lines ls \<Longrightarrow> 0 < n \<Longrightarrow> wf_lines (take n ls)"
  by (auto simp: wf_lines_def list_all_iff dest: in_set_takeD)

text \<open>What a tool sees of a file.\<close>

definition visible_lines :: "string \<Rightarrow> string list" where
  "visible_lines body = map clip_line (take READ_LIMIT (lines_of (universal_newlines body)))"

lemma visible_wf: "wf_lines (visible_lines body)"
proof -
  have "wf_lines (take READ_LIMIT (lines_of (universal_newlines body)))" by (rule take_wf_lines) (simp_all add: READ_LIMIT_def)
  then show ?thesis by (auto simp: visible_lines_def wf_lines_def list_all_iff clip_no_newline)
qed

lemma current_text_visible:
  assumes "tget (files s) (server_path env path) = Some f" and "\<not> te_read_fails env"
  shows "current_text env path s = Inr (unlines (visible_lines (fl_text f)))"
proof -
  let ?ls = "take READ_LIMIT (lines_of (universal_newlines (fl_text f)))"
  have wf: "wf_lines (map (\<lambda>(i, l). numbered i l) (enumerate 1 ?ls))"
    by (rule numbered_wf [OF take_wf_lines]) (simp_all add: READ_LIMIT_def)
  have "strip_line_numbers (unlines (map (\<lambda>(i, l). numbered i l) (enumerate 1 ?ls))) = unlines (visible_lines (fl_text f))"
    unfolding strip_line_numbers_def lines_unlines [OF wf] strip_all_numbered visible_lines_def ..
  with assms show ?thesis by (simp add: current_text_def read_file_def Let_def)
qed

lemma universal_newlines_no_cr: "CHR 0x0D \<notin> set (universal_newlines s)"
  by (induction s rule: universal_newlines.induct) (auto simp: newline_def)

lemma universal_newlines_id: "CHR 0x0D \<notin> set s \<Longrightarrow> universal_newlines s = s"
  by (induction s rule: universal_newlines.induct) auto

lemma in_unlines: "c \<in> set (unlines ls) \<Longrightarrow> c = newline \<or> (\<exists>l\<in>set ls. c \<in> set l)"
  by (induction ls) (auto simp: unlines_def join_Cons split: if_splits)

lemma in_lines_of: "l \<in> set (lines_of s) \<Longrightarrow> c \<in> set l \<Longrightarrow> c \<in> set s"
proof -
  assume l: "l \<in> set (lines_of s)" "c \<in> set l"
  have "c \<in> set l \<Longrightarrow> l \<in> set ls \<Longrightarrow> c \<in> set (unlines ls)" for ls
    by (induction ls) (auto simp: unlines_def join_Cons)
  from this [OF l(2) l(1)] show ?thesis by simp
qed

lemma visible_no_cr: "CHR 0x0D \<notin> set (unlines (visible_lines body))"
proof
  assume "CHR 0x0D \<in> set (unlines (visible_lines body))"
  then obtain l where l: "l \<in> set (lines_of (universal_newlines body))" "CHR 0x0D \<in> set (clip_line l)"
    by (auto simp: visible_lines_def newline_def dest!: in_unlines in_set_takeD)
  then have "CHR 0x0D \<in> set l" by (auto simp: clip_line_def split: if_splits dest: in_set_takeD)
  with l(1) have "CHR 0x0D \<in> set (universal_newlines body)" by (rule in_lines_of)
  with universal_newlines_no_cr show False by simp
qed

lemma visible_exact:
  "unlines (visible_lines body) = body \<longleftrightarrow> CHR 0x0D \<notin> set body \<and> length (lines_of body) \<le> 100000 \<and>
    (\<forall>l\<in>set (lines_of body). length l \<le> 2000 \<or> drop 2000 l = ''... (truncated)'')"
proof (cases "CHR 0x0D \<in> set body")
  case True
  with visible_no_cr [of body] show ?thesis by auto
next
  case False
  then have body: "universal_newlines body = body" by (rule universal_newlines_id)
  have "unlines (visible_lines body) = body \<longleftrightarrow> visible_lines body = lines_of body"
    by (metis lines_unlines unlines_lines visible_wf)
  also have "\<dots> \<longleftrightarrow> length (lines_of body) \<le> 100000 \<and> (\<forall>l\<in>set (lines_of body). clip_line l = l)"
  proof
    assume eq: "visible_lines body = lines_of body"
    then have "length (visible_lines body) = length (lines_of body)" by simp
    then have len: "length (lines_of body) \<le> 100000" by (simp add: visible_lines_def body READ_LIMIT_def)
    with eq have "map clip_line (lines_of body) = lines_of body" by (simp add: visible_lines_def body READ_LIMIT_def)
    then have "\<forall>l\<in>set (lines_of body). clip_line l = l" by (metis map_eq_conv map_ident)
    with len show "length (lines_of body) \<le> 100000 \<and> (\<forall>l\<in>set (lines_of body). clip_line l = l)" by simp
  next
    assume "length (lines_of body) \<le> 100000 \<and> (\<forall>l\<in>set (lines_of body). clip_line l = l)"
    then show "visible_lines body = lines_of body" by (simp add: visible_lines_def body READ_LIMIT_def map_idI)
  qed
  finally show ?thesis using False by (simp add: clip_id)
qed

end
