(* ===== verification/Patch_Theorems.thy ===== *)
theory Patch_Theorems
  imports File_Theorems
begin

text \<open>
  The parser of patches against a printer (the contract \<open>codec\<close>), hunks against edit scripts, and the shape of resolved paths.
\<close>

section \<open>Stripping\<close>

lemma rstrip_prefix: "rstrip s \<noteq> [] \<Longrightarrow> hd (rstrip s) = hd s"
  using rstrip_split [of s] by (metis hd_append2)

lemma last_rstrip: "rstrip s \<noteq> [] \<Longrightarrow> \<not> is_space (last (rstrip s))"
  unfolding rstrip_def by (simp add: last_rev hd_dropWhile)

lemma strip_ends: "strip s \<noteq> [] \<Longrightarrow> \<not> is_space (hd (strip s)) \<and> \<not> is_space (last (strip s))"
proof -
  assume ne: "strip s \<noteq> []"
  then have "lstrip s \<noteq> []" by (auto simp: strip_eq)
  then have "\<not> is_space (hd (lstrip s))" by (simp add: lstrip_def hd_dropWhile)
  with ne show ?thesis by (simp add: strip_eq rstrip_prefix last_rstrip)
qed

lemma dropWhile_hd: "\<not> P (hd xs) \<Longrightarrow> dropWhile P xs = xs"
  by (cases xs) simp_all

lemma strip_id: "s = [] \<or> \<not> is_space (hd s) \<and> \<not> is_space (last s) \<Longrightarrow> strip s = s"
  by (auto simp: strip_def dropWhile_hd hd_rev)

lemma strip_strip [simp]: "strip (strip s) = strip s"
  using strip_ends [of s] by (cases "strip s = []") (simp_all add: strip_id)

lemma strip_subset: "set (strip s) \<subseteq> set s"
  unfolding strip_def by (auto dest!: set_dropWhileD)

section \<open>Lines of a patch\<close>

definition plain_line :: "string \<Rightarrow> bool" where
  "plain_line l \<longleftrightarrow> list_all (\<lambda>c. \<not> is_break c) l"

lemma newline_break [simp]: "is_break newline"
  by (simp add: is_break_def newline_def)

lemma cr_break: "is_break (CHR 0x0D)"
  by (simp add: is_break_def)

lemma plain_no_newline: "plain_line l \<Longrightarrow> newline \<notin> set l"
  by (auto simp: plain_line_def list_all_iff)

lemma splitlines_Cons:
  "\<not> is_break c \<Longrightarrow> splitlines (c # s) = (case splitlines s of [] \<Rightarrow> [[c]] | l # ls \<Rightarrow> (c # l) # ls)"
  using cr_break by (cases s) auto

lemma splitlines_newline: "splitlines (newline # s) = [] # splitlines s"
  by (cases s) (auto simp: newline_def is_break_def)

lemma splitlines_append: "plain_line l \<Longrightarrow> splitlines (l @ newline # s) = l # splitlines s"
  by (induction l) (simp_all add: plain_line_def splitlines_newline splitlines_Cons)

lemma splitlines_single: "plain_line l \<Longrightarrow> l \<noteq> [] \<Longrightarrow> splitlines l = [l]"
proof (induction l)
  case (Cons c l)
  then show ?case by (cases "l = []") (simp_all add: plain_line_def splitlines_Cons)
qed simp

lemma splitlines_unlines: "list_all plain_line ls \<Longrightarrow> ls \<noteq> [] \<Longrightarrow> last ls \<noteq> [] \<Longrightarrow> splitlines (unlines ls) = ls"
proof (induction ls)
  case (Cons l ls)
  then show ?case by (cases "ls = []") (simp_all add: unlines_def join_Cons splitlines_append splitlines_single)
qed simp

lemma splitlines_plain: "l \<in> set (splitlines s) \<Longrightarrow> plain_line l"
proof (induction s arbitrary: l rule: splitlines.induct)
  case (3 c d s)
  show ?case
  proof (cases "c = CHR 0x0D \<and> d = newline")
    case True
    with 3(1) [OF True] 3(4) show ?thesis by (auto simp: plain_line_def)
  next
    case False
    show ?thesis
    proof (cases "is_break c")
      case True
      with 3(2) [OF False True] 3(4) False show ?thesis by (auto simp: plain_line_def)
    next
      case nb: False
      note IH = 3(3) [OF False nb]
      from 3(4) False nb IH show ?thesis by (cases "splitlines (d # s)") (auto simp: plain_line_def)
    qed
  qed
qed (auto simp: plain_line_def split: if_splits)

section \<open>Printing patches\<close>

definition header :: "patch_op \<Rightarrow> string" where
  "header op = (case po_kind op of UpdateFile \<Rightarrow> UPDATE_HEADER | AddFile \<Rightarrow> ADD_HEADER | DeleteFile \<Rightarrow> DELETE_HEADER) @ po_path op"

definition print_op :: "patch_op \<Rightarrow> string list" where
  "print_op op = header op # (if po_kind op = DeleteFile then [] else lines_of (po_content op))"

definition print_patch :: "patch_op list \<Rightarrow> string" where
  "print_patch ops = unlines (BEGIN_PATCH # concat (map print_op ops) @ [END_PATCH])"

definition content_line :: "string \<Rightarrow> bool" where
  "content_line l \<longleftrightarrow> plain_line l \<and> \<not> starts_with ''*** '' l"

definition path_typed :: "string \<Rightarrow> bool" where
  "path_typed p \<longleftrightarrow> strip p = p \<and> plain_line p"

definition op_typed :: "patch_op \<Rightarrow> bool" where
  "op_typed op \<longleftrightarrow> path_typed (po_path op) \<and> (if po_kind op = DeleteFile then po_content op = [] else list_all content_line (lines_of (po_content op)))"

definition ops_typed :: "patch_op list \<Rightarrow> bool" where
  "ops_typed ops \<longleftrightarrow> ops \<noteq> [] \<and> list_all (\<lambda>op. op_typed op \<and> po_path op \<noteq> [] \<and> CHR 0x00 \<notin> set (po_path op)) ops"

lemma not_headers: "\<not> starts_with ''*** '' l \<Longrightarrow> \<not> starts_with UPDATE_HEADER l \<and> \<not> starts_with ADD_HEADER l \<and> \<not> starts_with DELETE_HEADER l"
  by (auto simp: starts_with_iff patch_markers)

lemma parse_content:
  "list_all content_line ls \<Longrightarrow> parse_lines (ls @ rest) ops (Some k) content = parse_lines rest ops (Some k) (content @ ls)"
proof (induction ls arbitrary: content)
  case (Cons l ls)
  then have "content_line l" by simp
  with not_headers [of l] have "parse_lines ((l # ls) @ rest) ops (Some k) content = parse_lines (ls @ rest) ops (Some k) (content @ [l])"
    by (simp add: content_line_def)
  with Cons show ?case by simp
qed simp

lemma parse_header:
  "path_typed (po_path op) \<Longrightarrow> parse_lines (header op # rest) ops cur content =
    (case po_kind op of
       DeleteFile \<Rightarrow> parse_lines rest (ops @ flush cur content @ [\<lparr>po_kind = DeleteFile, po_path = po_path op, po_content = []\<rparr>]) None []
     | kind \<Rightarrow> parse_lines rest (ops @ flush cur content) (Some (kind, po_path op)) [])"
  by (cases "po_kind op") (simp_all add: header_def patch_markers path_typed_def)

lemma flush_op: "flush (Some (po_kind op, po_path op)) (lines_of (po_content op)) = [op]"
  by (simp add: flush_def)

lemma parse_printed:
  "list_all op_typed ops \<Longrightarrow> parse_lines (concat (map print_op ops)) acc cur content = Inr (acc @ flush cur content @ ops)"
proof (induction ops arbitrary: acc cur content)
  case (Cons op ops)
  let ?rest = "concat (map print_op ops)"
  from Cons.prems have typed: "op_typed op" and path: "path_typed (po_path op)" by (simp_all add: op_typed_def)
  show ?case
  proof (cases "po_kind op = DeleteFile")
    case True
    with typed have op: "\<lparr>po_kind = DeleteFile, po_path = po_path op, po_content = []\<rparr> = op" by (simp add: op_typed_def)
    have "parse_lines (concat (map print_op (op # ops))) acc cur content = parse_lines ?rest (acc @ flush cur content @ [op]) None []"
      using True parse_header [OF path, of ?rest acc cur content] op by (simp add: print_op_def)
    with Cons show ?thesis by (simp add: flush_def [of None])
  next
    case False
    have lines: "list_all content_line (lines_of (po_content op))" using typed False by (simp add: op_typed_def)
    have "parse_lines (concat (map print_op (op # ops))) acc cur content =
        parse_lines (lines_of (po_content op) @ ?rest) (acc @ flush cur content) (Some (po_kind op, po_path op)) []"
      using False parse_header [OF path, of "lines_of (po_content op) @ ?rest" acc cur content]
      by (cases "po_kind op") (simp_all add: print_op_def)
    with parse_content [OF lines] Cons show ?thesis by (simp add: flush_op)
  qed
qed simp

lemma print_lines_plain: "ops_typed ops \<Longrightarrow> list_all plain_line (BEGIN_PATCH # concat (map print_op ops) @ [END_PATCH])"
proof -
  assume "ops_typed ops"
  then have "list_all plain_line (print_op op)" if "op \<in> set ops" for op
    using that by (cases "po_kind op")
      (auto simp: ops_typed_def op_typed_def path_typed_def print_op_def header_def content_line_def list_all_iff plain_line_def
        patch_markers is_break_def)
  then have "list_all plain_line (concat (map print_op ops))" by (auto simp: list_all_iff)
  then show ?thesis by (simp add: plain_line_def patch_markers is_break_def)
qed

lemma last_unlines: "ls \<noteq> [] \<Longrightarrow> last ls \<noteq> [] \<Longrightarrow> last (unlines ls) = last (last ls) \<and> unlines ls \<noteq> []"
proof (induction ls)
  case (Cons l ls)
  then show ?case by (cases "ls = []") (auto simp: unlines_def join_Cons)
qed simp

lemma strip_print: "strip (print_patch ops) = print_patch ops"
proof (rule strip_id, intro disjI2 conjI)
  show "\<not> is_space (hd (print_patch ops))"
    by (simp add: print_patch_def unlines_def join_Cons BEGIN_PATCH_def is_space_def)
  have "last (print_patch ops) = last END_PATCH"
    using last_unlines [of "BEGIN_PATCH # concat (map print_op ops) @ [END_PATCH]"] by (simp add: print_patch_def END_PATCH_def)
  then show "\<not> is_space (last (print_patch ops))" by (simp add: END_PATCH_def is_space_def)
qed

lemma parse_print: "ops_typed ops \<Longrightarrow> parse_patch (print_patch ops) = Inr ops"
proof -
  assume typed: "ops_typed ops"
  have "splitlines (print_patch ops) = BEGIN_PATCH # concat (map print_op ops) @ [END_PATCH]"
    unfolding print_patch_def by (rule splitlines_unlines [OF print_lines_plain [OF typed]]) (simp_all add: END_PATCH_def)
  moreover have "parse_lines (concat (map print_op ops)) [] None [] = Inr ops"
    using typed parse_printed [of ops "[]" None "[]"] by (simp add: ops_typed_def list_all_iff flush_def)
  moreover have "ops \<noteq> []" "\<not> list_ex (\<lambda>op. po_path op = [] \<or> CHR 0x00 \<in> set (po_path op)) ops"
    using typed by (auto simp: ops_typed_def list_all_iff list_ex_iff)
  ultimately show ?thesis by (simp add: parse_patch_def strip_print)
qed

section \<open>What the parser accepts\<close>

definition cur_typed :: "(patch_kind \<times> string) option \<Rightarrow> bool" where
  "cur_typed cur \<longleftrightarrow> (case cur of None \<Rightarrow> True | Some (kind, path) \<Rightarrow> kind \<noteq> DeleteFile \<and> path_typed path)"

lemma lines_of_content: "list_all content_line ls \<Longrightarrow> list_all content_line (lines_of (unlines ls))"
proof (cases "ls = []")
  case True
  then show ?thesis by (simp add: unlines_def content_line_def plain_line_def)
next
  case False
  moreover assume typed: "list_all content_line ls"
  ultimately have "wf_lines ls" by (auto simp: wf_lines_def list_all_iff content_line_def plain_no_newline)
  with typed show ?thesis by simp
qed

lemma flush_typed: "cur_typed cur \<Longrightarrow> list_all content_line content \<Longrightarrow> list_all op_typed (flush cur content)"
  by (cases cur) (auto simp: cur_typed_def flush_def op_typed_def lines_of_content)

lemma plain_drop: "plain_line l \<Longrightarrow> path_typed (strip (drop n l))"
  using strip_subset [of "drop n l"] by (auto simp: path_typed_def plain_line_def list_all_iff dest: in_set_dropD)

lemma parse_lines_typed:
  "parse_lines ls ops cur content = Inr res \<Longrightarrow> list_all plain_line ls \<Longrightarrow> list_all op_typed ops \<Longrightarrow> cur_typed cur \<Longrightarrow>
    list_all content_line content \<Longrightarrow> list_all op_typed res"
proof (induction ls ops cur content rule: parse_lines.induct)
  case (1 operations current_op content)
  then show ?case by (auto simp: flush_typed)
next
  case (2 line ls operations current_op content)
  then have plain: "plain_line line" "list_all plain_line ls" and flushed: "list_all op_typed (flush current_op content)"
    by (simp_all add: flush_typed)
  consider (update) "starts_with UPDATE_HEADER line"
    | (add) "\<not> starts_with UPDATE_HEADER line" "starts_with ADD_HEADER line"
    | (delete) "\<not> starts_with UPDATE_HEADER line" "\<not> starts_with ADD_HEADER line" "starts_with DELETE_HEADER line"
    | (directive) "\<not> starts_with UPDATE_HEADER line" "\<not> starts_with ADD_HEADER line" "\<not> starts_with DELETE_HEADER line" "starts_with ''*** '' line"
    | (body) "\<not> starts_with UPDATE_HEADER line" "\<not> starts_with ADD_HEADER line" "\<not> starts_with DELETE_HEADER line" "\<not> starts_with ''*** '' line"
    by blast
  then show ?case
  proof cases
    case update
    with 2(5) have "parse_lines ls (operations @ flush current_op content) (Some (UpdateFile, strip (drop 17 line))) [] = Inr res" by simp
    from 2(1) [OF update this plain(2)] 2(7) flushed show ?thesis using plain_drop [OF plain(1)] by (simp add: cur_typed_def)
  next
    case add
    with 2(5) have "parse_lines ls (operations @ flush current_op content) (Some (AddFile, strip (drop 14 line))) [] = Inr res" by simp
    from 2(2) [OF add this plain(2)] 2(7) flushed show ?thesis using plain_drop [OF plain(1)] by (simp add: cur_typed_def)
  next
    case delete
    with 2(5) have "parse_lines ls (operations @ flush current_op content @ [\<lparr>po_kind = DeleteFile, po_path = strip (drop 17 line), po_content = []\<rparr>]) None [] = Inr res" by simp
    moreover have "op_typed \<lparr>po_kind = DeleteFile, po_path = strip (drop 17 line), po_content = []\<rparr>"
      using plain_drop [OF plain(1)] by (simp add: op_typed_def)
    ultimately show ?thesis using 2(3) [OF delete] plain(2) 2(7) flushed by (simp add: cur_typed_def)
  next
    case directive
    with 2(5) show ?thesis by simp
  next
    case body
    with 2(5) have here: "\<not> (current_op = None \<and> strip line \<noteq> [])" by (auto split: if_splits)
    with body 2(5) have "parse_lines ls operations current_op (content @ [line]) = Inr res" by (auto split: if_splits)
    from 2(4) [OF body here this plain(2) 2(7) 2(8)] 2(9) plain(1) body(4) show ?thesis by (simp add: content_line_def)
  qed
qed

lemma in_butlast_tl: "x \<in> set (butlast (tl xs)) \<Longrightarrow> x \<in> set xs"
  by (cases xs) (auto dest: in_set_butlastD)

lemma parse_typed: "parse_patch raw = Inr ops \<Longrightarrow> ops_typed ops"
proof -
  assume "parse_patch raw = Inr ops"
  then have lines: "parse_lines (butlast (tl (splitlines (strip raw)))) [] None [] = Inr ops"
    and paths: "ops \<noteq> []" "\<not> list_ex (\<lambda>op. po_path op = [] \<or> CHR 0x00 \<in> set (po_path op)) ops"
    by (auto simp: parse_patch_def Let_def rbind_def split: if_splits sum.splits)
  have "list_all plain_line (butlast (tl (splitlines (strip raw))))"
    unfolding list_all_iff by (meson in_butlast_tl splitlines_plain)
  from parse_lines_typed [OF lines this] have "list_all op_typed ops" by (simp add: cur_typed_def)
  with paths show ?thesis by (auto simp: ops_typed_def list_all_iff list_ex_iff)
qed

interpretation patches: codec print_patch parse_patch ops_typed "\<lambda>_. True"
  by unfold_locales (simp_all add: parse_typed parse_print)

section \<open>Hunks and edit scripts\<close>

text \<open>A change of a file as a sequence of lines kept, deleted and inserted, with the two texts it relates and its form as a hunk.\<close>

datatype edit_line = Keep string | Del string | Ins string

primrec source_line :: "edit_line \<Rightarrow> string list" where
  "source_line (Keep l) = [l]"
| "source_line (Del l) = [l]"
| "source_line (Ins l) = []"

primrec target_line :: "edit_line \<Rightarrow> string list" where
  "target_line (Keep l) = [l]"
| "target_line (Del l) = []"
| "target_line (Ins l) = [l]"

primrec patch_line :: "edit_line \<Rightarrow> string" where
  "patch_line (Keep l) = l"
| "patch_line (Del l) = ''-'' @ l"
| "patch_line (Ins l) = ''+'' @ l"

definition context_ok :: "edit_line \<Rightarrow> bool" where
  "context_ok e \<longleftrightarrow> (case e of Keep l \<Rightarrow> \<not> starts_with ''@@@'' l \<and> \<not> starts_with ''-'' l \<and> \<not> starts_with ''+'' l | _ \<Rightarrow> True)"

lemma find_line_here: "find_line l (length before) (before @ l # after) = Some (length before)"
  by (simp add: find_line_def upt_rec [of "length before"])

lemma hunk_lines_script:
  "list_all context_ok es \<Longrightarrow>
    hunk_lines (map patch_line es) (before @ concat (map source_line es) @ rest) (length before) = before @ concat (map target_line es) @ rest"
proof (induction es arbitrary: before)
  case (Cons e es)
  show ?case
  proof (cases e)
    case (Keep l)
    with Cons.prems Cons.IH [of "before @ [l]"] show ?thesis by (simp add: context_ok_def find_line_here)
  next
    case (Del l)
    with Cons.prems Cons.IH [of before] show ?thesis by (simp add: find_line_here)
  next
    case (Ins l)
    with Cons.prems Cons.IH [of "before @ [l]"] show ?thesis by simp
  qed
qed simp

lemma find_line_skip:
  "(\<forall>x\<in>set pre. rstrip x \<noteq> rstrip l) \<Longrightarrow> find_line l 0 (pre @ l # after) = Some (length pre)"
proof -
  assume pre: "\<forall>x\<in>set pre. rstrip x \<noteq> rstrip l"
  have "[0..<length (pre @ l # after)] = [0..<length pre] @ [length pre..<length (pre @ l # after)]"
    using upt_add_eq_append [of 0 "length pre" "length (l # after)"] by (simp del: upt_Suc)
  moreover have "find (\<lambda>j. rstrip ((pre @ l # after) ! j) = rstrip l) [0..<length pre] = None"
    using pre by (auto simp: find_None_iff nth_append)
  ultimately show ?thesis using find_line_here [of l pre after] by (simp add: find_line_def find_append del: upt_Suc)
qed

text \<open>A hunk that starts with a kept or deleted line is applied where that line first occurs.\<close>

lemma hunk_lines_located:
  assumes "source_line e = [l]" and "context_ok e" and "\<forall>x\<in>set pre. rstrip x \<noteq> rstrip l"
  shows "hunk_lines (map patch_line (e # es)) (pre @ concat (map source_line (e # es)) @ rest) 0 =
    hunk_lines (map patch_line (e # es)) (pre @ concat (map source_line (e # es)) @ rest) (length pre)"
  using assms by (cases e) (simp_all add: context_ok_def find_line_skip find_line_here)

text \<open>Lines that match nothing from the offset on.\<close>

lemma find_line_None: "find_line l offset result = None \<longleftrightarrow> (\<forall>j<length result. offset \<le> j \<longrightarrow> rstrip (result ! j) \<noteq> rstrip l)"
  by (auto simp: find_line_def find_None_iff)

lemma find_line_absent: "(\<forall>x\<in>set result. rstrip x \<noteq> rstrip l) \<Longrightarrow> find_line l offset result = None"
  by (auto simp: find_line_None)

end
