(* ===== verification/File_Properties.thy ===== *)
theory File_Properties
  imports Patch_Theorems
begin

text \<open>
  The properties of the file tools: when an edit returns, what a tool sees of a file, that several edits are applied together or not
  at all, and what the parser and the hunks of patches do.
\<close>

section \<open>When an edit returns\<close>

lemma replace_None_iff:
  "replace content old new ra = None \<longleftrightarrow> old \<noteq> new \<and> (\<exists>nf. try_each content new ra (candidates content old) True = (nf, None) \<and>
     multi_loop content old new ra 0 nf = None)"
  by (auto simp: replace_def split: prod.splits option.splits)

lemma try_each_never:
  "(\<exists>nf'. try_each content new False searches nf = (nf', None)) \<longleftrightarrow> (\<forall>p\<in>set searches. \<forall>i. \<not> occurs_once p content i)"
    (is "?none \<longleftrightarrow> ?never")
proof
  show "?none \<Longrightarrow> ?never" using try_each_flag by blast
  assume never: ?never
  obtain nf' res where each: "try_each content new False searches nf = (nf', res)" by fastforce
  have "res = None"
  proof (cases res)
    case (Some r)
    with try_each_Replaced [of content new False searches nf nf' r] each never show ?thesis by (auto simp: try_search_Replaced)
  qed
  with each show ?none by blast
qed

lemma replace_hangs_iff:
  "replace content old new ra = None \<longleftrightarrow>
   old = [] \<and> new \<noteq> [] \<and> \<not> ra \<and> content \<noteq> [] \<and> (\<forall>found\<in>set (candidates content []). \<forall>i. \<not> occurs_once found content i)"
proof (cases "old = [] \<and> new \<noteq> [] \<and> \<not> ra \<and> content \<noteq> []")
  case True
  then have args: "old = []" "new \<noteq> []" "ra = False" "content \<noteq> []" by simp_all
  have hangs: "multi_loop content [] new False 0 nf = None" for nf
    using multi_loop_hangs [OF empty_ambiguous [OF args(4)]] by simp
  with args show ?thesis by (simp add: replace_None_iff try_each_never)
next
  case False
  have "replace content old new ra \<noteq> None"
  proof
    assume "replace content old new ra = None"
    then obtain nf where none: "old \<noteq> new" "try_each content new ra (candidates content old) True = (nf, None)"
        "multi_loop content old new ra 0 nf = None"
      by (auto simp: replace_None_iff)
    then have old: "old = []" using multi_loop_returns [of old content new ra 0 nf] by force
    have "contains [] content" by (auto simp: contains_iff)
    then have cand: "[] \<in> set (candidates content old)" using candidates_old old by simp
    from try_each_None [OF none(2) cand] have "try_search content new ra [] \<in> {Absent, Ambiguous}" by blast
    moreover have "try_search content new ra [] \<notin> {Absent, Ambiguous}"
    proof (cases ra)
      case True
      with \<open>contains [] content\<close> show ?thesis by (simp add: try_search_all)
    next
      case nra: False
      with False old none(1) have "content = []" by simp
      with nra show ?thesis by (simp add: try_search_def)
    qed
    ultimately show False by simp
  qed
  with False show ?thesis by blast
qed

text \<open>
  C24. An edit returns, except in one case: it never ends when the old text is empty, the new text and the file are not, \<^verbatim>\<open>replace_all\<close> is off, and none of the
  texts that a strategy finds for it, which are blank, occurs exactly once in the file.
\<close>

theorem replace_returns_iff:
  "(\<exists>r. replace content old new replace_all = Some r) \<longleftrightarrow>
   \<not> (old = [] \<and> new \<noteq> [] \<and> \<not> replace_all \<and> content \<noteq> [] \<and> (\<forall>found\<in>set (candidates content []). \<forall>i. \<not> occurs_once found content i))"
  unfolding replace_hangs_iff [symmetric] by simp

theorem replace_returns_iff_witness:
  "\<exists>r. replace ''a'' ''b'' ''c'' False = Some r"
  using replace_returns_iff [of "''a''" "''b''" "''c''" False] by simp

text \<open>
  The edit tool never answers when it is called with an empty old text and a new text on a file without blank lines that it can read, unless \<^verbatim>\<open>replace_all\<close> is
  set: the loop over all occurrences finds the empty text at the same position again and again.
\<close>

lemma empty_search_hangs:
  assumes "resolve_file_path (te_workdir env) raw_path = Inr path"
    and "current_text env path s = Inr content"
    and "\<forall>l\<in>set (lines_of content). strip l \<noteq> []" and "new \<noteq> []"
  shows "edit_tool env raw_path [] new False s = None"
proof -
  have ne: "content \<noteq> []" using assms(3) by (auto simp: strip_def)
  have "\<not> occurs_once found content i" if "found \<in> set (candidates content [])" for found i
  proof -
    from blank_candidates [OF that] assms(3) have "found = []" by blast
    moreover have "\<not> (0 = i \<and> length content = i)" using ne by auto
    ultimately show ?thesis by (metis le_refl occurs_at_empty occurs_once_def zero_le)
  qed
  then have "replace content [] new False = None" using ne assms(4) by (simp add: replace_hangs_iff)
  with assms(1,2) show ?thesis by (simp add: edit_tool_def Let_def)
qed

definition demo_env :: tool_env where
  "demo_env = \<lparr>te_session = ''s'', te_workdir = ''/workspace'', te_server_cwd = ''/'', te_clock = 7, te_read_fails = False,
     te_write_fails = False, te_stat_fails = False, te_formatter = None, te_linter = None, te_traced = False\<rparr>"

definition demo_desk :: "string \<Rightarrow> desk" where
  "demo_desk body = \<lparr>files = tput ''/workspace/a.py'' \<lparr>fl_text = body, fl_mtime = 1\<rparr> [], mtimes = []\<rparr>"

lemma empty_search_hangs_witness:
  "edit_tool demo_env ''a.py'' [] ''x'' False (demo_desk ''hello'') = None"
proof (rule empty_search_hangs)
  show "resolve_file_path (te_workdir demo_env) ''a.py'' = Inr ''/workspace/a.py''" by code_simp
  have "tget (files (demo_desk ''hello'')) (server_path demo_env ''/workspace/a.py'') = Some \<lparr>fl_text = ''hello'', fl_mtime = 1\<rparr>" by code_simp
  from current_text_visible [OF this] show "current_text demo_env ''/workspace/a.py'' (demo_desk ''hello'') = Inr ''hello''"
    using visible_exact [of "''hello''"] by (simp add: demo_env_def lines_of_def newline_def)
  show "\<forall>l\<in>set (lines_of ''hello''). strip l \<noteq> []" by code_simp
qed simp

section \<open>What a tool sees\<close>



section \<open>Several edits at once\<close>

fun replay :: "(string \<times> string) list \<Rightarrow> string \<Rightarrow> string option" where
  "replay [] content = Some content"
| "replay ((old, new) # edits) content = (case replace content old new False of Some (Inr content') \<Rightarrow> replay edits content' | _ \<Rightarrow> None)"

lemma apply_edits_replay:
  "apply_edits edits i content results = Some (results', outcome) \<Longrightarrow> replay edits content = (case outcome of Inl _ \<Rightarrow> None | Inr r \<Rightarrow> Some r)"
proof (induction edits i content results rule: apply_edits.induct)
  case (2 old new edits i content results)
  show ?case
  proof (cases "replace content old new False")
    case (Some r)
    with 2 show ?thesis by (cases r) auto
  qed (use 2 in simp)
qed auto

lemma after_write_plain:
  "te_formatter env = None \<Longrightarrow> \<exists>res. after_write env raw_path path title output s = (Inr res, record_mtime env path s) \<and> \<not> tr_error res"
  by (simp add: after_write_def auto_format_def plain_outcome_def)



section \<open>Patches\<close>

text \<open>
  C28. The parser of patches has an inverse. The sequences of operations it can return are exactly those with a non-empty path on every operation, without
  surrounding blanks, breaks or NUL, whose content lines are not directives (and none for a deletion); printing such a sequence in the patch
  format and parsing it gives it back.
\<close>

theorem patch_round_trip:
  "((\<exists>raw. parse_patch raw = Inr ops) \<longleftrightarrow> ops_typed ops) \<and> (parse_patch (print_patch ops) = Inr ops \<longleftrightarrow> ops_typed ops)"
  using patches.dec_typed patches.dec_enc by blast



text \<open>
  C30. A hunk whose removed line is not in the file is still applied. In the form the tool's description shows, a header of two at-signs, a removed and an added line,
  when neither the header nor the removed line reads like a line of the file, the added line is put at the top of the file, nothing is
  removed, and the operation reports success.
\<close>

theorem unmatched_hunk_is_inserted:
  assumes "current_text env path s = Inr content" and "\<not> te_write_fails env"
    and "\<forall>l\<in>set (lines_of content). rstrip l \<noteq> rstrip (''@@ '' @ place) \<and> rstrip l \<noteq> rstrip removed"
    and "newline \<notin> set (place @ removed @ added)"
  shows "run_op env \<lparr>po_kind = UpdateFile, po_path = path, po_content = unlines [''@@ '' @ place, ''-'' @ removed, ''+'' @ added]\<rparr> s =
    Inr (''Updated '' @ path, s\<lparr>files := tput (server_path env path) \<lparr>fl_text = added @ [newline] @ content, fl_mtime = te_clock env\<rparr> (files s)\<rparr>)"
proof -
  have wf: "wf_lines [''@@ '' @ place, ''-'' @ removed, ''+'' @ added]" using assms(4) by (simp add: wf_lines_def newline_def)
  have miss: "find_line (''@@ '' @ place) 0 (lines_of content) = None" "find_line removed 0 (lines_of content) = None"
    using assms(3) by (simp_all add: find_line_absent)
  have "hunk_lines [''@@ '' @ place, ''-'' @ removed, ''+'' @ added] (lines_of content) 0 = added # lines_of content"
    using miss by simp
  moreover have "unlines (added # lines_of content) = added @ [newline] @ content"
    by (simp add: unlines_def join_Cons lines_of_def join_split_on)
  ultimately have "apply_patch_hunks content (unlines [''@@ '' @ place, ''-'' @ removed, ''+'' @ added]) = added @ [newline] @ content"
    unfolding apply_patch_hunks_def lines_unlines [OF wf] by simp
  with assms(1,2) show ?thesis by (simp add: run_op_def write_file_def rbind_def)
qed

theorem unmatched_hunk_is_inserted_witness:
  "run_op demo_env \<lparr>po_kind = UpdateFile, po_path = ''/workspace/a.py'',
       po_content = unlines [''@@ def greet():'', ''-print(1)'', ''+print(2)'']\<rparr> (demo_desk (unlines [''def greet():'', ''  print(1)''])) =
   Inr (''Updated /workspace/a.py'', \<lparr>files = tput ''/workspace/a.py''
       \<lparr>fl_text = ''print(2)'' @ [newline] @ unlines [''def greet():'', ''  print(1)''], fl_mtime = 7\<rparr>
       (files (demo_desk (unlines [''def greet():'', ''  print(1)'']))), mtimes = []\<rparr>)"
proof -
  let ?body = "unlines [''def greet():'', ''  print(1)'']"
  have lines: "lines_of ?body = [''def greet():'', ''  print(1)'']" by code_simp
  have here: "server_path demo_env ''/workspace/a.py'' = ''/workspace/a.py''" by code_simp
  have "tget (files (demo_desk ?body)) (server_path demo_env ''/workspace/a.py'') = Some \<lparr>fl_text = ?body, fl_mtime = 1\<rparr>" by code_simp
  from current_text_visible [OF this] have "current_text demo_env ''/workspace/a.py'' (demo_desk ?body) = Inr ?body"
    using visible_exact [of ?body] lines by (simp add: demo_env_def unlines_def join_Cons newline_def)
  from unmatched_hunk_is_inserted [OF this, of "''def greet():''" "''print(1)''" "''print(2)''"] show ?thesis
    unfolding here lines by (simp add: demo_env_def demo_desk_def rstrip_def is_space_def newline_def)
qed

end
