(* ===== verification/Context_Limits.thy ===== *)
theory Context_Limits
  imports Text_Lines
begin

text \<open>
  The limits on what a model is sent: the tail of the history that survives a compaction (\<^verbatim>\<open>src/backend/agent/compaction_select.py\<close>), the
  detectors of a run that makes no progress (\<^verbatim>\<open>context_stall.py\<close>, \<^verbatim>\<open>doom_loop.py\<close>) and the truncation of tool outputs
  (\<^verbatim>\<open>src/backend/tool/truncation.py\<close>).
\<close>

section \<open>The tail of the history\<close>

text \<open>A message with the types of its parts; the size of a slice is an argument, as it is in the code.\<close>

record history_msg =
  hm_id :: ident
  hm_role :: string
  hm_parts :: "string list"
  hm_body :: string

record turn =
  t_start :: nat
  t_end :: nat
  t_id :: ident

record selection =
  sel_head :: "history_msg list"
  sel_tail :: "ident option"

definition MIN_PRESERVE_RECENT_TOKENS :: int where "MIN_PRESERVE_RECENT_TOKENS = 8000"
definition MAX_PRESERVE_RECENT_TOKENS :: int where "MAX_PRESERVE_RECENT_TOKENS = 60000"

definition preserve_recent_budget :: "int \<Rightarrow> int option \<Rightarrow> int" where
  "preserve_recent_budget usable_tokens configured = (case configured of
       Some n \<Rightarrow> max 0 n
     | None \<Rightarrow> min MAX_PRESERVE_RECENT_TOKENS (max MIN_PRESERVE_RECENT_TOKENS (usable_tokens div 4)))"

definition opens_turn :: "history_msg \<Rightarrow> bool" where
  "opens_turn msg \<longleftrightarrow> hm_role msg = ''user'' \<and> ''compaction'' \<notin> set (hm_parts msg)"

text \<open>A turn ends where the next begins, the last one at the end of the history.\<close>

definition turns :: "history_msg list \<Rightarrow> turn list" where
  "turns messages =
     (let starts = filter (\<lambda>i. opens_turn (messages ! i)) [0..<length messages]
      in map2 (\<lambda>s e. \<lparr>t_start = s, t_end = e, t_id = hm_id (messages ! s)\<rparr>) starts (tl starts @ [length messages]))"

definition slice :: "nat \<Rightarrow> nat \<Rightarrow> 'a list \<Rightarrow> 'a list" where
  "slice i j xs = drop i (take j xs)"

definition split_turn :: "(history_msg list \<Rightarrow> int) \<Rightarrow> history_msg list \<Rightarrow> turn \<Rightarrow> int \<Rightarrow> (nat \<times> ident) option" where
  "split_turn weigh messages turn budget =
     (if budget \<le> 0 \<or> t_end turn \<le> t_start turn + 1 then None
      else map_option (\<lambda>i. (i, hm_id (messages ! i)))
        (find (\<lambda>i. weigh (slice i (t_end turn) messages) \<le> budget) [t_start turn + 1..<t_end turn]))"

text \<open>The turns from the newest back, as long as they fit; the first that does not is split.\<close>

fun keep_turns :: "(history_msg list \<Rightarrow> int) \<Rightarrow> history_msg list \<Rightarrow> int \<Rightarrow> turn list \<Rightarrow> int \<Rightarrow> (nat \<times> ident) option \<Rightarrow> (nat \<times> ident) option" where
  "keep_turns weigh messages budget [] spent keep = keep"
| "keep_turns weigh messages budget (turn # older) spent keep =
     (let n = weigh (slice (t_start turn) (t_end turn) messages)
      in if spent + n \<le> budget then keep_turns weigh messages budget older (spent + n) (Some (t_start turn, t_id turn))
         else case split_turn weigh messages turn (budget - spent) of Some split \<Rightarrow> Some split | None \<Rightarrow> keep)"

definition last_turns :: "int option \<Rightarrow> turn list \<Rightarrow> turn list" where
  "last_turns tail_turns ts = (case tail_turns of None \<Rightarrow> ts | Some k \<Rightarrow> drop (length ts - nat k) ts)"

definition select_tail :: "(history_msg list \<Rightarrow> int) \<Rightarrow> history_msg list \<Rightarrow> int \<Rightarrow> int option \<Rightarrow> int option \<Rightarrow> selection" where
  "select_tail weigh messages usable_tokens configured_budget tail_turns =
     (let everything = \<lparr>sel_head = messages, sel_tail = None\<rparr>
      in if tail_turns \<noteq> None \<and> the tail_turns \<le> 0 then everything
         else let recent = last_turns tail_turns (turns messages)
           in case keep_turns weigh messages (preserve_recent_budget usable_tokens configured_budget) (rev recent) 0 None of
                None \<Rightarrow> everything
              | Some (start, i) \<Rightarrow> if start = 0 then everything else \<lparr>sel_head = take start messages, sel_tail = Some i\<rparr>)"

section \<open>Runs without progress\<close>

record stall_detector =
  sd_window :: nat
  sd_threshold :: nat
  sd_repeats :: nat
  sd_recent :: "int list"

definition STALL_WINDOW :: nat where "STALL_WINDOW = 10"
definition STALL_STEPS :: nat where "STALL_STEPS = 8"

definition new_detector :: stall_detector where
  "new_detector = \<lparr>sd_window = STALL_WINDOW, sd_threshold = STALL_STEPS, sd_repeats = 0, sd_recent = []\<rparr>"

text \<open>Appending to a \<^verbatim>\<open>deque\<close> of bounded length drops from the left.\<close>

definition push_bounded :: "nat \<Rightarrow> 'a \<Rightarrow> 'a list \<Rightarrow> 'a list" where
  "push_bounded n x xs = (let ys = xs @ [x] in drop (length ys - n) ys)"

definition observe :: "int option \<Rightarrow> stall_detector \<Rightarrow> bool \<times> stall_detector" where
  "observe input_tokens d = (case input_tokens of
       None \<Rightarrow> (False, d)
     | Some n \<Rightarrow> if n \<le> 0 then (False, d)
         else let d1 = d\<lparr>sd_repeats := (if n \<in> set (sd_recent d) then sd_repeats d + 1 else 0),
                         sd_recent := push_bounded (sd_window d) n (sd_recent d)\<rparr>
              in (sd_threshold d \<le> sd_repeats d1, d1))"

definition observe_all :: "int option list \<Rightarrow> stall_detector \<Rightarrow> stall_detector" where
  "observe_all steps d = fold (\<lambda>n d. snd (observe n d)) steps d"

text \<open>A finished call of a tool.\<close>

record tool_part =
  tp_tool :: string
  tp_input :: json

definition DOOM_LOOP_THRESHOLD :: nat where "DOOM_LOOP_THRESHOLD = 3"

definition REPEATABLE_POLL_ACTIONS :: "(string \<times> string list) list" where
  "REPEATABLE_POLL_ACTIONS = [(''video_generate'', [''wait'', ''status'']), (''video_transcribe'', [''wait'', ''status'']),
     (''video_compose'', [''wait'', ''status''])]"

text \<open>An action that is no string prints as none of the names.\<close>

definition is_repeatable_poll :: "string \<Rightarrow> json \<Rightarrow> bool" where
  "is_repeatable_poll tool_name tool_args = (case map_of REPEATABLE_POLL_ACTIONS tool_name of
       None \<Rightarrow> False
     | Some actions \<Rightarrow> (case tool_args of
           JDict args \<Rightarrow> (case map_of args ''action'' of Some (JStr action) \<Rightarrow> casefold (strip action) \<in> set actions | _ \<Rightarrow> False)
         | _ \<Rightarrow> False))"

text \<open>Arguments are compared by their canonical encoding.\<close>

definition is_repeat_of_recent :: "tool_part list \<Rightarrow> string \<Rightarrow> json \<Rightarrow> bool" where
  "is_repeat_of_recent completed_tool_parts tool_name tool_args =
     (\<not> is_repeatable_poll tool_name tool_args \<and> DOOM_LOOP_THRESHOLD - 1 \<le> length completed_tool_parts \<and>
      list_all (\<lambda>part. tp_tool part = tool_name \<and> json_dumps (tp_input part) = json_dumps tool_args)
        (drop (length completed_tool_parts - (DOOM_LOOP_THRESHOLD - 1)) completed_tool_parts))"

section \<open>Truncated outputs\<close>

definition MAX_LINES :: nat where "MAX_LINES = 2000"
definition MAX_BYTES :: nat where "MAX_BYTES = 50 * 1024"

record truncate_result =
  tc_content :: string
  tc_truncated :: bool
  tc_path :: "string option"

text \<open>The lines kept, their size, and whether the size was the limit met.\<close>

fun keep_head :: "nat \<Rightarrow> nat \<Rightarrow> string list \<Rightarrow> nat \<Rightarrow> string list \<Rightarrow> nat \<Rightarrow> string list \<times> nat \<times> bool" where
  "keep_head max_lines max_bytes [] i out bytes_count = (out, bytes_count, False)"
| "keep_head max_lines max_bytes (line # ls) i out bytes_count =
     (if max_lines \<le> i then (out, bytes_count, False)
      else let n = utf8_length line + (if i > 0 then 1 else 0)
        in if bytes_count + n > max_bytes then (out, bytes_count, True)
           else keep_head max_lines max_bytes ls (Suc i) (out @ [line]) (bytes_count + n))"

text \<open>The argument is the list of lines from the last back.\<close>

fun keep_tail :: "nat \<Rightarrow> nat \<Rightarrow> string list \<Rightarrow> string list \<Rightarrow> nat \<Rightarrow> string list \<times> nat \<times> bool" where
  "keep_tail max_lines max_bytes [] out bytes_count = (out, bytes_count, False)"
| "keep_tail max_lines max_bytes (line # ls) out bytes_count =
     (let n = utf8_length line + 1
      in if bytes_count + n > max_bytes then (out, bytes_count, True)
         else if max_lines \<le> length out then (out, bytes_count, False)
         else keep_tail max_lines max_bytes ls (line # out) (bytes_count + n))"

definition truncation_hint :: "bool \<Rightarrow> string option \<Rightarrow> string" where
  "truncation_hint has_task_tool saved =
     (case saved of None \<Rightarrow> [] | Some path \<Rightarrow> ''Full output saved to: '' @ path @ [newline]) @
     (if has_task_tool then ''Use the Task tool to have the explore agent process this file with Grep and Read to find the specific content you need.''
      else ''Use Grep to search the full content or Read with offset/limit to see more.'')"

text \<open>\<open>saved\<close> is the file the whole output was written to, \<open>None\<close> when that failed.\<close>

definition truncate_output :: "string option \<Rightarrow> nat \<Rightarrow> nat \<Rightarrow> bool \<Rightarrow> bool \<Rightarrow> string \<Rightarrow> truncate_result" where
  "truncate_output saved max_lines max_bytes head has_task_tool body =
     (if body = [] then \<lparr>tc_content = [], tc_truncated = False, tc_path = None\<rparr>
      else let ls = lines_of body; total_bytes = utf8_length body
        in if length ls \<le> max_lines \<and> total_bytes \<le> max_bytes then \<lparr>tc_content = body, tc_truncated = False, tc_path = None\<rparr>
           else let (out, bytes_count, hit_bytes) =
                      (if head then keep_head max_lines max_bytes ls 0 [] 0 else keep_tail max_lines max_bytes (rev ls) [] 0);
                    removed = (if hit_bytes then total_bytes - bytes_count else length ls - length out);
                    unit_name = (if hit_bytes then ''bytes'' else ''lines'')
             in \<lparr>tc_content = unlines out @ [newline, newline] @ ''...'' @ nat_text removed @ '' '' @ unit_name @ '' truncated...'' @
                   [newline, newline] @ truncation_hint has_task_tool saved,
                 tc_truncated = True, tc_path = saved\<rparr>)"

text \<open>A stored output with its modification time in milliseconds; \<open>stuck\<close> are the files that cannot be removed.\<close>

definition RETENTION_MS :: int where "RETENTION_MS = 7 * 24 * 3600 * 1000"

definition cleanup_old_outputs :: "(string \<Rightarrow> bool) \<Rightarrow> int \<Rightarrow> (string \<times> int) list \<Rightarrow> nat \<times> (string \<times> int) list" where
  "cleanup_old_outputs stuck now_ms stored =
     (let (old, kept) = partition (\<lambda>(name, mtime). mtime < now_ms - RETENTION_MS \<and> \<not> stuck name) stored in (length old, kept))"

end
