(* ===== verification/Call_Limits.thy ===== *)
theory Call_Limits
  imports Text_Lines Complex_Main
begin

text \<open>
  The limits on calls of a model: the deadlines of a response stream (\<^verbatim>\<open>src/backend/agent/stream_deadline.py\<close>), the delays and the loop of
  \<^verbatim>\<open>src/backend/agent/retry.py\<close>, and the loop around one persisted step, \<^verbatim>\<open>_run_provider_attempts\<close> of \<^verbatim>\<open>src/backend/agent/loop.py\<close>.
  Durations are rational seconds; rounding of floating point numbers is not modelled. The parsers of numbers and dates of the
  standard library and the classification of errors by regular expressions are arguments.
\<close>

section \<open>Deadlines of a stream\<close>

record stream_event =
  se_type :: string
  se_text :: string
  se_delta :: string

record stream_limits =
  first_progress :: rat
  idle :: rat
  total_wait :: rat

record model_timeouts =
  mt_first_progress :: "rat option"
  mt_idle :: "rat option"
  mt_total :: "rat option"

definition or_default :: "rat option \<Rightarrow> rat \<Rightarrow> rat" where
  "or_default configured d = (case configured of Some n \<Rightarrow> if n = 0 then d else n | None \<Rightarrow> d)"

text \<open>\<open>reasoning\<close> is the variant asked for or else the default of the model.\<close>

definition limits_for :: "model_timeouts \<Rightarrow> string option \<Rightarrow> string \<Rightarrow> stream_limits" where
  "limits_for configured reasoning purpose =
     (let slow = (case reasoning of None \<Rightarrow> False | Some r \<Rightarrow> r \<notin> {''none'', ''minimal'', ''low''}) \<or> purpose = ''compaction''
      in \<lparr>first_progress = or_default (mt_first_progress configured) (if slow then 90 else 30),
          idle = or_default (mt_idle configured) 60,
          total_wait = or_default (mt_total configured) (if slow then 600 else 180)\<rparr>)"

definition meaningful :: "stream_event \<Rightarrow> bool" where
  "meaningful event =
     (if se_type event \<in> {''text_delta'', ''reasoning_delta''} then strip (se_text event) \<noteq> []
      else if se_type event = ''tool_call_args_delta'' then strip (se_delta event) \<noteq> []
      else se_type event \<in> {''tool_call_start'', ''tool_call'', ''finish'', ''error''})"

text \<open>What the next wait on the provider brings, and after how long.\<close>

datatype arrival = Event stream_event | Ended | Broken string

datatype stream_end = Completed | Deadline string | ProviderError string

definition allowance :: "stream_limits \<Rightarrow> rat \<Rightarrow> rat \<Rightarrow> bool \<Rightarrow> rat \<times> string" where
  "allowance limits waited quiet progressed =
     (let remaining = total_wait limits - waited;
          silence = (if progressed then idle limits else first_progress limits) - quiet
      in if silence < remaining then (silence, if progressed then ''idle'' else ''first_progress'') else (remaining, ''total''))"

text \<open>The events passed on, the time spent waiting, and how the stream ended. A provider that sends nothing more is the empty list.\<close>

fun bounded_stream :: "stream_limits \<Rightarrow> (rat \<times> arrival) list \<Rightarrow> rat \<Rightarrow> rat \<Rightarrow> bool \<Rightarrow> stream_event list \<times> rat \<times> stream_end" where
  "bounded_stream limits [] waited quiet progressed =
     (let (remaining, phase) = allowance limits waited quiet progressed in ([], waited + max 0 remaining, Deadline phase))"
| "bounded_stream limits ((elapsed, arrival) # stream) waited quiet progressed =
     (let (remaining, phase) = allowance limits waited quiet progressed
      in if remaining \<le> 0 then ([], waited, Deadline phase)
         else if elapsed \<ge> remaining then ([], waited + remaining, Deadline phase)
         else case arrival of
           Ended \<Rightarrow> ([], waited + elapsed, Completed)
         | Broken e \<Rightarrow> ([], waited + elapsed, ProviderError e)
         | Event event \<Rightarrow>
             let (events, spent, outcome) = bounded_stream limits stream (waited + elapsed)
                   (if meaningful event then 0 else quiet + elapsed) (progressed \<or> meaningful event)
             in (event # events, spent, outcome))"

section \<open>Delays between attempts\<close>

record provider_error =
  pe_overflow :: bool
  pe_retryable_class :: bool
  pe_pre_dispatch :: bool
  pe_headers :: "(string \<times> string) list"
  pe_response_headers :: "(string \<times> string) list"

record header_lib =
  float_of :: "string \<Rightarrow> rat option"
  date_delay :: "string \<Rightarrow> rat option"

definition RETRY_INITIAL_DELAY :: rat where "RETRY_INITIAL_DELAY = 2"
definition RETRY_BACKOFF_FACTOR :: rat where "RETRY_BACKOFF_FACTOR = 2"
definition RETRY_MAX_DELAY :: rat where "RETRY_MAX_DELAY = 30"
definition RETRY_JITTER_FACTOR :: rat where "RETRY_JITTER_FACTOR = 1 / 4"

definition error_headers :: "provider_error \<Rightarrow> (string, string) table" where
  "error_headers e = fold (\<lambda>(k, v) m. tput (casefold k) v m) (pe_headers e @ pe_response_headers e) []"

definition retry_after_seconds :: "header_lib \<Rightarrow> string \<Rightarrow> rat option" where
  "retry_after_seconds lib v = (case float_of lib v of
       Some n \<Rightarrow> Some (max 0 n) | None \<Rightarrow> map_option (max 0) (date_delay lib v))"

definition jitter :: "rat \<Rightarrow> rat \<Rightarrow> rat" where
  "jitter secs rand = secs * (1 + RETRY_JITTER_FACTOR * (2 * rand - 1))"

definition backoff :: "nat \<Rightarrow> rat" where
  "backoff attempt = RETRY_INITIAL_DELAY * RETRY_BACKOFF_FACTOR ^ (attempt - 1)"

definition error_is :: "(provider_error \<Rightarrow> bool) \<Rightarrow> provider_error option \<Rightarrow> bool" where
  "error_is P error = (case error of None \<Rightarrow> False | Some e \<Rightarrow> P e)"

text \<open>The delay the server asked for.\<close>

definition server_delay :: "header_lib \<Rightarrow> (string, string) table \<Rightarrow> rat option" where
  "server_delay lib headers =
     (case Option.bind (tget headers ''retry-after-ms'') (float_of lib) of
        Some ms \<Rightarrow> Some (max 0 (ms / 1000))
      | None \<Rightarrow> Option.bind (tget headers ''retry-after'') (retry_after_seconds lib))"

definition retry_delay :: "header_lib \<Rightarrow> nat \<Rightarrow> provider_error option \<Rightarrow> rat \<Rightarrow> rat" where
  "retry_delay lib attempt error rand =
     (let headers = (case error of None \<Rightarrow> [] | Some e \<Rightarrow> error_headers e)
      in case server_delay lib headers of
           Some n \<Rightarrow> n
         | None \<Rightarrow>
             if error_is (\<lambda>e. pe_retryable_class e \<and> pe_headers e \<noteq> []) error then jitter (backoff attempt) rand
             else if attempt = 1 \<and> headers = [] \<and> error_is pe_pre_dispatch error then 1 / 10 + 15 / 100 * max 0 (min 1 rand)
             else jitter (min (backoff attempt) RETRY_MAX_DELAY) rand)"

definition MAX_RETRIES :: nat where "MAX_RETRIES = 10"

datatype 'a retried = Returned 'a | Raised provider_error | MaxRetriesExceeded

text \<open>
  The loop from an attempt on: \<open>call n\<close> is what the n-th call does, \<open>label\<close> is \<^verbatim>\<open>is_retryable\<close>, \<open>rand n\<close> the random number drawn. The result
  comes with the delays slept.
\<close>

function retry_from :: "header_lib \<Rightarrow> (provider_error \<Rightarrow> string option) \<Rightarrow> (nat \<Rightarrow> provider_error + 'a) \<Rightarrow> (nat \<Rightarrow> rat) \<Rightarrow> nat \<Rightarrow> nat \<Rightarrow>
    'a retried \<times> rat list" where
  "retry_from lib label call rand max_retries attempt =
     (if attempt > max_retries then (MaxRetriesExceeded, [])
      else case call attempt of
        Inr v \<Rightarrow> (Returned v, [])
      | Inl e \<Rightarrow>
          if pe_overflow e \<or> label e = None \<or> attempt \<ge> max_retries then (Raised e, [])
          else let (r, slept) = retry_from lib label call rand max_retries (Suc attempt)
            in (r, retry_delay lib attempt (Some e) (rand attempt) # slept))"
  by pat_completeness auto
termination
  by (relation "measure (\<lambda>(lib, label, call, rand, max_retries, attempt). max_retries - attempt)") auto

declare retry_from.simps [simp del]

definition with_retry :: "header_lib \<Rightarrow> (provider_error \<Rightarrow> string option) \<Rightarrow> (nat \<Rightarrow> provider_error + 'a) \<Rightarrow> (nat \<Rightarrow> rat) \<Rightarrow> nat \<Rightarrow>
    'a retried \<times> rat list" where
  "with_retry lib label call rand max_retries = retry_from lib label call rand max_retries 1"

section \<open>Attempts of a persisted step\<close>

datatype step_outcome = CONTINUE | COMPACT | RETRY | ERROR

record step_result =
  sr_outcome :: step_outcome
  sr_finish_reason :: string
  sr_error :: "string option"
  sr_retry_error :: "provider_error option"

datatype attempt_outcome = Held | BudgetExceeded string | Answered step_result

text \<open>
  What happens around the n-th attempt: the stop signal before it, the outcome of the fence and the attempt with the time both take, the
  random number, the time the retry notice takes, and whether the signal is set while the loop sleeps.
\<close>

record attempt_round =
  ar_stopped :: bool
  ar_outcome :: attempt_outcome
  ar_duration :: rat
  ar_rand :: rat
  ar_notice :: rat
  ar_stopped_asleep :: bool

definition aborted_step :: step_result where
  "aborted_step = \<lparr>sr_outcome = CONTINUE, sr_finish_reason = ''aborted'', sr_error = None, sr_retry_error = None\<rparr>"

definition over_budget_step :: "string \<Rightarrow> step_result" where
  "over_budget_step message = \<lparr>sr_outcome = ERROR, sr_finish_reason = ''unknown'', sr_error = Some message, sr_retry_error = None\<rparr>"

text \<open>The step returned, and what was done on the way: a held task sets the stop signal itself.\<close>

record attempts_report =
  rp_result :: step_result
  rp_retries :: nat
  rp_attempts :: nat
  rp_notices :: "(nat \<times> rat) list"
  rp_clock :: rat
  rp_sets_stop :: bool

function attempts_from :: "header_lib \<Rightarrow> (nat \<Rightarrow> attempt_round) \<Rightarrow> nat \<Rightarrow> rat \<Rightarrow> nat \<Rightarrow> rat \<Rightarrow> (nat \<times> rat) list \<Rightarrow> attempts_report" where
  "attempts_from lib rounds max_retries window retries clock notices =
     (let r = rounds retries;
          report = (\<lambda>result retries attempts t notices. \<lparr>rp_result = result, rp_retries = retries, rp_attempts = attempts,
            rp_notices = notices, rp_clock = t, rp_sets_stop = False\<rparr>);
          clock1 = clock + ar_duration r
      in if ar_stopped r then report aborted_step retries retries clock notices
         else case ar_outcome r of
           Held \<Rightarrow> (report aborted_step retries (Suc retries) clock1 notices)\<lparr>rp_sets_stop := True\<rparr>
         | BudgetExceeded message \<Rightarrow> report (over_budget_step message) retries (Suc retries) clock1 notices
         | Answered result \<Rightarrow>
             if sr_outcome result \<noteq> RETRY \<or> retries \<ge> max_retries then report result retries (Suc retries) clock1 notices
             else let delay = retry_delay lib (retries + 1) (sr_retry_error result) (ar_rand r)
               in if clock1 + delay \<ge> window then report result retries (Suc retries) clock1 notices
                  else if ar_stopped_asleep r then report aborted_step (retries + 1) (Suc retries) (clock1 + ar_notice r) (notices @ [(retries + 1, delay)])
                  else attempts_from lib rounds max_retries window (retries + 1) (clock1 + ar_notice r + delay) (notices @ [(retries + 1, delay)]))"
  by pat_completeness auto
termination
  by (relation "measure (\<lambda>(lib, rounds, max_retries, window, retries, clock, notices). max_retries - retries)") auto

declare attempts_from.simps [simp del]

definition RETRY_WINDOW :: rat where "RETRY_WINDOW = 180"

definition run_provider_attempts :: "header_lib \<Rightarrow> (nat \<Rightarrow> attempt_round) \<Rightarrow> nat \<Rightarrow> attempts_report" where
  "run_provider_attempts lib rounds max_retries = attempts_from lib rounds max_retries RETRY_WINDOW 0 0 []"

end
