(* ===== verification/Limit_Theorems.thy ===== *)
theory Limit_Theorems
  imports Context_Limits Call_Limits
begin

text \<open>
  Lemmas on the limits on context and on calls: what a compaction keeps, when a run counts as stalled, what a truncated output shows,
  how long a stream and a sequence of attempts can take.
\<close>

section \<open>Turns\<close>

lemma slice_append: "i \<le> j \<Longrightarrow> j \<le> k \<Longrightarrow> k \<le> length xs \<Longrightarrow> slice i j xs @ slice j k xs = slice i k xs"
proof -
  assume "i \<le> j" "j \<le> k" "k \<le> length xs"
  then have "slice i k xs = drop i (take j xs @ drop j (take k xs))"
    by (metis append_take_drop_id min_absorb1 slice_def take_take)
  then show ?thesis using \<open>i \<le> j\<close> \<open>j \<le> k\<close> \<open>k \<le> length xs\<close> by (simp add: slice_def)
qed

lemma slice_end [simp]: "slice i (length xs) xs = drop i xs"
  by (simp add: slice_def)

text \<open>Turns that follow one another up to the end of the history, the newest first.\<close>

fun chained :: "history_msg list \<Rightarrow> nat \<Rightarrow> turn list \<Rightarrow> bool" where
  "chained messages stop [] = True"
| "chained messages stop (t # ts) =
     (t_end t = stop \<and> t_start t < t_end t \<and> t_id t = hm_id (messages ! t_start t) \<and> chained messages (t_start t) ts)"

lemma chained_append: "chained messages stop (xs @ ys) \<longleftrightarrow>
    chained messages stop xs \<and> chained messages (if xs = [] then stop else t_start (last xs)) ys"
  by (induction xs arbitrary: stop) auto

lemma chained_map2:
  "sorted_wrt (<) starts \<Longrightarrow> list_all (\<lambda>i. i < stop) starts \<Longrightarrow>
    chained messages stop (rev (map2 (\<lambda>s e. \<lparr>t_start = s, t_end = e, t_id = hm_id (messages ! s)\<rparr>) starts (tl starts @ [stop])))"
proof (induction starts)
  case (Cons s starts)
  show ?case
  proof (cases starts)
    case Nil
    with Cons.prems show ?thesis by simp
  next
    case (Cons s' rest)
    let ?mk = "\<lambda>s e. \<lparr>t_start = s, t_end = e, t_id = hm_id (messages ! s)\<rparr>"
    have "chained messages stop (rev (map2 ?mk starts (tl starts @ [stop])))" using Cons.prems Cons.IH by simp
    then show ?thesis using Cons.prems Cons by (cases rest) (auto simp: chained_append)
  qed
qed simp

lemma turns_chained: "chained messages (length messages) (rev (turns messages))"
  unfolding turns_def Let_def by (rule chained_map2) (auto simp: list_all_iff intro: sorted_wrt_filter)

lemma rev_last_turns: "\<exists>n. rev (last_turns tail_turns ts) = take n (rev ts)"
  by (cases tail_turns) (auto simp: last_turns_def rev_drop intro: exI [of _ "length ts"])

lemma chained_take: "chained messages stop ts \<Longrightarrow> chained messages stop (take n ts)"
  by (metis append_take_drop_id chained_append)

section \<open>What a compaction keeps\<close>

text \<open>
  A tail that starts at message \<open>k\<close>: it lies in an eligible turn; it and the turns after it, measured piece by piece, fit the budget; and
  no earlier start in that turn does.
\<close>

definition good_tail :: "(history_msg list \<Rightarrow> int) \<Rightarrow> history_msg list \<Rightarrow> int \<Rightarrow> turn set \<Rightarrow> nat \<Rightarrow> ident \<Rightarrow> bool" where
  "good_tail weigh messages budget T k i \<longleftrightarrow> (\<exists>t\<in>T. \<exists>later. t_start t \<le> k \<and> k < t_end t \<and> t_end t \<le> length messages \<and> i = hm_id (messages ! k) \<and>
     concat later = drop (t_end t) messages \<and> weigh (slice k (t_end t) messages) + sum_list (map weigh later) \<le> budget \<and>
     (\<forall>j. t_start t \<le> j \<and> j < k \<longrightarrow> budget < weigh (slice j (t_end t) messages) + sum_list (map weigh later)))"

lemma find_upt_Some:
  "find P [m..<n] = Some k \<Longrightarrow> P k \<and> m \<le> k \<and> k < n \<and> (\<forall>j. m \<le> j \<and> j < k \<longrightarrow> \<not> P j)"
proof -
  assume "find P [m..<n] = Some k"
  then obtain i where i: "i < n - m" "P (m + i)" "k = m + i" "\<forall>j<i. \<not> P (m + j)"
    by (auto simp: find_Some_iff)
  have "\<not> P j" if "m \<le> j" "j < k" for j using i(3,4) that by (metis add_less_cancel_left le_iff_add)
  with i show ?thesis by auto
qed

lemma split_turn_Some:
  assumes "split_turn weigh messages t budget = Some (k, i)"
  shows "t_start t < k \<and> k < t_end t \<and> i = hm_id (messages ! k) \<and> weigh (slice k (t_end t) messages) \<le> budget \<and>
    (\<forall>j. t_start t < j \<and> j < k \<longrightarrow> budget < weigh (slice j (t_end t) messages))"
  using assms by (auto simp: split_turn_def Suc_le_eq not_le split: if_splits dest!: find_upt_Some)

lemma keep_turns_good:
  "keep_turns weigh messages budget ts spent keep = Some (k, i) \<Longrightarrow> chained messages stop ts \<Longrightarrow> stop \<le> length messages \<Longrightarrow> set ts \<subseteq> T \<Longrightarrow>
    concat later = drop stop messages \<Longrightarrow> sum_list (map weigh later) = spent \<Longrightarrow>
    (\<forall>k i. keep = Some (k, i) \<longrightarrow> good_tail weigh messages budget T k i) \<Longrightarrow> good_tail weigh messages budget T k i"
proof (induction ts arbitrary: spent keep stop later)
  case (Cons t ts)
  let ?n = "weigh (slice (t_start t) (t_end t) messages)"
  have t: "t_end t = stop" "t_start t < t_end t" "t_id t = hm_id (messages ! t_start t)" "chained messages (t_start t) ts" "t \<in> T" "set ts \<subseteq> T"
    using Cons.prems(2,4) by auto
  show ?case
  proof (cases "spent + ?n \<le> budget")
    case True
    have "good_tail weigh messages budget T (t_start t) (t_id t)"
      unfolding good_tail_def using t True Cons.prems(3,5,6) by (intro bexI [of _ t] exI [of _ later]) auto
    moreover have "concat (slice (t_start t) (t_end t) messages # later) = drop (t_start t) messages"
      using Cons.prems(3,5) t(1,2) slice_append [of "t_start t" stop "length messages" messages] by simp
    ultimately show ?thesis
      using Cons.prems(1,3,6) True t Cons.IH [of "spent + ?n" "Some (t_start t, t_id t)" "t_start t" "slice (t_start t) (t_end t) messages # later"]
      by simp
  next
    case False
    show ?thesis
    proof (cases "split_turn weigh messages t (budget - spent)")
      case None
      with False Cons.prems(1,7) show ?thesis by simp
    next
      case (Some split)
      with False Cons.prems(1) have "split_turn weigh messages t (budget - spent) = Some (k, i)" by simp
      note s = split_turn_Some [OF this]
      have "budget < weigh (slice j (t_end t) messages) + spent" if "t_start t \<le> j" "j < k" for j
      proof (cases "j = t_start t")
        case True
        with False show ?thesis by simp
      next
        case False
        with that s have "budget - spent < weigh (slice j (t_end t) messages)" by (metis le_neq_implies_less)
        then show ?thesis by linarith
      qed
      with s t Cons.prems(3,5,6) show ?thesis unfolding good_tail_def by (intro bexI [of _ t] exI [of _ later]) auto
    qed
  qed
qed simp

lemma select_tail_good:
  assumes "sel_tail (select_tail weigh messages usable configured tail_turns) = Some i"
  shows "\<exists>k>0. sel_head (select_tail weigh messages usable configured tail_turns) = take k messages \<and>
    good_tail weigh messages (preserve_recent_budget usable configured) (set (last_turns tail_turns (turns messages))) k i"
proof -
  let ?recent = "last_turns tail_turns (turns messages)" and ?budget = "preserve_recent_budget usable configured"
  from assms obtain k where k: "keep_turns weigh messages ?budget (rev ?recent) 0 None = Some (k, i)" "k > 0"
      "sel_head (select_tail weigh messages usable configured tail_turns) = take k messages"
    by (auto simp: select_tail_def Let_def split: if_splits option.splits)
  obtain n where "rev ?recent = take n (rev (turns messages))" using rev_last_turns by blast
  with turns_chained chained_take have "chained messages (length messages) (rev ?recent)" by metis
  from keep_turns_good [OF k(1) this, of "set ?recent" "[]"] have "good_tail weigh messages ?budget (set ?recent) k i" by simp
  with k(2,3) show ?thesis by blast
qed

lemma select_tail_all: "sel_tail (select_tail weigh messages usable configured tail_turns) = None \<Longrightarrow>
    sel_head (select_tail weigh messages usable configured tail_turns) = messages"
  by (auto simp: select_tail_def Let_def split: if_splits option.splits)

section \<open>Stalled runs\<close>

text \<open>A step repeats when one of the steps of the window before it had the same size.\<close>

definition repeats :: "nat \<Rightarrow> int list \<Rightarrow> nat \<Rightarrow> bool" where
  "repeats w xs i \<longleftrightarrow> (\<exists>j<i. i \<le> j + w \<and> xs ! j = xs ! i)"

definition sizes :: "int option list \<Rightarrow> int list" where
  "sizes steps = filter (\<lambda>n. 0 < n) (List.map_filter (\<lambda>x. x) steps)"

lemma repeats_append: "i < length xs \<Longrightarrow> repeats w (xs @ ys) i \<longleftrightarrow> repeats w xs i"
proof -
  assume "i < length xs"
  then have "(xs @ ys) ! j = xs ! j" if "j \<le> i" for j using that by (simp add: nth_append)
  then show ?thesis unfolding repeats_def by (metis less_imp_le order_refl)
qed

lemma in_window: "n \<in> set (drop (length xs - w) xs) \<longleftrightarrow> repeats w (xs @ [n]) (length xs)"
proof
  assume "n \<in> set (drop (length xs - w) xs)"
  then obtain i where "i < length xs - (length xs - w)" "drop (length xs - w) xs ! i = n"
    by (metis in_set_conv_nth length_drop)
  then show "repeats w (xs @ [n]) (length xs)"
    unfolding repeats_def by (intro exI [of _ "length xs - w + i"]) (simp add: nth_append, arith)
next
  assume "repeats w (xs @ [n]) (length xs)"
  then obtain j where j: "j < length xs" "length xs \<le> j + w" "xs ! j = n" unfolding repeats_def by (auto simp: nth_append)
  then have "drop (length xs - w) xs ! (j - (length xs - w)) = n" by simp
  moreover have "j - (length xs - w) < length (drop (length xs - w) xs)" using j by auto
  ultimately show "n \<in> set (drop (length xs - w) xs)" by (metis nth_mem)
qed

text \<open>The state of a detector after the sizes seen: the window, and the number of repeating steps at the end.\<close>

definition detects :: "stall_detector \<Rightarrow> int list \<Rightarrow> bool" where
  "detects d xs \<longleftrightarrow> sd_window d = STALL_WINDOW \<and> sd_threshold d = STALL_STEPS \<and> sd_recent d = drop (length xs - STALL_WINDOW) xs \<and>
     (\<forall>n. n \<le> sd_repeats d \<longleftrightarrow> n \<le> length xs \<and> (\<forall>i<length xs. length xs - n \<le> i \<longrightarrow> repeats STALL_WINDOW xs i))"

lemma push_bounded_drop: "push_bounded w n (drop (length xs - w) xs) = drop (length (xs @ [n]) - w) (xs @ [n])"
  by (cases "w \<le> length xs") (simp_all add: push_bounded_def Let_def Suc_diff_le)

lemma detects_new: "detects new_detector []"
  by (simp add: detects_def new_detector_def)

lemma detects_observe:
  assumes "detects d xs" and "0 < n"
  shows "detects (snd (observe (Some n) d)) (xs @ [n])"
proof -
  let ?d = "snd (observe (Some n) d)"
  have hit: "n \<in> set (sd_recent d) \<longleftrightarrow> repeats STALL_WINDOW (xs @ [n]) (length xs)"
    using assms(1) in_window by (simp add: detects_def)
  have old: "m \<le> sd_repeats d \<longleftrightarrow> m \<le> length xs \<and> (\<forall>i<length xs. length xs - m \<le> i \<longrightarrow> repeats STALL_WINDOW (xs @ [n]) i)" for m
    using assms(1) by (simp add: detects_def repeats_append)
  have "m \<le> sd_repeats ?d \<longleftrightarrow> m \<le> length (xs @ [n]) \<and> (\<forall>i<length (xs @ [n]). length (xs @ [n]) - m \<le> i \<longrightarrow> repeats STALL_WINDOW (xs @ [n]) i)" for m
  proof (cases m)
    case (Suc m')
    show ?thesis
    proof (cases "n \<in> set (sd_recent d)")
      case True
      with assms(2) Suc have "m \<le> sd_repeats ?d \<longleftrightarrow> m' \<le> sd_repeats d" by (simp add: observe_def)
      with True hit Suc old [of m'] show ?thesis by (auto simp: less_Suc_eq)
    next
      case False
      with assms(2) Suc hit show ?thesis by (auto simp: observe_def)
    qed
  qed simp
  with assms show ?thesis by (simp add: detects_def observe_def push_bounded_drop del: length_append)
qed

lemma observe_silent: "n = None \<or> the n \<le> 0 \<Longrightarrow> observe n d = (False, d)"
  by (cases n) (simp_all add: observe_def)

lemma sizes_Cons: "sizes (n # steps) = (if n = None \<or> the n \<le> 0 then [] else [the n]) @ sizes steps"
  by (cases n) (simp_all add: sizes_def List.map_filter_simps)

lemma detects_all: "detects d xs \<Longrightarrow> detects (observe_all steps d) (xs @ sizes steps)"
proof (induction steps arbitrary: d xs)
  case (Cons n steps)
  show ?case
  proof (cases "n = None \<or> the n \<le> 0")
    case True
    with Cons show ?thesis by (simp add: observe_all_def observe_silent sizes_Cons)
  next
    case False
    then obtain m where m: "n = Some m" "0 < m" by auto
    from Cons.IH [OF detects_observe [OF Cons.prems m(2)]] m show ?thesis by (simp add: observe_all_def sizes_Cons)
  qed
qed (simp add: observe_all_def sizes_def List.map_filter_simps)

lemma observe_verdict: "detects d xs \<Longrightarrow> 0 < n \<Longrightarrow> fst (observe (Some n) d) \<longleftrightarrow> STALL_STEPS \<le> sd_repeats (snd (observe (Some n) d))"
  by (simp add: observe_def detects_def)

section \<open>Truncation\<close>

lemma utf8_append [simp]: "utf8_length (xs @ ys) = utf8_length xs + utf8_length ys"
  by (simp add: utf8_length_def)

lemma utf8_Nil [simp]: "utf8_length [] = 0"
  by (simp add: utf8_length_def)

lemma utf8_newline: "utf8_length [newline] = 1"
  by (simp add: utf8_length_def newline_def)

lemma unlines_snoc: "unlines (ls @ [l]) = unlines ls @ (if ls = [] then [] else [newline]) @ l"
  by (induction ls) (auto simp: unlines_def join_Cons)

lemma unlines_Cons: "unlines (l # ls) = l @ (if ls = [] then [] else [newline] @ unlines ls)"
  by (simp add: unlines_def join_Cons)

lemma utf8_snoc: "utf8_length (unlines (ls @ [l])) = utf8_length (unlines ls) + (if ls = [] then 0 else 1) + utf8_length l"
  by (simp add: unlines_snoc utf8_newline)

lemma utf8_Cons: "utf8_length (unlines (l # ls)) = utf8_length l + (if ls = [] then 0 else 1 + utf8_length (unlines ls))"
  using utf8_append [of "[newline]" "unlines ls"] by (simp only: unlines_Cons utf8_append utf8_newline utf8_Nil if_distrib [of utf8_length])

lemma keep_head_fits:
  "keep_head max_lines max_bytes ls (length out) out (utf8_length (unlines out)) = (out', bytes_count, hit) \<Longrightarrow>
    utf8_length (unlines out) \<le> max_bytes \<Longrightarrow> length out \<le> max_lines \<Longrightarrow>
    \<exists>kept rest. ls = kept @ rest \<and> out' = out @ kept \<and> utf8_length (unlines out') \<le> max_bytes \<and> length out' \<le> max_lines \<and>
      (rest = [] \<or> length out' = max_lines \<or> max_bytes < utf8_length (unlines (out' @ [hd rest])))"
proof (induction ls arbitrary: out)
  case (Cons l ls)
  let ?n = "utf8_length l + (if length out > 0 then 1 else 0)"
  have n: "utf8_length (unlines (out @ [l])) = utf8_length (unlines out) + ?n" by (simp add: utf8_snoc)
  consider "max_lines \<le> length out" | "length out < max_lines" "utf8_length (unlines out) + ?n > max_bytes"
    | "length out < max_lines" "utf8_length (unlines out) + ?n \<le> max_bytes" by linarith
  then show ?case
  proof cases
    case 3
    then have "keep_head max_lines max_bytes ls (length (out @ [l])) (out @ [l]) (utf8_length (unlines (out @ [l]))) = (out', bytes_count, hit)"
      using Cons.prems(1) unfolding n by (simp add: Let_def split: if_splits)
    from Cons.IH [OF this] 3 n obtain kept rest where "ls = kept @ rest" "out' = (out @ [l]) @ kept" "utf8_length (unlines out') \<le> max_bytes"
        "length out' \<le> max_lines" "rest = [] \<or> length out' = max_lines \<or> max_bytes < utf8_length (unlines (out' @ [hd rest]))"
      by auto
    then show ?thesis by (intro exI [of _ "l # kept"] exI [of _ rest]) simp
  qed (use Cons.prems n in \<open>auto simp: Let_def split: if_splits\<close>)
qed auto

lemma keep_tail_fits:
  "keep_tail max_lines max_bytes ls out bytes_count = (out', bytes_count', hit) \<Longrightarrow>
    utf8_length (unlines out) \<le> bytes_count \<Longrightarrow> bytes_count \<le> max_bytes \<Longrightarrow> length out \<le> max_lines \<Longrightarrow>
    \<exists>kept rest. ls = kept @ rest \<and> out' = rev kept @ out \<and> utf8_length (unlines out') \<le> max_bytes \<and> length out' \<le> max_lines"
proof (induction ls arbitrary: out bytes_count)
  case (Cons l ls)
  let ?n = "utf8_length l + 1"
  have n: "utf8_length (unlines (l # out)) \<le> bytes_count + ?n" using Cons.prems(2) by (simp add: utf8_Cons)
  consider "bytes_count + ?n > max_bytes \<or> max_lines \<le> length out" | "bytes_count + ?n \<le> max_bytes" "length out < max_lines" by linarith
  then show ?case
  proof cases
    case 2
    with Cons.prems(1) have "keep_tail max_lines max_bytes ls (l # out) (bytes_count + ?n) = (out', bytes_count', hit)" by simp
    from Cons.IH [OF this n] 2 obtain kept rest where "ls = kept @ rest" "out' = rev kept @ l # out" "utf8_length (unlines out') \<le> max_bytes"
        "length out' \<le> max_lines" by auto
    then show ?thesis by (intro exI [of _ "l # kept"] exI [of _ rest]) simp
  next
    case 1
    then have "out' = out" using Cons.prems(1) by (auto simp: Let_def split: if_splits)
    with Cons.prems show ?thesis by (intro exI [of _ "[]"] exI [of _ "l # ls"]) simp
  qed
qed auto

text \<open>The lines of the output that a truncated result shows.\<close>

definition shows_part :: "nat \<Rightarrow> nat \<Rightarrow> bool \<Rightarrow> string list \<Rightarrow> string list \<Rightarrow> bool" where
  "shows_part max_lines max_bytes head ls shown \<longleftrightarrow> length shown \<le> max_lines \<and> utf8_length (unlines shown) \<le> max_bytes \<and>
     (\<exists>hidden. hidden \<noteq> [] \<and> (if head then ls = shown @ hidden \<and> (length shown = max_lines \<or> max_bytes < utf8_length (unlines (shown @ [hd hidden])))
        else ls = hidden @ shown))"

lemma keep_head_shows:
  assumes "keep_head max_lines max_bytes ls 0 [] 0 = (out, bytes_count, hit)" and "\<not> (length ls \<le> max_lines \<and> utf8_length (unlines ls) \<le> max_bytes)"
  shows "shows_part max_lines max_bytes True ls out"
proof -
  have "unlines [] = []" by (simp add: unlines_def)
  with assms(1) keep_head_fits [of max_lines max_bytes ls "[]" out bytes_count hit]
  obtain hidden where h: "ls = out @ hidden" "utf8_length (unlines out) \<le> max_bytes" "length out \<le> max_lines"
      "hidden = [] \<or> length out = max_lines \<or> max_bytes < utf8_length (unlines (out @ [hd hidden]))" by auto
  with assms(2) have "hidden \<noteq> []" by auto
  with h show ?thesis unfolding shows_part_def by auto
qed

lemma keep_tail_shows:
  assumes "keep_tail max_lines max_bytes (rev ls) [] 0 = (out, bytes_count, hit)" and "\<not> (length ls \<le> max_lines \<and> utf8_length (unlines ls) \<le> max_bytes)"
  shows "shows_part max_lines max_bytes False ls out"
proof -
  have "unlines [] = []" by (simp add: unlines_def)
  with assms(1) keep_tail_fits [of max_lines max_bytes "rev ls" "[]" 0 out bytes_count hit]
  obtain kept rest where h: "rev ls = kept @ rest" "out = rev kept" "utf8_length (unlines out) \<le> max_bytes" "length out \<le> max_lines" by auto
  then have ls: "ls = rev rest @ out" by (metis rev_append rev_rev_ident)
  with assms(2) h have "rest \<noteq> []" by auto
  with ls h show ?thesis unfolding shows_part_def by auto
qed

section \<open>Streams\<close>

lemma allowance_le:
  "allowance limits waited quiet progressed = (remaining, phase) \<Longrightarrow>
    remaining \<le> total_wait limits - waited \<and> remaining \<le> (if progressed then idle limits else first_progress limits) - quiet"
  by (auto simp: allowance_def Let_def split: if_splits)

text \<open>One step of the loop that passes an event on.\<close>

lemma bounded_stream_event:
  assumes "bounded_stream limits ((elapsed, arrival) # stream) waited quiet progressed = (event # events, spent, outcome)"
  shows "arrival = Event event \<and> elapsed < total_wait limits - waited \<and> elapsed < (if progressed then idle limits else first_progress limits) - quiet \<and>
    bounded_stream limits stream (waited + elapsed) (if meaningful event then 0 else quiet + elapsed) (progressed \<or> meaningful event) =
      (events, spent, outcome)"
proof -
  obtain remaining phase where a: "allowance limits waited quiet progressed = (remaining, phase)" by fastforce
  with assms have "elapsed < remaining" "arrival = Event event"
      "bounded_stream limits stream (waited + elapsed) (if meaningful event then 0 else quiet + elapsed) (progressed \<or> meaningful event) =
        (events, spent, outcome)"
    by (auto simp: Let_def split: if_splits arrival.splits prod.splits)
  with allowance_le [OF a] show ?thesis by auto
qed

lemma bounded_stream_spent:
  "bounded_stream limits stream waited quiet progressed = (events, spent, outcome) \<Longrightarrow> waited \<le> total_wait limits \<Longrightarrow> spent \<le> total_wait limits"
proof (induction limits stream waited quiet progressed arbitrary: events rule: bounded_stream.induct)
  case (1 limits waited quiet progressed)
  obtain remaining phase where "allowance limits waited quiet progressed = (remaining, phase)" by fastforce
  with 1 allowance_le show ?case by (fastforce simp: max_def)
next
  case (2 limits elapsed arrival stream waited quiet progressed)
  obtain remaining phase where a: "allowance limits waited quiet progressed = (remaining, phase)" by fastforce
  show ?case
  proof (cases events)
    case Nil
    with 2(2,3) a allowance_le [OF a] show ?thesis by (auto simp: Let_def split: if_splits arrival.splits prod.splits)
  next
    case (Cons event evs)
    note step = bounded_stream_event [OF 2(2) [unfolded Cons]]
    then have pass: "\<not> remaining \<le> 0" "\<not> remaining \<le> elapsed"
      using 2(2) a Cons by (auto simp: Let_def split: if_splits)
    from 2(1) [OF a [symmetric] refl pass] step show ?thesis by auto
  qed
qed

lemma bounded_stream_events:
  "bounded_stream limits stream waited quiet progressed = (events, spent, outcome) \<Longrightarrow>
    length events \<le> length stream \<and> map Event events = map snd (take (length events) stream) \<and>
    (outcome = Completed \<longrightarrow> length events < length stream \<and> snd (stream ! length events) = Ended)"
proof (induction events arbitrary: stream waited quiet progressed)
  case Nil
  show ?case
  proof (cases stream)
    case Nil
    with Nil.prems show ?thesis by (auto split: prod.splits)
  next
    case (Cons a as)
    with Nil.prems show ?thesis by (cases a) (auto simp: Let_def split: if_splits arrival.splits prod.splits)
  qed
next
  case (Cons event events)
  then obtain elapsed arrival rest where s: "stream = (elapsed, arrival) # rest"
    by (cases stream) (auto split: prod.splits)
  from bounded_stream_event [OF Cons.prems [unfolded s]] Cons.IH show ?case unfolding s by force
qed

text \<open>A block of events that are no progress.\<close>

definition silent :: "(rat \<times> arrival) list \<Rightarrow> bool" where
  "silent block \<longleftrightarrow> list_all (\<lambda>(_, arrival). case arrival of Event event \<Rightarrow> \<not> meaningful event | _ \<Rightarrow> True) block"

lemma silent_start:
  "bounded_stream limits (block @ stream) waited quiet progressed = (events, spent, outcome) \<Longrightarrow> length block \<le> length events \<Longrightarrow> silent block \<Longrightarrow>
    block \<noteq> [] \<Longrightarrow> quiet + sum_list (map fst block) < (if progressed then idle limits else first_progress limits)"
proof (induction block arbitrary: waited quiet events)
  case (Cons a block)
  obtain elapsed arrival where a: "a = (elapsed, arrival)" by fastforce
  from Cons.prems(2) obtain event evs where e: "events = event # evs" by (cases events) auto
  have "bounded_stream limits ((elapsed, arrival) # block @ stream) waited quiet progressed = (event # evs, spent, outcome)"
    using Cons.prems(1) by (simp add: a e)
  note step = bounded_stream_event [OF this]
  with Cons.prems(3) have "\<not> meaningful event" "silent block" by (auto simp: silent_def a)
  with step Cons.IH [of "waited + elapsed" "quiet + elapsed" evs] Cons.prems(2) show ?case
    by (cases "block = []") (auto simp: a e add.assoc)
qed simp

lemma silent_block:
  "bounded_stream limits (pre @ block @ stream) waited quiet progressed = (events, spent, outcome) \<Longrightarrow> length pre + length block \<le> length events \<Longrightarrow>
    silent block \<Longrightarrow> block \<noteq> [] \<Longrightarrow> list_all (\<lambda>(elapsed, _). 0 \<le> elapsed) pre \<Longrightarrow> 0 \<le> quiet \<Longrightarrow>
    sum_list (map fst block) < max (first_progress limits) (idle limits)"
proof (induction pre arbitrary: waited quiet progressed events)
  case Nil
  then have "quiet + sum_list (map fst block) < (if progressed then idle limits else first_progress limits)"
    using silent_start [of limits block stream] by auto
  with Nil.prems(6) show ?case by (auto split: if_splits)
next
  case (Cons a pre)
  obtain elapsed arrival where a: "a = (elapsed, arrival)" by fastforce
  from Cons.prems(2) obtain event evs where e: "events = event # evs" by (cases events) auto
  have "bounded_stream limits ((elapsed, arrival) # pre @ block @ stream) waited quiet progressed = (event # evs, spent, outcome)"
    using Cons.prems(1) by (simp add: a e)
  note step = bounded_stream_event [OF this]
  let ?quiet = "if meaningful event then 0 else quiet + elapsed"
  have "length pre + length block \<le> length evs" "list_all (\<lambda>(elapsed, _). 0 \<le> elapsed) pre" "0 \<le> ?quiet"
    using Cons.prems(2,5,6) by (auto simp: a e)
  with Cons.IH step Cons.prems(3,4) show ?case by blast
qed

section \<open>Retries\<close>

lemma backoff_pos: "0 < backoff attempt"
  by (simp add: backoff_def RETRY_INITIAL_DELAY_def RETRY_BACKOFF_FACTOR_def)

lemma jitter_range: "0 \<le> rand \<Longrightarrow> rand \<le> 1 \<Longrightarrow> 0 \<le> secs \<Longrightarrow> 3 / 4 * secs \<le> jitter secs rand \<and> jitter secs rand \<le> 5 / 4 * secs"
proof -
  assume "0 \<le> rand" "rand \<le> 1" "0 \<le> secs"
  then have low: "3 / 4 \<le> 1 + 1 / 4 * (2 * rand - 1)" by (simp add: right_diff_distrib)
  have "1 + 1 / 4 * (2 * rand - 1) \<le> 5 / 4" using \<open>rand \<le> 1\<close> by (simp add: right_diff_distrib)
  with low \<open>0 \<le> secs\<close> show ?thesis unfolding jitter_def RETRY_JITTER_FACTOR_def
    by (metis mult.commute mult_right_mono)
qed

lemma server_delay_nonneg: "server_delay lib headers = Some n \<Longrightarrow> 0 \<le> n"
  by (auto simp: server_delay_def retry_after_seconds_def bind_eq_Some_conv split: option.splits)

lemma retry_delay_nonneg: "0 \<le> rand \<Longrightarrow> rand \<le> 1 \<Longrightarrow> 0 \<le> retry_delay lib attempt error rand"
proof -
  assume r: "0 \<le> rand" "rand \<le> 1"
  have "0 \<le> jitter (backoff attempt) rand" "0 \<le> jitter (min (backoff attempt) RETRY_MAX_DELAY) rand"
    using jitter_range [OF r, of "backoff attempt"] jitter_range [OF r, of "min (backoff attempt) RETRY_MAX_DELAY"] backoff_pos [of attempt]
    by (auto simp: RETRY_MAX_DELAY_def)
  then show ?thesis using r server_delay_nonneg by (auto simp: retry_delay_def Let_def split: option.splits)
qed

text \<open>The loop stopped after \<open>n\<close> calls.\<close>

definition retry_trace :: "header_lib \<Rightarrow> (provider_error \<Rightarrow> string option) \<Rightarrow> (nat \<Rightarrow> provider_error + 'a) \<Rightarrow> (nat \<Rightarrow> rat) \<Rightarrow> nat \<Rightarrow> nat \<Rightarrow> 'a retried \<Rightarrow> rat list \<Rightarrow> bool" where
  "retry_trace lib label call rand max_retries attempt r slept \<longleftrightarrow>
     attempt + length slept \<le> max_retries \<and>
     (\<forall>i<length slept. \<exists>e. call (attempt + i) = Inl e \<and> \<not> pe_overflow e \<and> label e \<noteq> None \<and> slept ! i = retry_delay lib (attempt + i) (Some e) (rand (attempt + i))) \<and>
     (case r of
        Returned v \<Rightarrow> call (attempt + length slept) = Inr v
      | Raised e \<Rightarrow> call (attempt + length slept) = Inl e \<and> (pe_overflow e \<or> label e = None \<or> attempt + length slept = max_retries)
      | MaxRetriesExceeded \<Rightarrow> False)"

lemma retry_from_trace:
  "attempt \<le> max_retries \<Longrightarrow> retry_from lib label call rand max_retries attempt = (r, slept) \<Longrightarrow> retry_trace lib label call rand max_retries attempt r slept"
proof (induction "max_retries - attempt" arbitrary: attempt r slept)
  case 0
  then show ?case by (auto simp: retry_trace_def retry_from.simps [of _ _ _ _ _ attempt] split: sum.splits if_splits)
next
  case (Suc d)
  show ?case
  proof (cases "call attempt")
    case (Inr v)
    with Suc.prems show ?thesis by (auto simp: retry_trace_def retry_from.simps [of _ _ _ _ _ attempt])
  next
    case (Inl e)
    show ?thesis
    proof (cases "pe_overflow e \<or> label e = None \<or> attempt \<ge> max_retries")
      case True
      with Inl Suc.prems show ?thesis by (auto simp: retry_trace_def retry_from.simps [of _ _ _ _ _ attempt])
    next
      case False
      obtain slept' where rest: "retry_from lib label call rand max_retries (Suc attempt) = (r, slept')" "slept = retry_delay lib attempt (Some e) (rand attempt) # slept'"
        using False Inl Suc.prems by (auto simp: retry_from.simps [of _ _ _ _ _ attempt] split: prod.splits)
      from Suc.hyps(1) [of "Suc attempt", OF _ _ rest(1)] Suc.hyps(2) False
      have trace: "retry_trace lib label call rand max_retries (Suc attempt) r slept'" by simp
      have each: "\<exists>e. call (attempt + i) = Inl e \<and> \<not> pe_overflow e \<and> label e \<noteq> None \<and> slept ! i = retry_delay lib (attempt + i) (Some e) (rand (attempt + i))"
        if "i < length slept" for i
        using that trace Inl False unfolding retry_trace_def rest(2) by (cases i) auto
      have len: "attempt + length slept = Suc attempt + length slept'" by (simp add: rest(2))
      from trace each show ?thesis unfolding retry_trace_def len by blast
    qed
  qed
qed

section \<open>Attempts of a step\<close>

text \<open>Durations are not negative and the random numbers lie between nought and one.\<close>

definition sane_rounds :: "(nat \<Rightarrow> attempt_round) \<Rightarrow> bool" where
  "sane_rounds rounds \<longleftrightarrow> (\<forall>n. 0 \<le> ar_duration (rounds n) \<and> 0 \<le> ar_notice (rounds n) \<and> 0 \<le> ar_rand (rounds n) \<and> ar_rand (rounds n) \<le> 1)"

definition slept_within :: "rat \<Rightarrow> (nat \<times> rat) list \<Rightarrow> bool" where
  "slept_within window notices \<longleftrightarrow> notices \<noteq> [] \<longrightarrow> sum_list (map snd notices) < window"

text \<open>What holds of a report on attempts from the \<open>retries\<close>-th on.\<close>

definition report_ok :: "(nat \<Rightarrow> attempt_round) \<Rightarrow> nat \<Rightarrow> rat \<Rightarrow> attempts_report \<Rightarrow> bool" where
  "report_ok rounds max_retries window rp \<longleftrightarrow> rp_retries rp \<le> max_retries \<and> rp_attempts rp \<le> rp_retries rp + 1 \<and> map fst (rp_notices rp) = [1..<rp_retries rp + 1] \<and>
     slept_within window (rp_notices rp) \<and>
     (\<forall>n<rp_attempts rp. \<not> ar_stopped (rounds n)) \<and>
     (\<forall>n<rp_retries rp. \<exists>res. ar_outcome (rounds n) = Answered res \<and> sr_outcome res = RETRY)"

lemma attempts_report_ok:
  "sane_rounds rounds \<Longrightarrow> retries \<le> max_retries \<Longrightarrow> map fst notices = [1..<retries + 1] \<Longrightarrow> sum_list (map snd notices) \<le> clock \<Longrightarrow>
    slept_within window notices \<Longrightarrow> (\<forall>n<retries. \<not> ar_stopped (rounds n)) \<Longrightarrow>
    (\<forall>n<retries. \<exists>res. ar_outcome (rounds n) = Answered res \<and> sr_outcome res = RETRY) \<Longrightarrow>
    report_ok rounds max_retries window (attempts_from lib rounds max_retries window retries clock notices)"
proof (induction "max_retries - retries" arbitrary: retries clock notices rule: less_induct)
  case less
  let ?r = "rounds retries"
  let ?clock1 = "clock + ar_duration ?r"
  show ?case
  proof (cases "\<exists>result. \<not> ar_stopped ?r \<and> ar_outcome ?r = Answered result \<and> sr_outcome result = RETRY \<and> retries < max_retries \<and>
      ?clock1 + retry_delay lib (retries + 1) (sr_retry_error result) (ar_rand ?r) < window")
    case True
    then obtain result where round: "\<not> ar_stopped ?r" "ar_outcome ?r = Answered result" "sr_outcome result = RETRY" "retries < max_retries"
        "?clock1 + retry_delay lib (retries + 1) (sr_retry_error result) (ar_rand ?r) < window" by blast
    let ?d = "retry_delay lib (retries + 1) (sr_retry_error result) (ar_rand ?r)"
    let ?notices = "notices @ [(retries + 1, ?d)]"
    have sane: "0 \<le> ar_duration ?r" "0 \<le> ar_notice ?r" "0 \<le> ?d" using less.prems(1) retry_delay_nonneg by (auto simp: sane_rounds_def)
    have notices: "map fst ?notices = [1..<retries + 1 + 1]" using less.prems(3) by simp
    have slept: "slept_within window ?notices" using round(5) sane less.prems(4) by (simp add: slept_within_def)
    have upto: "\<forall>n<retries + 1. \<not> ar_stopped (rounds n)" "\<forall>n<retries + 1. \<exists>res. ar_outcome (rounds n) = Answered res \<and> sr_outcome res = RETRY"
      using less.prems(6,7) round(1,2,3) by (auto simp: less_Suc_eq)
    show ?thesis
    proof (cases "ar_stopped_asleep ?r")
      case True
      with round notices slept upto show ?thesis
        by (subst attempts_from.simps) (simp add: report_ok_def Let_def not_le)
    next
      case False
      have "report_ok rounds max_retries window (attempts_from lib rounds max_retries window (retries + 1) (?clock1 + ar_notice ?r + ?d) ?notices)"
        by (rule less.hyps) (use less.prems(1,4) round(4) notices slept upto sane in simp_all)
      with False round show ?thesis by (subst attempts_from.simps) (simp add: Let_def not_le)
    qed
  next
    case False
    with less.prems show ?thesis
      by (subst attempts_from.simps) (auto simp: report_ok_def Let_def not_less less_Suc_eq split: attempt_outcome.splits)
  qed
qed

end
