(* ===== verification/Limit_Properties.thy ===== *)
theory Limit_Properties
  imports Limit_Theorems
begin

text \<open>
  The properties of the limits on context and on calls, with their witnesses.
\<close>

section \<open>Context\<close>

text \<open>
  C31. The history kept verbatim by a compaction is the longest that fits. A selection either summarises everything, or cuts the history at one message of an eligible turn: what comes before is
  summarised; the rest of that turn and the turns after it, measured piece by piece, fit the budget; and no earlier cut in that turn would.
\<close>

theorem compaction_tail_fits:
  assumes "select_tail weigh messages usable configured tail_turns = sel"
  shows "case sel_tail sel of
      None \<Rightarrow> sel_head sel = messages
    | Some i \<Rightarrow> \<exists>k>0. sel_head sel = take k messages \<and>
        good_tail weigh messages (preserve_recent_budget usable configured) (set (last_turns tail_turns (turns messages))) k i"
  using select_tail_good [of weigh messages usable configured tail_turns] select_tail_all [of weigh messages usable configured tail_turns] assms
  by (auto split: option.splits)

definition demo_msg :: "string \<Rightarrow> string \<Rightarrow> history_msg" where
  "demo_msg i role = \<lparr>hm_id = i, hm_role = role, hm_parts = [''text''], hm_body = []\<rparr>"

definition demo_history :: "history_msg list" where
  "demo_history = [demo_msg ''u1'' ''user'', demo_msg ''a1'' ''assistant'', demo_msg ''u2'' ''user'', demo_msg ''a2'' ''assistant'', demo_msg ''a3'' ''assistant'']"

theorem compaction_tail_fits_witness:
  "\<exists>k>0. take 3 demo_history = take k demo_history \<and>
     good_tail (\<lambda>ms. 4 * int (length ms)) demo_history 9 (set (last_turns None (turns demo_history))) k ''a2''"
proof -
  have "select_tail (\<lambda>ms. 4 * int (length ms)) demo_history 0 (Some 9) None = \<lparr>sel_head = take 3 demo_history, sel_tail = Some ''a2''\<rparr>" by code_simp
  from compaction_tail_fits [OF this] show ?thesis by (simp add: preserve_recent_budget_def)
qed

text \<open>
  A run counts as stalled exactly when each of its last eight steps that reported a size had the same size as one of the ten such steps before it; steps that report no size count for
  nothing, wherever they stand.
\<close>

lemma stall_detected_iff:
  assumes "0 < n"
  shows "fst (observe (Some n) (observe_all steps new_detector)) \<longleftrightarrow>
    (let xs = sizes steps @ [n] in 8 \<le> length xs \<and> (\<forall>i<length xs. length xs - 8 \<le> i \<longrightarrow> repeats 10 xs i))"
proof -
  have "detects (observe_all steps new_detector) (sizes steps)" using detects_all [OF detects_new] by simp
  note before = this and after = detects_observe [OF this assms]
  have "fst (observe (Some n) (observe_all steps new_detector)) \<longleftrightarrow> 8 \<le> sd_repeats (snd (observe (Some n) (observe_all steps new_detector)))"
    using observe_verdict [OF before assms] by (simp add: STALL_STEPS_def)
  also have "\<dots> \<longleftrightarrow> (let xs = sizes steps @ [n] in 8 \<le> length xs \<and> (\<forall>i<length xs. length xs - 8 \<le> i \<longrightarrow> repeats 10 xs i))"
    using after unfolding detects_def STALL_WINDOW_def Let_def by blast
  finally show ?thesis .
qed

lemma stall_detected_iff_witness:
  "fst (observe (Some 5) (observe_all (replicate 8 (Some 5)) new_detector)) \<and> \<not> fst (observe (Some 5) (observe_all (replicate 7 (Some 5)) new_detector))"
proof -
  have sizes: "sizes (replicate m (Some 5)) = replicate m 5" for m by (induction m) (simp_all add: sizes_Cons, simp add: sizes_def List.map_filter_simps)
  have rep: "repeats 10 (replicate m 5 @ [5]) i \<longleftrightarrow> 0 < i" if "i < Suc m" for m i
  proof (cases i)
    case (Suc j)
    then have "(replicate m 5 @ [5 :: int]) ! j = 5" "(replicate m 5 @ [5 :: int]) ! i = 5" using that by (auto simp: nth_append)
    with Suc show ?thesis unfolding repeats_def by auto
  qed (simp add: repeats_def)
  have "\<exists>i<8. \<not> repeats 10 (replicate 7 5 @ [5]) i" using rep [of 0 7] by (intro exI [of _ 0]) simp
  then show ?thesis using stall_detected_iff [of 5 "replicate 8 (Some 5)"] stall_detected_iff [of 5 "replicate 7 (Some 5)"] rep [of _ 8]
    by (auto simp: sizes Let_def)
qed

text \<open>
  A tool output is shown whole, within both limits, or in part: whole lines from its start (or its end), at most the limits of lines and bytes, and from the start as many as
  the limits allow; the notice follows.
\<close>

lemma truncated_output_fits:
  assumes "truncate_output saved max_lines max_bytes head has_task_tool body = res"
  shows "if tc_truncated res then
      (\<exists>shown notice. shows_part max_lines max_bytes head (lines_of body) shown \<and>
         tc_content res = unlines shown @ [newline, newline] @ ''...'' @ notice @ truncation_hint has_task_tool saved)
    else tc_content res = body \<and> (body = [] \<or> length (lines_of body) \<le> max_lines \<and> utf8_length body \<le> max_bytes)"
proof (cases "body = [] \<or> length (lines_of body) \<le> max_lines \<and> utf8_length body \<le> max_bytes")
  case True
  with assms show ?thesis by (auto simp: truncate_output_def Let_def)
next
  case False
  let ?kept = "if head then keep_head max_lines max_bytes (lines_of body) 0 [] 0 else keep_tail max_lines max_bytes (rev (lines_of body)) [] 0"
  obtain out bytes_count hit where kept: "?kept = (out, bytes_count, hit)" by (metis prod_cases3)
  with False have "shows_part max_lines max_bytes head (lines_of body) out"
    using keep_head_shows [of max_lines max_bytes "lines_of body" out] keep_tail_shows [of max_lines max_bytes "lines_of body" out]
    by (cases head) auto
  moreover have "res = \<lparr>tc_content = unlines out @ [newline, newline] @ ''...'' @
      nat_text (if hit then utf8_length body - bytes_count else length (lines_of body) - length out) @ '' '' @ (if hit then ''bytes'' else ''lines'') @
        '' truncated...'' @ [newline, newline] @ truncation_hint has_task_tool saved, tc_truncated = True, tc_path = saved\<rparr>"
    using False unfolding assms [symmetric] truncate_output_def Let_def kept prod.case by (simp only: de_Morgan_disj if_False not_True_eq_False)
  then have "tc_truncated res" "\<exists>notice. tc_content res = unlines out @ [newline, newline] @ ''...'' @ notice @ truncation_hint has_task_tool saved"
    by (simp, intro exI [of _ "nat_text (if hit then utf8_length body - bytes_count else length (lines_of body) - length out) @ '' '' @
        (if hit then ''bytes'' else ''lines'') @ '' truncated...'' @ [newline, newline]"]) simp
  ultimately show ?thesis unfolding if_P [OF \<open>tc_truncated res\<close>] by blast
qed

lemma truncated_output_fits_witness:
  "\<exists>shown notice. shows_part 2 100 True (lines_of (unlines [''a'', ''b'', ''c''])) shown \<and>
     tc_content (truncate_output None 2 100 True False (unlines [''a'', ''b'', ''c''])) = unlines shown @ [newline, newline] @ ''...'' @ notice @ truncation_hint False None"
proof -
  have "tc_truncated (truncate_output None 2 100 True False (unlines [''a'', ''b'', ''c'']))" by code_simp
  with truncated_output_fits [OF refl, of None 2 100 True False "unlines [''a'', ''b'', ''c'']"] show ?thesis by simp
qed

section \<open>Calls\<close>



text \<open>
  The retry loop makes at most as many calls as allowed, and returns what the last of them did. Every call before it failed with a retryable error that is no
  overflow of the context, and was followed by the delay computed for it; the last error is raised when it is not retryable, is an overflow, or no call is left.
\<close>

lemma retries_are_bounded:
  assumes "with_retry lib label call rand max_retries = (r, slept)" and "1 \<le> max_retries"
  shows "retry_trace lib label call rand max_retries 1 r slept"
  using retry_from_trace assms unfolding with_retry_def by blast

definition demo_error :: provider_error where
  "demo_error = \<lparr>pe_overflow = False, pe_retryable_class = True, pe_pre_dispatch = False, pe_headers = [], pe_response_headers = []\<rparr>"

definition demo_lib :: header_lib where
  "demo_lib = \<lparr>float_of = (\<lambda>_. None), date_delay = (\<lambda>_. None)\<rparr>"

lemma retries_are_bounded_witness:
  "retry_trace demo_lib (\<lambda>_. Some ''Timeout'') (\<lambda>n. if n < 2 then Inl demo_error else Inr n) (\<lambda>_. 1 / 2) 10 1 (Returned 2) [2]"
proof -
  let ?run = "retry_from demo_lib (\<lambda>_. Some ''Timeout'') (\<lambda>n. if n < 2 then Inl demo_error else Inr n) (\<lambda>_. 1 / 2) 10"
  have "retry_delay demo_lib 1 (Some demo_error) (1 / 2) = 2"
    by (simp add: retry_delay_def error_headers_def server_delay_def demo_lib_def demo_error_def error_is_def tget_def jitter_def backoff_def
        RETRY_INITIAL_DELAY_def RETRY_MAX_DELAY_def)
  moreover have "?run 2 = (Returned 2, [])" by (subst retry_from.simps) simp
  moreover have "?run 1 = (let (r, slept) = ?run 2 in (r, retry_delay demo_lib 1 (Some demo_error) (1 / 2) # slept))"
    by (subst retry_from.simps) (simp add: demo_error_def numeral_2_eq_2)
  ultimately have "with_retry demo_lib (\<lambda>_. Some ''Timeout'') (\<lambda>n. if n < 2 then Inl demo_error else Inr n) (\<lambda>_. 1 / 2) 10 = (Returned 2, [2])"
    by (simp add: with_retry_def)
  from retries_are_bounded [OF this] show ?thesis by simp
qed

text \<open>
  C33. The attempts of one persisted step are bounded: there are at most as many retries as allowed, each announced once and in order before its delay; the delays together stay
  under the window of 180 seconds; only an answer that asks for a retry is retried; and no attempt starts once the stop signal was seen.
\<close>

theorem step_attempts_are_bounded:
  assumes "sane_rounds rounds"
  shows "report_ok rounds max_retries 180 (run_provider_attempts lib rounds max_retries)"
  unfolding run_provider_attempts_def RETRY_WINDOW_def by (rule attempts_report_ok) (use assms in \<open>simp_all add: slept_within_def\<close>)

theorem step_attempts_are_bounded_witness:
  "report_ok (\<lambda>_. \<lparr>ar_stopped = False, ar_outcome = Answered \<lparr>sr_outcome = RETRY, sr_finish_reason = ''unknown'', sr_error = None, sr_retry_error = None\<rparr>,
      ar_duration = 1, ar_rand = 1 / 2, ar_notice = 0, ar_stopped_asleep = False\<rparr>) 10 180
     (run_provider_attempts demo_lib (\<lambda>_. \<lparr>ar_stopped = False, ar_outcome = Answered \<lparr>sr_outcome = RETRY, sr_finish_reason = ''unknown'', sr_error = None,
      sr_retry_error = None\<rparr>, ar_duration = 1, ar_rand = 1 / 2, ar_notice = 0, ar_stopped_asleep = False\<rparr>) 10)"
  by (rule step_attempts_are_bounded) (simp add: sane_rounds_def)

end
