(* ===== verification/Billing.thy ===== *)
theory Billing
  imports Text_Lines Complex_Main
begin

text \<open>
  Accounts in credits: \<^verbatim>\<open>src/backend/billing/service.py\<close> (the ledger and the meter of model calls), \<^verbatim>\<open>subscriptions.py\<close>,
  \<^verbatim>\<open>payments.py\<close>, \<^verbatim>\<open>settle\<close> of \<^verbatim>\<open>media.py\<close>, \<^verbatim>\<open>settle_rebate\<close> of \<^verbatim>\<open>partner.py\<close>, \<^verbatim>\<open>manage_billing\<close> of \<^verbatim>\<open>admin.py\<close>, over the tables of
  \<^verbatim>\<open>src/backend/db/models/billing.py\<close>. Every transaction locks the balance row of its workspace first; it is a function from the tables to
  its result with the new tables, or the exception that rolls it back. Amounts are rational numbers. Prices, which \<^verbatim>\<open>pricing.py\<close> computes, are
  arguments, as are fresh identifiers and clock readings; a clash with a unique key is \<open>IntegrityConflict\<close>.
\<close>

section \<open>The calendar\<close>

definition DAY :: time where "DAY = 86400000000"

text \<open>Beijing is eight hours ahead the whole year (since 1992). Dates of the proleptic Gregorian calendar and days since 1970.\<close>

definition CHINA_OFFSET :: time where "CHINA_OFFSET = seconds (8 * 3600)"

definition civil_of_day :: "int \<Rightarrow> int \<times> int \<times> int" where
  "civil_of_day d =
     (let z = d + 719468; era = z div 146097; doe = z - era * 146097;
          yoe = (doe - doe div 1460 + doe div 36524 - doe div 146096) div 365;
          doy = doe - (365 * yoe + yoe div 4 - yoe div 100); mp = (5 * doy + 2) div 153;
          month = (if mp < 10 then mp + 3 else mp - 9)
      in (yoe + era * 400 + (if month \<le> 2 then 1 else 0), month, doy - (153 * mp + 2) div 5 + 1))"

definition day_of_civil :: "int \<Rightarrow> int \<Rightarrow> int \<Rightarrow> int" where
  "day_of_civil year month day =
     (let y = (if month \<le> 2 then year - 1 else year); era = y div 400; yoe = y - era * 400;
          doy = (153 * (if month > 2 then month - 3 else month + 9) + 2) div 5 + day - 1
      in era * 146097 + yoe * 365 + yoe div 4 - yoe div 100 + doy - 719468)"

definition month_length :: "int \<Rightarrow> int \<Rightarrow> int" where
  "month_length year month =
     (if month = 12 then day_of_civil (year + 1) 1 1 else day_of_civil year (month + 1) 1) - day_of_civil year month 1"

definition add_months :: "time \<Rightarrow> int \<Rightarrow> time" where
  "add_months t months =
     (let local_t = t + CHINA_OFFSET; (y, m, d) = civil_of_day (local_t div DAY);
          n = y * 12 + m - 1 + months; year = n div 12; month = n mod 12 + 1
      in day_of_civil year month (min d (month_length year month)) * DAY + local_t mod DAY - CHINA_OFFSET)"

datatype credit_period = Weekly | Monthly

definition allowance_period :: "time \<Rightarrow> credit_period \<Rightarrow> time \<times> time" where
  "allowance_period now period =
     (let day = (now + CHINA_OFFSET) div DAY
      in case period of
           Weekly \<Rightarrow> let start = day - (day + 3) mod 7 in (start * DAY - CHINA_OFFSET, (start + 7) * DAY - CHINA_OFFSET)
         | Monthly \<Rightarrow> let (y, m, d) = civil_of_day day; start = day_of_civil y m 1 * DAY - CHINA_OFFSET in (start, add_months start 1))"

definition padded :: "nat \<Rightarrow> int \<Rightarrow> string" where
  "padded width n = (let s = nat_text (nat n) in replicate (width - length s) (CHR ''0'') @ s)"

definition date_text :: "time \<Rightarrow> string" where
  "date_text t = (let (y, m, d) = civil_of_day ((t + CHINA_OFFSET) div DAY) in padded 4 y @ ''-'' @ padded 2 m @ ''-'' @ padded 2 d)"

section \<open>Tables\<close>

datatype cycle = MonthlyCycle | YearlyCycle

record plan =
  pl_id :: string
  pl_monthly_fen :: int
  pl_yearly_fen :: int
  pl_credits :: rat
  pl_period :: credit_period

record plan_catalog =
  pc_version :: string
  pc_plans :: "plan list"
  pc_min_topup :: int
  pc_max_topup :: int

definition plan_of :: "plan_catalog \<Rightarrow> string \<Rightarrow> plan option" where
  "plan_of cat pid = find (\<lambda>p. pl_id p = pid) (pc_plans cat)"

record balance_row =
  cb_balance :: rat
  cb_updated :: time

record ledger_row =
  lg_workspace :: ident
  lg_key :: string
  lg_kind :: string
  lg_amount :: rat
  lg_after :: rat
  lg_reference :: ident
  lg_created :: time

datatype usage_status = UsPending | UsCharged | UsShadow | UsUnpriced | UsUnreported

record usage_row =
  us_key :: string
  us_workspace :: ident
  us_session :: ident
  us_kind :: string
  us_tokens :: int
  us_credits :: "rat option"
  us_cost :: "rat option"
  us_status :: usage_status
  us_created :: time

datatype order_kind = Topup | Subscription
datatype order_status = OrPending | OrPaid | OrCancelled

record product =
  pd_plan :: plan
  pd_cycle :: cycle
  pd_version :: string
  pd_term :: "(time \<times> time) option"

record order_row =
  or_workspace :: ident
  or_user :: ident
  or_request_key :: string
  or_provider :: string
  or_amount_fen :: int
  or_currency :: string
  or_kind :: order_kind
  or_product :: "product option"
  or_credits :: rat
  or_status :: order_status
  or_checkout_url :: "string option"
  or_provider_order :: "string option"
  or_payment :: "string option"
  or_created :: time
  or_paid_at :: "time option"
  or_cancelled_at :: "time option"
  or_reason :: "string option"

record sub_row =
  sb_order :: "ident option"
  sb_workspace :: ident
  sb_plan :: plan
  sb_cycle :: cycle
  sb_starts :: time
  sb_ends :: time
  sb_cancelled :: "time option"

record books =
  balances :: "(ident, balance_row) table"
  ledger :: "(ident, ledger_row) table"
  usage :: "(ident, usage_row) table"
  orders :: "(ident, order_row) table"
  order_requests :: "(ident \<times> string, ident) table"
  subs :: "(ident, sub_row) table"
  rebates :: "(ident \<times> string, rat) table"
  receipts :: "(ident, string \<times> rat) table"

datatype billing_error = BillingError string | IntegrityConflict | Rejected nat string | Unexpected

section \<open>The ledger\<close>

definition balance_of :: "ident \<Rightarrow> books \<Rightarrow> rat" where
  "balance_of ws b = (case tget (balances b) ws of None \<Rightarrow> 0 | Some r \<Rightarrow> cb_balance r)"

definition lock_balance :: "time \<Rightarrow> ident \<Rightarrow> books \<Rightarrow> books" where
  "lock_balance t ws b = (if tget (balances b) ws = None then b\<lparr>balances := tput ws \<lparr>cb_balance = 0, cb_updated = t\<rparr> (balances b)\<rparr> else b)"

definition key_used :: "string \<Rightarrow> books \<Rightarrow> bool" where
  "key_used key b = list_ex (\<lambda>(_, l). lg_key l = key) (ledger b)"

definition post_ledger :: "time \<Rightarrow> ident \<Rightarrow> ident \<Rightarrow> rat \<Rightarrow> string \<Rightarrow> ident \<Rightarrow> string \<Rightarrow> books \<Rightarrow> billing_error + books" where
  "post_ledger t lid ws amount kind reference key b =
     (if tget (ledger b) lid \<noteq> None \<or> key_used key b then Inl IntegrityConflict
      else let after = balance_of ws b + amount
        in Inr (b\<lparr>balances := tput ws \<lparr>cb_balance = after, cb_updated = t\<rparr> (balances b),
                  ledger := tput lid \<lparr>lg_workspace = ws, lg_key = key, lg_kind = kind, lg_amount = amount, lg_after = after,
                    lg_reference = reference, lg_created = t\<rparr> (ledger b)\<rparr>))"

section \<open>Subscriptions\<close>

definition term_active :: "time \<Rightarrow> sub_row \<Rightarrow> bool" where
  "term_active now s \<longleftrightarrow> sb_starts s \<le> now \<and> now < sb_ends s \<and> (case sb_cancelled s of None \<Rightarrow> True | Some c \<Rightarrow> now < c)"

definition active_subscription :: "ident \<Rightarrow> time \<Rightarrow> books \<Rightarrow> (ident \<times> sub_row) option" where
  "active_subscription ws now b =
     (case sort_key (\<lambda>(_, s). - sb_starts s) (filter (\<lambda>(_, s). sb_workspace s = ws \<and> term_active now s) (subs b)) of
        [] \<Rightarrow> None | first # _ \<Rightarrow> Some first)"

definition require_topup_allowed :: "ident \<Rightarrow> time \<Rightarrow> books \<Rightarrow> billing_error + unit" where
  "require_topup_allowed ws now b = guard_that (active_subscription ws now b \<noteq> None) (BillingError ''PAID_PLAN_REQUIRED'')"

definition allowance_key :: "ident \<Rightarrow> plan \<Rightarrow> time \<Rightarrow> string" where
  "allowance_key ws p now = ''allowance:'' @ ws @ '':'' @ pl_id p @ '':'' @ date_text (fst (allowance_period now (pl_period p)))"

definition ensure_period_allowance :: "plan_catalog \<Rightarrow> time \<Rightarrow> ident \<Rightarrow> ident \<Rightarrow> books \<Rightarrow> billing_error + books" where
  "ensure_period_allowance cat now lid ws b =
     (let current = active_subscription ws now b
      in case (case current of Some (_, s) \<Rightarrow> Some (sb_plan s) | None \<Rightarrow> plan_of cat ''free'') of
           None \<Rightarrow> Inl Unexpected
         | Some p \<Rightarrow> if key_used (allowance_key ws p now) b then Inr b
             else post_ledger now lid ws (pl_credits p) ''allowance'' (case current of Some (i, _) \<Rightarrow> i | None \<Rightarrow> ''free'') (allowance_key ws p now) b)"

definition open_ends :: "ident \<Rightarrow> books \<Rightarrow> time list" where
  "open_ends ws b = map (\<lambda>(_, s). sb_ends s) (filter (\<lambda>(_, s). sb_workspace s = ws \<and> sb_cancelled s = None) (subs b))"

definition cycle_months :: "cycle \<Rightarrow> int" where
  "cycle_months c = (case c of YearlyCycle \<Rightarrow> 12 | MonthlyCycle \<Rightarrow> 1)"

text \<open>A new term after all that were bought before; the table refuses a term that does not end after its start.\<close>

definition insert_term :: "ident \<Rightarrow> sub_row \<Rightarrow> books \<Rightarrow> billing_error + books" where
  "insert_term sid s b =
     (if tget (subs b) sid \<noteq> None \<or> sb_ends s \<le> sb_starts s \<or>
         (sb_order s \<noteq> None \<and> list_ex (\<lambda>(_, s'). sb_order s' = sb_order s) (subs b)) then Inl IntegrityConflict
      else Inr (b\<lparr>subs := tput sid s (subs b)\<rparr>))"

definition apply_subscription :: "plan_catalog \<Rightarrow> time \<Rightarrow> ident \<Rightarrow> ident \<Rightarrow> order_row \<Rightarrow> books \<Rightarrow> billing_error + books" where
  "apply_subscription cat now lid oid order b = (case or_product order of
       None \<Rightarrow> Inl Unexpected
     | Some product \<Rightarrow>
         let ws = or_workspace order;
             start = fold max (open_ends ws b) now;
             finish = add_months start (cycle_months (pd_cycle product));
             term = \<lparr>sb_order = Some oid, sb_workspace = ws, sb_plan = pd_plan product, sb_cycle = pd_cycle product,
               sb_starts = start, sb_ends = finish, sb_cancelled = None\<rparr>
         in rbind (insert_term oid term b) (\<lambda>b1.
              let b2 = b1\<lparr>orders := tput oid (order\<lparr>or_product := Some (product\<lparr>pd_term := Some (start, finish)\<rparr>)\<rparr>) (orders b1)\<rparr>
              in if start \<le> now then ensure_period_allowance cat now lid ws b2 else Inr b2))"

section \<open>The meter of model calls\<close>

datatype billing_mode = Off | Shadow | Enforce

record meter =
  me_event :: ident
  me_workspace :: ident
  me_mode :: billing_mode

text \<open>Enough credits, after the allowance of the period.\<close>

definition require_credits :: "plan_catalog \<Rightarrow> time \<Rightarrow> ident \<Rightarrow> ident \<Rightarrow> books \<Rightarrow> billing_error + books" where
  "require_credits cat now lid ws b = rbind (ensure_period_allowance cat now lid ws (lock_balance now ws b)) (\<lambda>b1.
     if balance_of ws b1 \<le> 0 then Inl (BillingError ''INSUFFICIENT_CREDITS'') else Inr b1)"

definition precheck_balance :: "billing_mode \<Rightarrow> plan_catalog \<Rightarrow> time \<Rightarrow> ident \<Rightarrow> ident \<Rightarrow> books \<Rightarrow> billing_error + books" where
  "precheck_balance mode cat now lid ws b = (if mode \<noteq> Enforce then Inr b else require_credits cat now lid ws b)"

text \<open>\<open>session\<close> is the workspace of the session, \<open>preview\<close> the price quoted for no tokens.\<close>

definition insert_usage :: "ident \<Rightarrow> usage_row \<Rightarrow> books \<Rightarrow> billing_error + books" where
  "insert_usage eid u b =
     (if tget (usage b) eid \<noteq> None \<or> list_ex (\<lambda>(_, u'). us_key u' = us_key u) (usage b) then Inl IntegrityConflict
      else Inr (b\<lparr>usage := tput eid u (usage b)\<rparr>))"

definition meter_start :: "billing_mode \<Rightarrow> plan_catalog \<Rightarrow> time \<Rightarrow> ident \<Rightarrow> ident \<Rightarrow> ident \<Rightarrow> ident option \<Rightarrow> rat option \<Rightarrow> string \<Rightarrow> books \<Rightarrow>
    billing_error + meter option \<times> books" where
  "meter_start mode cat now lid eid session_id workspace preview kind b =
     (if mode = Off then Inr (None, b)
      else case workspace of
        None \<Rightarrow> if mode = Enforce then Inl (BillingError ''BILLING_SESSION_REQUIRED'') else Inr (None, b)
      | Some ws \<Rightarrow>
          rbind (ensure_period_allowance cat now lid ws (lock_balance now ws b)) (\<lambda>b1.
          if mode = Enforce \<and> preview = None then Inl (BillingError ''MODEL_UNPRICED'')
          else if mode = Enforce \<and> balance_of ws b1 \<le> 0 then Inl (BillingError ''INSUFFICIENT_CREDITS'')
          else rbind (insert_usage eid \<lparr>us_key = ''llm:'' @ eid, us_workspace = ws, us_session = session_id, us_kind = kind, us_tokens = 0,
                 us_credits = None, us_cost = None, us_status = UsPending, us_created = now\<rparr> b1) (\<lambda>b2.
               Inr (Some \<lparr>me_event = eid, me_workspace = ws, me_mode = mode\<rparr>, b2))))"

text \<open>The reported usage: its tokens and the price and cost quoted for them.\<close>

record priced_usage =
  pu_tokens :: int
  pu_credits :: "rat option"
  pu_cost :: "rat option"

definition charge_status :: "billing_mode \<Rightarrow> rat option \<Rightarrow> usage_status" where
  "charge_status mode credits = (if credits = None then UsUnpriced else if mode = Enforce then UsCharged else UsShadow)"

definition meter_finish :: "time \<Rightarrow> ident \<Rightarrow> meter \<Rightarrow> priced_usage option \<Rightarrow> books \<Rightarrow> billing_error + rat option \<times> books" where
  "meter_finish t lid me reported b =
     (let b1 = lock_balance t (me_workspace me) b
      in case tget (usage b1) (me_event me) of
           None \<Rightarrow> Inl Unexpected
         | Some u \<Rightarrow>
             if us_status u \<noteq> UsPending then Inr (us_credits u, b1)
             else case reported of
               None \<Rightarrow> Inr (None, b1\<lparr>usage := tput (me_event me) (u\<lparr>us_status := UsUnreported\<rparr>) (usage b1)\<rparr>)
             | Some p \<Rightarrow>
                 let status = charge_status (me_mode me) (pu_credits p);
                     b2 = b1\<lparr>usage := tput (me_event me) (u\<lparr>us_tokens := pu_tokens p, us_credits := pu_credits p, us_cost := pu_cost p,
                       us_status := status\<rparr>) (usage b1)\<rparr>
                 in case (status, pu_credits p) of
                      (UsCharged, Some c) \<Rightarrow> rbind (post_ledger t lid (me_workspace me) (- c) ''usage'' (me_event me) (''usage:'' @ me_event me) b2)
                        (\<lambda>b3. Inr (pu_credits p, b3))
                    | _ \<Rightarrow> Inr (pu_credits p, b2))"

text \<open>A finished media job, once per key.\<close>

definition settle_media :: "billing_mode \<Rightarrow> time \<Rightarrow> ident \<Rightarrow> ident \<Rightarrow> string \<Rightarrow> ident \<Rightarrow> ident \<Rightarrow> string \<Rightarrow> rat option \<Rightarrow> rat option \<Rightarrow> bool \<Rightarrow> books \<Rightarrow>
    billing_error + rat option \<times> books" where
  "settle_media mode t lid eid key ws session_id kind credits cost quantity_known b =
     (if mode = Off \<or> ws = [] then Inr (None, b)
      else let b1 = lock_balance t ws b
        in case find (\<lambda>(_, u). us_key u = key) (usage b1) of
             Some (_, u) \<Rightarrow> Inr (us_credits u, b1)
           | None \<Rightarrow>
               let status = (if \<not> quantity_known then UsUnreported else charge_status mode credits)
               in rbind (insert_usage eid \<lparr>us_key = key, us_workspace = ws, us_session = session_id, us_kind = kind, us_tokens = 0,
                    us_credits = credits, us_cost = cost, us_status = status, us_created = t\<rparr> b1) (\<lambda>b2.
                  case (status, credits) of
                    (UsCharged, Some c) \<Rightarrow> rbind (post_ledger t lid ws (- c) ''usage'' eid (''usage:'' @ eid) b2) (\<lambda>b3. Inr (credits, b3))
                  | _ \<Rightarrow> Inr (if status = UsShadow then credits else None, b2)))"

section \<open>Payments\<close>

record receipt =
  rc_order :: ident
  rc_payment :: string
  rc_amount_fen :: int
  rc_currency :: string

definition matches_request :: "order_row \<Rightarrow> order_kind \<Rightarrow> string \<Rightarrow> ident \<Rightarrow> int option \<Rightarrow> string \<Rightarrow> cycle \<Rightarrow> bool" where
  "matches_request order kind provider user amount_fen plan_id cyc \<longleftrightarrow>
     or_kind order = kind \<and> or_provider order = provider \<and> or_user order = user \<and>
     (if kind = Topup then Some (or_amount_fen order) = amount_fen
      else map_option (\<lambda>p. (pl_id (pd_plan p), pd_cycle p)) (or_product order) = Some (plan_id, cyc))"

text \<open>What is bought: the amount, the credits and the product.\<close>

definition priced_product :: "plan_catalog \<Rightarrow> ident \<Rightarrow> time \<Rightarrow> order_kind \<Rightarrow> int option \<Rightarrow> string \<Rightarrow> cycle \<Rightarrow> books \<Rightarrow> billing_error + int \<times> rat \<times> product option" where
  "priced_product cat ws t kind amount_fen plan_id cyc b = (case kind of
       Subscription \<Rightarrow>
         if plan_id \<notin> {''pro'', ''max''} then Inl (BillingError ''INVALID_PLAN'')
         else (case plan_of cat plan_id of
             None \<Rightarrow> Inl Unexpected
           | Some p \<Rightarrow> Inr (case cyc of MonthlyCycle \<Rightarrow> pl_monthly_fen p | YearlyCycle \<Rightarrow> pl_yearly_fen p, pl_credits p,
               Some \<lparr>pd_plan = p, pd_cycle = cyc, pd_version = pc_version cat, pd_term = None\<rparr>))
     | Topup \<Rightarrow> (case amount_fen of
           None \<Rightarrow> Inl (BillingError ''INVALID_TOPUP_AMOUNT'')
         | Some n \<Rightarrow> if n < pc_min_topup cat \<or> pc_max_topup cat < n then Inl (BillingError ''INVALID_TOPUP_AMOUNT'')
             else rbind (require_topup_allowed ws t b) (\<lambda>_. Inr (n, of_int n / 100, None))))"

text \<open>A pending order of the same purchase, the newest first.\<close>

definition reusable_order :: "ident \<Rightarrow> ident \<Rightarrow> string \<Rightarrow> order_kind \<Rightarrow> int \<Rightarrow> rat \<Rightarrow> product option \<Rightarrow> books \<Rightarrow> ident option" where
  "reusable_order ws user provider kind amount credits product b =
     map_option fst (find (\<lambda>(_, r). or_product r = product)
       (rev (sort_key (or_created \<circ> snd) (sort_key fst (filter (\<lambda>(_, r). or_workspace r = ws \<and> or_user r = user \<and> or_provider r = provider \<and> or_kind r = kind \<and>
          or_status r = OrPending \<and> or_amount_fen r = amount \<and> or_credits r = credits) (orders b))))))"

definition insert_order :: "ident \<Rightarrow> order_row \<Rightarrow> books \<Rightarrow> billing_error + books" where
  "insert_order oid r b =
     (if tget (orders b) oid \<noteq> None \<or> list_ex (\<lambda>(_, r'). or_workspace r' = or_workspace r \<and> or_request_key r' = or_request_key r) (orders b) \<or>
         or_amount_fen r \<le> 0 \<or> or_credits r \<le> 0 then Inl IntegrityConflict
      else Inr (b\<lparr>orders := tput oid r (orders b)\<rparr>))"

definition known_order :: "ident \<Rightarrow> string \<Rightarrow> books \<Rightarrow> ident option" where
  "known_order ws request_key b = (case tget (order_requests b) (ws, request_key) of
       Some oid \<Rightarrow> Some oid
     | None \<Rightarrow> map_option fst (find (\<lambda>(_, r). or_workspace r = ws \<and> or_request_key r = request_key) (orders b)))"

definition create_order :: "plan_catalog \<Rightarrow> time \<Rightarrow> ident \<Rightarrow> ident \<Rightarrow> ident \<Rightarrow> string \<Rightarrow> string \<Rightarrow> int option \<Rightarrow> order_kind \<Rightarrow> string \<Rightarrow> cycle \<Rightarrow> books \<Rightarrow>
    billing_error + ident \<times> books" where
  "create_order cat t fresh ws user provider request_key amount_fen kind plan_id cyc b =
     (let b1 = lock_balance t ws b;
          remember = (\<lambda>oid b. if tget (order_requests b) (ws, request_key) = None
            then b\<lparr>order_requests := tput (ws, request_key) oid (order_requests b)\<rparr> else b)
      in case known_order ws request_key b1 of
           Some oid \<Rightarrow> (case tget (orders b1) oid of
               None \<Rightarrow> Inl Unexpected
             | Some r \<Rightarrow> if matches_request r kind provider user amount_fen plan_id cyc then Inr (oid, remember oid b1)
                 else Inl (BillingError ''PAYMENT_IDEMPOTENCY_CONFLICT''))
         | None \<Rightarrow> rbind (priced_product cat ws t kind amount_fen plan_id cyc b1) (\<lambda>(amount, credits, product).
             case reusable_order ws user provider kind amount credits product b1 of
               Some oid \<Rightarrow> Inr (oid, remember oid b1)
             | None \<Rightarrow> rbind (insert_order fresh \<lparr>or_workspace = ws, or_user = user, or_request_key = request_key, or_provider = provider,
                   or_amount_fen = amount, or_currency = ''CNY'', or_kind = kind, or_product = product, or_credits = credits, or_status = OrPending,
                   or_checkout_url = None, or_provider_order = None, or_payment = None, or_created = t, or_paid_at = None, or_cancelled_at = None,
                   or_reason = None\<rparr> b1) (\<lambda>b2. Inr (fresh, remember fresh b2))))"

text \<open>The last transactions of \<^verbatim>\<open>continue_order\<close> and \<^verbatim>\<open>create_app_checkout\<close>, after the provider answered.\<close>

definition save_checkout :: "bool \<Rightarrow> time \<Rightarrow> ident \<Rightarrow> ident \<Rightarrow> string \<Rightarrow> string \<Rightarrow> books \<Rightarrow> billing_error + order_row \<times> books" where
  "save_checkout refresh t ws oid url provider_order b =
     (let b1 = lock_balance t ws b
      in case tget (orders b1) oid of
           None \<Rightarrow> Inl Unexpected
         | Some r \<Rightarrow>
             if or_status r = OrPending \<and> (or_checkout_url r \<in> {None, Some []} \<or> refresh)
             then let r1 = r\<lparr>or_checkout_url := Some url, or_provider_order := Some provider_order\<rparr> in Inr (r1, b1\<lparr>orders := tput oid r1 (orders b1)\<rparr>)
             else Inr (r, b1))"

definition save_app_checkout :: "time \<Rightarrow> ident \<Rightarrow> ident \<Rightarrow> string \<Rightarrow> books \<Rightarrow> billing_error + order_row \<times> books" where
  "save_app_checkout t ws oid provider_order b =
     (if provider_order \<noteq> oid then Inl (BillingError ''PAYMENT_INVALID_CHECKOUT'')
      else let b1 = lock_balance t ws b
        in case tget (orders b1) oid of
             None \<Rightarrow> Inl Unexpected
           | Some r \<Rightarrow> (case or_status r of
                 OrCancelled \<Rightarrow> Inl (BillingError ''PAYMENT_ORDER_CANCELLED'')
               | OrPaid \<Rightarrow> Inr (r, b1)
               | OrPending \<Rightarrow> let r1 = r\<lparr>or_provider_order := Some provider_order\<rparr> in Inr (r1, b1\<lparr>orders := tput oid r1 (orders b1)\<rparr>)))"

definition provider_order_row :: "string \<Rightarrow> ident \<Rightarrow> books \<Rightarrow> billing_error + order_row" where
  "provider_order_row provider oid b = (case tget (orders b) oid of
       Some r \<Rightarrow> if or_provider r = provider then Inr r else Inl (BillingError ''PAYMENT_ORDER_NOT_FOUND'')
     | None \<Rightarrow> Inl (BillingError ''PAYMENT_ORDER_NOT_FOUND''))"

definition cancel_uncreated_order :: "string \<Rightarrow> time \<Rightarrow> ident \<Rightarrow> books \<Rightarrow> billing_error + books" where
  "cancel_uncreated_order provider t oid b = rbind (provider_order_row provider oid b) (\<lambda>r.
     let b1 = lock_balance t (or_workspace r) b
     in if or_status r \<noteq> OrPending then Inr b1
        else Inr (b1\<lparr>orders := tput oid (r\<lparr>or_status := OrCancelled, or_cancelled_at := Some t, or_reason := Some ''trade_not_created'',
          or_checkout_url := None\<rparr>) (orders b1)\<rparr>))"

datatype receipt_answer = Accepted bool | Ignored

definition cancel_by_receipt :: "string \<Rightarrow> time \<Rightarrow> receipt \<Rightarrow> books \<Rightarrow> billing_error + receipt_answer \<times> books" where
  "cancel_by_receipt provider t rc b = rbind (provider_order_row provider (rc_order rc) b) (\<lambda>r.
     let b1 = lock_balance t (or_workspace r) b
     in if (rc_amount_fen rc, rc_currency rc) \<noteq> (or_amount_fen r, or_currency r) then Inl (BillingError ''PAYMENT_AMOUNT_MISMATCH'')
        else if or_status r = OrPaid then Inr (Ignored, b1)
        else Inr (Accepted (or_status r = OrCancelled), b1\<lparr>orders := tput (rc_order rc) (r\<lparr>or_status := OrCancelled,
          or_cancelled_at := (if or_cancelled_at r = None then Some t else or_cancelled_at r), or_reason := Some ''gateway_closed'',
          or_checkout_url := None\<rparr>) (orders b1)\<rparr>))"

text \<open>
  A verified payment. The activation of a desktop runs in the same transaction on tables of its own; \<open>activation_fails\<close> says that it raises. A payment id that another
  order of the provider has is refused by the table.
\<close>

definition receipt_conflict :: "billing_error + 'a \<Rightarrow> billing_error + 'a" where
  "receipt_conflict res = (case res of Inl IntegrityConflict \<Rightarrow> Inl (BillingError ''PAYMENT_RECEIPT_CONFLICT'') | _ \<Rightarrow> res)"

definition settle_payment :: "plan_catalog \<Rightarrow> bool \<Rightarrow> string \<Rightarrow> time \<Rightarrow> ident \<Rightarrow> receipt \<Rightarrow> books \<Rightarrow> billing_error + receipt_answer \<times> books" where
  "settle_payment cat activation_fails provider t lid rc b = rbind (provider_order_row provider (rc_order rc) b) (\<lambda>r.
     let oid = rc_order rc; b1 = lock_balance t (or_workspace r) b
     in if (rc_amount_fen rc, rc_currency rc) \<noteq> (or_amount_fen r, or_currency r) then Inl (BillingError ''PAYMENT_AMOUNT_MISMATCH'')
        else if or_status r = OrPaid then
          (if or_payment r \<noteq> Some (rc_payment rc) then Inl (BillingError ''PAYMENT_RECEIPT_CONFLICT'') else Inr (Accepted True, b1))
        else
          let r1 = r\<lparr>or_status := OrPaid, or_paid_at := Some t, or_payment := Some (rc_payment rc)\<rparr>;
              taken = list_ex (\<lambda>(i, r'). i \<noteq> oid \<and> or_provider r' = provider \<and> or_payment r' = Some (rc_payment rc)) (orders b1);
              b2 = b1\<lparr>orders := tput oid r1 (orders b1)\<rparr>
          in if taken then Inl (BillingError ''PAYMENT_RECEIPT_CONFLICT'')
             else rbind (receipt_conflict (case or_kind r of
                 Subscription \<Rightarrow> apply_subscription cat t lid oid r1 b2
               | Topup \<Rightarrow> post_ledger t lid (or_workspace r) (or_credits r) ''topup'' oid (''payment:'' @ oid) b2)) (\<lambda>b3.
               if activation_fails then Inl Unexpected else Inr (Accepted False, b3)))"

section \<open>Operators\<close>

text \<open>The rebate of a month, once.\<close>

definition settle_rebate :: "time \<Rightarrow> ident \<Rightarrow> ident \<Rightarrow> ident \<Rightarrow> string \<Rightarrow> rat \<Rightarrow> books \<Rightarrow> billing_error + rat \<times> books" where
  "settle_rebate t lid rid ws month rebate b =
     (let b1 = lock_balance t ws b
      in case tget (rebates b1) (ws, month) of
           Some paid \<Rightarrow> Inr (paid, b1)
         | None \<Rightarrow> rbind (if rebate > 0 then post_ledger t lid ws rebate ''rebate'' rid (''rebate:'' @ ws @ '':'' @ month) b1 else Inr b1) (\<lambda>b2.
             Inr (rebate, b2\<lparr>rebates := tput (ws, month) rebate (rebates b2)\<rparr>)))"

datatype admin_action =
    CreditGrant rat
  | SubscriptionGrant string cycle
  | SubscriptionChange ident string string time
  | SubscriptionCancel ident string

record admin_call =
  ac_is_admin :: bool
  ac_workspace_known :: bool
  ac_account_available :: bool
  ac_receipt :: ident
  ac_intent :: string
  ac_fresh :: ident
  ac_ledger_id :: ident

text \<open>The term an action ends with, and the tables; \<open>revision\<close> is the digest of a term.\<close>

definition run_admin_action :: "plan_catalog \<Rightarrow> (ident \<Rightarrow> sub_row \<Rightarrow> string) \<Rightarrow> time \<Rightarrow> ident \<Rightarrow> admin_call \<Rightarrow> admin_action \<Rightarrow> books \<Rightarrow>
    billing_error + (ident \<times> sub_row) option \<times> books" where
  "run_admin_action cat revision now ws c action b =
     (let live_term = (\<lambda>sid expected. case tget (subs b) sid of
            None \<Rightarrow> Inl (Rejected 404 ''SUBSCRIPTION_NOT_FOUND'')
          | Some s \<Rightarrow>
              if sb_workspace s \<noteq> ws then Inl (Rejected 404 ''SUBSCRIPTION_NOT_FOUND'')
              else if revision sid s \<noteq> expected then Inl (Rejected 409 ''SUBSCRIPTION_CHANGED'')
              else if sb_cancelled s \<noteq> None \<or> sb_ends s \<le> now then Inl (Rejected 409 ''SUBSCRIPTION_ENDED'')
              else Inr s);
          store = (\<lambda>sid s. Inr (Some (sid, s), b\<lparr>subs := tput sid s (subs b)\<rparr>))
      in case action of
        CreditGrant credits \<Rightarrow> rbind (post_ledger now (ac_ledger_id c) ws credits ''admin_grant'' (ac_receipt c) (''admin-credit:'' @ ac_receipt c) b)
          (\<lambda>b1. Inr (None, b1))
      | SubscriptionGrant pid cyc \<Rightarrow> (case plan_of cat pid of
            None \<Rightarrow> Inl Unexpected
          | Some p \<Rightarrow>
              let start = fold max (open_ends ws b) now;
                  s = \<lparr>sb_order = None, sb_workspace = ws, sb_plan = p, sb_cycle = cyc, sb_starts = start,
                    sb_ends = add_months start (cycle_months cyc), sb_cancelled = None\<rparr>
              in if add_months now 120 < sb_ends s then Inl (Rejected 422 ''SUBSCRIPTION_TOO_LONG'')
                 else rbind (insert_term (ac_fresh c) s b) (\<lambda>b1. Inr (Some (ac_fresh c, s), b1)))
      | SubscriptionChange sid expected pid finish \<Rightarrow> rbind (live_term sid expected) (\<lambda>s.
          if finish \<le> max now (sb_starts s) \<or> add_months now 120 < finish then Inl (Rejected 422 ''INVALID_SUBSCRIPTION_END'')
          else if list_ex (\<lambda>(i, s'). i \<noteq> sid \<and> sb_workspace s' = ws \<and> sb_cancelled s' = None \<and> sb_starts s' < finish \<and> sb_starts s < sb_ends s') (subs b)
          then Inl (Rejected 409 ''SUBSCRIPTION_OVERLAP'')
          else case plan_of cat pid of None \<Rightarrow> Inl Unexpected | Some p \<Rightarrow> store sid (s\<lparr>sb_plan := p, sb_ends := finish\<rparr>))
      | SubscriptionCancel sid expected \<Rightarrow> rbind (live_term sid expected) (\<lambda>s. store sid (s\<lparr>sb_cancelled := Some now\<rparr>)))"

definition manage_billing :: "plan_catalog \<Rightarrow> (ident \<Rightarrow> sub_row \<Rightarrow> string) \<Rightarrow> bool \<Rightarrow> time \<Rightarrow> ident \<Rightarrow> admin_call \<Rightarrow> admin_action \<Rightarrow> ident \<Rightarrow> books \<Rightarrow>
    billing_error + rat \<times> books" where
  "manage_billing cat revision activation_fails now ws c action allowance_id b =
     (if \<not> ac_is_admin c then Inl (Rejected 403 ''ADMIN_REQUIRED'')
      else if \<not> ac_workspace_known c then Inl (Rejected 404 ''WORKSPACE_NOT_FOUND'')
      else if \<not> ac_account_available c then Inl (Rejected 409 ''BILLING_ACCOUNT_UNAVAILABLE'')
      else let b1 = lock_balance now ws b
        in case tget (receipts b1) (ac_receipt c) of
             Some (intent, result) \<Rightarrow> if intent \<noteq> ac_intent c then Inl (Rejected 409 ''IDEMPOTENCY_CONFLICT'') else Inr (result, b1)
           | None \<Rightarrow> rbind (run_admin_action cat revision now ws c action b1) (\<lambda>(changed, b2).
               rbind (case changed of
                   Some (_, s) \<Rightarrow> if sb_cancelled s = None
                     then rbind (if sb_starts s \<le> now then ensure_period_allowance cat now allowance_id ws b2 else Inr b2)
                       (\<lambda>b3. if activation_fails then Inl Unexpected else Inr b3)
                     else Inr b2
                 | None \<Rightarrow> Inr b2) (\<lambda>b3.
               Inr (balance_of ws b3, b3\<lparr>receipts := tput (ac_receipt c) (ac_intent c, balance_of ws b3) (receipts b3)\<rparr>))))"

end
