(* ===== verification/Billing_Invariants.thy ===== *)
theory Billing_Invariants
  imports Billing
begin

text \<open>
  The invariant of the accounts and that every transaction keeps it. The ledger is read through \<open>entry\<close>, the row with a given idempotency key; orders and usage
  events are tied to the entries whose keys name them.
\<close>

section \<open>Reading the ledger\<close>

definition entry :: "string \<Rightarrow> books \<Rightarrow> ledger_row option" where
  "entry key b = map_option snd (find (\<lambda>(_, l). lg_key l = key) (ledger b))"

definition sum_of :: "ident \<Rightarrow> (ident, ledger_row) table \<Rightarrow> rat" where
  "sum_of ws ls = sum_list (map (\<lambda>(_, l). if lg_workspace l = ws then lg_amount l else 0) ls)"

lemma key_used_entry: "key_used key b \<longleftrightarrow> entry key b \<noteq> None"
  by (force simp: key_used_def entry_def find_None_iff list_ex_iff)

lemma tput_fresh: "tget t k = None \<Longrightarrow> tput k r t = t @ [(k, r)]"
  by (induction t) (auto simp: tget_def tput_def split: if_splits)

lemma lock_fields [simp]:
  "ledger (lock_balance t ws b) = ledger b" "usage (lock_balance t ws b) = usage b" "orders (lock_balance t ws b) = orders b"
  "subs (lock_balance t ws b) = subs b" "order_requests (lock_balance t ws b) = order_requests b" "rebates (lock_balance t ws b) = rebates b"
  "receipts (lock_balance t ws b) = receipts b"
  by (simp_all add: lock_balance_def)

lemma balance_lock [simp]: "balance_of ws' (lock_balance t ws b) = balance_of ws' b"
  by (simp add: lock_balance_def balance_of_def tget_tput)

lemma entry_ledger: "ledger b = ledger b' \<Longrightarrow> entry key b = entry key b'"
  by (simp add: entry_def)

lemma entry_lock [simp]: "entry key (lock_balance t ws b) = entry key b"
  by (simp add: entry_def)

text \<open>What posting does.\<close>

lemma post_ledgerE:
  assumes "post_ledger t lid ws amount kind reference key b = Inr b'"
  obtains l where "ledger b' = ledger b @ [(lid, l)]" "tget (ledger b) lid = None" "entry key b = None"
    "lg_workspace l = ws" "lg_key l = key" "lg_amount l = amount" "lg_after l = balance_of ws b + amount"
    "\<And>ws'. balance_of ws' b' = (if ws' = ws then balance_of ws b + amount else balance_of ws' b)"
    "\<And>k. entry k b' = (if k = key then Some l else entry k b)"
    "usage b' = usage b" "orders b' = orders b" "subs b' = subs b" "order_requests b' = order_requests b" "rebates b' = rebates b" "receipts b' = receipts b"
proof -
  let ?l = "\<lparr>lg_workspace = ws, lg_key = key, lg_kind = kind, lg_amount = amount, lg_after = balance_of ws b + amount, lg_reference = reference, lg_created = t\<rparr>"
  from assms have fresh: "tget (ledger b) lid = None" "entry key b = None"
    and b': "b' = b\<lparr>balances := tput ws \<lparr>cb_balance = balance_of ws b + amount, cb_updated = t\<rparr> (balances b), ledger := tput lid ?l (ledger b)\<rparr>"
    by (auto simp: post_ledger_def key_used_entry Let_def split: if_splits)
  have led: "ledger b' = ledger b @ [(lid, ?l)]" using fresh(1) by (simp add: b' tput_fresh)
  have none: "find (\<lambda>(_, l). lg_key l = key) (ledger b) = None" using fresh(2) by (simp add: entry_def)
  have "entry k b' = (if k = key then Some ?l else entry k b)" for k
    using none by (auto simp: entry_def led find_append split: option.splits)
  moreover have "balance_of ws' b' = (if ws' = ws then balance_of ws b + amount else balance_of ws' b)" for ws'
    by (simp add: b' balance_of_def tget_tput)
  ultimately show thesis using led fresh by (intro that [of ?l]) (simp_all add: b')
qed

section \<open>The books balance\<close>

definition ledger_ok :: "books \<Rightarrow> bool" where
  "ledger_ok b \<longleftrightarrow> twf (ledger b) \<and> distinct (map (lg_key \<circ> snd) (ledger b)) \<and> (\<forall>ws. balance_of ws b = sum_of ws (ledger b)) \<and>
     (\<forall>before i l after. ledger b = before @ (i, l) # after \<longrightarrow> lg_after l = sum_of (lg_workspace l) before + lg_amount l)"

lemma ledger_ok_lock [simp]: "ledger_ok (lock_balance t ws b) \<longleftrightarrow> ledger_ok b"
  by (simp add: ledger_ok_def)

lemma sum_of_append: "sum_of ws (xs @ ys) = sum_of ws xs + sum_of ws ys"
  by (simp add: sum_of_def)

lemma ledger_ok_post:
  assumes "post_ledger t lid ws amount kind reference key b = Inr b'" and "ledger_ok b"
  shows "ledger_ok b'"
  using assms(1)
proof (cases rule: post_ledgerE)
  case (1 l)
  have "lid \<notin> fst ` set (ledger b)" using 1(2) by (simp add: tget_def map_of_eq_None_iff)
  then have "twf (ledger b')" using assms(2) by (simp add: ledger_ok_def 1(1) twf_def)
  moreover have "lg_key l \<notin> set (map (lg_key \<circ> snd) (ledger b))" using 1(3,5) by (force simp: entry_def find_None_iff)
  then have "distinct (map (lg_key \<circ> snd) (ledger b'))" using assms(2) by (simp add: ledger_ok_def 1(1))
  moreover have "sum_of ws' [(lid, l)] = (if ws' = ws then amount else 0)" for ws' using 1(4,6) by (simp add: sum_of_def)
  then have "balance_of ws' b' = sum_of ws' (ledger b')" for ws'
    using assms(2) by (simp add: ledger_ok_def 1(1,8) sum_of_append)
  moreover have "lg_after l' = sum_of (lg_workspace l') before + lg_amount l'" if split: "ledger b' = before @ (i, l') # after" for before i l' after
  proof (cases after rule: rev_cases)
    case Nil
    with split have "before = ledger b" "l' = l" by (simp_all add: 1(1))
    then show ?thesis using assms(2) 1(4,6,7) by (simp add: ledger_ok_def)
  next
    case (snoc rest x)
    with split have "ledger b = before @ (i, l') # rest" by (simp add: 1(1))
    then show ?thesis using assms(2) unfolding ledger_ok_def by blast
  qed
  ultimately show ?thesis unfolding ledger_ok_def by blast
qed

section \<open>Entries, orders and usage\<close>

definition order_entry :: "order_row option \<Rightarrow> ledger_row option \<Rightarrow> bool" where
  "order_entry ro e \<longleftrightarrow> (case ro of None \<Rightarrow> e = None
     | Some r \<Rightarrow> if or_kind r = Topup \<and> or_status r = OrPaid
         then \<exists>l. e = Some l \<and> lg_amount l = or_credits r \<and> lg_workspace l = or_workspace r else e = None)"

definition usage_entry :: "usage_row option \<Rightarrow> ledger_row option \<Rightarrow> bool" where
  "usage_entry uo e \<longleftrightarrow> (case uo of None \<Rightarrow> e = None
     | Some u \<Rightarrow> if us_status u = UsCharged
         then \<exists>l c. e = Some l \<and> us_credits u = Some c \<and> lg_amount l = - c \<and> lg_workspace l = us_workspace u else e = None)"

definition entries_ok :: "books \<Rightarrow> bool" where
  "entries_ok b \<longleftrightarrow> (\<forall>oid. order_entry (tget (orders b) oid) (entry (''payment:'' @ oid) b)) \<and>
     (\<forall>eid. usage_entry (tget (usage b) eid) (entry (''usage:'' @ eid) b))"

definition paid_term :: "(ident, order_row) table \<Rightarrow> ident \<Rightarrow> bool" where
  "paid_term os oid \<longleftrightarrow> (\<exists>r. tget os oid = Some r \<and> or_kind r = Subscription \<and> or_status r = OrPaid)"

definition apart :: "sub_row \<Rightarrow> sub_row \<Rightarrow> bool" where
  "apart s s' \<longleftrightarrow> sb_ends s \<le> sb_starts s' \<or> sb_ends s' \<le> sb_starts s"

definition terms_ok :: "(ident, order_row) table \<Rightarrow> (ident, sub_row) table \<Rightarrow> bool" where
  "terms_ok os ss \<longleftrightarrow>
     (\<forall>i s. tget ss i = Some s \<longrightarrow> sb_starts s < sb_ends s \<and> (\<forall>oid. sb_order s = Some oid \<longrightarrow> oid = i)) \<and>
     (\<forall>i j s s'. tget ss i = Some s \<and> tget ss j = Some s' \<and> i \<noteq> j \<and> sb_workspace s = sb_workspace s' \<and> sb_cancelled s = None \<and> sb_cancelled s' = None \<longrightarrow> apart s s') \<and>
     (\<forall>oid. (\<exists>s. tget ss oid = Some s \<and> sb_order s = Some oid) \<longleftrightarrow> paid_term os oid)"

lemma terms_ok_cong: "(\<And>i. paid_term os i = paid_term os' i) \<Longrightarrow> terms_ok os ss = terms_ok os' ss"
  by (simp add: terms_ok_def)

definition payments_ok :: "(ident, order_row) table \<Rightarrow> bool" where
  "payments_ok os \<longleftrightarrow> (\<forall>i r. tget os i = Some r \<longrightarrow> (or_payment r \<noteq> None \<longleftrightarrow> or_status r = OrPaid)) \<and>
     (\<forall>i j r r'. tget os i = Some r \<and> tget os j = Some r' \<and> or_provider r = or_provider r' \<and> or_payment r = or_payment r' \<and> or_payment r \<noteq> None \<longrightarrow> i = j)"

definition books_ok :: "books \<Rightarrow> bool" where
  "books_ok b \<longleftrightarrow> ledger_ok b \<and> entries_ok b \<and> terms_ok (orders b) (subs b) \<and> payments_ok (orders b)"

lemma books_ok_lock [simp]: "books_ok (lock_balance t ws b) \<longleftrightarrow> books_ok b"
  by (simp add: books_ok_def entries_ok_def)

text \<open>Keys that name neither an order nor a usage event.\<close>

definition plain_key :: "string \<Rightarrow> bool" where
  "plain_key key \<longleftrightarrow> (\<forall>x. key \<noteq> ''payment:'' @ x \<and> key \<noteq> ''usage:'' @ x)"

lemma plain_keys [simp]:
  "plain_key (''allowance:'' @ x)" "plain_key (''rebate:'' @ x)" "plain_key (''admin-credit:'' @ x)"
  by (simp_all add: plain_key_def)

lemma books_ok_plain_post:
  assumes "post_ledger t lid ws amount kind reference key b = Inr b'" and "plain_key key" and "books_ok b"
  shows "books_ok b'"
proof -
  have "ledger_ok b'" using ledger_ok_post [OF assms(1)] assms(3) by (simp add: books_ok_def)
  with assms(1) show ?thesis
  proof (cases rule: post_ledgerE)
    case (1 l)
    have "''payment:'' @ x \<noteq> key" "''usage:'' @ x \<noteq> key" for x using assms(2) by (metis plain_key_def)+
    with assms(3) 1 \<open>ledger_ok b'\<close> show ?thesis unfolding books_ok_def entries_ok_def by simp
  qed
qed

lemma allowanceE:
  assumes "ensure_period_allowance cat now lid ws b = Inr b'"
  obtains "b' = b"
    | p reference where "post_ledger now lid ws (pl_credits p) ''allowance'' reference (allowance_key ws p now) b = Inr b'" "plain_key (allowance_key ws p now)"
proof (cases "b' = b")
  case False
  with assms obtain p reference where "post_ledger now lid ws (pl_credits p) ''allowance'' reference (allowance_key ws p now) b = Inr b'"
    by (auto simp: ensure_period_allowance_def Let_def split: option.splits if_splits)
  then show thesis by (rule that(2)) (simp add: allowance_key_def plain_key_def)
qed (rule that(1))

lemma books_ok_allowance:
  assumes "ensure_period_allowance cat now lid ws b = Inr b'" and "books_ok b"
  shows "books_ok b' \<and> orders b' = orders b \<and> subs b' = subs b \<and> usage b' = usage b"
  using assms(1)
proof (cases rule: allowanceE)
  case 1
  then show ?thesis using assms(2) by simp
next
  case (2 p reference)
  from books_ok_plain_post [OF 2 assms(2)] 2(1) show ?thesis by (auto elim!: post_ledgerE)
qed

section \<open>Updates of single rows\<close>

lemma entry_update [simp]:
  "entry k (b\<lparr>orders := os\<rparr>) = entry k b" "entry k (b\<lparr>usage := us\<rparr>) = entry k b" "entry k (b\<lparr>subs := ss\<rparr>) = entry k b"
  "entry k (b\<lparr>order_requests := rs\<rparr>) = entry k b" "entry k (b\<lparr>rebates := rb\<rparr>) = entry k b" "entry k (b\<lparr>receipts := rc\<rparr>) = entry k b"
  by (simp_all add: entry_def)

lemma ledger_ok_update [simp]:
  "ledger_ok (b\<lparr>orders := os\<rparr>) = ledger_ok b" "ledger_ok (b\<lparr>usage := us\<rparr>) = ledger_ok b" "ledger_ok (b\<lparr>subs := ss\<rparr>) = ledger_ok b"
  "ledger_ok (b\<lparr>order_requests := rs\<rparr>) = ledger_ok b" "ledger_ok (b\<lparr>rebates := rb\<rparr>) = ledger_ok b" "ledger_ok (b\<lparr>receipts := rc\<rparr>) = ledger_ok b"
  by (simp_all add: ledger_ok_def balance_of_def)

lemma books_ok_other [simp]:
  "books_ok (b\<lparr>order_requests := rs\<rparr>) = books_ok b" "books_ok (b\<lparr>rebates := rb\<rparr>) = books_ok b" "books_ok (b\<lparr>receipts := rc\<rparr>) = books_ok b"
  by (simp_all add: books_ok_def entries_ok_def)

lemma unpaid_no_entry:
  assumes "books_ok b" and "case tget (orders b) oid of None \<Rightarrow> True | Some r0 \<Rightarrow> or_status r0 \<noteq> OrPaid"
  shows "entry (''payment:'' @ oid) b = None"
proof -
  have "order_entry (tget (orders b) oid) (entry (''payment:'' @ oid) b)" using assms(1) by (simp add: books_ok_def entries_ok_def)
  with assms(2) show ?thesis by (auto simp: order_entry_def split: option.splits if_splits)
qed

lemma books_ok_unpaid_order:
  assumes "books_ok b" and "case tget (orders b) oid of None \<Rightarrow> True | Some r0 \<Rightarrow> or_status r0 \<noteq> OrPaid"
    and "or_status r \<noteq> OrPaid" and "or_payment r = None"
  shows "books_ok (b\<lparr>orders := tput oid r (orders b)\<rparr>)"
proof -
  note none = unpaid_no_entry [OF assms(1,2)]
  have "paid_term (tput oid r (orders b)) i = paid_term (orders b) i" for i
    using assms(2,3) by (auto simp: paid_term_def tget_tput split: option.splits)
  from terms_ok_cong [OF this] have "terms_ok (tput oid r (orders b)) (subs b)" using assms(1) by (simp add: books_ok_def)
  moreover have "payments_ok (tput oid r (orders b))"
    using assms(1,3,4) unfolding books_ok_def payments_ok_def by (auto simp: tget_tput)
  moreover have "entries_ok (b\<lparr>orders := tput oid r (orders b)\<rparr>)"
    using assms(1,3) none unfolding books_ok_def entries_ok_def by (simp add: tget_tput order_entry_def)
  ultimately show ?thesis using assms(1) by (simp add: books_ok_def)
qed

lemma unpaid_no_payment: "books_ok b \<Longrightarrow> tget (orders b) oid = Some r \<Longrightarrow> or_status r \<noteq> OrPaid \<Longrightarrow> or_payment r = None"
  unfolding books_ok_def payments_ok_def by blast

lemma books_ok_quiet_usage:
  assumes "books_ok b" and "case tget (usage b) eid of None \<Rightarrow> True | Some u0 \<Rightarrow> us_status u0 \<noteq> UsCharged" and "us_status u \<noteq> UsCharged"
  shows "books_ok (b\<lparr>usage := tput eid u (usage b)\<rparr>)"
proof -
  have "usage_entry (tget (usage b) eid) (entry (''usage:'' @ eid) b)" using assms(1) by (simp add: books_ok_def entries_ok_def)
  with assms(2) have "entry (''usage:'' @ eid) b = None" by (auto simp: usage_entry_def split: option.splits if_splits)
  then show ?thesis using assms(1,3) unfolding books_ok_def entries_ok_def by (simp add: tget_tput usage_entry_def)
qed

text \<open>A usage event that is charged, with its entry.\<close>

lemma books_ok_charge:
  assumes "books_ok b" and "case tget (usage b) eid of None \<Rightarrow> True | Some u0 \<Rightarrow> us_status u0 \<noteq> UsCharged"
    and "us_status u = UsCharged" "us_credits u = Some c" "us_workspace u = ws"
    and "post_ledger t lid ws (- c) kind reference (''usage:'' @ eid) (b\<lparr>usage := tput eid u (usage b)\<rparr>) = Inr b'"
  shows "books_ok b'"
proof -
  have "ledger_ok b'" using ledger_ok_post [OF assms(6)] assms(1) by (simp add: books_ok_def)
  with assms(6) show ?thesis
  proof (cases rule: post_ledgerE)
    case (1 l)
    then have views: "orders b' = orders b" "subs b' = subs b" "usage b' = tput eid u (usage b)"
      "\<And>k. entry k b' = (if k = ''usage:'' @ eid then Some l else entry k b)" by simp_all
    have "usage_entry (tget (usage b') i) (entry (''usage:'' @ i) b')" for i
      using assms(1,3,4,5) 1(4,6) unfolding books_ok_def entries_ok_def by (simp add: views tget_tput usage_entry_def)
    then show ?thesis using assms(1) \<open>ledger_ok b'\<close> unfolding books_ok_def entries_ok_def by (simp add: views)
  qed
qed

section \<open>Paid orders\<close>

lemma payments_ok_pay:
  assumes "payments_ok os" and "\<not> list_ex (\<lambda>(i, r'). i \<noteq> oid \<and> or_provider r' = or_provider r \<and> or_payment r' = or_payment r) os"
    and "or_status r = OrPaid" and "or_payment r \<noteq> None"
  shows "payments_ok (tput oid r os)"
proof -
  have "i = oid" if "tget os i = Some r'" "or_provider r' = or_provider r" "or_payment r' = or_payment r" for i r'
    using tget_in [OF that(1)] assms(2) that(2,3) by (auto simp: list_ex_iff)
  then show ?thesis using assms(1,3,4) unfolding payments_ok_def by (simp add: tget_tput) metis
qed

lemma books_ok_topup:
  assumes "books_ok b" and "tget (orders b) oid = Some r0" and "or_status r0 \<noteq> OrPaid"
    and "or_kind r = Topup" "or_status r = OrPaid" "or_payment r \<noteq> None" "or_kind r0 = Topup"
    and "\<not> list_ex (\<lambda>(i, r'). i \<noteq> oid \<and> or_provider r' = or_provider r \<and> or_payment r' = or_payment r) (orders b)"
    and "post_ledger t lid (or_workspace r) (or_credits r) kind reference (''payment:'' @ oid) (b\<lparr>orders := tput oid r (orders b)\<rparr>) = Inr b'"
  shows "books_ok b'"
proof -
  have "ledger_ok b'" using ledger_ok_post [OF assms(9)] assms(1) by (simp add: books_ok_def)
  with assms(9) show ?thesis
  proof (cases rule: post_ledgerE)
    case (1 l)
    then have views: "usage b' = usage b" "subs b' = subs b" "orders b' = tput oid r (orders b)"
      "\<And>k. entry k b' = (if k = ''payment:'' @ oid then Some l else entry k b)" by simp_all
    have "order_entry (tget (orders b') i) (entry (''payment:'' @ i) b')" for i
      using assms(1,4,5) 1(4,6) unfolding books_ok_def entries_ok_def by (simp add: views tget_tput order_entry_def)
    moreover have "paid_term (orders b') i = paid_term (orders b) i" for i
      using assms(2,4,7) by (auto simp: views paid_term_def tget_tput)
    from terms_ok_cong [OF this] have "terms_ok (orders b') (subs b')" using assms(1) by (simp add: views books_ok_def)
    moreover have "payments_ok (orders b')" using payments_ok_pay assms(1,5,6,8) unfolding views by (simp add: books_ok_def)
    ultimately show ?thesis using assms(1) \<open>ledger_ok b'\<close> unfolding books_ok_def entries_ok_def by (simp add: views)
  qed
qed

lemma fold_max_ge: "x \<in> insert a (set xs) \<Longrightarrow> x \<le> fold max xs (a :: int)"
  using Max_ge [of "set (a # xs)" x] unfolding Max.set_eq_fold by simp

lemma open_ends_le:
  "tget (subs b) i = Some s \<Longrightarrow> sb_workspace s = ws \<Longrightarrow> sb_cancelled s = None \<Longrightarrow> sb_ends s \<le> fold max (open_ends ws b) now"
  by (rule fold_max_ge) (force simp: open_ends_def dest: tget_in)

text \<open>A new term that starts after all open ones of its workspace.\<close>

lemma terms_ok_insert:
  assumes "terms_ok os (subs b)" and "insert_term sid s b = Inr b'" and "sb_starts s = fold max (open_ends (sb_workspace s) b) now"
    and "sb_order s \<in> {None, Some sid}" and "\<And>i. paid_term os' i \<longleftrightarrow> paid_term os i \<or> sb_order s = Some i" and "\<not> paid_term os sid"
  shows "terms_ok os' (subs b') \<and> b' = b\<lparr>subs := tput sid s (subs b)\<rparr>"
proof -
  from assms(2) have b': "b' = b\<lparr>subs := tput sid s (subs b)\<rparr>" and fresh: "tget (subs b) sid = None" and pos: "sb_starts s < sb_ends s"
    by (auto simp: insert_term_def split: if_splits)
  have far: "apart s' s \<and> apart s s'" if "tget (subs b) i = Some s'" "sb_workspace s' = sb_workspace s" "sb_cancelled s' = None" for i s'
    using open_ends_le [OF that(1,2,3), of now] assms(3) by (simp add: apart_def)
  have "(\<exists>s'. tget (tput sid s (subs b)) i = Some s' \<and> sb_order s' = Some i) \<longleftrightarrow> paid_term os' i" for i
    using assms(1,4,5,6) fresh unfolding terms_ok_def by (cases "i = sid") (auto simp: tget_tput)
  moreover have "sb_starts s' < sb_ends s' \<and> (\<forall>oid. sb_order s' = Some oid \<longrightarrow> oid = i)" if "tget (tput sid s (subs b)) i = Some s'" for i s'
    using that assms(1,4) pos unfolding terms_ok_def by (auto simp: tget_tput split: if_splits)
  moreover have "apart s1 s2" if "tget (tput sid s (subs b)) i = Some s1" "tget (tput sid s (subs b)) j = Some s2" "i \<noteq> j" "sb_workspace s1 = sb_workspace s2"
      "sb_cancelled s1 = None" "sb_cancelled s2 = None" for i j s1 s2
  proof (cases "i = sid")
    case True
    with that have "s1 = s" "tget (subs b) j = Some s2" by (simp_all add: tget_tput)
    with that far show ?thesis by simp
  next
    case False
    then have i: "tget (subs b) i = Some s1" using that(1) by (simp add: tget_tput)
    show ?thesis
    proof (cases "j = sid")
      case True
      with that have "s2 = s" by (simp add: tget_tput)
      with that i far show ?thesis by simp
    next
      case False
      then have "tget (subs b) j = Some s2" using that(2) by (simp add: tget_tput)
      with that i assms(1) show ?thesis unfolding terms_ok_def by blast
    qed
  qed
  ultimately have "terms_ok os' (tput sid s (subs b))" unfolding terms_ok_def by blast
  then show ?thesis by (simp add: b')
qed

lemma books_ok_subscribe:
  assumes "books_ok b" and "tget (orders b) oid = Some r0" and "or_status r0 \<noteq> OrPaid" and "or_kind r0 = Subscription"
    and "or_kind r = Subscription" "or_status r = OrPaid" "or_payment r \<noteq> None"
    and "\<not> list_ex (\<lambda>(i, r'). i \<noteq> oid \<and> or_provider r' = or_provider r \<and> or_payment r' = or_payment r) (orders b)"
    and "apply_subscription cat now lid oid r (b\<lparr>orders := tput oid r (orders b)\<rparr>) = Inr b'"
  shows "books_ok b' \<and> (\<exists>r1. tget (orders b') oid = Some r1 \<and> r1\<lparr>or_product := or_product r\<rparr> = r) \<and> (\<forall>i. i \<noteq> oid \<longrightarrow> tget (orders b') i = tget (orders b) i)"
proof -
  let ?b0 = "b\<lparr>orders := tput oid r (orders b)\<rparr>"
  from assms(9) obtain product where pd: "or_product r = Some product" by (auto simp: apply_subscription_def split: option.splits)
  let ?start = "fold max (open_ends (or_workspace r) ?b0) now"
  let ?finish = "add_months ?start (cycle_months (pd_cycle product))"
  let ?bought = "\<lparr>sb_order = Some oid, sb_workspace = or_workspace r, sb_plan = pd_plan product, sb_cycle = pd_cycle product, sb_starts = ?start,
    sb_ends = ?finish, sb_cancelled = None\<rparr>"
  let ?r1 = "r\<lparr>or_product := Some (product\<lparr>pd_term := Some (?start, ?finish)\<rparr>)\<rparr>"
  from assms(9) pd obtain b1 where ins: "insert_term oid ?bought ?b0 = Inr b1"
    and rest: "(if ?start \<le> now then ensure_period_allowance cat now lid (or_workspace r) (b1\<lparr>orders := tput oid ?r1 (orders b1)\<rparr>)
      else Inr (b1\<lparr>orders := tput oid ?r1 (orders b1)\<rparr>)) = Inr b'"
    by (auto simp: apply_subscription_def Let_def rbind_Inr_iff)
  have unpaid: "\<not> paid_term (orders b) oid" using assms(2,3) by (simp add: paid_term_def)
  have paid: "paid_term (tput oid ?r1 (orders b)) i \<longleftrightarrow> paid_term (orders b) i \<or> oid = i" for i
    using assms(5,6) by (auto simp: paid_term_def tget_tput)
  have ok: "terms_ok (orders b) (subs ?b0)" using assms(1) by (simp add: books_ok_def)
  have terms: "terms_ok (tput oid ?r1 (orders b)) (subs b1)" "b1 = ?b0\<lparr>subs := tput oid ?bought (subs b)\<rparr>"
    using terms_ok_insert [OF ok ins, of now "tput oid ?r1 (orders b)"] paid unpaid by auto
  let ?b2 = "b1\<lparr>orders := tput oid ?r1 (orders b1)\<rparr>"
  have "payments_ok (tput oid ?r1 (orders b))" using assms(1,6,7,8) by (intro payments_ok_pay) (simp_all add: books_ok_def)
  moreover have "entry (''payment:'' @ oid) b = None" using unpaid_no_entry [OF assms(1)] assms(2,3) by simp
  then have "entries_ok ?b2" using assms(1,5) unfolding books_ok_def entries_ok_def by (simp add: terms(2) tget_tput order_entry_def)
  ultimately have ok2: "books_ok ?b2" using assms(1) terms by (simp add: books_ok_def)
  have same: "orders b' = orders ?b2 \<and> books_ok b'"
  proof (cases "?start \<le> now")
    case True
    with rest have "ensure_period_allowance cat now lid (or_workspace r) ?b2 = Inr b'" by (simp only: if_True)
    from books_ok_allowance [OF this ok2] show ?thesis by blast
  next
    case False
    with rest have "b' = ?b2" by (simp only: if_False sum.inject)
    with ok2 show ?thesis by (simp only:)
  qed
  have "orders ?b2 = tput oid ?r1 (orders b)" by (simp add: terms(2))
  with same have "tget (orders b') oid = Some ?r1" "\<forall>i. i \<noteq> oid \<longrightarrow> tget (orders b') i = tget (orders b) i" by (simp_all add: tget_tput)
  with same show ?thesis by (intro conjI exI [of _ ?r1]) simp_all
qed

end
