(* ===== verification/Billing_Steps.thy ===== *)
theory Billing_Steps
  imports Billing_Invariants
begin

text \<open>
  Every transaction of the accounts keeps the invariant and only adds to the history: ledger entries stay, paid orders and settled usage events stay as they are. The
  relation \<open>sound\<close> says both and composes; the transactions together are the step relation \<open>billing_step\<close>.
\<close>

section \<open>History\<close>

definition order_keeps :: "order_row \<Rightarrow> order_row \<Rightarrow> bool" where
  "order_keeps r r' \<longleftrightarrow> or_workspace r' = or_workspace r \<and> or_user r' = or_user r \<and> or_provider r' = or_provider r \<and> or_kind r' = or_kind r \<and>
     or_amount_fen r' = or_amount_fen r \<and> or_currency r' = or_currency r \<and> or_credits r' = or_credits r \<and> (or_status r = OrPaid \<longrightarrow> r' = r)"

definition usage_keeps :: "usage_row \<Rightarrow> usage_row \<Rightarrow> bool" where
  "usage_keeps u u' \<longleftrightarrow> us_key u' = us_key u \<and> us_workspace u' = us_workspace u \<and> (us_status u \<noteq> UsPending \<longrightarrow> u' = u)"

definition row_keeps :: "('r \<Rightarrow> 'r \<Rightarrow> bool) \<Rightarrow> ('k, 'r) table \<Rightarrow> ('k, 'r) table \<Rightarrow> bool" where
  "row_keeps keeps t t' \<longleftrightarrow> (\<forall>k r. tget t k = Some r \<longrightarrow> (\<exists>r'. tget t' k = Some r' \<and> keeps r r'))"

definition advances :: "books \<Rightarrow> books \<Rightarrow> bool" where
  "advances b b' \<longleftrightarrow> (\<exists>new. ledger b' = ledger b @ new) \<and> row_keeps order_keeps (orders b) (orders b') \<and> row_keeps usage_keeps (usage b) (usage b')"

definition sound :: "books \<Rightarrow> books \<Rightarrow> bool" where
  "sound b b' \<longleftrightarrow> (books_ok b \<longrightarrow> books_ok b' \<and> advances b b')"

lemma history_refl [simp]: "order_keeps r r" "usage_keeps u u"
  by (simp_all add: order_keeps_def usage_keeps_def)

lemma row_keeps_refl [simp]: "row_keeps order_keeps os os" "row_keeps usage_keeps us us"
  by (simp_all add: row_keeps_def)

lemma history_trans: "order_keeps r r1 \<Longrightarrow> order_keeps r1 r2 \<Longrightarrow> order_keeps r r2" "usage_keeps u u1 \<Longrightarrow> usage_keeps u1 u2 \<Longrightarrow> usage_keeps u u2"
  unfolding order_keeps_def usage_keeps_def by metis+

lemma row_keeps_trans:
  assumes "row_keeps keeps t t1" "row_keeps keeps t1 t2" and "\<And>r r1 r2. keeps r r1 \<Longrightarrow> keeps r1 r2 \<Longrightarrow> keeps r r2"
  shows "row_keeps keeps t t2"
  using assms unfolding row_keeps_def by meson

lemma row_keeps_put:
  assumes "\<And>r. keeps r r" and "case tget t k of None \<Rightarrow> True | Some r0 \<Rightarrow> keeps r0 r"
  shows "row_keeps keeps t (tput k r t)"
  using assms by (auto simp: row_keeps_def tget_tput split: option.splits)

lemma advances_refl [simp]: "advances b b"
  by (simp add: advances_def)

lemma advances_trans:
  assumes "advances b b1" and "advances b1 b2"
  shows "advances b b2"
  using assms row_keeps_trans [OF _ _ history_trans(1)] row_keeps_trans [OF _ _ history_trans(2)] unfolding advances_def by auto

lemma sound_refl [simp]: "sound b b"
  by (simp add: sound_def)

lemma sound_trans: "sound b b1 \<Longrightarrow> sound b1 b2 \<Longrightarrow> sound b b2"
  using advances_trans by (auto simp: sound_def)

section \<open>Pieces of transactions\<close>

lemma advances_post: "post_ledger t lid ws amount kind reference key b = Inr b' \<Longrightarrow> advances b b'"
  by (auto simp: advances_def elim!: post_ledgerE)

lemma sound_lock [simp]: "sound b (lock_balance t ws b)"
  by (simp add: sound_def advances_def)

lemma sound_other [simp]:
  "sound b (b\<lparr>order_requests := rs\<rparr>)" "sound b (b\<lparr>rebates := rb\<rparr>)" "sound b (b\<lparr>receipts := rc\<rparr>)"
  by (simp_all add: sound_def advances_def)

lemma sound_plain_post: "post_ledger t lid ws amount kind reference key b = Inr b' \<Longrightarrow> plain_key key \<Longrightarrow> sound b b'"
  unfolding sound_def using books_ok_plain_post advances_post by blast

lemma advances_allowance: "ensure_period_allowance cat now lid ws b = Inr b' \<Longrightarrow> advances b b'"
  by (erule allowanceE) (auto intro: advances_post)

lemma sound_allowance: "ensure_period_allowance cat now lid ws b = Inr b' \<Longrightarrow> sound b b'"
  unfolding sound_def using books_ok_allowance advances_allowance by blast

lemma sound_unpaid_order:
  assumes "case tget (orders b) oid of None \<Rightarrow> or_payment r = None | Some r0 \<Rightarrow> or_status r0 \<noteq> OrPaid \<and> order_keeps r0 r \<and> or_payment r = or_payment r0"
    and "or_status r \<noteq> OrPaid"
  shows "sound b (b\<lparr>orders := tput oid r (orders b)\<rparr>)"
  unfolding sound_def
proof (intro impI conjI)
  assume ok: "books_ok b"
  have "or_payment r = None" using assms(1) unpaid_no_payment [OF ok] by (auto split: option.splits)
  with assms ok show "books_ok (b\<lparr>orders := tput oid r (orders b)\<rparr>)" by (intro books_ok_unpaid_order) (auto split: option.splits)
  show "advances b (b\<lparr>orders := tput oid r (orders b)\<rparr>)"
    using assms(1) by (auto simp: advances_def intro!: row_keeps_put split: option.splits)
qed

lemma sound_quiet_usage:
  assumes "case tget (usage b) eid of None \<Rightarrow> True | Some u0 \<Rightarrow> us_status u0 = UsPending \<and> usage_keeps u0 u" and "us_status u \<noteq> UsCharged"
  shows "sound b (b\<lparr>usage := tput eid u (usage b)\<rparr>)"
  unfolding sound_def
proof (intro impI conjI)
  assume "books_ok b"
  with assms show "books_ok (b\<lparr>usage := tput eid u (usage b)\<rparr>)" by (intro books_ok_quiet_usage) (auto split: option.splits)
  show "advances b (b\<lparr>usage := tput eid u (usage b)\<rparr>)"
    using assms(1) by (auto simp: advances_def intro!: row_keeps_put split: option.splits)
qed

lemma sound_charge:
  assumes "case tget (usage b) eid of None \<Rightarrow> True | Some u0 \<Rightarrow> us_status u0 = UsPending \<and> usage_keeps u0 u"
    and "us_status u = UsCharged" "us_credits u = Some c" "us_workspace u = ws"
    and "post_ledger t lid ws (- c) kind reference (''usage:'' @ eid) (b\<lparr>usage := tput eid u (usage b)\<rparr>) = Inr b'"
  shows "sound b b'"
  unfolding sound_def
proof (intro impI conjI)
  assume ok: "books_ok b"
  have "case tget (usage b) eid of None \<Rightarrow> True | Some u0 \<Rightarrow> us_status u0 \<noteq> UsCharged" using assms(1) by (auto split: option.splits)
  from books_ok_charge [OF ok this assms(2-5)] show "books_ok b'" .
  have "advances b (b\<lparr>usage := tput eid u (usage b)\<rparr>)"
    using assms(1) by (auto simp: advances_def intro!: row_keeps_put split: option.splits)
  then show "advances b b'" using advances_post [OF assms(5)] by (rule advances_trans)
qed

section \<open>Transactions\<close>

lemma sound_precheck: "precheck_balance mode cat now lid ws b = Inr b' \<Longrightarrow> sound b b'"
  by (auto simp: precheck_balance_def require_credits_def rbind_Inr_iff split: if_splits intro: sound_trans [OF sound_lock sound_allowance])

lemma sound_insert_usage:
  assumes "insert_usage eid u b = Inr b'" and "us_status u \<noteq> UsCharged"
  shows "sound b b' \<and> tget (usage b') eid = Some u"
proof -
  from assms(1) have "b' = b\<lparr>usage := tput eid u (usage b)\<rparr>" "tget (usage b) eid = None" by (auto simp: insert_usage_def split: if_splits)
  with assms(2) sound_quiet_usage [where b = b and eid = eid and u = u] show ?thesis by (simp add: tget_tput)
qed

lemma sound_start:
  assumes "meter_start mode cat now lid eid session_id workspace preview kind b = Inr (m, b')"
  shows "sound b b' \<and> (\<forall>me. m = Some me \<longrightarrow> (\<exists>u. tget (usage b') (me_event me) = Some u \<and> us_workspace u = me_workspace me))"
proof (cases "mode = Off \<or> workspace = None")
  case True
  then show ?thesis using assms by (auto simp: meter_start_def split: if_splits)
next
  case False
  then obtain ws where ws: "workspace = Some ws" "mode \<noteq> Off" by auto
  from assms ws obtain b1 where al: "ensure_period_allowance cat now lid ws (lock_balance now ws b) = Inr b1"
    and ins: "insert_usage eid \<lparr>us_key = ''llm:'' @ eid, us_workspace = ws, us_session = session_id, us_kind = kind, us_tokens = 0,
                 us_credits = None, us_cost = None, us_status = UsPending, us_created = now\<rparr> b1 = Inr b'"
    and m: "m = Some \<lparr>me_event = eid, me_workspace = ws, me_mode = mode\<rparr>"
    by (auto simp: meter_start_def rbind_Inr_iff split: if_splits)
  from sound_insert_usage [OF ins] sound_trans [OF sound_lock sound_allowance [OF al]] m show ?thesis by (auto intro: sound_trans)
qed

lemma sound_finish:
  assumes "meter_finish t lid me reported b = Inr (c, b')" and "\<And>u. tget (usage b) (me_event me) = Some u \<Longrightarrow> us_workspace u = me_workspace me"
  shows "sound b b'"
proof -
  let ?b1 = "lock_balance t (me_workspace me) b"
  from assms(1) obtain u where u: "tget (usage b) (me_event me) = Some u" by (auto simp: meter_finish_def Let_def split: option.splits)
  consider "us_status u \<noteq> UsPending" | "us_status u = UsPending" "reported = None" | p where "us_status u = UsPending" "reported = Some p" by blast
  then have "sound ?b1 b'"
  proof cases
    case 1
    then show ?thesis using assms(1) u by (simp add: meter_finish_def)
  next
    case 2
    then have b': "b' = ?b1\<lparr>usage := tput (me_event me) (u\<lparr>us_status := UsUnreported\<rparr>) (usage ?b1)\<rparr>" using assms(1) u by (simp add: meter_finish_def)
    show ?thesis unfolding b' using 2 u by (intro sound_quiet_usage) (simp_all add: usage_keeps_def)
  next
    case (3 p)
    let ?u = "u\<lparr>us_tokens := pu_tokens p, us_credits := pu_credits p, us_cost := pu_cost p, us_status := charge_status (me_mode me) (pu_credits p)\<rparr>"
    have keep: "usage_keeps u ?u" using 3 by (simp add: usage_keeps_def)
    show ?thesis
    proof (cases "charge_status (me_mode me) (pu_credits p) = UsCharged")
      case True
      then obtain x where x: "pu_credits p = Some x" by (auto simp: charge_status_def split: if_splits)
      then have "post_ledger t lid (me_workspace me) (- x) ''usage'' (me_event me) (''usage:'' @ me_event me)
          (?b1\<lparr>usage := tput (me_event me) ?u (usage ?b1)\<rparr>) = Inr b'"
        using True assms(1) u 3 by (auto simp: meter_finish_def Let_def rbind_Inr_iff)
      then show ?thesis using True x u 3 keep assms(2) by (intro sound_charge) simp_all
    next
      case False
      then have b': "b' = ?b1\<lparr>usage := tput (me_event me) ?u (usage ?b1)\<rparr>"
        using assms(1) u 3 by (cases "charge_status (me_mode me) (pu_credits p)") (auto simp: meter_finish_def Let_def)
      show ?thesis unfolding b' using False u 3 keep by (intro sound_quiet_usage) simp_all
    qed
  qed
  then show ?thesis using sound_trans sound_lock by blast
qed

lemma meter_finish_settles:
  assumes "meter_finish t lid me reported b = Inr (c, b')"
  shows "\<exists>u. tget (usage b') (me_event me) = Some u \<and> us_status u \<noteq> UsPending"
  using assms by (auto simp: meter_finish_def Let_def charge_status_def rbind_Inr_iff tget_tput elim!: post_ledgerE split: option.splits if_splits)

lemma sound_media:
  assumes "settle_media mode t lid eid key ws session_id kind credits cost quantity_known b = Inr (c, b')"
  shows "sound b b'"
proof (cases "mode = Off \<or> ws = [] \<or> find (\<lambda>(_, u). us_key u = key) (usage b) \<noteq> None")
  case True
  then show ?thesis using assms by (auto simp: settle_media_def Let_def split: if_splits)
next
  case False
  let ?b1 = "lock_balance t ws b"
  let ?status = "if \<not> quantity_known then UsUnreported else charge_status mode credits"
  let ?u = "\<lparr>us_key = key, us_workspace = ws, us_session = session_id, us_kind = kind, us_tokens = 0,
    us_credits = credits, us_cost = cost, us_status = ?status, us_created = t\<rparr>"
  let ?rest = "\<lambda>b2. case (?status, credits) of
        (UsCharged, Some c) \<Rightarrow> rbind (post_ledger t lid ws (- c) ''usage'' eid (''usage:'' @ eid) b2) (\<lambda>b3. Inr (credits, b3))
      | _ \<Rightarrow> Inr (if ?status = UsShadow then credits else None, b2)"
  from False have "(mode = Off \<or> ws = []) = False" "find (\<lambda>(_, u). us_key u = key) (usage b) = None" by blast+
  with assms have "rbind (insert_usage eid ?u ?b1) ?rest = Inr (c, b')" unfolding settle_media_def Let_def lock_fields by (simp only: if_False option.case)
  then obtain b2 where ins: "insert_usage eid ?u ?b1 = Inr b2" and post: "?rest b2 = Inr (c, b')" unfolding rbind_Inr_iff by blast
  from ins have b2: "b2 = ?b1\<lparr>usage := tput eid ?u (usage ?b1)\<rparr>" and new: "tget (usage ?b1) eid = None" by (auto simp: insert_usage_def split: if_splits)
  have "sound ?b1 b'"
  proof (cases "?status = UsCharged")
    case True
    then obtain x where x: "credits = Some x" by (auto simp: charge_status_def split: if_splits)
    have "post_ledger t lid ws (- x) ''usage'' eid (''usage:'' @ eid) b2 = Inr b'" using post unfolding True by (auto simp: x rbind_Inr_iff)
    from sound_charge [OF _ _ _ _ this [unfolded b2]] True x new show ?thesis by simp
  next
    case False
    then have "b' = b2" using post by (cases ?status) simp_all
    with sound_insert_usage [OF ins] False show ?thesis by simp
  qed
  then show ?thesis using sound_trans sound_lock by blast
qed

lemma sound_remember [simp]: "sound b (if c then b\<lparr>order_requests := rs\<rparr> else b)"
  by simp

lemma sound_create_order:
  assumes "create_order cat t fresh ws user provider request_key amount_fen kind plan_id cyc b = Inr (oid, b')"
  shows "sound b b'"
proof -
  let ?b1 = "lock_balance t ws b"
  have "sound ?b1 b'"
  proof (cases "known_order ws request_key ?b1")
    case (Some known)
    then show ?thesis using assms by (auto simp: create_order_def Let_def split: option.splits if_splits)
  next
    case None
    with assms obtain amount credits product where rest: "(case reusable_order ws user provider kind amount credits product ?b1 of
               Some oid \<Rightarrow> Inr (oid, if tget (order_requests ?b1) (ws, request_key) = None
                 then ?b1\<lparr>order_requests := tput (ws, request_key) oid (order_requests ?b1)\<rparr> else ?b1)
             | None \<Rightarrow> rbind (insert_order fresh \<lparr>or_workspace = ws, or_user = user, or_request_key = request_key, or_provider = provider,
                   or_amount_fen = amount, or_currency = ''CNY'', or_kind = kind, or_product = product, or_credits = credits, or_status = OrPending,
                   or_checkout_url = None, or_provider_order = None, or_payment = None, or_created = t, or_paid_at = None, or_cancelled_at = None,
                   or_reason = None\<rparr> ?b1) (\<lambda>b2. Inr (fresh, if tget (order_requests b2) (ws, request_key) = None
                 then b2\<lparr>order_requests := tput (ws, request_key) fresh (order_requests b2)\<rparr> else b2))) = Inr (oid, b')"
      by (auto simp: create_order_def Let_def rbind_Inr_iff)
    show ?thesis
    proof (cases "reusable_order ws user provider kind amount credits product ?b1")
      case (Some known)
      with rest show ?thesis by auto
    next
      case None
      with rest obtain r b2 where ins: "insert_order fresh r ?b1 = Inr b2" and r: "or_status r = OrPending" "or_payment r = None"
        and b': "b' = (if tget (order_requests b2) (ws, request_key) = None
                 then b2\<lparr>order_requests := tput (ws, request_key) fresh (order_requests b2)\<rparr> else b2)"
        by (auto simp: rbind_Inr_iff)
      from ins have "b2 = ?b1\<lparr>orders := tput fresh r (orders ?b1)\<rparr>" "tget (orders ?b1) fresh = None" by (auto simp: insert_order_def split: if_splits)
      with r have "sound ?b1 b2" using sound_unpaid_order [where b = ?b1 and oid = fresh and r = r] by simp
      then show ?thesis unfolding b' using sound_trans sound_remember by blast
    qed
  qed
  then show ?thesis using sound_trans sound_lock by blast
qed

lemma sound_save_checkout: "save_checkout refresh t ws oid url provider_order b = Inr (r, b') \<Longrightarrow> sound b b'"
  by (rule sound_trans [OF sound_lock [of _ t ws]])
    (auto simp: save_checkout_def Let_def order_keeps_def intro!: sound_unpaid_order [where b = "lock_balance t ws b", simplified] split: option.splits if_splits)

lemma sound_save_app_checkout: "save_app_checkout t ws oid provider_order b = Inr (r, b') \<Longrightarrow> sound b b'"
  by (rule sound_trans [OF sound_lock [of _ t ws]])
    (auto simp: save_app_checkout_def Let_def order_keeps_def intro!: sound_unpaid_order [where b = "lock_balance t ws b", simplified]
      split: option.splits if_splits order_status.splits)

lemma provider_order_row_Inr: "provider_order_row provider oid b = Inr r \<longleftrightarrow> tget (orders b) oid = Some r \<and> or_provider r = provider"
  by (auto simp: provider_order_row_def split: option.splits)

lemma sound_cancel_row:
  assumes "tget (orders b) oid = Some r" and "or_status r \<noteq> OrPaid"
  shows "sound b ((lock_balance t ws b)\<lparr>orders := tput oid (r\<lparr>or_status := OrCancelled, or_cancelled_at := c, or_reason := why, or_checkout_url := None\<rparr>) (orders b)\<rparr>)"
  using assms sound_trans [OF sound_lock sound_unpaid_order [where b = "lock_balance t ws b"]] by (simp add: order_keeps_def)

lemma sound_cancel_uncreated: "cancel_uncreated_order provider t oid b = Inr b' \<Longrightarrow> sound b b'"
  by (auto simp: cancel_uncreated_order_def rbind_Inr_iff provider_order_row_Inr Let_def sound_cancel_row split: if_splits)

lemma sound_cancel_by_receipt: "cancel_by_receipt provider t rc b = Inr (a, b') \<Longrightarrow> sound b b'"
  unfolding cancel_by_receipt_def rbind_Inr_iff provider_order_row_Inr Let_def lock_fields
  by (elim exE conjE, split if_split_asm, simp, split if_split_asm, simp) (auto simp only: sum.inject prod.inject sound_lock intro!: sound_cancel_row)

section \<open>Payments\<close>

lemma receipt_conflict_Inr [simp]: "receipt_conflict res = Inr x \<longleftrightarrow> res = Inr x"
  by (auto simp: receipt_conflict_def split: sum.splits billing_error.splits)

text \<open>The rows a paid subscription writes.\<close>

lemma applied:
  assumes "apply_subscription cat now lid oid r b = Inr b'"
  obtains b2 r1 where "orders b2 = tput oid r1 (orders b)" "ledger b2 = ledger b" "usage b2 = usage b" "r1\<lparr>or_product := or_product r\<rparr> = r" "advances b2 b'"
proof -
  from assms obtain product where pd: "or_product r = Some product" by (auto simp: apply_subscription_def split: option.splits)
  let ?start = "fold max (open_ends (or_workspace r) b) now"
  let ?r1 = "r\<lparr>or_product := Some (product\<lparr>pd_term := Some (?start, add_months ?start (cycle_months (pd_cycle product)))\<rparr>)\<rparr>"
  from assms pd obtain b1 s where ins: "insert_term oid s b = Inr b1"
    and rest: "(if ?start \<le> now then ensure_period_allowance cat now lid (or_workspace r) (b1\<lparr>orders := tput oid ?r1 (orders b1)\<rparr>)
      else Inr (b1\<lparr>orders := tput oid ?r1 (orders b1)\<rparr>)) = Inr b'"
    by (auto simp: apply_subscription_def Let_def rbind_Inr_iff)
  let ?b2 = "b1\<lparr>orders := tput oid ?r1 (orders b1)\<rparr>"
  from ins have "orders b1 = orders b" "ledger b1 = ledger b" "usage b1 = usage b" by (auto simp: insert_term_def split: if_splits)
  moreover from rest have "advances ?b2 b'"
  proof (cases "?start \<le> now")
    case True
    with rest have "ensure_period_allowance cat now lid (or_workspace r) ?b2 = Inr b'" by (simp only: if_True)
    then show ?thesis by (rule advances_allowance)
  next
    case False
    with rest have "b' = ?b2" by (simp only: if_False sum.inject)
    then show ?thesis by (simp only: advances_refl)
  qed
  ultimately show thesis by (intro that [of ?b2 ?r1]) simp_all
qed

lemma sound_settle_payment:
  assumes "settle_payment cat fails provider t lid rc b = Inr (a, b')"
  shows "sound b b' \<and> (\<exists>r. tget (orders b') (rc_order rc) = Some r \<and> or_status r = OrPaid \<and> or_payment r = Some (rc_payment rc) \<and> or_provider r = provider \<and>
    or_amount_fen r = rc_amount_fen rc \<and> or_currency r = rc_currency rc)"
proof -
  let ?oid = "rc_order rc"
  from assms obtain r where r: "tget (orders b) ?oid = Some r" "or_provider r = provider"
    by (auto simp: settle_payment_def rbind_Inr_iff provider_order_row_Inr)
  let ?b1 = "lock_balance t (or_workspace r) b"
  let ?r1 = "r\<lparr>or_status := OrPaid, or_paid_at := Some t, or_payment := Some (rc_payment rc)\<rparr>"
  have row: "provider_order_row provider ?oid b = Inr r" using r by (simp add: provider_order_row_Inr)
  have amount: "rc_amount_fen rc = or_amount_fen r" "rc_currency rc = or_currency r"
    using assms by (auto simp: settle_payment_def row rbind_def Let_def split: if_splits)
  show ?thesis
  proof (cases "or_status r = OrPaid")
    case True
    then have "b' = ?b1" "or_payment r = Some (rc_payment rc)" using assms amount by (auto simp: settle_payment_def row rbind_def Let_def split: if_splits)
    with True r amount show ?thesis by simp
  next
    case False
    let ?b2 = "?b1\<lparr>orders := tput ?oid ?r1 (orders ?b1)\<rparr>"
    from assms False amount have fresh: "\<not> list_ex (\<lambda>(i, r'). i \<noteq> ?oid \<and> or_provider r' = or_provider ?r1 \<and> or_payment r' = or_payment ?r1) (orders ?b1)"
      and book: "(case or_kind r of Subscription \<Rightarrow> apply_subscription cat t lid ?oid ?r1 ?b2
        | Topup \<Rightarrow> post_ledger t lid (or_workspace r) (or_credits r) ''topup'' ?oid (''payment:'' @ ?oid) ?b2) = Inr b'"
      using r(2) by (auto simp: settle_payment_def row rbind_Inr_iff Let_def split: if_splits order_kind.split_asm order_kind.split)
    have pay: "or_status ?r1 = OrPaid" "or_payment ?r1 \<noteq> None" "order_keeps r ?r1" "tget (orders ?b1) ?oid = Some r" "or_status r \<noteq> OrPaid"
      using False r by (simp_all add: order_keeps_def)
    have "sound ?b1 b' \<and> (\<exists>r'. tget (orders b') ?oid = Some r' \<and> r'\<lparr>or_product := or_product r\<rparr> = ?r1)"
    proof (cases "or_kind r")
      case Topup
      with book have post: "post_ledger t lid (or_workspace ?r1) (or_credits ?r1) ''topup'' ?oid (''payment:'' @ ?oid) ?b2 = Inr b'" by simp
      have "advances ?b1 ?b2" using pay by (simp add: advances_def row_keeps_put)
      then have "advances ?b1 b'" using advances_post [OF post] by (rule advances_trans)
      moreover have "books_ok b'" if "books_ok ?b1" using books_ok_topup [OF that pay(4,5) _ pay(1,2) Topup fresh post] Topup by simp
      moreover have "tget (orders b') ?oid = Some ?r1" using post by (auto simp: tget_tput elim!: post_ledgerE)
      ultimately show ?thesis unfolding sound_def by auto
    next
      case Subscription
      with book have app: "apply_subscription cat t lid ?oid ?r1 ?b2 = Inr b'" by simp
      from applied [OF app] obtain b3 r1 where b3: "orders b3 = tput ?oid r1 (orders ?b2)" "ledger b3 = ledger b" "usage b3 = usage b"
        and r1: "r1\<lparr>or_product := or_product r\<rparr> = ?r1" and adv3: "advances b3 b'" by auto
      from r1 have "order_keeps r r1" "or_status r1 = OrPaid" using False by (cases r1; cases r; simp add: order_keeps_def)+
      then have "advances ?b1 b3" using b3 r(1) by (simp add: advances_def row_keeps_def tget_tput)
      then have adv: "advances ?b1 b'" using adv3 by (rule advances_trans)
      have "\<exists>r'. tget (orders b') ?oid = Some r' \<and> order_keeps r1 r'" using adv3 b3(1) by (simp add: advances_def row_keeps_def tget_tput)
      with \<open>or_status r1 = OrPaid\<close> r1 have row: "\<exists>r'. tget (orders b') ?oid = Some r' \<and> r'\<lparr>or_product := or_product r\<rparr> = ?r1" by (auto simp: order_keeps_def)
      have "books_ok b'" if "books_ok ?b1" using books_ok_subscribe [OF that pay(4,5) Subscription _ pay(1,2) fresh app] Subscription by simp
      with adv row show ?thesis unfolding sound_def by blast
    qed
    then obtain r' where "sound ?b1 b'" and r': "tget (orders b') ?oid = Some r'" "r'\<lparr>or_product := or_product r\<rparr> = ?r1" by blast
    from r'(2) have "or_status r' = OrPaid" "or_payment r' = Some (rc_payment rc)" "or_provider r' = provider" "or_amount_fen r' = or_amount_fen r" "or_currency r' = or_currency r"
      using r(2) by (cases r'; cases r; simp)+
    moreover have "sound b b'" using \<open>sound ?b1 b'\<close> by (rule sound_trans [OF sound_lock])
    ultimately show ?thesis using amount r'(1) by simp
  qed
qed

section \<open>Operators\<close>

lemma sound_settle_rebate:
  assumes "settle_rebate t lid rid ws month rebate b = Inr (x, b')"
  shows "sound b b'"
proof (cases "tget (rebates b) (ws, month)")
  case (Some paid)
  then show ?thesis using assms by (auto simp: settle_rebate_def)
next
  case None
  with assms obtain b2 where b2: "(if rebate > 0 then post_ledger t lid ws rebate ''rebate'' rid (''rebate:'' @ ws @ '':'' @ month) (lock_balance t ws b)
      else Inr (lock_balance t ws b)) = Inr b2" and b': "b' = b2\<lparr>rebates := tput (ws, month) rebate (rebates b2)\<rparr>"
    by (auto simp: settle_rebate_def rbind_Inr_iff Let_def)
  from b2 have "sound (lock_balance t ws b) b2"
    by (cases "rebate > 0") (auto intro: sound_plain_post [OF _ plain_keys(2)])
  then have "sound b b2" by (rule sound_trans [OF sound_lock])
  then show ?thesis unfolding b' using sound_other(2) by (rule sound_trans)
qed

text \<open>Changes of terms.\<close>

lemma sound_terms: "(terms_ok (orders b) (subs b) \<Longrightarrow> terms_ok (orders b) ss) \<Longrightarrow> sound b (b\<lparr>subs := ss\<rparr>)"
  by (simp add: sound_def books_ok_def entries_ok_def advances_def)

lemma terms_ok_replace:
  assumes "terms_ok os ss" and "tget ss i = Some s0" and "sb_order s = sb_order s0" and "sb_starts s < sb_ends s"
    and "\<And>j s'. tget ss j = Some s' \<Longrightarrow> j \<noteq> i \<Longrightarrow> sb_workspace s' = sb_workspace s \<Longrightarrow> sb_cancelled s' = None \<Longrightarrow> sb_cancelled s = None \<Longrightarrow> apart s s'"
  shows "terms_ok os (tput i s ss)"
proof -
  have pos: "sb_starts s' < sb_ends s' \<and> (\<forall>oid. sb_order s' = Some oid \<longrightarrow> oid = j)" if "tget (tput i s ss) j = Some s'" for j s'
    using that assms(1-4) unfolding terms_ok_def by (auto simp: tget_tput split: if_splits)
  have far: "apart s1 s2" if "tget (tput i s ss) j = Some s1" "tget (tput i s ss) k = Some s2" "j \<noteq> k" "sb_workspace s1 = sb_workspace s2"
      "sb_cancelled s1 = None" "sb_cancelled s2 = None" for j k s1 s2
  proof -
    consider "j = i" | "j \<noteq> i" "k = i" | "j \<noteq> i" "k \<noteq> i" by blast
    then show ?thesis
    proof cases
      case 1
      with that assms(5) [of k s2] show ?thesis by (simp add: tget_tput)
    next
      case 2
      with that assms(5) [of j s1] have "apart s s1" "s2 = s" by (simp_all add: tget_tput)
      then show ?thesis by (auto simp: apart_def)
    next
      case 3
      with that have "tget ss j = Some s1" "tget ss k = Some s2" by (simp_all add: tget_tput)
      with that assms(1) show ?thesis unfolding terms_ok_def by blast
    qed
  qed
  have "(\<exists>s'. tget (tput i s ss) oid = Some s' \<and> sb_order s' = Some oid) \<longleftrightarrow> paid_term os oid" for oid
  proof -
    have "(\<exists>s'. tget ss oid = Some s' \<and> sb_order s' = Some oid) \<longleftrightarrow> paid_term os oid" using assms(1) unfolding terms_ok_def by blast
    then show ?thesis using assms(2,3) by (auto simp: tget_tput)
  qed
  with pos far show ?thesis unfolding terms_ok_def by blast
qed

lemma sound_admin_action:
  assumes "run_admin_action cat revision now ws c action b = Inr (changed, b')"
  shows "sound b b'"
proof (cases action)
  case (CreditGrant credits)
  then show ?thesis using assms by (auto simp: run_admin_action_def rbind_Inr_iff intro: sound_plain_post [OF _ plain_keys(3)])
next
  case (SubscriptionGrant pid cyc)
  with assms obtain s where ins: "insert_term (ac_fresh c) s b = Inr b'" and s: "sb_starts s = fold max (open_ends (sb_workspace s) b) now" "sb_order s = None"
    by (auto simp: run_admin_action_def rbind_Inr_iff Let_def split: option.splits if_splits)
  from ins have b': "b' = b\<lparr>subs := tput (ac_fresh c) s (subs b)\<rparr>" and fresh: "tget (subs b) (ac_fresh c) = None"
    by (auto simp: insert_term_def split: if_splits)
  have "terms_ok (orders b) (tput (ac_fresh c) s (subs b))" if ok: "terms_ok (orders b) (subs b)"
  proof -
    have "(\<exists>s'. tget (subs b) (ac_fresh c) = Some s' \<and> sb_order s' = Some (ac_fresh c)) \<longleftrightarrow> paid_term (orders b) (ac_fresh c)"
      using ok unfolding terms_ok_def by blast
    with fresh have "\<not> paid_term (orders b) (ac_fresh c)" by simp
    from terms_ok_insert [OF ok ins s(1) _ _ this, of "orders b"] s(2) show ?thesis by auto
  qed
  then show ?thesis unfolding b' by (rule sound_terms)
next
  case (SubscriptionChange sid expected pid finish)
  let ?p = "the (plan_of cat pid)"
  from SubscriptionChange assms obtain s where s: "tget (subs b) sid = Some s" "sb_workspace s = ws" and fin: "\<not> finish \<le> max now (sb_starts s)"
    and clear: "\<not> list_ex (\<lambda>(i, s'). i \<noteq> sid \<and> sb_workspace s' = ws \<and> sb_cancelled s' = None \<and> sb_starts s' < finish \<and> sb_starts s < sb_ends s') (subs b)"
    and b': "b' = b\<lparr>subs := tput sid (s\<lparr>sb_plan := ?p, sb_ends := finish\<rparr>) (subs b)\<rparr>"
    by (auto simp: run_admin_action_def rbind_Inr_iff Let_def split: option.splits if_splits)
  have far: "apart (s\<lparr>sb_plan := ?p, sb_ends := finish\<rparr>) s'" if "tget (subs b) j = Some s'" "j \<noteq> sid" "sb_workspace s' = ws" "sb_cancelled s' = None" for j s'
    using clear tget_in [OF that(1)] that(2-4) by (force simp: list_ex_iff apart_def)
  show ?thesis unfolding b'
    by (rule sound_terms, rule terms_ok_replace [OF _ s(1)]) (use fin far s(2) in auto)
next
  case (SubscriptionCancel sid expected)
  with assms obtain s where s: "tget (subs b) sid = Some s" and b': "b' = b\<lparr>subs := tput sid (s\<lparr>sb_cancelled := Some now\<rparr>) (subs b)\<rparr>"
    by (auto simp: run_admin_action_def rbind_Inr_iff Let_def split: option.splits if_splits)
  have "sb_starts s < sb_ends s" if "terms_ok (orders b) (subs b)" using that s unfolding terms_ok_def by blast
  then show ?thesis unfolding b' by (intro sound_terms terms_ok_replace [OF _ s]) simp_all
qed

lemma sound_manage_billing:
  assumes "manage_billing cat revision fails now ws c action allowance_id b = Inr (x, b')"
  shows "sound b b'"
proof (cases "tget (receipts b) (ac_receipt c)")
  case (Some previous)
  then show ?thesis using assms by (auto simp: manage_billing_def Let_def split: if_splits prod.splits)
next
  case None
  let ?b1 = "lock_balance now ws b"
  let ?finish = "\<lambda>changed b2. case changed of
      Some (_, s) \<Rightarrow> if sb_cancelled s = None
        then rbind (if sb_starts s \<le> now then ensure_period_allowance cat now allowance_id ws b2 else Inr b2)
          (\<lambda>b3. if fails then Inl Unexpected else Inr b3)
        else Inr b2
    | None \<Rightarrow> Inr b2"
  from assms None obtain changed b2 b3 where run: "run_admin_action cat revision now ws c action ?b1 = Inr (changed, b2)" and fin: "?finish changed b2 = Inr b3"
    and b': "b' = b3\<lparr>receipts := tput (ac_receipt c) (ac_intent c, balance_of ws b3) (receipts b3)\<rparr>"
    unfolding manage_billing_def Let_def lock_fields rbind_Inr_iff by (auto simp: rbind_Inr_iff split: if_split_asm prod.splits)
  have "sound b2 b3" using fin by (auto simp: rbind_Inr_iff intro: sound_allowance split: option.splits if_splits)
  with sound_trans [OF sound_lock sound_admin_action [OF run]] have "sound b b3" by (rule sound_trans)
  then show ?thesis unfolding b' using sound_other(3) by (rule sound_trans)
qed

section \<open>Runs\<close>

text \<open>
  The accounts with the meters of the calls in flight. A transaction that raises is rolled back and changes nothing. Configuration, clock readings and identifiers are arbitrary at
  every step.
\<close>

type_synonym accounts = "books \<times> meter list"

inductive billing_step :: "accounts \<Rightarrow> accounts \<Rightarrow> bool" where
  precheck: "precheck_balance mode cat now lid ws b = Inr b' \<Longrightarrow> billing_step (b, ms) (b', ms)"
| start: "meter_start mode cat now lid eid session_id workspace preview kind b = Inr (m, b') \<Longrightarrow>
    billing_step (b, ms) (b', (case m of None \<Rightarrow> ms | Some me \<Rightarrow> me # ms))"
| finish: "me \<in> set ms \<Longrightarrow> meter_finish t lid me reported b = Inr (c, b') \<Longrightarrow> billing_step (b, ms) (b', ms)"
| media: "settle_media mode t lid eid key ws session_id kind credits cost quantity_known b = Inr (c, b') \<Longrightarrow> billing_step (b, ms) (b', ms)"
| view: "ensure_period_allowance cat now lid ws (lock_balance now ws b) = Inr b' \<Longrightarrow> billing_step (b, ms) (b', ms)"
| order: "create_order cat t fresh ws user provider request_key amount_fen kind plan_id cyc b = Inr (oid, b') \<Longrightarrow> billing_step (b, ms) (b', ms)"
| checkout: "save_checkout refresh t ws oid url provider_order b = Inr (r, b') \<Longrightarrow> billing_step (b, ms) (b', ms)"
| app_checkout: "save_app_checkout t ws oid provider_order b = Inr (r, b') \<Longrightarrow> billing_step (b, ms) (b', ms)"
| uncreated: "cancel_uncreated_order provider t oid b = Inr b' \<Longrightarrow> billing_step (b, ms) (b', ms)"
| closed: "cancel_by_receipt provider t rc b = Inr (a, b') \<Longrightarrow> billing_step (b, ms) (b', ms)"
| payment: "settle_payment cat fails provider t lid rc b = Inr (a, b') \<Longrightarrow> billing_step (b, ms) (b', ms)"
| rebate: "settle_rebate t lid rid ws month amount b = Inr (x, b') \<Longrightarrow> billing_step (b, ms) (b', ms)"
| admin: "manage_billing cat revision fails now ws c action allowance_id b = Inr (x, b') \<Longrightarrow> billing_step (b, ms) (b', ms)"

definition empty_books :: books where
  "empty_books = \<lparr>balances = [], ledger = [], usage = [], orders = [], order_requests = [], subs = [], rebates = [], receipts = []\<rparr>"

definition meter_ok :: "books \<Rightarrow> meter \<Rightarrow> bool" where
  "meter_ok b me \<longleftrightarrow> (\<exists>u. tget (usage b) (me_event me) = Some u \<and> us_workspace u = me_workspace me)"

definition accounts_ok :: "accounts \<Rightarrow> bool" where
  "accounts_ok s \<longleftrightarrow> books_ok (fst s) \<and> (\<forall>me \<in> set (snd s). meter_ok (fst s) me)"

lemma meter_ok_advances: "advances b b' \<Longrightarrow> meter_ok b me \<Longrightarrow> meter_ok b' me"
  unfolding advances_def row_keeps_def meter_ok_def usage_keeps_def by metis

lemma empty_accounts_ok [simp]: "accounts_ok (empty_books, [])"
  by (simp add: accounts_ok_def books_ok_def ledger_ok_def entries_ok_def terms_ok_def payments_ok_def empty_books_def twf_def balance_of_def sum_of_def tget_def
    order_entry_def usage_entry_def paid_term_def entry_def)

lemma billing_step_sound:
  assumes "billing_step s s'" and "accounts_ok s"
  shows "sound (fst s) (fst s') \<and> set (snd s) \<subseteq> set (snd s') \<and> (\<forall>me \<in> set (snd s') - set (snd s). meter_ok (fst s') me)"
  using assms
proof (cases rule: billing_step.cases)
  case (start mode cat now lid eid session_id workspace preview kind b m b' ms)
  with sound_start [OF start(3)] show ?thesis by (auto simp: meter_ok_def split: option.splits)
next
  case (finish me ms t lid reported b c b')
  then have "meter_ok b me" using assms(2) by (simp add: accounts_ok_def)
  then have "sound b b'" by (intro sound_finish [OF finish(4)]) (auto simp: meter_ok_def)
  with finish show ?thesis by simp
qed (auto dest: sound_precheck sound_media sound_create_order sound_save_checkout sound_save_app_checkout sound_cancel_uncreated sound_cancel_by_receipt
  sound_settle_payment sound_settle_rebate sound_manage_billing sound_allowance intro: sound_trans [OF sound_lock])

lemma billing_step_advances:
  assumes "accounts_ok s" and "billing_step s s'"
  shows "accounts_ok s' \<and> advances (fst s) (fst s')"
proof -
  note step = billing_step_sound [OF assms(2,1)]
  then have adv: "books_ok (fst s')" "advances (fst s) (fst s')" using assms(1) by (simp_all add: sound_def accounts_ok_def)
  have "meter_ok (fst s') me" if "me \<in> set (snd s')" for me
    using that step assms(1) meter_ok_advances [OF adv(2)] by (cases "me \<in> set (snd s)") (auto simp: accounts_ok_def)
  with adv show ?thesis by (simp add: accounts_ok_def)
qed

interpretation order_rows: evolving_rows billing_step accounts_ok "\<lambda>s. tget (orders (fst s))" order_keeps
  by unfold_locales (auto dest: billing_step_advances history_trans simp: advances_def row_keeps_def)

interpretation usage_rows: evolving_rows billing_step accounts_ok "\<lambda>s. tget (usage (fst s))" usage_keeps
  by unfold_locales (auto dest: billing_step_advances history_trans simp: advances_def row_keeps_def)

lemma billing_steps_ledger:
  assumes "billing_step\<^sup>*\<^sup>* s s'" and "accounts_ok s"
  shows "\<exists>new. ledger (fst s') = ledger (fst s) @ new"
  using assms(1)
proof (induction rule: rtranclp_induct)
  case (step t u)
  with billing_step_advances [OF order_rows.inv_steps [OF step(1) assms(2)] step(2)] show ?case by (auto simp: advances_def)
qed simp

end
