(* ===== verification/Billing_Examples.thy ===== *)
theory Billing_Examples
  imports Billing_Steps
begin

text \<open>Concrete runs of the accounts of one workspace, at the start of 1970: a granted credit and a metered call, a year and a month granted in sequence, a paid order.\<close>

definition ex_catalog :: plan_catalog where
  "ex_catalog = \<lparr>pc_version = ''v1'', pc_plans = [\<lparr>pl_id = ''free'', pl_monthly_fen = 0, pl_yearly_fen = 0, pl_credits = 10, pl_period = Weekly\<rparr>,
     \<lparr>pl_id = ''pro'', pl_monthly_fen = 4900, pl_yearly_fen = 49000, pl_credits = 100, pl_period = Monthly\<rparr>], pc_min_topup = 100, pc_max_topup = 100000\<rparr>"

definition ex_admin :: "ident \<Rightarrow> admin_action \<Rightarrow> books \<Rightarrow> billing_error + rat \<times> books" where
  "ex_admin i action = manage_billing ex_catalog (\<lambda>_ _. []) False 0 ''w'' \<lparr>ac_is_admin = True, ac_workspace_known = True, ac_account_available = True,
     ac_receipt = i, ac_intent = i, ac_fresh = ''t'' @ i, ac_ledger_id = ''l'' @ i\<rparr> action (''a'' @ i)"

definition resulting :: "billing_error + 'a \<times> books \<Rightarrow> books" where
  "resulting res = (case res of Inr (_, b) \<Rightarrow> b | Inl _ \<Rightarrow> empty_books)"

definition ex_start :: "books \<Rightarrow> billing_error + meter option \<times> books" where
  "ex_start = meter_start Enforce ex_catalog 0 ''l2'' ''e'' ''s'' (Some ''w'') (Some 0) ''chat''"

definition ex_meter :: meter where
  "ex_meter = \<lparr>me_event = ''e'', me_workspace = ''w'', me_mode = Enforce\<rparr>"

definition ex_finish :: "books \<Rightarrow> billing_error + rat option \<times> books" where
  "ex_finish = meter_finish 1 ''l3'' ex_meter (Some \<lparr>pu_tokens = 7, pu_credits = Some 3, pu_cost = Some 1\<rparr>)"

definition ex_purchase :: "books \<Rightarrow> billing_error + ident \<times> books" where
  "ex_purchase = create_order ex_catalog 0 ''o'' ''w'' ''u'' ''pay'' ''k'' None Subscription ''pro'' MonthlyCycle"

definition ex_receipt :: receipt where
  "ex_receipt = \<lparr>rc_order = ''o'', rc_payment = ''p1'', rc_amount_fen = 4900, rc_currency = ''CNY''\<rparr>"

definition ex_settle :: "books \<Rightarrow> billing_error + receipt_answer \<times> books" where
  "ex_settle = settle_payment ex_catalog False ''pay'' 0 ''l1'' ex_receipt"

definition ex_credit :: books where "ex_credit = resulting (ex_admin ''1'' (CreditGrant 5) empty_books)"
definition ex_term :: books where "ex_term = resulting (ex_admin ''1'' (SubscriptionGrant ''pro'' YearlyCycle) empty_books)"
definition ex_terms :: books where "ex_terms = resulting (ex_admin ''2'' (SubscriptionGrant ''pro'' MonthlyCycle) ex_term)"
definition ex_metered :: books where "ex_metered = resulting (ex_start ex_credit)"
definition ex_charged :: books where "ex_charged = resulting (ex_finish ex_metered)"
definition ex_ordered :: books where "ex_ordered = resulting (ex_purchase empty_books)"
definition ex_paid :: books where "ex_paid = resulting (ex_settle ex_ordered)"

lemma ex_dates:
  "add_months 0 1 = 2678400000000" "add_months 0 12 = 31536000000000" "add_months 0 120 = 315532800000000" "add_months 31536000000000 1 = 34214400000000"
  by (code_simp, code_simp, code_simp, code_simp)

lemmas table_defs = lock_balance_def balance_of_def tget_def tput_def key_used_def post_ledger_def empty_books_def Let_def
lemmas plan_defs = ex_catalog_def plan_of_def open_ends_def insert_term_def cycle_months_def ensure_period_allowance_def active_subscription_def term_active_def ex_dates
lemmas admin_defs = ex_admin_def manage_billing_def run_admin_action_def
lemmas meter_defs = ex_start_def meter_start_def ex_finish_def meter_finish_def insert_usage_def charge_status_def ex_meter_def allowance_key_def
lemmas order_defs = ex_purchase_def create_order_def known_order_def priced_product_def reusable_order_def insert_order_def
lemmas payment_defs = ex_settle_def settle_payment_def provider_order_row_def ex_receipt_def apply_subscription_def receipt_conflict_def

lemma ex_credit_books: "ex_admin ''1'' (CreditGrant 5) empty_books = Inr (5, ex_credit)"
  by (simp add: ex_credit_def resulting_def admin_defs table_defs)

lemma ex_term_books: "ex_admin ''1'' (SubscriptionGrant ''pro'' YearlyCycle) empty_books = Inr (100, ex_term)"
  by (simp add: ex_term_def resulting_def admin_defs plan_defs table_defs)

lemma ex_terms_books: "ex_admin ''2'' (SubscriptionGrant ''pro'' MonthlyCycle) ex_term = Inr (100, ex_terms)"
  by (simp add: ex_terms_def ex_term_def resulting_def admin_defs plan_defs table_defs)

lemma ex_metered_books: "ex_start ex_credit = Inr (Some ex_meter, ex_metered)"
  by (simp add: ex_metered_def ex_credit_def resulting_def admin_defs meter_defs plan_defs table_defs)

lemma ex_charged_books: "ex_finish ex_metered = Inr (Some 3, ex_charged)"
  by (simp add: ex_charged_def ex_metered_def ex_credit_def resulting_def admin_defs meter_defs plan_defs table_defs)

lemma ex_ordered_books: "ex_purchase empty_books = Inr (''o'', ex_ordered)"
  by (simp add: ex_ordered_def resulting_def order_defs plan_defs table_defs)

lemma ex_paid_books: "ex_settle ex_ordered = Inr (Accepted False, ex_paid)"
  by (simp add: ex_paid_def ex_ordered_def resulting_def order_defs payment_defs plan_defs table_defs)

lemma ex_admin_step: "ex_admin i action b = Inr (x, b') \<Longrightarrow> billing_step (b, ms) (b', ms)"
  unfolding ex_admin_def by (rule billing_step.admin)

lemma ex_credit_run: "billing_step\<^sup>*\<^sup>* (empty_books, []) (ex_credit, [])"
  by (rule r_into_rtranclp, rule ex_admin_step, rule ex_credit_books)

lemma ex_terms_run: "billing_step\<^sup>*\<^sup>* (empty_books, []) (ex_terms, [])"
  using ex_admin_step [OF ex_term_books] ex_admin_step [OF ex_terms_books] by (meson converse_rtranclp_into_rtranclp r_into_rtranclp)

lemma ex_metered_run: "billing_step\<^sup>*\<^sup>* (empty_books, []) (ex_metered, [ex_meter])"
  using ex_credit_run billing_step.start [OF ex_metered_books [unfolded ex_start_def], of "[]"] by (simp add: rtranclp.rtrancl_into_rtrancl)

lemma ex_ordered_run: "billing_step\<^sup>*\<^sup>* (empty_books, []) (ex_ordered, [])"
  by (rule r_into_rtranclp, rule billing_step.order, rule ex_ordered_books [unfolded ex_purchase_def])

end
