(* ===== verification/Billing_Properties.thy ===== *)
theory Billing_Properties
  imports Billing_Examples
begin

text \<open>
  What the accounts guarantee over all runs: the balance is the sum of an append-only ledger, a payment and a metered call are booked once, prepaid terms never overlap.
\<close>

section \<open>Entries by key\<close>

definition entries_of :: "string \<Rightarrow> books \<Rightarrow> ledger_row list" where
  "entries_of key b = map snd (filter (\<lambda>(_, l). lg_key l = key) (ledger b))"

lemma filter_distinct_key:
  "distinct (map f xs) \<Longrightarrow> filter (\<lambda>x. f x = k) xs = (case find (\<lambda>x. f x = k) xs of None \<Rightarrow> [] | Some x \<Rightarrow> [x])"
proof (induction xs)
  case (Cons x xs)
  have "filter (\<lambda>x. f x = k) xs = []" if "f x = k" using that Cons.prems by (auto simp: filter_empty_conv image_iff)
  with Cons show ?case by auto
qed simp

lemma entries_of_entry:
  assumes "ledger_ok b"
  shows "entries_of key b = (case entry key b of None \<Rightarrow> [] | Some l \<Rightarrow> [l])"
proof -
  have "distinct (map (lg_key \<circ> snd) (ledger b))" using assms by (simp add: ledger_ok_def)
  moreover have by_key: "(\<lambda>(_, l). lg_key l = key) = (\<lambda>x. (lg_key \<circ> snd) x = key)" by auto
  ultimately show ?thesis
    using filter_distinct_key [of "lg_key \<circ> snd" "ledger b" key] unfolding entries_of_def entry_def by_key by (simp split: option.splits)
qed

lemma reached_ok: "billing_step\<^sup>*\<^sup>* (empty_books, []) s \<Longrightarrow> accounts_ok s"
  by (erule order_rows.inv_steps) simp

section \<open>The ledger\<close>

text \<open>
  C14. In every state the accounts can reach, the balance of each workspace is the sum of its ledger entries, no idempotency key is used twice and every entry records the running
  total after it; entries once posted stay, in their order, in all later states.
\<close>

theorem balance_is_ledger_sum:
  assumes "billing_step\<^sup>*\<^sup>* (empty_books, []) (b, ms)" and "billing_step\<^sup>*\<^sup>* (b, ms) (b', ms')"
  shows "balance_of ws b' = sum_of ws (ledger b') \<and> distinct (map (lg_key \<circ> snd) (ledger b')) \<and>
    (\<forall>before i l after. ledger b' = before @ (i, l) # after \<longrightarrow> lg_after l = sum_of (lg_workspace l) before + lg_amount l) \<and>
    (\<exists>new. ledger b' = ledger b @ new)"
proof -
  note ok = reached_ok [OF assms(1)]
  from order_rows.inv_steps [OF assms(2) ok] have "ledger_ok b'" by (simp add: accounts_ok_def books_ok_def)
  moreover have "\<exists>new. ledger b' = ledger b @ new" using billing_steps_ledger [OF assms(2) ok] by simp
  ultimately show ?thesis unfolding ledger_ok_def by blast
qed

theorem balance_is_ledger_sum_witness:
  "balance_of ''w'' ex_metered = sum_of ''w'' (ledger ex_metered) \<and> (\<exists>new. ledger ex_metered = ledger ex_credit @ new)"
proof -
  have "billing_step\<^sup>*\<^sup>* (ex_credit, []) (ex_metered, [ex_meter])"
    using billing_step.start [OF ex_metered_books [unfolded ex_start_def], of "[]"] by auto
  from balance_is_ledger_sum [OF ex_credit_run this, of "''w''"] show ?thesis by blast
qed

section \<open>Payments\<close>

text \<open>
  C15. After a verified payment was settled, in every later state the order is paid with that payment; the same receipt again is accepted as a duplicate and changes nothing, a receipt
  for it with another payment is refused; a top-up has exactly one ledger entry, of the credits of the order to its workspace, a subscription exactly one term; and no other order of
  the provider carries the payment.
\<close>

theorem payment_credited_once:
  assumes "billing_step\<^sup>*\<^sup>* (empty_books, []) (b, ms)" and paid: "settle_payment cat fails provider t lid rc b = Inr (a, b1)"
    and later: "billing_step\<^sup>*\<^sup>* (b1, ms) (b2, ms2)"
  shows "\<exists>r. tget (orders b2) (rc_order rc) = Some r \<and> or_status r = OrPaid \<and> or_payment r = Some (rc_payment rc) \<and>
    settle_payment cat' fails' provider t' lid' rc b2 = Inr (Accepted True, lock_balance t' (or_workspace r) b2) \<and>
    (\<forall>rc'. rc_order rc' = rc_order rc \<and> rc_payment rc' \<noteq> rc_payment rc \<longrightarrow> (\<exists>e. settle_payment cat' fails' provider t' lid' rc' b2 = Inl e)) \<and>
    (or_kind r = Topup \<longrightarrow> map (\<lambda>l. (lg_workspace l, lg_amount l)) (entries_of (''payment:'' @ rc_order rc) b2) = [(or_workspace r, or_credits r)]) \<and>
    (or_kind r = Subscription \<longrightarrow> (\<exists>!i. \<exists>s. tget (subs b2) i = Some s \<and> sb_order s = Some (rc_order rc))) \<and>
    (\<forall>oid r'. tget (orders b2) oid = Some r' \<and> or_provider r' = provider \<and> or_payment r' = Some (rc_payment rc) \<longrightarrow> oid = rc_order rc)"
proof -
  have "billing_step (b, ms) (b1, ms)" using paid by (rule billing_step.payment)
  with reached_ok [OF assms(1)] have ok1: "accounts_ok (b1, ms)" by (blast dest: billing_step_advances)
  from sound_settle_payment [OF paid] obtain r where r: "tget (orders b1) (rc_order rc) = Some r" "or_status r = OrPaid" "or_payment r = Some (rc_payment rc)"
    "or_provider r = provider" "or_amount_fen r = rc_amount_fen rc" "or_currency r = rc_currency rc" by blast
  from order_rows.row_steps [OF later ok1, of "rc_order rc" r] r have r2: "tget (orders b2) (rc_order rc) = Some r" by (auto simp: order_keeps_def)
  have ok2: "books_ok b2" using order_rows.inv_steps [OF later ok1] by (simp add: accounts_ok_def)
  have row: "provider_order_row provider (rc_order rc) b2 = Inr r" using r(4) r2 by (simp add: provider_order_row_Inr)
  have "settle_payment cat' fails' provider t' lid' rc b2 = Inr (Accepted True, lock_balance t' (or_workspace r) b2)"
    using r by (simp add: settle_payment_def row)
  moreover have "\<exists>e. settle_payment cat' fails' provider t' lid' rc' b2 = Inl e" if "rc_order rc' = rc_order rc" "rc_payment rc' \<noteq> rc_payment rc" for rc'
    using r that by (simp add: settle_payment_def row Let_def)
  moreover have "order_entry (Some r) (entry (''payment:'' @ rc_order rc) b2)" using ok2 r2 unfolding books_ok_def entries_ok_def by metis
  then have "map (\<lambda>l. (lg_workspace l, lg_amount l)) (entries_of (''payment:'' @ rc_order rc) b2) = [(or_workspace r, or_credits r)]" if "or_kind r = Topup"
    using that r(2) entries_of_entry [of b2] ok2 by (auto simp: order_entry_def books_ok_def)
  moreover have "\<exists>!i. \<exists>s. tget (subs b2) i = Some s \<and> sb_order s = Some (rc_order rc)" if "or_kind r = Subscription"
  proof -
    have "paid_term (orders b2) (rc_order rc)" using that r(2) r2 by (simp add: paid_term_def)
    with ok2 show ?thesis unfolding books_ok_def terms_ok_def by metis
  qed
  moreover have "oid = rc_order rc" if "tget (orders b2) oid = Some r'" "or_provider r' = provider" "or_payment r' = Some (rc_payment rc)" for oid r'
    using that r(3,4) r2 ok2 unfolding books_ok_def payments_ok_def by (metis option.distinct(1))
  ultimately show ?thesis using r2 r(2,3) by (intro exI [of _ r] conjI allI impI) blast+
qed

theorem payment_credited_once_witness:
  "\<exists>r. tget (orders ex_paid) ''o'' = Some r \<and> or_status r = OrPaid \<and>
    settle_payment ex_catalog False ''pay'' 5 ''l9'' ex_receipt ex_paid = Inr (Accepted True, lock_balance 5 (or_workspace r) ex_paid)"
  using payment_credited_once [OF ex_ordered_run ex_paid_books [unfolded ex_settle_def] rtranclp.rtrancl_refl, of ex_catalog False 5 "''l9''"]
  by (auto simp: ex_receipt_def)

section \<open>Metered calls\<close>

text \<open>
  C16. After the meter of a model call was finished, in every later state its event is settled; finishing it again, with whatever usage, returns what the event says and changes
  nothing; the event has exactly one ledger entry, of minus its credits in the workspace of the meter, when it was charged, and none otherwise.
\<close>

theorem usage_charged_once:
  assumes "billing_step\<^sup>*\<^sup>* (empty_books, []) (b, ms)" and "me \<in> set ms" and finish: "meter_finish t lid me reported b = Inr (c, b1)"
    and later: "billing_step\<^sup>*\<^sup>* (b1, ms) (b2, ms2)"
  shows "\<exists>u. tget (usage b2) (me_event me) = Some u \<and> us_status u \<noteq> UsPending \<and>
    meter_finish t' lid' me reported' b2 = Inr (us_credits u, lock_balance t' (me_workspace me) b2) \<and>
    map (\<lambda>l. (lg_workspace l, Some (- lg_amount l))) (entries_of (''usage:'' @ me_event me) b2) =
      (if us_status u = UsCharged then [(me_workspace me, us_credits u)] else [])"
proof -
  note ok = reached_ok [OF assms(1)]
  have "billing_step (b, ms) (b1, ms)" using assms(2) finish by (rule billing_step.finish)
  with ok have ok1: "accounts_ok (b1, ms)" by (blast dest: billing_step_advances)
  obtain u where u: "tget (usage b1) (me_event me) = Some u" "us_status u \<noteq> UsPending" using meter_finish_settles [OF finish] by blast
  from usage_rows.row_steps [OF later ok1, of "me_event me" u] u have u2: "tget (usage b2) (me_event me) = Some u" by (auto simp: usage_keeps_def)
  have ok2: "books_ok b2" using order_rows.inv_steps [OF later ok1] by (simp add: accounts_ok_def)
  have ws: "us_workspace u = me_workspace me" using ok1 assms(2) u(1) by (auto simp: accounts_ok_def meter_ok_def)
  have "meter_finish t' lid' me reported' b2 = Inr (us_credits u, lock_balance t' (me_workspace me) b2)" using u(2) u2 by (simp add: meter_finish_def)
  moreover have "usage_entry (Some u) (entry (''usage:'' @ me_event me) b2)" using ok2 u2 unfolding books_ok_def entries_ok_def by metis
  then have "map (\<lambda>l. (lg_workspace l, Some (- lg_amount l))) (entries_of (''usage:'' @ me_event me) b2) =
      (if us_status u = UsCharged then [(me_workspace me, us_credits u)] else [])"
    using ws entries_of_entry [of b2] ok2 by (auto simp: usage_entry_def books_ok_def split: if_splits)
  ultimately show ?thesis using u2 u(2) by blast
qed

theorem usage_charged_once_witness:
  "\<exists>u. tget (usage ex_charged) ''e'' = Some u \<and> us_status u \<noteq> UsPending \<and>
    meter_finish 9 ''l9'' ex_meter None ex_charged = Inr (us_credits u, lock_balance 9 ''w'' ex_charged)"
  using usage_charged_once [OF ex_metered_run _ ex_charged_books [unfolded ex_finish_def] rtranclp.rtrancl_refl, of 9 "''l9''" None]
  by (auto simp: ex_meter_def)

section \<open>Prepaid terms\<close>

text \<open>
  C17. In every state the accounts can reach, whatever mix of purchases and operator grants, changes and cancellations led there, two different subscription terms of a workspace that
  are not cancelled have no instant in common, and each of them lasts.
\<close>

theorem prepaid_terms_disjoint:
  assumes "billing_step\<^sup>*\<^sup>* (empty_books, []) (b, ms)" and "tget (subs b) i = Some s" and "tget (subs b) j = Some s'" and "i \<noteq> j"
    and "sb_workspace s = sb_workspace s'" and "sb_cancelled s = None" and "sb_cancelled s' = None"
  shows "\<not> (term_active now s \<and> term_active now s') \<and> sb_starts s < sb_ends s"
proof -
  from reached_ok [OF assms(1)] have "terms_ok (orders b) (subs b)" by (simp add: accounts_ok_def books_ok_def)
  then have "apart s s'" "sb_starts s < sb_ends s" using assms(2-7) unfolding terms_ok_def by blast+
  then show ?thesis by (auto simp: apart_def term_active_def)
qed

theorem prepaid_terms_disjoint_witness:
  "\<exists>s s'. tget (subs ex_terms) ''t1'' = Some s \<and> tget (subs ex_terms) ''t2'' = Some s' \<and> \<not> (term_active 31536000000000 s \<and> term_active 31536000000000 s')"
proof -
  have "map (\<lambda>(i, s). (i, sb_workspace s, sb_cancelled s)) (subs ex_terms) = [(''t1'', ''w'', None), (''t2'', ''w'', None)]"
    by (simp add: ex_terms_def ex_term_def resulting_def admin_defs plan_defs table_defs)
  then obtain s s' where s: "tget (subs ex_terms) ''t1'' = Some s" "tget (subs ex_terms) ''t2'' = Some s'"
    "sb_workspace s = ''w''" "sb_workspace s' = ''w''" "sb_cancelled s = None" "sb_cancelled s' = None"
    by (auto simp: tget_def)
  from prepaid_terms_disjoint [OF ex_terms_run s(1,2), of 31536000000000] s show ?thesis by simp
qed

end
