(* ===== verification/Spec2Isabelle.thy ===== *)
theory Spec2Isabelle
  imports Driver_Examples Effect_Examples Scheduler_Theorems Permission_Replies Inbox_Examples Subagent_Properties
    Edit_Properties File_Properties Limit_Properties Billing_Properties
begin

text \<open>
  \<^bold>\<open>A verification library of the OpenBox backend\<close>

  OpenBox runs software agents for many users on many worker processes that share one PostgreSQL
  database. A message of a user enters the \<^emph>\<open>inbox\<close> of its conversation; a worker reserves a
  \<^emph>\<open>run\<close> of the conversation through the \<^emph>\<open>driver\<close>, claims the waiting input, and asks a language
  model for tool calls; the \<^emph>\<open>scheduler\<close> runs these in parallel and commits them in order; each call
  passes the \<^emph>\<open>permission\<close> system; a call with an effect outside the database (a payment, a post, an
  action on a desktop) goes through the \<^emph>\<open>effect ledger\<close> and, when it acts on a shared machine, through
  \<^emph>\<open>resource control\<close>; a call may start a \<^emph>\<open>subagent\<close>, a conversation of its own with a narrowed authority
  whose result returns to the call; the \<^emph>\<open>file tools\<close> edit the files of the sandbox; limits bound what the model is sent
  and how long it is asked; the \<^emph>\<open>accounts\<close> meter each call in credits that users pay for; \<^emph>\<open>abort signals\<close> stop a run. Workers die at any moment, so every hand-over
  is a conditional database transaction with a generation number. This library models those parts,
  the core of \<^verbatim>\<open>src/backend/agent\<close>, the text tools of \<^verbatim>\<open>src/backend/tool\<close> and the ledger of \<^verbatim>\<open>src/backend/billing\<close>, and proves what keeps them correct.

  \<^bold>\<open>Modelling conventions\<close>

  \<^item> A database relation is a table (\<open>OB_Prelude\<close>): an association list from primary keys to rows,
    each row a record with the columns of the SQLAlchemy model. A transaction is a function from
    the tables and an instant of the database clock to new tables, or \<open>Inl\<close> with the exception that
    rolled it back. An operation of several transactions returns the state it left beside its
    result, also when it raises.
  \<^item> A \<^verbatim>\<open>SELECT ... FOR UPDATE\<close> followed by writes is atomic, as the row locks make it. Interleaving is
    between transactions: each component has a step relation with one rule per transaction, and a
    theorem about a run holds for every interleaving of all its operations by any workers.
  \<^item> Instants are integers in microseconds. Fresh identifiers, tokens and clock readings are arguments.
    Python's integers are \<open>int\<close>; strings are lists of characters of the ASCII repertoire.
  \<^item> What is outside \<^verbatim>\<open>src/\<close> or belongs to a part that is not modelled is a parameter: \<open>stdlib\<close> (SHA-256,
    URL splitting), \<open>assistant_ops\<close>, \<open>inbox_ops\<close>, \<open>resource_ops\<close>, \<open>perm_ops\<close> (the assistant's tables, the
    card runtime, file assets, memberships, the policy store), the reconcilers and projections of the
    ledger, the bodies of tool calls, \<open>subagent_lib\<close> (canonical JSON, hashing, rule validation), \<open>runtime_ops\<close> (what the
    subagent runtime calls in parts that are not modelled), \<open>tool_env\<close> (the formatter, the linter and the faults of the sandbox),
    \<open>header_lib\<close> (parsing of numbers and dates), the size of a slice of the history.
    Theorems hold for all of them; where one needs something, the
    hypothesis is named (\<open>hook_keeps_attachment_errors\<close>: the assistant's hook does not raise the
    inbox's own exception; \<open>dumps_revalidate\<close>: a rule that was dumped validates to itself; \<open>hex_digests\<close>:
    a digest is 64 hexadecimal characters).

  \<^bold>\<open>Theories\<close>

  \<^item> \<open>OB_Prelude\<close>: identifiers, time, results, tables, and the contracts shared by the components as
    locales: \<open>keyed_store\<close>, \<open>fencing\<close> (a generation-numbered owner), \<open>invariant_system\<close>,
    \<open>bounded_system\<close>, \<open>evolving_rows\<close>, and \<open>codec\<close> (a writer and its reader).
  \<^item> \<open>Abort_Signals\<close> (\<^verbatim>\<open>session/status.py\<close>): the abort events of a process, per session and per run.
  \<^item> \<open>Driver_Lease\<close> (\<^verbatim>\<open>agent/driver.py\<close>, \<^verbatim>\<open>db/models/agent_driver.py\<close>): \<open>reserve_run\<close>, \<open>renew\<close>,
    \<open>set_phase\<close>, \<open>release\<close>, \<open>preserve_for_recovery\<close>, \<open>request_abort\<close>, the recovery sweep and the run
    fences. \<open>Driver_Invariants\<close> and \<open>Driver_Theorems\<close>: the cluster as a step relation; single flight,
    powerless stale leases, the quota, the recovery marker. \<open>Driver_Examples\<close>: a concrete run.
  \<^item> \<open>Evidence\<close>, \<open>Effect_Rows\<close>, \<open>Effect_Ledger\<close> (\<^verbatim>\<open>agent/effect_ledger.py\<close>, \<^verbatim>\<open>db/models/external_effect.py\<close>):
    identity and redaction of evidence, and prepare, claim, submit, accept, settle, defer, reconcile,
    recover, acknowledge. \<open>Effect_Invariants\<close>, \<open>Effect_Theorems\<close>, \<open>Effect_Recovery\<close>: rows evolve lawfully,
    at most one send, terminal outcomes are stable, recovery converges, evidence is append-only
    and safe to publish; and what a superseded run can no longer do. \<open>Effect_Examples\<close>: witnesses.
  \<^item> \<open>Resource_Control\<close>, \<open>Resource_Theorems\<close> (\<^verbatim>\<open>assistant/resource_control.py\<close> and
    \<^verbatim>\<open>resource_observations.py\<close>): leases on shared desktops, and that a closed one admits nothing.
  \<^item> \<open>Tool_Scheduler\<close>, \<open>Scheduler_Theorems\<close> (\<^verbatim>\<open>agent/tool_scheduler.py\<close>): a group of tool calls as a
    transition system of the scheduling coroutine and its running bodies; order, clean ends, termination.
  \<^item> \<open>Permission\<close> (\<^verbatim>\<open>core/wildcard.py\<close>, \<^verbatim>\<open>permission/permission.py\<close>): patterns, rules, decisions, requests and
    replies. \<open>Permission_Theorems\<close>, \<open>Permission_Requests\<close>, \<open>Permission_Replies\<close>: the language of a
    pattern, final denies, exact grants, and the life of a request.
  \<^item> \<open>Inbox_Rows\<close>, \<open>Inbox\<close>, \<open>Inbox_Recovery\<close> (\<^verbatim>\<open>agent/inbox.py\<close>, \<^verbatim>\<open>agent/input_origin.py\<close>,
    \<^verbatim>\<open>db/models/agent_inbox.py\<close>, \<^verbatim>\<open>assistant/queue.py\<close>, \<^verbatim>\<open>assistant/steering.py\<close>, and the append of
    \<^verbatim>\<open>session/agent_event_log.py\<close>): acceptance, selection at a boundary, claim, cancellation,
    settlement, attachment delivery, takeover, orphan sweep, wake. \<open>Inbox_Invariants\<close>: the shape of
    rows, the event log, and the ties between inputs, messages and events. \<open>Inbox_Loops\<close>: the contract
    \<open>item_loop\<close> of the loops over selected rows and its five instances. \<open>Inbox_Steps\<close>: every transaction
    keeps the invariant; \<open>inbox_step\<close> interleaves them with all driver transactions and with the other
    writers. \<open>Inbox_Theorems\<close>, \<open>Inbox_Guarantees\<close>: input is consumed exactly once and in order, requests
    are idempotent, settlement is complete, stale runs are powerless, the retry loop terminates, the
    main queue is fair, and long operations are sequences of transactions. \<open>Inbox_Examples\<close>: witnesses.
  \<^item> \<open>Subagent_Composition\<close>, \<open>Subagent_Codec\<close>, \<open>Subagent_Authority\<close> (\<^verbatim>\<open>agent/subagent_composition.py\<close>,
    \<^verbatim>\<open>agent/subagent_authority.py\<close>, and the authority a child is accepted with in \<^verbatim>\<open>tool/task.py\<close> and
    \<^verbatim>\<open>agent/subagent_runtime.py\<close>): presets, provider snapshots, compositions and authorities as JSON
    snapshots, their parsers, digests and the composition of a child's boundary with its parent's.
    \<open>Subagent_Narrowing\<close>: a composed boundary denies whatever one of its parts denies.
    \<open>Subagent_Theorems\<close>, \<open>Subagent_Guarantees\<close>: snapshots round-trip (locale \<open>codec\<close>), a stored authority
    is well formed, a chain of delegations only narrows, an unreadable boundary refuses every tool.
  \<^item> \<open>Subagent_Rows\<close>, \<open>Subagent_Acceptance\<close>, \<open>Subagent_Runtime\<close>, \<open>Subagent_Completion\<close>, \<open>Subagent_Delivery\<close>
    (\<^verbatim>\<open>agent/subagent_runtime.py\<close>, \<^verbatim>\<open>db/models/subagent.py\<close>): descriptors, activations and outboxes; spawning and following up,
    claiming and binding an activation to a run of the child, completion from the transcript, interrupts, recovery,
    reports, and delivery of a result into the tool part of the parent. \<open>Subagent_Protocol\<close>: the abstract protocol, ten
    transitions on the state of each activation with its invariant. \<open>Subagent_Refinement\<close>, \<open>Subagent_Safety\<close>: every transaction, interleaved with
    other writers, is a step of the protocol and keeps the rows well formed. \<open>Subagent_Properties\<close>: what follows for the program;
    \<open>Subagent_Examples\<close>: concrete tables.
  \<^item> \<open>Text_Lines\<close>: lines, substrings and whitespace as Python has them. \<open>Edit_Distance\<close>, \<open>Edit_Replace\<close> (\<^verbatim>\<open>tool/edit.py\<close>): the Levenshtein routine, the nine
    matching strategies and \<open>replace\<close>. \<open>File_Tools\<close> (\<^verbatim>\<open>tool/edit.py\<close>, \<^verbatim>\<open>multiedit.py\<close>, \<^verbatim>\<open>write.py\<close>, \<^verbatim>\<open>filetime.py\<close>, \<^verbatim>\<open>tool.py\<close>, and the file server
    of \<^verbatim>\<open>src/container/action_server.py\<close>): the tools around it, on the table of files (\<open>desk\<close>). \<open>Patch_Tool\<close> (\<^verbatim>\<open>tool/apply_patch.py\<close>): the
    patch format, hunks, and the tool. \<open>Edit_Theorems\<close>: the contract \<open>replacer\<close> of a strategy, kept by each of them: what it
    finds reads like what was asked for. \<open>File_Theorems\<close>, \<open>Patch_Theorems\<close>: the numbered view of a file, and the patch format as a \<open>codec\<close>.
    \<open>Edit_Properties\<close>, \<open>File_Properties\<close>: an edit changes one place, when it returns, edits together or not at all, which files
    survive an edit unharmed, what a hunk does when it matches and when it does not.
  \<^item> \<open>Context_Limits\<close> (\<^verbatim>\<open>agent/compaction_select.py\<close>, \<^verbatim>\<open>context_stall.py\<close>, \<^verbatim>\<open>doom_loop.py\<close>, \<^verbatim>\<open>tool/truncation.py\<close>) and \<open>Call_Limits\<close> (\<^verbatim>\<open>agent/stream_deadline.py\<close>,
    \<^verbatim>\<open>retry.py\<close>, \<^verbatim>\<open>_run_provider_attempts\<close> of \<^verbatim>\<open>loop.py\<close>): the history a compaction keeps, detectors of runs without progress, truncated
    outputs, deadlines and retries. \<open>Limit_Theorems\<close>, \<open>Limit_Properties\<close>: that these limits are met, and met tightly.
  \<^item> \<open>Billing\<close> (\<^verbatim>\<open>billing/service.py\<close>, \<^verbatim>\<open>subscriptions.py\<close>, \<^verbatim>\<open>payments.py\<close>, \<^verbatim>\<open>plans.py\<close>, \<^verbatim>\<open>admin.py\<close>, \<^verbatim>\<open>settle\<close> of \<^verbatim>\<open>media.py\<close>, \<^verbatim>\<open>settle_rebate\<close> of \<^verbatim>\<open>partner.py\<close>,
    \<^verbatim>\<open>db/models/billing.py\<close>): balances and the ledger, allowances by the Beijing calendar, the meter of model calls, media jobs, orders, checkouts, receipts,
    subscription terms, operator grants. \<open>Billing_Invariants\<close>: the invariant \<open>books_ok\<close> (balances, entries, terms, payments) and what keeps it; \<open>Billing_Steps\<close>: every
    transaction keeps it and the history, and the step relation \<open>billing_step\<close> of all of them. \<open>Billing_Properties\<close>: balances are sums of an append-only ledger, a payment and
    a call are booked once, prepaid terms do not overlap. \<open>Billing_Examples\<close>: concrete runs.

  \<^bold>\<open>How the components are composed\<close>

  The ledger and the inbox contain the driver's tables (\<open>base\<close> of a store, \<open>ibase\<close> of an \<open>ibx\<close>) and call
  its fence; their step relations include the driver's transactions. Both interpret \<open>fencing\<close> on
  the driver's generation, so that a superseded run can neither dispatch an effect
  (\<open>superseded_run_cannot_dispatch\<close>) nor touch the inbox (\<open>stale_run_cannot_touch_inbox\<close>). The ledger calls
  resource control inside its transactions. The scheduler and the permission system have their own states;
  the authority of a subagent is a list of rule planes that the permission system's own \<open>evaluate\<close> decides
  (\<open>bound_by\<close>), so that what it denies is a final deny there. The subagent runtime contains the driver's tables too: it
  binds an activation under the run fence of the child and stops it by \<open>request_abort\<close>, and it stores the authority that
  the theories above compute, so that a running subagent never gains a tool or a permission (\<open>subagent_never_gains_authority\<close>). The file
  tools share \<open>replace\<close> and the file server; the attempts of a step use the delays of \<open>retry_delay\<close>. The meter, the media jobs, payments, rebates and
  operators all post through \<open>post_ledger\<close> under the lock of the balance row, so that one step relation interleaves them.

  \<^bold>\<open>Bounds\<close>

  The loops of the program that could run for ever are the group of the scheduler (a step relation with a
  decreasing measure, through \<open>bounded_system\<close>) and the retry of a claim (\<open>claim_inbox_boundary\<close>, fuel one
  more than the waiting inputs suffices: each failed pass cancels at least one). Recovery of an effect is
  counted in passes: nine are enough. The loop over all occurrences of a text in \<open>replace\<close> may run for ever; it is a partial
  function whose value is \<open>None\<close> then, and \<open>replace_returns_iff\<close> says exactly when. The retry loops count up to their
  limit and terminate by that measure. Everything else is structural recursion or shortens its argument.

  \<^bold>\<open>Not modelled\<close>

  The turn loop (\<^verbatim>\<open>agent/loop.py\<close> outside the attempts of a step, \<^verbatim>\<open>processor.py\<close>, \<^verbatim>\<open>recovery.py\<close>) that calls these parts, model providers and
  prompts; in the driver, the local waits and the monitor task; in the ledger, the heartbeat around a
  provider call; in the permission system, the Redis relay between processes and the durable requests of
  assistant tasks; in the inbox, the waiters and notifications of one process, the tasks that drive a
  claimed run, message parts and the model columns of a session, and delivery to a conversation that has
  no claimed row; in the event log, its projections; in the subagent runtime, notifications after a commit, the sleeping loop
  around \<open>poll_outbox\<close> and the locks that only order claims; in the file tools, directories, the recording of changes in the
  trajectory, and the read tool's handling of binary files; in the limits, token estimates, the classification of errors by
  regular expressions, and rounding of floating point numbers; in the accounts, the prices (\<^verbatim>\<open>pricing.py\<close> and partner tariffs quote them), rounding to the decimals
  of a column, the calls to payment providers between the transactions of an order, the activation of desktops, views and reports. The rest of the backend is request handlers,
  storage, provider drivers and content production; the clients are in other languages. Next would be the turn loop over the
  modelled parts, then schedules (\<^verbatim>\<open>cron\<close>) and the quotes of \<^verbatim>\<open>billing/pricing.py\<close>.
\<close>

end
